(* ===== verification/Prelude.thy ===== *)
theory Prelude
  imports Main
begin

section \<open>Prelude: results, machine integers and table lookups\<close>

text \<open>
  What every component of the model shares.

  A Go function that returns \<open>(T, error)\<close> is a HOL function into \<open>'e + 'a\<close>, \<open>Inl\<close> the
  error. \<open>rbind\<close> is the early return \<open>if err != nil { return err }\<close>. A function that runs
  in a database transaction returns the new database with its result; an \<open>Inl\<close> carries
  no database, which is the deferred rollback.

  \<open>i64\<close> is Go's wrap-around of a signed 64-bit integer, and \<open>go_div\<close>/\<open>go_mod\<close> its
  truncating division. A database table with a primary key that the code only looks up
  is a map; one the code scans, sums or orders is the list of its rows, oldest first.
\<close>

subsection \<open>Automation shared by the components\<close>

named_theorems view_simps \<open>how a table update moves each quantity read off the tables\<close>

named_theorems keeps \<open>an operation keeps an invariant\<close>

subsection \<open>Results\<close>

fun rbind :: "'e + 'a \<Rightarrow> ('a \<Rightarrow> 'e + 'b) \<Rightarrow> 'e + 'b" where
  "rbind (Inl e) k = Inl e"
| "rbind (Inr x) k = k x"

definition guard :: "bool \<Rightarrow> 'e \<Rightarrow> 'e + unit" where
  "guard ok e = (if ok then Inr () else Inl e)"

lemma guard_Inr [simp]: "guard ok e = Inr u \<longleftrightarrow> ok"
  by (simp add: guard_def)

lemma guard_Inl [simp]: "guard ok e = Inl e' \<longleftrightarrow> \<not> ok \<and> e' = e"
  by (auto simp: guard_def)

lemma rbind_Inr_iff: "rbind r k = Inr y \<longleftrightarrow> (\<exists>x. r = Inr x \<and> k x = Inr y)"
  by (cases r) auto

lemma rbind_Inl_iff: "rbind r k = Inl e \<longleftrightarrow> r = Inl e \<or> (\<exists>x. r = Inr x \<and> k x = Inl e)"
  by (cases r) auto

lemma rbind_InrE [elim!]:
  assumes "rbind r k = Inr y"
  obtains x where "r = Inr x" "k x = Inr y"
  using assms by (cases r) auto

lemma rbind_assoc: "rbind (rbind r k) h = rbind r (\<lambda>x. rbind (k x) h)"
  by (cases r) auto

subsection \<open>Signed 64-bit arithmetic\<close>

definition i64 :: "int \<Rightarrow> int" where
  "i64 x = (x + 2 ^ 63) mod 2 ^ 64 - 2 ^ 63"

definition is_i64 :: "int \<Rightarrow> bool" where
  "is_i64 x \<longleftrightarrow> - (2 ^ 63) \<le> x \<and> x < 2 ^ 63"

lemma i64_id: "is_i64 x \<Longrightarrow> i64 x = x"
  by (simp add: i64_def is_i64_def)

lemma i64_range: "is_i64 (i64 x)"
proof -
  have "0 \<le> (x + 2 ^ 63) mod 2 ^ 64" and "(x + 2 ^ 63) mod 2 ^ 64 < (2 ^ 64 :: int)"
    by simp_all
  then show ?thesis by (simp add: i64_def is_i64_def)
qed

definition go_div :: "int \<Rightarrow> int \<Rightarrow> int" where
  "go_div a b = sgn a * sgn b * (\<bar>a\<bar> div \<bar>b\<bar>)"

definition go_mod :: "int \<Rightarrow> int \<Rightarrow> int" where
  "go_mod a b = a - b * go_div a b"

lemma go_div_nonneg: "0 \<le> a \<Longrightarrow> 0 < b \<Longrightarrow> go_div a b = a div b"
  by (cases "a = 0") (simp_all add: go_div_def)

lemma go_mod_nonneg: "0 \<le> a \<Longrightarrow> 0 < b \<Longrightarrow> go_mod a b = a mod b"
  by (simp add: go_mod_def go_div_nonneg minus_mult_div_eq_mod)

subsection \<open>Sums over the rows of a table\<close>

definition sum_where :: "('r \<Rightarrow> bool) \<Rightarrow> ('r \<Rightarrow> int) \<Rightarrow> 'r list \<Rightarrow> int" where
  "sum_where p f rows = sum_list (map f (filter p rows))"

lemma sum_where_Nil [simp]: "sum_where p f [] = 0"
  by (simp add: sum_where_def)

lemma sum_where_Cons [simp]: "sum_where p f (r # rs) = (if p r then f r else 0) + sum_where p f rs"
  by (simp add: sum_where_def)

lemma sum_where_append [simp]: "sum_where p f (rs @ ss) = sum_where p f rs + sum_where p f ss"
  by (simp add: sum_where_def)

lemma sum_where_nonneg: "(\<And>r. r \<in> set rs \<Longrightarrow> p r \<Longrightarrow> 0 \<le> f r) \<Longrightarrow> 0 \<le> sum_where p f rs"
  by (induction rs) auto

lemma sum_where_cong:
  "(\<And>r. r \<in> set rs \<Longrightarrow> (if p r then f r else 0) = (if q r then g r else 0)) \<Longrightarrow>
    sum_where p f rs = sum_where q g rs"
  by (induction rs) auto

lemma sum_where_none: "(\<And>r. r \<in> set rs \<Longrightarrow> \<not> p r) \<Longrightarrow> sum_where p f rs = 0"
  by (induction rs) auto

subsection \<open>Requests sent again\<close>

text \<open>
  An operation under an idempotency key: once it has succeeded its key is \<open>claimed\<close>, and a
  run that finds its key claimed, and the database \<open>ready\<close> to answer what it reads before it
  looks, changes nothing. \<open>run_all\<close> runs steps one after another.
\<close>

fun run_all :: "('d \<Rightarrow> 'e + 'd) list \<Rightarrow> 'd \<Rightarrow> 'e + 'd" where
  "run_all [] d = Inr d"
| "run_all (s # ss) d = rbind (s d) (run_all ss)"

lemma run_all_append: "run_all (xs @ ys) d = rbind (run_all xs d) (run_all ys)"
proof (induction xs arbitrary: d)
  case (Cons x xs)
  then show ?case by (cases "x d") simp_all
qed simp

lemma run_all_keeps:
  assumes "run_all ss d = Inr d'" and "P d"
    and "\<And>s x y. s \<in> set ss \<Longrightarrow> P x \<Longrightarrow> s x = Inr y \<Longrightarrow> P y"
  shows "P d'"
  using assms by (induction ss arbitrary: d) (auto 4 3)

locale exactly_once =
  fixes run :: "'d \<Rightarrow> 'e + 'd" and claimed ready :: "'d \<Rightarrow> bool"
  assumes claims: "run d = Inr d' \<Longrightarrow> claimed d'"
    and replay: "claimed d \<Longrightarrow> ready d \<Longrightarrow> run d = Inr d"
begin

lemma once: "run d = Inr d' \<Longrightarrow> ready d' \<Longrightarrow> run d' = Inr d'"
  using claims replay by blast

lemma many: "run d = Inr d' \<Longrightarrow> ready d' \<Longrightarrow> run_all (replicate (Suc n) run) d = Inr d'"
proof (induction n)
  case (Suc n)
  have "run_all (replicate (Suc (Suc n)) run) d = rbind (run_all (replicate (Suc n) run) d) (run_all [run])"
    by (simp only: replicate_append_same [of "Suc n" run, symmetric] replicate_Suc [of "Suc n"] run_all_append)
  then show ?case using Suc once by simp
qed simp

text \<open>Whatever else runs in between, as long as it leaves the claim standing.\<close>

lemma later:
  assumes "run d = Inr d1" and "run_all steps d1 = Inr d2"
    and "\<And>s x y. s \<in> set steps \<Longrightarrow> claimed x \<Longrightarrow> s x = Inr y \<Longrightarrow> claimed y"
    and "ready d2"
  shows "run d2 = Inr d2"
proof -
  have "claimed d2"
    using assms(2) claims [OF assms(1)] by (rule run_all_keeps [where P = claimed]) (rule assms(3))
  then show ?thesis using assms(4) by (rule replay)
qed

end

end
