(* ===== verification/Platform_Fee.thy ===== *)
theory Platform_Fee
  imports Prelude
begin

section \<open>The platform fee on AI spend (internal/economy/platform_fee.go)\<close>

text \<open>
  \<open>platform_fee64\<close> and \<open>spend_within64\<close> are the two routines as Go computes them, every
  operation wrapped to a signed 64-bit integer; \<open>platform_fee\<close> and \<open>spend_within\<close> are the
  same expressions over the integers. The first lemmas show that neither overflows on any
  amount an int64 holds, so the rest of the model uses the integer forms.

  The contract between a hold and its settle is the locale \<open>fee_schedule\<close>: a spend fits in
  a gross amount together with its fee exactly when it is at most \<open>within\<close> of it.
\<close>

definition fee_denominator :: int where
  "fee_denominator = 10000"

definition platform_fee :: "int \<Rightarrow> int \<Rightarrow> int" where
  "platform_fee amount bps =
     (if amount \<le> 0 \<or> bps \<le> 0 then 0
      else let q = amount div fee_denominator; r = amount mod fee_denominator
           in q * bps + (r * bps + fee_denominator - 1) div fee_denominator)"

definition spend_within :: "int \<Rightarrow> int \<Rightarrow> int" where
  "spend_within gross bps =
     (if gross \<le> 0 then 0
      else let d = fee_denominator + bps
           in gross div d * fee_denominator + gross mod d * fee_denominator div d)"

definition platform_fee64 :: "int \<Rightarrow> int \<Rightarrow> int" where
  "platform_fee64 amount bps =
     (if amount \<le> 0 \<or> bps \<le> 0 then 0
      else let q = i64 (go_div amount fee_denominator); r = i64 (go_mod amount fee_denominator)
           in i64 (i64 (q * bps) +
                i64 (go_div (i64 (i64 (i64 (r * bps) + fee_denominator) - 1)) fee_denominator)))"

definition spend_within64 :: "int \<Rightarrow> int \<Rightarrow> int" where
  "spend_within64 gross bps =
     (if gross \<le> 0 then 0
      else let d = i64 (fee_denominator + bps)
           in i64 (i64 (i64 (go_div gross d) * fee_denominator) +
                i64 (go_div (i64 (i64 (go_mod gross d) * fee_denominator)) d)))"

subsection \<open>Both routines in closed form\<close>

lemma platform_fee_ceiling:
  assumes "0 \<le> amount" and "0 \<le> bps"
  shows "platform_fee amount bps = (amount * bps + (fee_denominator - 1)) div fee_denominator"
proof (cases "amount = 0 \<or> bps = 0")
  case True
  then show ?thesis by (auto simp: platform_fee_def fee_denominator_def)
next
  case False
  define q r where "q = amount div 10000" and "r = amount mod 10000"
  have "amount = 10000 * q + r" by (simp add: q_def r_def)
  then have "amount * bps + 9999 = (r * bps + 9999) + 10000 * (q * bps)"
    by (simp add: algebra_simps)
  then have "(amount * bps + 9999) div 10000 = (r * bps + 9999) div 10000 + q * bps"
    by simp
  with False assms show ?thesis
    by (simp add: platform_fee_def fee_denominator_def Let_def q_def r_def)
qed

lemma spend_within_floor:
  assumes "0 \<le> gross" and "0 \<le> bps"
  shows "spend_within gross bps = gross * fee_denominator div (fee_denominator + bps)"
proof (cases "gross = 0")
  case True
  then show ?thesis by (simp add: spend_within_def)
next
  case False
  define d q r where "d = 10000 + bps" and "q = gross div d" and "r = gross mod d"
  have d: "d \<noteq> 0" using assms by (simp add: d_def)
  have "gross = d * q + r" by (simp add: q_def r_def)
  then have "gross * 10000 = r * 10000 + d * (q * 10000)"
    by (simp add: algebra_simps)
  then have "gross * 10000 div d = r * 10000 div d + q * 10000"
    using d by simp
  with False assms show ?thesis
    by (simp add: spend_within_def fee_denominator_def Let_def d_def q_def r_def)
qed

lemma int_le_div_iff:
  fixes a b c :: int
  assumes b: "0 < b"
  shows "a \<le> c div b \<longleftrightarrow> a * b \<le> c"
proof
  assume "a \<le> c div b"
  then have "a * b \<le> c div b * b" using b by (simp add: mult_right_mono)
  also have "\<dots> \<le> c" using b minus_mod_eq_div_mult [of c b] pos_mod_sign [of b c] by linarith
  finally show "a * b \<le> c" .
next
  assume "a * b \<le> c"
  then have "a * b div b \<le> c div b" using b by (rule zdiv_mono1)
  then show "a \<le> c div b" using b by simp
qed

lemma int_div_le_iff:
  fixes a b c :: int
  assumes b: "0 < b"
  shows "(c + (b - 1)) div b \<le> a \<longleftrightarrow> c \<le> a * b"
proof -
  have "(c + (b - 1)) div b \<le> a \<longleftrightarrow> \<not> a + 1 \<le> (c + (b - 1)) div b" by linarith
  also have "\<dots> \<longleftrightarrow> \<not> (a + 1) * b \<le> c + (b - 1)" using int_le_div_iff [OF b] by simp
  also have "\<dots> \<longleftrightarrow> c \<le> a * b" by (auto simp: algebra_simps)
  finally show ?thesis .
qed

text \<open>A spend fits in a gross amount with its fee exactly when it is at most \<open>spend_within\<close> of it.\<close>

lemma spend_within_iff:
  assumes "0 \<le> s" and "0 \<le> g" and "0 \<le> bps"
  shows "s \<le> spend_within g bps \<longleftrightarrow> s + platform_fee s bps \<le> g"
proof -
  have "s \<le> spend_within g bps \<longleftrightarrow> s * (fee_denominator + bps) \<le> g * fee_denominator"
    using assms by (simp add: spend_within_floor int_le_div_iff fee_denominator_def)
  also have "\<dots> \<longleftrightarrow> s * bps \<le> (g - s) * fee_denominator"
    by (simp add: algebra_simps)
  also have "\<dots> \<longleftrightarrow> platform_fee s bps \<le> g - s"
    using int_div_le_iff [of fee_denominator "s * bps" "g - s"] assms
    by (simp add: platform_fee_ceiling fee_denominator_def)
  also have "\<dots> \<longleftrightarrow> s + platform_fee s bps \<le> g" by linarith
  finally show ?thesis .
qed

lemma platform_fee_nonneg: "0 \<le> platform_fee amount bps"
  by (auto simp: platform_fee_def fee_denominator_def Let_def pos_imp_zdiv_nonneg_iff
      intro!: add_nonneg_nonneg mult_nonneg_nonneg)

lemma platform_fee_mono:
  assumes "0 \<le> s" and "s \<le> t" and "0 \<le> bps"
  shows "platform_fee s bps \<le> platform_fee t bps"
  using assms
  by (simp add: platform_fee_ceiling fee_denominator_def zdiv_mono1 mult_right_mono)

lemma platform_fee_le:
  assumes "0 \<le> s" and "0 \<le> bps" and "bps \<le> fee_denominator"
  shows "platform_fee s bps \<le> s"
proof -
  have "s * bps \<le> s * fee_denominator" using assms by (simp add: mult_left_mono)
  then show ?thesis
    using int_div_le_iff [of fee_denominator "s * bps" s] assms
    by (simp add: platform_fee_ceiling fee_denominator_def)
qed

lemma spend_within_nonneg: "0 \<le> bps \<Longrightarrow> 0 \<le> spend_within g bps"
  by (simp add: spend_within_def fee_denominator_def Let_def pos_imp_zdiv_nonneg_iff)

subsection \<open>The interface a hold and its settle share\<close>

locale fee_schedule =
  fixes fee within :: "int \<Rightarrow> int \<Rightarrow> int" and rate_ok :: "int \<Rightarrow> bool"
  assumes fee_nonneg: "0 \<le> fee s b"
    and fee_mono: "rate_ok b \<Longrightarrow> 0 \<le> s \<Longrightarrow> s \<le> t \<Longrightarrow> fee s b \<le> fee t b"
    and within_nonneg: "rate_ok b \<Longrightarrow> 0 \<le> within g b"
    and within_iff: "rate_ok b \<Longrightarrow> 0 \<le> s \<Longrightarrow> 0 \<le> g \<Longrightarrow> s \<le> within g b \<longleftrightarrow> s + fee s b \<le> g"
begin

lemma charge_fits: "rate_ok b \<Longrightarrow> 0 \<le> g \<Longrightarrow> within g b + fee (within g b) b \<le> g"
  using within_iff [of b "within g b" g] within_nonneg [of b g] by simp

lemma clamp_fits:
  assumes "rate_ok b" and "0 \<le> s" and "0 \<le> g"
  shows "min s (within g b) + fee (min s (within g b)) b \<le> g"
  using assms within_iff [of b "min s (within g b)" g] within_nonneg [of b g] by simp

text \<open>Holding an estimate with its fee leaves room for exactly that estimate.\<close>

lemma within_gross:
  assumes b: "rate_ok b" and s: "0 \<le> s"
  shows "within (s + fee s b) b = s"
proof (rule antisym)
  let ?w = "within (s + fee s b) b"
  have g: "0 \<le> s + fee s b" using s fee_nonneg [of s b] by simp
  show "s \<le> ?w" using within_iff [OF b s g] by simp
  show "?w \<le> s"
  proof (rule ccontr)
    assume "\<not> ?w \<le> s"
    then have "s + fee s b < ?w + fee ?w b" using fee_mono [OF b s, of ?w] by simp
    with charge_fits [OF b g] show False by simp
  qed
qed

lemma within_mono: "rate_ok b \<Longrightarrow> 0 \<le> g \<Longrightarrow> g \<le> h \<Longrightarrow> within g b \<le> within h b"
  using within_iff [of b "within g b" h] within_nonneg [of b g] charge_fits [of b g] by simp

lemma charge_within_gross:
  assumes "rate_ok b" and "0 \<le> s" and "s + fee s b \<le> g"
  shows "s \<le> within g b"
  using assms fee_nonneg [of s b] within_iff [of b s g] by simp

end

interpretation plan_fee: fee_schedule platform_fee spend_within "\<lambda>b. 0 \<le> b"
  by unfold_locales
    (simp_all add: platform_fee_nonneg platform_fee_mono spend_within_nonneg spend_within_iff)

subsection \<open>No amount an int64 holds overflows either routine\<close>

lemma is_i64_bounded: "\<bar>x\<bar> \<le> 9223372036854775807 \<Longrightarrow> is_i64 x"
  by (simp add: is_i64_def abs_le_iff)

lemma platform_fee64_eq:
  assumes a: "is_i64 amount" and b: "bps \<le> fee_denominator"
  shows "platform_fee64 amount bps = platform_fee amount bps"
proof (cases "amount \<le> 0 \<or> bps \<le> 0")
  case True
  then show ?thesis by (auto simp: platform_fee64_def platform_fee_def)
next
  case False
  define q r where "q = amount div 10000" and "r = amount mod 10000"
  have q: "0 \<le> q" "10000 * q \<le> amount" using False by (auto simp: q_def)
  have r: "0 \<le> r" "r < 10000" by (auto simp: r_def)
  have bps: "0 < bps" "bps \<le> 10000" using False b by (auto simp: fee_denominator_def)
  have max: "amount < 9223372036854775808" using a by (simp add: is_i64_def)
  have qb: "0 \<le> q * bps" "q * bps \<le> 10000 * q"
    using q bps mult_left_mono [of bps 10000 q] by (simp_all add: mult.commute)
  have rb: "0 \<le> r * bps" "r * bps \<le> 10000 * 10000"
    using r bps mult_mono [of r 10000 bps 10000] by simp_all
  have fit: "(9999 + r * bps) div 10000 \<le> r"
    using int_div_le_iff [of 10000 "r * bps" r] r bps
    by (simp add: mult_left_mono add.commute)
  have pos: "0 \<le> (9999 + r * bps) div 10000" using rb by (simp add: pos_imp_zdiv_nonneg_iff)
  have split: "q * bps + (9999 + r * bps) div 10000 \<le> amount"
  proof -
    have "amount = 10000 * q + r" by (simp add: q_def r_def)
    with qb fit show ?thesis by linarith
  qed
  have i: "i64 (q * bps) = q * bps"
    using qb q max by (intro i64_id is_i64_bounded) linarith
  have j: "i64 (q * bps + (9999 + r * bps) div 10000) = q * bps + (9999 + r * bps) div 10000"
    using qb pos split max by (intro i64_id is_i64_bounded) linarith
  have "platform_fee64 amount bps = q * bps + (9999 + r * bps) div 10000"
    using False rb q r pos fit split max i j
    by (simp add: platform_fee64_def fee_denominator_def Let_def go_div_nonneg go_mod_nonneg
        i64_id is_i64_def flip: q_def r_def)
  then show ?thesis
    using False
    by (simp add: platform_fee_def fee_denominator_def Let_def q_def r_def add.commute)
qed

lemma spend_within64_eq:
  assumes g: "is_i64 gross" and b: "0 \<le> bps" "bps \<le> fee_denominator"
  shows "spend_within64 gross bps = spend_within gross bps"
proof (cases "gross \<le> 0")
  case True
  then show ?thesis by (simp add: spend_within64_def spend_within_def)
next
  case False
  define d q r where "d = 10000 + bps" and "q = gross div d" and "r = gross mod d"
  have d: "10000 \<le> d" "d \<le> 20000" using b by (simp_all add: d_def fee_denominator_def)
  have q: "0 \<le> q" using False d by (simp add: q_def pos_imp_zdiv_nonneg_iff)
  have r: "0 \<le> r" "r < d" using d by (auto simp: r_def)
  have split: "q * d + r = gross" by (simp add: q_def r_def)
  have qd: "q * 10000 \<le> q * d" using q d by (simp add: mult_left_mono)
  have rd: "r * 10000 div d \<le> r"
  proof -
    have "r * 10000 \<le> r * d" using r d by (simp add: mult_left_mono)
    then have "r * 10000 div d \<le> r * d div d" using d by (intro zdiv_mono1) simp_all
    then show ?thesis using d by simp
  qed
  have max: "gross < 9223372036854775808" using g by (simp add: is_i64_def)
  have rpos: "0 \<le> r * 10000 div d" using r d by (simp add: pos_imp_zdiv_nonneg_iff)
  have qmax: "q \<le> gross" using split qd r q by simp
  have "spend_within64 gross bps = q * 10000 + r * 10000 div d"
    using False b d q r qd rd rpos split max qmax
    by (simp add: spend_within64_def fee_denominator_def Let_def go_div_nonneg go_mod_nonneg
        i64_id is_i64_def flip: d_def q_def r_def)
  then show ?thesis
    using False by (simp add: spend_within_def fee_denominator_def Let_def d_def q_def r_def)
qed

end
