(* ===== verification/Go_Text.thy ===== *)
theory Go_Text
  imports Prelude
begin

section \<open>The Go string functions the code calls\<close>

text \<open>
  \<open>strings.TrimSpace\<close>, \<open>strings.ToLower\<close>, \<open>strings.HasPrefix\<close> and the digit tests of the
  source on ASCII strings, which is what model names, clock times and time zones are.
\<close>

definition is_space :: "char \<Rightarrow> bool" where
  "is_space c = (let n = (of_char c :: nat) in n = 32 \<or> (9 \<le> n \<and> n \<le> 13))"

definition trim_left :: "string \<Rightarrow> string" where
  "trim_left s = dropWhile is_space s"

definition trim_space :: "string \<Rightarrow> string" where
  "trim_space s = rev (trim_left (rev (trim_left s)))"

definition lower_char :: "char \<Rightarrow> char" where
  "lower_char c = (let n = (of_char c :: nat) in if 65 \<le> n \<and> n \<le> 90 then char_of (n + 32) else c)"

definition to_lower :: "string \<Rightarrow> string" where
  "to_lower s = map lower_char s"

definition upper_char :: "char \<Rightarrow> char" where
  "upper_char c = (let n = (of_char c :: nat) in if 97 \<le> n \<and> n \<le> 122 then char_of (n - 32) else c)"

definition to_upper :: "string \<Rightarrow> string" where
  "to_upper s = map upper_char s"

definition is_digit :: "char \<Rightarrow> bool" where
  "is_digit c = (let n = (of_char c :: nat) in 48 \<le> n \<and> n \<le> 57)"

definition digit_value :: "char \<Rightarrow> int" where
  "digit_value c = int (of_char c) - 48"

definition has_prefix :: "string \<Rightarrow> string \<Rightarrow> bool" where
  "has_prefix s p \<longleftrightarrow> take (length p) s = p"

definition trim_prefix :: "string \<Rightarrow> string \<Rightarrow> string" where
  "trim_prefix s p = (if has_prefix s p then drop (length p) s else s)"

fun digits_value :: "string \<Rightarrow> int" where
  "digits_value [] = 0"
| "digits_value (c # cs) = digit_value c * 10 ^ length cs + digits_value cs"

lemma lower_char_idem: "lower_char (lower_char c) = lower_char c"
  by (simp add: lower_char_def Let_def of_char_of take_bit_nat_def)

lemma to_lower_idem [simp]: "to_lower (to_lower s) = to_lower s"
  by (simp add: to_lower_def lower_char_idem)

lemma is_space_lower [simp]: "is_space (lower_char c) = is_space c"
  by (simp add: is_space_def lower_char_def Let_def of_char_of take_bit_nat_def)

lemma is_digit_lower [simp]: "is_digit (lower_char c) = is_digit c"
  by (simp add: is_digit_def lower_char_def Let_def of_char_of take_bit_nat_def)

lemma dropWhile_hd: "dropWhile p xs = [] \<or> \<not> p (hd (dropWhile p xs))"
  by (induction xs) auto

lemma trim_left_idem: "trim_left (trim_left s) = trim_left s"
  by (simp add: trim_left_def)

lemma trim_left_id: "s = [] \<or> \<not> is_space (hd s) \<Longrightarrow> trim_left s = s"
  by (cases s) (auto simp: trim_left_def)

lemma hd_rev_dropWhile:
  assumes "s \<noteq> []" and "\<not> is_space (hd s)"
  shows "rev (trim_left (rev s)) \<noteq> [] \<and> hd (rev (trim_left (rev s))) = hd s"
proof -
  obtain c cs where s: "s = c # cs" using assms by (cases s) auto
  then have "trim_left (rev s) = (if \<exists>x\<in>set cs. \<not> is_space x then dropWhile is_space (rev cs) @ [c] else [c])"
    using assms by (auto simp: trim_left_def dropWhile_append)
  then show ?thesis by (simp add: s)
qed

lemma trim_space_idem [simp]: "trim_space (trim_space s) = trim_space s"
proof (cases "trim_left s = []")
  case True
  then show ?thesis by (simp add: trim_space_def) (simp add: trim_left_def)
next
  case False
  then have nsp: "\<not> is_space (hd (trim_left s))"
    using dropWhile_hd [of is_space s] by (auto simp: trim_left_def)
  let ?t = "rev (trim_left (rev (trim_left s)))"
  have "?t \<noteq> [] \<and> hd ?t = hd (trim_left s)" using hd_rev_dropWhile [OF False nsp] .
  then have "trim_left ?t = ?t" using nsp by (intro trim_left_id) auto
  then show ?thesis by (simp add: trim_space_def trim_left_idem)
qed

lemma trim_left_lower: "trim_left (to_lower s) = to_lower (trim_left s)"
  by (simp add: trim_left_def to_lower_def dropWhile_map comp_def)

lemma trim_space_lower: "trim_space (to_lower s) = to_lower (trim_space s)"
  by (simp add: trim_space_def trim_left_lower flip: to_lower_def)
    (simp add: to_lower_def rev_map trim_left_lower [unfolded to_lower_def])

end
