(* ===== verification/Plans.thy ===== *)
theory Plans
  imports Go_Text
begin

section \<open>What each plan unlocks (internal/plans/plans.go)\<close>

text \<open>
  The gates a workspace has and the refusals that name them. \<open>check_gates\<close> is what \<open>Load\<close>
  checks of the decoded JSON object, an association list of plan names and gates;
  \<open>of_under\<close> is \<open>OfUnder\<close> on the row its query reads. A refusal's message text is not
  modelled, only the fields a caller acts on.
\<close>

datatype own_keys = OwnKeysNone | OwnKeysAddOn | OwnKeysIncluded | OwnKeysOther string

record gates =
  g_agents :: int
  g_seats :: int
  g_own_keys :: own_keys
  g_live_money :: bool
  g_slack_teams :: bool
  g_sso :: bool
  g_audit_export :: bool
  g_edge :: bool

definition unlimited :: int where
  "unlimited = - 1"

definition plan_order :: "string list" where
  "plan_order = [''free'', ''team'', ''business'', ''enterprise'']"

definition no_gates :: gates where
  "no_gates = \<lparr>g_agents = 0, g_seats = 0, g_own_keys = OwnKeysOther '''', g_live_money = False,
     g_slack_teams = False, g_sso = False, g_audit_export = False, g_edge = False\<rparr>"

definition default_gates :: "string \<rightharpoonup> gates" where
  "default_gates = [
     ''free'' \<mapsto> \<lparr>g_agents = 3, g_seats = 1, g_own_keys = OwnKeysNone, g_live_money = False,
       g_slack_teams = False, g_sso = False, g_audit_export = False, g_edge = False\<rparr>,
     ''team'' \<mapsto> \<lparr>g_agents = 25, g_seats = 5, g_own_keys = OwnKeysAddOn, g_live_money = True,
       g_slack_teams = True, g_sso = False, g_audit_export = False, g_edge = False\<rparr>,
     ''business'' \<mapsto> \<lparr>g_agents = unlimited, g_seats = 25, g_own_keys = OwnKeysIncluded,
       g_live_money = True, g_slack_teams = True, g_sso = True, g_audit_export = True, g_edge = False\<rparr>,
     ''enterprise'' \<mapsto> \<lparr>g_agents = unlimited, g_seats = unlimited, g_own_keys = OwnKeysIncluded,
       g_live_money = True, g_slack_teams = True, g_sso = True, g_audit_export = True, g_edge = True\<rparr>]"

datatype gates_error = UnknownPlan string | PlanMissing string | BadCounts string | BadOwnKeys string

definition known_plan :: "string \<Rightarrow> bool" where
  "known_plan p = list_ex (\<lambda>q. q = p) plan_order"

fun check_plans :: "(string \<rightharpoonup> gates) \<Rightarrow> string list \<Rightarrow> gates_error + unit" where
  "check_plans m [] = Inr ()"
| "check_plans m (name # rest) =
     (case m name of
        None \<Rightarrow> Inl (PlanMissing name)
      | Some g \<Rightarrow>
          if g_agents g < unlimited \<or> g_seats g < unlimited then Inl (BadCounts name)
          else if g_own_keys g \<noteq> OwnKeysNone \<and> g_own_keys g \<noteq> OwnKeysAddOn \<and>
              g_own_keys g \<noteq> OwnKeysIncluded then Inl (BadOwnKeys name)
          else check_plans m rest)"

definition check_gates :: "(string \<times> gates) list \<Rightarrow> gates_error + (string \<rightharpoonup> gates)" where
  "check_gates entries =
     (case find (\<lambda>(name, _). \<not> known_plan name) entries of
        Some (name, _) \<Rightarrow> Inl (UnknownPlan name)
      | None \<Rightarrow> rbind (check_plans (map_of (rev entries)) plan_order) (\<lambda>_.
          Inr (map_of (rev entries))))"

subsection \<open>A workspace's plan\<close>

datatype subscription_status = Trialing | Active | PastDue | NotPaying string

record subscription =
  su_plan :: string
  su_status :: subscription_status
  su_byok :: bool

record contract =
  co_plan :: string
  co_agents :: "int option"
  co_seats :: "int option"

record plan_row =
  pr_contract :: "contract option"
  pr_subscription :: "subscription option"
  pr_synthetic_plan :: "string option"
  pr_synthetic :: bool

record plan_workspace =
  pw_plan :: string
  pw_gated_as :: string
  pw_byok :: bool
  pw_gates :: gates

definition paying :: "subscription option \<Rightarrow> subscription option" where
  "paying su = (case su of
     Some s \<Rightarrow> (if su_status s = Trialing \<or> su_status s = Active \<or> su_status s = PastDue
       then Some s else None)
   | None \<Rightarrow> None)"

definition plan_of_row :: "plan_row \<Rightarrow> string" where
  "plan_of_row r =
     (case pr_contract r of Some c \<Rightarrow> co_plan c | None \<Rightarrow>
      case paying (pr_subscription r) of Some s \<Rightarrow> su_plan s | None \<Rightarrow>
      case pr_synthetic_plan r of Some p \<Rightarrow> p | None \<Rightarrow> ''free'')"

definition of_under :: "(string \<rightharpoonup> gates) \<Rightarrow> plan_row \<Rightarrow> plan_workspace" where
  "of_under gs r =
     (let plan = plan_of_row r;
          gated = (if plan = ''plus'' \<or> plan = ''pro'' \<or> plan = ''max'' then ''free''
            else if plan = ''byok'' then ''team'' else plan);
          (gated, g) = (case gs gated of
             Some g \<Rightarrow> (gated, g)
           | None \<Rightarrow> (''free'', (case gs ''free'' of Some g \<Rightarrow> g | None \<Rightarrow> no_gates)));
          g = (if plan = ''byok'' then g\<lparr>g_own_keys := OwnKeysIncluded\<rparr> else g);
          g = (case pr_contract r of
             Some c \<Rightarrow> (case co_agents c of Some n \<Rightarrow> g\<lparr>g_agents := n\<rparr> | None \<Rightarrow> g) | None \<Rightarrow> g);
          g = (case pr_contract r of
             Some c \<Rightarrow> (case co_seats c of Some n \<Rightarrow> g\<lparr>g_seats := n\<rparr> | None \<Rightarrow> g) | None \<Rightarrow> g);
          g = (if pr_synthetic r then g\<lparr>g_live_money := False\<rparr> else g)
      in \<lparr>pw_plan = plan, pw_gated_as = gated,
          pw_byok = (case paying (pr_subscription r) of Some s \<Rightarrow> su_byok s | None \<Rightarrow> False),
          pw_gates = g\<rparr>)"

definition own_keys_allowed :: "plan_workspace \<Rightarrow> bool" where
  "own_keys_allowed w =
     (g_own_keys (pw_gates w) = OwnKeysIncluded \<or>
      (g_own_keys (pw_gates w) = OwnKeysAddOn \<and> pw_byok w))"

definition within_limit :: "int \<Rightarrow> int \<Rightarrow> bool" where
  "within_limit n limit = (limit = unlimited \<or> n \<le> limit)"

text \<open>A lookup in a Go map: the zero value when the key is absent.\<close>

definition gates_at :: "(string \<rightharpoonup> gates) \<Rightarrow> string \<Rightarrow> gates" where
  "gates_at gs p = (case gs p of Some g \<Rightarrow> g | None \<Rightarrow> no_gates)"

fun allowing_from :: "bool \<Rightarrow> string \<Rightarrow> (string \<rightharpoonup> gates) \<Rightarrow> (gates \<Rightarrow> bool) \<Rightarrow> string list \<Rightarrow> string" where
  "allowing_from past own gs ok [] = ''''"
| "allowing_from past own gs ok (p # ps) =
     (if past \<and> ok (gates_at gs p) then p
      else allowing_from (past \<or> p = own) own gs ok ps)"

definition allowing :: "plan_workspace \<Rightarrow> (string \<rightharpoonup> gates) \<Rightarrow> (gates \<Rightarrow> bool) \<Rightarrow> string" where
  "allowing w gs ok = allowing_from False (pw_gated_as w) gs ok plan_order"

record plan_refusal =
  pf_plan :: string
  pf_gate :: string
  pf_limit :: "int option"
  pf_allows :: string

definition count_of :: "string \<Rightarrow> gates \<Rightarrow> int" where
  "count_of gate g = (if gate = ''seats'' then g_seats g else g_agents g)"

definition refuse_count :: "plan_workspace \<Rightarrow> (string \<rightharpoonup> gates) \<Rightarrow> string \<Rightarrow> int \<Rightarrow> plan_refusal" where
  "refuse_count w gs gate limit =
     \<lparr>pf_plan = pw_plan w, pf_gate = gate, pf_limit = Some limit,
      pf_allows = allowing w gs (\<lambda>g. let n = (if gate = ''agents'' then g_agents g
          else if gate = ''seats'' then g_seats g else 0)
        in n = unlimited \<or> n > limit)\<rparr>"

definition check_seats :: "(string \<rightharpoonup> gates) \<Rightarrow> plan_workspace \<Rightarrow> int \<Rightarrow> plan_refusal + unit" where
  "check_seats gs w members =
     (if within_limit members (g_seats (pw_gates w)) then Inr ()
      else Inl (refuse_count w gs ''seats'' (g_seats (pw_gates w))))"

definition refuse_own_keys :: "plan_workspace \<Rightarrow> (string \<rightharpoonup> gates) \<Rightarrow> plan_refusal" where
  "refuse_own_keys w gs =
     \<lparr>pf_plan = pw_plan w, pf_gate = ''own_provider_keys'', pf_limit = None,
      pf_allows = (if g_own_keys (pw_gates w) = OwnKeysAddOn
        then allowing w gs (\<lambda>g. g_own_keys g = OwnKeysIncluded)
        else allowing w gs (\<lambda>g. g_own_keys g \<noteq> OwnKeysNone))\<rparr>"

definition refuse_live_money :: "plan_workspace \<Rightarrow> (string \<rightharpoonup> gates) \<Rightarrow> plan_refusal" where
  "refuse_live_money w gs =
     \<lparr>pf_plan = pw_plan w, pf_gate = ''live_money'', pf_limit = None,
      pf_allows = allowing w gs g_live_money\<rparr>"

subsection \<open>The gates a process runs with are those of every plan\<close>

lemma check_plans_Inr:
  assumes "check_plans m ps = Inr u" and "p \<in> set ps"
  shows "\<exists>g. m p = Some g \<and> unlimited \<le> g_agents g \<and> unlimited \<le> g_seats g"
  using assms by (induction ps) (auto split: option.splits if_splits)

lemma check_gates_Inr:
  assumes "check_gates entries = Inr m"
  shows "m = map_of (rev entries)" and "dom m = set plan_order"
proof -
  from assms have c: "m = map_of (rev entries)" "check_plans m plan_order = Inr ()"
    "find (\<lambda>(name, _). \<not> known_plan name) entries = None"
    by (auto simp: check_gates_def rbind_Inr_iff split: option.splits)
  then show "m = map_of (rev entries)" by simp
  have "dom m \<subseteq> set plan_order"
    using c(1,3) by (auto simp: find_None_iff dom_map_of_conv_image_fst known_plan_def list_ex_iff)
  moreover have "set plan_order \<subseteq> dom m" using check_plans_Inr [OF c(2)] by blast
  ultimately show "dom m = set plan_order" by simp
qed

lemma default_gates_valid: "check_plans default_gates plan_order = Inr ()"
  by (simp add: plan_order_def default_gates_def unlimited_def)

subsection \<open>A refusal names a plan that would allow it\<close>

lemma allowing_from_sound:
  "allowing_from past own gs ok ps = p \<Longrightarrow> p \<noteq> '''' \<Longrightarrow>
    ok (gates_at gs p) \<and> (\<exists>xs ys. ps = xs @ p # ys \<and> (past \<or> own \<in> set xs))"
proof (induction ps arbitrary: past)
  case (Cons q qs)
  show ?case
  proof (cases "past \<and> ok (gates_at gs q)")
    case True
    with Cons.prems have "q = p" by simp
    with True show ?thesis by (metis append_Nil)
  next
    case False
    with Cons.prems have r: "allowing_from (past \<or> q = own) own gs ok qs = p" by auto
    from Cons.IH [OF r Cons.prems(2)] obtain xs ys
      where ok: "ok (gates_at gs p)" and s: "qs = xs @ p # ys" "(past \<or> q = own) \<or> own \<in> set xs" by blast
    have "q # qs = (q # xs) @ p # ys" using s(1) by simp
    moreover have "past \<or> own \<in> set (q # xs)" using s(2) by auto
    ultimately show ?thesis using ok by blast
  qed
qed simp

lemma allowing_from_complete:
  "allowing_from past own gs ok ps = '''' \<Longrightarrow> '''' \<notin> set ps \<Longrightarrow>
    \<forall>xs p ys. ps = xs @ p # ys \<and> (past \<or> own \<in> set xs) \<longrightarrow> \<not> ok (gates_at gs p)"
proof (induction ps arbitrary: past)
  case (Cons q qs)
  have no: "\<not> (past \<and> ok (gates_at gs q))" using Cons.prems by (auto split: if_splits)
  then have r: "allowing_from (past \<or> q = own) own gs ok qs = ''''" using Cons.prems(1) by auto
  have ih: "\<forall>xs p ys. qs = xs @ p # ys \<and> ((past \<or> q = own) \<or> own \<in> set xs) \<longrightarrow> \<not> ok (gates_at gs p)"
    using Cons.IH [OF r] Cons.prems(2) by simp
  show ?case
  proof (intro allI impI)
    fix xs p ys
    assume a: "q # qs = xs @ p # ys \<and> (past \<or> own \<in> set xs)"
    then show "\<not> ok (gates_at gs p)"
      using no ih by (cases xs) auto
  qed
qed simp

lemma allowing_sound:
  assumes "allowing w gs ok = p" and "p \<noteq> ''''"
  shows "ok (gates_at gs p)"
    and "\<exists>xs ys. plan_order = xs @ p # ys \<and> pw_gated_as w \<in> set xs"
  using allowing_from_sound [of False "pw_gated_as w" gs ok plan_order p] assms
  by (simp_all add: allowing_def)

lemma allowing_complete:
  assumes "allowing w gs ok = ''''" and "plan_order = xs @ p # ys" and "pw_gated_as w \<in> set xs"
  shows "\<not> ok (gates_at gs p)"
proof -
  have "'''' \<notin> set plan_order" by (simp add: plan_order_def)
  then show ?thesis
    using allowing_from_complete [OF assms(1) [unfolded allowing_def]] assms(2,3) by blast
qed

lemma of_under_synthetic:
  "pr_synthetic r \<Longrightarrow> \<not> g_live_money (pw_gates (of_under gs r))"
  by (simp add: of_under_def Let_def split: prod.split)

end
