(* ===== verification/Capability_List.thy ===== *)
theory Capability_List
  imports Plans
begin

section \<open>The wallet's capabilities and what refuses them (wallet_capabilities.go)\<close>

text \<open>
  Every thing a wallet can do, with the class that says which money it takes and the
  verification level its live money needs, as the source lists them, and the reasons a use of
  one is refused. The operations that judge a use are in \<open>Capabilities\<close>.
\<close>

datatype cap_class = Green | Amber | Red

record capability =
  cp_key :: string
  cp_name :: string
  cp_class :: cap_class
  cp_level :: int

definition level_signed_in :: int where "level_signed_in = 0"
definition level_contact :: int where "level_contact = 1"
definition level_identity :: int where "level_identity = 2"
definition level_company :: int where "level_company = 3"

definition capability_of :: "string \<times> string \<times> cap_class \<times> int \<Rightarrow> capability" where
  "capability_of c = (case c of (key, name, class, level) \<Rightarrow>
     \<lparr>cp_key = key, cp_name = name, cp_class = class, cp_level = level\<rparr>)"

definition capabilities :: "capability list" where
  "capabilities = map capability_of
    [(''spend_on_talyvor'', ''Spending on Talyvor'', Green, level_signed_in),
     (''buy_marketplace_listings'', ''Buying marketplace listings'', Green, level_signed_in),
     (''rent_and_subscribe_listings'', ''Renting and subscribing to marketplace listings'', Green, level_signed_in),
     (''lineage_royalties'', ''Royalties to the authors of remixed listings, paid from marketplace sales'', Green, level_signed_in),
     (''move_between_own_agents'', ''Moving money between one owner's own agents'', Green, level_signed_in),
     (''rules_approvals_statements_pots'', ''Rules, approvals, statements and pots'', Green, level_signed_in),
     (''company_credit_line'', ''Talyvor's credit line to companies, for Talyvor services'', Green, level_signed_in),
     (''pay_another_owner'', ''Sending and requesting money between different owners'', Amber, level_identity),
     (''loans_between_companies'', ''Loans between companies'', Amber, level_company),
     (''escrow'', ''Escrow between agents'', Amber, level_identity),
     (''cash_out'', ''Cashing credits out as money'', Red, level_identity),
     (''credit_involving_a_person'', ''Any loan or credit involving a private user'', Red, level_company),
     (''interest_and_yield'', ''Interest or yield'', Red, level_identity),
     (''invest_and_trade'', ''Investing and trading real assets'', Red, level_identity),
     (''agent_card'', ''Cards'', Red, level_identity),
     (''currency_accounts'', ''Accounts in pounds, euros, dollars and USDC'', Red, level_identity),
     (''account_details'', ''Account details others can pay into'', Red, level_identity),
     (''payments_in'', ''Receiving money from outside Talyvor'', Red, level_identity),
     (''payments_out'', ''Paying people and companies outside Talyvor'', Red, level_identity),
     (''pay_by_bank'', ''Topping up by a payment from your own bank'', Amber, level_identity),
     (''fx'', ''Converting between currencies'', Red, level_identity),
     (''stablecoins'', ''Stablecoin balances and transfers'', Red, level_identity),
     (''x402'', ''Paying and being paid over HTTP 402'', Red, level_identity),
     (''merchant_acceptance'', ''Accepting payments from agents as a business'', Red, level_company),
     (''b2b_credit'', ''Credit lines and loans to companies'', Amber, level_company),
     (''seller_advances'', ''Advances against marketplace earnings'', Amber, level_company),
     (''lending_marketplace'', ''Companies lending to companies through the marketplace'', Amber, level_company),
     (''trade_equities'', ''Trading shares through a broker partner'', Red, level_identity),
     (''trade_crypto'', ''Trading crypto through a broker partner'', Red, level_identity),
     (''trade_prediction'', ''Prediction-market trading'', Red, level_identity),
     (''treasury_sweep'', ''Idle money in a money-market fund'', Red, level_identity),
     (''price_lock'', ''Prepaid usage at today's prices'', Amber, level_identity),
     (''cover'', ''Cover for agent mistakes'', Red, level_identity),
     (''payouts_to_people'', ''Paying people for tasks'', Red, level_identity)]"

definition b30 :: "string list" where
  "b30 = [''currency_accounts'', ''account_details'', ''payments_in'', ''payments_out'', ''pay_by_bank'',
     ''fx'', ''stablecoins'', ''x402'', ''merchant_acceptance'', ''b2b_credit'', ''seller_advances'',
     ''lending_marketplace'', ''trade_equities'', ''trade_crypto'', ''trade_prediction'',
     ''treasury_sweep'', ''price_lock'', ''cover'', ''payouts_to_people'']"

definition capability_by_key :: "string \<Rightarrow> capability option" where
  "capability_by_key key = find (\<lambda>c. cp_key c = key) capabilities"

subsection \<open>What refuses a use\<close>

record freeze =
  fz_ws :: string
  fz_case :: string
  fz_reason :: string
  fz_by :: string
  fz_at :: int

record level_limit =
  ll_level :: int
  ll_currency :: string
  ll_limit :: int
  ll_operator :: string
  ll_reference :: string
  ll_at :: int

record level_refusal =
  lf_needed :: int
  lf_have :: int
  lf_no_limit :: bool
  lf_currency :: string
  lf_limit :: "level_limit option"
  lf_amount :: int

text \<open>\<open>CapabilityRefusal\<close>: which of its pointers is set, \<open>Uncleared\<close> when none is.\<close>

datatype cap_reason =
    Uncleared
  | ByPlan plan_refusal
  | ByLevel level_refusal
  | ByFreeze freeze
  | ByTerms int
  | ByCountry string "string list"

record cap_refusal =
  cf_capability :: capability
  cf_reason :: cap_reason

subsection \<open>The list\<close>

lemma capability_keys_distinct: "distinct (map cp_key capabilities)"
  by (simp add: capabilities_def capability_of_def)

lemma capability_by_key_key: "capability_by_key key = Some c \<Longrightarrow> cp_key c = key"
  by (auto simp: capability_by_key_def find_Some_iff)

lemma capability_by_key_self: "c \<in> set capabilities \<Longrightarrow> capability_by_key (cp_key c) = Some c"
proof -
  have "find (\<lambda>c. cp_key c = cp_key b) cs = Some b" if "distinct (map cp_key cs)" "b \<in> set cs" for b and cs :: "capability list"
    using that by (induction cs) auto
  then show "c \<in> set capabilities \<Longrightarrow> capability_by_key (cp_key c) = Some c"
    using capability_keys_distinct by (simp add: capability_by_key_def)
qed

lemma move_between_own_agents_green:
  "\<exists>c. capability_by_key ''move_between_own_agents'' = Some c \<and> cp_class c = Green \<and>
     cp_key c \<notin> set b30 \<and> cp_key c = ''move_between_own_agents''"
  by (simp add: capability_by_key_def capabilities_def capability_of_def b30_def)

lemma amber_capabilities:
  "\<exists>c. capability_by_key ''pay_another_owner'' = Some c \<and> cp_class c = Amber \<and> cp_key c = ''pay_another_owner''"
  "\<exists>c. capability_by_key ''escrow'' = Some c \<and> cp_class c = Amber \<and> cp_key c = ''escrow''"
  "\<exists>c. capability_by_key ''loans_between_companies'' = Some c \<and> cp_class c = Amber \<and>
     cp_key c = ''loans_between_companies''"
  by (simp_all add: capability_by_key_def capabilities_def capability_of_def)

text \<open>Every capability B30 registers is on the list, and none of them is GREEN.\<close>

lemma b30_not_green: "key \<in> set b30 \<Longrightarrow> \<exists>c. capability_by_key key = Some c \<and> cp_class c \<noteq> Green"
proof -
  have "list_all (\<lambda>k. case capability_by_key k of Some c \<Rightarrow> cp_class c \<noteq> Green | None \<Rightarrow> False) b30"
    by code_simp
  then show "key \<in> set b30 \<Longrightarrow> ?thesis" by (fastforce simp: list_all_iff split: option.splits)
qed

end
