(* ===== verification/Clock.thy ===== *)
theory Clock
  imports Prelude
begin

section \<open>Times, calendars and time zones\<close>

text \<open>
  An instant is its nanoseconds since 1 January 1970 UTC. \<open>tz\<close> is what the code asks of a
  \<open>*time.Location\<close>: the civil reading of an instant (\<open>t.In(loc)\<close> and its fields) and
  \<open>time.Date(y, m, d, 0, 0, 0, 0, loc)\<close>, whose day may lie outside the month. \<open>utc\<close> is
  \<open>time.UTC\<close>; other zones come from the tz database and are a parameter. \<open>calendar\<close> is what
  the period limits rely on of a zone, and \<open>utc\<close> satisfies it.
\<close>

record civil =
  ci_year :: int
  ci_month :: int
  ci_mday :: int
  ci_hour :: int
  ci_minute :: int
  ci_second :: int
  ci_nano :: int
  ci_weekday :: int \<comment> \<open>Sunday is 0\<close>

record tz =
  tz_civil :: "int \<Rightarrow> civil"
  tz_date :: "int \<Rightarrow> int \<Rightarrow> int \<Rightarrow> int"

definition ns_second :: int where "ns_second = 1000000000"
definition ns_minute :: int where "ns_minute = 60 * ns_second"
definition ns_hour :: int where "ns_hour = 60 * ns_minute"
definition ns_day :: int where "ns_day = 24 * ns_hour"

lemmas ns_defs = ns_day_def ns_hour_def ns_minute_def ns_second_def

subsection \<open>The Gregorian calendar\<close>

definition is_leap :: "int \<Rightarrow> bool" where
  "is_leap y \<longleftrightarrow> 4 dvd y \<and> (\<not> 100 dvd y \<or> 400 dvd y)"

definition year_days :: "int \<Rightarrow> int" where
  "year_days y = (if is_leap y then 366 else 365)"

definition month_days :: "int \<Rightarrow> int list" where
  "month_days y = [31, if is_leap y then 29 else 28, 31, 30, 31, 30, 31, 31, 30, 31, 30, 31]"

text \<open>Days from 1 January 1970 to 1 January of a year.\<close>

definition days_before_year :: "int \<Rightarrow> int" where
  "days_before_year y =
     365 * (y - 1970) + ((y - 1) div 4 - 492) - ((y - 1) div 100 - 19) + ((y - 1) div 400 - 4)"

definition days_before_month :: "int \<Rightarrow> int \<Rightarrow> int" where
  "days_before_month y m = sum_list (take (nat (m - 1)) (month_days y))"

function year_of :: "int \<Rightarrow> int \<Rightarrow> int \<times> int" where
  "year_of y n =
     (if n < 0 then year_of (y - 1) (n + year_days (y - 1))
      else if n \<ge> year_days y then year_of (y + 1) (n - year_days y)
      else (y, n))"
  by pat_completeness auto

termination
  by (relation "measure (\<lambda>(y, n). if n < 0 then nat (1000 - n) else nat n)")
    (auto simp: year_days_def split: if_splits)

declare year_of.simps [simp del]

fun month_of :: "int \<Rightarrow> int list \<Rightarrow> int \<Rightarrow> int \<times> int" where
  "month_of m [] n = (m, n)"
| "month_of m (l # ls) n = (if n < l then (m, n) else month_of (m + 1) ls (n - l))"

definition civil_of_days :: "int \<Rightarrow> int \<times> int \<times> int" where
  "civil_of_days n =
     (case year_of 1970 n of (y, doy) \<Rightarrow>
        case month_of 1 (month_days y) doy of (m, d) \<Rightarrow> (y, m, d + 1))"

definition days_of_civil :: "int \<Rightarrow> int \<Rightarrow> int \<Rightarrow> int" where
  "days_of_civil y m d = days_before_year y + days_before_month y m + (d - 1)"

definition utc :: tz where
  "utc = \<lparr>tz_civil = (\<lambda>t.
     case civil_of_days (t div ns_day) of (y, m, d) \<Rightarrow>
       \<lparr>ci_year = y, ci_month = m, ci_mday = d, ci_hour = t mod ns_day div ns_hour,
        ci_minute = t mod ns_hour div ns_minute, ci_second = t mod ns_minute div ns_second,
        ci_nano = t mod ns_second, ci_weekday = (t div ns_day + 4) mod 7\<rparr>),
     tz_date = (\<lambda>y m d. days_of_civil y m d * ns_day)\<rparr>"

subsection \<open>The calendar counts every day once\<close>

lemma days_before_year_Suc: "days_before_year (y + 1) = days_before_year y + year_days y"
proof -
  have q: "y div k = (y - 1) div k + (if k dvd y then 1 else 0)" if "0 < k" for k :: int
  proof -
    have "y = (y - 1) div k * k + ((y - 1) mod k + 1)" by simp
    moreover have "0 \<le> (y - 1) mod k" "(y - 1) mod k < k" using that by simp_all
    ultimately show ?thesis
    proof (cases "(y - 1) mod k + 1 = k")
      case True
      then have "y = k * ((y - 1) div k + 1)"
        using minus_mod_eq_mult_div [of "y - 1" k] by (simp add: algebra_simps)
      then have "k dvd y" "y div k = (y - 1) div k + 1"
        using that by (metis dvd_triv_left, metis nonzero_mult_div_cancel_left less_numeral_extra(3))
      then show ?thesis by simp
    next
      case False
      define a b where "a = (y - 1) div k" and "b = (y - 1) mod k + 1"
      have b: "0 < b" "b < k" using that False pos_mod_bound [of k "y - 1"] pos_mod_sign [of k "y - 1"]
        unfolding b_def by linarith+
      have y: "y = k * a + b" unfolding a_def b_def using mult_div_mod_eq [of k "y - 1"] by linarith
      have "y mod k = b" using b y by simp
      then have "\<not> k dvd y" using b by (simp add: dvd_eq_mod_eq_0)
      moreover have "y div k = a" using b y by simp
      ultimately show ?thesis by (simp add: a_def)
    qed
  qed
  have l: "is_leap y \<longleftrightarrow> 4 dvd y \<and> (100 dvd y \<longrightarrow> 400 dvd y)" by (auto simp: is_leap_def)
  have i: "100 dvd y \<Longrightarrow> 4 dvd y" "400 dvd y \<Longrightarrow> 100 dvd y"
    by (rule dvd_trans [of 4 100]; simp)+ (rule dvd_trans [of 100 400]; simp)
  have sum: "365 * (y + 1 - 1970) + (A - 492) - (B - 19) + (C - 4) =
      365 * (y - 1970) + (a - 492) - (b - 19) + (c - 4) + (if P \<and> (Q \<longrightarrow> R) then 366 else 365)"
    if "A = a + (if P then 1 else 0)" "B = b + (if Q then 1 else 0)" "C = c + (if R then 1 else 0)"
      "Q \<Longrightarrow> P" "R \<Longrightarrow> Q" for A B C a b c :: int and P Q R
    using that by auto
  show ?thesis
    unfolding days_before_year_def year_days_def l add_diff_cancel_right'
    by (rule sum) (use i in \<open>simp_all add: q\<close>)
qed

lemma year_of_inv:
  "year_of y n = (y', n') \<Longrightarrow> days_before_year y' + n' = days_before_year y + n \<and> 0 \<le> n' \<and> n' < year_days y'"
proof (induction y n arbitrary: y' n' rule: year_of.induct)
  case (1 y n)
  consider "n < 0" | "0 \<le> n" "n \<ge> year_days y" | "0 \<le> n" "n < year_days y" by linarith
  then show ?case
  proof cases
    case 1
    with "1.IH"(1) "1.prems" have "days_before_year y' + n' = days_before_year (y - 1) + (n + year_days (y - 1)) \<and> 0 \<le> n' \<and> n' < year_days y'"
      by (subst (asm) (2) year_of.simps) simp
    then show ?thesis using days_before_year_Suc [of "y - 1"] by simp
  next
    case 2
    with "1.IH"(2) "1.prems" have "days_before_year y' + n' = days_before_year (y + 1) + (n - year_days y) \<and> 0 \<le> n' \<and> n' < year_days y'"
      by (subst (asm) (2) year_of.simps) simp
    then show ?thesis using days_before_year_Suc [of y] by simp
  next
    case 3
    then have "year_of y n = (y, n)" by (subst year_of.simps) simp
    with "1.prems" 3 show ?thesis by simp
  qed
qed

lemma month_of_inv:
  "month_of m ls n = (m', d) \<Longrightarrow> 0 \<le> n \<Longrightarrow> n < sum_list ls \<Longrightarrow>
    m \<le> m' \<and> m' < m + int (length ls) \<and> 0 \<le> d \<and> d < ls ! nat (m' - m) \<and>
    sum_list (take (nat (m' - m)) ls) + d = n"
proof (induction m ls n rule: month_of.induct)
  case (2 m l ls n)
  show ?case
  proof (cases "n < l")
    case True
    with 2 show ?thesis by simp
  next
    case False
    with 2 have "m + 1 \<le> m' \<and> m' < m + 1 + int (length ls) \<and> 0 \<le> d \<and> d < ls ! nat (m' - (m + 1)) \<and>
        sum_list (take (nat (m' - (m + 1))) ls) + d = n - l" by simp
    moreover from this have "nat (m' - m) = Suc (nat (m' - (m + 1)))" by linarith
    ultimately show ?thesis using False by simp
  qed
qed simp

lemma sum_month_days: "sum_list (month_days y) = year_days y"
  by (simp add: month_days_def year_days_def)

text \<open>\<open>days_of_civil\<close> undoes \<open>civil_of_days\<close>, and a date's month and day are real ones.\<close>

lemma civil_of_days_inv:
  assumes "civil_of_days n = (y, m, d)"
  shows "days_of_civil y m d = n" and "1 \<le> m" "m \<le> 12" and "1 \<le> d" "d \<le> month_days y ! nat (m - 1)"
proof -
  obtain doy where yo: "year_of 1970 n = (y, doy)" and mo: "month_of 1 (month_days y) doy = (m, d - 1)"
    using assms by (auto simp: civil_of_days_def split: prod.splits)
  have y: "days_before_year y + doy = n \<and> 0 \<le> doy \<and> doy < year_days y"
    using year_of_inv [OF yo] by (simp add: days_before_year_def)
  have m: "1 \<le> m \<and> m < 1 + int (length (month_days y)) \<and> 0 \<le> d - 1 \<and>
      d - 1 < month_days y ! nat (m - 1) \<and> sum_list (take (nat (m - 1)) (month_days y)) + (d - 1) = doy"
    using month_of_inv [OF mo] y by (simp add: sum_month_days)
  then show "days_of_civil y m d = n"
    using y by (simp add: days_of_civil_def days_before_month_def)
  from m show "1 \<le> m" "m \<le> 12" "1 \<le> d" "d \<le> month_days y ! nat (m - 1)"
    by (simp_all add: month_days_def)
qed

subsection \<open>What the period limits rely on\<close>

locale calendar =
  fixes zone :: tz
  assumes day_begun: "tz_civil zone t = c \<Longrightarrow> tz_date zone (ci_year c) (ci_month c) (ci_mday c) \<le> t"
    and earlier_day: "d \<le> e \<Longrightarrow> tz_date zone y m d \<le> tz_date zone y m e"
    and first_day: "1 \<le> ci_mday (tz_civil zone t)"
    and clock: "0 \<le> ci_minute (tz_civil zone t)" "0 \<le> ci_second (tz_civil zone t)"
      "0 \<le> ci_nano (tz_civil zone t)"
begin

lemma period_begun:
  assumes "tz_civil zone t = c" and "d \<le> ci_mday c"
  shows "tz_date zone (ci_year c) (ci_month c) d \<le> t"
  using earlier_day [OF assms(2)] day_begun [OF assms(1)] by (rule order_trans)

end

interpretation utc: calendar utc
proof
  show "tz_date utc (ci_year c) (ci_month c) (ci_mday c) \<le> t" if c: "tz_civil utc t = c" for t c
  proof -
    obtain y m d where ymd: "civil_of_days (t div ns_day) = (y, m, d)" by (metis prod_cases3)
    have "tz_date utc (ci_year c) (ci_month c) (ci_mday c) = days_of_civil y m d * ns_day"
      using c ymd by (auto simp: utc_def)
    also have "\<dots> = t div ns_day * ns_day" using civil_of_days_inv(1) [OF ymd] by simp
    also have "\<dots> \<le> t" using minus_mod_eq_div_mult [of t ns_day] pos_mod_sign [of ns_day t] by (simp add: ns_defs)
    finally show ?thesis .
  qed
  show "1 \<le> ci_mday (tz_civil utc t)" for t
  proof -
    obtain y m d where ymd: "civil_of_days (t div ns_day) = (y, m, d)" by (metis prod_cases3)
    then show ?thesis using civil_of_days_inv(4) [OF ymd] by (simp add: utc_def)
  qed
qed (simp_all add: utc_def days_of_civil_def ns_defs pos_imp_zdiv_nonneg_iff split: prod.split)

end
