(* ===== verification/Wallet_State.thy ===== *)
theory Wallet_State
  imports Platform_Fee Capability_List Clock
begin

section \<open>The wallet's tables, its errors and the state of a request\<close>

text \<open>
  The rows of the tables under migrations/ that the wallet of internal/economy reads and
  writes, with the columns its code uses. Amounts are \<open>int\<close> (BIGINT \<mu>LXC), times are
  \<open>int\<close> nanoseconds. Text columns whose values the code draws from a fixed list
  (\<open>status\<close>, \<open>kind\<close>, the ledger's \<open>type\<close>, the account names \<open>agent:\<dots>\<close>, \<open>pot:\<dots>\<close>)
  are datatypes. \<open>ctx\<close> is what the code carries in its \<open>context.Context\<close>, and
  \<open>store\<close> the fields of \<open>DualTokenStore\<close> that are functions wired in from outside.
\<close>

subsection \<open>What a request carries (agent_rules.go)\<close>

record payee =
  py_kind :: string
  py_id :: string
  py_name :: string

record commitment =
  cm_kind :: string
  cm_licence :: string
  cm_renews :: bool
  cm_ulxc :: int

record agent_request =
  rq_model :: string
  rq_provider :: string
  rq_fingerprint :: string
  rq_at :: "int option"
  rq_payment :: bool
  rq_listing :: string
  rq_payee :: payee
  rq_memo :: string
  rq_commitment :: commitment

definition no_payee :: payee where
  "no_payee = \<lparr>py_kind = '''', py_id = '''', py_name = ''''\<rparr>"

definition no_commitment :: commitment where
  "no_commitment = \<lparr>cm_kind = '''', cm_licence = '''', cm_renews = False, cm_ulxc = 0\<rparr>"

definition no_request :: agent_request where
  "no_request = \<lparr>rq_model = '''', rq_provider = '''', rq_fingerprint = '''', rq_at = None,
     rq_payment = False, rq_listing = '''', rq_payee = no_payee, rq_memo = '''',
     rq_commitment = no_commitment\<rparr>"

record ctx =
  cx_now :: int
  cx_request :: "agent_request option"
  cx_move_key :: string
  cx_charge_request :: string
  cx_memo :: string
  cx_changed_by :: string
  cx_change :: string

text \<open>\<open>agentRequestFrom\<close>: the request a context carries, its time now when it names none.\<close>

definition agent_request_from :: "ctx \<Rightarrow> agent_request" where
  "agent_request_from cx =
     (let req = (case cx_request cx of None \<Rightarrow> no_request | Some r \<Rightarrow> r)
      in case rq_at req of
           None \<Rightarrow> req\<lparr>rq_at := Some (cx_now cx)\<rparr>
         | Some _ \<Rightarrow> req)"

definition req_time :: "ctx \<Rightarrow> agent_request \<Rightarrow> int" where
  "req_time cx req = (case rq_at req of None \<Rightarrow> cx_now cx | Some t \<Rightarrow> t)"

subsection \<open>Errors\<close>

datatype refusal =
    Archived
  | AllPaused string
  | Paused string
  | TimezoneUnreadable string
  | OutsideActiveHours string string string
  | ModelNotAllowed string
  | ProviderNotAllowed string
  | ListingNotAllowed string
  | PersonalLicence string string
  | LicenceNotAllowed string string
  | MayNotSubscribe
  | MayNotRenew string
  | CommitmentTooLarge string int int
  | PayeeBlocked string string
  | PayeeNotAllowed string string
  | OverPerRequest int int
  | OverPeriod string int int int
  | OverModel string int int int
  | OverPayee string int int int
  | NothingToApproveBy
  | InvalidRules string

record approval_needed =
  an_amount :: int
  an_ws :: string
  an_agent :: string
  an_request :: agent_request

datatype err =
    ErrInvalid string
  | ErrInsufficientLXC
  | ErrSubBudgetExceeded
  | ErrAgentNotFound
  | ErrAgentOwnerless
  | ErrAgentFunds int
  | ErrAgentArchived
  | ErrAgentPotsHeld int
  | ErrRoomWalletKey
  | ErrAgentRule refusal
  | ErrAgentRequestRate int int
  | ErrApprovalNeeded approval_needed
  | ErrApprovalRequired string
  | ErrApprovalNotFound
  | ErrBoostNotFound
  | ErrPotNotFound
  | ErrPotLocked int
  | ErrPot string
  | ErrFeeRate string int
  | ErrPlan plan_refusal
  | ErrUnknownReservation string
  | ErrUnknownDebit string
  | ErrDbCheck string
  | ErrSameAgent
  | ErrOwnerUnverified
  | ErrMoneyWall
  | ErrNoCapability string
  | ErrCapability cap_refusal
  | ErrTerms string
  | ErrHandle string
  | ErrRequestNotFound
  | ErrTransferNotFound
  | ErrAlreadyRefunded
  | ErrEscrowNotFound
  | ErrEscrowTerms string
  | ErrLoanCompaniesOnly
  | ErrLoanNotFound
  | ErrLoanTerms string
  | ErrScheduleNotFound
  | ErrWashTrade string
  | ErrListingPayee string
  | ErrApprovalNotNeeded
  | ErrReceiptNotFound
  | ErrBadSimulation string

subsection \<open>Rows\<close>

record lxc_row =
  lx_balance :: int
  lx_minted :: int
  lx_spent :: int
  lx_cash_backed :: int
  lx_test_funded :: int

datatype lxc_type =
    ConvertFromLENS | Spend | Purchase | AdminGrant | PlatformFee
  | ReservationHold | ReservationRelease | CreditLineDraw | LxcTransfer | LxcEscrow

datatype meta_value = MStr string | MInt int | MFloat nat

type_synonym metadata = "string \<rightharpoonup> meta_value"

record ledger_row =
  lr_ws :: string
  lr_amount :: int
  lr_after :: int
  lr_type :: lxc_type
  lr_desc :: string
  lr_meta :: metadata
  lr_at :: int

datatype reservation_status = Held | Settled | Released

record reservation =
  rv_id :: string
  rv_key :: string
  rv_ws :: string
  rv_held :: int
  rv_settled :: "int option"
  rv_status :: reservation_status
  rv_model :: "string option"
  rv_request :: "string option"
  rv_bps :: int
  rv_at :: int

record subbudget =
  sb_ws :: string
  sb_ceiling :: int
  sb_spent :: int

record spend_claim =
  cl_key :: string
  cl_amount :: int
  cl_bps :: int

record debit_settlement =
  ds_ws :: string
  ds_key :: string
  ds_agent :: "string option"
  ds_request :: "string option"
  ds_estimate :: int
  ds_delivered :: int
  ds_settled :: int
  ds_written_off :: int

datatype agent_kind = KindAgent | KindRoom

record agent_row =
  ag_id :: string
  ag_ws :: string
  ag_name :: string
  ag_desc :: string
  ag_owner :: string
  ag_kind :: agent_kind
  ag_paused_at :: "int option"
  ag_paused_reason :: string
  ag_archived_at :: "int option"
  ag_created_at :: int

datatype account =
    WorkspaceAcc | SpendAcc | CashedOutAcc | AgentAcc string | PotAcc string | EscrowAcc string

datatype posting_kind =
    PkFund | PkWithdraw | PkSpend | PkHold | PkSettle | PkRelease | PkCard | PkFee | PkPay
  | PkPotIn | PkPotOut | PkCreditLine | PkTransfer | PkEscrow | PkTopUp

record posting =
  po_entry :: nat
  po_ws :: string
  po_account :: account
  po_amount :: int
  po_kind :: posting_kind
  po_ref :: string
  po_model :: "string option"
  po_fee_bps :: "int option"
  po_memo :: string
  po_at :: int

record rules_row =
  ru_ws :: string
  ru_max_per_request :: "int option"
  ru_hourly :: "int option"
  ru_daily :: "int option"
  ru_weekly :: "int option"
  ru_monthly :: "int option"
  ru_approval_above :: "int option"
  ru_models :: "string list"
  ru_providers :: "string list"
  ru_listings :: "string list"
  ru_active_from :: "string option"
  ru_active_until :: "string option"
  ru_timezone :: string
  ru_pause_on_unusual :: bool
  ru_model_daily :: "(string \<times> int) list"
  ru_rpm :: "int option"
  ru_allowed_payees :: "string list"
  ru_blocked_payees :: "string list"
  ru_payee_daily :: "(string \<times> int) list"
  ru_max_commitment :: "int option"
  ru_licences :: "string list"
  ru_may_subscribe :: bool

record rules_version =
  rn_agent :: string
  rn_version :: int
  rn_rules :: rules_row
  rn_by :: string
  rn_change :: string

datatype limit_rule =
    MaxPerRequestRule | HourlyRule | DailyRule | WeeklyRule | MonthlyRule
  | ApprovalAboveRule | RequestsPerMinuteRule

record boost =
  bo_agent :: string
  bo_ws :: string
  bo_rule :: limit_rule
  bo_raised_from :: int
  bo_value :: int
  bo_until :: int
  bo_by :: string

datatype approval_status = Pending | Approved | Denied | Used

record approval =
  ap_id :: string
  ap_ws :: string
  ap_agent :: string
  ap_fingerprint :: string
  ap_amount :: int
  ap_model :: string
  ap_payee :: payee
  ap_memo :: string
  ap_status :: approval_status
  ap_decided_at :: "int option"
  ap_used_ref :: "string option"
  ap_reason :: string
  ap_at :: int

record spend_alert =
  al_ws :: string
  al_agent :: string
  al_last_hour :: int
  al_usual :: int
  al_paused :: bool
  al_at :: int

record payee_payment =
  pp_ws :: string
  pp_agent :: string
  pp_kind :: string
  pp_ids :: "string list"
  pp_amount :: int
  pp_ref :: string
  pp_at :: int

record pot =
  pt_id :: string
  pt_ws :: string
  pt_agent :: string
  pt_name :: string
  pt_kind :: string
  pt_target :: int
  pt_locked_until :: "int option"

record credit_line =
  cr_limit :: int
  cr_paused :: bool

record credit_draw =
  cd_ws :: string
  cd_agent :: string
  cd_amount :: int
  cd_ref :: string
  cd_invoice :: "string option"

record credit_invoice =
  ci_id :: string
  ci_ws :: string
  ci_due :: int
  ci_paid :: "int option"

record workspace_row =
  wk_synthetic :: bool
  wk_name :: string
  wk_company :: bool
  wk_synthetic_plan :: "string option"

record kya_credential =
  ky_agent :: string
  ky_ws :: string
  ky_expires :: int
  ky_revoked :: "(int \<times> string) option"

text \<open>Rows other parts of the program write and the wallet only reads.\<close>

record market_use =
  mu_buyer :: string
  mu_agent :: string
  mu_price :: int
  mu_billed :: bool
  mu_at :: int

record money_payment =
  mp_ws :: string
  mp_agent :: string
  mp_value :: int
  mp_failed :: bool \<comment> \<open>status failed or returned\<close>
  mp_at :: int

record listing_row =
  li_ws :: string
  li_title :: string

record agent_schedule =
  sc_id :: string
  sc_ws :: string
  sc_from :: string
  sc_to :: string
  sc_listing :: string
  sc_amount :: int
  sc_memo :: string
  sc_every :: string
  sc_next :: int
  sc_end :: "int option"
  sc_active :: bool
  sc_at :: int

record topup_row =
  tu_agent :: string
  tu_ws :: string
  tu_below :: int
  tu_to :: int

subsection \<open>The database\<close>

record db =
  balances :: "string \<rightharpoonup> lxc_row"
  ledger :: "ledger_row list"
  reservations :: "reservation list"
  subbudgets :: "string \<rightharpoonup> subbudget"
  claims :: "(string \<times> spend_claim) list"
  settlements :: "string \<rightharpoonup> debit_settlement"
  agents :: "agent_row list"
  agent_keys :: "(string \<times> string) list"
  api_keys :: "(string \<times> string) list"
  postings :: "posting list"
  acct_balances :: "((string \<times> account) \<times> int) list"
  next_entry :: nat
  rules :: "string \<rightharpoonup> rules_row"
  rules_versions :: "rules_version list"
  boosts :: "boost list"
  approvals :: "approval list"
  alerts :: "spend_alert list"
  ws_pauses :: "string \<rightharpoonup> string"
  payee_payments :: "payee_payment list"
  pots :: "pot list"
  credit_lines :: "string \<rightharpoonup> credit_line"
  credit_draws :: "credit_draw list"
  credit_invoices :: "credit_invoice list"
  workspaces :: "string \<rightharpoonup> workspace_row"
  contracts :: "string \<rightharpoonup> contract"
  subscriptions :: "string \<rightharpoonup> subscription"
  kya_credentials :: "kya_credential list"
  market_uses :: "market_use list"
  money_payments :: "money_payment list"
  listings :: "string \<rightharpoonup> listing_row"
  topups :: "topup_row list"
  schedules :: "agent_schedule list"

definition empty_db :: db where
  "empty_db = \<lparr>balances = Map.empty, ledger = [], reservations = [], subbudgets = Map.empty,
     claims = [], settlements = Map.empty, agents = [], agent_keys = [], api_keys = [],
     postings = [], acct_balances = [], next_entry = 0, rules = Map.empty, rules_versions = [], boosts = [],
     approvals = [], alerts = [], ws_pauses = Map.empty, payee_payments = [], pots = [],
     credit_lines = Map.empty, credit_draws = [], credit_invoices = [], workspaces = Map.empty,
     contracts = Map.empty, subscriptions = Map.empty,
     kya_credentials = [], market_uses = [], money_payments = [], listings = Map.empty,
     topups = [], schedules = []\<rparr>"

text \<open>
  \<open>st_zone\<close> is \<open>time.LoadLocation\<close>, \<open>st_gates\<close> \<open>plans.Current()\<close>, \<open>st_fee\<close> the wired \<open>PlatformFeeResolver\<close>, \<open>st_room_budget\<close> the wired
  \<open>RoomBudgets\<close>; \<open>st_pool\<close> is false for the store without a database.
\<close>

record store =
  st_pool :: bool
  st_zone :: "string \<rightharpoonup> tz"
  st_gates :: "string \<rightharpoonup> gates"
  st_fee :: "(db \<Rightarrow> string \<Rightarrow> err + int) option"
  st_room_budget :: "(db \<Rightarrow> string \<Rightarrow> int \<Rightarrow> err + unit) option"

end
