(* ===== verification/Wallet_Ops.thy ===== *)
theory Wallet_Ops
  imports Wallet_State
begin

section \<open>The balance row and the credit ledger (dualtoken.go, cash_backed.go, wallet_capabilities.go)\<close>

text \<open>
  The transaction-scoped helpers every movement of a workspace's credits is made of, in the
  order of the source: \<open>readLXCBalance\<close>, \<open>writeLXCBalance\<close> with its clamp of the test-funded
  part, \<open>insertLXCLedger\<close>, the cash-backed part, the platform fee's row and a lot's funding.

  The quantities the properties speak of (\<open>bal_of\<close>, \<open>cash_of\<close>, \<open>ledger_sum\<close>, \<open>held_sum\<close>,
  \<dots>) are read off the tables; the \<open>view_simps\<close> lemmas say how each helper moves each of
  them, and the proofs about operations rest on those and never unfold a helper.
\<close>

subsection \<open>Quantities read off the tables\<close>

definition has_row :: "db \<Rightarrow> string \<Rightarrow> bool" where
  "has_row d w \<longleftrightarrow> balances d w \<noteq> None"

definition row_of :: "db \<Rightarrow> string \<Rightarrow> lxc_row" where
  "row_of d w = (case balances d w of
     None \<Rightarrow> \<lparr>lx_balance = 0, lx_minted = 0, lx_spent = 0, lx_cash_backed = 0, lx_test_funded = 0\<rparr>
   | Some r \<Rightarrow> r)"

definition bal_of :: "db \<Rightarrow> string \<Rightarrow> int" where
  "bal_of d w = lx_balance (row_of d w)"

definition minted_of :: "db \<Rightarrow> string \<Rightarrow> int" where
  "minted_of d w = lx_minted (row_of d w)"

definition spent_of :: "db \<Rightarrow> string \<Rightarrow> int" where
  "spent_of d w = lx_spent (row_of d w)"

definition cash_of :: "db \<Rightarrow> string \<Rightarrow> int" where
  "cash_of d w = lx_cash_backed (row_of d w)"

definition test_of :: "db \<Rightarrow> string \<Rightarrow> int" where
  "test_of d w = lx_test_funded (row_of d w)"

definition held_sum :: "db \<Rightarrow> string \<Rightarrow> int" where
  "held_sum d w = sum_where (\<lambda>r. rv_ws r = w \<and> rv_status r = Held) rv_held (reservations d)"

definition ledger_sum :: "db \<Rightarrow> string \<Rightarrow> int" where
  "ledger_sum d w = sum_where (\<lambda>r. lr_ws r = w) lr_amount (ledger d)"

subsection \<open>readLXCBalance, writeLXCBalance and insertLXCLedger\<close>

definition ensure_lxc_row :: "db \<Rightarrow> string \<Rightarrow> db" where
  "ensure_lxc_row d w =
     (case balances d w of
        None \<Rightarrow> d\<lparr>balances := (balances d)(w \<mapsto>
          \<lparr>lx_balance = 0, lx_minted = 0, lx_spent = 0, lx_cash_backed = 0, lx_test_funded = 0\<rparr>)\<rparr>
      | Some r \<Rightarrow> d)"

definition read_lxc_balance :: "db \<Rightarrow> string \<Rightarrow> db \<times> int \<times> int \<times> int" where
  "read_lxc_balance d w =
     (let d = ensure_lxc_row d w; r = row_of d w
      in (d, lx_balance r, lx_minted r, lx_spent r))"

definition clamp_test_funded :: "int \<Rightarrow> int \<Rightarrow> int \<Rightarrow> int" where
  "clamp_test_funded funded bal held =
     (if funded \<le> bal then funded else min funded (max (bal + held) 0))"

definition write_lxc_balance :: "db \<Rightarrow> string \<Rightarrow> int \<Rightarrow> int \<Rightarrow> int \<Rightarrow> db" where
  "write_lxc_balance d w bal minted spent =
     (case balances d w of
        None \<Rightarrow> d
      | Some r \<Rightarrow> d\<lparr>balances := (balances d)(w \<mapsto> r\<lparr>lx_balance := bal, lx_minted := minted,
          lx_spent := spent,
          lx_test_funded := clamp_test_funded (lx_test_funded r) bal (held_sum d w)\<rparr>)\<rparr>)"

definition insert_lxc_ledger ::
    "ctx \<Rightarrow> db \<Rightarrow> string \<Rightarrow> int \<Rightarrow> int \<Rightarrow> lxc_type \<Rightarrow> string \<Rightarrow> metadata \<Rightarrow> db" where
  "insert_lxc_ledger cx d w delta after ty desc meta =
     d\<lparr>ledger := ledger d @ [\<lparr>lr_ws = w, lr_amount = delta, lr_after = after, lr_type = ty,
        lr_desc = desc, lr_meta = meta, lr_at = cx_now cx\<rparr>]\<rparr>"

definition get_lxc_balance :: "store \<Rightarrow> db \<Rightarrow> string \<Rightarrow> int" where
  "get_lxc_balance s d w =
     (if \<not> st_pool s then 0 else case balances d w of None \<Rightarrow> 0 | Some r \<Rightarrow> lx_balance r)"

subsection \<open>The cash-backed part of a balance\<close>

definition read_cash_backed :: "db \<Rightarrow> string \<Rightarrow> err + int" where
  "read_cash_backed d w = (case balances d w of
     None \<Rightarrow> Inl (ErrInvalid ''read cash-backed'') | Some r \<Rightarrow> Inr (lx_cash_backed r))"

definition write_cash_backed :: "db \<Rightarrow> string \<Rightarrow> int \<Rightarrow> db" where
  "write_cash_backed d w v =
     (let v = (if v < 0 then 0 else v)
      in case balances d w of
           None \<Rightarrow> d
         | Some r \<Rightarrow> d\<lparr>balances := (balances d)(w \<mapsto> r\<lparr>lx_cash_backed := v\<rparr>)\<rparr>)"

definition from_cash :: "int \<Rightarrow> int \<Rightarrow> int \<Rightarrow> int" where
  "from_cash cash before spend =
     (let unbacked = (if before - cash < 0 then 0 else before - cash);
          from_unbacked = (if spend > unbacked then unbacked else spend);
          part = spend - from_unbacked
      in if part > cash then cash else part)"

definition consume_cash_backed :: "db \<Rightarrow> string \<Rightarrow> int \<Rightarrow> int \<Rightarrow> err + db \<times> int" where
  "consume_cash_backed d w before spend =
     (if spend \<le> 0 then Inr (d, 0)
      else rbind (read_cash_backed d w) (\<lambda>cash.
        let part = from_cash cash before spend
        in Inr (if part > 0 then write_cash_backed d w (cash - part) else d, part)))"

definition test_workspace :: "db \<Rightarrow> string \<Rightarrow> bool" where
  "test_workspace d w = (case workspaces d w of None \<Rightarrow> False | Some r \<Rightarrow> wk_synthetic r)"

definition royalty_backed :: "db \<Rightarrow> string \<Rightarrow> int \<Rightarrow> int \<Rightarrow> int" where
  "royalty_backed d w charged part =
     (if part \<ge> charged then part
      else if \<not> test_workspace d w then part
      else charged)"

definition add_cash_backed :: "db \<Rightarrow> string \<Rightarrow> int \<Rightarrow> err + db" where
  "add_cash_backed d w amount =
     (if amount \<le> 0 then Inr d
      else rbind (read_cash_backed d w) (\<lambda>cur. Inr (write_cash_backed d w (cur + amount))))"

definition reduce_cash_backed_for_refund :: "db \<Rightarrow> string \<Rightarrow> int \<Rightarrow> err + db" where
  "reduce_cash_backed_for_refund d w refund =
     (if refund \<le> 0 then Inr d
      else rbind (read_cash_backed d w) (\<lambda>cur.
        let next = (if cur - refund < 0 then 0 else cur - refund)
        in Inr (write_cash_backed d w next)))"

subsection \<open>What paid for a lot\<close>

definition lot_funding :: "lxc_type \<Rightarrow> int \<Rightarrow> metadata \<Rightarrow> metadata \<times> int" where
  "lot_funding ty amount meta =
     (if ty = AdminGrant then (meta(''funding'' \<mapsto> MStr ''grant''), 0)
      else case meta ''test_funded_ulxc'' of
        Some (MInt part) \<Rightarrow> (meta, min (max part 0) amount)
      | _ \<Rightarrow>
          if meta ''funding'' = Some (MStr ''test'') then (meta, amount)
          else (if meta ''funding'' = None then meta(''funding'' \<mapsto> MStr ''live'') else meta, 0))"

definition add_test_funded :: "db \<Rightarrow> string \<Rightarrow> int \<Rightarrow> db" where
  "add_test_funded d w amount =
     (if amount \<le> 0 then d
      else case balances d w of
        None \<Rightarrow> d
      | Some r \<Rightarrow> d\<lparr>balances := (balances d)(w \<mapsto>
          r\<lparr>lx_test_funded := lx_test_funded r + amount\<rparr>)\<rparr>)"

definition test_funded_ulxc :: "db \<Rightarrow> string \<Rightarrow> int" where
  "test_funded_ulxc d w =
     (case balances d w of
        None \<Rightarrow> 0
      | Some r \<Rightarrow>
          let up_to = max (lx_balance r + held_sum d w) 0
          in if test_workspace d w then up_to else min (lx_test_funded r) up_to)"

subsection \<open>The platform fee's rate and its ledger row\<close>

definition platform_fee_bps :: "store \<Rightarrow> db \<Rightarrow> string \<Rightarrow> err + int" where
  "platform_fee_bps s d w =
     (case st_fee s of
        None \<Rightarrow> Inr 0
      | Some resolve \<Rightarrow>
          rbind (resolve d w) (\<lambda>bps.
            if bps < 0 \<or> bps > fee_denominator then Inl (ErrFeeRate w bps) else Inr bps))"

definition platform_fee_on :: "store \<Rightarrow> db \<Rightarrow> string \<Rightarrow> int \<Rightarrow> err + int" where
  "platform_fee_on s d w amount =
     (if \<not> st_pool s then Inr 0
      else rbind (platform_fee_bps s d w) (\<lambda>bps. Inr (platform_fee amount bps)))"

fun show_nat :: "nat \<Rightarrow> string" where
  "show_nat n = (if n < 10 then [char_of (48 + n)]
     else show_nat (n div 10) @ [char_of (48 + n mod 10)])"

declare show_nat.simps [simp del]

text \<open>\<open>strconv.FormatFloat(float64(bps)/100, 'f', -1, 64)\<close>: at most two decimals, no trailing zero.\<close>

definition fee_label :: "int \<Rightarrow> string" where
  "fee_label bps =
     (let n = nat bps; whole = show_nat (n div 100); tenth = n mod 100 div 10; last = n mod 10
      in ''Platform fee '' @ whole @
         (if n mod 100 = 0 then '''' else if last = 0 then ''.'' @ show_nat tenth
          else ''.'' @ show_nat tenth @ show_nat last) @ ''%'')"

definition insert_platform_fee ::
    "ctx \<Rightarrow> db \<Rightarrow> string \<Rightarrow> int \<Rightarrow> int \<Rightarrow> int \<Rightarrow> int \<Rightarrow> string \<Rightarrow> db" where
  "insert_platform_fee cx d w fee after bps spend request =
     (if fee = 0 then d
      else
        let meta = [''platform_fee_bps'' \<mapsto> MInt bps, ''spend_ulxc'' \<mapsto> MInt spend];
            meta = (if request \<noteq> '''' then meta(''request_id'' \<mapsto> MStr request) else meta);
            desc = (if fee < 0 then fee_label bps @ '', refunded with the estimate''
                    else fee_label bps)
        in insert_lxc_ledger cx d w (- fee) after PlatformFee desc meta)"

subsection \<open>What each helper leaves alone\<close>

lemma ensure_lxc_row_frame [simp]:
  shows "ledger (ensure_lxc_row d w) = ledger d"
    and "reservations (ensure_lxc_row d w) = reservations d"
    and "subbudgets (ensure_lxc_row d w) = subbudgets d"
    and "claims (ensure_lxc_row d w) = claims d"
    and "settlements (ensure_lxc_row d w) = settlements d"
    and "agents (ensure_lxc_row d w) = agents d"
    and "agent_keys (ensure_lxc_row d w) = agent_keys d"
    and "api_keys (ensure_lxc_row d w) = api_keys d"
    and "postings (ensure_lxc_row d w) = postings d"
    and "acct_balances (ensure_lxc_row d w) = acct_balances d"
    and "next_entry (ensure_lxc_row d w) = next_entry d"
    and "rules (ensure_lxc_row d w) = rules d"
    and "rules_versions (ensure_lxc_row d w) = rules_versions d"
    and "boosts (ensure_lxc_row d w) = boosts d"
    and "approvals (ensure_lxc_row d w) = approvals d"
    and "alerts (ensure_lxc_row d w) = alerts d"
    and "ws_pauses (ensure_lxc_row d w) = ws_pauses d"
    and "payee_payments (ensure_lxc_row d w) = payee_payments d"
    and "pots (ensure_lxc_row d w) = pots d"
    and "credit_lines (ensure_lxc_row d w) = credit_lines d"
    and "credit_draws (ensure_lxc_row d w) = credit_draws d"
    and "credit_invoices (ensure_lxc_row d w) = credit_invoices d"
    and "workspaces (ensure_lxc_row d w) = workspaces d"
    and "contracts (ensure_lxc_row d w) = contracts d"
    and "subscriptions (ensure_lxc_row d w) = subscriptions d"
    and "kya_credentials (ensure_lxc_row d w) = kya_credentials d"
    and "market_uses (ensure_lxc_row d w) = market_uses d"
    and "money_payments (ensure_lxc_row d w) = money_payments d"
    and "listings (ensure_lxc_row d w) = listings d" and "topups (ensure_lxc_row d w) = topups d"
    and "schedules (ensure_lxc_row d w) = schedules d"
  by (simp_all add: ensure_lxc_row_def split: option.split)

lemma write_lxc_balance_frame [simp]:
  shows "ledger (write_lxc_balance d w b m s) = ledger d"
    and "reservations (write_lxc_balance d w b m s) = reservations d"
    and "subbudgets (write_lxc_balance d w b m s) = subbudgets d"
    and "claims (write_lxc_balance d w b m s) = claims d"
    and "settlements (write_lxc_balance d w b m s) = settlements d"
    and "agents (write_lxc_balance d w b m s) = agents d"
    and "agent_keys (write_lxc_balance d w b m s) = agent_keys d"
    and "api_keys (write_lxc_balance d w b m s) = api_keys d"
    and "postings (write_lxc_balance d w b m s) = postings d"
    and "acct_balances (write_lxc_balance d w b m s) = acct_balances d"
    and "next_entry (write_lxc_balance d w b m s) = next_entry d"
    and "rules (write_lxc_balance d w b m s) = rules d"
    and "rules_versions (write_lxc_balance d w b m s) = rules_versions d"
    and "boosts (write_lxc_balance d w b m s) = boosts d"
    and "approvals (write_lxc_balance d w b m s) = approvals d"
    and "alerts (write_lxc_balance d w b m s) = alerts d"
    and "ws_pauses (write_lxc_balance d w b m s) = ws_pauses d"
    and "payee_payments (write_lxc_balance d w b m s) = payee_payments d"
    and "pots (write_lxc_balance d w b m s) = pots d"
    and "credit_lines (write_lxc_balance d w b m s) = credit_lines d"
    and "credit_draws (write_lxc_balance d w b m s) = credit_draws d"
    and "credit_invoices (write_lxc_balance d w b m s) = credit_invoices d"
    and "workspaces (write_lxc_balance d w b m s) = workspaces d"
    and "contracts (write_lxc_balance d w b m s) = contracts d"
    and "subscriptions (write_lxc_balance d w b m s) = subscriptions d"
    and "kya_credentials (write_lxc_balance d w b m s) = kya_credentials d"
    and "market_uses (write_lxc_balance d w b m s) = market_uses d"
    and "money_payments (write_lxc_balance d w b m s) = money_payments d"
    and "listings (write_lxc_balance d w b m s) = listings d"
    and "topups (write_lxc_balance d w b m s) = topups d"
    and "schedules (write_lxc_balance d w b m s) = schedules d"
  by (simp_all add: write_lxc_balance_def split: option.split)

lemma insert_lxc_ledger_frame [simp]:
  shows "balances (insert_lxc_ledger cx d w x a ty desc meta) = balances d"
    and "reservations (insert_lxc_ledger cx d w x a ty desc meta) = reservations d"
    and "subbudgets (insert_lxc_ledger cx d w x a ty desc meta) = subbudgets d"
    and "claims (insert_lxc_ledger cx d w x a ty desc meta) = claims d"
    and "settlements (insert_lxc_ledger cx d w x a ty desc meta) = settlements d"
    and "agents (insert_lxc_ledger cx d w x a ty desc meta) = agents d"
    and "agent_keys (insert_lxc_ledger cx d w x a ty desc meta) = agent_keys d"
    and "api_keys (insert_lxc_ledger cx d w x a ty desc meta) = api_keys d"
    and "postings (insert_lxc_ledger cx d w x a ty desc meta) = postings d"
    and "acct_balances (insert_lxc_ledger cx d w x a ty desc meta) = acct_balances d"
    and "next_entry (insert_lxc_ledger cx d w x a ty desc meta) = next_entry d"
    and "rules (insert_lxc_ledger cx d w x a ty desc meta) = rules d"
    and "rules_versions (insert_lxc_ledger cx d w x a ty desc meta) = rules_versions d"
    and "boosts (insert_lxc_ledger cx d w x a ty desc meta) = boosts d"
    and "approvals (insert_lxc_ledger cx d w x a ty desc meta) = approvals d"
    and "alerts (insert_lxc_ledger cx d w x a ty desc meta) = alerts d"
    and "ws_pauses (insert_lxc_ledger cx d w x a ty desc meta) = ws_pauses d"
    and "payee_payments (insert_lxc_ledger cx d w x a ty desc meta) = payee_payments d"
    and "pots (insert_lxc_ledger cx d w x a ty desc meta) = pots d"
    and "credit_lines (insert_lxc_ledger cx d w x a ty desc meta) = credit_lines d"
    and "credit_draws (insert_lxc_ledger cx d w x a ty desc meta) = credit_draws d"
    and "credit_invoices (insert_lxc_ledger cx d w x a ty desc meta) = credit_invoices d"
    and "workspaces (insert_lxc_ledger cx d w x a ty desc meta) = workspaces d"
    and "contracts (insert_lxc_ledger cx d w x a ty desc meta) = contracts d"
    and "subscriptions (insert_lxc_ledger cx d w x a ty desc meta) = subscriptions d"
    and "kya_credentials (insert_lxc_ledger cx d w x a ty desc meta) = kya_credentials d"
    and "market_uses (insert_lxc_ledger cx d w x a ty desc meta) = market_uses d"
    and "money_payments (insert_lxc_ledger cx d w x a ty desc meta) = money_payments d"
    and "listings (insert_lxc_ledger cx d w x a ty desc meta) = listings d"
    and "topups (insert_lxc_ledger cx d w x a ty desc meta) = topups d"
    and "schedules (insert_lxc_ledger cx d w x a ty desc meta) = schedules d"
  by (simp_all add: insert_lxc_ledger_def)

lemma write_cash_backed_frame [simp]:
  shows "ledger (write_cash_backed d w v) = ledger d"
    and "reservations (write_cash_backed d w v) = reservations d"
    and "subbudgets (write_cash_backed d w v) = subbudgets d"
    and "claims (write_cash_backed d w v) = claims d"
    and "settlements (write_cash_backed d w v) = settlements d"
    and "agents (write_cash_backed d w v) = agents d"
    and "agent_keys (write_cash_backed d w v) = agent_keys d"
    and "api_keys (write_cash_backed d w v) = api_keys d"
    and "postings (write_cash_backed d w v) = postings d"
    and "acct_balances (write_cash_backed d w v) = acct_balances d"
    and "next_entry (write_cash_backed d w v) = next_entry d"
    and "rules (write_cash_backed d w v) = rules d"
    and "rules_versions (write_cash_backed d w v) = rules_versions d"
    and "boosts (write_cash_backed d w v) = boosts d"
    and "approvals (write_cash_backed d w v) = approvals d"
    and "alerts (write_cash_backed d w v) = alerts d"
    and "ws_pauses (write_cash_backed d w v) = ws_pauses d"
    and "payee_payments (write_cash_backed d w v) = payee_payments d"
    and "pots (write_cash_backed d w v) = pots d"
    and "credit_lines (write_cash_backed d w v) = credit_lines d"
    and "credit_draws (write_cash_backed d w v) = credit_draws d"
    and "credit_invoices (write_cash_backed d w v) = credit_invoices d"
    and "workspaces (write_cash_backed d w v) = workspaces d"
    and "contracts (write_cash_backed d w v) = contracts d"
    and "subscriptions (write_cash_backed d w v) = subscriptions d"
    and "kya_credentials (write_cash_backed d w v) = kya_credentials d"
    and "market_uses (write_cash_backed d w v) = market_uses d"
    and "money_payments (write_cash_backed d w v) = money_payments d"
    and "listings (write_cash_backed d w v) = listings d"
    and "topups (write_cash_backed d w v) = topups d"
    and "schedules (write_cash_backed d w v) = schedules d"
  by (simp_all add: write_cash_backed_def Let_def split: option.split)

lemma add_test_funded_frame [simp]:
  shows "ledger (add_test_funded d w v) = ledger d"
    and "reservations (add_test_funded d w v) = reservations d"
    and "subbudgets (add_test_funded d w v) = subbudgets d"
    and "claims (add_test_funded d w v) = claims d"
    and "settlements (add_test_funded d w v) = settlements d"
    and "agents (add_test_funded d w v) = agents d"
    and "agent_keys (add_test_funded d w v) = agent_keys d"
    and "api_keys (add_test_funded d w v) = api_keys d"
    and "postings (add_test_funded d w v) = postings d"
    and "acct_balances (add_test_funded d w v) = acct_balances d"
    and "next_entry (add_test_funded d w v) = next_entry d"
    and "rules (add_test_funded d w v) = rules d"
    and "rules_versions (add_test_funded d w v) = rules_versions d"
    and "boosts (add_test_funded d w v) = boosts d"
    and "approvals (add_test_funded d w v) = approvals d"
    and "alerts (add_test_funded d w v) = alerts d"
    and "ws_pauses (add_test_funded d w v) = ws_pauses d"
    and "payee_payments (add_test_funded d w v) = payee_payments d"
    and "pots (add_test_funded d w v) = pots d"
    and "credit_lines (add_test_funded d w v) = credit_lines d"
    and "credit_draws (add_test_funded d w v) = credit_draws d"
    and "credit_invoices (add_test_funded d w v) = credit_invoices d"
    and "workspaces (add_test_funded d w v) = workspaces d"
    and "contracts (add_test_funded d w v) = contracts d"
    and "subscriptions (add_test_funded d w v) = subscriptions d"
    and "kya_credentials (add_test_funded d w v) = kya_credentials d"
    and "market_uses (add_test_funded d w v) = market_uses d"
    and "money_payments (add_test_funded d w v) = money_payments d"
    and "listings (add_test_funded d w v) = listings d"
    and "topups (add_test_funded d w v) = topups d"
    and "schedules (add_test_funded d w v) = schedules d"
  by (simp_all add: add_test_funded_def split: option.split)

lemma insert_platform_fee_frame [simp]:
  shows "balances (insert_platform_fee cx d w fee a bps sp rq) = balances d"
    and "reservations (insert_platform_fee cx d w fee a bps sp rq) = reservations d"
    and "subbudgets (insert_platform_fee cx d w fee a bps sp rq) = subbudgets d"
    and "claims (insert_platform_fee cx d w fee a bps sp rq) = claims d"
    and "settlements (insert_platform_fee cx d w fee a bps sp rq) = settlements d"
    and "agents (insert_platform_fee cx d w fee a bps sp rq) = agents d"
    and "agent_keys (insert_platform_fee cx d w fee a bps sp rq) = agent_keys d"
    and "api_keys (insert_platform_fee cx d w fee a bps sp rq) = api_keys d"
    and "postings (insert_platform_fee cx d w fee a bps sp rq) = postings d"
    and "acct_balances (insert_platform_fee cx d w fee a bps sp rq) = acct_balances d"
    and "next_entry (insert_platform_fee cx d w fee a bps sp rq) = next_entry d"
    and "rules (insert_platform_fee cx d w fee a bps sp rq) = rules d"
    and "rules_versions (insert_platform_fee cx d w fee a bps sp rq) = rules_versions d"
    and "boosts (insert_platform_fee cx d w fee a bps sp rq) = boosts d"
    and "approvals (insert_platform_fee cx d w fee a bps sp rq) = approvals d"
    and "alerts (insert_platform_fee cx d w fee a bps sp rq) = alerts d"
    and "ws_pauses (insert_platform_fee cx d w fee a bps sp rq) = ws_pauses d"
    and "payee_payments (insert_platform_fee cx d w fee a bps sp rq) = payee_payments d"
    and "pots (insert_platform_fee cx d w fee a bps sp rq) = pots d"
    and "credit_lines (insert_platform_fee cx d w fee a bps sp rq) = credit_lines d"
    and "credit_draws (insert_platform_fee cx d w fee a bps sp rq) = credit_draws d"
    and "credit_invoices (insert_platform_fee cx d w fee a bps sp rq) = credit_invoices d"
    and "workspaces (insert_platform_fee cx d w fee a bps sp rq) = workspaces d"
    and "contracts (insert_platform_fee cx d w fee a bps sp rq) = contracts d"
    and "subscriptions (insert_platform_fee cx d w fee a bps sp rq) = subscriptions d"
    and "kya_credentials (insert_platform_fee cx d w fee a bps sp rq) = kya_credentials d"
    and "market_uses (insert_platform_fee cx d w fee a bps sp rq) = market_uses d"
    and "money_payments (insert_platform_fee cx d w fee a bps sp rq) = money_payments d"
    and "listings (insert_platform_fee cx d w fee a bps sp rq) = listings d"
    and "topups (insert_platform_fee cx d w fee a bps sp rq) = topups d"
    and "schedules (insert_platform_fee cx d w fee a bps sp rq) = schedules d"
  by (simp_all add: insert_platform_fee_def Let_def)

subsection \<open>How each helper moves the quantities\<close>

lemma row_of_ensure [simp]: "row_of (ensure_lxc_row d w) v = row_of d v"
  by (auto simp: row_of_def ensure_lxc_row_def split: option.split)

lemma has_row_ensure [simp]: "has_row (ensure_lxc_row d w) v \<longleftrightarrow> v = w \<or> has_row d v"
  by (auto simp: has_row_def ensure_lxc_row_def split: option.split)

lemma ensure_views [view_simps]:
  shows "bal_of (ensure_lxc_row d w) v = bal_of d v"
    and "minted_of (ensure_lxc_row d w) v = minted_of d v"
    and "spent_of (ensure_lxc_row d w) v = spent_of d v"
    and "cash_of (ensure_lxc_row d w) v = cash_of d v"
    and "test_of (ensure_lxc_row d w) v = test_of d v"
    and "held_sum (ensure_lxc_row d w) v = held_sum d v"
    and "ledger_sum (ensure_lxc_row d w) v = ledger_sum d v"
  by (simp_all add: bal_of_def minted_of_def spent_of_def cash_of_def test_of_def held_sum_def
      ledger_sum_def)

lemma read_lxc_balance_eq [simp]:
  "read_lxc_balance d w = (ensure_lxc_row d w, bal_of d w, minted_of d w, spent_of d w)"
  by (simp add: read_lxc_balance_def Let_def bal_of_def minted_of_def spent_of_def)

lemma row_of_write:
  "row_of (write_lxc_balance d w b m s) v =
     (if v = w \<and> has_row d w then (row_of d w)\<lparr>lx_balance := b, lx_minted := m, lx_spent := s,
        lx_test_funded := clamp_test_funded (test_of d w) b (held_sum d w)\<rparr> else row_of d v)"
  by (auto simp: row_of_def write_lxc_balance_def has_row_def test_of_def split: option.split)

lemma has_row_write [simp]: "has_row (write_lxc_balance d w b m s) v = has_row d v"
  by (auto simp: has_row_def write_lxc_balance_def split: option.split)

lemma write_views [view_simps]:
  shows "bal_of (write_lxc_balance d w b m s) v = (if v = w \<and> has_row d w then b else bal_of d v)"
    and "minted_of (write_lxc_balance d w b m s) v =
      (if v = w \<and> has_row d w then m else minted_of d v)"
    and "spent_of (write_lxc_balance d w b m s) v =
      (if v = w \<and> has_row d w then s else spent_of d v)"
    and "cash_of (write_lxc_balance d w b m s) v = cash_of d v"
    and "test_of (write_lxc_balance d w b m s) v =
      (if v = w \<and> has_row d w then clamp_test_funded (test_of d w) b (held_sum d w) else test_of d v)"
    and "held_sum (write_lxc_balance d w b m s) v = held_sum d v"
    and "ledger_sum (write_lxc_balance d w b m s) v = ledger_sum d v"
  by (auto simp: bal_of_def minted_of_def spent_of_def cash_of_def test_of_def held_sum_def
      ledger_sum_def row_of_write)

lemma has_row_ledger [simp]: "has_row (insert_lxc_ledger cx d w x a ty desc meta) v = has_row d v"
  by (simp add: has_row_def)

lemma ledger_views [view_simps]:
  shows "bal_of (insert_lxc_ledger cx d w x a ty desc meta) v = bal_of d v"
    and "minted_of (insert_lxc_ledger cx d w x a ty desc meta) v = minted_of d v"
    and "spent_of (insert_lxc_ledger cx d w x a ty desc meta) v = spent_of d v"
    and "cash_of (insert_lxc_ledger cx d w x a ty desc meta) v = cash_of d v"
    and "test_of (insert_lxc_ledger cx d w x a ty desc meta) v = test_of d v"
    and "held_sum (insert_lxc_ledger cx d w x a ty desc meta) v = held_sum d v"
    and "ledger_sum (insert_lxc_ledger cx d w x a ty desc meta) v =
      ledger_sum d v + (if v = w then x else 0)"
  by (simp_all add: bal_of_def minted_of_def spent_of_def cash_of_def test_of_def held_sum_def
      row_of_def) (simp add: ledger_sum_def insert_lxc_ledger_def)

lemma row_of_write_cash:
  "row_of (write_cash_backed d w x) v =
     (if v = w \<and> has_row d w then (row_of d w)\<lparr>lx_cash_backed := max 0 x\<rparr> else row_of d v)"
  by (auto simp: row_of_def write_cash_backed_def has_row_def Let_def split: option.split)

lemma has_row_write_cash [simp]: "has_row (write_cash_backed d w x) v = has_row d v"
  by (auto simp: has_row_def write_cash_backed_def Let_def split: option.split)

lemma write_cash_views [view_simps]:
  shows "bal_of (write_cash_backed d w x) v = bal_of d v"
    and "minted_of (write_cash_backed d w x) v = minted_of d v"
    and "spent_of (write_cash_backed d w x) v = spent_of d v"
    and "cash_of (write_cash_backed d w x) v = (if v = w \<and> has_row d w then max 0 x else cash_of d v)"
    and "test_of (write_cash_backed d w x) v = test_of d v"
    and "held_sum (write_cash_backed d w x) v = held_sum d v"
    and "ledger_sum (write_cash_backed d w x) v = ledger_sum d v"
  by (auto simp: bal_of_def minted_of_def spent_of_def cash_of_def test_of_def held_sum_def
      ledger_sum_def row_of_write_cash)

lemma row_of_add_test:
  "row_of (add_test_funded d w x) v =
     (if v = w \<and> has_row d w \<and> 0 < x then (row_of d w)\<lparr>lx_test_funded := test_of d w + x\<rparr>
      else row_of d v)"
  by (auto simp: row_of_def add_test_funded_def has_row_def test_of_def split: option.split)

lemma has_row_add_test [simp]: "has_row (add_test_funded d w x) v = has_row d v"
  by (auto simp: has_row_def add_test_funded_def split: option.split)

lemma add_test_views [view_simps]:
  shows "bal_of (add_test_funded d w x) v = bal_of d v"
    and "minted_of (add_test_funded d w x) v = minted_of d v"
    and "spent_of (add_test_funded d w x) v = spent_of d v"
    and "cash_of (add_test_funded d w x) v = cash_of d v"
    and "test_of (add_test_funded d w x) v =
      (if v = w \<and> has_row d w then test_of d w + max 0 x else test_of d v)"
    and "held_sum (add_test_funded d w x) v = held_sum d v"
    and "ledger_sum (add_test_funded d w x) v = ledger_sum d v"
  by (auto simp: bal_of_def minted_of_def spent_of_def cash_of_def test_of_def held_sum_def
      ledger_sum_def row_of_add_test)

lemma has_row_fee [simp]: "has_row (insert_platform_fee cx d w fee a bps sp rq) v = has_row d v"
  by (simp add: has_row_def)

lemma fee_views [view_simps]:
  shows "bal_of (insert_platform_fee cx d w fee a bps sp rq) v = bal_of d v"
    and "minted_of (insert_platform_fee cx d w fee a bps sp rq) v = minted_of d v"
    and "spent_of (insert_platform_fee cx d w fee a bps sp rq) v = spent_of d v"
    and "cash_of (insert_platform_fee cx d w fee a bps sp rq) v = cash_of d v"
    and "test_of (insert_platform_fee cx d w fee a bps sp rq) v = test_of d v"
    and "held_sum (insert_platform_fee cx d w fee a bps sp rq) v = held_sum d v"
    and "ledger_sum (insert_platform_fee cx d w fee a bps sp rq) v =
      ledger_sum d v - (if v = w then fee else 0)"
  by (simp_all add: insert_platform_fee_def Let_def view_simps)

lemma read_cash_backed_eq:
  "read_cash_backed d w = (if has_row d w then Inr (cash_of d w) else Inl (ErrInvalid ''read cash-backed''))"
  by (auto simp: read_cash_backed_def has_row_def cash_of_def row_of_def split: option.split)

subsection \<open>Spending backing\<close>

definition cash_used :: "int \<Rightarrow> int \<Rightarrow> int \<Rightarrow> int" where
  "cash_used cash before spend = (if spend \<le> 0 then 0 else from_cash cash before spend)"

definition take_cash :: "db \<Rightarrow> string \<Rightarrow> int \<Rightarrow> db" where
  "take_cash d w x = (if x > 0 then write_cash_backed d w (cash_of d w - x) else d)"

lemma consume_cash_backed_eq:
  "has_row d w \<Longrightarrow> consume_cash_backed d w before spend =
     (let u = cash_used (cash_of d w) before spend in Inr (take_cash d w u, u))"
  by (auto simp: consume_cash_backed_def read_cash_backed_eq cash_used_def take_cash_def Let_def)

lemma cash_used_closed:
  "0 \<le> cash \<Longrightarrow> cash_used cash before spend = min cash (max 0 (spend - max 0 (before - cash)))"
  by (simp add: cash_used_def from_cash_def Let_def)

lemma cash_used_range:
  "0 \<le> cash \<Longrightarrow> 0 \<le> cash_used cash before spend"
  "0 \<le> cash \<Longrightarrow> cash_used cash before spend \<le> cash"
  "0 \<le> cash \<Longrightarrow> 0 \<le> spend \<Longrightarrow> cash_used cash before spend \<le> spend"
  by (auto simp: cash_used_closed)

text \<open>Two spends in a row take what one spend of both would.\<close>

lemma cash_used_add:
  assumes "0 \<le> cash" and "0 \<le> s" and "0 \<le> t"
  shows "cash_used cash before (s + t) =
    cash_used cash before s + cash_used (cash - cash_used cash before s) (before - s) t"
proof -
  define u where "u = cash_used cash before s"
  have u: "u = min cash (max 0 (s - max 0 (before - cash)))" and rest: "0 \<le> cash - u"
    using assms by (simp_all add: u_def cash_used_closed)
  have "min cash (max 0 (s + t - max 0 (before - cash))) =
      u + min (cash - u) (max 0 (t - max 0 (before - s - (cash - u))))"
  proof (cases "before < cash")
    case True
    then show ?thesis using u assms by (auto simp: min_def max_def)
  next
    case False
    then show ?thesis using u assms by (cases "s \<le> before - cash") (auto simp: min_def max_def)
  qed
  then show ?thesis using assms rest by (simp add: cash_used_closed flip: u_def)
qed

lemma cash_used_within:
  assumes "0 \<le> cash" and "cash \<le> before + held" and "0 \<le> held" and "spend \<le> before + held"
    and "0 \<le> spend"
  shows "cash - cash_used cash before spend \<le> before - spend + held"
  using assms by (simp add: cash_used_closed min_def max_def)

lemma has_row_take_cash [simp]: "has_row (take_cash d w x) v = has_row d v"
  by (simp add: take_cash_def)

lemma take_cash_views [view_simps]:
  shows "bal_of (take_cash d w x) v = bal_of d v"
    and "minted_of (take_cash d w x) v = minted_of d v"
    and "spent_of (take_cash d w x) v = spent_of d v"
    and "test_of (take_cash d w x) v = test_of d v"
    and "held_sum (take_cash d w x) v = held_sum d v"
    and "ledger_sum (take_cash d w x) v = ledger_sum d v"
  by (simp_all add: take_cash_def view_simps)

lemma cash_of_take_cash [view_simps]:
  "has_row d w \<Longrightarrow> 0 \<le> x \<Longrightarrow> x \<le> cash_of d w \<Longrightarrow>
    cash_of (take_cash d w x) v = (if v = w then cash_of d w - x else cash_of d v)"
  by (auto simp: take_cash_def view_simps)

lemma take_cash_frame [simp]:
  shows "ledger (take_cash d w x) = ledger d" and "reservations (take_cash d w x) = reservations d"
    and "subbudgets (take_cash d w x) = subbudgets d" and "claims (take_cash d w x) = claims d"
    and "settlements (take_cash d w x) = settlements d" and "agents (take_cash d w x) = agents d"
    and "agent_keys (take_cash d w x) = agent_keys d"
    and "api_keys (take_cash d w x) = api_keys d" and "postings (take_cash d w x) = postings d"
    and "acct_balances (take_cash d w x) = acct_balances d"
    and "next_entry (take_cash d w x) = next_entry d" and "rules (take_cash d w x) = rules d"
    and "rules_versions (take_cash d w x) = rules_versions d"
    and "boosts (take_cash d w x) = boosts d" and "approvals (take_cash d w x) = approvals d"
    and "alerts (take_cash d w x) = alerts d" and "ws_pauses (take_cash d w x) = ws_pauses d"
    and "payee_payments (take_cash d w x) = payee_payments d"
    and "pots (take_cash d w x) = pots d" and "credit_lines (take_cash d w x) = credit_lines d"
    and "credit_draws (take_cash d w x) = credit_draws d"
    and "credit_invoices (take_cash d w x) = credit_invoices d"
    and "workspaces (take_cash d w x) = workspaces d"
    and "contracts (take_cash d w x) = contracts d"
    and "subscriptions (take_cash d w x) = subscriptions d"
    and "kya_credentials (take_cash d w x) = kya_credentials d"
    and "market_uses (take_cash d w x) = market_uses d"
    and "money_payments (take_cash d w x) = money_payments d"
    and "listings (take_cash d w x) = listings d" and "topups (take_cash d w x) = topups d"
    and "schedules (take_cash d w x) = schedules d"
  by (simp_all add: take_cash_def)

lemma test_workspace_cong: "workspaces d' = workspaces d \<Longrightarrow> test_workspace d' w = test_workspace d w"
  by (simp add: test_workspace_def)

end
