(* ===== verification/Agent_Ledger.thy ===== *)
theory Agent_Ledger
  imports Wallet_Ops Go_Text
begin

section \<open>The agents' double-entry ledger (agent_accounts.go, platform_fee.go, migration 0185)\<close>

text \<open>
  Every movement of an agent's money is one entry of postings. \<open>insert_posting\<close> is the
  INSERT with what the database does on it: the CHECK that an amount is not zero, and the
  trigger of migration 0185 that adds the posting to the stored balance of its account
  unless the account is one of the shared sides. The deferred trigger of migration 0140,
  which refuses an entry that does not sum to zero, is not modelled as a guard: that it
  never fires is what \<open>balanced\<close> and its lemmas show.

  \<open>posted_db\<close> is an entry's whole effect in closed form; the quantities an entry moves
  (\<open>acct_bal\<close>, \<open>posted\<close>, \<open>allocated\<close>, \<open>entry_sum\<close>) are lemmas about it.
\<close>

subsection \<open>A model as its caps know it (agent_rules.go)\<close>

definition drop_suffix :: "(string \<Rightarrow> bool) \<Rightarrow> nat \<Rightarrow> string \<Rightarrow> string option" where
  "drop_suffix p n s =
     (if n \<le> length s \<and> p (drop (length s - n) s) then Some (take (length s - n) s) else None)"

definition dash_then :: "(string \<Rightarrow> bool) \<Rightarrow> string \<Rightarrow> bool" where
  "dash_then p s = (case s of [] \<Rightarrow> False | c # cs \<Rightarrow> c = CHR ''-'' \<and> p cs)"

definition is_iso_date :: "string \<Rightarrow> bool" where
  "is_iso_date s \<longleftrightarrow> length s = 10 \<and> list_all is_digit (take 4 s) \<and> s ! 4 = CHR ''-'' \<and>
     list_all is_digit (take 2 (drop 5 s)) \<and> s ! 7 = CHR ''-'' \<and> list_all is_digit (drop 8 s)"

text \<open>\<open>modelCapSuffix\<close>, the leftmost match of \<open>-([0-9]{8}|[0-9]{4}-[0-9]{2}-[0-9]{2}|latest)$\<close>.\<close>

definition model_cap_strip :: "string \<Rightarrow> string" where
  "model_cap_strip s =
     (case drop_suffix (dash_then is_iso_date) 11 s of Some t \<Rightarrow> t | None \<Rightarrow>
       case drop_suffix (dash_then (list_all is_digit)) 9 s of Some t \<Rightarrow> t | None \<Rightarrow>
         case drop_suffix (dash_then (\<lambda>t. t = ''latest'')) 7 s of Some t \<Rightarrow> t | None \<Rightarrow> s)"

definition model_cap_key :: "string \<Rightarrow> string" where
  "model_cap_key model = model_cap_strip (to_lower (trim_space model))"

definition null_if_empty :: "string \<Rightarrow> string option" where
  "null_if_empty s = (if s = '''' then None else Some s)"

subsection \<open>Postings\<close>

type_synonym leg = "account \<times> int"

definition kept_account :: "account \<Rightarrow> bool" where
  "kept_account a \<longleftrightarrow> a \<noteq> WorkspaceAcc \<and> a \<noteq> SpendAcc \<and> a \<noteq> CashedOutAcc"

fun bump_balance :: "('k \<times> int) list \<Rightarrow> 'k \<Rightarrow> int \<Rightarrow> ('k \<times> int) list" where
  "bump_balance [] k x = [(k, x)]"
| "bump_balance ((j, y) # rest) k x =
     (if j = k then (j, y + x) # rest else (j, y) # bump_balance rest k x)"

definition insert_posting ::
    "ctx \<Rightarrow> db \<Rightarrow> nat \<Rightarrow> string \<Rightarrow> posting_kind \<Rightarrow> string \<Rightarrow> string option \<Rightarrow> int option \<Rightarrow> leg \<Rightarrow> err + db" where
  "insert_posting cx d entry w kind ref model bps l =
     (case l of (a, x) \<Rightarrow>
        if x = 0 then Inl (ErrDbCheck ''amount_ulxc <> 0'')
        else Inr (d\<lparr>
          postings := postings d @ [\<lparr>po_entry = entry, po_ws = w, po_account = a, po_amount = x,
            po_kind = kind, po_ref = ref, po_model = model, po_fee_bps = bps,
            po_memo = cx_memo cx, po_at = cx_now cx\<rparr>],
          acct_balances := (if kept_account a then bump_balance (acct_balances d) (w, a) x
            else acct_balances d)\<rparr>))"

fun insert_legs ::
    "ctx \<Rightarrow> db \<Rightarrow> nat \<Rightarrow> string \<Rightarrow> posting_kind \<Rightarrow> string \<Rightarrow> string option \<Rightarrow> int option \<Rightarrow> leg list \<Rightarrow> err + db" where
  "insert_legs cx d entry w kind ref model bps [] = Inr d"
| "insert_legs cx d entry w kind ref model bps (l # ls) =
     rbind (insert_posting cx d entry w kind ref model bps l) (\<lambda>d.
       insert_legs cx d entry w kind ref model bps ls)"

definition new_entry :: "db \<Rightarrow> db \<times> nat" where
  "new_entry d = (d\<lparr>next_entry := Suc (next_entry d)\<rparr>, next_entry d)"

definition post_entry :: "ctx \<Rightarrow> db \<Rightarrow> string \<Rightarrow> posting_kind \<Rightarrow> string \<Rightarrow> leg list \<Rightarrow> err + db" where
  "post_entry cx d w kind ref legs =
     (case new_entry d of (d, entry) \<Rightarrow> insert_legs cx d entry w kind ref None None legs)"

definition post_model_entry ::
    "ctx \<Rightarrow> db \<Rightarrow> string \<Rightarrow> posting_kind \<Rightarrow> string \<Rightarrow> string \<Rightarrow> leg list \<Rightarrow> err + db" where
  "post_model_entry cx d w kind ref model legs =
     (let model = model_cap_key model
      in if model = '''' then post_entry cx d w kind ref legs
         else case new_entry d of (d, entry) \<Rightarrow>
           insert_legs cx d entry w kind ref (Some model) None legs)"

definition post_fee_entry ::
    "ctx \<Rightarrow> db \<Rightarrow> string \<Rightarrow> string \<Rightarrow> int \<Rightarrow> int \<Rightarrow> string \<Rightarrow> string \<Rightarrow> err + db" where
  "post_fee_entry cx d w agent fee bps ref model =
     (case new_entry d of (d, entry) \<Rightarrow>
        insert_legs cx d entry w PkFee ref (null_if_empty (model_cap_key model)) (Some bps)
          [(AgentAcc agent, - fee), (SpendAcc, fee)])"

definition find_agent :: "db \<Rightarrow> string \<Rightarrow> agent_row option" where
  "find_agent d a = find (\<lambda>r. ag_id r = a) (agents d)"

text \<open>The join of \<open>agent_account_keys\<close> and \<open>agent_accounts\<close>: a key's agent and its workspace.\<close>

definition agent_of_key :: "db \<Rightarrow> string \<Rightarrow> (string \<times> string) option" where
  "agent_of_key d key =
     (case map_of (agent_keys d) key of
        None \<Rightarrow> None
      | Some a \<Rightarrow> (case find_agent d a of None \<Rightarrow> None | Some r \<Rightarrow> Some (ag_id r, ag_ws r)))"

definition post_agent_fee ::
    "ctx \<Rightarrow> db \<Rightarrow> string \<Rightarrow> int \<Rightarrow> int \<Rightarrow> string \<Rightarrow> string \<Rightarrow> err + db" where
  "post_agent_fee cx d key fee bps ref model =
     (if fee = 0 then Inr d
      else case agent_of_key d key of
        None \<Rightarrow> Inr d
      | Some (agent, w) \<Rightarrow> post_fee_entry cx d w agent fee bps ref model)"

subsection \<open>Stored balances\<close>

definition account_balance :: "db \<Rightarrow> string \<Rightarrow> account \<Rightarrow> int" where
  "account_balance d w a = (case map_of (acct_balances d) (w, a) of None \<Rightarrow> 0 | Some x \<Rightarrow> x)"

fun is_allocated :: "account \<Rightarrow> bool" where
  "is_allocated (AgentAcc a) = True"
| "is_allocated (PotAcc p) = True"
| "is_allocated _ = False"

definition allocated :: "db \<Rightarrow> string \<Rightarrow> int" where
  "allocated d w = sum_where (\<lambda>e. fst (fst e) = w \<and> is_allocated (snd (fst e))) snd (acct_balances d)"

definition require_unallocated :: "db \<Rightarrow> string \<Rightarrow> int \<Rightarrow> int \<Rightarrow> err + unit" where
  "require_unallocated d w bal amount =
     (if bal - allocated d w < amount then Inl ErrInsufficientLXC else Inr ())"

definition get_unallocated_lxc :: "store \<Rightarrow> db \<Rightarrow> string \<Rightarrow> int" where
  "get_unallocated_lxc s d w =
     (if \<not> st_pool s then 0
      else (case balances d w of None \<Rightarrow> 0 | Some r \<Rightarrow> lx_balance r) - allocated d w)"

definition lock_agent :: "db \<Rightarrow> string \<Rightarrow> string \<Rightarrow> err + unit" where
  "lock_agent d w a =
     (case find_agent d a of
        None \<Rightarrow> Inl ErrAgentNotFound
      | Some r \<Rightarrow> if ag_ws r \<noteq> w then Inl ErrAgentNotFound else Inr ())"

subsection \<open>Quantities the postings give\<close>

definition posted :: "db \<Rightarrow> string \<Rightarrow> account \<Rightarrow> int" where
  "posted d w a = sum_where (\<lambda>p. po_ws p = w \<and> po_account p = a) po_amount (postings d)"

definition entry_sum :: "db \<Rightarrow> nat \<Rightarrow> int" where
  "entry_sum d e = sum_where (\<lambda>p. po_entry p = e) po_amount (postings d)"

definition balanced :: "db \<Rightarrow> bool" where
  "balanced d \<longleftrightarrow> list_all (\<lambda>p. entry_sum d (po_entry p) = 0 \<and> po_entry p < next_entry d) (postings d)"

definition legs_on :: "account \<Rightarrow> leg list \<Rightarrow> int" where
  "legs_on a ls = sum_where (\<lambda>l. fst l = a) snd ls"

definition legs_total :: "leg list \<Rightarrow> int" where
  "legs_total ls = sum_list (map snd ls)"

lemma legs_simps [simp]:
  "legs_on a [] = 0" "legs_on a ((b, x) # ls) = (if b = a then x else 0) + legs_on a ls"
  "legs_total [] = 0" "legs_total ((b, x) # ls) = x + legs_total ls"
  by (simp_all add: legs_on_def legs_total_def)

subsection \<open>An entry's effect in closed form\<close>

definition leg_posting ::
    "ctx \<Rightarrow> nat \<Rightarrow> string \<Rightarrow> posting_kind \<Rightarrow> string \<Rightarrow> string option \<Rightarrow> int option \<Rightarrow> leg \<Rightarrow> posting" where
  "leg_posting cx entry w kind ref model bps l =
     \<lparr>po_entry = entry, po_ws = w, po_account = fst l, po_amount = snd l, po_kind = kind,
       po_ref = ref, po_model = model, po_fee_bps = bps, po_memo = cx_memo cx, po_at = cx_now cx\<rparr>"

fun bump_legs :: "((string \<times> account) \<times> int) list \<Rightarrow> string \<Rightarrow> leg list \<Rightarrow> ((string \<times> account) \<times> int) list" where
  "bump_legs kvs w [] = kvs"
| "bump_legs kvs w ((a, x) # ls) =
     bump_legs (if kept_account a then bump_balance kvs (w, a) x else kvs) w ls"

definition posted_db ::
    "ctx \<Rightarrow> db \<Rightarrow> string \<Rightarrow> posting_kind \<Rightarrow> string \<Rightarrow> string option \<Rightarrow> int option \<Rightarrow> leg list \<Rightarrow> db" where
  "posted_db cx d w kind ref model bps ls =
     d\<lparr>next_entry := Suc (next_entry d),
       postings := postings d @ map (leg_posting cx (next_entry d) w kind ref model bps) ls,
       acct_balances := bump_legs (acct_balances d) w ls\<rparr>"

lemma insert_legs_eq:
  "insert_legs cx d e w kind ref model bps ls =
     (if list_all (\<lambda>l. snd l \<noteq> 0) ls
      then Inr (d\<lparr>postings := postings d @ map (leg_posting cx e w kind ref model bps) ls,
        acct_balances := bump_legs (acct_balances d) w ls\<rparr>)
      else Inl (ErrDbCheck ''amount_ulxc <> 0''))"
  by (induction ls arbitrary: d)
    (auto simp: insert_posting_def leg_posting_def split: prod.split)

lemma insert_legs_new:
  "(case new_entry d of (d, entry) \<Rightarrow> insert_legs cx d entry w kind ref model bps ls) =
     (if list_all (\<lambda>l. snd l \<noteq> 0) ls then Inr (posted_db cx d w kind ref model bps ls)
      else Inl (ErrDbCheck ''amount_ulxc <> 0''))"
  by (simp add: new_entry_def insert_legs_eq posted_db_def)

lemma post_entry_eq:
  "post_entry cx d w kind ref ls =
     (if list_all (\<lambda>l. snd l \<noteq> 0) ls then Inr (posted_db cx d w kind ref None None ls)
      else Inl (ErrDbCheck ''amount_ulxc <> 0''))"
  unfolding post_entry_def by (rule insert_legs_new)

lemma post_model_entry_eq:
  "post_model_entry cx d w kind ref model ls =
     (if list_all (\<lambda>l. snd l \<noteq> 0) ls
      then Inr (posted_db cx d w kind ref (null_if_empty (model_cap_key model)) None ls)
      else Inl (ErrDbCheck ''amount_ulxc <> 0''))"
  unfolding post_model_entry_def
  by (simp add: Let_def post_entry_eq insert_legs_new null_if_empty_def)

lemma post_fee_entry_eq:
  "post_fee_entry cx d w agent fee bps ref model =
     (if fee \<noteq> 0
      then Inr (posted_db cx d w PkFee ref (null_if_empty (model_cap_key model)) (Some bps)
        [(AgentAcc agent, - fee), (SpendAcc, fee)])
      else Inl (ErrDbCheck ''amount_ulxc <> 0''))"
  unfolding post_fee_entry_def by (simp add: insert_legs_new del: insert_legs.simps)

lemma posted_db_frame [simp]:
  shows "balances (posted_db cx d w kind ref model bps ls) = balances d"
    and "ledger (posted_db cx d w kind ref model bps ls) = ledger d"
    and "reservations (posted_db cx d w kind ref model bps ls) = reservations d"
    and "subbudgets (posted_db cx d w kind ref model bps ls) = subbudgets d"
    and "claims (posted_db cx d w kind ref model bps ls) = claims d"
    and "settlements (posted_db cx d w kind ref model bps ls) = settlements d"
    and "agents (posted_db cx d w kind ref model bps ls) = agents d"
    and "agent_keys (posted_db cx d w kind ref model bps ls) = agent_keys d"
    and "api_keys (posted_db cx d w kind ref model bps ls) = api_keys d"
    and "rules (posted_db cx d w kind ref model bps ls) = rules d"
    and "rules_versions (posted_db cx d w kind ref model bps ls) = rules_versions d"
    and "boosts (posted_db cx d w kind ref model bps ls) = boosts d"
    and "approvals (posted_db cx d w kind ref model bps ls) = approvals d"
    and "alerts (posted_db cx d w kind ref model bps ls) = alerts d"
    and "ws_pauses (posted_db cx d w kind ref model bps ls) = ws_pauses d"
    and "payee_payments (posted_db cx d w kind ref model bps ls) = payee_payments d"
    and "pots (posted_db cx d w kind ref model bps ls) = pots d"
    and "credit_lines (posted_db cx d w kind ref model bps ls) = credit_lines d"
    and "credit_draws (posted_db cx d w kind ref model bps ls) = credit_draws d"
    and "credit_invoices (posted_db cx d w kind ref model bps ls) = credit_invoices d"
    and "workspaces (posted_db cx d w kind ref model bps ls) = workspaces d"
    and "contracts (posted_db cx d w kind ref model bps ls) = contracts d"
    and "subscriptions (posted_db cx d w kind ref model bps ls) = subscriptions d"
    and "kya_credentials (posted_db cx d w kind ref model bps ls) = kya_credentials d"
    and "market_uses (posted_db cx d w kind ref model bps ls) = market_uses d"
    and "money_payments (posted_db cx d w kind ref model bps ls) = money_payments d"
    and "listings (posted_db cx d w kind ref model bps ls) = listings d"
    and "topups (posted_db cx d w kind ref model bps ls) = topups d"
    and "schedules (posted_db cx d w kind ref model bps ls) = schedules d"
  by (simp_all add: posted_db_def)

lemma map_of_bump_balance:
  "map_of (bump_balance kvs k x) j =
     (if j = k then Some ((case map_of kvs k of None \<Rightarrow> 0 | Some y \<Rightarrow> y) + x) else map_of kvs j)"
  by (induction kvs k x rule: bump_balance.induct) auto

lemma sum_bump_balance:
  "sum_where (\<lambda>e. p (fst e)) snd (bump_balance kvs k x) =
     sum_where (\<lambda>e. p (fst e)) snd kvs + (if p k then x else 0)"
  by (induction kvs k x rule: bump_balance.induct) auto

lemma account_balance_bump_legs:
  "(case map_of (bump_legs kvs w ls) (v, a) of None \<Rightarrow> 0 | Some x \<Rightarrow> x) =
     (case map_of kvs (v, a) of None \<Rightarrow> 0 | Some x \<Rightarrow> x) +
       (if v = w \<and> kept_account a then legs_on a ls else 0)"
  by (induction kvs w ls rule: bump_legs.induct) (auto simp: map_of_bump_balance)

definition legs_allocated :: "leg list \<Rightarrow> int" where
  "legs_allocated ls = sum_where (\<lambda>l. is_allocated (fst l)) snd ls"

lemma legs_allocated_simps [simp]:
  "legs_allocated [] = 0"
  "legs_allocated ((a, x) # ls) = (if is_allocated a then x else 0) + legs_allocated ls"
  by (simp_all add: legs_allocated_def)

lemma is_allocated_kept: "is_allocated a \<Longrightarrow> kept_account a"
  by (cases a) (auto simp: kept_account_def)

lemma allocated_bump_legs:
  "sum_where (\<lambda>e. fst (fst e) = u \<and> is_allocated (snd (fst e))) snd (bump_legs kvs w ls) =
     sum_where (\<lambda>e. fst (fst e) = u \<and> is_allocated (snd (fst e))) snd kvs +
       (if u = w then legs_allocated ls else 0)"
proof (induction kvs w ls rule: bump_legs.induct)
  case (2 kvs w a x ls)
  then show ?case
    using sum_bump_balance [of "\<lambda>k. fst k = u \<and> is_allocated (snd k)" kvs "(w, a)" x]
    by (auto simp: is_allocated_kept)
qed simp

lemma sum_leg_postings:
  "sum_where (\<lambda>p. po_ws p = v \<and> po_account p = a) po_amount (map (leg_posting cx e w k r m b) ls) =
     (if v = w then legs_on a ls else 0)"
  "sum_where (\<lambda>p. po_entry p = f) po_amount (map (leg_posting cx e w k r m b) ls) =
     (if f = e then legs_total ls else 0)"
  by (induction ls) (auto simp: leg_posting_def)

lemma posted_views [view_simps]:
  shows "account_balance (posted_db cx d w kind ref model bps ls) v a =
      account_balance d v a + (if v = w \<and> kept_account a then legs_on a ls else 0)"
    and "posted (posted_db cx d w kind ref model bps ls) v a =
      posted d v a + (if v = w then legs_on a ls else 0)"
    and "allocated (posted_db cx d w kind ref model bps ls) v =
      allocated d v + (if v = w then legs_allocated ls else 0)"
    and "entry_sum (posted_db cx d w kind ref model bps ls) e =
      entry_sum d e + (if e = next_entry d then legs_total ls else 0)"
    and "next_entry (posted_db cx d w kind ref model bps ls) = Suc (next_entry d)"
  unfolding account_balance_def posted_def allocated_def entry_sum_def
  by (simp_all add: posted_db_def account_balance_bump_legs allocated_bump_legs sum_leg_postings)

text \<open>The wallet's quantities do not move when an entry is posted, nor the agents' when a balance is.\<close>

lemma posted_wallet_views [view_simps]:
  shows "has_row (posted_db cx d w kind ref model bps ls) v = has_row d v"
    and "bal_of (posted_db cx d w kind ref model bps ls) v = bal_of d v"
    and "minted_of (posted_db cx d w kind ref model bps ls) v = minted_of d v"
    and "spent_of (posted_db cx d w kind ref model bps ls) v = spent_of d v"
    and "cash_of (posted_db cx d w kind ref model bps ls) v = cash_of d v"
    and "test_of (posted_db cx d w kind ref model bps ls) v = test_of d v"
    and "held_sum (posted_db cx d w kind ref model bps ls) v = held_sum d v"
    and "ledger_sum (posted_db cx d w kind ref model bps ls) v = ledger_sum d v"
  by (simp_all add: has_row_def bal_of_def minted_of_def spent_of_def cash_of_def test_of_def
      row_of_def held_sum_def ledger_sum_def)

lemma agent_views_cong:
  assumes "postings d' = postings d" and "acct_balances d' = acct_balances d"
  shows "account_balance d' v a = account_balance d v a" and "posted d' v a = posted d v a"
    and "allocated d' v = allocated d v" and "entry_sum d' e = entry_sum d e"
  using assms by (simp_all add: account_balance_def posted_def allocated_def entry_sum_def)

lemma wallet_agent_views [view_simps]:
  shows "account_balance (ensure_lxc_row d w) v a = account_balance d v a"
    and "posted (ensure_lxc_row d w) v a = posted d v a"
    and "allocated (ensure_lxc_row d w) v = allocated d v"
    and "account_balance (write_lxc_balance d w b m s) v a = account_balance d v a"
    and "posted (write_lxc_balance d w b m s) v a = posted d v a"
    and "allocated (write_lxc_balance d w b m s) v = allocated d v"
    and "account_balance (insert_lxc_ledger cx d w x y ty de me) v a = account_balance d v a"
    and "posted (insert_lxc_ledger cx d w x y ty de me) v a = posted d v a"
    and "allocated (insert_lxc_ledger cx d w x y ty de me) v = allocated d v"
    and "account_balance (write_cash_backed d w x) v a = account_balance d v a"
    and "posted (write_cash_backed d w x) v a = posted d v a"
    and "allocated (write_cash_backed d w x) v = allocated d v"
    and "account_balance (add_test_funded d w x) v a = account_balance d v a"
    and "posted (add_test_funded d w x) v a = posted d v a"
    and "allocated (add_test_funded d w x) v = allocated d v"
    and "account_balance (insert_platform_fee cx d w x y z sp rq) v a = account_balance d v a"
    and "posted (insert_platform_fee cx d w x y z sp rq) v a = posted d v a"
    and "allocated (insert_platform_fee cx d w x y z sp rq) v = allocated d v"
  by (rule agent_views_cong; simp)+

lemma find_agent_wallet [simp]:
  "find_agent (posted_db cx d w kind ref model bps ls) a = find_agent d a"
  "find_agent (ensure_lxc_row d w) a = find_agent d a"
  "find_agent (write_lxc_balance d w b m s) a = find_agent d a"
  by (simp_all add: find_agent_def)

subsection \<open>Every entry sums to zero\<close>

lemma balanced_posted_db [keeps]:
  assumes b: "balanced d" and z: "legs_total ls = 0"
  shows "balanced (posted_db cx d w kind ref model bps ls)"
proof -
  have none: "entry_sum d (next_entry d) = 0"
    unfolding entry_sum_def
    using b by (intro sum_where_none) (auto simp: balanced_def list_all_iff)
  show ?thesis
    unfolding balanced_def view_simps
    using b none z
    by (auto simp: balanced_def list_all_iff posted_db_def leg_posting_def)
qed

lemma balanced_cong: "postings d' = postings d \<Longrightarrow> next_entry d' = next_entry d \<Longrightarrow> balanced d' = balanced d"
  by (simp add: balanced_def entry_sum_def)

subsection \<open>No agent below zero\<close>

text \<open>The stored balances have one row per account, and no agent's or pot's is negative.\<close>

definition accounts_ok :: "db \<Rightarrow> bool" where
  "accounts_ok d \<longleftrightarrow> distinct (map fst (acct_balances d)) \<and>
     list_all (\<lambda>e. is_allocated (snd (fst e)) \<longrightarrow> 0 \<le> snd e) (acct_balances d)"

lemma keys_bump_balance: "set (map fst (bump_balance kvs k x)) = insert k (set (map fst kvs))"
  by (induction kvs k x rule: bump_balance.induct) auto

lemma distinct_bump_balance: "distinct (map fst kvs) \<Longrightarrow> distinct (map fst (bump_balance kvs k x))"
proof (induction kvs k x rule: bump_balance.induct)
  case (2 j y rest k x)
  then show ?case using keys_bump_balance [of rest k x] by auto
qed simp

lemma distinct_bump_legs: "distinct (map fst kvs) \<Longrightarrow> distinct (map fst (bump_legs kvs w ls))"
  by (induction kvs w ls rule: bump_legs.induct) (simp_all add: distinct_bump_balance)

lemma accounts_ok_iff:
  "accounts_ok d \<longleftrightarrow> distinct (map fst (acct_balances d)) \<and>
     (\<forall>w a. is_allocated a \<longrightarrow> 0 \<le> account_balance d w a)"
proof (cases "distinct (map fst (acct_balances d))")
  case True
  have "0 \<le> account_balance d w a"
    if "list_all (\<lambda>e. is_allocated (snd (fst e)) \<longrightarrow> 0 \<le> snd e) (acct_balances d)" "is_allocated a" for w a
    using that by (auto simp: account_balance_def list_all_iff split: option.split dest!: map_of_SomeD)
  moreover have "0 \<le> x"
    if "\<forall>w a. is_allocated a \<longrightarrow> 0 \<le> account_balance d w a" "((w, a), x) \<in> set (acct_balances d)"
      "is_allocated a" for w a x
  proof -
    have "account_balance d w a = x"
      using True that(2) by (simp add: account_balance_def map_of_is_SomeI)
    then show ?thesis using that by metis
  qed
  ultimately show ?thesis using True by (auto simp: accounts_ok_def list_all_iff)
qed (simp add: accounts_ok_def)

lemma accounts_okD: "accounts_ok d \<Longrightarrow> is_allocated a \<Longrightarrow> 0 \<le> account_balance d w a"
  by (simp add: accounts_ok_iff)

lemma accounts_ok_posted_db [keeps]:
  assumes "accounts_ok d"
    and "\<And>a. is_allocated a \<Longrightarrow> 0 \<le> account_balance d w a + legs_on a ls"
  shows "accounts_ok (posted_db cx d w kind ref model bps ls)"
proof -
  have "distinct (map fst (acct_balances (posted_db cx d w kind ref model bps ls)))"
    using assms(1) by (simp add: posted_db_def accounts_ok_def distinct_bump_legs)
  then show ?thesis
    using assms by (auto simp: accounts_ok_iff view_simps)
qed

lemma accounts_ok_cong: "acct_balances d' = acct_balances d \<Longrightarrow> accounts_ok d' = accounts_ok d"
  by (simp add: accounts_ok_def)

lemma sum_where_ge_row:
  assumes "r \<in> set rs" and "p r" and "\<And>s. s \<in> set rs \<Longrightarrow> p s \<Longrightarrow> 0 \<le> f s"
  shows "f r \<le> sum_where p f rs"
  using assms
proof (induction rs)
  case (Cons s rs)
  then show ?case
    using sum_where_nonneg [of rs p f] by (fastforce simp: add_increasing)
qed simp

lemma allocated_nonneg: "accounts_ok d \<Longrightarrow> 0 \<le> allocated d w"
  unfolding allocated_def by (rule sum_where_nonneg) (auto simp: accounts_ok_def list_all_iff)

lemma account_le_allocated:
  assumes "accounts_ok d" and "is_allocated a"
  shows "account_balance d w a \<le> allocated d w"
proof (cases "map_of (acct_balances d) (w, a)")
  case None
  then show ?thesis using allocated_nonneg [OF assms(1)] by (simp add: account_balance_def)
next
  case (Some x)
  have "snd ((w, a), x) \<le> allocated d w"
    unfolding allocated_def
    using assms map_of_SomeD [OF Some]
    by (intro sum_where_ge_row) (auto simp: accounts_ok_def list_all_iff)
  then show ?thesis using Some by (simp add: account_balance_def)
qed

end
