(* ===== verification/Credits.thy ===== *)
theory Credits
  imports Agent_Ledger
begin

section \<open>A workspace's credits: spends, purchases, grants and refunds (dualtoken.go)\<close>

text \<open>
  \<open>spend_lxc_meta\<close> is \<open>SpendLXCMeta\<close>, the workspace's own spending; \<open>credit_lxc_tx_typed\<close>
  the kernel every credit goes through, \<open>credit_lxc\<close> and \<open>grant_lxc\<close> its two public forms,
  and \<open>grant_lxc_up_to\<close> the set-based grant. A store without a pool answers without
  touching the database, as the code does for its arithmetic tests.

  The section on the books states what these keep: the balance is the sum of the ledger
  (\<open>ledger_ok\<close>), the backing never exceeds the balance and the open holds (\<open>cash_ok\<close>), and
  what the agents hold never exceeds the balance (\<open>solvent\<close>).
\<close>

definition spend_lxc_meta ::
    "store \<Rightarrow> ctx \<Rightarrow> db \<Rightarrow> string \<Rightarrow> int \<Rightarrow> string \<Rightarrow> metadata \<Rightarrow> err + db \<times> int" where
  "spend_lxc_meta s cx d w amount desc meta =
     (if amount \<le> 0 then Inl (ErrInvalid ''spend amount must be positive'')
      else if \<not> st_pool s then Inr (d, 0)
      else case read_lxc_balance d w of (d, bal, minted, spent) \<Rightarrow>
        rbind (platform_fee_bps s d w) (\<lambda>bps.
          let fee = platform_fee amount bps
          in if bal < amount + fee then Inl ErrInsufficientLXC
             else rbind (require_unallocated d w bal (amount + fee)) (\<lambda>_.
               let new_bal = bal - amount;
                   d = insert_lxc_ledger cx d w (- amount) new_bal Spend desc meta;
                   d = insert_platform_fee cx d w fee (new_bal - fee) bps amount (cx_charge_request cx);
                   d = write_lxc_balance d w (new_bal - fee) minted (spent + amount + fee)
               in rbind (consume_cash_backed d w bal amount) (\<lambda>(d, part).
                    rbind (consume_cash_backed d w new_bal fee) (\<lambda>(d, _).
                      Inr (d, part))))))"

definition spend_lxc :: "store \<Rightarrow> ctx \<Rightarrow> db \<Rightarrow> string \<Rightarrow> int \<Rightarrow> string \<Rightarrow> err + db" where
  "spend_lxc s cx d w amount desc =
     rbind (spend_lxc_meta s cx d w amount desc Map.empty) (\<lambda>(d, _). Inr d)"

definition credit_lxc_tx_typed ::
    "ctx \<Rightarrow> db \<Rightarrow> string \<Rightarrow> int \<Rightarrow> lxc_type \<Rightarrow> string \<Rightarrow> metadata \<Rightarrow> err + db \<times> int" where
  "credit_lxc_tx_typed cx d w amount ty reason meta =
     (if amount \<le> 0 then Inl (ErrInvalid ''credit amount must be positive'')
      else case read_lxc_balance d w of (d, bal, minted, spent) \<Rightarrow>
        let new_bal = bal + amount
        in case lot_funding ty amount meta of (meta, test_funded) \<Rightarrow>
          let d = insert_lxc_ledger cx d w amount new_bal ty reason meta;
              d = write_lxc_balance d w new_bal (minted + amount) spent;
              d = add_test_funded d w test_funded
          in if ty = Purchase then rbind (add_cash_backed d w amount) (\<lambda>d. Inr (d, new_bal))
             else Inr (d, new_bal))"

definition credit_lxc_tx ::
    "ctx \<Rightarrow> db \<Rightarrow> string \<Rightarrow> int \<Rightarrow> string \<Rightarrow> metadata \<Rightarrow> err + db \<times> int" where
  "credit_lxc_tx cx d w amount reason meta = credit_lxc_tx_typed cx d w amount Purchase reason meta"

definition grant_lxc_tx ::
    "ctx \<Rightarrow> db \<Rightarrow> string \<Rightarrow> int \<Rightarrow> string \<Rightarrow> metadata \<Rightarrow> err + db \<times> int" where
  "grant_lxc_tx cx d w amount reason meta = credit_lxc_tx_typed cx d w amount AdminGrant reason meta"

definition credit_lxc ::
    "store \<Rightarrow> ctx \<Rightarrow> db \<Rightarrow> string \<Rightarrow> int \<Rightarrow> string \<Rightarrow> metadata \<Rightarrow> err + db \<times> int" where
  "credit_lxc s cx d w amount reason meta =
     (if amount \<le> 0 then Inl (ErrInvalid ''credit amount must be positive'')
      else if \<not> st_pool s then Inr (d, 0)
      else credit_lxc_tx cx d w amount reason meta)"

definition grant_lxc ::
    "store \<Rightarrow> ctx \<Rightarrow> db \<Rightarrow> string \<Rightarrow> int \<Rightarrow> string \<Rightarrow> metadata \<Rightarrow> err + db \<times> int" where
  "grant_lxc s cx d w amount reason meta =
     (if amount \<le> 0 then Inl (ErrInvalid ''credit amount must be positive'')
      else if \<not> st_pool s then Inr (d, 0)
      else grant_lxc_tx cx d w amount reason meta)"

text \<open>One row of \<open>GrantLXCUpTo\<close>'s statement: the ledger row and the balance of a short workspace.\<close>

definition grant_short :: "ctx \<Rightarrow> int \<Rightarrow> string \<Rightarrow> metadata \<Rightarrow> string \<Rightarrow> db \<times> nat \<Rightarrow> db \<times> nat" where
  "grant_short cx target reason meta w st =
     (case st of (d, n) \<Rightarrow>
        if bal_of d w < target then
          let delta = target - bal_of d w;
              d = insert_lxc_ledger cx d w delta target AdminGrant reason meta;
              d = write_lxc_balance d w target (minted_of d w + delta) (spent_of d w)
          in (d, Suc n)
        else (d, n))"

definition grant_lxc_up_to ::
    "store \<Rightarrow> ctx \<Rightarrow> db \<Rightarrow> string list \<Rightarrow> int \<Rightarrow> string \<Rightarrow> metadata \<Rightarrow> err + db \<times> nat" where
  "grant_lxc_up_to s cx d ws target reason meta =
     (if target \<le> 0 then Inl (ErrInvalid ''grant target must be positive'')
      else if \<not> st_pool s \<or> ws = [] then Inr (d, 0)
      else
        let meta = fst (lot_funding AdminGrant target meta);
            d = fold (\<lambda>w d. ensure_lxc_row d w) ws d
        in Inr (fold (grant_short cx target reason meta) (remdups ws) (d, 0)))"

text \<open>
  \<open>GetLXCHistory\<close>: newest first, with the source's clamps. \<open>sort_key\<close> is the ORDER BY, which
  says nothing of rows written at the same instant.
\<close>

definition get_lxc_history :: "store \<Rightarrow> db \<Rightarrow> string \<Rightarrow> int \<Rightarrow> int \<Rightarrow> ledger_row list" where
  "get_lxc_history s d w limit offset =
     (if \<not> st_pool s then []
      else
        let limit = (if limit \<le> 0 then 20 else limit);
            limit = (if limit > 200 then 200 else limit);
            offset = (if offset < 0 then 0 else offset)
        in take (nat limit) (drop (nat offset)
             (sort_key (\<lambda>r. - lr_at r) (filter (\<lambda>r. lr_ws r = w) (ledger d)))))"

subsection \<open>What the books must satisfy\<close>

definition ledger_ok :: "db \<Rightarrow> string \<Rightarrow> bool" where
  "ledger_ok d w \<longleftrightarrow> ledger_sum d w = bal_of d w"

definition holds_ok :: "db \<Rightarrow> bool" where
  "holds_ok d \<longleftrightarrow> distinct (map rv_id (reservations d)) \<and>
     list_all (\<lambda>r. 0 \<le> rv_held r \<and> 0 \<le> rv_bps r) (reservations d)"

text \<open>\<open>x w\<close> is what other open movements of \<open>w\<close> have debited and not yet taken backing for.\<close>

definition cash_ok :: "(string \<Rightarrow> int) \<Rightarrow> db \<Rightarrow> string \<Rightarrow> bool" where
  "cash_ok x d w \<longleftrightarrow> 0 \<le> cash_of d w \<and> cash_of d w \<le> bal_of d w + held_sum d w + x w"

definition solvent :: "db \<Rightarrow> string \<Rightarrow> bool" where
  "solvent d w \<longleftrightarrow> allocated d w \<le> bal_of d w"

definition stored_ok :: "db \<Rightarrow> string \<Rightarrow> bool" where
  "stored_ok d w \<longleftrightarrow> (\<forall>a. kept_account a \<longrightarrow> account_balance d w a = posted d w a)"

definition books :: "db \<Rightarrow> bool" where
  "books d \<longleftrightarrow> holds_ok d \<and> balanced d \<and> accounts_ok d \<and>
     (\<forall>w. ledger_ok d w \<and> solvent d w \<and> stored_ok d w \<and> 0 \<le> cash_of d w \<and> 0 \<le> test_of d w)"

definition backed :: "(string \<Rightarrow> int) \<Rightarrow> db \<Rightarrow> bool" where
  "backed x d \<longleftrightarrow> (\<forall>w. cash_ok x d w)"

lemma held_sum_nonneg: "holds_ok d \<Longrightarrow> 0 \<le> held_sum d w"
  unfolding held_sum_def by (rule sum_where_nonneg) (auto simp: holds_ok_def list_all_iff)

lemma holds_ok_cong: "reservations d' = reservations d \<Longrightarrow> holds_ok d' = holds_ok d"
  by (simp add: holds_ok_def)

text \<open>A step that touches the balances and the ledger only keeps the agents' part of the books.\<close>

lemma books_credits:
  assumes "books d"
    and "reservations d' = reservations d" "postings d' = postings d" "next_entry d' = next_entry d"
      "acct_balances d' = acct_balances d"
    and "\<And>v. ledger_sum d' v - bal_of d' v = ledger_sum d v - bal_of d v"
    and "\<And>v. bal_of d' v < bal_of d v \<Longrightarrow> allocated d v \<le> bal_of d' v"
    and "\<And>v. 0 \<le> cash_of d' v" and "\<And>v. 0 \<le> test_of d' v"
  shows "books d'"
proof -
  have v: "account_balance d' v a = account_balance d v a" "posted d' v a = posted d v a"
    "allocated d' v = allocated d v" for v a
    by (rule agent_views_cong [OF assms(3,5)])+
  have "allocated d v \<le> bal_of d' v" for v
    using assms(1) assms(7) [of v] by (cases "bal_of d' v < bal_of d v") (auto simp: books_def solvent_def intro: order_trans)
  moreover have "ledger_sum d' v = bal_of d' v" for v
    using assms(1) assms(6) [of v] by (simp add: books_def ledger_ok_def)
  moreover have "holds_ok d'" "balanced d'" "accounts_ok d'"
    using assms(1) holds_ok_cong [OF assms(2)] balanced_cong [OF assms(3,4)] accounts_ok_cong [OF assms(5)]
    by (simp_all add: books_def)
  ultimately show ?thesis
    using assms(1,8,9) by (simp add: books_def ledger_ok_def solvent_def stored_ok_def v)
qed

lemma platform_fee_bps_range:
  "platform_fee_bps s d w = Inr bps \<Longrightarrow> 0 \<le> bps \<and> bps \<le> fee_denominator"
  by (auto simp: platform_fee_bps_def fee_denominator_def rbind_Inr_iff split: option.splits if_splits)

subsection \<open>A debit with its fee, in closed form\<close>

text \<open>
  The rows a spend, a hold and an agent's debit write: the charge and its fee in the
  ledger, and the balance moved by both.
\<close>

definition debit_db ::
    "ctx \<Rightarrow> db \<Rightarrow> string \<Rightarrow> int \<Rightarrow> int \<Rightarrow> int \<Rightarrow> lxc_type \<Rightarrow> string \<Rightarrow> metadata \<Rightarrow> string \<Rightarrow> db" where
  "debit_db cx d w amount fee bps ty desc meta rq =
     (let b = bal_of d w - amount;
          d' = insert_lxc_ledger cx (ensure_lxc_row d w) w (- amount) b ty desc meta;
          d' = insert_platform_fee cx d' w fee (b - fee) bps amount rq
      in write_lxc_balance d' w (b - fee) (minted_of d w) (spent_of d w + amount + fee))"

lemma debit_views [view_simps]:
  fixes cx d w amount fee bps ty desc meta rq
  defines "D \<equiv> debit_db cx d w amount fee bps ty desc meta rq"
  shows "has_row D v \<longleftrightarrow> v = w \<or> has_row d v"
    and "bal_of D v = bal_of d v - (if v = w then amount + fee else 0)"
    and "cash_of D v = cash_of d v"
    and "minted_of D v = minted_of d v"
    and "spent_of D v = spent_of d v + (if v = w then amount + fee else 0)"
    and "test_of D v = (if v = w
      then clamp_test_funded (test_of d w) (bal_of d w - amount - fee) (held_sum d w) else test_of d v)"
    and "held_sum D v = held_sum d v"
    and "ledger_sum D v = ledger_sum d v - (if v = w then amount + fee else 0)"
    and "allocated D v = allocated d v"
    and "account_balance D v a = account_balance d v a"
    and "posted D v a = posted d v a"
  by (auto simp: D_def debit_db_def Let_def view_simps)

lemma debit_db_frame [simp]:
  shows "reservations (debit_db cx d w x y z ty de me rq) = reservations d"
    and "subbudgets (debit_db cx d w x y z ty de me rq) = subbudgets d"
    and "claims (debit_db cx d w x y z ty de me rq) = claims d"
    and "settlements (debit_db cx d w x y z ty de me rq) = settlements d"
    and "agents (debit_db cx d w x y z ty de me rq) = agents d"
    and "agent_keys (debit_db cx d w x y z ty de me rq) = agent_keys d"
    and "api_keys (debit_db cx d w x y z ty de me rq) = api_keys d"
    and "postings (debit_db cx d w x y z ty de me rq) = postings d"
    and "acct_balances (debit_db cx d w x y z ty de me rq) = acct_balances d"
    and "next_entry (debit_db cx d w x y z ty de me rq) = next_entry d"
    and "rules (debit_db cx d w x y z ty de me rq) = rules d"
    and "rules_versions (debit_db cx d w x y z ty de me rq) = rules_versions d"
    and "boosts (debit_db cx d w x y z ty de me rq) = boosts d"
    and "approvals (debit_db cx d w x y z ty de me rq) = approvals d"
    and "alerts (debit_db cx d w x y z ty de me rq) = alerts d"
    and "ws_pauses (debit_db cx d w x y z ty de me rq) = ws_pauses d"
    and "payee_payments (debit_db cx d w x y z ty de me rq) = payee_payments d"
    and "pots (debit_db cx d w x y z ty de me rq) = pots d"
    and "credit_lines (debit_db cx d w x y z ty de me rq) = credit_lines d"
    and "credit_draws (debit_db cx d w x y z ty de me rq) = credit_draws d"
    and "credit_invoices (debit_db cx d w x y z ty de me rq) = credit_invoices d"
    and "workspaces (debit_db cx d w x y z ty de me rq) = workspaces d"
    and "contracts (debit_db cx d w x y z ty de me rq) = contracts d"
    and "subscriptions (debit_db cx d w x y z ty de me rq) = subscriptions d"
    and "kya_credentials (debit_db cx d w x y z ty de me rq) = kya_credentials d"
    and "market_uses (debit_db cx d w x y z ty de me rq) = market_uses d"
    and "money_payments (debit_db cx d w x y z ty de me rq) = money_payments d"
    and "listings (debit_db cx d w x y z ty de me rq) = listings d"
    and "topups (debit_db cx d w x y z ty de me rq) = topups d"
    and "schedules (debit_db cx d w x y z ty de me rq) = schedules d"
  by (simp_all add: debit_db_def Let_def)

lemma spend_lxc_meta_InrD:
  assumes "spend_lxc_meta s cx d w amount desc meta = Inr (d', part)"
    and pool: "st_pool s" and cash: "0 \<le> cash_of d w"
  shows "\<exists>bps. platform_fee_bps s (ensure_lxc_row d w) w = Inr bps \<and> 0 < amount \<and>
      amount + platform_fee amount bps \<le> bal_of d w - allocated d w \<and>
      amount + platform_fee amount bps \<le> bal_of d w \<and>
      part = cash_used (cash_of d w) (bal_of d w) amount \<and>
      d' = (let D = debit_db cx d w amount (platform_fee amount bps) bps Spend desc meta (cx_charge_request cx);
          u = cash_used (cash_of d w - part) (bal_of d w - amount) (platform_fee amount bps)
        in take_cash (take_cash D w part) w u)"
  using assms(1) pool cash
  by (auto simp: spend_lxc_meta_def require_unallocated_def consume_cash_backed_eq Let_def
      rbind_Inr_iff view_simps cash_used_range debit_db_def [unfolded Let_def, symmetric]
      split: if_splits)

lemma clamp_nonneg: "0 \<le> t \<Longrightarrow> 0 \<le> clamp_test_funded t b h"
  by (simp add: clamp_test_funded_def)

lemma booksD:
  assumes "books d"
  shows "holds_ok d" "balanced d" "accounts_ok d" "ledger_sum d w = bal_of d w"
    "allocated d w \<le> bal_of d w" "0 \<le> cash_of d w" "0 \<le> test_of d w" "0 \<le> allocated d w"
    "0 \<le> held_sum d w" "kept_account a \<Longrightarrow> account_balance d w a = posted d w a"
  using assms
  by (simp_all add: books_def ledger_ok_def solvent_def stored_ok_def allocated_nonneg held_sum_nonneg)

lemma spend_keeps_books [keeps]:
  assumes b: "books d" and s: "spend_lxc_meta s cx d w amount desc meta = Inr (d', part)"
  shows "books d'"
proof (cases "st_pool s")
  case True
  note cash = booksD(6) [OF b]
  obtain bps where r: "0 < amount"
      "amount + platform_fee amount bps \<le> bal_of d w - allocated d w"
      "part = cash_used (cash_of d w) (bal_of d w) amount"
      "d' = take_cash (take_cash (debit_db cx d w amount (platform_fee amount bps) bps Spend desc meta
        (cx_charge_request cx)) w part) w (cash_used (cash_of d w - part) (bal_of d w - amount)
          (platform_fee amount bps))"
    using spend_lxc_meta_InrD [OF s True cash] by (auto simp: Let_def)
  have p: "0 \<le> part" "part \<le> cash_of d w" using r(3) cash_used_range cash by simp_all
  show ?thesis
    by (rule books_credits [OF b])
      (use r p cash cash_used_range [of "cash_of d w - part"] booksD [OF b] in
        \<open>auto simp: view_simps clamp_nonneg\<close>)
next
  case False
  then show ?thesis using assms by (auto simp: spend_lxc_meta_def split: if_splits)
qed

lemma backedI:
  "(\<And>v. 0 \<le> cash_of d' v \<and> cash_of d' v \<le> bal_of d' v + held_sum d' v + x v) \<Longrightarrow> backed x d'"
  by (simp add: backed_def cash_ok_def)

lemma backedD: "backed x d \<Longrightarrow> 0 \<le> cash_of d w \<and> cash_of d w \<le> bal_of d w + held_sum d w + x w"
  by (simp add: backed_def cash_ok_def)

text \<open>A spend draws the unbacked part of the balance first, so backing stays within what is left.\<close>

lemma spend_keeps_backed [keeps]:
  assumes b: "books d" and c: "backed x d" and x: "\<And>v. 0 \<le> x v" and pool: "st_pool s"
    and s: "spend_lxc_meta s cx d w amount desc meta = Inr (d', part)"
  shows "backed x d'"
proof -
  note cash = booksD(6) [OF b] and held = booksD(9) [OF b]
  obtain bps where r: "0 < amount" "amount + platform_fee amount bps \<le> bal_of d w"
      "part = cash_used (cash_of d w) (bal_of d w) amount"
      "d' = take_cash (take_cash (debit_db cx d w amount (platform_fee amount bps) bps Spend desc meta
        (cx_charge_request cx)) w part) w (cash_used (cash_of d w - part) (bal_of d w - amount)
          (platform_fee amount bps))"
    using spend_lxc_meta_InrD [OF s pool cash] by (auto simp: Let_def)
  define fee where "fee = platform_fee amount bps"
  have fee: "0 \<le> fee" by (simp add: fee_def platform_fee_nonneg)
  define u where "u = cash_used (cash_of d w - part) (bal_of d w - amount) fee"
  have p: "0 \<le> part" "part \<le> cash_of d w" using r(3) cash_used_range cash by simp_all
  have u: "0 \<le> u" "u \<le> cash_of d w - part" using p cash_used_range by (simp_all add: u_def)
  have sum: "part + u = cash_used (cash_of d w) (bal_of d w) (amount + fee)"
    using cash_used_add [of "cash_of d w" amount fee "bal_of d w"] cash r(1,3) fee by (simp add: u_def)
  have within: "cash_of d w - (part + u) \<le> bal_of d w - (amount + fee) + (held_sum d w + x w)"
    unfolding sum using backedD [OF c, of w] held [of w] x [of w] r(1,2) fee cash
    by (intro cash_used_within) (simp_all add: fee_def)
  show ?thesis
    using backedD [OF c] p u within
    by (intro backedI) (auto simp: r(4) view_simps fee_def [symmetric] u_def [symmetric])
qed

subsection \<open>Credits, grants and refunds\<close>

definition credit_db :: "ctx \<Rightarrow> db \<Rightarrow> string \<Rightarrow> int \<Rightarrow> lxc_type \<Rightarrow> string \<Rightarrow> metadata \<Rightarrow> int \<Rightarrow> db" where
  "credit_db cx d w amount ty reason meta test_funded =
     (let b = bal_of d w + amount;
          d' = insert_lxc_ledger cx (ensure_lxc_row d w) w amount b ty reason meta;
          d' = write_lxc_balance d' w b (minted_of d w + amount) (spent_of d w)
      in add_test_funded d' w test_funded)"

lemma credit_views [view_simps]:
  fixes cx d w amount ty reason meta t
  defines "D \<equiv> credit_db cx d w amount ty reason meta t"
  shows "has_row D v \<longleftrightarrow> v = w \<or> has_row d v"
    and "bal_of D v = bal_of d v + (if v = w then amount else 0)"
    and "minted_of D v = minted_of d v + (if v = w then amount else 0)"
    and "spent_of D v = spent_of d v"
    and "cash_of D v = cash_of d v"
    and "test_of D v = (if v = w
      then clamp_test_funded (test_of d w) (bal_of d w + amount) (held_sum d w) + max 0 t else test_of d v)"
    and "held_sum D v = held_sum d v"
    and "ledger_sum D v = ledger_sum d v + (if v = w then amount else 0)"
    and "allocated D v = allocated d v"
  by (auto simp: D_def credit_db_def Let_def view_simps)

lemma credit_db_frame [simp]:
  fixes cx d w amount ty reason meta t
  defines "D \<equiv> credit_db cx d w amount ty reason meta t"
  shows "reservations D = reservations d" and "postings D = postings d"
    and "next_entry D = next_entry d" and "acct_balances D = acct_balances d"
    and "workspaces D = workspaces d"
  by (simp_all add: D_def credit_db_def Let_def)

lemma credit_InrD:
  assumes "credit_lxc_tx_typed cx d w amount ty reason meta = Inr (d', b)"
  shows "0 < amount \<and> b = bal_of d w + amount \<and>
    (let (meta', t) = lot_funding ty amount meta; D = credit_db cx d w amount ty reason meta' t
     in d' = (if ty = Purchase then write_cash_backed D w (cash_of d w + amount) else D))"
  using assms
  by (auto simp: credit_lxc_tx_typed_def Let_def view_simps add_cash_backed_def read_cash_backed_eq
      credit_db_def split: if_splits prod.splits)

lemma credit_keeps_books [keeps]:
  assumes b: "books d" and s: "credit_lxc_tx_typed cx d w amount ty reason meta = Inr (d', n)"
  shows "books d'" and "backed x d \<Longrightarrow> backed x d'"
proof -
  obtain meta' t where D: "0 < amount"
      "d' = (if ty = Purchase
        then write_cash_backed (credit_db cx d w amount ty reason meta' t) w (cash_of d w + amount)
        else credit_db cx d w amount ty reason meta' t)"
    using credit_InrD [OF s] by (auto simp: Let_def split: prod.splits)
  show "books d'"
    by (rule books_credits [OF b]; use D booksD [OF b] booksD(5) [OF b, of w] in
        \<open>cases "ty = Purchase"; auto simp: view_simps clamp_nonneg\<close>)
  show "backed x d'" if "backed x d"
  proof (rule backedI)
    fix v
    show "0 \<le> cash_of d' v \<and> cash_of d' v \<le> bal_of d' v + held_sum d' v + x v"
      using D backedD [OF that, of v] by (auto simp: view_simps)
  qed
qed

lemma refund_keeps_books [keeps]:
  assumes b: "books d" and s: "reduce_cash_backed_for_refund d w refund = Inr d'"
  shows "books d'" and "backed x d \<Longrightarrow> backed x d'"
proof -
  have D: "d' = d \<or> 0 < refund \<and> has_row d w \<and> d' = write_cash_backed d w (max 0 (cash_of d w - refund))"
    using s by (auto simp: reduce_cash_backed_for_refund_def read_cash_backed_eq Let_def max_def
        split: if_splits)
  show "books d'"
    by (rule books_credits [OF b]) (use D booksD [OF b] in \<open>auto simp: view_simps\<close>)
  show "backed x d'" if "backed x d"
  proof (rule backedI)
    fix v
    show "0 \<le> cash_of d' v \<and> cash_of d' v \<le> bal_of d' v + held_sum d' v + x v"
      using D backedD [OF that, of v] by (auto simp: view_simps)
  qed
qed

subsection \<open>The set-based grant\<close>

lemma books_ensure: "books d \<Longrightarrow> books (ensure_lxc_row d w)"
  by (rule books_credits [where d = d]) (auto simp: view_simps booksD)

lemma fold_ensure_has_row: "has_row (fold (\<lambda>w d. ensure_lxc_row d w) ws d) v \<longleftrightarrow> v \<in> set ws \<or> has_row d v"
  by (induction ws arbitrary: d) auto

lemma fold_ensure_views:
  "bal_of (fold (\<lambda>w d. ensure_lxc_row d w) ws d) v = bal_of d v \<and>
   ledger_sum (fold (\<lambda>w d. ensure_lxc_row d w) ws d) v = ledger_sum d v"
  by (induction ws arbitrary: d) (auto simp: view_simps)

lemma fold_ensure_books:
  "books d \<Longrightarrow> books (fold (\<lambda>w d. ensure_lxc_row d w) ws d)"
  by (induction ws arbitrary: d) (simp_all add: books_ensure)

lemma grant_short_views:
  assumes "has_row d w" and "grant_short cx target reason meta w (d, n) = (d', n')"
  shows "bal_of d' v = (if v = w then max target (bal_of d v) else bal_of d v)"
    and "ledger_sum d' v = ledger_sum d v + (bal_of d' v - bal_of d v)"
    and "has_row d' v = has_row d v"
    and "n' = n + (if bal_of d w < target then 1 else 0)"
  using assms by (auto simp: grant_short_def Let_def view_simps split: if_splits)

lemma grant_short_books:
  assumes "books d" and "has_row d w" and "grant_short cx target reason meta w (d, n) = (d', n')"
  shows "books d'"
proof -
  note b = assms(1)
  show ?thesis
    by (rule books_credits [OF b]; use assms booksD [OF b] booksD(5) [OF b, of w] in
        \<open>auto simp: grant_short_def Let_def view_simps clamp_nonneg split: if_splits\<close>)
qed

lemma grant_fold:
  assumes "books d" and "\<forall>w\<in>set ws. has_row d w" and "distinct ws"
    and "fold (grant_short cx target reason meta) ws (d, n) = (d', n')"
  shows "books d' \<and> n' = n + length (filter (\<lambda>w. bal_of d w < target) ws) \<and>
    (\<forall>v. bal_of d' v = (if v \<in> set ws then max target (bal_of d v) else bal_of d v))"
  using assms
proof (induction ws arbitrary: d n)
  case (Cons w ws)
  obtain e m where e: "grant_short cx target reason meta w (d, n) = (e, m)" by fastforce
  have row: "has_row d w" using Cons.prems by simp
  note v = grant_short_views [OF row e]
  have rest: "filter (\<lambda>u. bal_of e u < target) ws = filter (\<lambda>u. bal_of d u < target) ws"
    using Cons.prems(3) v(1) by (intro filter_cong) auto
  have "books d' \<and> n' = m + length (filter (\<lambda>u. bal_of e u < target) ws) \<and>
    (\<forall>u. bal_of d' u = (if u \<in> set ws then max target (bal_of e u) else bal_of e u))"
    using Cons.prems e grant_short_books [OF _ row e] v(3) by (intro Cons.IH) auto
  then show ?case using v(1,4) rest Cons.prems(3) by auto
qed simp

text \<open>Every workspace named is left with at least the target, none with less than it had, and the
count is that of the workspaces that were short.\<close>

lemma grant_up_to_effect:
  assumes b: "books d" and pool: "st_pool s"
    and s: "grant_lxc_up_to s cx d ws target reason meta = Inr (d', n)"
  shows "books d'"
    and "bal_of d' v = (if v \<in> set ws then max target (bal_of d v) else bal_of d v)"
    and "n = card {w \<in> set ws. bal_of d w < target}"
proof -
  let ?e = "fold (\<lambda>w d. ensure_lxc_row d w) ws d"
  have "0 < target" using s by (auto simp: grant_lxc_up_to_def split: if_splits)
  then have f: "ws \<noteq> [] \<Longrightarrow>
      fold (grant_short cx target reason (fst (lot_funding AdminGrant target meta))) (remdups ws) (?e, 0) = (d', n)"
    using s pool by (auto simp: grant_lxc_up_to_def Let_def)
  have r: "books d' \<and> n = length (filter (\<lambda>w. bal_of d w < target) (remdups ws)) \<and>
    (\<forall>v. bal_of d' v = (if v \<in> set ws then max target (bal_of d v) else bal_of d v))"
    if "ws \<noteq> []"
    using grant_fold [OF fold_ensure_books [OF b, of ws] _ distinct_remdups f [OF that]]
    by (auto simp: fold_ensure_has_row fold_ensure_views)
  have e: "ws = [] \<Longrightarrow> d' = d \<and> n = 0" using s by (auto simp: grant_lxc_up_to_def split: if_splits)
  show "books d'" using r e b by (cases "ws = []") auto
  show "bal_of d' v = (if v \<in> set ws then max target (bal_of d v) else bal_of d v)"
    using r e by (cases "ws = []") auto
  have "length (filter (\<lambda>w. bal_of d w < target) (remdups ws)) = card {w \<in> set ws. bal_of d w < target}"
    using distinct_card [of "filter (\<lambda>w. bal_of d w < target) (remdups ws)"]
    by (simp only: set_filter set_remdups distinct_filter distinct_remdups)
  then show "n = card {w \<in> set ws. bal_of d w < target}"
    using r e by (cases "ws = []") auto
qed

end
