(* ===== verification/Agent_Accounts.thy ===== *)
theory Agent_Accounts
  imports Credits
begin

section \<open>Agent accounts (agent_accounts.go, agent_pots.go, agent_lifecycle.go, agent_alerts.go)\<close>

text \<open>
  Creating, claiming, funding, pausing and archiving an agent, its keys and its pots. An
  operation is one transaction: it takes the database and returns the new one with its
  answer, or an error and no database. A row's generated id is an argument; a second row
  under a primary key or a unique name is the database's error.

  \<open>move_funds_db\<close> is what a fund, a withdrawal and a move into or out of a pot write, one
  entry of two postings; its lemmas are what the properties of all four rest on.
\<close>

definition plan_row_of :: "db \<Rightarrow> string \<Rightarrow> plan_row" where
  "plan_row_of d w =
     \<lparr>pr_contract = contracts d w, pr_subscription = subscriptions d w,
      pr_synthetic_plan = (case workspaces d w of None \<Rightarrow> None | Some r \<Rightarrow> wk_synthetic_plan r),
      pr_synthetic = test_workspace d w\<rparr>"

definition update_agent_where :: "(agent_row \<Rightarrow> bool) \<Rightarrow> (agent_row \<Rightarrow> agent_row) \<Rightarrow> db \<Rightarrow> db" where
  "update_agent_where p f d = d\<lparr>agents := map (\<lambda>r. if p r then f r else r) (agents d)\<rparr>"

definition is_agent_of :: "string \<Rightarrow> string \<Rightarrow> agent_row \<Rightarrow> bool" where
  "is_agent_of w a r \<longleftrightarrow> ag_id r = a \<and> ag_ws r = w"

subsection \<open>Creating and claiming\<close>

definition require_owner :: "db \<Rightarrow> string \<Rightarrow> err + unit" where
  "require_owner d a =
     (case find_agent d a of
        None \<Rightarrow> Inl (ErrInvalid ''agent owner'')
      | Some r \<Rightarrow> if ag_owner r = '''' then Inl ErrAgentOwnerless else Inr ())"

definition require_not_archived :: "db \<Rightarrow> string \<Rightarrow> err + unit" where
  "require_not_archived d a =
     (case find_agent d a of
        None \<Rightarrow> Inl (ErrInvalid ''agent archived'')
      | Some r \<Rightarrow> if ag_archived_at r \<noteq> None then Inl ErrAgentArchived else Inr ())"

definition claim_agent :: "db \<Rightarrow> string \<Rightarrow> string \<Rightarrow> string \<Rightarrow> err + db" where
  "claim_agent d w a user =
     (if user = '''' then Inl ErrAgentOwnerless
      else if \<not> list_ex (is_agent_of w a) (agents d) then Inl ErrAgentNotFound
      else Inr (update_agent_where (is_agent_of w a) (\<lambda>r. r\<lparr>ag_owner := user\<rparr>) d))"

definition new_agent :: "ctx \<Rightarrow> string \<Rightarrow> string \<Rightarrow> string \<Rightarrow> string \<Rightarrow> agent_kind \<Rightarrow> agent_row" where
  "new_agent cx a w name owner kind =
     \<lparr>ag_id = a, ag_ws = w, ag_name = name, ag_desc = '''', ag_owner = owner, ag_kind = kind,
      ag_paused_at = None, ag_paused_reason = '''', ag_archived_at = None, ag_created_at = cx_now cx\<rparr>"

definition insert_agent :: "db \<Rightarrow> agent_row \<Rightarrow> err + db" where
  "insert_agent d r =
     (if find_agent d (ag_id r) \<noteq> None then Inl (ErrDbCheck ''agent_accounts_pkey'')
      else Inr (d\<lparr>agents := agents d @ [r]\<rparr>))"

definition insert_agent_key :: "db \<Rightarrow> string \<Rightarrow> string \<Rightarrow> err + db" where
  "insert_agent_key d key a =
     (if map_of (agent_keys d) key \<noteq> None then Inl (ErrDbCheck ''agent_account_keys_pkey'')
      else Inr (d\<lparr>agent_keys := agent_keys d @ [(key, a)]\<rparr>))"

definition counted_agents :: "db \<Rightarrow> string \<Rightarrow> int" where
  "counted_agents d w = int (length (filter (\<lambda>r. ag_ws r = w \<and> ag_archived_at r = None \<and>
     ag_kind r = KindAgent) (agents d)))"

definition create_agent ::
    "store \<Rightarrow> ctx \<Rightarrow> db \<Rightarrow> string \<Rightarrow> string \<Rightarrow> string \<Rightarrow> string \<Rightarrow> err + db \<times> agent_row" where
  "create_agent s cx d w name owner new_id =
     (if w = '''' \<or> name = '''' then Inl (ErrInvalid ''an agent needs a workspace and a name'')
      else if owner = '''' then Inl ErrAgentOwnerless
      else
        let plan = of_under (st_gates s) (plan_row_of d w);
            n = counted_agents d w
        in if \<not> within_limit (n + 1) (g_agents (pw_gates plan))
           then Inl (ErrPlan (refuse_count plan (st_gates s) ''agents'' (g_agents (pw_gates plan))))
           else let a = new_agent cx new_id w name owner KindAgent
                in rbind (insert_agent d a) (\<lambda>d. Inr (d, a)))"

definition create_room_agent_tx ::
    "ctx \<Rightarrow> db \<Rightarrow> string \<Rightarrow> string \<Rightarrow> string \<Rightarrow> string \<Rightarrow> string \<Rightarrow> err + db \<times> agent_row" where
  "create_room_agent_tx cx d w name owner key new_id =
     (if w = '''' \<or> name = '''' \<or> key = ''''
      then Inl (ErrInvalid ''a room's wallet needs a workspace, a name and a key'')
      else let a = new_agent cx new_id w name owner KindRoom
        in rbind (insert_agent d a) (\<lambda>d.
             rbind (insert_agent_key d key new_id) (\<lambda>d. Inr (d, a))))"

definition attach_agent_key :: "db \<Rightarrow> string \<Rightarrow> string \<Rightarrow> string \<Rightarrow> err + db" where
  "attach_agent_key d w a key =
     rbind (lock_agent d w a) (\<lambda>_.
       case find_agent d a of
         None \<Rightarrow> Inl (ErrInvalid ''attach key'')
       | Some r \<Rightarrow> if ag_kind r = KindRoom then Inl ErrRoomWalletKey else insert_agent_key d key a)"

text \<open>\<open>details\<close> are trimmed before they are written; \<open>None\<close> leaves a column as it is.\<close>

definition max_agent_description :: nat where
  "max_agent_description = 500"

definition update_agent ::
    "db \<Rightarrow> string \<Rightarrow> string \<Rightarrow> string option \<Rightarrow> string option \<Rightarrow> err + db" where
  "update_agent d w a name desc =
     (let name = map_option trim_space name; desc = map_option trim_space desc
      in if name = Some '''' then Inl (ErrInvalid ''an agent's name cannot be blank'')
         else if (case desc of Some t \<Rightarrow> length t > max_agent_description | None \<Rightarrow> False)
         then Inl (ErrInvalid ''a description is at most 500 characters'')
         else if \<not> list_ex (is_agent_of w a) (agents d) then Inl ErrAgentNotFound
         else Inr (update_agent_where (is_agent_of w a)
           (\<lambda>r. r\<lparr>ag_name := (case name of Some t \<Rightarrow> t | None \<Rightarrow> ag_name r),
                  ag_desc := (case desc of Some t \<Rightarrow> t | None \<Rightarrow> ag_desc r)\<rparr>) d))"

subsection \<open>Funding and withdrawing\<close>

definition landed :: "db \<Rightarrow> string \<Rightarrow> account \<Rightarrow> posting_kind \<Rightarrow> string \<Rightarrow> bool" where
  "landed d w acc kind ref = list_ex (\<lambda>p. po_ws p = w \<and> po_account p = acc \<and> po_kind p = kind \<and>
     po_ref p = ref) (postings d)"

definition move_agent_funds ::
    "ctx \<Rightarrow> db \<Rightarrow> string \<Rightarrow> string \<Rightarrow> int \<Rightarrow> posting_kind \<Rightarrow> err + db \<times> int" where
  "move_agent_funds cx d w a amount kind =
     (if amount \<le> 0 then Inl (ErrInvalid ''the amount must be positive'')
      else rbind (lock_agent d w a) (\<lambda>_.
        let bal = account_balance d w (AgentAcc a); ref = cx_move_key cx
        in if ref \<noteq> '''' \<and> landed d w (AgentAcc a) kind ref then Inr (d, bal)
           else if kind = PkFund then
             rbind (require_owner d a) (\<lambda>_.
             rbind (require_not_archived d a) (\<lambda>_.
               case read_lxc_balance d w of (d, ws_bal, _, _) \<Rightarrow>
                 let unallocated = ws_bal - allocated d w
                 in if unallocated < amount then Inl (ErrAgentFunds unallocated)
                    else rbind (post_entry cx d w kind ref [(WorkspaceAcc, - amount), (AgentAcc a, amount)])
                      (\<lambda>d. Inr (d, bal + amount))))
           else if bal < amount then Inl (ErrAgentFunds bal)
           else rbind (post_entry cx d w kind ref [(AgentAcc a, - amount), (WorkspaceAcc, amount)])
             (\<lambda>d. Inr (d, bal - amount))))"

definition fund_agent :: "ctx \<Rightarrow> db \<Rightarrow> string \<Rightarrow> string \<Rightarrow> int \<Rightarrow> err + db \<times> int" where
  "fund_agent cx d w a amount = move_agent_funds cx d w a amount PkFund"

definition withdraw_agent :: "ctx \<Rightarrow> db \<Rightarrow> string \<Rightarrow> string \<Rightarrow> int \<Rightarrow> err + db \<times> int" where
  "withdraw_agent cx d w a amount = move_agent_funds cx d w a amount PkWithdraw"

subsection \<open>Pots (agent_pots.go)\<close>

definition create_pot ::
    "db \<Rightarrow> string \<Rightarrow> string \<Rightarrow> string \<Rightarrow> string \<Rightarrow> int \<Rightarrow> int option \<Rightarrow> string \<Rightarrow> err + db \<times> pot" where
  "create_pot d w a name kind target locked_until new_id =
     (let name = trim_space name
      in if name = '''' \<or> length name > 64 then Inl (ErrPot ''a pot needs a name of up to 64 characters'')
         else if kind \<noteq> ''goal'' \<and> kind \<noteq> ''budget'' \<and> kind \<noteq> ''reserve''
         then Inl (ErrPot ''kind must be goal, budget or reserve'')
         else if target < 0 then Inl (ErrPot ''the target cannot be negative'')
         else if \<not> list_ex (is_agent_of w a) (agents d) then Inl ErrAgentNotFound
         else if list_ex (\<lambda>p. pt_id p = new_id) (pots d) then Inl (ErrDbCheck ''agent_pots_pkey'')
         else if list_ex (\<lambda>p. pt_agent p = a \<and> pt_name p = name) (pots d)
         then Inl (ErrPot ''the agent already has a pot called this'')
         else let p = \<lparr>pt_id = new_id, pt_ws = w, pt_agent = a, pt_name = name, pt_kind = kind,
                pt_target = target, pt_locked_until = locked_until\<rparr>
              in Inr (d\<lparr>pots := pots d @ [p]\<rparr>, p))"

definition find_pot :: "db \<Rightarrow> string \<Rightarrow> string \<Rightarrow> string \<Rightarrow> pot option" where
  "find_pot d w a p = find (\<lambda>r. pt_id r = p \<and> pt_agent r = a \<and> pt_ws r = w) (pots d)"

definition lock_in_force :: "ctx \<Rightarrow> pot \<Rightarrow> bool" where
  "lock_in_force cx p = (case pt_locked_until p of None \<Rightarrow> False | Some t \<Rightarrow> t > cx_now cx)"

definition lock_pot :: "ctx \<Rightarrow> db \<Rightarrow> string \<Rightarrow> string \<Rightarrow> string \<Rightarrow> int option \<Rightarrow> err + db" where
  "lock_pot cx d w a p until =
     (case find_pot d w a p of
        None \<Rightarrow> Inl ErrPotNotFound
      | Some r \<Rightarrow>
          (case pt_locked_until r of
             Some current \<Rightarrow>
               if current > cx_now cx \<and> (case until of None \<Rightarrow> True | Some u \<Rightarrow> u < current)
               then Inl (ErrPotLocked current)
               else Inr (d\<lparr>pots := map (\<lambda>q. if pt_id q = p then q\<lparr>pt_locked_until := until\<rparr> else q) (pots d)\<rparr>)
           | None \<Rightarrow>
               Inr (d\<lparr>pots := map (\<lambda>q. if pt_id q = p then q\<lparr>pt_locked_until := until\<rparr> else q) (pots d)\<rparr>)))"

definition move_pot ::
    "ctx \<Rightarrow> db \<Rightarrow> string \<Rightarrow> string \<Rightarrow> string \<Rightarrow> int \<Rightarrow> bool \<Rightarrow> err + db" where
  "move_pot cx d w a p amount to_pot =
     (if amount \<le> 0 then Inl (ErrInvalid ''the amount must be positive'')
      else rbind (lock_agent d w a) (\<lambda>_.
        case find_pot d w a p of
          None \<Rightarrow> Inl ErrPotNotFound
        | Some r \<Rightarrow>
            let kind = (if to_pot then PkPotIn else PkPotOut);
                ref = (if cx_move_key cx \<noteq> '''' then cx_move_key cx else p)
            in if cx_move_key cx \<noteq> '''' \<and> landed d w (PotAcc p) kind ref then Inr d
               else if \<not> to_pot \<and> lock_in_force cx r
               then Inl (ErrPotLocked (case pt_locked_until r of Some t \<Rightarrow> t | None \<Rightarrow> 0))
               else
                 let source = (if to_pot then AgentAcc a else PotAcc p);
                     target = (if to_pot then PotAcc p else AgentAcc a);
                     have = account_balance d w source
                 in if have < amount then Inl (ErrAgentFunds have)
                    else post_entry cx d w kind ref [(source, - amount), (target, amount)]))"

text \<open>What the agent's pots hold together: the join of stored balances and pots.\<close>

definition agent_pots_total :: "db \<Rightarrow> string \<Rightarrow> string \<Rightarrow> int" where
  "agent_pots_total d w a =
     sum_list (map (\<lambda>p. account_balance d w (PotAcc (pt_id p))) (filter (\<lambda>p. pt_agent p = a) (pots d)))"

text \<open>\<open>pots\<close>: each pot with what it held before \<open>at\<close>, summed from its postings.\<close>

definition pots_at :: "db \<Rightarrow> string \<Rightarrow> string \<Rightarrow> string \<Rightarrow> int \<Rightarrow> (pot \<times> int) list" where
  "pots_at d w a p at =
     map (\<lambda>r. (r, sum_where (\<lambda>g. po_ws g = w \<and> po_account g = PotAcc (pt_id r) \<and> po_at g < at)
         po_amount (postings d)))
       (filter (\<lambda>r. pt_ws r = w \<and> pt_agent r = a \<and> (p = '''' \<or> pt_id r = p)) (pots d))"

subsection \<open>Pausing and archiving (agent_alerts.go, agent_lifecycle.go, agent_kya.go)\<close>

definition revoke_kya :: "ctx \<Rightarrow> (kya_credential \<Rightarrow> bool) \<Rightarrow> string \<Rightarrow> db \<Rightarrow> db" where
  "revoke_kya cx p reason d =
     d\<lparr>kya_credentials := map (\<lambda>c. if p c \<and> ky_revoked c = None \<and> ky_expires c > cx_now cx
         then c\<lparr>ky_revoked := Some (cx_now cx, reason)\<rparr> else c) (kya_credentials d)\<rparr>"

definition revoke_agent_kya :: "ctx \<Rightarrow> db \<Rightarrow> string \<Rightarrow> string \<Rightarrow> db" where
  "revoke_agent_kya cx d a reason = revoke_kya cx (\<lambda>c. ky_agent c = a) reason d"

definition revoke_workspace_kya :: "ctx \<Rightarrow> db \<Rightarrow> string \<Rightarrow> string \<Rightarrow> db" where
  "revoke_workspace_kya cx d w reason = revoke_kya cx (\<lambda>c. ky_ws c = w) reason d"

definition refuse_if_paused :: "db \<Rightarrow> string \<Rightarrow> err + unit" where
  "refuse_if_paused d a =
     (case find_agent d a of
        None \<Rightarrow> Inl (ErrInvalid ''agent paused'')
      | Some r \<Rightarrow>
          let or_owner = (\<lambda>reason. if reason = '''' then ''paused by the workspace's owner'' else reason)
          in if ag_archived_at r \<noteq> None then Inl (ErrAgentRule Archived)
             else case ws_pauses d (ag_ws r) of
               Some reason \<Rightarrow> Inl (ErrAgentRule (AllPaused (or_owner reason)))
             | None \<Rightarrow>
                 if ag_paused_at r = None then Inr ()
                 else Inl (ErrAgentRule (Paused (or_owner (ag_paused_reason r)))))"

definition pause_agent :: "ctx \<Rightarrow> db \<Rightarrow> string \<Rightarrow> string \<Rightarrow> string \<Rightarrow> err + db" where
  "pause_agent cx d w a reason =
     (if \<not> list_ex (is_agent_of w a) (agents d) then Inl ErrAgentNotFound
      else
        let d = update_agent_where (is_agent_of w a)
              (\<lambda>r. r\<lparr>ag_paused_at := (case ag_paused_at r of None \<Rightarrow> Some (cx_now cx) | Some t \<Rightarrow> Some t),
                     ag_paused_reason := reason\<rparr>) d
        in Inr (revoke_agent_kya cx d a ''frozen''))"

definition resume_agent :: "db \<Rightarrow> string \<Rightarrow> string \<Rightarrow> err + db" where
  "resume_agent d w a =
     (if \<not> list_ex (is_agent_of w a) (agents d) then Inl ErrAgentNotFound
      else Inr (update_agent_where (is_agent_of w a)
        (\<lambda>r. r\<lparr>ag_paused_at := None, ag_paused_reason := ''''\<rparr>) d))"

definition pause_all_agents :: "ctx \<Rightarrow> db \<Rightarrow> string \<Rightarrow> string \<Rightarrow> db" where
  "pause_all_agents cx d w reason =
     revoke_workspace_kya cx (d\<lparr>ws_pauses := (ws_pauses d)(w \<mapsto> reason)\<rparr>) w ''frozen''"

definition resume_all_agents :: "db \<Rightarrow> string \<Rightarrow> db" where
  "resume_all_agents d w = d\<lparr>ws_pauses := (ws_pauses d)(w := None)\<rparr>"

record agent_archive =
  ar_agent :: string
  ar_swept :: int
  ar_revoked :: "string list"
  ar_at :: int

definition archive_agent :: "ctx \<Rightarrow> db \<Rightarrow> string \<Rightarrow> string \<Rightarrow> err + db \<times> agent_archive" where
  "archive_agent cx d w a =
     rbind (lock_agent d w a) (\<lambda>_.
     rbind (require_not_archived d a) (\<lambda>_.
       let held = agent_pots_total d w a
       in if held \<noteq> 0 then Inl (ErrAgentPotsHeld held)
          else
            let bal = account_balance d w (AgentAcc a)
            in rbind (if bal > 0
                 then post_entry cx d w PkWithdraw (''archive:'' @ a) [(AgentAcc a, - bal), (WorkspaceAcc, bal)]
                 else Inr d) (\<lambda>d.
                 let mine = map fst (filter (\<lambda>k. snd k = a) (agent_keys d));
                     gone = filter (\<lambda>k. snd k = w \<and> fst k \<in> set mine) (api_keys d);
                     d = d\<lparr>api_keys := filter (\<lambda>k. \<not> (snd k = w \<and> fst k \<in> set mine)) (api_keys d)\<rparr>;
                     d = d\<lparr>topups := filter (\<lambda>t. \<not> (tu_agent t = a \<and> tu_ws t = w)) (topups d)\<rparr>;
                     d = d\<lparr>schedules := map (\<lambda>c. if sc_ws c = w \<and> (sc_from c = a \<or> sc_to c = a)
                       then c\<lparr>sc_active := False\<rparr> else c) (schedules d)\<rparr>;
                     d = update_agent_where (\<lambda>r. ag_id r = a) (\<lambda>r. r\<lparr>ag_archived_at := Some (cx_now cx)\<rparr>) d;
                     d = revoke_agent_kya cx d a ''archived''
                 in Inr (d, \<lparr>ar_agent = a, ar_swept = (if bal > 0 then bal else 0),
                      ar_revoked = map fst gone, ar_at = cx_now cx\<rparr>))))"

subsection \<open>The book of a workspace (AgentBook)\<close>

record agent_view =
  av_agent :: agent_row
  av_balance :: int
  av_spent :: int
  av_keys :: "string list"
  av_pots :: int

record agent_book =
  ab_workspace :: int
  ab_allocated :: int
  ab_unallocated :: int
  ab_spent :: int
  ab_agents :: "agent_view list"
  ab_all_paused :: "string option"

definition spend_leg_kind :: "posting_kind \<Rightarrow> bool" where
  "spend_leg_kind k \<longleftrightarrow> k \<in> {PkSpend, PkHold, PkSettle, PkRelease, PkCard, PkFee}"

definition view_agent :: "db \<Rightarrow> string \<Rightarrow> agent_row \<Rightarrow> agent_view" where
  "view_agent d w r =
     \<lparr>av_agent = r, av_balance = account_balance d w (AgentAcc (ag_id r)),
      av_spent = - sum_where (\<lambda>p. po_ws p = w \<and> po_account p = AgentAcc (ag_id r) \<and>
        spend_leg_kind (po_kind p)) po_amount (postings d),
      av_keys = map fst (filter (\<lambda>k. snd k = ag_id r) (agent_keys d)),
      av_pots = agent_pots_total d w (ag_id r)\<rparr>"

definition read_agent_book :: "db \<Rightarrow> string \<Rightarrow> agent_book" where
  "read_agent_book d w =
     (let views = map (view_agent d w) (filter (\<lambda>r. ag_ws r = w) (agents d));
          allocated = sum_list (map (\<lambda>v. av_balance v + av_pots v) views);
          bal = (case balances d w of None \<Rightarrow> 0 | Some r \<Rightarrow> lx_balance r)
      in \<lparr>ab_workspace = bal, ab_allocated = allocated, ab_unallocated = bal - allocated,
          ab_spent = sum_list (map av_spent views), ab_agents = views,
          ab_all_paused = ws_pauses d w\<rparr>)"

subsection \<open>Posting an entry keeps the books\<close>

lemma books_posted:
  assumes b: "books d" and z: "legs_total ls = 0"
    and nn: "\<And>a. is_allocated a \<Longrightarrow> 0 \<le> account_balance d w a + legs_on a ls"
    and room: "allocated d w + legs_allocated ls \<le> bal_of d w"
  shows "books (posted_db cx d w kind ref model bps ls)" (is "books ?e")
proof -
  have "holds_ok ?e" using b by (simp add: books_def holds_ok_cong [of ?e d])
  moreover have "balanced ?e" using b z by (simp add: books_def keeps)
  moreover have "accounts_ok ?e" using b nn by (intro accounts_ok_posted_db) (simp_all add: books_def)
  moreover have "ledger_sum ?e v = bal_of ?e v" "0 \<le> cash_of ?e v" "0 \<le> test_of ?e v" for v
    using booksD [OF b] by (simp_all add: view_simps)
  moreover have "allocated ?e v \<le> bal_of ?e v" for v
    using booksD(5) [OF b] room by (simp add: view_simps)
  moreover have "account_balance ?e v a = posted ?e v a" if "kept_account a" for v a
    using booksD(10) [OF b that] that by (simp add: view_simps)
  ultimately show ?thesis
    by (simp add: books_def ledger_ok_def solvent_def stored_ok_def)
qed

text \<open>A step that touches neither the wallet's tables nor the agents' ledger.\<close>

definition same_money :: "db \<Rightarrow> db \<Rightarrow> bool" where
  "same_money d d' \<longleftrightarrow> balances d' = balances d \<and> ledger d' = ledger d \<and>
     reservations d' = reservations d \<and> postings d' = postings d \<and>
     acct_balances d' = acct_balances d \<and> next_entry d' = next_entry d"

lemma same_money_refl [simp]: "same_money d d"
  by (simp add: same_money_def)

lemma same_money_trans: "same_money d e \<Longrightarrow> same_money e f \<Longrightarrow> same_money d f"
  by (simp add: same_money_def)

lemma same_money_views:
  assumes "same_money d d'"
  shows "bal_of d' v = bal_of d v" "cash_of d' v = cash_of d v" "test_of d' v = test_of d v"
    "held_sum d' v = held_sum d v" "ledger_sum d' v = ledger_sum d v" "allocated d' v = allocated d v"
    "account_balance d' v a = account_balance d v a" "posted d' v a = posted d v a"
    "has_row d' v = has_row d v" "minted_of d' v = minted_of d v" "spent_of d' v = spent_of d v"
    "entry_sum d' e = entry_sum d e"
  using assms
  by (simp_all add: same_money_def bal_of_def cash_of_def test_of_def row_of_def held_sum_def
      ledger_sum_def allocated_def account_balance_def posted_def has_row_def minted_of_def
      spent_of_def entry_sum_def)

lemma same_money_books:
  assumes "same_money d d'" and "books d"
  shows "books d'"
proof (rule books_credits [OF assms(2)])
  fix v
  show "bal_of d' v < bal_of d v \<Longrightarrow> allocated d v \<le> bal_of d' v"
    using same_money_views(1) [OF assms(1)] by simp
qed (use assms same_money_views [OF assms(1)] booksD [OF assms(2)] in \<open>simp_all add: same_money_def\<close>)

lemma same_money_backed: "same_money d d' \<Longrightarrow> backed x d \<Longrightarrow> backed x d'"
  using same_money_views by (simp add: backed_def cash_ok_def)

lemma update_agent_where_money [simp]: "same_money d (update_agent_where p f d)"
  by (simp add: same_money_def update_agent_where_def)

lemma revoke_money [simp]:
  "same_money d (revoke_kya cx p reason d)" "same_money d (revoke_agent_kya cx d a reason)"
  "same_money d (revoke_workspace_kya cx d w reason)"
  by (simp_all add: same_money_def revoke_kya_def revoke_agent_kya_def revoke_workspace_kya_def)

lemma insert_agent_money: "insert_agent d r = Inr d' \<Longrightarrow> same_money d d'"
  by (auto simp: insert_agent_def same_money_def split: if_splits)

lemma insert_agent_key_money: "insert_agent_key d k a = Inr d' \<Longrightarrow> same_money d d'"
  by (auto simp: insert_agent_key_def same_money_def split: if_splits)

lemmas account_moves_no_money = insert_agent_money insert_agent_key_money same_money_trans

lemma accounts_same_money:
  "claim_agent d w a u = Inr d1 \<Longrightarrow> same_money d d1"
  "create_agent s cx d w name owner i = Inr (d2, r) \<Longrightarrow> same_money d d2"
  "create_room_agent_tx cx d w name owner key i = Inr (d3, r) \<Longrightarrow> same_money d d3"
  "attach_agent_key d w a key = Inr d4 \<Longrightarrow> same_money d d4"
  "update_agent d w a nm de = Inr d5 \<Longrightarrow> same_money d d5"
  "create_pot d w a name k t l i = Inr (d6, p) \<Longrightarrow> same_money d d6"
  "lock_pot cx d w a pid til = Inr d7 \<Longrightarrow> same_money d d7"
  "pause_agent cx d w a reason = Inr d8 \<Longrightarrow> same_money d d8"
  "resume_agent d w a = Inr d9 \<Longrightarrow> same_money d d9"
  "same_money d (pause_all_agents cx d w reason)"
  "same_money d (resume_all_agents d w)"
  by (auto simp: claim_agent_def create_agent_def create_room_agent_tx_def attach_agent_key_def
      update_agent_def create_pot_def lock_pot_def pause_agent_def resume_agent_def Let_def
      pause_all_agents_def resume_all_agents_def revoke_workspace_kya_def revoke_kya_def
      revoke_agent_kya_def update_agent_where_def same_money_def insert_agent_def insert_agent_key_def
      split: if_splits option.splits)

subsection \<open>The four moves between a workspace, an agent and its pots\<close>

lemma lock_agent_Inr: "lock_agent d w a = Inr u \<longleftrightarrow> (\<exists>r. find_agent d a = Some r \<and> ag_ws r = w)"
  by (auto simp: lock_agent_def split: option.splits if_splits)

lemma kept_simps [simp]:
  "kept_account (AgentAcc a)" "kept_account (PotAcc p)" "\<not> kept_account WorkspaceAcc"
  "\<not> kept_account SpendAcc" "\<not> kept_account CashedOutAcc" "kept_account (EscrowAcc e)"
  by (simp_all add: kept_account_def)

text \<open>A fund succeeds by posting the whole amount or, when its key has landed, by moving nothing.\<close>

lemma fund_InrD:
  assumes "fund_agent cx d w a amount = Inr (d', bal)"
  shows "0 < amount \<and> (\<exists>r. find_agent d a = Some r \<and> ag_ws r = w) \<and>
    ((cx_move_key cx \<noteq> '''' \<and> landed d w (AgentAcc a) PkFund (cx_move_key cx) \<and> d' = d \<and>
        bal = account_balance d w (AgentAcc a)) \<or>
     (\<not> (cx_move_key cx \<noteq> '''' \<and> landed d w (AgentAcc a) PkFund (cx_move_key cx)) \<and>
        require_owner d a = Inr () \<and> require_not_archived d a = Inr () \<and>
        amount \<le> bal_of d w - allocated d w \<and> bal = account_balance d w (AgentAcc a) + amount \<and>
        d' = posted_db cx (ensure_lxc_row d w) w PkFund (cx_move_key cx) None None
          [(WorkspaceAcc, - amount), (AgentAcc a, amount)]))"
  using assms
  by (auto simp: fund_agent_def move_agent_funds_def Let_def post_entry_eq lock_agent_Inr view_simps
      split: if_splits)

lemma withdraw_InrD:
  assumes "withdraw_agent cx d w a amount = Inr (d', bal)"
  shows "0 < amount \<and> (\<exists>r. find_agent d a = Some r \<and> ag_ws r = w) \<and>
    ((cx_move_key cx \<noteq> '''' \<and> landed d w (AgentAcc a) PkWithdraw (cx_move_key cx) \<and> d' = d \<and>
        bal = account_balance d w (AgentAcc a)) \<or>
     (\<not> (cx_move_key cx \<noteq> '''' \<and> landed d w (AgentAcc a) PkWithdraw (cx_move_key cx)) \<and>
        amount \<le> account_balance d w (AgentAcc a) \<and> bal = account_balance d w (AgentAcc a) - amount \<and>
        d' = posted_db cx d w PkWithdraw (cx_move_key cx) None None
          [(AgentAcc a, - amount), (WorkspaceAcc, amount)]))"
  using assms
  by (auto simp: withdraw_agent_def move_agent_funds_def Let_def post_entry_eq lock_agent_Inr
      split: if_splits)

lemma balance_room:
  "books d \<Longrightarrow> amount \<le> bal_of d w - allocated d w \<Longrightarrow> allocated d w + amount \<le> bal_of d w"
  by simp

lemma fund_keeps_books [keeps]:
  assumes b: "books d" and s: "fund_agent cx d w a amount = Inr (d', bal)"
  shows "books d'" and "backed x d \<Longrightarrow> backed x d'"
proof -
  consider "d' = d" | "0 < amount" "amount \<le> bal_of d w - allocated d w"
      "d' = posted_db cx (ensure_lxc_row d w) w PkFund (cx_move_key cx) None None
        [(WorkspaceAcc, - amount), (AgentAcc a, amount)]"
    using fund_InrD [OF s] by blast
  note c = this
  show "books d'"
    using c
  proof cases
    case 2
    show ?thesis unfolding 2(3)
      using 2(1,2) b accounts_okD [OF booksD(3) [OF b]]
      by (intro books_posted books_ensure) (auto simp: view_simps add_increasing2)
  qed (simp add: b)
  show "backed x d'" if "backed x d"
    using c that by cases (simp_all add: backed_def cash_ok_def view_simps)
qed

lemma withdraw_keeps_books [keeps]:
  assumes b: "books d" and s: "withdraw_agent cx d w a amount = Inr (d', bal)"
  shows "books d'" and "backed x d \<Longrightarrow> backed x d'"
proof -
  consider "d' = d" | "0 < amount" "amount \<le> account_balance d w (AgentAcc a)"
      "d' = posted_db cx d w PkWithdraw (cx_move_key cx) None None
        [(AgentAcc a, - amount), (WorkspaceAcc, amount)]"
    using withdraw_InrD [OF s] by blast
  note c = this
  show "books d'"
    using c
  proof cases
    case 2
    show ?thesis unfolding 2(3)
      using 2(1,2) accounts_okD [OF booksD(3) [OF b]] booksD(5) [OF b, of w]
      by (intro books_posted [OF b]) auto
  qed (simp add: b)
  show "backed x d'" if "backed x d"
    using c that by cases (simp_all add: backed_def cash_ok_def view_simps)
qed

lemma move_pot_InrD:
  assumes "move_pot cx d w a p amount to_pot = Inr d'"
  shows "d' = d \<or> (\<exists>r kind ref. find_pot d w a p = Some r \<and> 0 < amount \<and>
    (if to_pot then amount \<le> account_balance d w (AgentAcc a) \<and>
        d' = posted_db cx d w kind ref None None [(AgentAcc a, - amount), (PotAcc p, amount)]
     else \<not> lock_in_force cx r \<and> amount \<le> account_balance d w (PotAcc p) \<and>
        d' = posted_db cx d w kind ref None None [(PotAcc p, - amount), (AgentAcc a, amount)]))"
  using assms
  by (auto simp: move_pot_def Let_def post_entry_eq split: if_splits option.splits)

lemma move_pot_moves:
  assumes "move_pot cx d w a p amount to_pot = Inr d'"
  shows "d' = d \<or> (\<exists>kind ref x y. 0 < amount \<and> is_allocated x \<and> is_allocated y \<and> x \<noteq> y \<and>
    amount \<le> account_balance d w x \<and>
    d' = posted_db cx d w kind ref None None [(x, - amount), (y, amount)])"
proof -
  have m: "d' = d \<or> (\<exists>kind ref. 0 < amount \<and> amount \<le> account_balance d w x \<and>
      d' = posted_db cx d w kind ref None None [(x, - amount), (y, amount)])"
    if "x = (if to_pot then AgentAcc a else PotAcc p)" "y = (if to_pot then PotAcc p else AgentAcc a)" for x y
    using move_pot_InrD [OF assms] that by (cases to_pot) (simp_all, blast+)
  have "is_allocated (if to_pot then AgentAcc a else PotAcc p)"
    "is_allocated (if to_pot then PotAcc p else AgentAcc a)"
    "(if to_pot then AgentAcc a else PotAcc p) \<noteq> (if to_pot then PotAcc p else AgentAcc a)"
    by simp_all
  with m [OF refl refl] show ?thesis by blast
qed

lemma move_pot_keeps_books [keeps]:
  assumes b: "books d" and s: "move_pot cx d w a p amount to_pot = Inr d'"
  shows "books d'" and "backed x d \<Longrightarrow> backed x d'"
proof -
  consider "d' = d" | kind ref x y where "0 < amount" "is_allocated x" "is_allocated y" "x \<noteq> y"
      "amount \<le> account_balance d w x"
      "d' = posted_db cx d w kind ref None None [(x, - amount), (y, amount)]"
    using move_pot_moves [OF s] by blast
  note c = this
  show "books d'"
    using c
  proof cases
    case 2
    show ?thesis unfolding 2(6)
      using 2(1-5) accounts_okD [OF booksD(3) [OF b]] booksD(5) [OF b, of w]
      by (intro books_posted [OF b]) auto
  qed (simp add: b)
  show "backed x d'" if "backed x d"
    using c that by cases (simp_all add: backed_def cash_ok_def view_simps)
qed

lemma archive_InrD:
  assumes "archive_agent cx d w a = Inr (d', out)"
  shows "agent_pots_total d w a = 0 \<and> require_not_archived d a = Inr () \<and>
    (\<exists>r. find_agent d a = Some r \<and> ag_ws r = w) \<and>
    (let bal = account_balance d w (AgentAcc a)
     in ar_swept out = max 0 bal \<and>
        same_money (if bal > 0 then posted_db cx d w PkWithdraw (''archive:'' @ a) None None
          [(AgentAcc a, - bal), (WorkspaceAcc, bal)] else d) d')"
  using assms
  by (auto simp: archive_agent_def Let_def post_entry_eq lock_agent_Inr same_money_def
      revoke_agent_kya_def revoke_kya_def update_agent_where_def split: if_splits)

lemma archive_keeps_books [keeps]:
  assumes b: "books d" and s: "archive_agent cx d w a = Inr (d', out)"
  shows "books d'" and "backed x d \<Longrightarrow> backed x d'"
proof -
  let ?bal = "account_balance d w (AgentAcc a)"
  let ?e = "if ?bal > 0 then posted_db cx d w PkWithdraw (''archive:'' @ a) None None
          [(AgentAcc a, - ?bal), (WorkspaceAcc, ?bal)] else d"
  have m: "same_money ?e d'" using archive_InrD [OF s] by (simp add: Let_def)
  have e: "books ?e"
    using b accounts_okD [OF booksD(3) [OF b]] booksD(5) [OF b, of w]
    by (auto intro!: books_posted)
  show "books d'" using m e by (rule same_money_books)
  show "backed x d'" if "backed x d"
  proof (rule same_money_backed [OF m])
    show "backed x ?e" using that by (simp add: backed_def cash_ok_def view_simps)
  qed
qed

subsection \<open>A fund sent again under its key\<close>

definition run_fund :: "ctx \<Rightarrow> string \<Rightarrow> string \<Rightarrow> int \<Rightarrow> db \<Rightarrow> err + db" where
  "run_fund cx w a amount d = rbind (fund_agent cx d w a amount) (\<lambda>(d, _). Inr d)"

definition fund_claimed :: "ctx \<Rightarrow> string \<Rightarrow> string \<Rightarrow> int \<Rightarrow> db \<Rightarrow> bool" where
  "fund_claimed cx w a amount d \<longleftrightarrow> 0 < amount \<and> lock_agent d w a = Inr () \<and>
     landed d w (AgentAcc a) PkFund (cx_move_key cx)"

lemma landed_posted:
  "landed (posted_db cx d w kind ref model bps ls) v acc k r \<longleftrightarrow>
     landed d v acc k r \<or> (v = w \<and> k = kind \<and> r = ref \<and> (\<exists>l\<in>set ls. fst l = acc))"
proof -
  have "list_ex (\<lambda>p. po_ws p = v \<and> po_account p = acc \<and> po_kind p = k \<and> po_ref p = r)
      (map (leg_posting cx (next_entry d) w kind ref model bps) ls) \<longleftrightarrow>
    v = w \<and> k = kind \<and> r = ref \<and> (\<exists>l\<in>set ls. fst l = acc)"
    by (induction ls) (auto simp: leg_posting_def)
  then show ?thesis by (simp add: landed_def posted_db_def)
qed

text \<open>Under a key, a fund lands once however often it is sent.\<close>

interpretation fund: exactly_once
    "run_fund (cx\<lparr>cx_move_key := c # key\<rparr>) w a amount"
    "fund_claimed (cx\<lparr>cx_move_key := c # key\<rparr>) w a amount" "\<lambda>_. True"
  for cx c key w a amount
proof
  let ?cx = "cx\<lparr>cx_move_key := c # key\<rparr>"
  fix d d'
  assume "run_fund ?cx w a amount d = Inr d'"
  then obtain bal where s: "fund_agent ?cx d w a amount = Inr (d', bal)"
    by (auto simp: run_fund_def)
  show "fund_claimed ?cx w a amount d'"
    using fund_InrD [OF s] by (auto simp: fund_claimed_def lock_agent_Inr landed_posted)
next
  let ?cx = "cx\<lparr>cx_move_key := c # key\<rparr>"
  fix d
  assume "fund_claimed ?cx w a amount d"
  then show "run_fund ?cx w a amount d = Inr d"
    by (auto simp: fund_claimed_def run_fund_def fund_agent_def move_agent_funds_def Let_def)
qed

end
