(* ===== verification/Agent_Rules.thy ===== *)
theory Agent_Rules
  imports Agent_Accounts
begin

section \<open>Spending rules per agent (agent_rules.go, agent_rule_boosts.go, agent_rules_history.go)\<close>

text \<open>
  \<open>agent_rules\<close> is the Go struct \<open>AgentRules\<close>, \<open>None\<close> for a nil pointer, slice or map;
  \<open>rules_row\<close> its row in the database. A Go map is the list of its entries. Saving,
  reading, boosting and rolling back rules come first, then judging a movement by the rules
  in force (\<open>enforce_agent_rules\<close>) with everything it counts, and the approvals.

  \<open>zone\<close> is \<open>time.LoadLocation\<close>; the empty name is UTC, as \<open>location\<close> reads it.
\<close>

record agent_rules =
  rl_max_per_request :: int
  rl_hourly :: "int option"
  rl_daily :: int
  rl_weekly :: "int option"
  rl_monthly :: int
  rl_approval_above :: int
  rl_models :: "string list"
  rl_providers :: "string list"
  rl_listings :: "string list option"
  rl_active_from :: string
  rl_active_until :: string
  rl_timezone :: string
  rl_pause_on_unusual :: bool
  rl_model_daily :: "(string \<times> int) list option"
  rl_rpm :: "int option"
  rl_allowed_payees :: "string list option"
  rl_blocked_payees :: "string list option"
  rl_payee_daily :: "(string \<times> int) list option"
  rl_max_commitment :: "int option"
  rl_licences :: "string list option"
  rl_may_subscribe :: "bool option"

definition no_rules :: agent_rules where
  "no_rules = \<lparr>rl_max_per_request = 0, rl_hourly = None, rl_daily = 0, rl_weekly = None,
     rl_monthly = 0, rl_approval_above = 0, rl_models = [], rl_providers = [], rl_listings = None,
     rl_active_from = '''', rl_active_until = '''', rl_timezone = '''', rl_pause_on_unusual = False,
     rl_model_daily = None, rl_rpm = None, rl_allowed_payees = None, rl_blocked_payees = None,
     rl_payee_daily = None, rl_max_commitment = None, rl_licences = None, rl_may_subscribe = None\<rparr>"

definition agent_licences :: "string list" where
  "agent_licences = [''commercial'', ''enterprise'']"

definition limit_of :: "int option \<Rightarrow> int" where
  "limit_of v = (case v of None \<Rightarrow> 0 | Some n \<Rightarrow> n)"

definition entries :: "'a list option \<Rightarrow> 'a list" where
  "entries xs = (case xs of None \<Rightarrow> [] | Some ys \<Rightarrow> ys)"

subsection \<open>Checking rules before they are saved\<close>

text \<open>\<open>time.Parse("15:04", s)\<close>: an hour of one or two digits, a minute of two.\<close>

fun parse_hour :: "string \<Rightarrow> (int \<times> string) option" where
  "parse_hour (a # b # rest) =
     (if \<not> is_digit a then None
      else if is_digit b then Some (10 * digit_value a + digit_value b, rest)
      else Some (digit_value a, b # rest))"
| "parse_hour [a] = (if is_digit a then Some (digit_value a, []) else None)"
| "parse_hour [] = None"

definition clock_minutes :: "string \<Rightarrow> int option" where
  "clock_minutes s =
     (case parse_hour s of
        Some (h, c # x # y # []) \<Rightarrow>
          if c = CHR '':'' \<and> is_digit x \<and> is_digit y \<and> h < 24 \<and>
             10 * digit_value x + digit_value y < 60
          then Some (h * 60 + (10 * digit_value x + digit_value y)) else None
      | _ \<Rightarrow> None)"

definition rules_location :: "(string \<rightharpoonup> tz) \<Rightarrow> agent_rules \<Rightarrow> tz option" where
  "rules_location zone r = (if rl_timezone r = '''' then Some utc else zone (rl_timezone r))"

fun check_model_caps :: "string list \<Rightarrow> (string \<times> int) list \<Rightarrow> refusal + unit" where
  "check_model_caps named [] = Inr ()"
| "check_model_caps named ((model, v) # rest) =
     (let key = model_cap_key model
      in if key = '''' then Inl (InvalidRules ''a model's daily limit needs the model's name'')
         else if v < 0 then Inl (InvalidRules ''a model's daily limit cannot be negative'')
         else if key \<in> set named then Inl (InvalidRules ''two names are the same model'')
         else check_model_caps (key # named) rest)"

definition bad_payee_id :: "string \<Rightarrow> bool" where
  "bad_payee_id i \<longleftrightarrow> trim_space i \<noteq> i \<or> i = ''''"

definition validate_hours :: "agent_rules \<Rightarrow> refusal + unit" where
  "validate_hours r =
     (if (rl_active_from r = '''') \<noteq> (rl_active_until r = '''')
      then Inl (InvalidRules ''active_from and active_until go together'')
      else if rl_active_from r \<noteq> '''' then
        (case clock_minutes (rl_active_from r) of
           None \<Rightarrow> Inl (InvalidRules ''active_from is not a time of day'')
         | Some from \<Rightarrow>
             (case clock_minutes (rl_active_until r) of
                None \<Rightarrow> Inl (InvalidRules ''active_until is not a time of day'')
              | Some until \<Rightarrow>
                  if from = until
                  then Inl (InvalidRules ''active_from and active_until are the same time'')
                  else Inr ()))
      else Inr ())"

definition validate_rules :: "(string \<rightharpoonup> tz) \<Rightarrow> agent_rules \<Rightarrow> refusal + unit" where
  "validate_rules zone r =
     rbind (guard (list_all (\<lambda>v. 0 \<le> v) [rl_max_per_request r, limit_of (rl_hourly r), rl_daily r,
         limit_of (rl_weekly r), rl_monthly r, rl_approval_above r, limit_of (rl_rpm r),
         limit_of (rl_max_commitment r)])
       (InvalidRules ''a limit cannot be negative'')) (\<lambda>_.
     rbind (check_model_caps [] (entries (rl_model_daily r))) (\<lambda>_.
     rbind (guard (limit_of (rl_rpm r) \<le> 2147483647)
       (InvalidRules ''requests_per_minute is too large'')) (\<lambda>_.
     rbind (guard (\<not> list_ex bad_payee_id (entries (rl_allowed_payees r) @ entries (rl_blocked_payees r)))
       (InvalidRules ''not a payee's id'')) (\<lambda>_.
     rbind (guard (\<not> list_ex (\<lambda>i. i \<in> set (entries (rl_blocked_payees r))) (entries (rl_allowed_payees r)))
       (InvalidRules ''a payee is both allowed and blocked'')) (\<lambda>_.
     rbind (guard (\<not> list_ex (\<lambda>(i, v). bad_payee_id i \<or> v < 0) (entries (rl_payee_daily r)))
       (InvalidRules ''a payee's daily limit'')) (\<lambda>_.
     rbind (guard (list_all (\<lambda>l. l \<in> set agent_licences) (entries (rl_licences r)))
       (InvalidRules ''an agent may hold commercial and enterprise licences'')) (\<lambda>_.
     rbind (validate_hours r) (\<lambda>_.
       guard (rules_location zone r \<noteq> None) (InvalidRules ''not an IANA time zone'')))))))))"

subsection \<open>Saving and reading\<close>

definition null_if_zero :: "int \<Rightarrow> int option" where
  "null_if_zero v = (if v = 0 then None else Some v)"

definition caps_json :: "(string \<times> int) list option \<Rightarrow> (string \<Rightarrow> string) \<Rightarrow> (string \<times> int) list option" where
  "caps_json limits key =
     map_option (\<lambda>ls. map (\<lambda>(name, v). (key name, v)) (filter (\<lambda>(name, v). v > 0) ls)) limits"

text \<open>\<open>NULLIF(COALESCE($1, stored), 0)\<close>: an absent limit keeps the stored one, a zero clears it.\<close>

definition keep_limit :: "int option \<Rightarrow> int option \<Rightarrow> int option" where
  "keep_limit given stored =
     (case given of None \<Rightarrow> stored | Some n \<Rightarrow> null_if_zero n)"

definition keep_list :: "'a option \<Rightarrow> 'a \<Rightarrow> 'a" where
  "keep_list given stored = (case given of None \<Rightarrow> stored | Some xs \<Rightarrow> xs)"

definition empty_rules_row :: "string \<Rightarrow> rules_row" where
  "empty_rules_row w = \<lparr>ru_ws = w, ru_max_per_request = None, ru_hourly = None, ru_daily = None,
     ru_weekly = None, ru_monthly = None, ru_approval_above = None, ru_models = [], ru_providers = [],
     ru_listings = [], ru_active_from = None, ru_active_until = None, ru_timezone = ''UTC'',
     ru_pause_on_unusual = False, ru_model_daily = [], ru_rpm = None, ru_allowed_payees = [],
     ru_blocked_payees = [], ru_payee_daily = [], ru_max_commitment = None, ru_licences = [],
     ru_may_subscribe = False\<rparr>"

definition saved_row :: "agent_rules \<Rightarrow> rules_row \<Rightarrow> rules_row" where
  "saved_row r old = \<lparr>ru_ws = ru_ws old,
     ru_max_per_request = null_if_zero (rl_max_per_request r),
     ru_hourly = keep_limit (rl_hourly r) (ru_hourly old),
     ru_daily = null_if_zero (rl_daily r),
     ru_weekly = keep_limit (rl_weekly r) (ru_weekly old),
     ru_monthly = null_if_zero (rl_monthly r),
     ru_approval_above = null_if_zero (rl_approval_above r),
     ru_models = rl_models r, ru_providers = rl_providers r,
     ru_listings = keep_list (rl_listings r) (ru_listings old),
     ru_active_from = (if rl_active_from r \<noteq> '''' then Some (rl_active_from r) else None),
     ru_active_until = (if rl_active_from r \<noteq> '''' then Some (rl_active_until r) else None),
     ru_timezone = (if rl_timezone r = '''' then ''UTC'' else rl_timezone r),
     ru_pause_on_unusual = rl_pause_on_unusual r,
     ru_model_daily = keep_list (caps_json (rl_model_daily r) model_cap_key) (ru_model_daily old),
     ru_rpm = keep_limit (rl_rpm r) (ru_rpm old),
     ru_allowed_payees = keep_list (rl_allowed_payees r) (ru_allowed_payees old),
     ru_blocked_payees = keep_list (rl_blocked_payees r) (ru_blocked_payees old),
     ru_payee_daily = keep_list (caps_json (rl_payee_daily r) (\<lambda>i. i)) (ru_payee_daily old),
     ru_max_commitment = keep_limit (rl_max_commitment r) (ru_max_commitment old),
     ru_licences = keep_list (rl_licences r) (ru_licences old),
     ru_may_subscribe = keep_list (rl_may_subscribe r) (ru_may_subscribe old)\<rparr>"

text \<open>\<open>scanAgentRules\<close>: what the columns read as.\<close>

definition scan_agent_rules :: "rules_row \<Rightarrow> agent_rules" where
  "scan_agent_rules u = \<lparr>rl_max_per_request = limit_of (ru_max_per_request u),
     rl_hourly = Some (limit_of (ru_hourly u)), rl_daily = limit_of (ru_daily u),
     rl_weekly = Some (limit_of (ru_weekly u)), rl_monthly = limit_of (ru_monthly u),
     rl_approval_above = limit_of (ru_approval_above u), rl_models = ru_models u,
     rl_providers = ru_providers u, rl_listings = Some (ru_listings u),
     rl_active_from = keep_list (ru_active_from u) '''',
     rl_active_until = keep_list (ru_active_until u) '''', rl_timezone = ru_timezone u,
     rl_pause_on_unusual = ru_pause_on_unusual u, rl_model_daily = Some (ru_model_daily u),
     rl_rpm = Some (limit_of (ru_rpm u)), rl_allowed_payees = Some (ru_allowed_payees u),
     rl_blocked_payees = Some (ru_blocked_payees u), rl_payee_daily = Some (ru_payee_daily u),
     rl_max_commitment = Some (limit_of (ru_max_commitment u)),
     rl_licences = Some (ru_licences u), rl_may_subscribe = Some (ru_may_subscribe u)\<rparr>"

definition check_room_budget :: "store \<Rightarrow> db \<Rightarrow> string \<Rightarrow> string \<Rightarrow> int \<Rightarrow> err + unit" where
  "check_room_budget s d w a monthly =
     (case find (is_agent_of w a) (agents d) of
        None \<Rightarrow> Inl ErrAgentNotFound
      | Some r \<Rightarrow>
          if ag_kind r \<noteq> KindRoom then Inr ()
          else case st_room_budget s of
            None \<Rightarrow> Inl (ErrInvalid ''room budgets are not configured'')
          | Some check \<Rightarrow> check d w monthly)"

definition latest_version :: "db \<Rightarrow> string \<Rightarrow> rules_version option" where
  "latest_version d a =
     fold (\<lambda>v best. if rn_agent v \<noteq> a then best
        else case best of None \<Rightarrow> Some v
             | Some b \<Rightarrow> if rn_version b < rn_version v then Some v else Some b) (rules_versions d) None"

definition record_rules_version :: "ctx \<Rightarrow> db \<Rightarrow> string \<Rightarrow> string \<Rightarrow> db" where
  "record_rules_version cx d a change =
     (case rules d a of
        None \<Rightarrow> d
      | Some cur \<Rightarrow>
          (case latest_version d a of
             Some v \<Rightarrow>
               if rn_rules v = cur then d
               else revoke_agent_kya cx (d\<lparr>rules_versions := rules_versions d @
                 [\<lparr>rn_agent = a, rn_version = rn_version v + 1, rn_rules = cur, rn_by = cx_changed_by cx,
                   rn_change = change\<rparr>]\<rparr>) a ''rules changed''
           | None \<Rightarrow>
               revoke_agent_kya cx (d\<lparr>rules_versions := rules_versions d @
                 [\<lparr>rn_agent = a, rn_version = 1, rn_rules = cur, rn_by = cx_changed_by cx,
                   rn_change = change\<rparr>]\<rparr>) a ''rules changed''))"

definition change_of :: "ctx \<Rightarrow> string" where
  "change_of cx = (if cx_change cx = '''' then ''set'' else cx_change cx)"

definition set_agent_rules ::
    "store \<Rightarrow> ctx \<Rightarrow> db \<Rightarrow> string \<Rightarrow> string \<Rightarrow> agent_rules \<Rightarrow> err + db" where
  "set_agent_rules s cx d w a r =
     (case validate_rules (st_zone s) r of
        Inl e \<Rightarrow> Inl (ErrAgentRule e)
      | Inr _ \<Rightarrow>
          rbind (check_room_budget s d w a (rl_monthly r)) (\<lambda>_.
            if \<not> list_ex (is_agent_of w a) (agents d) then Inl ErrAgentNotFound
            else
              let old = (case rules d a of Some u \<Rightarrow> u | None \<Rightarrow> empty_rules_row w);
                  d = d\<lparr>rules := (rules d)(a \<mapsto> saved_row r old)\<rparr>
              in Inr (record_rules_version cx d a (change_of cx))))"

definition default_rules :: agent_rules where
  "default_rules = scan_agent_rules (empty_rules_row '''')"

definition get_agent_rules :: "db \<Rightarrow> string \<Rightarrow> string \<Rightarrow> err + agent_rules" where
  "get_agent_rules d w a =
     (if \<not> list_ex (is_agent_of w a) (agents d) then Inl ErrAgentNotFound
      else case rules d a of None \<Rightarrow> Inr default_rules | Some u \<Rightarrow> Inr (scan_agent_rules u))"

definition agent_exists :: "db \<Rightarrow> string \<Rightarrow> string \<Rightarrow> err + unit" where
  "agent_exists d w a =
     (if list_ex (is_agent_of w a) (agents d) then Inr () else Inl ErrAgentNotFound)"

text \<open>The version's row is written back whole, under the agent and the workspace that ask.\<close>

definition rollback_agent_rules ::
    "store \<Rightarrow> ctx \<Rightarrow> db \<Rightarrow> string \<Rightarrow> string \<Rightarrow> int \<Rightarrow> err + db \<times> agent_rules" where
  "rollback_agent_rules s cx d w a version =
     rbind (agent_exists d w a) (\<lambda>_.
       case find (\<lambda>v. rn_agent v = a \<and> rn_version v = version) (rules_versions d) of
         None \<Rightarrow> Inl (ErrInvalid ''the agent has no such version of its rules'')
       | Some v \<Rightarrow>
           let row = (rn_rules v)\<lparr>ru_ws := w\<rparr>;
               d = d\<lparr>rules := (rules d)(a \<mapsto> row)\<rparr>;
               d = record_rules_version cx d a (''rollback to '' @ show_nat (nat version));
               r = scan_agent_rules row
           in rbind (check_room_budget s d w a (rl_monthly r)) (\<lambda>_. Inr (d, r)))"

subsection \<open>Boosts (agent_rule_boosts.go)\<close>

fun get_limit :: "limit_rule \<Rightarrow> agent_rules \<Rightarrow> int option" where
  "get_limit MaxPerRequestRule r = Some (rl_max_per_request r)"
| "get_limit HourlyRule r = rl_hourly r"
| "get_limit DailyRule r = Some (rl_daily r)"
| "get_limit WeeklyRule r = rl_weekly r"
| "get_limit MonthlyRule r = Some (rl_monthly r)"
| "get_limit ApprovalAboveRule r = Some (rl_approval_above r)"
| "get_limit RequestsPerMinuteRule r = rl_rpm r"

fun set_limit :: "limit_rule \<Rightarrow> int \<Rightarrow> agent_rules \<Rightarrow> agent_rules" where
  "set_limit MaxPerRequestRule v r = r\<lparr>rl_max_per_request := v\<rparr>"
| "set_limit HourlyRule v r = r\<lparr>rl_hourly := Some v\<rparr>"
| "set_limit DailyRule v r = r\<lparr>rl_daily := v\<rparr>"
| "set_limit WeeklyRule v r = r\<lparr>rl_weekly := Some v\<rparr>"
| "set_limit MonthlyRule v r = r\<lparr>rl_monthly := v\<rparr>"
| "set_limit ApprovalAboveRule v r = r\<lparr>rl_approval_above := v\<rparr>"
| "set_limit RequestsPerMinuteRule v r = r\<lparr>rl_rpm := Some v\<rparr>"

fun apply_boosts :: "boost list \<Rightarrow> agent_rules \<Rightarrow> agent_rules" where
  "apply_boosts [] r = r"
| "apply_boosts (b # bs) r =
     apply_boosts bs
       (case get_limit (bo_rule b) r of
          Some v \<Rightarrow> if v = bo_raised_from b \<and> bo_value b > v then set_limit (bo_rule b) (bo_value b) r else r
        | None \<Rightarrow> r)"

definition agent_boosts :: "db \<Rightarrow> string \<Rightarrow> int \<Rightarrow> boost list" where
  "agent_boosts d a at = sort_key bo_until (filter (\<lambda>b. bo_agent b = a \<and> bo_until b > at) (boosts d))"

definition agent_rules_in_force :: "db \<Rightarrow> string \<Rightarrow> int \<Rightarrow> agent_rules option" where
  "agent_rules_in_force d a at =
     (case rules d a of
        None \<Rightarrow> None
      | Some u \<Rightarrow> Some (apply_boosts (agent_boosts d a at) (scan_agent_rules u)))"

definition boost_agent_rule ::
    "store \<Rightarrow> ctx \<Rightarrow> db \<Rightarrow> string \<Rightarrow> string \<Rightarrow> limit_rule \<Rightarrow> int \<Rightarrow> int \<Rightarrow> err + db \<times> boost" where
  "boost_agent_rule s cx d w a rule value until =
     (if value \<le> 0 then Inl (ErrAgentRule (InvalidRules ''a boost needs the value the limit is raised to''))
      else if \<not> until > cx_now cx
      then Inl (ErrAgentRule (InvalidRules ''a boost needs a time in the future to last until''))
      else rbind (get_agent_rules d w a) (\<lambda>r.
        let current = limit_of (get_limit rule r)
        in if current = 0 then Inl (ErrAgentRule (InvalidRules ''the agent has no such limit to raise''))
           else if value \<le> current
           then Inl (ErrAgentRule (InvalidRules ''a boost must raise the limit''))
           else rbind (if rule = MonthlyRule then check_room_budget s d w a value else Inr ()) (\<lambda>_.
             let b = \<lparr>bo_agent = a, bo_ws = w, bo_rule = rule, bo_raised_from = current,
                   bo_value = value, bo_until = until, bo_by = cx_changed_by cx\<rparr>;
                 d = d\<lparr>boosts := filter (\<lambda>c. \<not> (bo_agent c = a \<and> bo_rule c = rule)) (boosts d) @ [b]\<rparr>
             in Inr (revoke_agent_kya cx d a ''rules changed'', b))))"

definition end_agent_boost :: "ctx \<Rightarrow> db \<Rightarrow> string \<Rightarrow> string \<Rightarrow> limit_rule \<Rightarrow> err + db" where
  "end_agent_boost cx d w a rule =
     (let hit = (\<lambda>b. bo_agent b = a \<and> bo_ws b = w \<and> bo_rule b = rule \<and> bo_until b > cx_now cx)
      in if list_ex hit (boosts d)
         then Inr (revoke_agent_kya cx (d\<lparr>boosts := filter (\<lambda>b. \<not> hit b) (boosts d)\<rparr>) a ''rules changed'')
         else rbind (get_agent_rules d w a) (\<lambda>_. Inl ErrBoostNotFound))"

subsection \<open>What the limits count\<close>

record period_limit =
  pl_ulxc :: int
  pl_since :: int
  pl_name :: string

definition day_start :: "tz \<Rightarrow> civil \<Rightarrow> int" where
  "day_start loc now = tz_date loc (ci_year now) (ci_month now) (ci_mday now)"

definition period_limits :: "agent_rules \<Rightarrow> tz \<Rightarrow> int \<Rightarrow> period_limit list" where
  "period_limits r loc t =
     (let now = tz_civil loc t;
          monday = ci_mday now - (ci_weekday now + 6) mod 7;
          hour = t - (ci_minute now * ns_minute + ci_second now * ns_second + ci_nano now)
      in [\<lparr>pl_ulxc = limit_of (rl_hourly r), pl_since = hour, pl_name = ''hourly''\<rparr>,
          \<lparr>pl_ulxc = rl_daily r, pl_since = day_start loc now, pl_name = ''daily''\<rparr>,
          \<lparr>pl_ulxc = limit_of (rl_weekly r),
            pl_since = tz_date loc (ci_year now) (ci_month now) monday, pl_name = ''weekly''\<rparr>,
          \<lparr>pl_ulxc = rl_monthly r,
            pl_since = tz_date loc (ci_year now) (ci_month now) 1, pl_name = ''monthly''\<rparr>])"

text \<open>\<open>agentSpendPostings\<close>: what the spending rules count as an agent's spend.\<close>

definition spend_posting :: "posting \<Rightarrow> bool" where
  "spend_posting p \<longleftrightarrow> spend_leg_kind (po_kind p) \<or> (po_kind p = PkPay \<and> po_amount p < 0)"

definition agent_spent_since :: "db \<Rightarrow> string \<Rightarrow> string \<Rightarrow> int \<Rightarrow> int" where
  "agent_spent_since d w a since =
     - sum_where (\<lambda>p. po_ws p = w \<and> po_account p = AgentAcc a \<and> po_at p \<ge> since \<and> spend_posting p)
         po_amount (postings d)
     + sum_where (\<lambda>u. mu_buyer u = w \<and> mu_agent u = a \<and> mu_billed u \<and> mu_at u \<ge> since)
         mu_price (market_uses d)
     + sum_where (\<lambda>m. mp_ws m = w \<and> mp_agent m = a \<and> mp_at m \<ge> since \<and> \<not> mp_failed m)
         mp_value (money_payments d)
     + sum_where (\<lambda>p. pp_ws p = w \<and> pp_agent p = a \<and> has_prefix (pp_ref p) ''invoice_agent:'' \<and>
         pp_at p \<ge> since) pp_amount (payee_payments d)"

definition model_daily_limit :: "agent_rules \<Rightarrow> string \<Rightarrow> tz \<Rightarrow> int \<Rightarrow> int \<times> int" where
  "model_daily_limit r model loc t =
     (limit_of (map_of (entries (rl_model_daily r)) (model_cap_key model)), day_start loc (tz_civil loc t))"

definition model_spend_kind :: "posting_kind \<Rightarrow> bool" where
  "model_spend_kind k \<longleftrightarrow> k \<in> {PkSpend, PkHold, PkSettle, PkRelease, PkFee}"

definition agent_model_spent_since :: "db \<Rightarrow> string \<Rightarrow> string \<Rightarrow> string \<Rightarrow> int \<Rightarrow> int" where
  "agent_model_spent_since d w a model since =
     - sum_where (\<lambda>p. po_ws p = w \<and> po_account p = AgentAcc a \<and>
         po_model p = Some (model_cap_key model) \<and> po_at p \<ge> since \<and> model_spend_kind (po_kind p))
         po_amount (postings d)"

text \<open>One question per reference, by the time of its first posting.\<close>

definition agent_requests_since :: "db \<Rightarrow> string \<Rightarrow> string \<Rightarrow> int \<Rightarrow> int" where
  "agent_requests_since d w a since =
     (let recent = filter (\<lambda>p. po_ws p = w \<and> po_account p = AgentAcc a \<and>
            (po_kind p = PkHold \<or> po_kind p = PkSpend) \<and> po_at p > since - ns_hour) (postings d);
          refs = remdups (map po_ref recent)
      in int (length (filter (\<lambda>ref. list_all (\<lambda>p. po_ref p = ref \<longrightarrow> po_at p > since) recent) refs)))"

definition payee_ids :: "db \<Rightarrow> payee \<Rightarrow> string list" where
  "payee_ids d p =
     (if py_id p = '''' then [py_id p]
      else if py_kind p = ''agent'' then
        [py_id p, (case find_agent d (py_id p) of Some r \<Rightarrow> ag_ws r | None \<Rightarrow> '''')]
      else if py_kind p = ''listing'' then
        [py_id p, (case listings d (py_id p) of Some r \<Rightarrow> li_ws r | None \<Rightarrow> '''')]
      else [py_id p])"

definition agent_paid_payee_since :: "db \<Rightarrow> string \<Rightarrow> string \<Rightarrow> int \<Rightarrow> int" where
  "agent_paid_payee_since d a i since =
     sum_where (\<lambda>p. pp_agent p = a \<and> i \<in> set (pp_ids p) \<and> pp_at p \<ge> since) pp_amount (payee_payments d)"

definition record_payee_payment ::
    "ctx \<Rightarrow> db \<Rightarrow> string \<Rightarrow> string \<Rightarrow> agent_request \<Rightarrow> string list option \<Rightarrow> int \<Rightarrow> string \<Rightarrow> db" where
  "record_payee_payment cx d w a req ids amount ref =
     (if \<not> rq_payment req \<or> py_id (rq_payee req) = '''' \<or> amount \<le> 0 then d
      else
        let ids = (case ids of None \<Rightarrow> payee_ids d (rq_payee req) | Some xs \<Rightarrow> xs)
        in d\<lparr>payee_payments := payee_payments d @
             [\<lparr>pp_ws = w, pp_agent = a, pp_kind = py_kind (rq_payee req),
               pp_ids = filter (\<lambda>i. i \<noteq> '''') ids, pp_amount = amount, pp_ref = ref,
               pp_at = cx_now cx\<rparr>]\<rparr>)"

subsection \<open>Unusual spend (agent_alerts.go)\<close>

definition usual_spend_hours :: int where "usual_spend_hours = 168"
definition unusual_spend_multiple :: int where "unusual_spend_multiple = 5"

fun trim_zeros :: "string \<Rightarrow> string" where
  "trim_zeros s = rev (dropWhile (\<lambda>c. c = CHR ''0'') (rev s))"

text \<open>\<open>lxcString\<close> of an amount that is not negative: whole LXC, then at most six decimals.\<close>

definition lxc_string :: "int \<Rightarrow> string" where
  "lxc_string ulxc =
     (let n = nat ulxc; frac = trim_zeros (tl (show_nat (1000000 + n mod 1000000)))
      in show_nat (n div 1000000) @ (if frac = '''' then '''' else ''.'' @ frac))"

definition watch_agent_spend ::
    "ctx \<Rightarrow> db \<Rightarrow> string \<Rightarrow> string \<Rightarrow> int \<Rightarrow> int \<Rightarrow> bool \<Rightarrow> db" where
  "watch_agent_spend cx d w a amount now pause_on =
     (let hour_ago = now - ns_hour;
          from = hour_ago - usual_spend_hours * ns_hour;
          spent = (\<lambda>p. - sum_where (\<lambda>g. po_ws g = w \<and> po_account g = AgentAcc a \<and> po_at g \<ge> from \<and>
            spend_posting g \<and> p (po_at g)) po_amount (postings d));
          last_hour = spent (\<lambda>t. t \<ge> hour_ago) + amount;
          usual_week = spent (\<lambda>t. t < hour_ago)
      in if usual_week \<le> 0 \<or> last_hour * usual_spend_hours < unusual_spend_multiple * usual_week then d
         else if list_ex (\<lambda>l. al_agent l = a \<and> al_at l \<ge> hour_ago) (alerts d) then d
         else
           let usual = usual_week div usual_spend_hours;
               d = d\<lparr>alerts := alerts d @ [\<lparr>al_ws = w, al_agent = a, al_last_hour = last_hour,
                 al_usual = usual, al_paused = pause_on, al_at = cx_now cx\<rparr>]\<rparr>
           in if pause_on then
                let reason = ''unusual spend: '' @ lxc_string last_hour @
                      '' LXC in an hour, against a usual '' @ lxc_string usual @ '' LXC an hour'';
                    d = update_agent_where (\<lambda>r. ag_id r = a \<and> ag_paused_at r = None)
                      (\<lambda>r. r\<lparr>ag_paused_at := Some (cx_now cx), ag_paused_reason := reason\<rparr>) d
                in revoke_agent_kya cx d a ''frozen''
              else d)"

text \<open>\<open>runOn\<close>: what is spent, run on to the end of the month.\<close>

definition run_on :: "int \<Rightarrow> int \<Rightarrow> int \<Rightarrow> int" where
  "run_on spent elapsed len =
     (if elapsed \<le> 0 \<or> spent \<le> 0 then max spent 0 else spent * len div elapsed)"

subsection \<open>Judging a movement\<close>

definition may_subscribe :: "agent_rules \<Rightarrow> bool" where
  "may_subscribe r = (rl_may_subscribe r = Some True)"

definition judge_commitment :: "agent_rules \<Rightarrow> commitment \<Rightarrow> refusal + unit" where
  "judge_commitment r c =
     (if cm_kind c = '''' then Inr ()
      else if cm_licence c \<notin> set agent_licences then Inl (PersonalLicence (cm_kind c) (cm_licence c))
      else if entries (rl_licences r) \<noteq> [] \<and> cm_licence c \<notin> set (entries (rl_licences r))
      then Inl (LicenceNotAllowed (cm_kind c) (cm_licence c))
      else if cm_kind c = ''subscribe'' \<and> \<not> may_subscribe r then Inl MayNotSubscribe
      else if cm_renews c \<and> \<not> may_subscribe r then Inl (MayNotRenew (cm_kind c))
      else if limit_of (rl_max_commitment r) > 0 \<and> cm_ulxc c > limit_of (rl_max_commitment r)
      then Inl (CommitmentTooLarge (cm_kind c) (cm_ulxc c) (limit_of (rl_max_commitment r)))
      else Inr ())"

definition inside_hours :: "agent_rules \<Rightarrow> civil \<Rightarrow> bool" where
  "inside_hours r now =
     (let from = limit_of (clock_minutes (rl_active_from r));
          until = limit_of (clock_minutes (rl_active_until r));
          m = ci_hour now * 60 + ci_minute now
      in if from > until then m \<ge> from \<or> m < until else from \<le> m \<and> m < until)"

definition judge_request :: "agent_rules \<Rightarrow> agent_request \<Rightarrow> civil \<Rightarrow> refusal + unit" where
  "judge_request r req now =
     rbind (guard (rl_active_from r = '''' \<or> inside_hours r now)
       (OutsideActiveHours (rl_active_from r) (rl_active_until r) (rl_timezone r))) (\<lambda>_.
     rbind (guard (rl_models r = [] \<or> rq_payment req \<or> rq_model req \<in> set (rl_models r))
       (ModelNotAllowed (rq_model req))) (\<lambda>_.
     rbind (guard (rl_providers r = [] \<or> rq_payment req \<or> rq_provider req \<in> set (rl_providers r))
       (ProviderNotAllowed (rq_provider req))) (\<lambda>_.
     rbind (guard (entries (rl_listings r) = [] \<or> rq_listing req = '''' \<or>
         rq_listing req \<in> set (entries (rl_listings r)))
       (ListingNotAllowed (rq_listing req))) (\<lambda>_.
       judge_commitment r (rq_commitment req)))))"

definition judge_payee :: "agent_rules \<Rightarrow> agent_request \<Rightarrow> string list \<Rightarrow> refusal + unit" where
  "judge_payee r req ids =
     (let allowed = entries (rl_allowed_payees r); blocked = entries (rl_blocked_payees r)
      in if \<not> rq_payment req \<or> (allowed = [] \<and> blocked = []) then Inr ()
         else if list_ex (\<lambda>i. i \<in> set blocked) ids
         then Inl (PayeeBlocked (py_kind (rq_payee req)) (py_id (rq_payee req)))
         else if allowed \<noteq> [] \<and> \<not> list_ex (\<lambda>i. i \<in> set allowed) ids
         then Inl (PayeeNotAllowed (py_kind (rq_payee req)) (py_id (rq_payee req)))
         else Inr ())"

fun judge_periods :: "db \<Rightarrow> string \<Rightarrow> string \<Rightarrow> int \<Rightarrow> period_limit list \<Rightarrow> refusal + unit" where
  "judge_periods d w a amount [] = Inr ()"
| "judge_periods d w a amount (l # ls) =
     (if pl_ulxc l = 0 then judge_periods d w a amount ls
      else
        let spent = agent_spent_since d w a (pl_since l)
        in if spent + amount > pl_ulxc l then Inl (OverPeriod (pl_name l) spent (pl_ulxc l) amount)
           else judge_periods d w a amount ls)"

fun judge_payee_caps :: "db \<Rightarrow> agent_rules \<Rightarrow> string \<Rightarrow> int \<Rightarrow> int \<Rightarrow> string list \<Rightarrow> refusal + unit" where
  "judge_payee_caps d r a amount since [] = Inr ()"
| "judge_payee_caps d r a amount since (i # ids) =
     (let limit = limit_of (map_of (entries (rl_payee_daily r)) i)
      in if limit \<le> 0 then judge_payee_caps d r a amount since ids
         else
           let paid = agent_paid_payee_since d a i since
           in if paid + amount > limit then Inl (OverPayee i paid limit amount)
              else judge_payee_caps d r a amount since ids)"

definition use_approval :: "db \<Rightarrow> string \<Rightarrow> string \<Rightarrow> string \<Rightarrow> db option" where
  "use_approval d a fingerprint ref =
     (let open_one = (\<lambda>p. ap_agent p = a \<and> ap_fingerprint p = fingerprint \<and> ap_status p = Approved)
      in if list_ex open_one (approvals d)
         then Some (d\<lparr>approvals := map (\<lambda>p. if open_one p
           then p\<lparr>ap_status := Used, ap_used_ref := Some ref\<rparr> else p) (approvals d)\<rparr>)
         else None)"

definition judge_approval ::
    "db \<Rightarrow> agent_rules \<Rightarrow> string \<Rightarrow> string \<Rightarrow> agent_request \<Rightarrow> int \<Rightarrow> string \<Rightarrow> err + db" where
  "judge_approval d r w a req amount ref =
     (if \<not> (rl_approval_above r > 0 \<and> amount > rl_approval_above r) then Inr d
      else if rq_fingerprint req = '''' then Inl (ErrAgentRule NothingToApproveBy)
      else case use_approval d a (rq_fingerprint req) ref of
        Some d' \<Rightarrow> Inr d'
      | None \<Rightarrow> Inl (ErrApprovalNeeded \<lparr>an_amount = amount, an_ws = w, an_agent = a, an_request = req\<rparr>))"

definition as_rule :: "refusal + 'a \<Rightarrow> err + 'a" where
  "as_rule r = (case r of Inl e \<Rightarrow> Inl (ErrAgentRule e) | Inr x \<Rightarrow> Inr x)"

definition named_payee_ids :: "db \<Rightarrow> agent_rules \<Rightarrow> agent_request \<Rightarrow> string list option" where
  "named_payee_ids d r req =
     (if rq_payment req \<and> (entries (rl_allowed_payees r) \<noteq> [] \<or> entries (rl_blocked_payees r) \<noteq> [] \<or>
          entries (rl_payee_daily r) \<noteq> [])
      then Some (payee_ids d (rq_payee req)) else None)"

text \<open>The limits on the amount, in the order \<open>enforceAgentRules\<close> judges them.\<close>

definition judge_amount ::
    "db \<Rightarrow> agent_rules \<Rightarrow> tz \<Rightarrow> string \<Rightarrow> string \<Rightarrow> agent_request \<Rightarrow> int \<Rightarrow> string list \<Rightarrow> int \<Rightarrow> err + unit" where
  "judge_amount d r loc w a req at ids amount =
     rbind (let rpm = limit_of (rl_rpm r); asked = agent_requests_since d w a (at - ns_minute)
       in guard (\<not> (rpm > 0 \<and> \<not> rq_payment req \<and> asked \<ge> rpm)) (ErrAgentRequestRate rpm asked)) (\<lambda>_.
     rbind (guard (\<not> (rl_max_per_request r > 0 \<and> amount > rl_max_per_request r))
       (ErrAgentRule (OverPerRequest amount (rl_max_per_request r)))) (\<lambda>_.
     rbind (as_rule (judge_periods d w a amount (period_limits r loc at))) (\<lambda>_.
     rbind (case model_daily_limit r (rq_model req) loc at of (limit, since) \<Rightarrow>
         let spent = agent_model_spent_since d w a (rq_model req) since
         in guard (\<not> (limit > 0 \<and> \<not> rq_payment req \<and> spent + amount > limit))
              (ErrAgentRule (OverModel (rq_model req) spent limit amount))) (\<lambda>_.
       as_rule (judge_payee_caps d r a amount (day_start loc (tz_civil loc at)) ids)))))"

definition enforce_agent_rules ::
    "store \<Rightarrow> ctx \<Rightarrow> db \<Rightarrow> string \<Rightarrow> string \<Rightarrow> int \<Rightarrow> string \<Rightarrow> err + db" where
  "enforce_agent_rules s cx d w a amount ref =
     rbind (refuse_if_paused d a) (\<lambda>_.
       let req = agent_request_from cx; at = req_time cx req
       in case agent_rules_in_force d a at of
         None \<Rightarrow>
           rbind (as_rule (judge_commitment no_rules (rq_commitment req))) (\<lambda>_.
             let d = record_payee_payment cx d w a req None amount ref
             in Inr (watch_agent_spend cx d w a amount at False))
       | Some r \<Rightarrow>
           (case rules_location (st_zone s) r of
              None \<Rightarrow> Inl (ErrAgentRule (TimezoneUnreadable (rl_timezone r)))
            | Some loc \<Rightarrow>
                rbind (as_rule (judge_request r req (tz_civil loc at))) (\<lambda>_.
                  let ids = named_payee_ids d r req
                  in rbind (as_rule (judge_payee r req (entries ids))) (\<lambda>_.
                     rbind (judge_amount d r loc w a req at (entries ids) amount) (\<lambda>_.
                     rbind (judge_approval d r w a req amount ref) (\<lambda>d.
                       let d = record_payee_payment cx d w a req ids amount ref
                       in Inr (watch_agent_spend cx d w a amount at (rl_pause_on_unusual r))))))))"

definition check_agent_rules :: "store \<Rightarrow> ctx \<Rightarrow> db \<Rightarrow> string \<Rightarrow> err + db" where
  "check_agent_rules s cx d key =
     (case agent_of_key d key of
        None \<Rightarrow> Inr d
      | Some (a, w) \<Rightarrow> enforce_agent_rules s cx d w a 0 ''byok'')"

subsection \<open>Approvals\<close>

definition name_payee :: "db \<Rightarrow> payee \<Rightarrow> payee" where
  "name_payee d p =
     (if py_name p \<noteq> '''' \<or> py_id p = '''' then p
      else
        let found = (if py_kind p = ''agent'' then map_option ag_name (find_agent d (py_id p))
              else if py_kind p = ''listing'' then map_option li_title (listings d (py_id p))
              else if py_kind p = ''company'' then map_option wk_name (workspaces d (py_id p))
              else None)
        in case found of None \<Rightarrow> p | Some n \<Rightarrow> p\<lparr>py_name := n\<rparr>)"

definition open_approval :: "string \<Rightarrow> string \<Rightarrow> approval \<Rightarrow> bool" where
  "open_approval a fingerprint p \<longleftrightarrow> ap_agent p = a \<and> ap_fingerprint p = fingerprint \<and>
     (ap_status p = Pending \<or> ap_status p = Approved)"

definition file_approval :: "ctx \<Rightarrow> db \<Rightarrow> approval_needed \<Rightarrow> string \<Rightarrow> db \<times> err" where
  "file_approval cx d need new_id =
     (let req = an_request need; a = an_agent need
      in case find (open_approval a (rq_fingerprint req)) (approvals d) of
        Some p \<Rightarrow> (d, ErrApprovalRequired (ap_id p))
      | None \<Rightarrow>
          (d\<lparr>approvals := approvals d @ [\<lparr>ap_id = new_id, ap_ws = an_ws need, ap_agent = a,
             ap_fingerprint = rq_fingerprint req, ap_amount = an_amount need, ap_model = rq_model req,
             ap_payee = name_payee d (rq_payee req), ap_memo = rq_memo req, ap_status = Pending,
             ap_decided_at = None, ap_used_ref = None, ap_reason = '''', ap_at = cx_now cx\<rparr>]\<rparr>,
           ErrApprovalRequired new_id))"

text \<open>\<open>refusedMovement\<close>: a movement that needs approval files it once its transaction is undone.\<close>

definition refused_movement :: "ctx \<Rightarrow> db \<Rightarrow> string \<Rightarrow> err + db \<Rightarrow> db \<times> (err + unit)" where
  "refused_movement cx d new_id r =
     (case r of
        Inr d' \<Rightarrow> (d', Inr ())
      | Inl (ErrApprovalNeeded need) \<Rightarrow> (case file_approval cx d need new_id of (d, e) \<Rightarrow> (d, Inl e))
      | Inl e \<Rightarrow> (d, Inl e))"

definition decide_agent_approval :: "ctx \<Rightarrow> db \<Rightarrow> string \<Rightarrow> string \<Rightarrow> bool \<Rightarrow> err + db" where
  "decide_agent_approval cx d w p approve =
     (let hit = (\<lambda>q. ap_id q = p \<and> ap_ws q = w \<and> ap_status q = Pending)
      in if \<not> list_ex hit (approvals d) then Inl ErrApprovalNotFound
         else Inr (d\<lparr>approvals := map (\<lambda>q. if hit q
           then q\<lparr>ap_status := (if approve then Approved else Denied),
                  ap_decided_at := Some (cx_now cx)\<rparr> else q) (approvals d)\<rparr>))"

definition list_agent_approvals :: "db \<Rightarrow> string \<Rightarrow> approval list" where
  "list_agent_approvals d w =
     take 200 (sort_key (\<lambda>p. - ap_at p) (filter (\<lambda>p. ap_ws p = w) (approvals d)))"

subsection \<open>What judging leaves alone\<close>

text \<open>
  A movement that the rules let through has recorded a payment, used an approval or raised
  an alert, and moved no money; \<open>rules_quiet\<close> names everything that is as it was.
\<close>

definition agent_places :: "db \<Rightarrow> (string \<times> string) list" where
  "agent_places d = map (\<lambda>r. (ag_id r, ag_ws r)) (agents d)"

definition rules_quiet :: "db \<Rightarrow> db \<Rightarrow> bool" where
  "rules_quiet d d' \<longleftrightarrow> same_money d d' \<and> subbudgets d' = subbudgets d \<and> claims d' = claims d \<and>
     settlements d' = settlements d \<and> workspaces d' = workspaces d \<and>
     agent_keys d' = agent_keys d \<and> agent_places d' = agent_places d \<and> rules d' = rules d \<and>
     boosts d' = boosts d \<and> market_uses d' = market_uses d \<and> money_payments d' = money_payments d \<and>
     contracts d' = contracts d \<and> subscriptions d' = subscriptions d"

lemma rules_quiet_refl [simp]: "rules_quiet d d"
  by (simp add: rules_quiet_def)

lemma rules_quiet_trans: "rules_quiet d e \<Longrightarrow> rules_quiet e f \<Longrightarrow> rules_quiet d f"
  by (auto simp: rules_quiet_def intro: same_money_trans)

lemma quiet_payee [simp]: "rules_quiet d (record_payee_payment cx d w a req ids amount ref)"
  by (simp add: record_payee_payment_def rules_quiet_def same_money_def agent_places_def Let_def)

lemma quiet_approval: "use_approval d a f ref = Some d' \<Longrightarrow> rules_quiet d d'"
  by (auto simp: use_approval_def rules_quiet_def same_money_def agent_places_def Let_def split: if_splits)

lemma quiet_update_agent [simp]:
  assumes "\<And>r. ag_id (f r) = ag_id r" and "\<And>r. ag_ws (f r) = ag_ws r"
  shows "rules_quiet d (update_agent_where p f d)"
  using assms by (simp add: rules_quiet_def same_money_def agent_places_def update_agent_where_def)

lemma quiet_revoke [simp]: "rules_quiet d (revoke_agent_kya cx d a reason)"
  by (simp add: rules_quiet_def same_money_def agent_places_def revoke_agent_kya_def revoke_kya_def)

lemma quiet_alert [simp]: "rules_quiet d (d\<lparr>alerts := xs\<rparr>)"
  by (simp add: rules_quiet_def same_money_def agent_places_def)

lemma quiet_watch [simp]: "rules_quiet d (watch_agent_spend cx d w a amount now on)"
proof -
  have "rules_quiet d (revoke_agent_kya cx
      (update_agent_where (\<lambda>r. ag_id r = a \<and> ag_paused_at r = None)
        (\<lambda>r. r\<lparr>ag_paused_at := t, ag_paused_reason := why\<rparr>) (d\<lparr>alerts := xs\<rparr>)) a reason)"
    for t why xs reason
    by (rule rules_quiet_trans [OF rules_quiet_trans [OF quiet_alert quiet_update_agent] quiet_revoke])
      simp_all
  then show ?thesis unfolding watch_agent_spend_def Let_def by simp
qed

lemma judge_approval_quiet: "judge_approval d r w a req amount ref = Inr d' \<Longrightarrow> rules_quiet d d'"
  by (auto simp: judge_approval_def intro: quiet_approval split: if_splits option.splits)

lemma enforce_quiet:
  assumes "enforce_agent_rules s cx d w a amount ref = Inr d'"
  shows "rules_quiet d d'"
proof (cases "agent_rules_in_force d a (req_time cx (agent_request_from cx))")
  case None
  then show ?thesis
    using assms rules_quiet_trans [OF quiet_payee quiet_watch]
    by (auto simp: enforce_agent_rules_def Let_def)
next
  case (Some r)
  then obtain e ids where e: "judge_approval d r w a (agent_request_from cx) amount ref = Inr e"
    and d': "d' = watch_agent_spend cx (record_payee_payment cx e w a (agent_request_from cx) ids amount ref)
      w a amount (req_time cx (agent_request_from cx)) (rl_pause_on_unusual r)"
    using assms by (auto simp: enforce_agent_rules_def Let_def split: option.splits)
  show ?thesis unfolding d'
    by (rule rules_quiet_trans [OF judge_approval_quiet [OF e]
        rules_quiet_trans [OF quiet_payee quiet_watch]])
qed

lemma map_of_places: "map_of (agent_places d) a = map_option ag_ws (find_agent d a)"
proof -
  have "map_of (map (\<lambda>r. (ag_id r, ag_ws r)) rs) a = map_option ag_ws (find (\<lambda>r. ag_id r = a) rs)" for rs
    by (induction rs) auto
  then show ?thesis by (simp add: agent_places_def find_agent_def)
qed

lemma find_agent_id: "find_agent d a = Some r \<Longrightarrow> ag_id r = a"
  by (auto simp: find_agent_def find_Some_iff)

lemma agent_of_key_places:
  "agent_of_key d key = (case map_of (agent_keys d) key of None \<Rightarrow> None
     | Some a \<Rightarrow> map_option (\<lambda>w. (a, w)) (map_of (agent_places d) a))"
  by (auto simp: agent_of_key_def map_of_places find_agent_id split: option.splits)

lemma lock_agent_places:
  "lock_agent d w a = (if map_of (agent_places d) a = Some w then Inr () else Inl ErrAgentNotFound)"
  by (auto simp: lock_agent_def map_of_places split: option.splits)

lemma quiet_agents:
  assumes "rules_quiet d d'"
  shows "agent_of_key d' key = agent_of_key d key" and "lock_agent d' w a = lock_agent d w a"
  using assms by (simp_all add: agent_of_key_places lock_agent_places rules_quiet_def
      cong: option.case_cong)

end
