(* ===== verification/Agent_Limits.thy ===== *)
theory Agent_Limits
  imports Agent_Rules
begin

section \<open>What the spending rules promise\<close>

text \<open>
  \<open>rules_permit\<close> states, in one formula, when the rules in force let a movement through;
  \<open>enforce_agent_rules\<close> is shown to succeed exactly then. The rest is what the operations on
  rules promise each other: what a saved row reads back as, which limits a boost raises and
  for how long, when a period began, and that an approval lets one movement through.
\<close>

subsection \<open>A movement is let through exactly when no rule refuses it\<close>

lemma judge_periods_iff:
  "judge_periods d w a amount ls = Inr u \<longleftrightarrow>
     (\<forall>l\<in>set ls. pl_ulxc l = 0 \<or> agent_spent_since d w a (pl_since l) + amount \<le> pl_ulxc l)"
  by (induction ls) (auto simp: Let_def)

lemma judge_payee_caps_iff:
  "judge_payee_caps d r a amount since ids = Inr u \<longleftrightarrow>
     (\<forall>i\<in>set ids. let limit = limit_of (map_of (entries (rl_payee_daily r)) i)
       in limit \<le> 0 \<or> agent_paid_payee_since d a i since + amount \<le> limit)"
  by (induction ids) (auto simp: Let_def)

lemma as_rule_Inr [simp]: "as_rule r = Inr x \<longleftrightarrow> r = Inr x"
  by (cases r) (auto simp: as_rule_def)

text \<open>The limits on the amount of one movement.\<close>

definition amount_permitted ::
    "db \<Rightarrow> agent_rules \<Rightarrow> tz \<Rightarrow> string \<Rightarrow> string \<Rightarrow> agent_request \<Rightarrow> int \<Rightarrow> string list \<Rightarrow> int \<Rightarrow> bool" where
  "amount_permitted d r loc w a req at ids amount \<longleftrightarrow>
     (rl_max_per_request r > 0 \<longrightarrow> amount \<le> rl_max_per_request r) \<and>
     (\<forall>l\<in>set (period_limits r loc at).
        pl_ulxc l \<noteq> 0 \<longrightarrow> agent_spent_since d w a (pl_since l) + amount \<le> pl_ulxc l) \<and>
     (\<not> rq_payment req \<longrightarrow>
        (limit_of (rl_rpm r) > 0 \<longrightarrow>
           agent_requests_since d w a (at - ns_minute) < limit_of (rl_rpm r)) \<and>
        (let (limit, since) = model_daily_limit r (rq_model req) loc at
         in limit > 0 \<longrightarrow> agent_model_spent_since d w a (rq_model req) since + amount \<le> limit)) \<and>
     (\<forall>i\<in>set ids. let limit = limit_of (map_of (entries (rl_payee_daily r)) i)
       in limit > 0 \<longrightarrow>
          agent_paid_payee_since d a i (day_start loc (tz_civil loc at)) + amount \<le> limit)"

lemma judge_amount_iff:
  "judge_amount d r loc w a req at ids amount = Inr u \<longleftrightarrow>
     amount_permitted d r loc w a req at ids amount"
  by (auto simp: judge_amount_def amount_permitted_def rbind_Inr_iff judge_periods_iff
      judge_payee_caps_iff Let_def not_less not_le split: prod.splits)

definition approved_once :: "db \<Rightarrow> string \<Rightarrow> string \<Rightarrow> bool" where
  "approved_once d a fingerprint \<longleftrightarrow>
     (\<exists>p\<in>set (approvals d). ap_agent p = a \<and> ap_fingerprint p = fingerprint \<and> ap_status p = Approved)"

lemma use_approval_iff: "(\<exists>d'. use_approval d a f ref = Some d') \<longleftrightarrow> approved_once d a f"
  by (auto simp: use_approval_def approved_once_def Let_def list_ex_iff)

definition approval_permitted :: "db \<Rightarrow> agent_rules \<Rightarrow> string \<Rightarrow> agent_request \<Rightarrow> int \<Rightarrow> bool" where
  "approval_permitted d r a req amount \<longleftrightarrow>
     (rl_approval_above r > 0 \<and> amount > rl_approval_above r \<longrightarrow>
        rq_fingerprint req \<noteq> '''' \<and> approved_once d a (rq_fingerprint req))"

lemma judge_approval_iff:
  "(\<exists>d'. judge_approval d r w a req amount ref = Inr d') \<longleftrightarrow> approval_permitted d r a req amount"
  using use_approval_iff [of d a "rq_fingerprint req" ref]
  by (auto simp: judge_approval_def approval_permitted_def split: option.splits)

definition request_permitted :: "agent_rules \<Rightarrow> agent_request \<Rightarrow> civil \<Rightarrow> bool" where
  "request_permitted r req now \<longleftrightarrow>
     (rl_active_from r \<noteq> '''' \<longrightarrow> inside_hours r now) \<and>
     (\<not> rq_payment req \<longrightarrow>
        (rl_models r \<noteq> [] \<longrightarrow> rq_model req \<in> set (rl_models r)) \<and>
        (rl_providers r \<noteq> [] \<longrightarrow> rq_provider req \<in> set (rl_providers r))) \<and>
     (entries (rl_listings r) \<noteq> [] \<and> rq_listing req \<noteq> '''' \<longrightarrow>
        rq_listing req \<in> set (entries (rl_listings r))) \<and>
     judge_commitment r (rq_commitment req) = Inr ()"

lemma judge_request_iff: "judge_request r req now = Inr u \<longleftrightarrow> request_permitted r req now"
  by (auto simp: judge_request_def request_permitted_def rbind_Inr_iff)

definition payee_permitted :: "agent_rules \<Rightarrow> agent_request \<Rightarrow> string list \<Rightarrow> bool" where
  "payee_permitted r req ids \<longleftrightarrow>
     (rq_payment req \<longrightarrow>
        (\<forall>i\<in>set ids. i \<notin> set (entries (rl_blocked_payees r))) \<and>
        (entries (rl_allowed_payees r) \<noteq> [] \<longrightarrow>
           (\<exists>i\<in>set ids. i \<in> set (entries (rl_allowed_payees r)))))"

lemma judge_payee_iff: "judge_payee r req ids = Inr u \<longleftrightarrow> payee_permitted r req ids"
  by (auto simp: judge_payee_def payee_permitted_def Let_def list_ex_iff)

definition rules_permit :: "store \<Rightarrow> ctx \<Rightarrow> db \<Rightarrow> string \<Rightarrow> string \<Rightarrow> int \<Rightarrow> bool" where
  "rules_permit s cx d w a amount \<longleftrightarrow>
     refuse_if_paused d a = Inr () \<and>
     (let req = agent_request_from cx; at = req_time cx req
      in case agent_rules_in_force d a at of
           None \<Rightarrow> judge_commitment no_rules (rq_commitment req) = Inr ()
         | Some r \<Rightarrow>
             (case rules_location (st_zone s) r of
                None \<Rightarrow> False
              | Some loc \<Rightarrow>
                  let ids = entries (named_payee_ids d r req)
                  in request_permitted r req (tz_civil loc at) \<and> payee_permitted r req ids \<and>
                     amount_permitted d r loc w a req at ids amount \<and>
                     approval_permitted d r a req amount))"

lemma enforce_permits:
  "(\<exists>d'. enforce_agent_rules s cx d w a amount ref = Inr d') \<longleftrightarrow> rules_permit s cx d w a amount"
proof (cases "agent_rules_in_force d a (req_time cx (agent_request_from cx))")
  case None
  then show ?thesis by (auto simp: enforce_agent_rules_def rules_permit_def Let_def rbind_Inr_iff)
next
  case (Some r)
  show ?thesis
  proof (cases "rules_location (st_zone s) r")
    case None
    then show ?thesis using Some by (auto simp: enforce_agent_rules_def rules_permit_def Let_def)
  next
    case loc: (Some loc)
    show ?thesis
      using Some loc judge_approval_iff [of d r w a "agent_request_from cx" amount ref]
      by (auto simp: enforce_agent_rules_def rules_permit_def Let_def rbind_Inr_iff judge_request_iff
          judge_payee_iff judge_amount_iff)
  qed
qed

text \<open>A movement let through stays, with what the period has seen, within each of its limits.\<close>

lemma enforce_amount:
  assumes "enforce_agent_rules s cx d w a amount ref = Inr d'"
    and "agent_rules_in_force d a (req_time cx (agent_request_from cx)) = Some r"
  shows "\<exists>loc. rules_location (st_zone s) r = Some loc \<and>
    amount_permitted d r loc w a (agent_request_from cx) (req_time cx (agent_request_from cx))
      (entries (named_payee_ids d r (agent_request_from cx))) amount"
proof -
  have "rules_permit s cx d w a amount" using enforce_permits assms(1) by blast
  then show ?thesis using assms(2) by (auto simp: rules_permit_def Let_def split: option.splits)
qed

subsection \<open>Periods have begun\<close>

context calendar
begin

lemma period_limits_begun:
  assumes "l \<in> set (period_limits r zone t)"
  shows "pl_since l \<le> t"
  using assms clock [of t] first_day [of t]
  by (auto simp: period_limits_def day_start_def Let_def ns_defs intro!: period_begun)

end

subsection \<open>Boosts\<close>

lemma get_set_limit [simp]:
  "get_limit rule (set_limit rule v r) = Some v"
  "rule \<noteq> other \<Longrightarrow> get_limit rule (set_limit other v r) = get_limit rule r"
  by (cases rule; cases other; simp)+

lemma apply_boosts_never_lower:
  "get_limit rule r = Some v \<Longrightarrow> \<exists>v'. get_limit rule (apply_boosts bs r) = Some v' \<and> v \<le> v'"
proof (induction bs r arbitrary: v rule: apply_boosts.induct)
  case (2 b bs r)
  have "\<exists>u. get_limit rule (case get_limit (bo_rule b) r of
      Some v \<Rightarrow> if v = bo_raised_from b \<and> bo_value b > v then set_limit (bo_rule b) (bo_value b) r else r
    | None \<Rightarrow> r) = Some u \<and> v \<le> u"
    using 2(2) by (cases "bo_rule b = rule") (auto split: option.splits)
  then show ?case using 2(1) order_trans by (metis apply_boosts.simps(2))
qed simp

lemma apply_boosts_other:
  "\<forall>b\<in>set bs. bo_rule b \<noteq> rule \<Longrightarrow> get_limit rule (apply_boosts bs r) = get_limit rule r"
proof (induction bs r rule: apply_boosts.induct)
  case (2 b bs r)
  then show ?case by (auto split: option.splits)
qed simp

lemma apply_boosts_one:
  assumes "filter (\<lambda>c. bo_rule c = bo_rule b) bs = [b]"
    and "get_limit (bo_rule b) r = Some (bo_raised_from b)" and "bo_raised_from b < bo_value b"
  shows "get_limit (bo_rule b) (apply_boosts bs r) = Some (bo_value b)"
  using assms
proof (induction bs r rule: apply_boosts.induct)
  case (2 c bs r)
  show ?case
  proof (cases "bo_rule c = bo_rule b")
    case True
    then have "c = b" "\<forall>c\<in>set bs. bo_rule c \<noteq> bo_rule b" using 2(2) by (auto simp: filter_empty_conv)
    then show ?thesis using 2(3,4) by (simp add: apply_boosts_other)
  next
    case False
    then show ?thesis using 2 by (auto split: option.splits)
  qed
qed simp

lemma agent_boosts_iff: "b \<in> set (agent_boosts d a at) \<longleftrightarrow> b \<in> set (boosts d) \<and> bo_agent b = a \<and> bo_until b > at"
  by (auto simp: agent_boosts_def)

lemma revoke_rules_frame [simp]:
  "rules (revoke_agent_kya cx d a why) = rules d" "boosts (revoke_agent_kya cx d a why) = boosts d"
  "rules_versions (revoke_agent_kya cx d a why) = rules_versions d"
  "agents (revoke_agent_kya cx d a why) = agents d"
  by (simp_all add: revoke_agent_kya_def revoke_kya_def)

lemma limits_read: "get_limit rule (scan_agent_rules u) = Some v \<Longrightarrow> limit_of (get_limit rule (scan_agent_rules u)) = v"
  by (simp add: limit_of_def)

lemma scan_has_limit: "\<exists>v. get_limit rule (scan_agent_rules u) = Some v"
  by (cases rule) (simp_all add: scan_agent_rules_def)

lemma default_limits: "limit_of (get_limit rule default_rules) = 0"
  by (cases rule) (simp_all add: default_rules_def scan_agent_rules_def empty_rules_row_def limit_of_def)

lemma boost_InrD:
  assumes "boost_agent_rule s cx d w a rule value until = Inr (d', b)"
  shows "b = \<lparr>bo_agent = a, bo_ws = w, bo_rule = rule, bo_raised_from = bo_raised_from b,
        bo_value = value, bo_until = until, bo_by = cx_changed_by cx\<rparr>"
    and "bo_raised_from b < value" "cx_now cx < until" "0 < value"
    and "rules d' = rules d"
    and "boosts d' = filter (\<lambda>c. \<not> (bo_agent c = a \<and> bo_rule c = rule)) (boosts d) @ [b]"
    and "\<exists>u. rules d a = Some u \<and> get_limit rule (scan_agent_rules u) = Some (bo_raised_from b)"
proof -
  obtain r where r: "get_agent_rules d w a = Inr r" "limit_of (get_limit rule r) \<noteq> 0"
    and b: "b = \<lparr>bo_agent = a, bo_ws = w, bo_rule = rule, bo_raised_from = limit_of (get_limit rule r),
        bo_value = value, bo_until = until, bo_by = cx_changed_by cx\<rparr>"
    and d': "d' = revoke_agent_kya cx
        (d\<lparr>boosts := filter (\<lambda>c. \<not> (bo_agent c = a \<and> bo_rule c = rule)) (boosts d) @ [b]\<rparr>) a ''rules changed''"
    and v: "limit_of (get_limit rule r) < value" "cx_now cx < until" "0 < value"
    using assms by (auto simp: boost_agent_rule_def Let_def split: if_splits)
  obtain u where u: "rules d a = Some u" "r = scan_agent_rules u"
    using r by (auto simp: get_agent_rules_def default_limits split: if_splits option.splits)
  obtain x where x: "get_limit rule (scan_agent_rules u) = Some x" using scan_has_limit by blast
  have "bo_raised_from b = x" using b u x by (simp add: limit_of_def)
  then show "\<exists>u. rules d a = Some u \<and> get_limit rule (scan_agent_rules u) = Some (bo_raised_from b)"
    using u x by simp
  show "b = \<lparr>bo_agent = a, bo_ws = w, bo_rule = rule, bo_raised_from = bo_raised_from b,
        bo_value = value, bo_until = until, bo_by = cx_changed_by cx\<rparr>" using b by simp
  show "bo_raised_from b < value" "cx_now cx < until" "0 < value" using b v by simp_all
  show "rules d' = rules d"
    and "boosts d' = filter (\<lambda>c. \<not> (bo_agent c = a \<and> bo_rule c = rule)) (boosts d) @ [b]"
    using d' by simp_all
qed

text \<open>A boost raises its limit until its time and no longer, and no other limit.\<close>

lemma boost_raises:
  assumes s: "boost_agent_rule s cx d w a rule value until = Inr (d', b)"
    and r: "agent_rules_in_force d' a at = Some r"
  shows "get_limit rule r = Some (if at < until then value else bo_raised_from b)"
    and "other \<noteq> rule \<Longrightarrow> (\<And>c. c \<in> set (boosts d) \<Longrightarrow> bo_agent c \<noteq> a) \<Longrightarrow>
      \<exists>u. rules d a = Some u \<and> get_limit other r = get_limit other (scan_agent_rules u)"
proof -
  note D = boost_InrD [OF s]
  obtain u where u: "rules d a = Some u" "get_limit rule (scan_agent_rules u) = Some (bo_raised_from b)"
    using D(7) by blast
  have b: "bo_agent b = a" "bo_rule b = rule" "bo_value b = value" "bo_until b = until"
    by (subst D(1), simp)+
  have r': "r = apply_boosts (agent_boosts d' a at) (scan_agent_rules u)"
    using r u D(5) by (simp add: agent_rules_in_force_def)
  show "get_limit rule r = Some (if at < until then value else bo_raised_from b)"
  proof (cases "at < until")
    case True
    let ?old = "filter (\<lambda>c. \<not> (bo_agent c = a \<and> bo_rule c = rule)) (boosts d)"
    have "filter (\<lambda>c. bo_rule c = bo_rule b) (agent_boosts d' a at) = [b]"
      using True b by (auto simp: agent_boosts_def filter_sort D(6) filter_empty_conv)
    then show ?thesis
      using apply_boosts_one [of b "agent_boosts d' a at" "scan_agent_rules u"] u b D(2) r' True by simp
  next
    case False
    have "\<forall>c\<in>set (agent_boosts d' a at). bo_rule c \<noteq> rule"
      using False b D(6) by (auto simp: agent_boosts_iff)
    then show ?thesis using r' u False by (simp add: apply_boosts_other)
  qed
  show "\<exists>u. rules d a = Some u \<and> get_limit other r = get_limit other (scan_agent_rules u)"
    if "other \<noteq> rule" and none: "\<And>c. c \<in> set (boosts d) \<Longrightarrow> bo_agent c \<noteq> a"
  proof -
    have "\<forall>c\<in>set (agent_boosts d' a at). bo_rule c \<noteq> other"
      using none b D(6) that(1) by (auto simp: agent_boosts_iff)
    then show ?thesis using r' u by (simp add: apply_boosts_other)
  qed
qed

subsection \<open>Saving, reading and rolling back\<close>

text \<open>The limit a rule is left with: the one given, or the stored one where none is given.\<close>

definition kept_limit :: "limit_rule \<Rightarrow> agent_rules \<Rightarrow> rules_row option \<Rightarrow> int" where
  "kept_limit rule r old =
     (case get_limit rule r of Some v \<Rightarrow> v
      | None \<Rightarrow> (case old of None \<Rightarrow> 0 | Some u \<Rightarrow> limit_of (get_limit rule (scan_agent_rules u))))"

lemma record_version_frame [simp]:
  "rules (record_rules_version cx d a change) = rules d"
  "boosts (record_rules_version cx d a change) = boosts d"
  "agents (record_rules_version cx d a change) = agents d"
  by (simp_all add: record_rules_version_def Let_def split: option.splits)

lemma set_rules_InrD:
  assumes "set_agent_rules s cx d w a r = Inr d'"
  shows "validate_rules (st_zone s) r = Inr ()" and "list_ex (is_agent_of w a) (agents d)"
    and "check_room_budget s d w a (rl_monthly r) = Inr ()"
    and "d' = record_rules_version cx (d\<lparr>rules := (rules d)(a \<mapsto> saved_row r
      (case rules d a of Some u \<Rightarrow> u | None \<Rightarrow> empty_rules_row w))\<rparr>) a (change_of cx)"
  using assms by (auto simp: set_agent_rules_def Let_def split: sum.splits if_splits)

lemma limit_of_simps [simp]: "limit_of None = 0" "limit_of (Some v) = v"
  by (simp_all add: limit_of_def)

lemma limit_round [simp]: "limit_of (null_if_zero v) = v"
  by (simp add: null_if_zero_def limit_of_def)

lemma keep_limit_round: "limit_of (keep_limit g st) = (case g of Some v \<Rightarrow> v | None \<Rightarrow> limit_of st)"
  by (simp add: keep_limit_def split: option.split)

lemma saved_limit:
  "get_limit rule (scan_agent_rules (saved_row r old)) = Some (kept_limit rule r (Some old))"
  by (cases rule) (simp_all add: scan_agent_rules_def saved_row_def kept_limit_def keep_limit_round
      split: option.split)

lemma empty_limit: "kept_limit rule r (Some (empty_rules_row w)) = kept_limit rule r None"
  by (cases rule) (simp_all add: kept_limit_def scan_agent_rules_def empty_rules_row_def limit_of_def
      split: option.split)

lemma set_rules_read:
  assumes "set_agent_rules s cx d w a r = Inr d'"
  shows "\<exists>r'. get_agent_rules d' w a = Inr r' \<and>
    (\<forall>rule. get_limit rule r' = Some (kept_limit rule r (rules d a)))"
proof -
  let ?old = "case rules d a of Some u \<Rightarrow> u | None \<Rightarrow> empty_rules_row w"
  have "get_agent_rules d' w a = Inr (scan_agent_rules (saved_row r ?old))"
    using set_rules_InrD [OF assms] by (simp add: get_agent_rules_def)
  moreover have "kept_limit rule r (Some ?old) = kept_limit rule r (rules d a)" for rule
    by (simp add: empty_limit split: option.split)
  ultimately show ?thesis by (simp add: saved_limit)
qed

subsection \<open>The history of an agent's rules\<close>

definition versions_of :: "db \<Rightarrow> string \<Rightarrow> rules_version list" where
  "versions_of d a = filter (\<lambda>v. rn_agent v = a) (rules_versions d)"

definition history_ok :: "db \<Rightarrow> bool" where
  "history_ok d \<longleftrightarrow> (\<forall>a. map rn_version (versions_of d a) = map int [1..<Suc (length (versions_of d a))])"

text \<open>The row in force is the newest version's.\<close>

definition recorded :: "db \<Rightarrow> string \<Rightarrow> bool" where
  "recorded d a \<longleftrightarrow>
     (rules d a \<noteq> None \<longrightarrow> versions_of d a \<noteq> [] \<and> rules d a = Some (rn_rules (last (versions_of d a))))"

lemma latest_fold:
  "fold (\<lambda>v best. if rn_agent v \<noteq> a then best
        else case best of None \<Rightarrow> Some v
             | Some b \<Rightarrow> if rn_version b < rn_version v then Some v else Some b) vs best =
   fold (\<lambda>v best. case best of None \<Rightarrow> Some v
             | Some b \<Rightarrow> if rn_version b < rn_version v then Some v else Some b)
     (filter (\<lambda>v. rn_agent v = a) vs) best"
  by (induction vs arbitrary: best) auto

lemma newest_is_last:
  "sorted_wrt (\<lambda>x y. rn_version x < rn_version y) vs \<Longrightarrow>
   fold (\<lambda>v best. case best of None \<Rightarrow> Some v
             | Some b \<Rightarrow> if rn_version b < rn_version v then Some v else Some b) vs None =
     (if vs = [] then None else Some (last vs))"
  by (induction vs rule: rev_induct) (auto simp: sorted_wrt_append)

lemma history_sorted:
  assumes "history_ok d"
  shows "sorted_wrt (\<lambda>x y. rn_version x < rn_version y) (versions_of d a)"
proof -
  have "sorted_wrt (<) (map rn_version (versions_of d a))"
    using assms by (simp add: history_ok_def sorted_wrt_map del: upt_Suc)
  then show ?thesis by (simp add: sorted_wrt_map)
qed

lemma latest_version_eq:
  "history_ok d \<Longrightarrow> latest_version d a = (if versions_of d a = [] then None else Some (last (versions_of d a)))"
  unfolding latest_version_def latest_fold
  using newest_is_last [OF history_sorted] by (simp add: versions_of_def)

lemma last_version:
  assumes "history_ok d" and "versions_of d a \<noteq> []"
  shows "rn_version (last (versions_of d a)) = int (length (versions_of d a))"
proof -
  have "last (map rn_version (versions_of d a)) = last (map int [1..<Suc (length (versions_of d a))])"
    using assms(1) by (simp add: history_ok_def)
  moreover have "Suc 0 \<le> length (versions_of d a)" using assms(2) by (cases "versions_of d a") auto
  ultimately show ?thesis using assms(2) by (simp add: last_map)
qed

lemma history_cong:
  "rules_versions d' = rules_versions d \<Longrightarrow> history_ok d' = history_ok d"
  by (simp add: history_ok_def versions_of_def)

lemma record_version_versions:
  assumes h: "history_ok d"
  shows "versions_of (record_rules_version cx d a change) b =
    versions_of d b @ (if b = a \<and> rules d a \<noteq> None \<and> \<not> recorded d a
      then [\<lparr>rn_agent = a, rn_version = int (length (versions_of d a)) + 1, rn_rules = the (rules d a),
        rn_by = cx_changed_by cx, rn_change = change\<rparr>] else [])"
  using latest_version_eq [OF h, of a] last_version [OF h, of a]
  by (auto simp: record_rules_version_def versions_of_def recorded_def split: option.splits if_splits)

lemma record_version_keeps:
  assumes h: "history_ok d"
  shows "history_ok (record_rules_version cx d a change)" and "recorded (record_rules_version cx d a change) a"
    and "b \<noteq> a \<Longrightarrow> recorded (record_rules_version cx d a change) b = recorded d b"
proof -
  show "history_ok (record_rules_version cx d a change)"
    using h by (auto simp: history_ok_def record_version_versions [OF h])
  show "recorded (record_rules_version cx d a change) a"
    by (auto simp: recorded_def record_version_versions [OF h])
  show "b \<noteq> a \<Longrightarrow> recorded (record_rules_version cx d a change) b = recorded d b"
    by (simp add: recorded_def record_version_versions [OF h])
qed

lemma set_rules_history:
  assumes h: "history_ok d" and s: "set_agent_rules s cx d w a r = Inr d'"
  shows "history_ok d'" and "recorded d' a" and "recorded d b \<Longrightarrow> recorded d' b"
    and "\<exists>new. versions_of d' a = versions_of d a @ new \<and> length new \<le> 1"
proof -
  let ?e = "d\<lparr>rules := (rules d)(a \<mapsto> saved_row r (case rules d a of Some u \<Rightarrow> u | None \<Rightarrow> empty_rules_row w))\<rparr>"
  have e: "history_ok ?e" using h history_cong [of ?e d] by simp
  note D = set_rules_InrD(4) [OF s]
  show "history_ok d'" "recorded d' a" unfolding D using record_version_keeps [OF e] by simp_all
  show "recorded d' b" if "recorded d b"
  proof (cases "b = a")
    case True
    then show ?thesis unfolding D using record_version_keeps(2) [OF e] by simp
  next
    case False
    then have "recorded ?e b" using that by (simp add: recorded_def versions_of_def)
    then show ?thesis unfolding D using record_version_keeps(3) [OF e False] by simp
  qed
  show "\<exists>new. versions_of d' a = versions_of d a @ new \<and> length new \<le> 1"
    unfolding D record_version_versions [OF e] by (simp add: versions_of_def)
qed

lemma rollback_history:
  assumes h: "history_ok d" and s: "rollback_agent_rules s cx d w a n = Inr (d', r)"
  shows "history_ok d'" and "recorded d' a"
    and "\<exists>v\<in>set (versions_of d a). rn_version v = n \<and> rules d' a = Some ((rn_rules v)\<lparr>ru_ws := w\<rparr>) \<and>
      r = scan_agent_rules (rn_rules v)"
proof -
  obtain v where v: "find (\<lambda>v. rn_agent v = a \<and> rn_version v = n) (rules_versions d) = Some v"
    and d': "d' = record_rules_version cx (d\<lparr>rules := (rules d)(a \<mapsto> (rn_rules v)\<lparr>ru_ws := w\<rparr>)\<rparr>) a
        (''rollback to '' @ show_nat (nat n))"
    and r: "r = scan_agent_rules ((rn_rules v)\<lparr>ru_ws := w\<rparr>)"
    using s by (auto simp: rollback_agent_rules_def Let_def split: option.splits)
  let ?e = "d\<lparr>rules := (rules d)(a \<mapsto> (rn_rules v)\<lparr>ru_ws := w\<rparr>)\<rparr>"
  have e: "history_ok ?e" using h history_cong [of ?e d] by simp
  show "history_ok d'" "recorded d' a" unfolding d' using record_version_keeps [OF e] by simp_all
  show "\<exists>v\<in>set (versions_of d a). rn_version v = n \<and> rules d' a = Some ((rn_rules v)\<lparr>ru_ws := w\<rparr>) \<and>
      r = scan_agent_rules (rn_rules v)"
  proof (rule bexI [of _ v])
    have "v \<in> set (rules_versions d)" "rn_agent v = a" and n: "rn_version v = n"
      using v by (auto simp: find_Some_iff)
    then show "v \<in> set (versions_of d a)" by (simp add: versions_of_def)
    show "rn_version v = n \<and> rules d' a = Some ((rn_rules v)\<lparr>ru_ws := w\<rparr>) \<and> r = scan_agent_rules (rn_rules v)"
      using n by (simp add: d' r scan_agent_rules_def)
  qed
qed

subsection \<open>Approvals\<close>

text \<open>At most one approval of a request is open, so one movement uses it up.\<close>

definition one_open :: "db \<Rightarrow> bool" where
  "one_open d \<longleftrightarrow> (\<forall>a f. length (filter (open_approval a f) (approvals d)) \<le> 1)"

lemma file_one_open:
  assumes "one_open d" and "file_approval cx d need i = (d', e)"
  shows "one_open d'"
proof (cases "find (open_approval (an_agent need) (rq_fingerprint (an_request need))) (approvals d)")
  case None
  then have "filter (open_approval (an_agent need) (rq_fingerprint (an_request need))) (approvals d) = []"
    by (auto simp: find_None_iff filter_empty_conv)
  then show ?thesis
    using assms None by (auto simp: file_approval_def Let_def one_open_def open_approval_def)
next
  case (Some p)
  then show ?thesis using assms by (auto simp: file_approval_def Let_def)
qed

lemma length_filter_map_le:
  "(\<And>x. x \<in> set xs \<Longrightarrow> P (f x) \<Longrightarrow> P x) \<Longrightarrow> length (filter P (map f xs)) \<le> length (filter P xs)"
  by (induction xs) (auto simp: le_SucI)

lemma decide_one_open:
  assumes o: "one_open d" and s: "decide_agent_approval cx d w p approve = Inr d'"
  shows "one_open d'"
proof -
  define f :: "approval \<Rightarrow> approval" where "f = (\<lambda>q. if ap_id q = p \<and> ap_ws q = w \<and> ap_status q = Pending
    then q\<lparr>ap_status := (if approve then Approved else Denied), ap_decided_at := Some (cx_now cx)\<rparr> else q)"
  have d': "approvals d' = map f (approvals d)"
    using s by (auto simp: decide_agent_approval_def Let_def f_def split: if_splits)
  have "length (filter (open_approval a fp) (map f (approvals d))) \<le> length (filter (open_approval a fp) (approvals d))"
    for a fp by (rule length_filter_map_le) (auto simp: f_def open_approval_def split: if_splits)
  then show ?thesis using o d' unfolding one_open_def by (metis order_trans)
qed

lemma use_one_open:
  assumes o: "one_open d" and s: "use_approval d a fp ref = Some d'"
  shows "one_open d'" and "use_approval d' a fp ref' = None"
    and "\<exists>q\<in>set (approvals d'). ap_used_ref q = Some ref \<and> ap_status q = Used"
proof -
  define f :: "approval \<Rightarrow> approval" where "f = (\<lambda>p. if ap_agent p = a \<and> ap_fingerprint p = fp \<and> ap_status p = Approved
    then p\<lparr>ap_status := Used, ap_used_ref := Some ref\<rparr> else p)"
  have d': "approvals d' = map f (approvals d)"
    and e: "\<exists>p\<in>set (approvals d). ap_agent p = a \<and> ap_fingerprint p = fp \<and> ap_status p = Approved"
    using s by (auto simp: use_approval_def Let_def f_def list_ex_iff split: if_splits)
  have "length (filter (open_approval b g) (map f (approvals d))) \<le> length (filter (open_approval b g) (approvals d))"
    for b g by (rule length_filter_map_le) (auto simp: f_def open_approval_def split: if_splits)
  then show "one_open d'" using o d' unfolding one_open_def by (metis order_trans)
  have "\<not> (ap_agent (f q) = a \<and> ap_fingerprint (f q) = fp \<and> ap_status (f q) = Approved)" for q
    by (cases "ap_agent q = a \<and> ap_fingerprint q = fp \<and> ap_status q = Approved") (auto simp: f_def)
  then have "\<not> approved_once d' a fp" unfolding approved_once_def d' by auto
  then show "use_approval d' a fp ref' = None" using use_approval_iff by (metis option.exhaust)
  obtain p where p: "p \<in> set (approvals d)" "ap_agent p = a" "ap_fingerprint p = fp" "ap_status p = Approved"
    using e by blast
  have "f p \<in> set (approvals d')" "ap_used_ref (f p) = Some ref \<and> ap_status (f p) = Used"
    using p by (simp_all add: d' f_def)
  then show "\<exists>q\<in>set (approvals d'). ap_used_ref q = Some ref \<and> ap_status q = Used" by blast
qed

end
