(* ===== verification/Wallet_Books.thy ===== *)
theory Wallet_Books
  imports Agent_Limits
begin

section \<open>Following the books through a transaction\<close>

text \<open>
  Inside a transaction the agents' postings and the workspace's balance move one after the
  other, so between two statements the agents may hold more than the balance shows.
  \<open>books_slack k\<close> is \<open>books\<close> with the room of each workspace counted exactly: what the agents
  hold is at most the balance and \<open>k\<close>. Each kind of step moves \<open>k\<close> by what it writes, and a
  transaction keeps the books when its slack ends at zero.
\<close>

definition books_slack :: "(string \<Rightarrow> int) \<Rightarrow> db \<Rightarrow> bool" where
  "books_slack k d \<longleftrightarrow> holds_ok d \<and> balanced d \<and> accounts_ok d \<and>
     (\<forall>w. ledger_ok d w \<and> allocated d w \<le> bal_of d w + k w \<and> stored_ok d w \<and>
        0 \<le> cash_of d w \<and> 0 \<le> test_of d w)"

lemma books_slack_0: "books d \<longleftrightarrow> books_slack (\<lambda>_. 0) d"
  by (simp add: books_def books_slack_def solvent_def)

lemma slack_books: "books_slack k d \<Longrightarrow> (\<And>v. k v \<le> 0) \<Longrightarrow> books d"
  by (fastforce simp: books_def books_slack_def solvent_def intro: order_trans)

lemma slackD:
  assumes "books_slack k d"
  shows "holds_ok d" "balanced d" "accounts_ok d" "ledger_sum d w = bal_of d w"
    "allocated d w \<le> bal_of d w + k w" "0 \<le> cash_of d w" "0 \<le> test_of d w" "0 \<le> held_sum d w"
    "kept_account a \<Longrightarrow> account_balance d w a = posted d w a"
  using assms by (simp_all add: books_slack_def ledger_ok_def stored_ok_def held_sum_nonneg)

lemma slack_posted:
  assumes b: "books_slack k d" and z: "legs_total ls = 0"
    and nn: "\<And>a. is_allocated a \<Longrightarrow> 0 \<le> account_balance d w a + legs_on a ls"
  shows "books_slack (k(w := k w + legs_allocated ls)) (posted_db cx d w kind ref model bps ls)"
    (is "books_slack _ ?e")
proof -
  have "holds_ok ?e" using slackD(1) [OF b] by (simp add: holds_ok_cong [of ?e d])
  moreover have "balanced ?e" using slackD(2) [OF b] z by (rule balanced_posted_db)
  moreover have "accounts_ok ?e" using slackD(3) [OF b] nn by (rule accounts_ok_posted_db)
  moreover have "allocated ?e v \<le> bal_of ?e v + (k(w := k w + legs_allocated ls)) v" for v
    using slackD(5) [OF b, of v] by (cases "v = w") (simp_all add: view_simps)
  moreover have "account_balance ?e v a = posted ?e v a" if "kept_account a" for v a
    using slackD(9) [OF b that] that by (simp add: view_simps)
  ultimately show ?thesis
    using slackD [OF b] by (simp add: books_slack_def ledger_ok_def stored_ok_def view_simps)
qed

text \<open>A step on the balances, the ledger and the reservations that posts nothing.\<close>

lemma slack_wallet:
  assumes b: "books_slack k d"
    and p: "postings d' = postings d" "next_entry d' = next_entry d" "acct_balances d' = acct_balances d"
    and h: "holds_ok d'"
    and l: "\<And>v. ledger_sum d' v - bal_of d' v = ledger_sum d v - bal_of d v"
    and n: "\<And>v. 0 \<le> cash_of d' v" "\<And>v. 0 \<le> test_of d' v"
  shows "books_slack (\<lambda>v. k v - (bal_of d' v - bal_of d v)) d'"
proof -
  have v: "account_balance d' v a = account_balance d v a" "posted d' v a = posted d v a"
    "allocated d' v = allocated d v" for v a
    by (rule agent_views_cong [OF p(1,3)])+
  have "ledger_sum d' v = bal_of d' v" for v using l [of v] slackD(4) [OF b, of v] by simp
  moreover have "allocated d' v \<le> bal_of d' v + (k v - (bal_of d' v - bal_of d v))" for v
    using slackD(5) [OF b, of v] v(3) [of v] by simp
  ultimately show ?thesis
    using slackD [OF b] h n balanced_cong [OF p(1,2)] accounts_ok_cong [OF p(3)]
    by (simp add: books_slack_def ledger_ok_def stored_ok_def v)
qed

lemma slack_same_money: "same_money d d' \<Longrightarrow> books_slack k d \<Longrightarrow> books_slack k d'"
  using same_money_views [of d d'] balanced_cong [of d' d] accounts_ok_cong [of d' d] holds_ok_cong [of d' d]
  by (simp add: books_slack_def ledger_ok_def stored_ok_def same_money_def)

lemma slack_cong: "books_slack k d \<Longrightarrow> (\<And>v. k v = k' v) \<Longrightarrow> books_slack k' d"
  by (simp add: books_slack_def)

lemma quiet_money: "rules_quiet d d' \<Longrightarrow> same_money d d'"
  by (simp add: rules_quiet_def)

end
