(* ===== verification/Credit_Line.thy ===== *)
theory Credit_Line
  imports Wallet_Books
begin

section \<open>A company's credit line (credit_line.go)\<close>

text \<open>
  Marking a company, setting and pausing its line, what the line can lend, and the draw a
  spend makes when it passes what the agent holds. A line in \<open>credit_lines\<close> is paused when
  \<open>cr_paused\<close>; a late invoice pauses it too.
\<close>

definition set_company :: "db \<Rightarrow> string \<Rightarrow> bool \<Rightarrow> err + db" where
  "set_company d w company =
     (case workspaces d w of
        None \<Rightarrow> Inl (ErrInvalid ''no workspace'')
      | Some r \<Rightarrow> Inr (d\<lparr>workspaces := (workspaces d)(w \<mapsto> r\<lparr>wk_company := company\<rparr>)\<rparr>))"

definition set_credit_line :: "db \<Rightarrow> string \<Rightarrow> int \<Rightarrow> err + db" where
  "set_credit_line d w limit =
     (if limit \<le> 0 then Inl (ErrInvalid ''a credit line's limit must be positive'')
      else case workspaces d w of
        None \<Rightarrow> Inl (ErrInvalid ''no workspace'')
      | Some r \<Rightarrow>
          if \<not> wk_company r then Inl (ErrInvalid ''a credit line is for company workspaces only'')
          else Inr (d\<lparr>credit_lines := (credit_lines d)(w \<mapsto>
            (case credit_lines d w of
               None \<Rightarrow> \<lparr>cr_limit = limit, cr_paused = False\<rparr>
             | Some l \<Rightarrow> l\<lparr>cr_limit := limit\<rparr>))\<rparr>))"

definition set_line_pause :: "db \<Rightarrow> string \<Rightarrow> bool \<Rightarrow> err + db" where
  "set_line_pause d w paused =
     (case credit_lines d w of
        None \<Rightarrow> Inl (ErrInvalid ''the workspace has no credit line'')
      | Some l \<Rightarrow> Inr (d\<lparr>credit_lines := (credit_lines d)(w \<mapsto> l\<lparr>cr_paused := paused\<rparr>)\<rparr>))"

definition pause_credit_line :: "db \<Rightarrow> string \<Rightarrow> err + db" where
  "pause_credit_line d w = set_line_pause d w True"

definition resume_credit_line :: "db \<Rightarrow> string \<Rightarrow> err + db" where
  "resume_credit_line d w = set_line_pause d w False"

text \<open>A draw counts until the invoice it is on is paid.\<close>

definition draw_unpaid :: "db \<Rightarrow> credit_draw \<Rightarrow> bool" where
  "draw_unpaid d c =
     (case cd_invoice c of
        None \<Rightarrow> True
      | Some i \<Rightarrow> (case find (\<lambda>v. ci_id v = i) (credit_invoices d) of
          None \<Rightarrow> True | Some v \<Rightarrow> ci_paid v = None))"

definition line_used :: "db \<Rightarrow> string \<Rightarrow> int" where
  "line_used d w = sum_where (\<lambda>c. cd_ws c = w \<and> draw_unpaid d c) cd_amount (credit_draws d)"

definition line_late :: "ctx \<Rightarrow> db \<Rightarrow> string \<Rightarrow> bool" where
  "line_late cx d w =
     list_ex (\<lambda>v. ci_ws v = w \<and> ci_paid v = None \<and> ci_due v < cx_now cx) (credit_invoices d)"

definition is_company :: "db \<Rightarrow> string \<Rightarrow> bool" where
  "is_company d w = (case workspaces d w of None \<Rightarrow> False | Some r \<Rightarrow> wk_company r)"

definition credit_line_available :: "store \<Rightarrow> ctx \<Rightarrow> db \<Rightarrow> string \<Rightarrow> int" where
  "credit_line_available s cx d w =
     (if \<not> st_pool s then 0
      else case credit_lines d w of
        None \<Rightarrow> 0
      | Some l \<Rightarrow>
          if line_late cx d w \<or> cr_paused l \<or> \<not> is_company d w then 0
          else max (cr_limit l - line_used d w) 0)"

definition draw_meta :: "string \<Rightarrow> string \<Rightarrow> metadata" where
  "draw_meta a ref = [''funding'' \<mapsto> MStr ''credit_line'', ''agent_id'' \<mapsto> MStr a, ''ref'' \<mapsto> MStr ref]"

definition draw_credit_line ::
    "ctx \<Rightarrow> db \<Rightarrow> string \<Rightarrow> string \<Rightarrow> int \<Rightarrow> string \<Rightarrow> err + db \<times> bool" where
  "draw_credit_line cx d w a need ref =
     (case credit_lines d w of
        None \<Rightarrow> Inr (d, False)
      | Some l \<Rightarrow>
          if cr_paused l \<or> \<not> is_company d w then Inr (d, False)
          else if line_late cx d w \<or> line_used d w + need > cr_limit l then Inr (d, False)
          else case read_lxc_balance d w of (d, bal, minted, spent) \<Rightarrow>
            let d = insert_lxc_ledger cx d w need (bal + need) CreditLineDraw ''credit line draw''
                  (draw_meta a ref);
                d = write_lxc_balance d w (bal + need) (minted + need) spent;
                d = d\<lparr>credit_draws := credit_draws d @
                  [\<lparr>cd_ws = w, cd_agent = a, cd_amount = need, cd_ref = ref, cd_invoice = None\<rparr>]\<rparr>
            in rbind (post_entry cx d w PkCreditLine ref [(WorkspaceAcc, - need), (AgentAcc a, need)])
                 (\<lambda>d. Inr (d, True)))"

subsection \<open>A draw, in closed form\<close>

definition draw_db :: "ctx \<Rightarrow> db \<Rightarrow> string \<Rightarrow> string \<Rightarrow> int \<Rightarrow> string \<Rightarrow> db" where
  "draw_db cx d w a need ref =
     (let b = bal_of d w + need;
          d' = insert_lxc_ledger cx (ensure_lxc_row d w) w need b CreditLineDraw ''credit line draw''
                 (draw_meta a ref);
          d' = write_lxc_balance d' w b (minted_of d w + need) (spent_of d w)
      in d'\<lparr>credit_draws := credit_draws d' @
           [\<lparr>cd_ws = w, cd_agent = a, cd_amount = need, cd_ref = ref, cd_invoice = None\<rparr>]\<rparr>)"

lemma draws_frame [view_simps]:
  "bal_of (d\<lparr>credit_draws := xs\<rparr>) v = bal_of d v" "cash_of (d\<lparr>credit_draws := xs\<rparr>) v = cash_of d v"
  "test_of (d\<lparr>credit_draws := xs\<rparr>) v = test_of d v" "held_sum (d\<lparr>credit_draws := xs\<rparr>) v = held_sum d v"
  "ledger_sum (d\<lparr>credit_draws := xs\<rparr>) v = ledger_sum d v" "has_row (d\<lparr>credit_draws := xs\<rparr>) v = has_row d v"
  "minted_of (d\<lparr>credit_draws := xs\<rparr>) v = minted_of d v" "spent_of (d\<lparr>credit_draws := xs\<rparr>) v = spent_of d v"
  "allocated (d\<lparr>credit_draws := xs\<rparr>) v = allocated d v"
  "account_balance (d\<lparr>credit_draws := xs\<rparr>) v c = account_balance d v c"
  by (simp_all add: bal_of_def cash_of_def test_of_def held_sum_def ledger_sum_def has_row_def
      minted_of_def spent_of_def row_of_def allocated_def account_balance_def)

lemma draw_views [view_simps]:
  fixes cx d w a need ref
  defines "D \<equiv> draw_db cx d w a need ref"
  shows "has_row D v \<longleftrightarrow> v = w \<or> has_row d v"
    and "bal_of D v = bal_of d v + (if v = w then need else 0)"
    and "cash_of D v = cash_of d v" and "held_sum D v = held_sum d v"
    and "ledger_sum D v = ledger_sum d v + (if v = w then need else 0)"
    and "allocated D v = allocated d v" and "account_balance D v c = account_balance d v c"
    and "test_of D v = (if v = w
      then clamp_test_funded (test_of d w) (bal_of d w + need) (held_sum d w) else test_of d v)"
  by (auto simp: D_def draw_db_def Let_def view_simps)

lemma draw_db_frame [simp]:
  fixes cx d w a need ref
  defines "D \<equiv> draw_db cx d w a need ref"
  shows "reservations D = reservations d" "postings D = postings d" "next_entry D = next_entry d"
    "acct_balances D = acct_balances d" "subbudgets D = subbudgets d" "claims D = claims d"
    "settlements D = settlements d" "workspaces D = workspaces d" "agents D = agents d"
    "agent_keys D = agent_keys d" "credit_lines D = credit_lines d" "rules D = rules d"
    "credit_invoices D = credit_invoices d" "boosts D = boosts d" "approvals D = approvals d"
    "market_uses D = market_uses d" "money_payments D = money_payments d"
    "payee_payments D = payee_payments d" "alerts D = alerts d" "ws_pauses D = ws_pauses d"
    "credit_draws D = credit_draws d @
      [\<lparr>cd_ws = w, cd_agent = a, cd_amount = need, cd_ref = ref, cd_invoice = None\<rparr>]"
  by (simp_all add: D_def draw_db_def Let_def)

definition drawn_db :: "ctx \<Rightarrow> db \<Rightarrow> string \<Rightarrow> string \<Rightarrow> int \<Rightarrow> string \<Rightarrow> db" where
  "drawn_db cx d w a need ref =
     posted_db cx (draw_db cx d w a need ref) w PkCreditLine ref None None
       [(WorkspaceAcc, - need), (AgentAcc a, need)]"

definition line_open :: "ctx \<Rightarrow> db \<Rightarrow> string \<Rightarrow> int \<Rightarrow> bool" where
  "line_open cx d w need \<longleftrightarrow>
     (\<exists>l. credit_lines d w = Some l \<and> \<not> cr_paused l \<and> is_company d w \<and> \<not> line_late cx d w \<and>
        line_used d w + need \<le> cr_limit l)"

lemma draw_eq:
  assumes "need \<noteq> 0"
  shows "draw_credit_line cx d w a need ref =
    (if line_open cx d w need then Inr (drawn_db cx d w a need ref, True) else Inr (d, False))"
  using assms
  by (auto simp: draw_credit_line_def line_open_def drawn_db_def draw_db_def Let_def view_simps
      post_entry_eq split: option.split)

text \<open>A draw leaves the line within its limit, and what is available is exactly what can be drawn.\<close>

lemma line_used_drawn:
  "line_used (drawn_db cx d w a need ref) v = line_used d v + (if v = w then need else 0)"
  by (simp add: line_used_def drawn_db_def draw_unpaid_def cong: option.case_cong)

lemma line_open_available:
  assumes "0 < need" and "st_pool s"
  shows "line_open cx d w need \<longleftrightarrow> need \<le> credit_line_available s cx d w"
  using assms by (auto simp: line_open_def credit_line_available_def split: option.split)

lemma drawn_books:
  assumes b: "books_slack k d" and need: "0 \<le> need"
  shows "books_slack k (drawn_db cx d w a need ref)"
proof -
  have h: "holds_ok (draw_db cx d w a need ref)"
    using slackD(1) [OF b] by (simp add: holds_ok_def)
  have "books_slack (\<lambda>v. k v - (bal_of (draw_db cx d w a need ref) v - bal_of d v)) (draw_db cx d w a need ref)"
    using slackD [OF b] need h by (intro slack_wallet [OF b]) (simp_all add: view_simps clamp_nonneg)
  then have "books_slack ((\<lambda>v. k v - (bal_of (draw_db cx d w a need ref) v - bal_of d v))
      (w := k w - (bal_of (draw_db cx d w a need ref) w - bal_of d w) +
         legs_allocated [(WorkspaceAcc, - need), (AgentAcc a, need)])) (drawn_db cx d w a need ref)"
    unfolding drawn_db_def
    using need accounts_okD [OF slackD(3) [OF b]] by (intro slack_posted) (auto simp: view_simps)
  then show ?thesis by (rule slack_cong) (simp add: view_simps)
qed

lemma drawn_views [view_simps]:
  fixes cx d w a need ref
  defines "D \<equiv> drawn_db cx d w a need ref"
  shows "bal_of D v = bal_of d v + (if v = w then need else 0)"
    and "cash_of D v = cash_of d v" and "held_sum D v = held_sum d v"
    and "allocated D v = allocated d v + (if v = w then need else 0)"
    and "account_balance D v (AgentAcc b) = account_balance d v (AgentAcc b) +
      (if v = w \<and> b = a then need else 0)"
  by (auto simp: D_def drawn_db_def view_simps)

lemma drawn_frame [simp]:
  fixes cx d w a need ref
  defines "D \<equiv> drawn_db cx d w a need ref"
  shows "reservations D = reservations d" "subbudgets D = subbudgets d" "claims D = claims d"
    "settlements D = settlements d" "workspaces D = workspaces d" "agents D = agents d"
    "agent_keys D = agent_keys d" "rules D = rules d" "boosts D = boosts d" "approvals D = approvals d"
    "credit_lines D = credit_lines d" "market_uses D = market_uses d"
    "money_payments D = money_payments d" "payee_payments D = payee_payments d"
    "alerts D = alerts d" "ws_pauses D = ws_pauses d"
  by (simp_all add: D_def drawn_db_def)

end
