(* ===== verification/Agent_Movement.thy ===== *)
theory Agent_Movement
  imports Credit_Line
begin

section \<open>An agent key's movement (agentMovementFee in agent_accounts.go)\<close>

text \<open>
  What the hold, the debit, the settle and the release of an agent's key post against its
  agent: the balance and the credit line, the spending rules, and the two entries. A key
  attached to no agent posts nothing and answers \<open>False\<close>.
\<close>

definition cover_shortfall ::
    "ctx \<Rightarrow> db \<Rightarrow> string \<Rightarrow> string \<Rightarrow> int \<Rightarrow> posting_kind \<Rightarrow> string \<Rightarrow> err + db \<times> int" where
  "cover_shortfall cx d w a need kind ref =
     (let bal = account_balance d w (AgentAcc a)
      in if bal < need \<and> (kind = PkSpend \<or> kind = PkHold) then
           rbind (draw_credit_line cx d w a (need - bal) ref) (\<lambda>(d, drew).
             Inr (d, if drew then need else bal))
         else Inr (d, bal))"

definition agent_movement_fee ::
    "store \<Rightarrow> ctx \<Rightarrow> db \<Rightarrow> string \<Rightarrow> int \<Rightarrow> int \<Rightarrow> int \<Rightarrow> posting_kind \<Rightarrow> string \<Rightarrow> string \<Rightarrow> err + db \<times> bool" where
  "agent_movement_fee s cx d key delta fee bps kind ref model =
     (case agent_of_key d key of
        None \<Rightarrow> Inr (d, False)
      | Some (a, w) \<Rightarrow>
          if delta = 0 \<and> fee = 0 then Inr (d, True)
          else rbind (lock_agent d w a) (\<lambda>_.
            rbind (if delta > 0 then
                let need = delta + fee
                in rbind (cover_shortfall cx d w a need kind ref) (\<lambda>(d, bal).
                     if bal < need then Inl ErrSubBudgetExceeded
                     else enforce_agent_rules s cx d w a need ref)
              else Inr d) (\<lambda>d.
            rbind (if delta \<noteq> 0
                then post_model_entry cx d w kind ref model [(AgentAcc a, - delta), (SpendAcc, delta)]
                else Inr d) (\<lambda>d.
            rbind (if fee \<noteq> 0 then post_fee_entry cx d w a fee bps ref model else Inr d) (\<lambda>d.
              Inr (d, True))))))"

definition agent_movement ::
    "store \<Rightarrow> ctx \<Rightarrow> db \<Rightarrow> string \<Rightarrow> int \<Rightarrow> posting_kind \<Rightarrow> string \<Rightarrow> string \<Rightarrow> err + db \<times> bool" where
  "agent_movement s cx d key delta kind ref model =
     agent_movement_fee s cx d key delta 0 0 kind ref model"

subsection \<open>What a movement leaves alone\<close>

definition moves_only :: "db \<Rightarrow> db \<Rightarrow> bool" where
  "moves_only d d' \<longleftrightarrow> reservations d' = reservations d \<and> subbudgets d' = subbudgets d \<and>
     claims d' = claims d \<and> settlements d' = settlements d \<and> workspaces d' = workspaces d \<and>
     agent_keys d' = agent_keys d \<and> agent_places d' = agent_places d \<and> rules d' = rules d \<and>
     boosts d' = boosts d \<and> (\<forall>v. cash_of d' v = cash_of d v) \<and> (\<forall>v. held_sum d' v = held_sum d v)"

lemma moves_only_refl [simp]: "moves_only d d"
  by (simp add: moves_only_def)

lemma moves_only_trans: "moves_only d e \<Longrightarrow> moves_only e f \<Longrightarrow> moves_only d f"
  by (simp add: moves_only_def)

lemma moves_only_posted [simp]: "moves_only d (posted_db cx d w kind ref model bps ls)"
  by (simp add: moves_only_def view_simps agent_places_def)

lemma moves_only_drawn [simp]: "moves_only d (drawn_db cx d w a need ref)"
  by (simp add: moves_only_def view_simps agent_places_def)

lemma moves_only_quiet: "rules_quiet d d' \<Longrightarrow> moves_only d d'"
  using same_money_views [of d d'] by (simp add: rules_quiet_def moves_only_def same_money_def)

lemma moves_only_agents:
  assumes "moves_only d d'"
  shows "agent_of_key d' key = agent_of_key d key" and "lock_agent d' w a = lock_agent d w a"
  using assms by (simp_all add: agent_of_key_places lock_agent_places moves_only_def
      cong: option.case_cong)

subsection \<open>A movement in closed form\<close>

definition moved_db ::
    "ctx \<Rightarrow> db \<Rightarrow> string \<Rightarrow> string \<Rightarrow> int \<Rightarrow> int \<Rightarrow> int \<Rightarrow> posting_kind \<Rightarrow> string \<Rightarrow> string \<Rightarrow> db" where
  "moved_db cx d w a delta fee bps kind ref model =
     (let m = null_if_empty (model_cap_key model);
          d' = (if delta \<noteq> 0
            then posted_db cx d w kind ref m None [(AgentAcc a, - delta), (SpendAcc, delta)] else d)
      in if fee \<noteq> 0
         then posted_db cx d' w PkFee ref m (Some bps) [(AgentAcc a, - fee), (SpendAcc, fee)] else d')"

lemma moved_only [simp]: "moves_only d (moved_db cx d w a delta fee bps kind ref model)"
  using moves_only_trans [OF moves_only_posted moves_only_posted] by (simp add: moved_db_def Let_def)

lemma moved_views [view_simps]:
  fixes cx d w a delta fee bps kind ref model
  defines "D \<equiv> moved_db cx d w a delta fee bps kind ref model"
  shows "bal_of D v = bal_of d v"
    and "allocated D v = allocated d v - (if v = w then delta + fee else 0)"
    and "account_balance D v (AgentAcc b) =
      account_balance d v (AgentAcc b) - (if v = w \<and> b = a then delta + fee else 0)"
    and "ledger_sum D v = ledger_sum d v" and "test_of D v = test_of d v"
  by (auto simp: D_def moved_db_def Let_def view_simps)

lemma moved_slack:
  assumes b: "books_slack k d" and "0 \<le> account_balance d w (AgentAcc a) - delta"
    and nn: "0 \<le> account_balance d w (AgentAcc a) - delta - fee"
  shows "books_slack (k(w := k w - delta - fee)) (moved_db cx d w a delta fee bps kind ref model)"
proof -
  note acc = accounts_okD [OF slackD(3)]
  let ?m = "null_if_empty (model_cap_key model)"
  define e where "e = (if delta \<noteq> 0
    then posted_db cx d w kind ref ?m None [(AgentAcc a, - delta), (SpendAcc, delta)] else d)"
  have e: "books_slack (k(w := k w - delta)) e"
  proof (cases "delta = 0")
    case False
    have "books_slack (k(w := k w + legs_allocated [(AgentAcc a, - delta), (SpendAcc, delta)]))
        (posted_db cx d w kind ref ?m None [(AgentAcc a, - delta), (SpendAcc, delta)])"
      using assms acc [OF b] by (intro slack_posted [OF b]) auto
    then show ?thesis using False by (simp add: e_def)
  qed (use b in \<open>simp add: e_def\<close>)
  have bal: "account_balance e w (AgentAcc a) = account_balance d w (AgentAcc a) - delta"
    by (simp add: e_def view_simps)
  show ?thesis
  proof (cases "fee = 0")
    case False
    have "books_slack ((k(w := k w - delta))(w := (k(w := k w - delta)) w +
          legs_allocated [(AgentAcc a, - fee), (SpendAcc, fee)]))
        (posted_db cx e w PkFee ref ?m (Some bps) [(AgentAcc a, - fee), (SpendAcc, fee)])"
      using nn acc [OF e] bal by (intro slack_posted [OF e]) auto
    then show ?thesis using False by (simp add: moved_db_def e_def [symmetric] Let_def)
  qed (use e in \<open>simp add: moved_db_def e_def Let_def\<close>)
qed

lemma cover_InrD:
  assumes "cover_shortfall cx d w a need kind ref = Inr (c, bal)"
  shows "c = d \<and> bal = account_balance d w (AgentAcc a) \<or>
    (let short = need - account_balance d w (AgentAcc a)
     in 0 < short \<and> (kind = PkSpend \<or> kind = PkHold) \<and> line_open cx d w short \<and>
        c = drawn_db cx d w a short ref \<and> bal = need)"
  using assms by (auto simp: cover_shortfall_def Let_def draw_eq split: if_splits)

lemma cover_balance:
  "cover_shortfall cx d w a need kind ref = Inr (c, bal) \<Longrightarrow> bal = account_balance c w (AgentAcc a)"
  using cover_InrD [of cx d w a need kind ref c bal] by (auto simp: Let_def view_simps)

lemma cover_slack: "books_slack k d \<Longrightarrow> cover_shortfall cx d w a need kind ref = Inr (c, bal) \<Longrightarrow> books_slack k c"
  using cover_InrD [of cx d w a need kind ref c bal] by (auto simp: Let_def intro: drawn_books)

lemma cover_moves:
  assumes "cover_shortfall cx d w a need kind ref = Inr (c, bal)"
  shows "moves_only d c" and "bal_of d v \<le> bal_of c v"
  using cover_InrD [OF assms] by (auto simp: Let_def view_simps)

text \<open>A movement of a key with no agent is none; one of an agent's key posts against its agent.\<close>

lemma movement_InrD:
  assumes "agent_movement_fee s cx d key delta fee bps kind ref model = Inr (d', is_agent)"
  shows "(case agent_of_key d key of
      None \<Rightarrow> \<not> is_agent \<and> d' = d
    | Some (a, w) \<Rightarrow> is_agent \<and>
        (if delta > 0 then
           \<exists>c e. cover_shortfall cx d w a (delta + fee) kind ref = Inr (c, account_balance c w (AgentAcc a)) \<and>
             delta + fee \<le> account_balance c w (AgentAcc a) \<and>
             enforce_agent_rules s cx c w a (delta + fee) ref = Inr e \<and>
             d' = moved_db cx e w a delta fee bps kind ref model
         else d' = moved_db cx d w a delta fee bps kind ref model))"
proof (cases "agent_of_key d key")
  case None
  then show ?thesis using assms by (simp add: agent_movement_fee_def)
next
  case (Some aw)
  obtain a w where aw: "aw = (a, w)" by (cases aw)
  show ?thesis
  proof (cases "delta > 0")
    case True
    then obtain c bal e where c: "cover_shortfall cx d w a (delta + fee) kind ref = Inr (c, bal)"
        "\<not> bal < delta + fee" "enforce_agent_rules s cx c w a (delta + fee) ref = Inr e"
        "d' = moved_db cx e w a delta fee bps kind ref model" "is_agent"
      using assms Some aw
      by (auto simp: agent_movement_fee_def moved_db_def Let_def post_model_entry_eq post_fee_entry_eq
          split: if_splits)
    then show ?thesis using True Some aw cover_balance [OF c(1)] by auto
  next
    case False
    then show ?thesis
      using assms Some aw
      by (auto simp: agent_movement_fee_def moved_db_def Let_def post_model_entry_eq post_fee_entry_eq
          split: if_splits)
  qed
qed

lemma movement_moves:
  assumes "agent_movement_fee s cx d key delta fee bps kind ref model = Inr (d', is_agent)"
  shows "moves_only d d'" and "bal_of d v \<le> bal_of d' v"
    and "delta \<le> 0 \<Longrightarrow> bal_of d' v = bal_of d v" and "is_agent \<longleftrightarrow> agent_of_key d key \<noteq> None"
proof -
  show a: "is_agent \<longleftrightarrow> agent_of_key d key \<noteq> None"
    using movement_InrD [OF assms] by (auto split: option.splits)
  consider "d' = d" | w a where "agent_of_key d key = Some (a, w)" "\<not> delta > 0"
      "d' = moved_db cx d w a delta fee bps kind ref model"
    | w a c e where "delta > 0" "cover_shortfall cx d w a (delta + fee) kind ref = Inr (c, account_balance c w (AgentAcc a))"
      "enforce_agent_rules s cx c w a (delta + fee) ref = Inr e"
      "d' = moved_db cx e w a delta fee bps kind ref model"
    using movement_InrD [OF assms] by (cases "agent_of_key d key"; cases "0 < delta") fastforce+
  then have "moves_only d d' \<and> bal_of d v \<le> bal_of d' v \<and> (delta \<le> 0 \<longrightarrow> bal_of d' v = bal_of d v)"
  proof cases
    case 3
    note q = enforce_quiet [OF 3(3)]
    have "moves_only d e" using cover_moves(1) [OF 3(2)] moves_only_quiet [OF q] by (rule moves_only_trans)
    then show ?thesis
      unfolding 3(4)
      using 3(1) cover_moves(2) [OF 3(2), of v] same_money_views(1) [OF quiet_money [OF q], of v]
        moves_only_trans [OF _ moved_only] by (auto simp: view_simps)
  qed (auto simp: view_simps)
  then show "moves_only d d'" "bal_of d v \<le> bal_of d' v" "delta \<le> 0 \<Longrightarrow> bal_of d' v = bal_of d v"
    by simp_all
qed

text \<open>What it takes from the agent it leaves to the workspace, and nothing below zero.\<close>

lemma movement_slack:
  assumes b: "books_slack k d" and fee: "0 \<le> fee"
    and s: "agent_movement_fee s cx d key delta fee bps kind ref model = Inr (d', is_agent)"
    and nn: "delta \<le> 0 \<Longrightarrow> delta + fee \<le> 0"
  shows "books_slack (\<lambda>v. k v - (case agent_of_key d key of
      None \<Rightarrow> 0 | Some (a, w) \<Rightarrow> if v = w then delta + fee else 0)) d'"
proof (cases "agent_of_key d key")
  case None
  then show ?thesis using movement_InrD [OF s] b by simp
next
  case (Some aw)
  obtain a w where aw: "aw = (a, w)" by (cases aw)
  have "books_slack (k(w := k w - delta - fee)) d'"
  proof (cases "delta > 0")
    case True
    then obtain c e where c: "cover_shortfall cx d w a (delta + fee) kind ref = Inr (c, account_balance c w (AgentAcc a))"
        "delta + fee \<le> account_balance c w (AgentAcc a)"
        "enforce_agent_rules s cx c w a (delta + fee) ref = Inr e"
        "d' = moved_db cx e w a delta fee bps kind ref model"
      using movement_InrD [OF s] Some aw by auto
    note m = quiet_money [OF enforce_quiet [OF c(3)]]
    have e: "books_slack k e" using m cover_slack [OF b c(1)] by (rule slack_same_money)
    show ?thesis unfolding c(4)
      using c(2) fee same_money_views(7) [OF m] by (intro moved_slack [OF e]) simp_all
  next
    case False
    then show ?thesis
      using movement_InrD [OF s] Some aw nn fee accounts_okD [OF slackD(3) [OF b], of "AgentAcc a" w]
        moved_slack [OF b] by simp
  qed
  then show ?thesis by (rule slack_cong) (simp add: Some aw)
qed

subsection \<open>A movement is counted against the limits that let it through\<close>

lemma record_payments:
  "\<exists>xs. payee_payments (record_payee_payment cx d w a req ids amount ref) = payee_payments d @ xs \<and>
     (\<forall>x\<in>set xs. pp_ref x = ref)"
  by (simp add: record_payee_payment_def Let_def)

lemma watch_payments [simp]: "payee_payments (watch_agent_spend cx d w a amount now on) = payee_payments d"
  by (simp add: watch_agent_spend_def revoke_agent_kya_def revoke_kya_def update_agent_where_def Let_def)

lemma judge_approval_payments:
  "judge_approval d r w a req amount ref = Inr d' \<Longrightarrow> payee_payments d' = payee_payments d"
  by (auto simp: judge_approval_def use_approval_def Let_def split: if_splits option.splits)

lemma enforce_payments:
  assumes "enforce_agent_rules s cx d w a amount ref = Inr d'"
  shows "\<exists>xs. payee_payments d' = payee_payments d @ xs \<and> (\<forall>x\<in>set xs. pp_ref x = ref)"
proof (cases "agent_rules_in_force d a (req_time cx (agent_request_from cx))")
  case None
  then show ?thesis using assms record_payments by (auto simp: enforce_agent_rules_def Let_def)
next
  case (Some r)
  then obtain e ids where e: "judge_approval d r w a (agent_request_from cx) amount ref = Inr e"
    and d': "d' = watch_agent_spend cx (record_payee_payment cx e w a (agent_request_from cx) ids amount ref)
      w a amount (req_time cx (agent_request_from cx)) (rl_pause_on_unusual r)"
    using assms by (auto simp: enforce_agent_rules_def Let_def split: option.splits)
  show ?thesis
    using record_payments [of cx e w a "agent_request_from cx" ids amount ref]
    by (simp add: d' judge_approval_payments [OF e])
qed

lemma spent_quiet:
  assumes e: "enforce_agent_rules s cx d w a amount ref = Inr d'"
    and ref: "\<not> has_prefix ref ''invoice_agent:''"
  shows "agent_spent_since d' v b since = agent_spent_since d v b since"
proof -
  obtain xs where xs: "payee_payments d' = payee_payments d @ xs" "\<forall>x\<in>set xs. pp_ref x = ref"
    using enforce_payments [OF e] by blast
  have "sum_where (\<lambda>p. pp_ws p = v \<and> pp_agent p = b \<and> has_prefix (pp_ref p) ''invoice_agent:'' \<and>
      pp_at p \<ge> since) pp_amount xs = 0"
    using xs(2) ref by (intro sum_where_none) auto
  then show ?thesis
    using enforce_quiet [OF e] xs(1)
    by (simp add: agent_spent_since_def rules_quiet_def same_money_def)
qed

lemma spent_posted:
  assumes "kind \<noteq> PkPay"
  shows "agent_spent_since (posted_db cx d w kind ref model bps ls) v a since =
    agent_spent_since d v a since -
      (if v = w \<and> since \<le> cx_now cx \<and> spend_leg_kind kind then legs_on (AgentAcc a) ls else 0)"
proof -
  have "sum_where (\<lambda>p. po_ws p = v \<and> po_account p = AgentAcc a \<and> po_at p \<ge> since \<and> spend_posting p)
      po_amount (map (leg_posting cx (next_entry d) w kind ref model bps) ls) =
    (if v = w \<and> since \<le> cx_now cx \<and> spend_leg_kind kind then legs_on (AgentAcc a) ls else 0)"
    using assms by (induction ls) (auto simp: leg_posting_def spend_posting_def)
  moreover have "postings (posted_db cx d w kind ref model bps ls) =
      postings d @ map (leg_posting cx (next_entry d) w kind ref model bps) ls"
    by (simp add: posted_db_def)
  ultimately show ?thesis by (simp add: agent_spent_since_def)
qed

lemma spent_moved:
  assumes "spend_leg_kind kind"
  shows "agent_spent_since (moved_db cx d w a delta fee bps kind ref model) v b since =
    agent_spent_since d v b since +
      (if v = w \<and> b = a \<and> since \<le> cx_now cx then delta + fee else 0)"
proof -
  have k: "kind \<noteq> PkPay" "spend_leg_kind PkFee" using assms by (auto simp: spend_leg_kind_def)
  show ?thesis using assms k by (auto simp: moved_db_def Let_def spent_posted)
qed

lemma spent_draw_db [simp]: "agent_spent_since (draw_db cx d w a need ref) v b since = agent_spent_since d v b since"
  by (simp add: agent_spent_since_def)

lemma spent_cover:
  assumes "cover_shortfall cx d w a need kind ref = Inr (c, bal)"
  shows "agent_spent_since c v b since = agent_spent_since d v b since"
  using cover_InrD [OF assms]
  by (auto simp: Let_def drawn_db_def spent_posted spend_leg_kind_def)

lemma in_force_moves: "moves_only d d' \<Longrightarrow> agent_rules_in_force d' a at = agent_rules_in_force d a at"
  by (simp add: moves_only_def agent_rules_in_force_def agent_boosts_def cong: option.case_cong)

text \<open>After a movement of an agent's key, what the agent has spent in each period is within its limit.\<close>

lemma movement_limits:
  assumes s: "agent_movement_fee s cx d key delta fee bps kind ref model = Inr (d', is_agent)"
    and key: "agent_of_key d key = Some (a, w)" and pos: "0 < delta"
    and kind: "spend_leg_kind kind" and ref: "\<not> has_prefix ref ''invoice_agent:''"
    and force: "agent_rules_in_force d a (req_time cx (agent_request_from cx)) = Some r"
    and loc: "rules_location (st_zone s) r = Some loc"
    and l: "l \<in> set (period_limits r loc (req_time cx (agent_request_from cx)))" "pl_ulxc l \<noteq> 0"
    and begun: "pl_since l \<le> cx_now cx"
  shows "agent_spent_since d' w a (pl_since l) \<le> pl_ulxc l"
    and "agent_spent_since d' w a (pl_since l) = agent_spent_since d w a (pl_since l) + (delta + fee)"
proof -
  obtain c e where c: "cover_shortfall cx d w a (delta + fee) kind ref = Inr (c, account_balance c w (AgentAcc a))"
      "enforce_agent_rules s cx c w a (delta + fee) ref = Inr e"
      "d' = moved_db cx e w a delta fee bps kind ref model"
    using movement_InrD [OF s] key pos by auto
  have "agent_rules_in_force c a (req_time cx (agent_request_from cx)) = Some r"
    using in_force_moves [OF cover_moves(1) [OF c(1)]] force by simp
  then have within: "agent_spent_since c w a (pl_since l) + (delta + fee) \<le> pl_ulxc l"
    using enforce_amount [OF c(2)] loc l by (auto simp: amount_permitted_def)
  show spent: "agent_spent_since d' w a (pl_since l) = agent_spent_since d w a (pl_since l) + (delta + fee)"
    using begun by (simp add: c(3) spent_moved [OF kind] spent_quiet [OF c(2) ref] spent_cover [OF c(1)])
  show "agent_spent_since d' w a (pl_since l) \<le> pl_ulxc l"
    using within by (simp add: spent spent_cover [OF c(1)])
qed

end
