(* ===== verification/Reservations.thy ===== *)
theory Reservations
  imports Agent_Movement
begin

section \<open>Holds, debits and their settles (agent_subbudget.go, agent_debit_settle.go)\<close>

text \<open>
  The lifecycle of an agent's spend: a hold that is settled at the delivered cost or
  released in full, and, with reservations off, a pre-serve debit settled afterwards. Each
  operation here is one attempt of its transaction; \<open>retryLocks\<close>, which runs an attempt
  again when the database cancels it, is \<open>retry_locks\<close>.
\<close>

definition default_agent_ceiling :: int where
  "default_agent_ceiling = 50000000"

definition set_agent_ceiling :: "store \<Rightarrow> db \<Rightarrow> string \<Rightarrow> string \<Rightarrow> int \<Rightarrow> err + db" where
  "set_agent_ceiling s d key w ceiling =
     (if \<not> st_pool s then Inr d
      else if key = '''' \<or> w = '''' then Inl (ErrInvalid ''SetAgentCeiling requires scoped_key_id + workspace_id'')
      else Inr (d\<lparr>subbudgets := (subbudgets d)(key \<mapsto>
        (case subbudgets d key of
           None \<Rightarrow> \<lparr>sb_ws = w, sb_ceiling = ceiling, sb_spent = 0\<rparr>
         | Some b \<Rightarrow> b\<lparr>sb_ceiling := ceiling\<rparr>))\<rparr>))"

definition ensure_subbudget :: "db \<Rightarrow> string \<Rightarrow> string \<Rightarrow> db" where
  "ensure_subbudget d key w =
     (case subbudgets d key of
        None \<Rightarrow> d\<lparr>subbudgets := (subbudgets d)(key \<mapsto>
          \<lparr>sb_ws = w, sb_ceiling = default_agent_ceiling, sb_spent = 0\<rparr>)\<rparr>
      | Some b \<Rightarrow> d)"

definition add_subbudget_spent :: "db \<Rightarrow> string \<Rightarrow> int \<Rightarrow> db" where
  "add_subbudget_spent d key x =
     (case subbudgets d key of
        None \<Rightarrow> d
      | Some b \<Rightarrow> d\<lparr>subbudgets := (subbudgets d)(key \<mapsto> b\<lparr>sb_spent := sb_spent b + x\<rparr>)\<rparr>)"

definition budget_left :: "db \<Rightarrow> string \<Rightarrow> int" where
  "budget_left d key = (case subbudgets d key of None \<Rightarrow> 0 | Some b \<Rightarrow> sb_ceiling b - sb_spent b)"

subsection \<open>What a row records of a request (AgentDebitMeta)\<close>

record debit_meta =
  dm_requested :: string
  dm_served :: string
  dm_request :: string
  dm_price_basis :: string
  dm_pool_list :: int
  dm_pool_rate :: nat \<comment> \<open>a float64, never computed with\<close>
  dm_written_off :: int

definition no_meta :: debit_meta where
  "no_meta = \<lparr>dm_requested = '''', dm_served = '''', dm_request = '''', dm_price_basis = '''',
     dm_pool_list = 0, dm_pool_rate = 0, dm_written_off = 0\<rparr>"

definition put_text :: "string \<Rightarrow> string \<Rightarrow> metadata \<Rightarrow> metadata" where
  "put_text k v m = (if v \<noteq> '''' then m(k \<mapsto> MStr v) else m)"

definition to_map :: "debit_meta \<Rightarrow> metadata" where
  "to_map m =
     (let out = put_text ''requested_model'' (dm_requested m) Map.empty;
          out = put_text ''served_model'' (dm_served m) out;
          out = put_text ''request_id'' (dm_request m) out;
          out = put_text ''price_basis'' (dm_price_basis m) out
      in if dm_written_off m > 0 then out(''written_off_ulxc'' \<mapsto> MInt (dm_written_off m)) else out)"

definition to_spend_map :: "debit_meta \<Rightarrow> int \<Rightarrow> metadata" where
  "to_spend_map m charged =
     (let out = to_map m
      in if dm_pool_list m \<le> 0 then out
         else
           let saved = dm_pool_list m - charged;
               saved = (if saved < 0 then 0 else saved)
           in out(''pool_list_ulxc'' \<mapsto> MInt (dm_pool_list m), ''pool_saved_ulxc'' \<mapsto> MInt saved,
                  ''pool_discount_rate'' \<mapsto> MFloat (dm_pool_rate m)))"

subsection \<open>The pre-serve debit (SpendLXCForAgent)\<close>

definition spend_lxc_for_agent ::
    "store \<Rightarrow> ctx \<Rightarrow> db \<Rightarrow> string \<Rightarrow> string \<Rightarrow> string \<Rightarrow> int \<Rightarrow> string \<Rightarrow> debit_meta \<Rightarrow> err + db" where
  "spend_lxc_for_agent s cx d key w request amount desc meta =
     (if amount \<le> 0 then Inl (ErrInvalid ''agent spend amount must be positive'')
      else if key = '''' \<or> w = '''' \<or> request = ''''
      then Inl (ErrInvalid ''agent spend requires scoped_key_id, workspace_id, request_id'')
      else if \<not> st_pool s then Inr d
      else rbind (platform_fee_bps s d w) (\<lambda>bps.
        let fee = platform_fee amount bps
        in if map_of (claims d) request \<noteq> None then Inr d
           else
             let d = d\<lparr>claims := claims d @
                   [(request, \<lparr>cl_key = key, cl_amount = amount, cl_bps = bps\<rparr>)]\<rparr>;
                 d = ensure_subbudget d key w;
                 left = budget_left d key
             in rbind (agent_movement_fee s cx d key amount fee bps PkSpend request (dm_requested meta))
               (\<lambda>(d, is_agent).
               if \<not> is_agent \<and> left < amount + fee then Inl ErrSubBudgetExceeded
               else case read_lxc_balance d w of (d, bal, minted, spent) \<Rightarrow>
                 if bal < amount + fee then Inl ErrInsufficientLXC
                 else rbind (if is_agent then Inr () else require_unallocated d w bal (amount + fee)) (\<lambda>_.
                   let new_bal = bal - amount;
                       d = insert_lxc_ledger cx d w (- amount) new_bal Spend desc (to_map meta);
                       d = insert_platform_fee cx d w fee (new_bal - fee) bps amount (dm_request meta);
                       d = write_lxc_balance d w (new_bal - fee) minted (spent + amount + fee)
                   in Inr (add_subbudget_spent d key (amount + fee))))))"

subsection \<open>The hold (ReserveLXCForAgent)\<close>

definition find_reservation :: "db \<Rightarrow> string \<Rightarrow> reservation option" where
  "find_reservation d i = find (\<lambda>r. rv_id r = i) (reservations d)"

definition reserve_lxc_for_agent ::
    "store \<Rightarrow> ctx \<Rightarrow> db \<Rightarrow> string \<Rightarrow> string \<Rightarrow> string \<Rightarrow> int \<Rightarrow> debit_meta \<Rightarrow> err + db" where
  "reserve_lxc_for_agent s cx d key w i estimate meta =
     (if estimate \<le> 0 then Inl (ErrInvalid ''reservation hold amount must be positive'')
      else if key = '''' \<or> w = '''' \<or> i = ''''
      then Inl (ErrInvalid ''reserve requires scoped_key_id, workspace_id, reservation_id'')
      else if \<not> st_pool s then Inr d
      else rbind (platform_fee_bps s d w) (\<lambda>bps.
        let held = estimate + platform_fee estimate bps
        in if find_reservation d i \<noteq> None then Inr d
           else
             let d = d\<lparr>reservations := reservations d @
                   [\<lparr>rv_id = i, rv_key = key, rv_ws = w, rv_held = held, rv_settled = None,
                     rv_status = Held, rv_model = null_if_empty (dm_requested meta),
                     rv_request = null_if_empty (dm_request meta), rv_bps = bps, rv_at = cx_now cx\<rparr>]\<rparr>;
                 d = ensure_subbudget d key w;
                 left = budget_left d key
             in rbind (agent_movement s cx d key held PkHold i (dm_requested meta)) (\<lambda>(d, is_agent).
               if \<not> is_agent \<and> left < held then Inl ErrSubBudgetExceeded
               else case read_lxc_balance d w of (d, bal, minted, spent) \<Rightarrow>
                 if bal < held then Inl ErrInsufficientLXC
                 else rbind (if is_agent then Inr () else require_unallocated d w bal held) (\<lambda>_.
                   let new_bal = bal - held;
                       d = insert_lxc_ledger cx d w (- held) new_bal ReservationHold
                             ''reservation hold (pre-serve)'' (to_map meta);
                       d = write_lxc_balance d w new_bal minted (spent + held)
                   in Inr (add_subbudget_spent d key held)))))"

subsection \<open>The settle (SettleLXCReservation)\<close>

record hold_cut =
  hc_model :: string
  hc_delivered :: int
  hc_held :: int
  hc_written_off :: int

definition no_cut :: hold_cut where
  "no_cut = \<lparr>hc_model = '''', hc_delivered = 0, hc_held = 0, hc_written_off = 0\<rparr>"

definition lock_key_and_agent :: "db \<Rightarrow> string \<Rightarrow> err + unit" where
  "lock_key_and_agent d key =
     (case agent_of_key d key of None \<Rightarrow> Inr () | Some (a, w) \<Rightarrow> lock_agent d w a)"

definition text_of :: "string option \<Rightarrow> string" where
  "text_of t = (case t of None \<Rightarrow> '''' | Some v \<Rightarrow> v)"

definition resolve_reservation :: "db \<Rightarrow> string \<Rightarrow> reservation_status \<Rightarrow> int \<Rightarrow> db" where
  "resolve_reservation d i status settled =
     d\<lparr>reservations := map (\<lambda>r. if rv_id r = i
         then r\<lparr>rv_status := status, rv_settled := Some settled\<rparr> else r) (reservations d)\<rparr>"

definition settle_cut :: "reservation \<Rightarrow> int \<Rightarrow> debit_meta \<Rightarrow> hold_cut \<times> int" where
  "settle_cut r final meta =
     (let within = spend_within (rv_held r) (rv_bps r)
      in if final > within then
           (\<lparr>hc_model = (if dm_served meta = '''' then text_of (rv_model r) else dm_served meta),
             hc_delivered = final, hc_held = rv_held r, hc_written_off = final - within\<rparr>, within)
         else (no_cut, final))"

record settle_result =
  sr_settled :: int
  sr_cash_backed :: int
  sr_cut :: hold_cut

definition nothing_settled :: settle_result where
  "nothing_settled = \<lparr>sr_settled = 0, sr_cash_backed = 0, sr_cut = no_cut\<rparr>"

definition settle_lxc_reservation ::
    "store \<Rightarrow> ctx \<Rightarrow> db \<Rightarrow> string \<Rightarrow> int \<Rightarrow> debit_meta \<Rightarrow> err + db \<times> settle_result" where
  "settle_lxc_reservation s cx d i delivered meta =
     (if i = '''' then Inl (ErrInvalid ''settle requires reservation_id'')
      else
        let final = (if delivered < 0 then 0 else delivered)
        in if \<not> st_pool s then Inr (d, nothing_settled)
           else case find_reservation d i of
             None \<Rightarrow> Inl (ErrUnknownReservation i)
           | Some r \<Rightarrow>
               if rv_status r \<noteq> Held then Inr (d, nothing_settled)
               else rbind (lock_key_and_agent d (rv_key r)) (\<lambda>_.
                 case settle_cut r final meta of (clamp, final) \<Rightarrow>
                 let w = rv_ws r; held = rv_held r; bps = rv_bps r; model = text_of (rv_model r);
                     request = text_of (rv_request r);
                     fee = platform_fee final bps;
                     refund = held - final - fee
                 in case read_lxc_balance d w of (d, bal, minted, spent) \<Rightarrow>
                   let released = bal + held;
                       d = insert_lxc_ledger cx d w held released ReservationRelease
                             ''reservation settle: release hold''
                             (to_map (no_meta\<lparr>dm_requested := model, dm_request := request\<rparr>));
                       after = released - final;
                       d = (if final > 0 then insert_lxc_ledger cx d w (- final) after Spend
                             ''reservation settle: delivered charge''
                             (to_spend_map (meta\<lparr>dm_requested := model, dm_request := request,
                               dm_written_off := hc_written_off clamp\<rparr>) final) else d);
                       d = insert_platform_fee cx d w fee (after - fee) bps final request;
                       after = after - fee;
                       d = resolve_reservation d i Settled final;
                       d = write_lxc_balance d w after minted (spent - refund)
                   in rbind (consume_cash_backed d w released final) (\<lambda>(d, cash).
                      rbind (consume_cash_backed d w (released - final) fee) (\<lambda>(d, _).
                        let cash = royalty_backed d w final cash;
                            d = add_subbudget_spent d (rv_key r) (- refund)
                        in rbind (agent_movement s cx d (rv_key r) (- (refund + fee)) PkSettle i model) (\<lambda>(d, _).
                           rbind (post_agent_fee cx d (rv_key r) fee bps i model) (\<lambda>d.
                             Inr (d, \<lparr>sr_settled = final, sr_cash_backed = cash, sr_cut = clamp\<rparr>)))))))"

subsection \<open>The release (ReleaseLXCReservation) and the sweep\<close>

definition release_lxc_reservation :: "store \<Rightarrow> ctx \<Rightarrow> db \<Rightarrow> string \<Rightarrow> string \<Rightarrow> err + db" where
  "release_lxc_reservation s cx d i reason =
     (if i = '''' then Inl (ErrInvalid ''release requires reservation_id'')
      else if \<not> st_pool s then Inr d
      else case find_reservation d i of
        None \<Rightarrow> Inr d
      | Some r \<Rightarrow>
          if rv_status r \<noteq> Held then Inr d
          else rbind (lock_key_and_agent d (rv_key r)) (\<lambda>_.
            let w = rv_ws r; held = rv_held r; model = text_of (rv_model r); request = text_of (rv_request r)
            in case read_lxc_balance d w of (d, bal, minted, spent) \<Rightarrow>
              let released = bal + held;
                  desc = (if reason \<noteq> '''' then ''reservation release: '' @ reason
                          else ''reservation release (full refund)'');
                  d = insert_lxc_ledger cx d w held released ReservationRelease desc
                        (to_map (no_meta\<lparr>dm_requested := model, dm_request := request\<rparr>));
                  d = resolve_reservation d i Released 0;
                  d = write_lxc_balance d w released minted (spent - held);
                  d = add_subbudget_spent d (rv_key r) (- held)
              in rbind (agent_movement s cx d (rv_key r) (- held) PkRelease i model) (\<lambda>(d, _). Inr d)))"

fun release_all :: "store \<Rightarrow> ctx \<Rightarrow> db \<Rightarrow> string list \<Rightarrow> nat \<Rightarrow> db \<times> nat \<times> err option" where
  "release_all s cx d [] n = (d, n, None)"
| "release_all s cx d (i # is) n =
     (case release_lxc_reservation s cx d i ''stranded hold swept (crash refund)'' of
        Inl e \<Rightarrow> (d, n, Some e)
      | Inr d' \<Rightarrow> release_all s cx d' is (Suc n))"

definition stranded :: "ctx \<Rightarrow> db \<Rightarrow> int \<Rightarrow> string list" where
  "stranded cx d older_than =
     map rv_id (filter (\<lambda>r. rv_status r = Held \<and> rv_at r < cx_now cx - older_than) (reservations d))"

definition release_stranded_reservations :: "store \<Rightarrow> ctx \<Rightarrow> db \<Rightarrow> int \<Rightarrow> db \<times> nat \<times> err option" where
  "release_stranded_reservations s cx d older_than =
     (if \<not> st_pool s then (d, 0, None)
      else release_all s cx d (stranded cx d older_than) 0)"

end
