(* ===== verification/Hold_Books.thy ===== *)
theory Hold_Books
  imports Reservations
begin

section \<open>Holds keep the books\<close>

text \<open>
  Each operation on a hold in closed form, and what it keeps: a hold moves money from the
  balance to the open holds, a settle takes the charge and its fee out of the hold and
  returns the rest, a release returns all of it. \<open>key_home\<close> is what authentication gives: a
  key's agent lives in the workspace the key is charged to.
\<close>

definition key_home :: "db \<Rightarrow> string \<Rightarrow> string \<Rightarrow> bool" where
  "key_home d key w \<longleftrightarrow> (case agent_of_key d key of None \<Rightarrow> True | Some (a, v) \<Rightarrow> v = w)"

lemma agent_of_key_cong:
  "agents d' = agents d \<Longrightarrow> agent_keys d' = agent_keys d \<Longrightarrow> agent_of_key d' k = agent_of_key d k"
  by (simp add: agent_of_key_def find_agent_def cong: option.case_cong)

lemma key_home_moves: "moves_only d d' \<Longrightarrow> key_home d' key w = key_home d key w"
  by (simp add: key_home_def moves_only_agents)

subsection \<open>Sub-budgets\<close>

lemma subbudget_money [simp]:
  "same_money d (ensure_subbudget d key w)" "same_money d (add_subbudget_spent d key x)"
  by (simp_all add: same_money_def ensure_subbudget_def add_subbudget_spent_def split: option.split)

lemmas subbudget_views [view_simps] =
  same_money_views [OF subbudget_money(1)] same_money_views [OF subbudget_money(2)]

lemma subbudget_frame [simp]:
  "reservations (ensure_subbudget d key w) = reservations d"
  "claims (ensure_subbudget d key w) = claims d" "settlements (ensure_subbudget d key w) = settlements d"
  "agents (ensure_subbudget d key w) = agents d" "agent_keys (ensure_subbudget d key w) = agent_keys d"
  "workspaces (ensure_subbudget d key w) = workspaces d"
  "rules (ensure_subbudget d key w) = rules d" "boosts (ensure_subbudget d key w) = boosts d"
  "postings (ensure_subbudget d key w) = postings d" "acct_balances (ensure_subbudget d key w) = acct_balances d"
  "next_entry (ensure_subbudget d key w) = next_entry d"
  "market_uses (ensure_subbudget d key w) = market_uses d"
  "money_payments (ensure_subbudget d key w) = money_payments d"
  "payee_payments (ensure_subbudget d key w) = payee_payments d"
  "reservations (add_subbudget_spent d key x) = reservations d"
  "claims (add_subbudget_spent d key x) = claims d"
  "settlements (add_subbudget_spent d key x) = settlements d"
  "agents (add_subbudget_spent d key x) = agents d"
  "agent_keys (add_subbudget_spent d key x) = agent_keys d"
  "workspaces (add_subbudget_spent d key x) = workspaces d"
  "rules (add_subbudget_spent d key x) = rules d" "boosts (add_subbudget_spent d key x) = boosts d"
  "postings (add_subbudget_spent d key x) = postings d"
  "market_uses (add_subbudget_spent d key x) = market_uses d"
  "money_payments (add_subbudget_spent d key x) = money_payments d"
  "payee_payments (add_subbudget_spent d key x) = payee_payments d"
  by (simp_all add: ensure_subbudget_def add_subbudget_spent_def split: option.split)

lemma budget_left_spent [simp]:
  "budget_left (add_subbudget_spent d key x) key = budget_left d key - (if subbudgets d key = None then 0 else x)"
  "subbudgets (ensure_subbudget d key w) key \<noteq> None"
  "subbudgets (add_subbudget_spent d key x) k = None \<longleftrightarrow> subbudgets d k = None"
  by (auto simp: budget_left_def add_subbudget_spent_def ensure_subbudget_def split: option.split)

subsection \<open>A charge that has its room\<close>

lemma slack_tight:
  "books_slack k d \<Longrightarrow> (\<And>v. allocated d v \<le> bal_of d v + k' v) \<Longrightarrow> books_slack k' d"
  by (simp add: books_slack_def)

text \<open>
  The wallet's half of a hold or a debit, once its agent has paid or the unallocated balance
  covers it.
\<close>

definition room_for :: "string \<Rightarrow> int \<Rightarrow> string \<Rightarrow> int" where
  "room_for w x v = (if v = w then - x else 0)"

lemma charged_books:
  assumes m: "books_slack (room_for w (amount + fee)) m"
  shows "books (debit_db cx m w amount fee bps ty desc meta rq)" (is "books ?e")
proof -
  have "holds_ok ?e" using slackD(1) [OF m] by (simp add: holds_ok_def)
  then have "books_slack (\<lambda>v. room_for w (amount + fee) v - (bal_of ?e v - bal_of m v)) ?e"
    using slackD [OF m] by (intro slack_wallet [OF m]) (simp_all add: view_simps clamp_nonneg)
  then show ?thesis by (rule slack_books) (simp add: view_simps room_for_def)
qed

lemma movement_room:
  assumes b: "books d" and fee: "0 \<le> fee" and pos: "0 < delta" and home: "key_home d key w"
    and s: "agent_movement_fee s cx d key delta fee bps kind ref model = Inr (m, is_agent)"
    and free: "\<not> is_agent \<Longrightarrow> delta + fee \<le> bal_of m w - allocated m w"
  shows "books_slack (room_for w (delta + fee)) m"
proof -
  have sl: "books_slack (\<lambda>v. 0 - (case agent_of_key d key of
      None \<Rightarrow> 0 | Some (a, u) \<Rightarrow> if v = u then delta + fee else 0)) m"
    using b fee pos s by (intro movement_slack) (simp_all add: books_slack_0)
  show ?thesis
  proof (cases "agent_of_key d key")
    case None
    then have "\<not> is_agent" using movement_moves(4) [OF s] by simp
    then show ?thesis
      using sl free slackD(5) [OF sl] None by (intro slack_tight [OF sl]) (auto simp: room_for_def)
  next
    case (Some aw)
    then show ?thesis
      using home by (intro slack_cong [OF sl]) (auto simp: key_home_def room_for_def split: prod.splits)
  qed
qed

subsection \<open>The hold\<close>

definition hold_row :: "ctx \<Rightarrow> string \<Rightarrow> string \<Rightarrow> string \<Rightarrow> int \<Rightarrow> int \<Rightarrow> debit_meta \<Rightarrow> reservation" where
  "hold_row cx key w i held bps meta =
     \<lparr>rv_id = i, rv_key = key, rv_ws = w, rv_held = held, rv_settled = None, rv_status = Held,
      rv_model = null_if_empty (dm_requested meta), rv_request = null_if_empty (dm_request meta),
      rv_bps = bps, rv_at = cx_now cx\<rparr>"

definition hold_opened :: "ctx \<Rightarrow> db \<Rightarrow> string \<Rightarrow> string \<Rightarrow> string \<Rightarrow> int \<Rightarrow> int \<Rightarrow> debit_meta \<Rightarrow> db" where
  "hold_opened cx d key w i held bps meta =
     ensure_subbudget (d\<lparr>reservations := reservations d @ [hold_row cx key w i held bps meta]\<rparr>) key w"

lemma reservations_views:
  "bal_of (d\<lparr>reservations := xs\<rparr>) v = bal_of d v" "cash_of (d\<lparr>reservations := xs\<rparr>) v = cash_of d v"
  "test_of (d\<lparr>reservations := xs\<rparr>) v = test_of d v" "ledger_sum (d\<lparr>reservations := xs\<rparr>) v = ledger_sum d v"
  "has_row (d\<lparr>reservations := xs\<rparr>) v = has_row d v" "allocated (d\<lparr>reservations := xs\<rparr>) v = allocated d v"
  "minted_of (d\<lparr>reservations := xs\<rparr>) v = minted_of d v" "spent_of (d\<lparr>reservations := xs\<rparr>) v = spent_of d v"
  "account_balance (d\<lparr>reservations := xs\<rparr>) v c = account_balance d v c"
  "posted (d\<lparr>reservations := xs\<rparr>) v c = posted d v c"
  by (simp_all add: bal_of_def cash_of_def test_of_def ledger_sum_def has_row_def minted_of_def
      spent_of_def row_of_def allocated_def account_balance_def posted_def)

lemma hold_opened_views [view_simps]:
  fixes cx d key w i held bps meta
  defines "D \<equiv> hold_opened cx d key w i held bps meta"
  shows "bal_of D v = bal_of d v" "cash_of D v = cash_of d v" "test_of D v = test_of d v"
    "ledger_sum D v = ledger_sum d v" "allocated D v = allocated d v" "has_row D v = has_row d v"
    "account_balance D v c = account_balance d v c"
    "held_sum D v = held_sum d v + (if v = w then held else 0)"
  by (simp_all add: D_def hold_opened_def view_simps reservations_views)
    (simp add: held_sum_def hold_row_def)

lemma hold_opened_frame [simp]:
  fixes cx d key w i held bps meta
  defines "D \<equiv> hold_opened cx d key w i held bps meta"
  shows "reservations D = reservations d @ [hold_row cx key w i held bps meta]"
    "claims D = claims d" "settlements D = settlements d" "agents D = agents d"
    "agent_keys D = agent_keys d" "rules D = rules d" "boosts D = boosts d" "postings D = postings d"
    "acct_balances D = acct_balances d" "next_entry D = next_entry d" "workspaces D = workspaces d"
  by (simp_all add: D_def hold_opened_def)

lemma hold_opened_agents [simp]:
  "agent_of_key (hold_opened cx d key w i held bps meta) k = agent_of_key d k"
  by (rule agent_of_key_cong) simp_all

lemma find_reservation_None: "find_reservation d i = None \<longleftrightarrow> i \<notin> set (map rv_id (reservations d))"
  by (auto simp: find_reservation_def find_None_iff)

lemma hold_opened_books:
  assumes b: "books d" and n: "find_reservation d i = None" "0 \<le> held" "0 \<le> bps"
  shows "books (hold_opened cx d key w i held bps meta)" (is "books ?e")
proof -
  have "holds_ok ?e"
    using booksD(1) [OF b] n by (simp add: holds_ok_def find_reservation_None hold_row_def)
  then have "books_slack (\<lambda>v. 0 - (bal_of ?e v - bal_of d v)) ?e"
    using b booksD [OF b] by (intro slack_wallet) (simp_all add: books_slack_0 view_simps)
  then show ?thesis by (rule slack_books) (simp add: view_simps)
qed

lemma reserve_InrD:
  assumes "reserve_lxc_for_agent s cx d key w i estimate meta = Inr d'" and pool: "st_pool s"
  shows "0 < estimate \<and> key \<noteq> '''' \<and> w \<noteq> '''' \<and> i \<noteq> '''' \<and>
    (\<exists>bps. platform_fee_bps s d w = Inr bps \<and>
       (if find_reservation d i \<noteq> None then d' = d
        else \<exists>m is_agent. let held = estimate + platform_fee estimate bps;
              o1 = hold_opened cx d key w i held bps meta
          in agent_movement_fee s cx o1 key held 0 0 PkHold i (dm_requested meta) = Inr (m, is_agent) \<and>
             held \<le> bal_of m w \<and>
             (\<not> is_agent \<longrightarrow> held \<le> bal_of m w - allocated m w \<and> held \<le> budget_left o1 key) \<and>
             d' = add_subbudget_spent (debit_db cx m w held 0 bps ReservationHold
               ''reservation hold (pre-serve)'' (to_map meta) '''') key held))"
  using assms
  by (auto simp: reserve_lxc_for_agent_def agent_movement_def Let_def view_simps require_unallocated_def
      debit_db_def insert_platform_fee_def hold_opened_def hold_row_def split: if_splits)

lemma reserve_cases:
  assumes s: "reserve_lxc_for_agent s cx d key w i estimate meta = Inr d'" and pool: "st_pool s"
  obtains (replay) "find_reservation d i \<noteq> None" "d' = d"
  | (fresh) bps held m is_agent where "find_reservation d i = None" "0 < estimate"
      "platform_fee_bps s d w = Inr bps" "held = estimate + platform_fee estimate bps"
      "agent_movement_fee s cx (hold_opened cx d key w i held bps meta) key held 0 0 PkHold i
         (dm_requested meta) = Inr (m, is_agent)"
      "held \<le> bal_of m w" "\<not> is_agent \<Longrightarrow> held \<le> bal_of m w - allocated m w"
      "\<not> is_agent \<Longrightarrow> held \<le> budget_left (hold_opened cx d key w i held bps meta) key"
      "d' = add_subbudget_spent (debit_db cx m w held 0 bps ReservationHold
         ''reservation hold (pre-serve)'' (to_map meta) '''') key held"
proof (cases "find_reservation d i = None")
  case True
  then obtain bps m is_agent where r: "0 < estimate" "platform_fee_bps s d w = Inr bps"
    "let held = estimate + platform_fee estimate bps; o1 = hold_opened cx d key w i held bps meta
     in agent_movement_fee s cx o1 key held 0 0 PkHold i (dm_requested meta) = Inr (m, is_agent) \<and>
        held \<le> bal_of m w \<and>
        (\<not> is_agent \<longrightarrow> held \<le> bal_of m w - allocated m w \<and> held \<le> budget_left o1 key) \<and>
        d' = add_subbudget_spent (debit_db cx m w held 0 bps ReservationHold
          ''reservation hold (pre-serve)'' (to_map meta) '''') key held"
    using reserve_InrD [OF s pool] by auto
  show ?thesis by (rule fresh [OF True r(1,2) refl]) (use r(3) in \<open>auto simp: Let_def\<close>)
next
  case False
  then show ?thesis using reserve_InrD [OF s pool] replay by auto
qed

lemma platform_fee_bps_nonneg: "platform_fee_bps s d w = Inr bps \<Longrightarrow> 0 \<le> bps"
  using platform_fee_bps_range by blast

lemma reserve_keeps_books [keeps]:
  assumes b: "books d" and pool: "st_pool s" and home: "key_home d key w"
    and s: "reserve_lxc_for_agent s cx d key w i estimate meta = Inr d'"
  shows "books d'" and "backed x d \<Longrightarrow> backed x d'"
proof -
  show "books d'"
    using s pool
  proof (cases rule: reserve_cases)
    case replay
    then show ?thesis using b by simp
  next
    case (fresh bps held m is_agent)
    let ?o = "hold_opened cx d key w i held bps meta"
    have pos: "0 < held" using fresh(2,4) platform_fee_nonneg [of estimate bps] by simp
    have o: "books ?o"
      using b fresh(1) pos platform_fee_bps_nonneg [OF fresh(3)] by (intro hold_opened_books) simp_all
    have "key_home ?o key w" using home by (simp add: key_home_def)
    then have "books_slack (room_for w (held + 0)) m"
      using fresh(5,7) pos by (intro movement_room [OF o]) simp_all
    then show ?thesis
      unfolding fresh(9) by (intro same_money_books [OF subbudget_money(2)] charged_books)
  qed
  show "backed x d'" if x: "backed x d"
    using s pool
  proof (cases rule: reserve_cases)
    case replay
    then show ?thesis using x by simp
  next
    case (fresh bps held m is_agent)
    note mv = movement_moves [OF fresh(5)]
    show ?thesis
    proof (rule backedI)
      fix v
      have "cash_of d' v = cash_of d v" and "held_sum d' v = held_sum d v + (if v = w then held else 0)"
        and "bal_of d' v = bal_of m v - (if v = w then held else 0)"
        using mv(1) by (simp_all add: fresh(9) view_simps moves_only_def)
      moreover have "bal_of d v \<le> bal_of m v" using mv(2) [of v] by (simp add: view_simps)
      ultimately show "0 \<le> cash_of d' v \<and> cash_of d' v \<le> bal_of d' v + held_sum d' v + x v"
        using backedD [OF x, of v] by simp
    qed
  qed
qed

subsection \<open>The settle\<close>

definition settle_db :: "ctx \<Rightarrow> db \<Rightarrow> reservation \<Rightarrow> int \<Rightarrow> int \<Rightarrow> hold_cut \<Rightarrow> debit_meta \<Rightarrow> db" where
  "settle_db cx d r final fee clamp meta =
     (let w = rv_ws r; held = rv_held r; model = text_of (rv_model r); request = text_of (rv_request r);
          refund = held - final - fee;
          released = bal_of d w + held;
          d' = insert_lxc_ledger cx (ensure_lxc_row d w) w held released ReservationRelease
                 ''reservation settle: release hold''
                 (to_map (no_meta\<lparr>dm_requested := model, dm_request := request\<rparr>));
          after = released - final;
          d' = (if final > 0 then insert_lxc_ledger cx d' w (- final) after Spend
                 ''reservation settle: delivered charge''
                 (to_spend_map (meta\<lparr>dm_requested := model, dm_request := request,
                   dm_written_off := hc_written_off clamp\<rparr>) final) else d');
          d' = insert_platform_fee cx d' w fee (after - fee) (rv_bps r) final request;
          d' = resolve_reservation d' (rv_id r) Settled final
      in write_lxc_balance d' w (after - fee) (minted_of d w) (spent_of d w - refund))"

lemma resolve_views [view_simps]:
  "bal_of (resolve_reservation d i st x) v = bal_of d v"
  "cash_of (resolve_reservation d i st x) v = cash_of d v"
  "test_of (resolve_reservation d i st x) v = test_of d v"
  "ledger_sum (resolve_reservation d i st x) v = ledger_sum d v"
  "minted_of (resolve_reservation d i st x) v = minted_of d v"
  "spent_of (resolve_reservation d i st x) v = spent_of d v"
  "has_row (resolve_reservation d i st x) v = has_row d v"
  "allocated (resolve_reservation d i st x) v = allocated d v"
  "account_balance (resolve_reservation d i st x) v c = account_balance d v c"
  by (simp_all add: resolve_reservation_def reservations_views)

lemma resolve_frame [simp]:
  "claims (resolve_reservation d i st x) = claims d" "settlements (resolve_reservation d i st x) = settlements d"
  "agents (resolve_reservation d i st x) = agents d" "agent_keys (resolve_reservation d i st x) = agent_keys d"
  "rules (resolve_reservation d i st x) = rules d" "boosts (resolve_reservation d i st x) = boosts d"
  "postings (resolve_reservation d i st x) = postings d"
  "acct_balances (resolve_reservation d i st x) = acct_balances d"
  "next_entry (resolve_reservation d i st x) = next_entry d"
  "workspaces (resolve_reservation d i st x) = workspaces d"
  "subbudgets (resolve_reservation d i st x) = subbudgets d"
  "reservations (resolve_reservation d i st x) = map (\<lambda>r. if rv_id r = i
     then r\<lparr>rv_status := st, rv_settled := Some x\<rparr> else r) (reservations d)"
  by (simp_all add: resolve_reservation_def)

lemma find_reservation_D:
  assumes "find_reservation d i = Some r"
  shows "rv_id r = i" and "r \<in> set (reservations d)"
  using assms by (auto simp: find_reservation_def find_Some_iff)

text \<open>Resolving an open hold takes it, and nothing else, out of the open holds.\<close>

lemma held_sum_resolve:
  assumes h: "holds_ok d" and r: "find_reservation d i = Some r" "rv_status r = Held" and st: "st \<noteq> Held"
  shows "held_sum (resolve_reservation d i st x) v = held_sum d v - (if v = rv_ws r then rv_held r else 0)"
proof -
  define p :: "reservation \<Rightarrow> bool" where "p = (\<lambda>r. rv_ws r = v \<and> rv_status r = Held)"
  define f where "f = (\<lambda>r :: reservation. if rv_id r = i
    then r\<lparr>rv_status := st, rv_settled := Some x\<rparr> else r)"
  have "sum_where p rv_held (map f rs) =
      sum_where p rv_held rs - (if v = rv_ws r then rv_held r else 0)"
    if "distinct (map rv_id rs)" "r \<in> set rs" for rs
    using that
  proof (induction rs)
    case (Cons q rs)
    have keep: "map f qs = qs" if "i \<notin> rv_id ` set qs" for qs
      using that by (induction qs) (auto simp: f_def)
    show ?case
    proof (cases "q = r")
      case True
      then have rs: "map f rs = rs" using Cons.prems find_reservation_D [OF r(1)] by (intro keep) auto
      have "f q = r\<lparr>rv_status := st, rv_settled := Some x\<rparr>"
        using True find_reservation_D(1) [OF r(1)] by (simp add: f_def)
      then show ?thesis using True r(2) st rs by (simp add: p_def)
    next
      case False
      then have "rv_id q \<noteq> i" using Cons.prems find_reservation_D(1) [OF r(1)] by auto
      then show ?thesis using Cons False by (simp add: f_def)
    qed
  qed simp
  then show ?thesis
    using h find_reservation_D(2) [OF r(1)]
    by (simp add: held_sum_def holds_ok_def p_def f_def)
qed

lemma holds_ok_resolve: "holds_ok d \<Longrightarrow> holds_ok (resolve_reservation d i st x)"
  by (auto simp: holds_ok_def list_all_iff comp_def if_distrib cong: if_cong)

lemma settle_views [view_simps]:
  fixes cx d r final fee clamp meta
  defines "D \<equiv> settle_db cx d r final fee clamp meta"
  assumes final: "0 \<le> final"
  shows "bal_of D v = bal_of d v + (if v = rv_ws r then rv_held r - final - fee else 0)"
    and "ledger_sum D v = ledger_sum d v + (if v = rv_ws r then rv_held r - final - fee else 0)"
    and "cash_of D v = cash_of d v" "allocated D v = allocated d v"
    and "account_balance D v c = account_balance d v c"
    and "has_row D v \<longleftrightarrow> v = rv_ws r \<or> has_row d v"
  using final by (auto simp: D_def settle_db_def Let_def view_simps)

lemma settle_frame [simp]:
  fixes cx d r final fee clamp meta
  defines "D \<equiv> settle_db cx d r final fee clamp meta"
  shows "reservations D = reservations (resolve_reservation d (rv_id r) Settled final)"
    "postings D = postings d" "next_entry D = next_entry d" "acct_balances D = acct_balances d"
    "agents D = agents d" "agent_keys D = agent_keys d" "claims D = claims d"
    "settlements D = settlements d" "workspaces D = workspaces d" "subbudgets D = subbudgets d"
    "rules D = rules d" "boosts D = boosts d"
  by (simp_all add: D_def settle_db_def Let_def)

lemma held_sum_cong: "reservations d' = reservations d \<Longrightarrow> held_sum d' v = held_sum d v"
  by (simp add: held_sum_def)

lemma settle_held [view_simps]:
  assumes "holds_ok d" and "find_reservation d i = Some r" and "rv_status r = Held"
  shows "held_sum (settle_db cx d r final fee clamp meta) v =
    held_sum d v - (if v = rv_ws r then rv_held r else 0)"
proof -
  have "held_sum (settle_db cx d r final fee clamp meta) v =
      held_sum (resolve_reservation d (rv_id r) Settled final) v"
    by (rule held_sum_cong) simp
  then show ?thesis
    using held_sum_resolve [OF assms(1,2,3), of Settled final v] find_reservation_D(1) [OF assms(2)] by simp
qed

lemma settle_test_nonneg: "0 \<le> test_of d v \<Longrightarrow> 0 \<le> test_of (settle_db cx d r final fee clamp meta) v"
  by (auto simp: settle_db_def Let_def view_simps clamp_nonneg)

text \<open>What is charged, with its fee, is within the hold.\<close>

lemma settle_cut_fits:
  assumes "settle_cut r final0 meta = (clamp, final)" and "0 \<le> final0" and "0 \<le> rv_bps r" and "0 \<le> rv_held r"
  shows "0 \<le> final" and "final + platform_fee final (rv_bps r) \<le> rv_held r"
    and "final = min final0 (spend_within (rv_held r) (rv_bps r))"
    and "final + hc_written_off clamp = final0"
proof -
  have w: "0 \<le> spend_within (rv_held r) (rv_bps r)" using assms(3) by (rule spend_within_nonneg)
  show f: "final = min final0 (spend_within (rv_held r) (rv_bps r))"
    using assms(1) by (auto simp: settle_cut_def Let_def split: if_splits)
  show "0 \<le> final" using f w assms(2) by simp
  show "final + platform_fee final (rv_bps r) \<le> rv_held r"
    unfolding f by (rule plan_fee.clamp_fits) (use assms in simp_all)
  show "final + hc_written_off clamp = final0"
    using assms(1) by (auto simp: settle_cut_def no_cut_def Let_def split: if_splits)
qed

definition settle_paid :: "ctx \<Rightarrow> db \<Rightarrow> reservation \<Rightarrow> int \<Rightarrow> int \<Rightarrow> hold_cut \<Rightarrow> debit_meta \<Rightarrow> db" where
  "settle_paid cx d r final fee clamp meta =
     (let w = rv_ws r; released = bal_of d w + rv_held r;
          u = cash_used (cash_of d w) released final;
          d' = take_cash (settle_db cx d r final fee clamp meta) w u;
          d' = take_cash d' w (cash_used (cash_of d w - u) (released - final) fee)
      in add_subbudget_spent d' (rv_key r) (- (rv_held r - final - fee)))"

lemma settle_open:
  assumes pool: "st_pool s" and r: "find_reservation d i = Some r" "rv_status r = Held" and i: "i \<noteq> ''''"
    and cut: "settle_cut r (max 0 delivered) meta = (clamp, final)" and fee: "fee = platform_fee final (rv_bps r)"
  shows "settle_lxc_reservation s cx d i delivered meta =
    rbind (lock_key_and_agent d (rv_key r)) (\<lambda>_.
    rbind (consume_cash_backed (settle_db cx d r final fee clamp meta) (rv_ws r)
        (bal_of d (rv_ws r) + rv_held r) final) (\<lambda>(e, cash).
    rbind (consume_cash_backed e (rv_ws r) (bal_of d (rv_ws r) + rv_held r - final) fee) (\<lambda>(e, _).
      let cash = royalty_backed e (rv_ws r) final cash
      in rbind (agent_movement s cx (add_subbudget_spent e (rv_key r) (- (rv_held r - final - fee)))
           (rv_key r) (- (rv_held r - final - fee + fee)) PkSettle i (text_of (rv_model r))) (\<lambda>(e, _).
         rbind (post_agent_fee cx e (rv_key r) fee (rv_bps r) i (text_of (rv_model r))) (\<lambda>e.
           Inr (e, \<lparr>sr_settled = final, sr_cash_backed = cash, sr_cut = clamp\<rparr>))))))"
proof -
  have max: "(if delivered < 0 then 0 else delivered) = max 0 delivered" by simp
  note id = find_reservation_D(1) [OF r(1)]
  show ?thesis
    unfolding settle_lxc_reservation_def settle_db_def
    by (simp only: max pool r i cut fee id Let_def option.case prod.case read_lxc_balance_eq
        if_False if_True not_True_eq_False simp_thms)
qed

lemma settle_InrD:
  assumes s: "settle_lxc_reservation s cx d i delivered meta = Inr (d', res)" and pool: "st_pool s"
    and r: "find_reservation d i = Some r" "rv_status r = Held"
    and cut: "settle_cut r (max 0 delivered) meta = (clamp, final)" and fee: "fee = platform_fee final (rv_bps r)"
    and cash: "0 \<le> cash_of d (rv_ws r)" and final: "0 \<le> final"
  shows "\<exists>m is_agent.
      agent_movement_fee s cx (settle_paid cx d r final fee clamp meta) (rv_key r) (- (rv_held r - final))
        0 0 PkSettle i (text_of (rv_model r)) = Inr (m, is_agent) \<and>
      post_agent_fee cx m (rv_key r) fee (rv_bps r) i (text_of (rv_model r)) = Inr d'"
    and "sr_settled res = final" "sr_cut res = clamp" "i \<noteq> ''''"
proof -
  show i: "i \<noteq> ''''" using s by (auto simp: settle_lxc_reservation_def)
  define D where "D = settle_db cx d r final fee clamp meta"
  define u where "u = cash_used (cash_of d (rv_ws r)) (bal_of d (rv_ws r) + rv_held r) final"
  have u: "0 \<le> u" "u \<le> cash_of d (rv_ws r)" using cash_used_range cash by (simp_all add: u_def)
  have c: "cash_of D (rv_ws r) = cash_of d (rv_ws r)" "has_row D (rv_ws r)"
    using final by (simp_all add: D_def view_simps)
  have c1: "cash_of (take_cash D (rv_ws r) u) (rv_ws r) = cash_of d (rv_ws r) - u"
    using c u by (simp add: view_simps)
  note open' = settle_open [OF pool r i cut fee, where cx = cx, folded D_def]
  show "\<exists>m is_agent.
      agent_movement_fee s cx (settle_paid cx d r final fee clamp meta) (rv_key r) (- (rv_held r - final))
        0 0 PkSettle i (text_of (rv_model r)) = Inr (m, is_agent) \<and>
      post_agent_fee cx m (rv_key r) fee (rv_bps r) i (text_of (rv_model r)) = Inr d'"
    and "sr_settled res = final" "sr_cut res = clamp"
    using s c c1 unfolding open'
    by (auto simp: Let_def agent_movement_def settle_paid_def consume_cash_backed_eq
        D_def [symmetric] u_def [symmetric])
qed

lemma post_agent_fee_eq:
  "post_agent_fee cx d key fee bps ref model = Inr
     (case agent_of_key d key of None \<Rightarrow> d
      | Some (a, w) \<Rightarrow> if fee = 0 then d
          else posted_db cx d w PkFee ref (null_if_empty (model_cap_key model)) (Some bps)
            [(AgentAcc a, - fee), (SpendAcc, fee)])"
  by (auto simp: post_agent_fee_def post_fee_entry_eq split: option.split)

lemma take_cash_slack:
  assumes b: "books_slack k d" and u: "0 \<le> u" "u \<le> cash_of d w" "has_row d w"
  shows "books_slack k (take_cash d w u)" (is "books_slack k ?e")
proof -
  have "books_slack (\<lambda>v. k v - (bal_of ?e v - bal_of d v)) ?e"
    using slackD [OF b] u by (intro slack_wallet [OF b]) (simp_all add: view_simps holds_ok_def)
  then show ?thesis by (rule slack_cong) (simp add: view_simps)
qed

text \<open>The two takings of backing, as one.\<close>

definition cash_after :: "int \<Rightarrow> int \<Rightarrow> int \<Rightarrow> int" where
  "cash_after cash before spend = cash - cash_used cash before spend"

lemma settle_paid_views [view_simps]:
  fixes cx d r final fee clamp meta
  defines "P \<equiv> settle_paid cx d r final fee clamp meta"
  assumes cash: "0 \<le> cash_of d (rv_ws r)" and final: "0 \<le> final" and fee: "0 \<le> fee"
  shows "bal_of P v = bal_of d v + (if v = rv_ws r then rv_held r - final - fee else 0)"
    and "cash_of P v = (if v = rv_ws r
      then cash_after (cash_of d v) (bal_of d v + rv_held r) (final + fee) else cash_of d v)"
    and "account_balance P v c = account_balance d v c" and "allocated P v = allocated d v"
    and "held_sum P v = held_sum (settle_db cx d r final fee clamp meta) v"
proof -
  define D where "D = settle_db cx d r final fee clamp meta"
  define u where "u = cash_used (cash_of d (rv_ws r)) (bal_of d (rv_ws r) + rv_held r) final"
  define t where "t = cash_used (cash_of d (rv_ws r) - u) (bal_of d (rv_ws r) + rv_held r - final) fee"
  have P: "P = add_subbudget_spent (take_cash (take_cash D (rv_ws r) u) (rv_ws r) t) (rv_key r)
      (- (rv_held r - final - fee))"
    by (simp add: P_def settle_paid_def Let_def D_def u_def t_def)
  have u: "0 \<le> u" "u \<le> cash_of d (rv_ws r)" using cash_used_range cash by (simp_all add: u_def)
  have t: "0 \<le> t" "t \<le> cash_of d (rv_ws r) - u" using cash_used_range u by (simp_all add: t_def)
  have ut: "u + t = cash_used (cash_of d (rv_ws r)) (bal_of d (rv_ws r) + rv_held r) (final + fee)"
    using cash_used_add [OF cash final fee] by (simp add: u_def t_def)
  show "bal_of P v = bal_of d v + (if v = rv_ws r then rv_held r - final - fee else 0)"
    "held_sum P v = held_sum (settle_db cx d r final fee clamp meta) v"
    using final by (simp_all add: P view_simps D_def)
  show "account_balance P v c = account_balance d v c" "allocated P v = allocated d v"
    using final agent_views_cong [of P D]
    by (simp_all add: P view_simps D_def take_cash_def)
  show "cash_of P v = (if v = rv_ws r
      then cash_after (cash_of d v) (bal_of d v + rv_held r) (final + fee) else cash_of d v)"
    using u t ut final by (auto simp: P view_simps D_def cash_after_def)
qed

lemma settle_paid_slack:
  assumes b: "books d" and r: "find_reservation d i = Some r" "rv_status r = Held"
    and final: "0 \<le> final" and fee: "0 \<le> fee"
  shows "books_slack (room_for (rv_ws r) (rv_held r - final - fee)) (settle_paid cx d r final fee clamp meta)"
proof -
  let ?D = "settle_db cx d r final fee clamp meta" and ?w = "rv_ws r"
  define u where "u = cash_used (cash_of d ?w) (bal_of d ?w + rv_held r) final"
  define t where "t = cash_used (cash_of d ?w - u) (bal_of d ?w + rv_held r - final) fee"
  have u: "0 \<le> u" "u \<le> cash_of d ?w" using cash_used_range booksD(6) [OF b] by (simp_all add: u_def)
  have t: "0 \<le> t" "t \<le> cash_of d ?w - u" using cash_used_range u by (simp_all add: t_def)
  have "holds_ok ?D"
    using holds_ok_resolve [OF booksD(1) [OF b]] by (simp add: holds_ok_def)
  then have "books_slack (\<lambda>v. 0 - (bal_of ?D v - bal_of d v)) ?D"
    using b booksD [OF b] final
    by (intro slack_wallet) (simp_all add: books_slack_0 view_simps settle_test_nonneg)
  then have D: "books_slack (room_for ?w (rv_held r - final - fee)) ?D"
    using final by (elim slack_cong) (simp add: view_simps room_for_def)
  have D1: "books_slack (room_for ?w (rv_held r - final - fee)) (take_cash ?D ?w u)"
    using u final by (intro take_cash_slack [OF D]) (simp_all add: view_simps)
  have "books_slack (room_for ?w (rv_held r - final - fee)) (take_cash (take_cash ?D ?w u) ?w t)"
    using u t final by (intro take_cash_slack [OF D1]) (simp_all add: view_simps)
  then show ?thesis
    unfolding settle_paid_def Let_def u_def t_def
    by (rule slack_same_money [OF subbudget_money(2)])
qed

text \<open>The rest goes back to whoever holds the key, the fee out of it.\<close>

lemma return_slack:
  assumes b: "books_slack (room_for w (back - fee)) d" and home: "key_home d key w"
    and fee: "0 \<le> fee" "fee \<le> back"
    and m: "agent_movement_fee s cx d key (- back) 0 0 kind i model = Inr (m, is_agent)"
    and p: "post_agent_fee cx m key fee bps i model = Inr d'"
  shows "books d'"
proof -
  have m': "books_slack (\<lambda>v. room_for w (back - fee) v - (case agent_of_key d key of
      None \<Rightarrow> 0 | Some (a, u) \<Rightarrow> if v = u then - back + 0 else 0)) m"
    using fee by (intro movement_slack [OF b _ m]) simp_all
  show ?thesis
  proof (cases "agent_of_key d key")
    case None
    then have "agent_of_key m key = None" using movement_moves(1) [OF m] by (simp add: moves_only_agents)
    then have "d' = m" using p by (simp add: post_agent_fee_eq)
    then show ?thesis using None fee slack_books [OF m'] by (simp add: room_for_def)
  next
    case (Some aw)
    obtain a where aw: "aw = (a, w)" using home Some by (cases aw) (simp add: key_home_def)
    have sl: "books_slack (\<lambda>v. if v = w then fee else 0) m"
      using m' by (rule slack_cong) (simp add: Some aw room_for_def)
    have key: "agent_of_key m key = Some (a, w)"
      using movement_moves(1) [OF m] Some aw by (simp add: moves_only_agents)
    show ?thesis
    proof (cases "fee = 0")
      case True
      then show ?thesis using p key sl by (auto simp: post_agent_fee_eq intro: slack_books)
    next
      case False
      have "m = moved_db cx d w a (- back) 0 0 kind i model"
        using movement_InrD [OF m] Some aw fee False by simp
      then have "fee \<le> account_balance m w (AgentAcc a)"
        using accounts_okD [OF slackD(3) [OF b], of "AgentAcc a" w] fee by (simp add: view_simps)
      then have "books_slack ((\<lambda>v. if v = w then fee else 0)(w := fee + legs_allocated [(AgentAcc a, - fee), (SpendAcc, fee)])) d'"
        using p key False accounts_okD [OF slackD(3) [OF sl]] slack_posted [OF sl, of "[(AgentAcc a, - fee), (SpendAcc, fee)]" w]
        by (fastforce simp: post_agent_fee_eq)
      then show ?thesis by (rule slack_books) simp
    qed
  qed
qed

lemma backed_moves:
  assumes "moves_only d d'" and "\<And>v. bal_of d v \<le> bal_of d' v" and "backed x d"
  shows "backed x d'"
proof (rule backedI)
  fix v
  show "0 \<le> cash_of d' v \<and> cash_of d' v \<le> bal_of d' v + held_sum d' v + x v"
    using backedD [OF assms(3), of v] assms(2) [of v] assms(1) by (simp add: moves_only_def)
qed

lemma post_agent_fee_moves:
  assumes "post_agent_fee cx d key fee bps i model = Inr d'"
  shows "moves_only d d'" and "bal_of d' v = bal_of d v"
  using assms by (auto simp: post_agent_fee_eq view_simps split: option.split)

lemma cash_after_within:
  assumes "0 \<le> cash" and "cash \<le> before + open'" and "0 \<le> open'" and "0 \<le> spend" and "spend \<le> before + open'"
  shows "0 \<le> cash_after cash before spend" and "cash_after cash before spend \<le> before - spend + open'"
  unfolding cash_after_def
  using cash_used_range(2) [OF assms(1), of before spend] cash_used_within [OF assms(1,2,3,5,4)] by simp_all

lemma settle_keeps_books [keeps]:
  assumes b: "books d" and pool: "st_pool s"
    and home: "\<And>r. find_reservation d i = Some r \<Longrightarrow> key_home d (rv_key r) (rv_ws r)"
    and s: "settle_lxc_reservation s cx d i delivered meta = Inr (d', res)"
  shows "books d'" and "backed x d \<Longrightarrow> (\<And>v. 0 \<le> x v) \<Longrightarrow> backed x d'"
proof -
  consider "d' = d" | r where "find_reservation d i = Some r" "rv_status r = Held"
    using s pool by (auto simp: settle_lxc_reservation_def Let_def split: if_splits option.splits)
  note c = this
  have main: "books d' \<and> (backed x d \<longrightarrow> (\<forall>v. 0 \<le> x v) \<longrightarrow> backed x d')"
    if r: "find_reservation d i = Some r" "rv_status r = Held" for r
  proof -
    have ok: "0 \<le> rv_held r" "0 \<le> rv_bps r"
      using booksD(1) [OF b] find_reservation_D(2) [OF r(1)] by (auto simp: holds_ok_def list_all_iff)
    obtain clamp final where cut: "settle_cut r (max 0 delivered) meta = (clamp, final)" by fastforce
    note fits = settle_cut_fits [OF cut _ ok(2,1)]
    define fee where "fee = platform_fee final (rv_bps r)"
    have fee: "0 \<le> fee" "final + fee \<le> rv_held r" "0 \<le> final"
      using fits by (simp_all add: fee_def platform_fee_nonneg)
    let ?P = "settle_paid cx d r final fee clamp meta"
    obtain m is_agent where
      m: "agent_movement_fee s cx ?P (rv_key r) (- (rv_held r - final)) 0 0 PkSettle i (text_of (rv_model r)) = Inr (m, is_agent)"
      and p: "post_agent_fee cx m (rv_key r) fee (rv_bps r) i (text_of (rv_model r)) = Inr d'"
      using settle_InrD(1) [OF s pool r cut fee_def booksD(6) [OF b] fee(3)] by blast
    have sl: "books_slack (room_for (rv_ws r) ((rv_held r - final) - fee)) ?P"
      using settle_paid_slack [OF b r fee(3,1)] by simp
    have "agent_of_key ?P (rv_key r) = agent_of_key d (rv_key r)"
      by (rule agent_of_key_cong) (simp_all add: settle_paid_def Let_def)
    then have home': "key_home ?P (rv_key r) (rv_ws r)" using home [OF r(1)] by (simp add: key_home_def)
    have books': "books d'"
      using fee by (intro return_slack [OF sl home' _ _ m p]) simp_all
    moreover have "backed x d'" if x: "backed x d" "\<forall>v. 0 \<le> x v"
    proof (rule backed_moves [OF moves_only_trans [OF movement_moves(1) [OF m] post_agent_fee_moves(1) [OF p]]])
      show "bal_of ?P v \<le> bal_of d' v" for v
        using movement_moves(2) [OF m, of v] post_agent_fee_moves(2) [OF p, of v] by simp
      show "backed x ?P"
      proof (rule backedI)
        fix v
        have held: "0 \<le> held_sum d v - (if v = rv_ws r then rv_held r else 0)"
          using held_sum_nonneg [OF holds_ok_resolve [OF booksD(1) [OF b]], of i Settled 0 v]
            held_sum_resolve [OF booksD(1) [OF b] r, of Settled 0 v] by simp
        have bal: "0 \<le> bal_of d v" using booksD(5,8) [OF b, of v] by simp
        show "0 \<le> cash_of ?P v \<and> cash_of ?P v \<le> bal_of ?P v + held_sum ?P v + x v"
          using backedD [OF x(1), of v] x(2) [rule_format, of v] held bal fee booksD(6) [OF b]
            cash_after_within [of "cash_of d v" "bal_of d v + rv_held r" "held_sum d v - rv_held r + x v" "final + fee"]
            settle_held [OF booksD(1) [OF b] r]
          by (cases "v = rv_ws r") (auto simp: view_simps)
      qed
    qed
    ultimately show ?thesis by simp
  qed
  show "books d'" using c main b by cases auto
  show "backed x d'" if "backed x d" "\<And>v. 0 \<le> x v" using c main that by cases auto
qed

subsection \<open>What a settle does\<close>

lemma return_effect:
  assumes home: "key_home d key w" and fee: "0 \<le> fee" "fee \<le> back"
    and m: "agent_movement_fee s cx d key (- back) 0 0 kind i model = Inr (m, is_agent)"
    and p: "post_agent_fee cx m key fee bps i model = Inr d'"
  shows "agent_of_key d key = Some (a, w) \<Longrightarrow>
    account_balance d' w (AgentAcc a) = account_balance d w (AgentAcc a) + (back - fee)"
    and "reservations d' = reservations d" "subbudgets d' = subbudgets d"
    and "bal_of d' v = bal_of d v" "cash_of d' v = cash_of d v" "held_sum d' v = held_sum d v"
    and "claims d' = claims d" "settlements d' = settlements d"
proof -
  note mv = moves_only_trans [OF movement_moves(1) [OF m] post_agent_fee_moves(1) [OF p]]
  then show "reservations d' = reservations d" "subbudgets d' = subbudgets d" "cash_of d' v = cash_of d v"
    "held_sum d' v = held_sum d v" "claims d' = claims d" "settlements d' = settlements d"
    by (simp_all add: moves_only_def)
  show "bal_of d' v = bal_of d v"
    using movement_moves(3) [OF m, of v] post_agent_fee_moves(2) [OF p, of v] fee by simp
  assume key: "agent_of_key d key = Some (a, w)"
  have m': "m = moved_db cx d w a (- back) 0 0 kind i model"
    using movement_InrD [OF m] key fee by (auto split: if_splits)
  have "agent_of_key m key = Some (a, w)"
    using movement_moves(1) [OF m] key by (simp add: moves_only_agents)
  then show "account_balance d' w (AgentAcc a) = account_balance d w (AgentAcc a) + (back - fee)"
    using p by (auto simp: post_agent_fee_eq m' view_simps)
qed

lemma settle_effect:
  assumes b: "books d" and pool: "st_pool s" and r: "find_reservation d i = Some r" "rv_status r = Held"
    and home: "key_home d (rv_key r) (rv_ws r)"
    and s: "settle_lxc_reservation s cx d i delivered meta = Inr (d', res)"
  shows "\<exists>fee. fee = platform_fee (sr_settled res) (rv_bps r) \<and>
    sr_settled res = min (max 0 delivered) (spend_within (rv_held r) (rv_bps r)) \<and>
    sr_settled res + hc_written_off (sr_cut res) = max 0 delivered \<and>
    sr_settled res + fee \<le> rv_held r \<and>
    bal_of d' (rv_ws r) = bal_of d (rv_ws r) + (rv_held r - sr_settled res - fee) \<and>
    held_sum d' (rv_ws r) = held_sum d (rv_ws r) - rv_held r \<and>
    (\<forall>v. v \<noteq> rv_ws r \<longrightarrow> bal_of d' v = bal_of d v \<and> held_sum d' v = held_sum d v) \<and>
    find_reservation d' i = Some (r\<lparr>rv_status := Settled, rv_settled := Some (sr_settled res)\<rparr>) \<and>
    (\<forall>a. agent_of_key d (rv_key r) = Some (a, rv_ws r) \<longrightarrow>
       account_balance d' (rv_ws r) (AgentAcc a) =
         account_balance d (rv_ws r) (AgentAcc a) + (rv_held r - sr_settled res - fee))"
proof -
  have ok: "0 \<le> rv_held r" "0 \<le> rv_bps r"
    using booksD(1) [OF b] find_reservation_D(2) [OF r(1)] by (auto simp: holds_ok_def list_all_iff)
  obtain clamp final where cut: "settle_cut r (max 0 delivered) meta = (clamp, final)" by fastforce
  note fits = settle_cut_fits [OF cut _ ok(2,1)]
  define fee where "fee = platform_fee final (rv_bps r)"
  have fee: "0 \<le> fee" "final + fee \<le> rv_held r" "0 \<le> final"
    using fits by (simp_all add: fee_def platform_fee_nonneg)
  note D = settle_InrD [OF s pool r cut fee_def booksD(6) [OF b] fee(3)]
  let ?P = "settle_paid cx d r final fee clamp meta"
  obtain m is_agent where
    m: "agent_movement_fee s cx ?P (rv_key r) (- (rv_held r - final)) 0 0 PkSettle i (text_of (rv_model r)) = Inr (m, is_agent)"
    and p: "post_agent_fee cx m (rv_key r) fee (rv_bps r) i (text_of (rv_model r)) = Inr d'"
    using D(1) by blast
  have key: "agent_of_key ?P (rv_key r) = agent_of_key d (rv_key r)"
    by (rule agent_of_key_cong) (simp_all add: settle_paid_def Let_def)
  then have "key_home ?P (rv_key r) (rv_ws r)" using home by (simp add: key_home_def)
  note R = return_effect [OF this fee(1) _ m p]
  have rs: "reservations d' = reservations (resolve_reservation d (rv_id r) Settled final)"
    using R(2) fee by (simp add: settle_paid_def Let_def)
  define f where "f = (\<lambda>q :: reservation. if rv_id q = i
    then q\<lparr>rv_status := Settled, rv_settled := Some final\<rparr> else q)"
  have "find (\<lambda>q. rv_id q = i) (map f rs) = map_option f (find (\<lambda>q. rv_id q = i) rs)" for rs
    by (induction rs) (auto simp: f_def)
  then have "find_reservation d' i = Some (r\<lparr>rv_status := Settled, rv_settled := Some final\<rparr>)"
    using r find_reservation_D(1) [OF r(1)] rs by (simp add: find_reservation_def f_def)
  moreover have "bal_of d' v = bal_of d v + (if v = rv_ws r then rv_held r - final - fee else 0)" for v
    using R(4) [of v] fee booksD(6) [OF b] by (simp add: view_simps)
  moreover have "held_sum d' v = held_sum d v - (if v = rv_ws r then rv_held r else 0)" for v
    using R(6) [of v] fee booksD(6) [OF b] settle_held [OF booksD(1) [OF b] r]
    by (simp add: view_simps)
  moreover have "account_balance d' (rv_ws r) (AgentAcc a) =
      account_balance d (rv_ws r) (AgentAcc a) + (rv_held r - final - fee)"
    if "agent_of_key d (rv_key r) = Some (a, rv_ws r)" for a
    using R(1) [of a] that key fee booksD(6) [OF b] by (simp add: view_simps)
  ultimately show ?thesis
    using fits(3,4) fee(2) D(2,3) by (intro exI [of _ fee]) (simp add: fee_def)
qed

end
