(* ===== verification/Hold_Release.thy ===== *)
theory Hold_Release
  imports Hold_Books
begin

section \<open>Releases, the sweep, and holds sent again\<close>

text \<open>
  The release in closed form and what it keeps; that a hold is resolved once, by a settle or
  a release, and always can be; that a hold which is released leaves every balance where it
  was; and the sweep of the holds a crash left open.
\<close>

subsection \<open>The release\<close>

definition release_db :: "ctx \<Rightarrow> db \<Rightarrow> reservation \<Rightarrow> string \<Rightarrow> db" where
  "release_db cx d r reason =
     (let w = rv_ws r; held = rv_held r; model = text_of (rv_model r); request = text_of (rv_request r);
          released = bal_of d w + held;
          desc = (if reason \<noteq> '''' then ''reservation release: '' @ reason
                  else ''reservation release (full refund)'');
          d' = insert_lxc_ledger cx (ensure_lxc_row d w) w held released ReservationRelease desc
                 (to_map (no_meta\<lparr>dm_requested := model, dm_request := request\<rparr>));
          d' = resolve_reservation d' (rv_id r) Released 0;
          d' = write_lxc_balance d' w released (minted_of d w) (spent_of d w - held)
      in add_subbudget_spent d' (rv_key r) (- held))"

lemma release_open:
  assumes pool: "st_pool s" and r: "find_reservation d i = Some r" "rv_status r = Held" and i: "i \<noteq> ''''"
  shows "release_lxc_reservation s cx d i reason =
    rbind (lock_key_and_agent d (rv_key r)) (\<lambda>_.
    rbind (agent_movement s cx (release_db cx d r reason) (rv_key r) (- rv_held r) PkRelease i
      (text_of (rv_model r))) (\<lambda>(d, _). Inr d))"
  unfolding release_lxc_reservation_def release_db_def
  by (simp only: pool r i find_reservation_D(1) [OF r(1)] Let_def option.case prod.case read_lxc_balance_eq
      if_False if_True not_True_eq_False simp_thms)

lemma release_views [view_simps]:
  fixes cx d r reason
  defines "D \<equiv> release_db cx d r reason"
  shows "bal_of D v = bal_of d v + (if v = rv_ws r then rv_held r else 0)"
    and "ledger_sum D v = ledger_sum d v + (if v = rv_ws r then rv_held r else 0)"
    and "cash_of D v = cash_of d v" "allocated D v = allocated d v"
    and "account_balance D v c = account_balance d v c"
  by (auto simp: D_def release_db_def Let_def view_simps)

lemma release_frame [simp]:
  fixes cx d r reason
  defines "D \<equiv> release_db cx d r reason"
  shows "reservations D = reservations (resolve_reservation d (rv_id r) Released 0)"
    "postings D = postings d" "agents D = agents d" "agent_keys D = agent_keys d"
    "claims D = claims d" "settlements D = settlements d"
  by (simp_all add: D_def release_db_def Let_def)

lemma release_held [view_simps]:
  assumes "holds_ok d" and "find_reservation d i = Some r" and "rv_status r = Held"
  shows "held_sum (release_db cx d r reason) v = held_sum d v - (if v = rv_ws r then rv_held r else 0)"
proof -
  have "held_sum (release_db cx d r reason) v = held_sum (resolve_reservation d (rv_id r) Released 0) v"
    by (rule held_sum_cong) simp
  then show ?thesis
    using held_sum_resolve [OF assms(1,2,3), of Released 0 v] find_reservation_D(1) [OF assms(2)] by simp
qed

lemma release_slack:
  assumes b: "books d" and r: "find_reservation d i = Some r" "rv_status r = Held"
  shows "books_slack (room_for (rv_ws r) (rv_held r)) (release_db cx d r reason)"
proof -
  let ?D = "release_db cx d r reason"
  have t: "0 \<le> test_of ?D v" for v
    using booksD(7) [OF b, of v] by (auto simp: release_db_def Let_def view_simps clamp_nonneg)
  have "holds_ok ?D" using holds_ok_resolve [OF booksD(1) [OF b]] by (simp add: holds_ok_def)
  then have "books_slack (\<lambda>v. 0 - (bal_of ?D v - bal_of d v)) ?D"
    using b booksD [OF b] t
    by (intro slack_wallet) (simp_all add: books_slack_0 view_simps, simp_all add: release_db_def Let_def
        add_subbudget_spent_def split: option.split)
  then show ?thesis by (rule slack_cong) (simp add: view_simps room_for_def)
qed

lemma release_InrD:
  assumes s: "release_lxc_reservation s cx d i reason = Inr d'" and pool: "st_pool s"
  obtains "d' = d" | r is_agent where "find_reservation d i = Some r" "rv_status r = Held"
    "agent_movement_fee s cx (release_db cx d r reason) (rv_key r) (- rv_held r) 0 0 PkRelease i
      (text_of (rv_model r)) = Inr (d', is_agent)" "i \<noteq> ''''"
proof -
  have i: "i \<noteq> ''''" using s by (auto simp: release_lxc_reservation_def)
  consider "d' = d" | r where "find_reservation d i = Some r" "rv_status r = Held"
    using s pool by (auto simp: release_lxc_reservation_def Let_def split: if_splits option.splits)
  then show thesis
  proof cases
    case 2
    then show thesis using s that(2) i by (auto simp: release_open [OF pool 2 i] agent_movement_def)
  qed (rule that(1))
qed

lemma release_keeps_books [keeps]:
  assumes b: "books d" and pool: "st_pool s"
    and home: "\<And>r. find_reservation d i = Some r \<Longrightarrow> key_home d (rv_key r) (rv_ws r)"
    and s: "release_lxc_reservation s cx d i reason = Inr d'"
  shows "books d'" and "backed x d \<Longrightarrow> backed x d'"
proof -
  have main: "books d' \<and> (backed x d \<longrightarrow> backed x d')"
    using s pool
  proof (cases rule: release_InrD)
    case (2 r is_agent)
    let ?D = "release_db cx d r reason"
    have held: "0 \<le> rv_held r"
      using booksD(1) [OF b] find_reservation_D(2) [OF 2(1)] by (auto simp: holds_ok_def list_all_iff)
    have "agent_of_key ?D (rv_key r) = agent_of_key d (rv_key r)" by (rule agent_of_key_cong) simp_all
    then have key: "key_home ?D (rv_key r) (rv_ws r)" using home [OF 2(1)] by (simp add: key_home_def)
    have "books d'"
      using release_slack [OF b 2(1,2)] held
      by (intro return_slack [where fee = 0, OF _ key _ _ 2(3)]) (simp_all add: post_agent_fee_def)
    moreover have "backed x ?D" if "backed x d"
      using backedD [OF that] by (intro backedI) (simp add: view_simps release_held [OF booksD(1) [OF b] 2(1,2)])
    ultimately show ?thesis using backed_moves movement_moves(1,2) [OF 2(3)] by blast
  qed (use b in simp)
  then show "books d'" "backed x d \<Longrightarrow> backed x d'" by simp_all
qed

subsection \<open>A hold is resolved once, and always can be\<close>

definition resolved :: "db \<Rightarrow> string \<Rightarrow> bool" where
  "resolved d i \<longleftrightarrow> (\<exists>r. find_reservation d i = Some r \<and> rv_status r \<noteq> Held)"

lemma resolved_cong: "reservations d' = reservations d \<Longrightarrow> resolved d' i = resolved d i"
  by (simp add: resolved_def find_reservation_def)

lemma resolved_resolve:
  assumes "find_reservation d i = Some r" and "st \<noteq> Held"
  shows "resolved (resolve_reservation d i st x) i"
proof -
  define f where "f = (\<lambda>q :: reservation. if rv_id q = i
    then q\<lparr>rv_status := st, rv_settled := Some x\<rparr> else q)"
  have "find (\<lambda>q. rv_id q = i) (map f rs) = map_option f (find (\<lambda>q. rv_id q = i) rs)" for rs
    by (induction rs) (auto simp: f_def)
  then show ?thesis
    using assms find_reservation_D(1) [OF assms(1)] by (simp add: resolved_def find_reservation_def f_def)
qed

lemma consume_frame:
  "consume_cash_backed d w before spend = Inr (d', u) \<Longrightarrow>
     reservations d' = reservations d \<and> claims d' = claims d \<and> settlements d' = settlements d"
  by (auto simp: consume_cash_backed_def Let_def split: if_splits)

definition run_settle :: "store \<Rightarrow> ctx \<Rightarrow> string \<Rightarrow> int \<Rightarrow> debit_meta \<Rightarrow> db \<Rightarrow> err + db" where
  "run_settle s cx i delivered meta d = rbind (settle_lxc_reservation s cx d i delivered meta) (\<lambda>(d, _). Inr d)"

definition hold_resolved :: "store \<Rightarrow> string \<Rightarrow> db \<Rightarrow> bool" where
  "hold_resolved s i d \<longleftrightarrow> i \<noteq> '''' \<and> (st_pool s \<longrightarrow> resolved d i)"

lemma settle_resolves:
  assumes s: "settle_lxc_reservation s cx d i delivered meta = Inr (d', res)" and pool: "st_pool s"
  shows "resolved d' i"
proof -
  have i: "i \<noteq> ''''" using s by (auto simp: settle_lxc_reservation_def)
  consider "d' = d" "resolved d i" | r where "find_reservation d i = Some r" "rv_status r = Held"
    using s pool by (auto simp: settle_lxc_reservation_def resolved_def Let_def split: if_splits option.splits)
  then show ?thesis
  proof cases
    case (2 r)
    obtain clamp final where cut: "settle_cut r (max 0 delivered) meta = (clamp, final)" by fastforce
    define fee where "fee = platform_fee final (rv_bps r)"
    have "reservations d' = reservations (settle_db cx d r final fee clamp meta)"
      using s unfolding settle_open [OF pool 2 i cut fee_def]
      by (auto simp: Let_def agent_movement_def dest!: consume_frame movement_moves(1) post_agent_fee_moves(1))
        (simp add: moves_only_def)
    then show ?thesis
      using resolved_resolve [OF 2(1), of Settled final] find_reservation_D(1) [OF 2(1)]
      by (simp add: resolved_def find_reservation_def)
  qed simp
qed

interpretation settle: exactly_once "run_settle s cx i delivered meta" "hold_resolved s i" "\<lambda>_. True"
  for s cx i delivered meta
proof
  fix d d'
  assume "run_settle s cx i delivered meta d = Inr d'"
  then obtain res where s: "settle_lxc_reservation s cx d i delivered meta = Inr (d', res)"
    by (auto simp: run_settle_def)
  then show "hold_resolved s i d'"
    using settle_resolves [OF s] by (auto simp: hold_resolved_def settle_lxc_reservation_def)
next
  fix d
  assume "hold_resolved s i d"
  then show "run_settle s cx i delivered meta d = Inr d"
    by (auto simp: run_settle_def hold_resolved_def resolved_def settle_lxc_reservation_def Let_def)
qed

definition hold_gone :: "store \<Rightarrow> string \<Rightarrow> db \<Rightarrow> bool" where
  "hold_gone s i d \<longleftrightarrow> i \<noteq> '''' \<and>
     (st_pool s \<longrightarrow> (\<forall>r. find_reservation d i = Some r \<longrightarrow> rv_status r \<noteq> Held))"

definition run_release :: "store \<Rightarrow> ctx \<Rightarrow> string \<Rightarrow> string \<Rightarrow> db \<Rightarrow> err + db" where
  "run_release s cx i reason d = release_lxc_reservation s cx d i reason"

lemma release_resolves:
  assumes s: "release_lxc_reservation s cx d i reason = Inr d'"
  shows "hold_gone s i d'"
proof -
  have i: "i \<noteq> ''''" using s by (auto simp: release_lxc_reservation_def)
  have "\<forall>r. find_reservation d' i = Some r \<longrightarrow> rv_status r \<noteq> Held" if pool: "st_pool s"
  proof -
    consider "d' = d" "\<forall>r. find_reservation d i = Some r \<longrightarrow> rv_status r \<noteq> Held"
      | r where "find_reservation d i = Some r" "rv_status r = Held"
      using s pool i by (cases "find_reservation d i") (auto simp: release_lxc_reservation_def Let_def split: if_splits)
    then show ?thesis
    proof cases
      case (2 r)
      have "reservations d' = reservations (release_db cx d r reason)"
        using s unfolding release_open [OF pool 2 i]
        by (auto simp: agent_movement_def moves_only_def dest!: movement_moves(1))
      then have "resolved d' i"
        using resolved_resolve [OF 2(1), of Released 0] find_reservation_D(1) [OF 2(1)]
        by (simp add: resolved_def find_reservation_def)
      then show ?thesis by (auto simp: resolved_def)
    qed simp
  qed
  then show ?thesis using i by (simp add: hold_gone_def)
qed

interpretation release: exactly_once "run_release s cx i reason" "hold_gone s i" "\<lambda>_. True"
  for s cx i reason
proof
  show "run_release s cx i reason d = Inr d' \<Longrightarrow> hold_gone s i d'" for d d'
    by (simp add: run_release_def release_resolves)
  show "hold_gone s i d \<Longrightarrow> run_release s cx i reason d = Inr d" for d
    by (auto simp: run_release_def hold_gone_def release_lxc_reservation_def Let_def split: option.split)
qed

lemma lock_key_ok [simp]: "lock_key_and_agent d key = Inr ()"
  by (auto simp: lock_key_and_agent_def lock_agent_places agent_of_key_places split: option.split)

lemma agent_of_key_lock: "agent_of_key d key = Some (a, w) \<Longrightarrow> lock_agent d w a = Inr ()"
  by (auto simp: lock_agent_places agent_of_key_places split: option.splits)

lemma movement_back_eq:
  assumes "delta \<le> 0"
  shows "agent_movement_fee s cx d key delta 0 0 kind ref model = Inr
    (case agent_of_key d key of None \<Rightarrow> (d, False)
     | Some (a, w) \<Rightarrow> (moved_db cx d w a delta 0 0 kind ref model, True))"
  using assms
  by (auto simp: agent_movement_fee_def agent_of_key_lock post_model_entry_eq moved_db_def split: option.split)

text \<open>A settle of a known hold never fails, nor does a release.\<close>

lemma settle_succeeds:
  assumes pool: "st_pool s" and r: "find_reservation d i = Some r" and i: "i \<noteq> ''''"
    and ok: "0 \<le> rv_bps r" "0 \<le> rv_held r"
  shows "\<exists>d' res. settle_lxc_reservation s cx d i delivered meta = Inr (d', res)"
proof (cases "rv_status r = Held")
  case False
  then show ?thesis using pool r i by (simp add: settle_lxc_reservation_def)
next
  case True
  obtain clamp final where cut: "settle_cut r (max 0 delivered) meta = (clamp, final)" by fastforce
  define fee where "fee = platform_fee final (rv_bps r)"
  have final: "0 \<le> final" "final \<le> rv_held r"
    using settle_cut_fits [OF cut _ ok] platform_fee_nonneg [of final "rv_bps r"] by simp_all
  have row: "has_row (settle_db cx d r final fee clamp meta) (rv_ws r)" using final by (simp add: view_simps)
  show ?thesis
    unfolding settle_open [OF pool r True i cut fee_def]
    using row final by (simp add: consume_cash_backed_eq Let_def agent_movement_def post_agent_fee_eq
        movement_back_eq split: option.split)
qed

lemma release_succeeds:
  assumes "i \<noteq> ''''" and "\<And>r. find_reservation d i = Some r \<Longrightarrow> 0 \<le> rv_held r"
  shows "\<exists>d'. release_lxc_reservation s cx d i reason = Inr d'"
proof (cases "st_pool s \<and> (\<exists>r. find_reservation d i = Some r \<and> rv_status r = Held)")
  case True
  then obtain r where r: "st_pool s" "find_reservation d i = Some r" "rv_status r = Held" by blast
  show ?thesis
    unfolding release_open [OF r assms(1)]
    using assms(2) [OF r(2)] by (simp add: agent_movement_def movement_back_eq split: option.split)
next
  case False
  then show ?thesis using assms(1) by (auto simp: release_lxc_reservation_def Let_def split: option.split)
qed

lemma release_effect:
  assumes b: "books d" and pool: "st_pool s" and r: "find_reservation d i = Some r" "rv_status r = Held"
    and i: "i \<noteq> ''''" and home: "key_home d (rv_key r) (rv_ws r)"
    and s: "release_lxc_reservation s cx d i reason = Inr d'"
  shows "bal_of d' v = bal_of d v + (if v = rv_ws r then rv_held r else 0)"
    and "held_sum d' v = held_sum d v - (if v = rv_ws r then rv_held r else 0)"
    and "cash_of d' v = cash_of d v"
    and "reservations d' = reservations (resolve_reservation d i Released 0)"
    and "agent_of_key d (rv_key r) = Some (a, rv_ws r) \<Longrightarrow>
      account_balance d' (rv_ws r) (AgentAcc a) = account_balance d (rv_ws r) (AgentAcc a) + rv_held r"
proof -
  let ?D = "release_db cx d r reason"
  have held: "0 \<le> rv_held r"
    using booksD(1) [OF b] find_reservation_D(2) [OF r(1)] by (auto simp: holds_ok_def list_all_iff)
  obtain is_agent where m: "agent_movement_fee s cx ?D (rv_key r) (- rv_held r) 0 0 PkRelease i
      (text_of (rv_model r)) = Inr (d', is_agent)"
    using s unfolding release_open [OF pool r i] by (auto simp: agent_movement_def)
  have key: "agent_of_key ?D (rv_key r) = agent_of_key d (rv_key r)" by (rule agent_of_key_cong) simp_all
  then have home': "key_home ?D (rv_key r) (rv_ws r)" using home by (simp add: key_home_def)
  have p: "post_agent_fee cx d' (rv_key r) 0 0 i (text_of (rv_model r)) = Inr d'"
    by (simp add: post_agent_fee_def)
  note R = return_effect [OF home' order_refl held m p]
  show "bal_of d' v = bal_of d v + (if v = rv_ws r then rv_held r else 0)"
    "cash_of d' v = cash_of d v"
    using R(4,5) by (simp_all add: view_simps)
  show "held_sum d' v = held_sum d v - (if v = rv_ws r then rv_held r else 0)"
    using R(6) by (simp add: release_held [OF booksD(1) [OF b] r])
  show "reservations d' = reservations (resolve_reservation d i Released 0)"
    using R(2) find_reservation_D(1) [OF r(1)] by simp
  show "account_balance d' (rv_ws r) (AgentAcc a) = account_balance d (rv_ws r) (AgentAcc a) + rv_held r"
    if "agent_of_key d (rv_key r) = Some (a, rv_ws r)"
    using R(1) that key by (simp add: view_simps)
qed

subsection \<open>Holding and its exactly-once claim\<close>

definition run_hold ::
    "store \<Rightarrow> ctx \<Rightarrow> string \<Rightarrow> string \<Rightarrow> string \<Rightarrow> int \<Rightarrow> debit_meta \<Rightarrow> db \<Rightarrow> err + db" where
  "run_hold s cx key w i estimate meta d = reserve_lxc_for_agent s cx d key w i estimate meta"

definition hold_claimed :: "store \<Rightarrow> string \<Rightarrow> string \<Rightarrow> string \<Rightarrow> int \<Rightarrow> db \<Rightarrow> bool" where
  "hold_claimed s key w i estimate d \<longleftrightarrow> 0 < estimate \<and> key \<noteq> '''' \<and> w \<noteq> '''' \<and> i \<noteq> '''' \<and>
     (st_pool s \<longrightarrow> find_reservation d i \<noteq> None)"

definition fee_answers :: "store \<Rightarrow> string \<Rightarrow> db \<Rightarrow> bool" where
  "fee_answers s w d \<longleftrightarrow> (\<exists>bps. platform_fee_bps s d w = Inr bps)"

lemma reserve_row:
  assumes s: "reserve_lxc_for_agent s cx d key w i estimate meta = Inr d'" and pool: "st_pool s"
    and n: "find_reservation d i = None"
  shows "\<exists>bps. platform_fee_bps s d w = Inr bps \<and>
    reservations d' = reservations d @ [hold_row cx key w i (estimate + platform_fee estimate bps) bps meta]"
  using s pool
proof (cases rule: reserve_cases)
  case (fresh bps held m is_agent)
  then show ?thesis using movement_moves(1) [OF fresh(5)] by (simp add: moves_only_def)
qed (use n in simp)

lemma find_hold_row:
  "find_reservation d i = None \<Longrightarrow>
   find (\<lambda>r. rv_id r = i) (reservations d @ [hold_row cx key w i held bps meta]) =
     Some (hold_row cx key w i held bps meta)"
proof -
  have "find P rs = None \<Longrightarrow> find P (rs @ [r]) = (if P r then Some r else None)" for P rs and r :: reservation
    by (induction rs) (auto split: if_splits)
  then show "find_reservation d i = None \<Longrightarrow> ?thesis" by (simp add: find_reservation_def hold_row_def)
qed

interpretation hold: exactly_once
    "run_hold s cx key w i estimate meta" "hold_claimed s key w i estimate" "fee_answers s w"
  for s cx key w i estimate meta
proof
  fix d d'
  assume "run_hold s cx key w i estimate meta d = Inr d'"
  then have s: "reserve_lxc_for_agent s cx d key w i estimate meta = Inr d'" by (simp add: run_hold_def)
  have "find_reservation d' i \<noteq> None" if pool: "st_pool s"
  proof (cases "find_reservation d i")
    case None
    then show ?thesis
      using reserve_row [OF s pool None] find_hold_row [OF None] by (auto simp: find_reservation_def)
  next
    case (Some r)
    then show ?thesis using reserve_InrD [OF s pool] by auto
  qed
  then show "hold_claimed s key w i estimate d'"
    using s by (auto simp: hold_claimed_def reserve_lxc_for_agent_def split: if_splits)
next
  fix d
  assume "hold_claimed s key w i estimate d" and "fee_answers s w d"
  then show "run_hold s cx key w i estimate meta d = Inr d"
    by (auto simp: run_hold_def hold_claimed_def fee_answers_def reserve_lxc_for_agent_def Let_def)
qed

text \<open>A key with no agent never holds above its ceiling.\<close>

lemma reserve_ceiling:
  assumes s: "reserve_lxc_for_agent s cx d key w i estimate meta = Inr d'" and pool: "st_pool s"
    and n: "find_reservation d i = None" and key: "agent_of_key d key = None"
  shows "0 \<le> budget_left d' key"
  using s pool
proof (cases rule: reserve_cases)
  case (fresh bps held m is_agent)
  let ?o = "hold_opened cx d key w i held bps meta"
  have no: "\<not> is_agent" using movement_moves(4) [OF fresh(5)] key by simp
  have "m = ?o" using movement_InrD [OF fresh(5)] key by simp
  moreover have "subbudgets ?o key \<noteq> None" by (simp add: hold_opened_def)
  ultimately show ?thesis
    using fresh(8) [OF no] by (simp add: fresh(9)) (simp add: budget_left_def)
qed (use n in simp)

text \<open>A hold an agent's own balance covers moves exactly its amount, from the balance to the open holds.\<close>

lemma movement_own_funds:
  assumes s: "agent_movement_fee s cx d key need 0 0 PkHold i model = Inr (m, is_agent)" and pos: "0 < need"
    and key: "agent_of_key d key = Some (a, w)" and own: "need \<le> account_balance d w (AgentAcc a)"
  shows "bal_of m v = bal_of d v"
    and "account_balance m w (AgentAcc a) = account_balance d w (AgentAcc a) - need"
proof -
  obtain c e where c: "cover_shortfall cx d w a (need + 0) PkHold i = Inr (c, account_balance c w (AgentAcc a))"
      "enforce_agent_rules s cx c w a (need + 0) i = Inr e" "m = moved_db cx e w a need 0 0 PkHold i model"
    using movement_InrD [OF s] key pos by auto
  have "c = d" using cover_InrD [OF c(1)] own by (auto simp: Let_def)
  then have e: "bal_of e v = bal_of d v" "account_balance e w (AgentAcc a) = account_balance d w (AgentAcc a)" for v
    using same_money_views(1,7) [OF quiet_money [OF enforce_quiet [OF c(2)]]] by simp_all
  then show "bal_of m v = bal_of d v"
    "account_balance m w (AgentAcc a) = account_balance d w (AgentAcc a) - need"
    by (simp_all add: c(3) view_simps)
qed

definition covers_itself :: "store \<Rightarrow> db \<Rightarrow> string \<Rightarrow> string \<Rightarrow> int \<Rightarrow> bool" where
  "covers_itself s d key w estimate \<longleftrightarrow>
     (\<forall>a bps. agent_of_key d key = Some (a, w) \<longrightarrow> platform_fee_bps s d w = Inr bps \<longrightarrow>
        estimate + platform_fee estimate bps \<le> account_balance d w (AgentAcc a))"

lemma reserve_effect:
  assumes s: "reserve_lxc_for_agent s cx d key w i estimate meta = Inr d'" and pool: "st_pool s"
    and home: "key_home d key w" and n: "find_reservation d i = None" and own: "covers_itself s d key w estimate"
  shows "\<exists>bps held. platform_fee_bps s d w = Inr bps \<and> held = estimate + platform_fee estimate bps \<and> 0 < held \<and>
    find_reservation d' i = Some (hold_row cx key w i held bps meta) \<and>
    agent_of_key d' key = agent_of_key d key \<and>
    (\<forall>v. bal_of d' v = bal_of d v - (if v = w then held else 0) \<and> cash_of d' v = cash_of d v \<and>
       held_sum d' v = held_sum d v + (if v = w then held else 0)) \<and>
    (\<forall>a. agent_of_key d key = Some (a, w) \<longrightarrow>
       account_balance d' w (AgentAcc a) = account_balance d w (AgentAcc a) - held)"
  using s pool
proof (cases rule: reserve_cases)
  case (fresh bps held m is_agent)
  let ?o = "hold_opened cx d key w i held bps meta"
  note mv = movement_moves [OF fresh(5)]
  have pos: "0 < held" using fresh(2,4) platform_fee_nonneg [of estimate bps] by simp
  have "agent_of_key d' key = agent_of_key m key" by (rule agent_of_key_cong) (simp_all add: fresh(9))
  then have key: "agent_of_key d' key = agent_of_key d key" using moves_only_agents(1) [OF mv(1)] by simp
  have r: "find_reservation d' i = Some (hold_row cx key w i held bps meta)"
    using mv(1) find_hold_row [OF n] by (simp add: fresh(9) find_reservation_def moves_only_def)
  have agent: "bal_of m v = bal_of d v"
    "agent_of_key d key = Some (a, w) \<Longrightarrow> account_balance m w (AgentAcc a) = account_balance d w (AgentAcc a) - held"
    for v a
  proof -
    have own': "agent_of_key d key = Some (a, w) \<Longrightarrow> held \<le> account_balance ?o w (AgentAcc a)" for a
      using own fresh(3,4) by (simp add: covers_itself_def view_simps)
    show "agent_of_key d key = Some (a, w) \<Longrightarrow> account_balance m w (AgentAcc a) = account_balance d w (AgentAcc a) - held"
      using movement_own_funds(2) [OF fresh(5) pos _ own'] by (simp add: view_simps)
    show "bal_of m v = bal_of d v"
    proof (cases "agent_of_key d key")
      case None
      then show ?thesis using movement_InrD [OF fresh(5)] by (simp add: view_simps)
    next
      case (Some aw)
      then obtain c where "agent_of_key d key = Some (c, w)"
        using home by (cases aw) (simp add: key_home_def)
      then show ?thesis using movement_own_funds(1) [OF fresh(5) pos _ own'] by (simp add: view_simps)
    qed
  qed
  have "bal_of d' v = bal_of d v - (if v = w then held else 0) \<and> cash_of d' v = cash_of d v \<and>
      held_sum d' v = held_sum d v + (if v = w then held else 0)" for v
    using mv(1) agent(1) by (simp add: fresh(9) view_simps moves_only_def)
  moreover have "agent_of_key d key = Some (a, w) \<Longrightarrow>
      account_balance d' w (AgentAcc a) = account_balance d w (AgentAcc a) - held" for a
    using agent(2) by (simp add: fresh(9) view_simps)
  ultimately show ?thesis using fresh(3,4) pos r key by blast
qed (use n in simp)

text \<open>Released, it leaves every balance where it was.\<close>

lemma hold_then_release:
  assumes b: "books d" and pool: "st_pool s" and home: "key_home d key w"
    and n: "find_reservation d i = None" and own: "covers_itself s d key w estimate"
    and h: "reserve_lxc_for_agent s cx d key w i estimate meta = Inr d1"
    and rel: "release_lxc_reservation s cx' d1 i reason = Inr d2"
  shows "bal_of d2 v = bal_of d v \<and> held_sum d2 v = held_sum d v \<and> cash_of d2 v = cash_of d v \<and>
    (\<forall>a. agent_of_key d key = Some (a, w) \<longrightarrow>
       account_balance d2 w (AgentAcc a) = account_balance d w (AgentAcc a))"
proof -
  have i: "i \<noteq> ''''" using rel by (auto simp: release_lxc_reservation_def)
  obtain bps held where E: "find_reservation d1 i = Some (hold_row cx key w i held bps meta)"
      "agent_of_key d1 key = agent_of_key d key"
      "\<And>v. bal_of d1 v = bal_of d v - (if v = w then held else 0) \<and> cash_of d1 v = cash_of d v \<and>
        held_sum d1 v = held_sum d v + (if v = w then held else 0)"
      "\<And>a. agent_of_key d key = Some (a, w) \<Longrightarrow>
        account_balance d1 w (AgentAcc a) = account_balance d w (AgentAcc a) - held"
    using reserve_effect [OF h pool home n own] by blast
  have st: "rv_status (hold_row cx key w i held bps meta) = Held"
    "rv_held (hold_row cx key w i held bps meta) = held" "rv_ws (hold_row cx key w i held bps meta) = w"
    "rv_key (hold_row cx key w i held bps meta) = key"
    by (simp_all add: hold_row_def)
  have "key_home d1 key w" using home E(2) by (simp add: key_home_def)
  note R = release_effect [OF reserve_keeps_books(1) [OF b pool home h] pool E(1) st(1) i _ rel, unfolded st, OF this]
  show ?thesis using R E(2-4) by simp
qed

subsection \<open>The sweep\<close>

lemma held_nonneg: "books d \<Longrightarrow> find_reservation d i = Some r \<Longrightarrow> 0 \<le> rv_held r"
  using find_reservation_D(2) [of d i r] booksD(1) [of d] by (auto simp: holds_ok_def list_all_iff)

definition keys_home :: "db \<Rightarrow> bool" where
  "keys_home d \<longleftrightarrow> (\<forall>r\<in>set (reservations d). key_home d (rv_key r) (rv_ws r))"

lemma release_moves:
  assumes s: "release_lxc_reservation s cx d i reason = Inr d'" and pool: "st_pool s"
  shows "agent_keys d' = agent_keys d" and "agent_places d' = agent_places d"
    and "reservations d' = map (\<lambda>r. if rv_id r = i \<and> (\<exists>q. find_reservation d i = Some q \<and> rv_status q = Held)
      then r\<lparr>rv_status := Released, rv_settled := Some 0\<rparr> else r) (reservations d)"
proof -
  have i: "i \<noteq> ''''" using s by (auto simp: release_lxc_reservation_def)
  have "agent_keys d' = agent_keys d \<and> agent_places d' = agent_places d \<and>
    reservations d' = map (\<lambda>r. if rv_id r = i \<and> (\<exists>q. find_reservation d i = Some q \<and> rv_status q = Held)
      then r\<lparr>rv_status := Released, rv_settled := Some 0\<rparr> else r) (reservations d)"
  proof (cases "\<exists>q. find_reservation d i = Some q \<and> rv_status q = Held")
    case True
    then obtain r where r: "find_reservation d i = Some r" "rv_status r = Held" by blast
    obtain is_agent where m: "agent_movement_fee s cx (release_db cx d r reason) (rv_key r) (- rv_held r) 0 0
        PkRelease i (text_of (rv_model r)) = Inr (d', is_agent)"
      using s unfolding release_open [OF pool r i] by (auto simp: agent_movement_def)
    show ?thesis
      using movement_moves(1) [OF m] r find_reservation_D(1) [OF r(1)]
      by (simp add: moves_only_def agent_places_def)
  next
    case False
    then have "d' = d" using s i by (auto simp: release_lxc_reservation_def Let_def split: option.splits if_splits)
    moreover have "(\<lambda>r :: reservation. if rv_id r = i \<and> (\<exists>q. find_reservation d i = Some q \<and> rv_status q = Held)
      then r\<lparr>rv_status := Released, rv_settled := Some 0\<rparr> else r) = id"
      using False by (intro ext) auto
    ultimately show ?thesis by (simp only: list.map_id simp_thms)
  qed
  then show "agent_keys d' = agent_keys d" "agent_places d' = agent_places d"
    "reservations d' = map (\<lambda>r. if rv_id r = i \<and> (\<exists>q. find_reservation d i = Some q \<and> rv_status q = Held)
      then r\<lparr>rv_status := Released, rv_settled := Some 0\<rparr> else r) (reservations d)"
    by blast+
qed

lemma release_keys_home:
  assumes s: "release_lxc_reservation s cx d i reason = Inr d'" and pool: "st_pool s" and h: "keys_home d"
  shows "keys_home d'"
proof -
  have key: "key_home d' key w = key_home d key w" for key w
    using release_moves(1,2) [OF s pool] by (simp add: key_home_def agent_of_key_places cong: option.case_cong)
  show ?thesis using h unfolding keys_home_def release_moves(3) [OF s pool] by (auto simp: key)
qed

text \<open>The sweep releases every hold older than its age, and never stops half way.\<close>

lemma release_all_sweeps:
  assumes "books d" and "st_pool s" and "keys_home d" and "'''' \<notin> set is"
  shows "\<exists>d'. release_all s cx d is n = (d', n + length is, None) \<and> books d' \<and>
    (\<forall>r\<in>set (reservations d'). rv_id r \<in> set is \<longrightarrow> rv_status r \<noteq> Held) \<and>
    (\<forall>r\<in>set (reservations d'). rv_status r = Held \<longrightarrow> r \<in> set (reservations d))"
  using assms
proof (induction "is" arbitrary: d n)
  case (Cons i "is")
  note b = Cons.prems(1) and pool = Cons.prems(2) and home = Cons.prems(3)
  obtain e where e: "release_lxc_reservation s cx d i ''stranded hold swept (crash refund)'' = Inr e"
    using release_succeeds held_nonneg [OF b] Cons.prems(4) by (metis list.set_intros(1))
  have "key_home d (rv_key r) (rv_ws r)" if "find_reservation d i = Some r" for r
    using home find_reservation_D(2) [OF that] by (simp add: keys_home_def)
  then have be: "books e" by (rule release_keeps_books(1) [OF b pool _ e])
  obtain d' where d': "release_all s cx e is (Suc n) = (d', Suc n + length is, None)" "books d'"
      "\<forall>r\<in>set (reservations d'). rv_id r \<in> set is \<longrightarrow> rv_status r \<noteq> Held"
      "\<forall>r\<in>set (reservations d'). rv_status r = Held \<longrightarrow> r \<in> set (reservations e)"
    using Cons.IH [OF be pool release_keys_home [OF e pool home], of "Suc n"] Cons.prems(4) by auto
  have gone: "rv_status r \<noteq> Held" if "r \<in> set (reservations e)" "rv_id r = i" for r
  proof -
    have "find_reservation e i = Some r"
    proof -
      have "distinct (map rv_id rs) \<Longrightarrow> r \<in> set rs \<Longrightarrow> find (\<lambda>q. rv_id q = rv_id r) rs = Some r" for rs
        by (induction rs) (auto simp: rev_image_eqI)
      then show ?thesis using that booksD(1) [OF be] by (simp add: holds_ok_def find_reservation_def)
    qed
    then show ?thesis using release_resolves [OF e] pool by (simp add: hold_gone_def)
  qed
  have old: "r \<in> set (reservations d)" if "r \<in> set (reservations e)" "rv_status r = Held" for r
    using that unfolding release_moves(3) [OF e pool] by (auto split: if_splits)
  show ?case using e d' gone old by auto
qed simp

lemma sweep_releases:
  assumes b: "books d" and pool: "st_pool s" and home: "keys_home d"
    and ids: "\<forall>r\<in>set (reservations d). rv_id r \<noteq> ''''"
  shows "\<exists>d'. release_stranded_reservations s cx d age = (d', length (stranded cx d age), None) \<and> books d' \<and>
    stranded cx d' age = []"
proof -
  have "'''' \<notin> set (stranded cx d age)" using ids by (auto simp: stranded_def)
  from release_all_sweeps [OF b pool home this, of cx 0] obtain d' where
    d': "release_all s cx d (stranded cx d age) 0 = (d', length (stranded cx d age), None)" "books d'"
      "\<forall>r\<in>set (reservations d'). rv_id r \<in> set (stranded cx d age) \<longrightarrow> rv_status r \<noteq> Held"
      "\<forall>r\<in>set (reservations d'). rv_status r = Held \<longrightarrow> r \<in> set (reservations d)" by auto
  have "stranded cx d' age = []"
  proof (rule ccontr)
    assume "stranded cx d' age \<noteq> []"
    then obtain r where r: "r \<in> set (reservations d')" "rv_status r = Held" "rv_at r < cx_now cx - age"
      by (auto simp: stranded_def filter_empty_conv)
    then have "rv_id r \<in> set (stranded cx d age)" using d'(4) by (auto simp: stranded_def)
    then show False using d'(3) r by blast
  qed
  then show ?thesis using d' pool by (simp add: release_stranded_reservations_def)
qed

end
