(* ===== verification/Debit_Settle.thy ===== *)
theory Debit_Settle
  imports Hold_Release
begin

section \<open>Settling a pre-serve debit (agent_debit_settle.go)\<close>

text \<open>
  \<open>settle_agent_debit\<close> reconciles the debit booked under a key with the delivered cost:
  a refund, or a charge within what the key's limit still allows, the rest written off. The
  row of \<open>agent_debit_settlements\<close> is the claim that makes it happen once.
\<close>

record debit_outcome =
  do_settled :: int
  do_written_off :: int
  do_cash_backed :: int
  do_settled_fee :: int

definition nothing_owed :: debit_outcome where
  "nothing_owed = \<lparr>do_settled = 0, do_written_off = 0, do_cash_backed = 0, do_settled_fee = 0\<rparr>"

fun allow_periods :: "db \<Rightarrow> string \<Rightarrow> string \<Rightarrow> int \<Rightarrow> period_limit list \<Rightarrow> int" where
  "allow_periods d w a want [] = want"
| "allow_periods d w a want (l # ls) =
     (if pl_ulxc l = 0 then allow_periods d w a want ls
      else allow_periods d w a
        (min want (max (pl_ulxc l - agent_spent_since d w a (pl_since l)) 0)) ls)"

definition allow_rules ::
    "store \<Rightarrow> ctx \<Rightarrow> db \<Rightarrow> string \<Rightarrow> string \<Rightarrow> int \<Rightarrow> int \<Rightarrow> string \<Rightarrow> int" where
  "allow_rules s cx d w a estimate want model =
     (let r = (case agent_rules_in_force d a (cx_now cx) of None \<Rightarrow> no_rules | Some r \<Rightarrow> r);
          want = (if rl_max_per_request r > 0
            then min want (max (rl_max_per_request r - estimate) 0) else want);
          loc = (case rules_location (st_zone s) r of None \<Rightarrow> utc | Some loc \<Rightarrow> loc);
          want = (case model_daily_limit r model loc (cx_now cx) of (limit, since) \<Rightarrow>
            if limit > 0 then min want (max (limit - agent_model_spent_since d w a model since) 0)
            else want)
      in allow_periods d w a want (period_limits r loc (cx_now cx)))"

definition agent_allowance ::
    "store \<Rightarrow> ctx \<Rightarrow> db \<Rightarrow> string \<Rightarrow> string \<Rightarrow> int \<Rightarrow> int \<Rightarrow> string \<Rightarrow> string \<Rightarrow> err + db \<times> int" where
  "agent_allowance s cx d w a estimate want ref model =
     (let want = allow_rules s cx d w a estimate want model
      in if want = 0 then Inr (d, 0)
         else
           let bal = account_balance d w (AgentAcc a)
           in if bal < want then
                rbind (draw_credit_line cx d w a (want - bal) ref) (\<lambda>(d, drew).
                  let bal = (if drew then want else bal) in Inr (d, min want (max bal 0)))
              else Inr (d, min want (max bal 0)))"

definition agent_in_workspace :: "db \<Rightarrow> string \<Rightarrow> string \<Rightarrow> string option" where
  "agent_in_workspace d key w =
     (case agent_of_key d key of
        None \<Rightarrow> None
      | Some (a, v) \<Rightarrow> if v = w then Some a else None)"

definition settlement_row ::
    "string \<Rightarrow> string \<Rightarrow> string option \<Rightarrow> debit_meta \<Rightarrow> int \<Rightarrow> int \<Rightarrow> int \<Rightarrow> int \<Rightarrow> debit_settlement" where
  "settlement_row w key agent meta estimate delivered settled written_off =
     \<lparr>ds_ws = w, ds_key = key, ds_agent = agent, ds_request = null_if_empty (dm_request meta),
      ds_estimate = estimate, ds_delivered = delivered, ds_settled = settled,
      ds_written_off = written_off\<rparr>"

text \<open>The table's CHECKs: the parts add up and nothing negative is written off.\<close>

definition settlement_checks :: "debit_settlement \<Rightarrow> bool" where
  "settlement_checks r \<longleftrightarrow> 0 \<le> ds_written_off r \<and>
     ds_estimate r + ds_settled r + ds_written_off r = ds_delivered r"

definition put_settlement :: "db \<Rightarrow> string \<Rightarrow> debit_settlement \<Rightarrow> err + db" where
  "put_settlement d debit_key row =
     (if settlement_checks row then Inr (d\<lparr>settlements := (settlements d)(debit_key \<mapsto> row)\<rparr>)
      else Inl (ErrDbCheck ''agent_debit_settlements''))"

text \<open>The charge the limit allows: the whole price that fits, split back into a charge and its fee.\<close>

definition decide_charge ::
    "store \<Rightarrow> ctx \<Rightarrow> db \<Rightarrow> string \<Rightarrow> string \<Rightarrow> string option \<Rightarrow> int \<Rightarrow> int \<Rightarrow> int \<Rightarrow> string \<Rightarrow> string \<Rightarrow> int \<Rightarrow>
      err + db \<times> int" where
  "decide_charge s cx d w key agent estimate bps delivered debit_key model left =
     (let est_fee = platform_fee estimate bps;
          diff = delivered + platform_fee delivered bps - estimate - est_fee
      in if diff \<le> 0 then Inr (d, delivered)
         else
           rbind (case agent of
               Some a \<Rightarrow> agent_allowance s cx d w a (estimate + est_fee) diff debit_key model
             | None \<Rightarrow> Inr (d, min diff (max left 0))) (\<lambda>(d, allowed).
           case read_lxc_balance d w of (d, bal, _, _) \<Rightarrow>
             let bal = (if agent = None then bal - allocated d w else bal)
             in Inr (d, min delivered
                  (spend_within (estimate + est_fee + min allowed (max bal 0)) bps))))"

text \<open>The rows of a settlement: the difference of the charge, the fee's, and the agent's postings.\<close>

definition apply_settlement ::
    "ctx \<Rightarrow> db \<Rightarrow> string \<Rightarrow> string \<Rightarrow> string option \<Rightarrow> int \<Rightarrow> int \<Rightarrow> int \<Rightarrow> int \<Rightarrow> string \<Rightarrow> debit_meta \<Rightarrow> err + db" where
  "apply_settlement cx d w key agent settled settled_fee charge bps debit_key meta =
     (if settled = 0 \<and> settled_fee = 0 then Inr d
      else case read_lxc_balance d w of (d, bal, minted, spent) \<Rightarrow>
        let new_bal = bal - settled;
            desc = (if settled < 0 then ''agent debit settle: estimate above the delivered cost, refunded''
              else ''agent debit settle: delivered cost above the estimate'');
            d = (if settled \<noteq> 0
              then insert_lxc_ledger cx d w (- settled) new_bal Spend desc (to_spend_map meta charge) else d);
            d = insert_platform_fee cx d w settled_fee (new_bal - settled_fee) bps charge (dm_request meta);
            new_bal = new_bal - settled_fee;
            total = settled + settled_fee;
            d = write_lxc_balance d w new_bal minted (spent + total);
            d = add_subbudget_spent d key total
        in case agent of
             None \<Rightarrow> Inr d
           | Some a \<Rightarrow>
               rbind (if settled \<noteq> 0 then
                   post_model_entry cx d w (if settled < 0 then PkSettle else PkSpend) debit_key
                     (dm_requested meta) [(AgentAcc a, - settled), (SpendAcc, settled)]
                 else Inr d) (\<lambda>d.
               if settled_fee \<noteq> 0
               then post_fee_entry cx d w a settled_fee bps debit_key (dm_requested meta)
               else Inr d))"

definition consume_settled ::
    "db \<Rightarrow> string \<Rightarrow> int \<Rightarrow> int \<Rightarrow> err + db \<times> int" where
  "consume_settled d w charge fee =
     (if charge > 0 then
        case read_lxc_balance d w of (d, bal, _, _) \<Rightarrow>
          rbind (consume_cash_backed d w (bal + charge + fee) charge) (\<lambda>(d, cash).
          rbind (consume_cash_backed d w (bal + fee) fee) (\<lambda>(d, _).
            Inr (d, royalty_backed d w charge cash)))
      else Inr (d, 0))"

definition settle_agent_debit ::
    "store \<Rightarrow> ctx \<Rightarrow> db \<Rightarrow> string \<Rightarrow> string \<Rightarrow> int \<Rightarrow> debit_meta \<Rightarrow> err + db \<times> debit_outcome" where
  "settle_agent_debit s cx d w debit_key delivered meta =
     (if w = '''' \<or> debit_key = ''''
      then Inl (ErrInvalid ''agent debit settle requires workspace_id, debit key'')
      else
        let delivered = (if delivered < 0 then 0 else delivered)
        in if \<not> st_pool s then Inr (d, nothing_owed)
           else case map_of (claims d) debit_key of
             None \<Rightarrow> Inl (ErrUnknownDebit debit_key)
           | Some c \<Rightarrow>
             let key = cl_key c; estimate = cl_amount c; bps = cl_bps c
             in if settlements d debit_key \<noteq> None then Inr (d, nothing_owed)
                else
                rbind (put_settlement d debit_key
                    (settlement_row w key None meta estimate delivered (delivered - estimate) 0)) (\<lambda>d.
                case subbudgets d key of
                  None \<Rightarrow> Inl (ErrInvalid ''read sub-budget'')
                | Some b \<Rightarrow>
                  let agent = agent_in_workspace d key w
                  in rbind (case agent of None \<Rightarrow> Inr () | Some a \<Rightarrow> lock_agent d w a) (\<lambda>_.
                     rbind (decide_charge s cx d w key agent estimate bps delivered debit_key
                         (dm_requested meta) (sb_ceiling b - sb_spent b)) (\<lambda>(d, charge).
                       let est_fee = platform_fee estimate bps;
                           settled = charge - estimate;
                           written_off = delivered - charge;
                           settled_fee = platform_fee charge bps - est_fee
                       in rbind (apply_settlement cx d w key agent settled settled_fee charge bps
                            debit_key meta) (\<lambda>d.
                          rbind (consume_settled d w charge (est_fee + settled_fee)) (\<lambda>(d, cash).
                          rbind (put_settlement d debit_key (settlement_row w key agent meta estimate
                              delivered settled written_off)) (\<lambda>d.
                            Inr (d, \<lparr>do_settled = settled, do_written_off = written_off,
                              do_cash_backed = cash, do_settled_fee = settled_fee\<rparr>))))))))"

subsection \<open>Running an attempt again (retryLocks)\<close>

text \<open>
  \<open>outcome n\<close> is what attempt \<open>n\<close> returns and \<open>cancelled n\<close> whether the context ends in the
  wait after it; \<open>left\<close> counts the retries that remain of \<open>lock_retries\<close>.
\<close>

definition lock_retries :: nat where
  "lock_retries = 5"

datatype 'e retry_error = LockContention 'e | AttemptError 'e

fun retry_from :: "('e \<Rightarrow> bool) \<Rightarrow> (nat \<Rightarrow> bool) \<Rightarrow> (nat \<Rightarrow> 'e + 'a) \<Rightarrow> nat \<Rightarrow> nat \<Rightarrow> 'e retry_error + 'a" where
  "retry_from lock_failure cancelled outcome left attempt =
     (case outcome attempt of
        Inr x \<Rightarrow> Inr x
      | Inl e \<Rightarrow>
          if \<not> lock_failure e then Inl (AttemptError e)
          else case left of
            0 \<Rightarrow> Inl (LockContention e)
          | Suc m \<Rightarrow> if cancelled attempt then Inl (LockContention e)
              else retry_from lock_failure cancelled outcome m (Suc attempt))"

definition retry_locks :: "('e \<Rightarrow> bool) \<Rightarrow> (nat \<Rightarrow> bool) \<Rightarrow> (nat \<Rightarrow> 'e + 'a) \<Rightarrow> 'e retry_error + 'a" where
  "retry_locks lock_failure cancelled outcome = retry_from lock_failure cancelled outcome lock_retries 0"

end
