(* ===== verification/Debit_Books.thy ===== *)
theory Debit_Books
  imports Debit_Settle
begin

section \<open>Debits and their settles keep the books\<close>

text \<open>
  The pre-serve debit takes an estimate and its fee at once; the settle takes or returns the
  difference to the delivered cost, within what the key's limits still allow. Between the
  two the backing of a workspace may exceed its balance by what its open debits took:
  \<open>open_debits\<close>, the slack \<open>backed\<close> is stated with. \<open>kw\<close> is the workspace a key is charged to.
\<close>

subsection \<open>Open debits\<close>

definition claim_total :: "spend_claim \<Rightarrow> int" where
  "claim_total c = cl_amount c + platform_fee (cl_amount c) (cl_bps c)"

definition open_debits :: "(string \<Rightarrow> string) \<Rightarrow> db \<Rightarrow> string \<Rightarrow> int" where
  "open_debits kw d w =
     sum_where (\<lambda>e. kw (cl_key (snd e)) = w \<and> settlements d (fst e) = None) (\<lambda>e. claim_total (snd e)) (claims d)"

definition claims_ok :: "db \<Rightarrow> bool" where
  "claims_ok d \<longleftrightarrow> distinct (map fst (claims d)) \<and>
     (\<forall>k. settlements d k \<noteq> None \<longrightarrow> k \<in> fst ` set (claims d)) \<and>
     (\<forall>e\<in>set (claims d). 0 < cl_amount (snd e) \<and> 0 \<le> cl_bps (snd e) \<and> subbudgets d (cl_key (snd e)) \<noteq> None)"

lemma claim_total_pos: "0 < cl_amount c \<Longrightarrow> 0 < claim_total c"
  by (simp add: claim_total_def add_pos_nonneg platform_fee_nonneg)

lemma open_debits_nonneg: "claims_ok d \<Longrightarrow> 0 \<le> open_debits kw d w"
  unfolding open_debits_def
  by (rule sum_where_nonneg) (metis claims_ok_def less_imp_le claim_total_pos)

lemma open_debits_cong:
  "claims d' = claims d \<Longrightarrow> settlements d' = settlements d \<Longrightarrow> open_debits kw d' w = open_debits kw d w"
  by (simp add: open_debits_def)

lemma claims_ok_cong:
  "claims d' = claims d \<Longrightarrow> settlements d' = settlements d \<Longrightarrow>
   (\<And>k. subbudgets d' k = None \<longleftrightarrow> subbudgets d k = None) \<Longrightarrow> claims_ok d' = claims_ok d"
  by (simp add: claims_ok_def)

text \<open>Settling a debit takes its total, and nothing else, out of the open debits.\<close>

lemma open_debits_settle:
  assumes ok: "claims_ok d" and c: "map_of (claims d) k = Some c" and n: "settlements d k = None"
    and d': "claims d' = claims d" "settlements d' = (settlements d)(k \<mapsto> row)"
  shows "open_debits kw d' w = open_debits kw d w - (if kw (cl_key c) = w then claim_total c else 0)"
proof -
  define p :: "(string \<rightharpoonup> debit_settlement) \<Rightarrow> string \<times> spend_claim \<Rightarrow> bool"
    where "p = (\<lambda>st e. kw (cl_key (snd e)) = w \<and> st (fst e) = None)"
  define g where "g = (\<lambda>e :: string \<times> spend_claim. claim_total (snd e))"
  have "sum_where (p ((settlements d)(k \<mapsto> row))) g cs =
      sum_where (p (settlements d)) g cs - (if kw (cl_key c) = w then claim_total c else 0)"
    if "distinct (map fst cs)" "(k, c) \<in> set cs" for cs
    using that
  proof (induction cs)
    case (Cons e cs)
    have same: "sum_where (p ((settlements d)(k \<mapsto> row))) g es = sum_where (p (settlements d)) g es"
      if "k \<notin> fst ` set es" for es
      using that by (intro sum_where_cong) (auto simp: p_def)
    show ?case
    proof (cases "e = (k, c)")
      case True
      then have "k \<notin> fst ` set cs" using Cons.prems by auto
      then show ?thesis using True n same by (simp add: p_def g_def)
    next
      case False
      then have "fst e \<noteq> k" using Cons.prems by (auto simp: rev_image_eqI)
      then show ?thesis using Cons False by (auto simp: p_def)
    qed
  qed simp
  then show ?thesis
    using ok map_of_SomeD [OF c] by (simp add: open_debits_def claims_ok_def d' p_def g_def)
qed

subsection \<open>The debit\<close>

definition debit_opened :: "db \<Rightarrow> string \<Rightarrow> string \<Rightarrow> string \<Rightarrow> int \<Rightarrow> int \<Rightarrow> db" where
  "debit_opened d key w request amount bps =
     ensure_subbudget (d\<lparr>claims := claims d @ [(request, \<lparr>cl_key = key, cl_amount = amount, cl_bps = bps\<rparr>)]\<rparr>) key w"

lemma claims_money [simp]: "same_money d (d\<lparr>claims := cs\<rparr>)"
  by (simp add: same_money_def)

lemma debit_opened_money [simp]: "same_money d (debit_opened d key w request amount bps)"
  unfolding debit_opened_def by (rule same_money_trans [OF claims_money subbudget_money(1)])

lemma debit_opened_frame [simp]:
  "settlements (debit_opened d key w request amount bps) = settlements d"
  "claims (debit_opened d key w request amount bps) =
     claims d @ [(request, \<lparr>cl_key = key, cl_amount = amount, cl_bps = bps\<rparr>)]"
  "agents (debit_opened d key w request amount bps) = agents d"
  "agent_keys (debit_opened d key w request amount bps) = agent_keys d"
  "subbudgets (debit_opened d key w request amount bps) k = None \<longleftrightarrow> k \<noteq> key \<and> subbudgets d k = None"
  by (auto simp: debit_opened_def ensure_subbudget_def split: option.split)

lemma spend_agent_InrD:
  assumes "spend_lxc_for_agent s cx d key w request amount desc meta = Inr d'" and "st_pool s"
  shows "0 < amount \<and> key \<noteq> '''' \<and> w \<noteq> '''' \<and> request \<noteq> '''' \<and>
    (\<exists>bps. platform_fee_bps s d w = Inr bps \<and>
       (if map_of (claims d) request \<noteq> None then d' = d
        else \<exists>m is_agent. let fee = platform_fee amount bps; o1 = debit_opened d key w request amount bps
          in agent_movement_fee s cx o1 key amount fee bps PkSpend request (dm_requested meta) = Inr (m, is_agent) \<and>
             amount + fee \<le> bal_of m w \<and>
             (\<not> is_agent \<longrightarrow> amount + fee \<le> bal_of m w - allocated m w \<and> amount + fee \<le> budget_left o1 key) \<and>
             d' = add_subbudget_spent (debit_db cx m w amount fee bps Spend desc (to_map meta) (dm_request meta))
               key (amount + fee)))"
  using assms
  by (auto simp: spend_lxc_for_agent_def Let_def view_simps require_unallocated_def
      debit_db_def debit_opened_def split: if_splits)

lemma spend_agent_cases:
  assumes s: "spend_lxc_for_agent s cx d key w request amount desc meta = Inr d'" and pool: "st_pool s"
  obtains (replay) "map_of (claims d) request \<noteq> None" "d' = d"
  | (fresh) bps fee m is_agent where "map_of (claims d) request = None" "0 < amount"
      "platform_fee_bps s d w = Inr bps" "fee = platform_fee amount bps"
      "agent_movement_fee s cx (debit_opened d key w request amount bps) key amount fee bps PkSpend request
         (dm_requested meta) = Inr (m, is_agent)"
      "amount + fee \<le> bal_of m w" "\<not> is_agent \<Longrightarrow> amount + fee \<le> bal_of m w - allocated m w"
      "\<not> is_agent \<Longrightarrow> amount + fee \<le> budget_left (debit_opened d key w request amount bps) key"
      "d' = add_subbudget_spent (debit_db cx m w amount fee bps Spend desc (to_map meta) (dm_request meta)) key
         (amount + fee)"
proof (cases "map_of (claims d) request = None")
  case True
  obtain bps m is_agent where r: "0 < amount" "platform_fee_bps s d w = Inr bps"
    "let fee = platform_fee amount bps; o1 = debit_opened d key w request amount bps
     in agent_movement_fee s cx o1 key amount fee bps PkSpend request (dm_requested meta) = Inr (m, is_agent) \<and>
        amount + fee \<le> bal_of m w \<and>
        (\<not> is_agent \<longrightarrow> amount + fee \<le> bal_of m w - allocated m w \<and> amount + fee \<le> budget_left o1 key) \<and>
        d' = add_subbudget_spent (debit_db cx m w amount fee bps Spend desc (to_map meta) (dm_request meta)) key
          (amount + fee)"
    using spend_agent_InrD [OF s pool] True by auto
  show ?thesis by (rule fresh [OF True r(1,2) refl]) (use r(3) in \<open>auto simp: Let_def\<close>)
next
  case False
  then show ?thesis
    using spend_agent_InrD [OF s pool] replay by auto
qed

lemma spend_agent_keeps [keeps]:
  assumes b: "books d" and pool: "st_pool s" and home: "key_home d key w"
    and s: "spend_lxc_for_agent s cx d key w request amount desc meta = Inr d'"
  shows "books d'" and "claims_ok d \<Longrightarrow> claims_ok d'"
    and "claims_ok d \<Longrightarrow> kw key = w \<Longrightarrow> backed (open_debits kw d) d \<Longrightarrow> backed (open_debits kw d') d'"
proof -
  show "books d'"
    using s pool
  proof (cases rule: spend_agent_cases)
    case (fresh bps fee m is_agent)
    let ?o = "debit_opened d key w request amount bps"
    have o: "books ?o" using debit_opened_money b by (rule same_money_books)
    have "agent_of_key ?o key = agent_of_key d key" by (rule agent_of_key_cong) simp_all
    then have "key_home ?o key w" using home by (simp add: key_home_def)
    then have "books_slack (room_for w (amount + fee)) m"
      using fresh(2,4,5,7) platform_fee_nonneg by (intro movement_room [OF o]) simp_all
    then show ?thesis
      unfolding fresh(9) by (intro same_money_books [OF subbudget_money(2)] charged_books)
  qed (use b in simp)
  show "claims_ok d'" if ok: "claims_ok d"
    using s pool
  proof (cases rule: spend_agent_cases)
    case (fresh bps fee m is_agent)
    have c: "claims d' = claims (debit_opened d key w request amount bps)" "settlements d' = settlements d"
      "\<And>k. subbudgets d' k = None \<longleftrightarrow> k \<noteq> key \<and> subbudgets d k = None"
      using movement_moves(1) [OF fresh(5)] by (simp_all add: fresh(9) moves_only_def)
    have "request \<notin> fst ` set (claims d)" using fresh(1) by (simp add: map_of_eq_None_iff)
    then show ?thesis
      using ok fresh(2) platform_fee_bps_nonneg [OF fresh(3)] by (auto simp: claims_ok_def c)
  qed (use ok in simp)
  show "backed (open_debits kw d') d'"
    if ok: "claims_ok d" and kw: "kw key = w" and x: "backed (open_debits kw d) d"
    using s pool
  proof (cases rule: spend_agent_cases)
    case (fresh bps fee m is_agent)
    note mv = movement_moves [OF fresh(5)]
    have new: "settlements d request = None"
      using ok fresh(1) by (auto simp: claims_ok_def map_of_eq_None_iff)
    have c: "claims d' = claims (debit_opened d key w request amount bps)" "settlements d' = settlements d"
      using mv(1) by (simp_all add: fresh(9) moves_only_def)
    have open': "open_debits kw d' v = open_debits kw d v + (if v = w then amount + fee else 0)" for v
      using new kw by (simp add: open_debits_def c claim_total_def fresh(4))
    show ?thesis
    proof (rule backedI)
      fix v
      have "cash_of d' v = cash_of d v" "held_sum d' v = held_sum d v"
        "bal_of d' v = bal_of m v - (if v = w then amount + fee else 0)"
        using mv(1) same_money_views(2,4) [OF debit_opened_money]
        by (simp_all add: fresh(9) view_simps moves_only_def)
      moreover have "bal_of d v \<le> bal_of m v"
        using mv(2) [of v] same_money_views(1) [OF debit_opened_money] by simp
      ultimately show "0 \<le> cash_of d' v \<and> cash_of d' v \<le> bal_of d' v + held_sum d' v + open_debits kw d' v"
        using backedD [OF x, of v] open' [of v] by simp
    qed
  qed (use x in simp)
qed

subsection \<open>What the limits allow a settle to charge above its estimate\<close>

lemma allow_periods_range:
  "0 \<le> want \<Longrightarrow> 0 \<le> allow_periods d w a want ls \<and> allow_periods d w a want ls \<le> want"
proof (induction ls arbitrary: want)
  case (Cons l ls)
  show ?case
  proof (cases "pl_ulxc l = 0")
    case False
    let ?v = "min want (max (pl_ulxc l - agent_spent_since d w a (pl_since l)) 0)"
    have v: "0 \<le> ?v" "?v \<le> want" using Cons.prems by simp_all
    have "0 \<le> allow_periods d w a ?v ls \<and> allow_periods d w a ?v ls \<le> ?v" by (rule Cons.IH [OF v(1)])
    then show ?thesis using False v by (auto simp: Let_def)
  qed (use Cons in simp)
qed simp

lemma allow_periods_limits:
  assumes "0 \<le> want" and "l \<in> set ls" and "pl_ulxc l \<noteq> 0"
  shows "allow_periods d w a want ls \<le> max (pl_ulxc l - agent_spent_since d w a (pl_since l)) 0"
  using assms
proof (induction ls arbitrary: want)
  case (Cons m ls)
  show ?case
  proof (cases "pl_ulxc m = 0")
    case False
    let ?v = "min want (max (pl_ulxc m - agent_spent_since d w a (pl_since m)) 0)"
    have v: "0 \<le> ?v" using Cons.prems by simp
    show ?thesis
      using Cons False allow_periods_range [OF v, of d w a ls] v by (auto simp: Let_def)
  qed (use Cons in auto)
qed simp

lemma allow_rules_periods:
  assumes want: "0 \<le> want"
    and r: "r = (case agent_rules_in_force d a (cx_now cx) of None \<Rightarrow> no_rules | Some r \<Rightarrow> r)"
    and loc: "loc = (case rules_location (st_zone s) r of None \<Rightarrow> utc | Some loc \<Rightarrow> loc)"
  shows "\<exists>v. 0 \<le> v \<and> v \<le> want \<and> allow_rules s cx d w a estimate want model =
    allow_periods d w a v (period_limits r loc (cx_now cx))"
proof -
  obtain limit since where ml: "model_daily_limit r model loc (cx_now cx) = (limit, since)" by fastforce
  define u where "u = (if rl_max_per_request r > 0
    then min want (max (rl_max_per_request r - estimate) 0) else want)"
  define v where "v = (if limit > 0 then min u (max (limit - agent_model_spent_since d w a model since) 0) else u)"
  have "allow_rules s cx d w a estimate want model = allow_periods d w a v (period_limits r loc (cx_now cx))"
    unfolding allow_rules_def Let_def r [symmetric] loc [symmetric] ml prod.case u_def [symmetric]
      v_def [symmetric] ..
  moreover have "0 \<le> v" "v \<le> want" using want by (auto simp: u_def v_def)
  ultimately show ?thesis by blast
qed

lemma allow_rules_range:
  assumes "0 \<le> want"
  shows "0 \<le> allow_rules s cx d w a estimate want model \<and> allow_rules s cx d w a estimate want model \<le> want"
  using allow_rules_periods [OF assms refl refl, where d = d and a = a and cx = cx and s = s] allow_periods_range
  by (metis order_trans)

text \<open>What is allowed above the estimate keeps every limit of the rules in force.\<close>

lemma allow_rules_limits:
  assumes want: "0 \<le> want" and r: "agent_rules_in_force d a (cx_now cx) = Some r"
    and loc: "rules_location (st_zone s) r = Some loc"
    and l: "l \<in> set (period_limits r loc (cx_now cx))" "pl_ulxc l \<noteq> 0"
  shows "allow_rules s cx d w a estimate want model \<le> max (pl_ulxc l - agent_spent_since d w a (pl_since l)) 0"
proof -
  obtain v where "0 \<le> v" "allow_rules s cx d w a estimate want model =
      allow_periods d w a v (period_limits r loc (cx_now cx))"
    using allow_rules_periods [OF want, of r d a cx loc s w estimate model] r loc by force
  then show ?thesis using allow_periods_limits [OF _ l] by simp
qed

lemma ensure_moves [simp]: "moves_only d (ensure_lxc_row d w)"
  by (simp add: moves_only_def view_simps agent_places_def)

lemma ensure_slack: "books_slack k d \<Longrightarrow> books_slack k (ensure_lxc_row d w)"
proof -
  assume b: "books_slack k d"
  have "books_slack (\<lambda>v. k v - (bal_of (ensure_lxc_row d w) v - bal_of d v)) (ensure_lxc_row d w)"
    using slackD [OF b] by (intro slack_wallet [OF b]) (simp_all add: view_simps holds_ok_def)
  then show ?thesis by (rule slack_cong) (simp add: view_simps)
qed

definition may_draw :: "ctx \<Rightarrow> db \<Rightarrow> string \<Rightarrow> string \<Rightarrow> string \<Rightarrow> db \<Rightarrow> bool" where
  "may_draw cx d w a ref e \<longleftrightarrow>
     e = d \<or> (\<exists>need. 0 < need \<and> line_open cx d w need \<and> e = drawn_db cx d w a need ref)"

lemma allowance_InrD:
  assumes s: "agent_allowance s cx d w a estimate want ref model = Inr (e, allowed)" and want: "0 \<le> want"
  shows "may_draw cx d w a ref e"
    and "0 \<le> allowed" "allowed \<le> want" "allowed \<le> max 0 (account_balance e w (AgentAcc a))"
    and "allowed \<le> allow_rules s cx d w a estimate want model"
proof -
  define n where "n = allow_rules s cx d w a estimate want model"
  define bal where "bal = account_balance d w (AgentAcc a)"
  have n: "0 \<le> n" "n \<le> want" using allow_rules_range [OF want] by (simp_all add: n_def)
  have eq: "agent_allowance s cx d w a estimate want ref model =
      (if n = 0 then Inr (d, 0)
       else if bal < n then rbind (draw_credit_line cx d w a (n - bal) ref) (\<lambda>(d, drew).
         Inr (d, min n (max (if drew then n else bal) 0)))
       else Inr (d, min n (max bal 0)))"
    unfolding agent_allowance_def Let_def n_def bal_def ..
  have split: "(bal < n \<and> line_open cx d w (n - bal) \<and> e = drawn_db cx d w a (n - bal) ref \<and> allowed = n) \<or>
      (e = d \<and> allowed = min n (max bal 0))"
  proof (cases "n \<noteq> 0 \<and> bal < n")
    case True
    then have "n - bal \<noteq> 0" by simp
    from draw_eq [OF this, of cx d w a ref] show ?thesis
      using s True n unfolding eq by (cases "line_open cx d w (n - bal)") auto
  next
    case False
    then show ?thesis using s n unfolding eq by (cases "n = 0") (simp_all add: min_def max_def)
  qed
  consider "bal < n" "line_open cx d w (n - bal)" "e = drawn_db cx d w a (n - bal) ref" "allowed = n"
    | "e = d" "allowed = min n (max bal 0)"
    using split by blast
  then have "may_draw cx d w a ref e \<and> 0 \<le> allowed \<and> allowed \<le> n \<and> allowed \<le> max 0 (account_balance e w (AgentAcc a))"
  proof cases
    case 1
    then show ?thesis using n by (auto simp: may_draw_def view_simps bal_def intro!: exI [of _ "n - bal"])
  qed (use n in \<open>auto simp: may_draw_def bal_def\<close>)
  then show "may_draw cx d w a ref e"
    "0 \<le> allowed" "allowed \<le> want" "allowed \<le> max 0 (account_balance e w (AgentAcc a))"
    "allowed \<le> allow_rules s cx d w a estimate want model"
    using n by (simp_all add: n_def)
qed

text \<open>
  The charge a settle decides on is at most what was delivered; when it is above the
  estimate the agent, or the workspace's unallocated balance, has the difference and its fee.
\<close>

definition extra :: "int \<Rightarrow> int \<Rightarrow> int \<Rightarrow> int" where
  "extra estimate charge bps = charge + platform_fee charge bps - estimate - platform_fee estimate bps"

lemma within_delivered:
  assumes est: "0 \<le> estimate" and bps: "0 \<le> bps" and dlv: "0 \<le> delivered" and room: "0 \<le> room"
    and more: "0 < extra estimate delivered bps"
  defines "charge \<equiv> min delivered (spend_within (estimate + platform_fee estimate bps + room) bps)"
  shows "estimate \<le> charge" "platform_fee estimate bps \<le> platform_fee charge bps"
    and "charge \<le> delivered" "extra estimate charge bps \<le> room"
proof -
  have gross: "0 \<le> estimate + platform_fee estimate bps + room"
    using est room platform_fee_nonneg [of estimate bps] by simp
  have "\<not> delivered \<le> estimate"
    using more platform_fee_mono [OF dlv _ bps, of estimate] by (auto simp: extra_def)
  then show le: "estimate \<le> charge"
    using spend_within_iff [OF est gross bps] room by (simp add: charge_def)
  show "platform_fee estimate bps \<le> platform_fee charge bps" by (rule platform_fee_mono [OF est le bps])
  show "charge \<le> delivered" by (simp add: charge_def)
  have "charge + platform_fee charge bps \<le> estimate + platform_fee estimate bps + room"
    unfolding charge_def by (rule plan_fee.clamp_fits [OF bps dlv gross])
  then show "extra estimate charge bps \<le> room" by (simp add: extra_def)
qed

lemma refund_charge:
  assumes bps: "0 \<le> bps" and est: "0 \<le> estimate" and less: "extra estimate delivered bps \<le> 0"
  shows "delivered \<le> estimate"
proof (rule ccontr)
  assume "\<not> delivered \<le> estimate"
  then have "platform_fee estimate bps \<le> platform_fee delivered bps" "estimate < delivered"
    using platform_fee_mono [OF est _ bps, of delivered] by simp_all
  then show False using less by (simp add: extra_def)
qed

lemma decide_charge_InrD:
  assumes s: "decide_charge s cx d w key agent estimate bps delivered k model left = Inr (e, charge)"
    and ok: "0 \<le> estimate" "0 \<le> bps" "0 \<le> delivered"
  shows "(extra estimate delivered bps \<le> 0 \<and> e = d \<and> charge = delivered \<and> charge \<le> estimate \<and>
      platform_fee charge bps \<le> platform_fee estimate bps) \<or>
    (0 < extra estimate delivered bps \<and> estimate \<le> charge \<and> charge \<le> delivered \<and>
      platform_fee estimate bps \<le> platform_fee charge bps \<and>
      (\<exists>c allowed. e = ensure_lxc_row c w \<and> 0 \<le> allowed \<and> extra estimate charge bps \<le> allowed \<and>
        extra estimate charge bps \<le> max 0 (bal_of e w - (if agent = None then allocated e w else 0)) \<and>
        (case agent of
           None \<Rightarrow> c = d \<and> allowed \<le> max left 0
         | Some a \<Rightarrow> may_draw cx d w a k c \<and>
             allowed \<le> max 0 (account_balance e w (AgentAcc a)) \<and>
             allowed \<le> allow_rules s cx d w a (estimate + platform_fee estimate bps)
               (extra estimate delivered bps) model)))"
proof (cases "extra estimate delivered bps \<le> 0")
  case True
  have "decide_charge s cx d w key agent estimate bps delivered k model left = Inr (d, delivered)"
    unfolding decide_charge_def Let_def extra_def [symmetric] using True by (simp only: if_True)
  from trans [OF sym [OF this] s] have "e = d \<and> charge = delivered" by simp
  moreover have "delivered \<le> estimate" by (rule refund_charge [OF ok(2,1) True])
  ultimately show ?thesis using True platform_fee_mono [OF ok(3) _ ok(2), of estimate] by (intro disjI1) simp
next
  case False
  define diff where "diff = extra estimate delivered bps"
  obtain c allowed where c: "(case agent of
        Some a \<Rightarrow> agent_allowance s cx d w a (estimate + platform_fee estimate bps) diff k model
      | None \<Rightarrow> Inr (d, min diff (max left 0))) = Inr (c, allowed)"
    and e: "e = ensure_lxc_row c w"
    and charge: "charge = min delivered (spend_within (estimate + platform_fee estimate bps +
        min allowed (max (if agent = None then bal_of c w - allocated (ensure_lxc_row c w) w else bal_of c w) 0)) bps)"
  proof -
    have "decide_charge s cx d w key agent estimate bps delivered k model left =
      rbind (case agent of
          Some a \<Rightarrow> agent_allowance s cx d w a (estimate + platform_fee estimate bps) diff k model
        | None \<Rightarrow> Inr (d, min diff (max left 0))) (\<lambda>(c, allowed). Inr (ensure_lxc_row c w,
          min delivered (spend_within (estimate + platform_fee estimate bps +
            min allowed (max (if agent = None then bal_of c w - allocated (ensure_lxc_row c w) w else bal_of c w) 0)) bps)))"
      unfolding decide_charge_def Let_def extra_def [symmetric] diff_def [symmetric]
      using False [folded diff_def] by (simp only: if_False read_lxc_balance_eq prod.case)
    from trans [OF sym [OF this] s] show thesis
    proof (rule rbind_InrE, goal_cases)
      case (1 q)
      then show ?case by (cases q) (rule that; force)
    qed
  qed
  define room where "room = min allowed (max (if agent = None then bal_of c w - allocated (ensure_lxc_row c w) w else bal_of c w) 0)"
  have diff: "0 \<le> diff" using False by (simp add: diff_def)
  have allowed: "0 \<le> allowed"
    using c diff allowance_InrD(2) by (auto split: option.splits)
  then have room: "0 \<le> room" by (simp add: room_def)
  note W = within_delivered [OF ok room, folded charge [folded room_def]]
  have "extra estimate charge bps \<le> max 0 (bal_of e w - (if agent = None then allocated e w else 0))"
    using W(4) False by (auto simp: room_def e view_simps)
  moreover have "extra estimate charge bps \<le> allowed" using W(4) False by (simp add: room_def)
  moreover have "case agent of
           None \<Rightarrow> c = d \<and> allowed \<le> max left 0
         | Some a \<Rightarrow> may_draw cx d w a k c \<and>
             allowed \<le> max 0 (account_balance e w (AgentAcc a)) \<and>
             allowed \<le> allow_rules s cx d w a (estimate + platform_fee estimate bps) diff model"
    using c allowance_InrD [OF _ diff] by (auto simp: e view_simps split: option.splits)
  ultimately show ?thesis using W(1-3) False allowed e unfolding diff_def by auto
qed

subsection \<open>The rows a settle writes\<close>

definition settle_wallet ::
    "ctx \<Rightarrow> db \<Rightarrow> string \<Rightarrow> string \<Rightarrow> int \<Rightarrow> int \<Rightarrow> int \<Rightarrow> int \<Rightarrow> debit_meta \<Rightarrow> db" where
  "settle_wallet cx d w key settled fee charge bps meta =
     (let b = bal_of d w - settled;
          desc = (if settled < 0 then ''agent debit settle: estimate above the delivered cost, refunded''
            else ''agent debit settle: delivered cost above the estimate'');
          d' = ensure_lxc_row d w;
          d' = (if settled \<noteq> 0
            then insert_lxc_ledger cx d' w (- settled) b Spend desc (to_spend_map meta charge) else d');
          d' = insert_platform_fee cx d' w fee (b - fee) bps charge (dm_request meta);
          d' = write_lxc_balance d' w (b - fee) (minted_of d w) (spent_of d w + (settled + fee))
      in add_subbudget_spent d' key (settled + fee))"

lemma settle_wallet_views [view_simps]:
  fixes cx d w key settled fee charge bps meta
  defines "D \<equiv> settle_wallet cx d w key settled fee charge bps meta"
  shows "bal_of D v = bal_of d v - (if v = w then settled + fee else 0)"
    and "ledger_sum D v = ledger_sum d v - (if v = w then settled + fee else 0)"
    and "cash_of D v = cash_of d v" "held_sum D v = held_sum d v" "allocated D v = allocated d v"
    and "account_balance D v c = account_balance d v c"
    and "has_row D v \<longleftrightarrow> v = w \<or> has_row d v"
  by (auto simp: D_def settle_wallet_def Let_def view_simps)

lemma settle_wallet_test: "0 \<le> test_of d v \<Longrightarrow> 0 \<le> test_of (settle_wallet cx d w key x fee charge bps meta) v"
  by (auto simp: settle_wallet_def Let_def view_simps clamp_nonneg)

lemma settle_wallet_frame [simp]:
  fixes cx d w key settled fee charge bps meta
  defines "D \<equiv> settle_wallet cx d w key settled fee charge bps meta"
  shows "reservations D = reservations d" "claims D = claims d" "settlements D = settlements d"
    "postings D = postings d" "next_entry D = next_entry d" "acct_balances D = acct_balances d"
    "agents D = agents d" "agent_keys D = agent_keys d"
    "subbudgets D k = None \<longleftrightarrow> subbudgets d k = None"
  by (simp_all add: D_def settle_wallet_def Let_def) (simp_all add: add_subbudget_spent_def split: option.split)

definition settled_db ::
    "ctx \<Rightarrow> db \<Rightarrow> string \<Rightarrow> string \<Rightarrow> string option \<Rightarrow> int \<Rightarrow> int \<Rightarrow> int \<Rightarrow> int \<Rightarrow> string \<Rightarrow> debit_meta \<Rightarrow> db" where
  "settled_db cx d w key agent settled fee charge bps debit_key meta =
     (if settled = 0 \<and> fee = 0 then d
      else let e = settle_wallet cx d w key settled fee charge bps meta
        in case agent of None \<Rightarrow> e
           | Some a \<Rightarrow> moved_db cx e w a settled fee bps (if settled < 0 then PkSettle else PkSpend) debit_key
               (dm_requested meta))"

lemma apply_settlement_eq:
  "apply_settlement cx d w key agent settled fee charge bps debit_key meta =
     Inr (settled_db cx d w key agent settled fee charge bps debit_key meta)"
proof (cases "settled = 0 \<and> fee = 0")
  case False
  define e where "e = settle_wallet cx d w key settled fee charge bps meta"
  have eq: "apply_settlement cx d w key agent settled fee charge bps debit_key meta =
      (case agent of
             None \<Rightarrow> Inr e
           | Some a \<Rightarrow>
               rbind (if settled \<noteq> 0 then
                   post_model_entry cx e w (if settled < 0 then PkSettle else PkSpend) debit_key
                     (dm_requested meta) [(AgentAcc a, - settled), (SpendAcc, settled)]
                 else Inr e) (\<lambda>d.
               if fee \<noteq> 0
               then post_fee_entry cx d w a fee bps debit_key (dm_requested meta)
               else Inr d))"
    unfolding apply_settlement_def e_def settle_wallet_def Let_def
    using False by (simp only: if_False read_lxc_balance_eq prod.case)
  show ?thesis
    unfolding eq
    using False by (auto simp: settled_db_def moved_db_def post_model_entry_eq post_fee_entry_eq
        e_def [symmetric] Let_def split: option.split)
qed (simp add: apply_settlement_def settled_db_def)

text \<open>
  A settle that charges more has the room for it; one that returns money needs none. Either
  way the books are kept.
\<close>

lemma settled_books:
  assumes b: "books d"
    and sign: "settled \<le> 0 \<and> fee \<le> 0 \<or> 0 \<le> settled \<and> 0 \<le> fee"
    and room: "settled + fee \<le> max 0 (bal_of d w - (if agent = None then allocated d w else 0))"
    and own: "\<And>a. agent = Some a \<Longrightarrow> settled + fee \<le> max 0 (account_balance d w (AgentAcc a))"
  shows "books (settled_db cx d w key agent settled fee charge bps debit_key meta)"
proof (cases "settled = 0 \<and> fee = 0")
  case False
  define e where "e = settle_wallet cx d w key settled fee charge bps meta"
  have "holds_ok e" using booksD(1) [OF b] by (simp add: e_def holds_ok_def)
  then have "books_slack (\<lambda>v. 0 - (bal_of e v - bal_of d v)) e"
    using b booksD [OF b] by (intro slack_wallet) (simp_all add: books_slack_0 view_simps settle_wallet_test e_def)
  then have sl: "books_slack (room_for w (- (settled + fee))) e"
    by (rule slack_cong) (simp add: e_def view_simps room_for_def)
  show ?thesis
  proof (cases agent)
    case None
    have "books_slack (\<lambda>_. 0) e"
      using None room booksD(5) [OF b] sign by (intro slack_tight [OF sl]) (auto simp: e_def view_simps)
    then show ?thesis using None False by (auto simp: settled_db_def e_def books_slack_0 Let_def)
  next
    case (Some a)
    have nn: "0 \<le> account_balance e w (AgentAcc a)"
      using accounts_okD [OF booksD(3) [OF b], of "AgentAcc a" w] by (simp add: e_def view_simps)
    have "settled + fee \<le> account_balance e w (AgentAcc a)"
      using own [OF Some] nn by (simp add: e_def view_simps)
    then have "books_slack ((room_for w (- (settled + fee)))(w := room_for w (- (settled + fee)) w - settled - fee))
        (moved_db cx e w a settled fee bps (if settled < 0 then PkSettle else PkSpend) debit_key (dm_requested meta))"
      using nn sign by (intro moved_slack [OF sl]) auto
    then have "books (moved_db cx e w a settled fee bps (if settled < 0 then PkSettle else PkSpend) debit_key
        (dm_requested meta))"
      by (rule slack_books) (simp add: room_for_def)
    then show ?thesis using Some False by (auto simp: settled_db_def e_def Let_def)
  qed
qed (simp add: settled_db_def b)

lemma moved_wallet_views [view_simps]:
  "cash_of (moved_db cx d w a delta fee bps kind ref model) v = cash_of d v"
  "held_sum (moved_db cx d w a delta fee bps kind ref model) v = held_sum d v"
  using moved_only [of d cx w a delta fee bps kind ref model] by (simp_all add: moves_only_def)

lemma settled_views [view_simps]:
  fixes cx d w key agent settled fee charge bps debit_key meta
  defines "D \<equiv> settled_db cx d w key agent settled fee charge bps debit_key meta"
  shows "bal_of D v = bal_of d v - (if v = w then settled + fee else 0)"
    and "cash_of D v = cash_of d v" "held_sum D v = held_sum d v"
  by (auto simp: D_def settled_db_def Let_def view_simps split: option.split)

lemma settled_frame [simp]:
  fixes cx d w key agent settled fee charge bps debit_key meta
  defines "D \<equiv> settled_db cx d w key agent settled fee charge bps debit_key meta"
  shows "reservations D = reservations d" "claims D = claims d" "settlements D = settlements d"
    "subbudgets D k = None \<longleftrightarrow> subbudgets d k = None"
  using moved_only [of "settle_wallet cx d w key settled fee charge bps meta"]
  by (auto simp: D_def settled_db_def Let_def moves_only_def split: option.split)

subsection \<open>The settle of a debit\<close>

definition taken_db :: "db \<Rightarrow> string \<Rightarrow> int \<Rightarrow> int \<Rightarrow> db" where
  "taken_db d w charge fee =
     (if charge > 0 then
        let before = bal_of d w + charge + fee;
            u = cash_used (cash_of d w) before charge;
            e = take_cash (ensure_lxc_row d w) w u
        in take_cash e w (cash_used (cash_of d w - u) (before - charge) fee)
      else d)"

lemma consume_settled_eq:
  assumes cash: "0 \<le> cash_of d w"
  shows "\<exists>cash. consume_settled d w charge fee = Inr (taken_db d w charge fee, cash)"
proof (cases "charge > 0")
  case True
  define u where "u = cash_used (cash_of d w) (bal_of d w + charge + fee) charge"
  have u: "0 \<le> u" "u \<le> cash_of d w" using cash_used_range cash by (simp_all add: u_def)
  have "cash_of (take_cash (ensure_lxc_row d w) w u) w = cash_of d w - u"
    using u by (simp add: view_simps)
  then show ?thesis
    using True by (simp add: consume_settled_def taken_db_def consume_cash_backed_eq Let_def view_simps
        u_def [symmetric])
qed (simp add: consume_settled_def taken_db_def)

lemma taken_views:
  assumes cash: "0 \<le> cash_of d w" and c: "0 \<le> charge" and f: "0 \<le> fee" and z: "charge = 0 \<Longrightarrow> fee = 0"
  shows "bal_of (taken_db d w charge fee) v = bal_of d v"
    and "held_sum (taken_db d w charge fee) v = held_sum d v"
    and "cash_of (taken_db d w charge fee) v =
      (if v = w then cash_after (cash_of d w) (bal_of d w + charge + fee) (charge + fee) else cash_of d v)"
proof -
  define u where "u = cash_used (cash_of d w) (bal_of d w + charge + fee) charge"
  define t where "t = cash_used (cash_of d w - u) (bal_of d w + charge + fee - charge) fee"
  have u: "0 \<le> u" "u \<le> cash_of d w" using cash_used_range cash by (simp_all add: u_def)
  have t: "0 \<le> t" "t \<le> cash_of d w - u" using cash_used_range u by (simp_all add: t_def)
  have ut: "u + t = cash_used (cash_of d w) (bal_of d w + charge + fee) (charge + fee)"
    using cash_used_add [OF cash c f] by (simp add: u_def t_def)
  have D: "taken_db d w charge fee =
      (if charge > 0 then take_cash (take_cash (ensure_lxc_row d w) w u) w t else d)"
    by (simp add: taken_db_def Let_def u_def t_def)
  show "bal_of (taken_db d w charge fee) v = bal_of d v" "held_sum (taken_db d w charge fee) v = held_sum d v"
    by (simp_all add: D view_simps)
  show "cash_of (taken_db d w charge fee) v =
      (if v = w then cash_after (cash_of d w) (bal_of d w + charge + fee) (charge + fee) else cash_of d v)"
  proof (cases "charge = 0")
    case True
    then show ?thesis using z by (simp add: taken_db_def cash_after_def cash_used_def)
  next
    case False
    then show ?thesis using u t ut c by (auto simp: D view_simps cash_after_def)
  qed
qed

lemma taken_books:
  assumes b: "books d"
  shows "books (taken_db d w charge fee)"
proof (cases "charge > 0")
  case True
  define u where "u = cash_used (cash_of d w) (bal_of d w + charge + fee) charge"
  define t where "t = cash_used (cash_of d w - u) (bal_of d w + charge + fee - charge) fee"
  have u: "0 \<le> u" "u \<le> cash_of d w" using cash_used_range booksD(6) [OF b] by (simp_all add: u_def)
  have t: "0 \<le> t" "t \<le> cash_of d w - u" using cash_used_range u by (simp_all add: t_def)
  have "books_slack (\<lambda>_. 0) (ensure_lxc_row d w)" using b by (simp add: books_slack_0 ensure_slack)
  then have "books_slack (\<lambda>_. 0) (take_cash (ensure_lxc_row d w) w u)"
    using u by (intro take_cash_slack) (simp_all add: view_simps)
  from take_cash_slack [OF this, of t w] u t
  have "books_slack (\<lambda>_. 0) (take_cash (take_cash (ensure_lxc_row d w) w u) w t)"
    by (simp add: view_simps)
  then show ?thesis using True by (simp add: taken_db_def Let_def u_def t_def books_slack_0)
qed (simp add: taken_db_def b)

lemma taken_frame [simp]:
  "reservations (taken_db d w charge fee) = reservations d" "claims (taken_db d w charge fee) = claims d"
  "settlements (taken_db d w charge fee) = settlements d"
  "subbudgets (taken_db d w charge fee) = subbudgets d"
  by (simp_all add: taken_db_def Let_def)

lemma settlements_money [simp]: "same_money d (d\<lparr>settlements := st\<rparr>)"
  by (simp add: same_money_def)

definition put_row :: "db \<Rightarrow> string \<Rightarrow> debit_settlement \<Rightarrow> db" where
  "put_row d k row = d\<lparr>settlements := (settlements d)(k \<mapsto> row)\<rparr>"

lemma put_settlement_eq:
  "put_settlement d k row = (if settlement_checks row then Inr (put_row d k row)
     else Inl (ErrDbCheck ''agent_debit_settlements''))"
  by (simp add: put_settlement_def put_row_def)

lemma decide_charge_succeeds:
  "\<exists>e charge. decide_charge s cx d w key agent estimate bps dlv k model left = Inr (e, charge)"
proof -
  have allowance: "\<exists>e allowed. agent_allowance s cx d w a est want ref model = Inr (e, allowed)"
    for a est want ref
    by (auto simp: agent_allowance_def Let_def draw_eq)
  define X where "X = (case agent of
      Some a \<Rightarrow> agent_allowance s cx d w a (estimate + platform_fee estimate bps)
        (dlv + platform_fee dlv bps - estimate - platform_fee estimate bps) k model
    | None \<Rightarrow> Inr (d, min (dlv + platform_fee dlv bps - estimate - platform_fee estimate bps) (max left 0)))"
  have "\<exists>e allowed. X = Inr (e, allowed)"
    using allowance by (cases agent) (simp_all add: X_def)
  then obtain e allowed where "X = Inr (e, allowed)" by blast
  then show ?thesis unfolding decide_charge_def Let_def X_def [symmetric] by simp
qed

definition settle_debit_result ::
    "ctx \<Rightarrow> db \<Rightarrow> string \<Rightarrow> string \<Rightarrow> spend_claim \<Rightarrow> string option \<Rightarrow> int \<Rightarrow> int \<Rightarrow> debit_meta \<Rightarrow> db" where
  "settle_debit_result cx e w k c agent dlv charge meta =
     (let est = cl_amount c; bps = cl_bps c; settled = charge - est;
          fee = platform_fee charge bps - platform_fee est bps;
          f = settled_db cx e w (cl_key c) agent settled fee charge bps k meta
      in put_row (taken_db f w charge (platform_fee charge bps)) k
           (settlement_row w (cl_key c) agent meta est dlv settled (dlv - charge)))"

definition first_row :: "string \<Rightarrow> spend_claim \<Rightarrow> int \<Rightarrow> debit_meta \<Rightarrow> debit_settlement" where
  "first_row w c dlv meta = settlement_row w (cl_key c) None meta (cl_amount c) dlv (dlv - cl_amount c) 0"

lemma put_row_frame [simp]:
  "reservations (put_row d k row) = reservations d" "claims (put_row d k row) = claims d"
  "subbudgets (put_row d k row) = subbudgets d" "settlements (put_row d k row) = (settlements d)(k \<mapsto> row)"
  "agents (put_row d k row) = agents d" "agent_keys (put_row d k row) = agent_keys d"
  "same_money d (put_row d k row)"
  by (simp_all add: put_row_def)

lemma put_row_agents [simp]:
  "agent_of_key (put_row d k row) key = agent_of_key d key"
  "agent_in_workspace (put_row d k row) key w = agent_in_workspace d key w"
  using agent_of_key_cong [of "put_row d k row" d key] by (simp_all add: agent_in_workspace_def)

lemma agent_in_workspace_lock:
  "(case agent_in_workspace d key w of None \<Rightarrow> Inr () | Some a \<Rightarrow> lock_agent d w a) = Inr ()"
  using agent_of_key_lock [of d key] by (auto simp: agent_in_workspace_def split: option.split)

text \<open>A settle of a booked debit never trips a CHECK of its table, and never fails.\<close>

lemma settle_debit_eq:
  assumes pool: "st_pool s" and names: "w \<noteq> ''''" "k \<noteq> ''''"
    and c: "map_of (claims d) k = Some c" and n: "settlements d k = None"
    and sb: "subbudgets d (cl_key c) = Some sb"
    and ok: "0 \<le> cl_amount c" "0 \<le> cl_bps c"
    and dc: "decide_charge s cx (put_row d k (first_row w c (max 0 delivered) meta)) w (cl_key c)
        (agent_in_workspace d (cl_key c) w) (cl_amount c) (cl_bps c) (max 0 delivered) k (dm_requested meta)
        (sb_ceiling sb - sb_spent sb) = Inr (e, charge)"
    and cash: "0 \<le> cash_of e w"
  shows "\<exists>cash. settle_agent_debit s cx d w k delivered meta = Inr
      (settle_debit_result cx e w k c (agent_in_workspace d (cl_key c) w) (max 0 delivered) charge meta,
       \<lparr>do_settled = charge - cl_amount c, do_written_off = max 0 delivered - charge, do_cash_backed = cash,
         do_settled_fee = platform_fee charge (cl_bps c) - platform_fee (cl_amount c) (cl_bps c)\<rparr>)"
proof -
  define dlv where "dlv = max 0 delivered"
  define agent where "agent = agent_in_workspace d (cl_key c) w"
  define d0 where "d0 = put_row d k (first_row w c dlv meta)"
  have dlv: "(if delivered < 0 then 0 else delivered) = dlv" "0 \<le> dlv" by (simp_all add: dlv_def)
  have first: "settlement_checks (first_row w c dlv meta)"
    by (simp add: settlement_checks_def first_row_def settlement_row_def)
  have "charge \<le> dlv" using decide_charge_InrD [OF dc [folded dlv_def] ok dlv(2)] by auto
  then have last: "settlement_checks (settlement_row w (cl_key c) agent meta (cl_amount c) dlv
      (charge - cl_amount c) (dlv - charge))"
    by (simp add: settlement_checks_def settlement_row_def)
  define f where "f = settled_db cx e w (cl_key c) agent (charge - cl_amount c)
    (platform_fee charge (cl_bps c) - platform_fee (cl_amount c) (cl_bps c)) charge (cl_bps c) k meta"
  have "0 \<le> cash_of f w" using cash by (simp add: f_def view_simps)
  then obtain cash where "consume_settled f w charge (platform_fee charge (cl_bps c)) =
      Inr (taken_db f w charge (platform_fee charge (cl_bps c)), cash)"
    using consume_settled_eq by blast
  then have take: "consume_settled f w charge (platform_fee (cl_amount c) (cl_bps c) +
      (platform_fee charge (cl_bps c) - platform_fee (cl_amount c) (cl_bps c))) =
      Inr (taken_db f w charge (platform_fee charge (cl_bps c)), cash)" by simp
  have lock: "(case agent of None \<Rightarrow> Inr () | Some a \<Rightarrow> lock_agent d0 w a) = Inr ()"
    using agent_in_workspace_lock [where d = d0 and key = "cl_key c" and w = w] by (simp only: agent_def d0_def put_row_agents)
  have "settle_agent_debit s cx d w k delivered meta = Inr
      (settle_debit_result cx e w k c agent dlv charge meta,
       \<lparr>do_settled = charge - cl_amount c, do_written_off = dlv - charge, do_cash_backed = cash,
         do_settled_fee = platform_fee charge (cl_bps c) - platform_fee (cl_amount c) (cl_bps c)\<rparr>)"
    unfolding settle_agent_debit_def Let_def settle_debit_result_def dlv
    using pool names c n sb first last take dc
    by (simp add: put_settlement_eq apply_settlement_eq lock [unfolded d0_def first_row_def agent_def dlv_def]
        first_row_def agent_def dlv_def f_def)
  then show ?thesis by (auto simp: dlv_def agent_def)
qed

subsection \<open>What a settled debit keeps\<close>

lemma may_draw_slack: "books_slack k d \<Longrightarrow> may_draw cx d w a ref e \<Longrightarrow> books_slack k e"
  by (auto simp: may_draw_def intro: drawn_books)

lemma may_draw_moves: "may_draw cx d w a ref e \<Longrightarrow> moves_only d e \<and> bal_of d v \<le> bal_of e v"
  by (auto simp: may_draw_def view_simps)

text \<open>The state a settle charges in, and the room it found there.\<close>

lemma decided:
  assumes dc: "decide_charge s cx d w key agent estimate bps dlv k model left = Inr (e, charge)"
    and ok: "0 \<le> estimate" "0 \<le> bps" "0 \<le> dlv" and b: "books d"
  shows "books e" and "moves_only d e" and "bal_of d v \<le> bal_of e v"
    and "0 \<le> charge" "charge \<le> dlv"
    and "charge - estimate \<le> 0 \<and> platform_fee charge bps - platform_fee estimate bps \<le> 0 \<or>
      0 \<le> charge - estimate \<and> 0 \<le> platform_fee charge bps - platform_fee estimate bps"
    and "extra estimate charge bps \<le> max 0 (bal_of e w - (if agent = None then allocated e w else 0))"
    and "agent = Some a \<Longrightarrow> extra estimate charge bps \<le> max 0 (account_balance e w (AgentAcc a))"
proof -
  note D = decide_charge_InrD [OF dc ok]
  have E: "e = d \<or> (\<exists>c. e = ensure_lxc_row c w \<and> (c = d \<or> (\<exists>a. may_draw cx d w a k c)))"
    using D by (auto split: option.splits)
  then have "books e \<and> moves_only d e \<and> (\<forall>v. bal_of d v \<le> bal_of e v)"
  proof (elim disjE exE conjE)
    fix c a
    assume e: "e = ensure_lxc_row c w" and m: "may_draw cx d w a k c"
    have "books_slack (\<lambda>_. 0) e"
      unfolding e using b m by (intro ensure_slack may_draw_slack [OF _ m]) (simp add: books_slack_0)
    moreover have "moves_only d e" unfolding e using may_draw_moves [OF m] ensure_moves by (blast intro: moves_only_trans)
    ultimately show ?thesis using may_draw_moves [OF m] by (auto simp: e books_slack_0 view_simps)
  qed (use b in \<open>auto simp: view_simps books_ensure\<close>)
  then show "books e" "moves_only d e" "bal_of d v \<le> bal_of e v" by blast+
  show "0 \<le> charge" "charge \<le> dlv" using D ok by auto
  show "charge - estimate \<le> 0 \<and> platform_fee charge bps - platform_fee estimate bps \<le> 0 \<or>
      0 \<le> charge - estimate \<and> 0 \<le> platform_fee charge bps - platform_fee estimate bps"
    using D by auto
  have neg: "extra estimate charge bps \<le> 0" if "extra estimate dlv bps \<le> 0" using D that by auto
  show "extra estimate charge bps \<le> max 0 (bal_of e w - (if agent = None then allocated e w else 0))"
    using D neg by fastforce
  show "extra estimate charge bps \<le> max 0 (account_balance e w (AgentAcc a))" if "agent = Some a"
    using D neg that by fastforce
qed

lemma settle_debit_cases:
  assumes s: "settle_agent_debit s cx d w k delivered meta = Inr (d', out)" and pool: "st_pool s"
    and b: "books d" and ok: "claims_ok d"
  obtains (replay) "settlements d k \<noteq> None" "d' = d" "out = nothing_owed"
  | (fresh) c sb e charge cash where "map_of (claims d) k = Some c" "settlements d k = None"
      "subbudgets d (cl_key c) = Some sb" "0 < cl_amount c" "0 \<le> cl_bps c"
      "decide_charge s cx (put_row d k (first_row w c (max 0 delivered) meta)) w (cl_key c)
        (agent_in_workspace d (cl_key c) w) (cl_amount c) (cl_bps c) (max 0 delivered) k (dm_requested meta)
        (sb_ceiling sb - sb_spent sb) = Inr (e, charge)"
      "d' = settle_debit_result cx e w k c (agent_in_workspace d (cl_key c) w) (max 0 delivered) charge meta"
      "out = \<lparr>do_settled = charge - cl_amount c, do_written_off = max 0 delivered - charge, do_cash_backed = cash,
         do_settled_fee = platform_fee charge (cl_bps c) - platform_fee (cl_amount c) (cl_bps c)\<rparr>"
proof (cases "settlements d k")
  case (Some row)
  then show thesis using s pool
    by (intro replay) (auto simp: settle_agent_debit_def Let_def split: if_splits option.splits)
next
  case None
  have names: "w \<noteq> ''''" "k \<noteq> ''''" using s by (auto simp: settle_agent_debit_def)
  obtain c where c: "map_of (claims d) k = Some c"
    using s pool by (auto simp: settle_agent_debit_def Let_def split: if_splits option.splits)
  have "(k, c) \<in> set (claims d)" using c by (rule map_of_SomeD)
  then have c_ok: "0 < cl_amount c" "0 \<le> cl_bps c" "subbudgets d (cl_key c) \<noteq> None"
    using ok by (auto simp: claims_ok_def)
  then obtain sb where sb: "subbudgets d (cl_key c) = Some sb" by blast
  let ?d = "put_row d k (first_row w c (max 0 delivered) meta)"
  obtain e charge where dc: "decide_charge s cx ?d w (cl_key c)
        (agent_in_workspace d (cl_key c) w) (cl_amount c) (cl_bps c) (max 0 delivered) k (dm_requested meta)
        (sb_ceiling sb - sb_spent sb) = Inr (e, charge)"
    using decide_charge_succeeds by blast
  have "books ?d" using b by (rule same_money_books [rotated]) simp
  from booksD(6) [OF decided(1) [OF dc less_imp_le [OF c_ok(1)] c_ok(2) _ this]]
  have "0 \<le> cash_of e w" by simp
  from settle_debit_eq [OF pool names c None sb less_imp_le [OF c_ok(1)] c_ok(2) dc this]
  show thesis using s by (auto intro: fresh [OF c None sb c_ok(1,2) dc])
qed

lemma settle_debit_keeps [keeps]:
  assumes s: "settle_agent_debit s cx d w k delivered meta = Inr (d', out)" and pool: "st_pool s"
    and b: "books d" and ok: "claims_ok d"
  shows "books d'" and "claims_ok d'"
proof -
  have "books d' \<and> claims_ok d'"
    using s pool b ok
  proof (cases rule: settle_debit_cases)
    case (fresh c sb e charge cash)
    let ?d = "put_row d k (first_row w c (max 0 delivered) meta)"
    have d: "books ?d" using b by (rule same_money_books [rotated]) simp
    note E = decided [OF fresh(6) less_imp_le [OF fresh(4)] fresh(5) _ d]
    have f: "books (settled_db cx e w (cl_key c) (agent_in_workspace d (cl_key c) w) (charge - cl_amount c)
        (platform_fee charge (cl_bps c) - platform_fee (cl_amount c) (cl_bps c)) charge (cl_bps c) k meta)"
      using E(6-8) by (intro settled_books E(1)) (simp_all add: extra_def algebra_simps)
    have put: "books (put_row x k row)" if "books x" for x row
      using that by (rule same_money_books [rotated]) simp
    have "books d'"
      unfolding fresh(7) settle_debit_result_def Let_def by (intro put taken_books f)
    have "k \<in> fst ` set (claims d)" using map_of_SomeD [OF fresh(1)] by force
    then have "claims_ok d'"
      using ok E(2) by (auto simp: fresh(7) settle_debit_result_def Let_def claims_ok_def moves_only_def)
    with \<open>books d'\<close> show ?thesis ..
  qed (use b ok in simp)
  then show "books d'" "claims_ok d'" by blast+
qed

lemma settle_debit_backed [keeps]:
  assumes s: "settle_agent_debit s cx d w k delivered meta = Inr (d', out)" and pool: "st_pool s"
    and b: "books d" and ok: "claims_ok d"
    and kw: "\<And>c. map_of (claims d) k = Some c \<Longrightarrow> kw (cl_key c) = w" and x: "backed (open_debits kw d) d"
  shows "backed (open_debits kw d') d'"
proof -
  show "backed (open_debits kw d') d'"
    using s pool b ok
  proof (cases rule: settle_debit_cases)
    case (fresh c sb e charge cash)
    let ?d = "put_row d k (first_row w c (max 0 delivered) meta)"
    let ?fee = "platform_fee charge (cl_bps c)"
    define f where "f = settled_db cx e w (cl_key c) (agent_in_workspace d (cl_key c) w) (charge - cl_amount c)
        (?fee - platform_fee (cl_amount c) (cl_bps c)) charge (cl_bps c) k meta"
    have d: "books ?d" using b by (rule same_money_books [rotated]) simp
    note E = decided [OF fresh(6) less_imp_le [OF fresh(4)] fresh(5) _ d]
    have d': "claims d' = claims d" "settlements d' = (settlements d)(k \<mapsto>
        settlement_row w (cl_key c) (agent_in_workspace d (cl_key c) w) meta (cl_amount c) (max 0 delivered)
          (charge - cl_amount c) (max 0 delivered - charge))"
      using E(2) by (simp_all add: fresh(7) settle_debit_result_def Let_def moves_only_def)
    have open': "open_debits kw d' v = open_debits kw d v - (if v = w then claim_total c else 0)" for v
      using open_debits_settle [OF ok fresh(1,2) d'] kw [OF fresh(1)] by auto
    have e: "cash_of e v = cash_of d v" "held_sum e v = held_sum d v" "bal_of d v \<le> bal_of e v" for v
      using E(2) E(3) [of v] same_money_views(1,2,4) [of d ?d] by (simp_all add: moves_only_def)
    have f: "cash_of f v = cash_of d v" "held_sum f v = held_sum d v"
      "bal_of f v = bal_of e v - (if v = w then charge + ?fee - claim_total c else 0)" for v
      by (simp_all add: f_def view_simps e claim_total_def)
    have z: "charge = 0 \<Longrightarrow> ?fee = 0" by (simp add: platform_fee_def)
    have T: "cash_of d' v = cash_of (taken_db f w charge ?fee) v"
      "bal_of d' v = bal_of (taken_db f w charge ?fee) v"
      "held_sum d' v = held_sum (taken_db f w charge ?fee) v" for v
      using same_money_views(1,2,4) [OF put_row_frame(7)]
      by (simp_all add: fresh(7) settle_debit_result_def Let_def f_def)
    show ?thesis
    proof (rule backedI)
      fix v
      have V: "bal_of d' v = bal_of f v" "held_sum d' v = held_sum f v"
        "cash_of d' v = (if v = w then cash_after (cash_of f w) (bal_of f w + charge + ?fee) (charge + ?fee) else cash_of f v)"
        using taken_views [of f w charge ?fee v] E(4) z f(1) booksD(6) [OF b] platform_fee_nonneg
        by (simp_all add: T)
      have c: "0 \<le> claim_total c" using fresh(4) claim_total_pos less_imp_le by blast
      have held: "0 \<le> held_sum d v" "0 \<le> bal_of e v" using booksD(9) [OF b] booksD(5,8) [OF E(1), of v] by simp_all
      have paid: "charge + ?fee \<le> bal_of e w + claim_total c"
        using E(7) booksD(5,8) [OF E(1), of w] c by (auto simp: extra_def claim_total_def split: if_splits)
      have o: "0 \<le> open_debits kw d' v"
        using settle_debit_keeps(2) [OF s pool b ok] by (rule open_debits_nonneg)
      show "0 \<le> cash_of d' v \<and> cash_of d' v \<le> bal_of d' v + held_sum d' v + open_debits kw d' v"
        using backedD [OF x, of v] e(3) [of v] V f [of v] open' [of v] c held o paid
          cash_after_within [of "cash_of d v" "bal_of e v + claim_total c" "held_sum d v + open_debits kw d' v" "charge + ?fee"]
          E(4) platform_fee_nonneg [of charge "cl_bps c"]
        by (cases "v = w") auto
    qed
  qed (use x in simp)
qed

text \<open>The parts of a settle add up: estimate, settled and written off are the delivered cost.\<close>

lemma settle_debit_effect:
  assumes s: "settle_agent_debit s cx d w k delivered meta = Inr (d', out)" and pool: "st_pool s"
    and b: "books d" and ok: "claims_ok d" and n: "settlements d k = None"
  shows "\<exists>c charge. map_of (claims d) k = Some c \<and> charge = cl_amount c + do_settled out \<and>
    charge + do_written_off out = max 0 delivered \<and> 0 \<le> charge \<and> 0 \<le> do_written_off out \<and>
    do_settled_fee out = platform_fee charge (cl_bps c) - platform_fee (cl_amount c) (cl_bps c) \<and>
    (settlements d' k = Some (settlement_row w (cl_key c) (agent_in_workspace d (cl_key c) w) meta (cl_amount c)
      (max 0 delivered) (do_settled out) (do_written_off out))) \<and>
    (0 < do_settled out \<longrightarrow> delivered > cl_amount c) \<and>
    (max 0 delivered \<le> cl_amount c \<longrightarrow> do_written_off out = 0)"
  using s pool b ok
proof (cases rule: settle_debit_cases)
  case (fresh c sb e charge cash)
  let ?d = "put_row d k (first_row w c (max 0 delivered) meta)"
  have d: "books ?d" using b by (rule same_money_books [rotated]) simp
  note E = decided [OF fresh(6) less_imp_le [OF fresh(4)] fresh(5) _ d]
  have "max 0 delivered \<le> cl_amount c \<Longrightarrow> charge = max 0 delivered"
  proof -
    assume le: "max 0 delivered \<le> cl_amount c"
    then have "extra (cl_amount c) (max 0 delivered) (cl_bps c) \<le> 0"
      unfolding extra_def using le platform_fee_mono [OF _ le fresh(5)] by linarith
    then show ?thesis using decide_charge_InrD [OF fresh(6) less_imp_le [OF fresh(4)] fresh(5)] by auto
  qed
  moreover have "settlements d' k = Some (settlement_row w (cl_key c) (agent_in_workspace d (cl_key c) w) meta
      (cl_amount c) (max 0 delivered) (charge - cl_amount c) (max 0 delivered - charge))"
    by (simp add: fresh(7) settle_debit_result_def Let_def)
  ultimately show ?thesis
    using fresh(1,4,8) E(4,5) by (intro exI [of _ c] exI [of _ charge]) auto
qed (use n in simp)

subsection \<open>Debits and settles sent again\<close>

definition run_spend ::
    "store \<Rightarrow> ctx \<Rightarrow> string \<Rightarrow> string \<Rightarrow> string \<Rightarrow> int \<Rightarrow> string \<Rightarrow> debit_meta \<Rightarrow> db \<Rightarrow> err + db" where
  "run_spend s cx key w request amount desc meta d = spend_lxc_for_agent s cx d key w request amount desc meta"

definition spend_claimed :: "store \<Rightarrow> string \<Rightarrow> string \<Rightarrow> string \<Rightarrow> int \<Rightarrow> db \<Rightarrow> bool" where
  "spend_claimed s key w request amount d \<longleftrightarrow> 0 < amount \<and> key \<noteq> '''' \<and> w \<noteq> '''' \<and> request \<noteq> '''' \<and>
     (st_pool s \<longrightarrow> map_of (claims d) request \<noteq> None)"

lemma spend_agent_claims:
  assumes s: "spend_lxc_for_agent s cx d key w request amount desc meta = Inr d'" and pool: "st_pool s"
  shows "map_of (claims d') request \<noteq> None"
  using s pool
proof (cases rule: spend_agent_cases)
  case (fresh bps fee m is_agent)
  then show ?thesis using movement_moves(1) [OF fresh(5)] by (simp add: fresh(9) moves_only_def map_add_def)
qed simp

interpretation spend: exactly_once
    "run_spend s cx key w request amount desc meta" "spend_claimed s key w request amount" "fee_answers s w"
  for s cx key w request amount desc meta
proof
  show "run_spend s cx key w request amount desc meta d = Inr d' \<Longrightarrow> spend_claimed s key w request amount d'" for d d'
    using spend_agent_claims
    by (auto simp: run_spend_def spend_claimed_def spend_lxc_for_agent_def split: if_splits)
  show "spend_claimed s key w request amount d \<Longrightarrow> fee_answers s w d \<Longrightarrow>
      run_spend s cx key w request amount desc meta d = Inr d" for d
    by (auto simp: run_spend_def spend_claimed_def fee_answers_def spend_lxc_for_agent_def Let_def)
qed

subsection \<open>Running an attempt again\<close>

text \<open>The attempt whose result is returned: the first that is not a lock failure, or the last allowed.\<close>

definition returned :: "('e \<Rightarrow> bool) \<Rightarrow> (nat \<Rightarrow> bool) \<Rightarrow> (nat \<Rightarrow> 'e + 'a) \<Rightarrow> nat \<Rightarrow> nat \<Rightarrow> nat \<Rightarrow> 'e retry_error + 'a \<Rightarrow> bool" where
  "returned lf cancelled outcome first final n res \<longleftrightarrow> first \<le> n \<and> n \<le> final \<and>
     (\<forall>m. first \<le> m \<and> m < n \<longrightarrow> (\<exists>e. outcome m = Inl e \<and> lf e \<and> \<not> cancelled m)) \<and>
     (case outcome n of
        Inr x \<Rightarrow> res = Inr x
      | Inl e \<Rightarrow> if lf e then (n = final \<or> cancelled n) \<and> res = Inl (LockContention e)
                 else res = Inl (AttemptError e))"

lemma retry_from_returned:
  "\<exists>n. returned lf cancelled outcome attempt (attempt + left) n (retry_from lf cancelled outcome left attempt)"
proof (induction left arbitrary: attempt)
  case 0
  have "returned lf cancelled outcome attempt (attempt + 0) attempt (retry_from lf cancelled outcome 0 attempt)"
    by (auto simp: returned_def split: sum.split)
  then show ?case ..
next
  case (Suc left)
  show ?case
  proof (cases "\<exists>e. outcome attempt = Inl e \<and> lf e \<and> \<not> cancelled attempt")
    case True
    then obtain e where e: "outcome attempt = Inl e" "lf e" "\<not> cancelled attempt" by blast
    obtain n where n: "returned lf cancelled outcome (Suc attempt) (Suc attempt + left) n
        (retry_from lf cancelled outcome left (Suc attempt))"
      using Suc by blast
    have "m = attempt \<or> Suc attempt \<le> m" if "attempt \<le> m" for m using that by linarith
    then have "returned lf cancelled outcome attempt (attempt + Suc left) n
        (retry_from lf cancelled outcome (Suc left) attempt)"
      using n e by (auto simp: returned_def)
    then show ?thesis ..
  next
    case False
    then have "returned lf cancelled outcome attempt (attempt + Suc left) attempt
        (retry_from lf cancelled outcome (Suc left) attempt)"
      by (auto simp: returned_def split: sum.split)
    then show ?thesis ..
  qed
qed

end
