(* ===== verification/Wallet_System.thy ===== *)
theory Wallet_System
  imports Debit_Books
begin

section \<open>The wallet as a state machine\<close>

text \<open>
  Every operation of the earlier theories is one step of the machine whose state is the
  database: a step commits one transaction, and a refused one leaves the state alone. \<open>kw\<close>
  says which workspace each API key was issued in: authentication resolves a key to its
  workspace before a wallet operation runs, so a key reaches the wallet with that workspace
  and no other, and the same holds of the key a room or an agent is given.

  \<open>wallet_inv\<close> is what every reachable database satisfies: the books, the debits' claims,
  the cash backing against the open holds and debits, and keys and holds at home.
\<close>

subsection \<open>What a step leaves of keys, claims and holds\<close>

definition hold_names :: "db \<Rightarrow> (string \<times> string \<times> string) list" where
  "hold_names d = map (\<lambda>r. (rv_id r, rv_key r, rv_ws r)) (reservations d)"

definition same_places :: "db \<Rightarrow> db \<Rightarrow> bool" where
  "same_places d d' \<longleftrightarrow> agent_keys d' = agent_keys d \<and> agent_places d' = agent_places d \<and>
     hold_names d' = hold_names d"

definition same_debits :: "db \<Rightarrow> db \<Rightarrow> bool" where
  "same_debits d d' \<longleftrightarrow> claims d' = claims d \<and> settlements d' = settlements d \<and>
     (\<forall>k. subbudgets d' k = None \<longleftrightarrow> subbudgets d k = None)"

definition homed :: "(string \<Rightarrow> string) \<Rightarrow> db \<Rightarrow> bool" where
  "homed kw d \<longleftrightarrow>
     list_all (\<lambda>e. map_of (agent_places d) (snd e) = Some (kw (fst e))) (agent_keys d) \<and>
     list_all (\<lambda>h. case h of (i, key, w) \<Rightarrow> i \<noteq> '''' \<and> w = kw key) (hold_names d)"

definition wallet_inv :: "(string \<Rightarrow> string) \<Rightarrow> db \<Rightarrow> bool" where
  "wallet_inv kw d \<longleftrightarrow> books d \<and> claims_ok d \<and> backed (open_debits kw d) d \<and> homed kw d"

lemma same_refl [simp]: "same_places d d" "same_debits d d"
  by (simp_all add: same_places_def same_debits_def)

lemma same_trans:
  "same_places d e \<Longrightarrow> same_places e f \<Longrightarrow> same_places d f"
  "same_debits d e \<Longrightarrow> same_debits e f \<Longrightarrow> same_debits d f"
  by (simp_all add: same_places_def same_debits_def)

lemma moves_only_same: "moves_only d d' \<Longrightarrow> same_places d d' \<and> same_debits d d'"
  by (simp add: moves_only_def same_places_def same_debits_def hold_names_def)

lemma homed_same: "same_places d d' \<Longrightarrow> homed kw d' = homed kw d"
  by (simp add: same_places_def homed_def)

lemma wallet_inv_same:
  assumes inv: "wallet_inv kw d" and p: "same_places d d'" and t: "same_debits d d'"
    and b: "books d'" and c: "backed (open_debits kw d) d \<Longrightarrow> backed (open_debits kw d) d'"
  shows "wallet_inv kw d'"
proof -
  have "open_debits kw d' = open_debits kw d"
    using t by (intro ext open_debits_cong) (simp_all add: same_debits_def)
  then show ?thesis
    using inv b c homed_same [OF p, of kw] t claims_ok_cong [of d' d]
    by (simp add: wallet_inv_def same_debits_def)
qed

lemma homed_key:
  assumes "homed kw d" and "agent_of_key d key = Some (a, w)" shows "w = kw key"
  using assms
  by (fastforce simp: homed_def agent_of_key_places list_all_iff dest: map_of_SomeD split: option.splits)

lemma homed_key_home: "homed kw d \<Longrightarrow> key_home d key (kw key)"
  using homed_key by (fastforce simp: key_home_def split: option.split)

lemma homed_hold:
  assumes "homed kw d" and "find_reservation d i = Some r"
  shows "rv_ws r = kw (rv_key r)" and "i \<noteq> ''''" and "key_home d (rv_key r) (rv_ws r)"
proof -
  show "rv_ws r = kw (rv_key r)" "i \<noteq> ''''"
    using assms find_reservation_D [OF assms(2)] by (auto simp: homed_def hold_names_def list_all_iff)
  then show "key_home d (rv_key r) (rv_ws r)" using homed_key_home [OF assms(1)] by simp
qed

lemma homed_holds: "homed kw d \<Longrightarrow> keys_home d \<and> (\<forall>r\<in>set (reservations d). rv_id r \<noteq> '''')"
  using homed_key_home by (fastforce simp: keys_home_def homed_def hold_names_def list_all_iff)

subsection \<open>The credits, the accounts and the rules\<close>

definition kept :: "db \<Rightarrow> db \<Rightarrow> bool" where
  "kept d d' \<longleftrightarrow> same_places d d' \<and> same_debits d d'"

lemma kept_refl [simp]: "kept d d"
  by (simp add: kept_def)

lemma kept_trans: "kept d e \<Longrightarrow> kept e f \<Longrightarrow> kept d f"
  using same_trans by (auto simp: kept_def)

lemmas kept_iff = kept_def same_places_def same_debits_def hold_names_def agent_places_def

lemma kept_rows [simp]:
  "kept d (ensure_lxc_row d w)" "kept d (take_cash d w x)" "kept d (write_cash_backed d w x)"
  "kept d (insert_lxc_ledger cx d w x b ty de me)" "kept d (write_lxc_balance d w b m p)"
  "kept d (add_test_funded d w t)" "kept d (debit_db cx d w x f rate ty de me rq)"
  "kept d (posted_db cx d w kind ref model bps ls)"
  by (simp_all add: kept_iff)

lemma kept_credit_db [simp]: "kept d (credit_db cx d w x ty de me t)"
  by (simp add: kept_iff credit_db_def Let_def)

lemma spend_kept: "spend_lxc_meta s cx d w x de me = Inr (d', part) \<Longrightarrow> kept d d'"
  if "books d"
proof (cases "st_pool s")
  case True
  assume "spend_lxc_meta s cx d w x de me = Inr (d', part)"
  from spend_lxc_meta_InrD [OF this True booksD(6) [OF that]] show ?thesis
    by (auto simp: Let_def kept_iff)
next
  case False
  assume "spend_lxc_meta s cx d w x de me = Inr (d', part)"
  with False show ?thesis by (auto simp: spend_lxc_meta_def split: if_splits)
qed

lemma credit_kept: "credit_lxc_tx_typed cx d w x ty de me = Inr (d', b) \<Longrightarrow> kept d d'"
  by (drule credit_InrD) (auto simp: Let_def kept_iff credit_db_def split: prod.splits if_splits)

lemma refund_kept: "reduce_cash_backed_for_refund d w x = Inr d' \<Longrightarrow> kept d d'"
  by (auto simp: reduce_cash_backed_for_refund_def read_cash_backed_eq kept_iff Let_def split: if_splits)

lemma fold_kept: "(\<And>x y. kept y (f x y)) \<Longrightarrow> kept d (fold f xs d)"
  by (induction xs arbitrary: d) (auto intro: kept_trans)

lemma grant_short_kept: "kept (fst st) (fst (grant_short cx target de me w st))"
  by (cases st) (simp add: grant_short_def Let_def kept_iff)

lemma grant_fold_kept: "kept (fst st) (fst (fold (grant_short cx target de me) ws st))"
proof (induction ws arbitrary: st)
  case (Cons w ws)
  show ?case using kept_trans [OF grant_short_kept [of st cx target de me w] Cons] by simp
qed simp

lemma grant_up_to_kept:
  assumes "grant_lxc_up_to s cx d ws target de me = Inr (d', n)" shows "kept d d'"
proof -
  let ?e = "fold (\<lambda>w d. ensure_lxc_row d w) ws d"
  have e: "kept d ?e" by (rule fold_kept) simp
  have "kept ?e d2" if "fold (grant_short cx target de me2) us (?e, 0) = (d2, n2)" for me2 us d2 n2
    using grant_fold_kept [of "(?e, 0)" cx target de me2 us] that by simp
  then show ?thesis
    using assms kept_trans [OF e] by (auto simp: grant_lxc_up_to_def Let_def split: if_splits)
qed

lemma fund_kept: "fund_agent cx d w a x = Inr (d', b) \<Longrightarrow> kept d d'"
  by (drule fund_InrD) (auto simp: kept_iff)

lemma withdraw_kept: "withdraw_agent cx d w a x = Inr (d', b) \<Longrightarrow> kept d d'"
  by (drule withdraw_InrD) (auto simp: kept_iff)

lemma pot_kept: "move_pot cx d w a p x to_pot = Inr d' \<Longrightarrow> kept d d'"
  by (drule move_pot_moves) (auto simp: kept_iff)

lemma update_agent_where_kept:
  "(\<And>r. ag_id (f r) = ag_id r \<and> ag_ws (f r) = ag_ws r) \<Longrightarrow> kept d (update_agent_where p f d)"
  by (simp add: kept_iff update_agent_where_def)

lemma revoke_kept [simp]: "kept d (revoke_agent_kya cx d a reason)" "kept d (revoke_workspace_kya cx d w reason)"
  by (simp_all add: kept_iff revoke_agent_kya_def revoke_workspace_kya_def revoke_kya_def)

lemma accounts_kept:
  "claim_agent d w a u = Inr d1 \<Longrightarrow> kept d d1"
  "update_agent d w a nm de = Inr d5 \<Longrightarrow> kept d d5"
  "create_pot d w a name k t l i = Inr (d6, p) \<Longrightarrow> kept d d6"
  "lock_pot cx d w a pid til = Inr d7 \<Longrightarrow> kept d d7"
  "pause_agent cx d w a reason = Inr d8 \<Longrightarrow> kept d d8"
  "resume_agent d w a = Inr d9 \<Longrightarrow> kept d d9"
  "kept d (pause_all_agents cx d w reason)" "kept d (resume_all_agents d w)"
  by (auto simp: claim_agent_def update_agent_def create_pot_def lock_pot_def pause_agent_def
      resume_agent_def pause_all_agents_def resume_all_agents_def revoke_agent_kya_def
      revoke_workspace_kya_def revoke_kya_def update_agent_where_def kept_iff Let_def
      split: if_splits option.splits)

lemma archive_kept: "archive_agent cx d w a = Inr (d', out) \<Longrightarrow> kept d d'"
  by (auto simp: archive_agent_def post_entry_eq revoke_agent_kya_def revoke_kya_def
      update_agent_where_def kept_iff Let_def split: if_splits)

text \<open>A new agent, and a key given to one, keep every key at home.\<close>

lemma insert_agent_homed:
  assumes "insert_agent d r = Inr d'" and "homed kw d"
  shows "homed kw d'" and "same_debits d d'" and "map_of (agent_places d') (ag_id r) = Some (ag_ws r)"
proof -
  have n: "find_agent d (ag_id r) = None" and d': "d' = d\<lparr>agents := agents d @ [r]\<rparr>"
    using assms(1) by (auto simp: insert_agent_def split: if_splits)
  have p: "agent_places d' = agent_places d @ [(ag_id r, ag_ws r)]" by (simp add: d' agent_places_def)
  show "homed kw d'" "same_debits d d'"
    using assms(2) unfolding homed_def p by (auto simp: list_all_iff hold_names_def d' same_debits_def)
  show "map_of (agent_places d') (ag_id r) = Some (ag_ws r)"
    using n by (simp add: p map_of_places map_add_def)
qed

lemma insert_key_homed:
  assumes "insert_agent_key d key a = Inr d'" and "homed kw d"
    and "map_of (agent_places d) a = Some (kw key)"
  shows "homed kw d'" and "same_debits d d'"
  using assms by (auto simp: insert_agent_key_def homed_def agent_places_def hold_names_def same_debits_def
      split: if_splits)

lemma create_agent_homed:
  assumes "create_agent s cx d w name owner i = Inr (d', r)" and "homed kw d"
  shows "homed kw d'" and "same_debits d d'"
  using assms insert_agent_homed by (auto simp: create_agent_def Let_def split: if_splits)

lemma create_room_homed:
  assumes "create_room_agent_tx cx d w name owner key i = Inr (d', r)" and "homed kw d" and "kw key = w"
  shows "homed kw d'" and "same_debits d d'"
proof -
  obtain e where e: "insert_agent d (new_agent cx i w name owner KindRoom) = Inr e"
    and k: "insert_agent_key e key i = Inr d'"
    using assms(1) by (auto simp: create_room_agent_tx_def Let_def split: if_splits)
  note E = insert_agent_homed [OF e assms(2)]
  have "map_of (agent_places e) i = Some (kw key)" using E(3) assms(3) by (simp add: new_agent_def)
  from insert_key_homed [OF k E(1) this] E(2) same_trans(2) show "homed kw d'" "same_debits d d'"
    by blast+
qed

lemma attach_homed:
  assumes "attach_agent_key d w a key = Inr d'" and "homed kw d" and "kw key = w"
  shows "homed kw d'" and "same_debits d d'"
  using assms insert_key_homed
  by (auto simp: attach_agent_key_def lock_agent_places split: if_splits option.splits)

lemma record_version_kept [simp]: "kept d (record_rules_version cx d a change)"
  by (auto simp: record_rules_version_def revoke_agent_kya_def revoke_kya_def kept_iff Let_def
      split: option.split)

lemma rules_kept:
  "set_agent_rules s cx d w a r = Inr d1 \<Longrightarrow> kept d d1"
  "rollback_agent_rules s cx d w a n = Inr (d2, r2) \<Longrightarrow> kept d d2"
  "boost_agent_rule s cx d w a rule v u = Inr (d3, b) \<Longrightarrow> kept d d3"
  "end_agent_boost cx d w a rule = Inr d4 \<Longrightarrow> kept d d4"
  "kept d (fst (file_approval cx d need i))"
  "decide_agent_approval cx d w p ok = Inr d5 \<Longrightarrow> kept d d5"
  subgoal
    by (drule set_rules_InrD(4), hypsubst, rule kept_trans [OF _ record_version_kept]) (simp add: kept_iff)
  subgoal
    by (auto simp: rollback_agent_rules_def Let_def split: option.splits
        intro!: kept_trans [OF _ record_version_kept]) (simp add: kept_iff)
  subgoal
    by (auto simp: boost_agent_rule_def Let_def split: if_splits intro!: kept_trans [OF _ revoke_kept(1)])
      (simp_all add: kept_iff)
  subgoal
    by (auto simp: end_agent_boost_def Let_def split: if_splits intro!: kept_trans [OF _ revoke_kept(1)])
      (simp_all add: kept_iff)
  subgoal by (simp add: file_approval_def kept_iff Let_def split: option.split)
  subgoal by (auto simp: decide_agent_approval_def kept_iff Let_def split: if_splits)
  done

lemma rules_same_money:
  "set_agent_rules s cx d w a r = Inr d1 \<Longrightarrow> same_money d d1"
  "rollback_agent_rules s cx d w a n = Inr (d2, r2) \<Longrightarrow> same_money d d2"
  "boost_agent_rule s cx d w a rule v u = Inr (d3, b) \<Longrightarrow> same_money d d3"
  "end_agent_boost cx d w a rule = Inr d4 \<Longrightarrow> same_money d d4"
  "same_money d (fst (file_approval cx d need i))"
  "decide_agent_approval cx d w p ok = Inr d5 \<Longrightarrow> same_money d d5"
  by (auto simp: set_agent_rules_def rollback_agent_rules_def boost_agent_rule_def end_agent_boost_def
      file_approval_def decide_agent_approval_def record_rules_version_def revoke_agent_kya_def
      revoke_kya_def same_money_def Let_def split: if_splits option.splits sum.splits)

lemma line_kept:
  "set_company d w c = Inr d1 \<Longrightarrow> kept d d1 \<and> same_money d d1"
  "set_credit_line d w l = Inr d2 \<Longrightarrow> kept d d2 \<and> same_money d d2"
  "pause_credit_line d w = Inr d3 \<Longrightarrow> kept d d3 \<and> same_money d d3"
  "resume_credit_line d w = Inr d4 \<Longrightarrow> kept d d4 \<and> same_money d d4"
  by (auto simp: set_company_def set_credit_line_def pause_credit_line_def resume_credit_line_def
      set_line_pause_def kept_iff same_money_def split: if_splits option.splits)

lemma ceiling_moves:
  assumes "set_agent_ceiling s d key w c = Inr d'"
  shows "same_places d d'" and "same_money d d'" and "claims d' = claims d" and "settlements d' = settlements d"
    and "subbudgets d k \<noteq> None \<Longrightarrow> subbudgets d' k \<noteq> None"
  using assms
  by (auto simp: set_agent_ceiling_def same_places_def agent_places_def hold_names_def same_money_def
      split: if_splits)

subsection \<open>The holds and the debits\<close>

lemma reserve_homed:
  assumes s: "reserve_lxc_for_agent s cx d key w i estimate meta = Inr d'" and pool: "st_pool s"
    and h: "homed kw d" and key: "kw key = w"
  shows "homed kw d'" and "claims d' = claims d" and "settlements d' = settlements d"
    and "subbudgets d k \<noteq> None \<Longrightarrow> subbudgets d' k \<noteq> None"
proof -
  have i: "i \<noteq> ''''" using reserve_InrD [OF s pool] by simp
  have "homed kw d' \<and> claims d' = claims d \<and> settlements d' = settlements d \<and>
    (subbudgets d k \<noteq> None \<longrightarrow> subbudgets d' k \<noteq> None)"
    using s pool
  proof (cases rule: reserve_cases)
    case replay
    then show ?thesis using h by simp
  next
    case (fresh bps held m is_agent)
    let ?o = "hold_opened cx d key w i held bps meta"
    have m: "moves_only ?o m" using movement_moves(1) [OF fresh(5)] .
    have "homed kw ?o"
      using h key i by (simp add: homed_def hold_names_def agent_places_def hold_row_def)
    moreover have "kept ?o d'"
      using m by (auto simp: fresh(9) kept_iff moves_only_def)
    moreover have "subbudgets d k \<noteq> None \<longrightarrow> subbudgets ?o k \<noteq> None"
      by (auto simp: hold_opened_def ensure_subbudget_def split: option.split)
    ultimately show ?thesis
      using homed_same [of ?o d' kw] by (simp add: kept_def same_debits_def)
  qed
  then show "homed kw d'" "claims d' = claims d" "settlements d' = settlements d"
    "subbudgets d k \<noteq> None \<Longrightarrow> subbudgets d' k \<noteq> None" by simp_all
qed

lemma resolve_names [simp]: "hold_names (resolve_reservation d i st x) = hold_names d"
  by (simp add: hold_names_def)

lemma settle_kept:
  assumes s: "settle_lxc_reservation s cx d i delivered meta = Inr (d', res)" and pool: "st_pool s"
    and b: "books d"
  shows "kept d d'"
proof (cases "\<exists>r. find_reservation d i = Some r \<and> rv_status r = Held")
  case True
  then obtain r where r: "find_reservation d i = Some r" "rv_status r = Held" by blast
  obtain clamp final where cut: "settle_cut r (max 0 delivered) meta = (clamp, final)" by force
  have nn: "0 \<le> rv_bps r" "0 \<le> rv_held r"
    using booksD(1) [OF b] find_reservation_D [OF r(1)] by (auto simp: holds_ok_def list_all_iff)
  note C = settle_cut_fits [OF cut _ nn]
  from settle_InrD [OF s pool r cut refl booksD(6) [OF b]] C
  obtain m is_agent where m: "agent_movement_fee s cx (settle_paid cx d r final (platform_fee final (rv_bps r)) clamp meta)
      (rv_key r) (- (rv_held r - final)) 0 0 PkSettle i (text_of (rv_model r)) = Inr (m, is_agent)"
    and p: "post_agent_fee cx m (rv_key r) (platform_fee final (rv_bps r)) (rv_bps r) i (text_of (rv_model r)) = Inr d'"
    by auto
  have "kept d (settle_paid cx d r final (platform_fee final (rv_bps r)) clamp meta)"
    by (simp add: kept_iff settle_paid_def Let_def)
  then show ?thesis
    using movement_moves(1) [OF m] post_agent_fee_moves(1) [OF p] moves_only_same kept_trans
    unfolding kept_def [of d d'] by (meson kept_def same_trans)
next
  case False
  then have "d' = d"
    using s pool by (auto simp: settle_lxc_reservation_def Let_def split: if_splits option.splits)
  then show ?thesis by simp
qed

lemma release_kept:
  assumes s: "release_lxc_reservation s cx d i reason = Inr d'" and pool: "st_pool s"
  shows "kept d d'"
  using s pool
proof (cases rule: release_InrD)
  case (2 r is_agent)
  have "kept d (release_db cx d r reason)"
    by (simp add: kept_iff release_db_def Let_def)
  then show ?thesis
    using movement_moves(1) [OF 2(3)] moves_only_same by (meson kept_def same_trans)
qed simp

lemma release_all_kept:
  "release_all s cx d is n = (d', m, e) \<Longrightarrow> st_pool s \<Longrightarrow> kept d d'"
proof (induction s cx d "is" n rule: release_all.induct)
  case (2 s cx d i "is" n)
  then show ?case
    using release_kept kept_trans by (fastforce split: sum.splits)
qed simp

lemma claims_ok_mono:
  assumes "claims_ok d" and "claims d' = claims d" and "settlements d' = settlements d"
    and "\<And>k. subbudgets d k \<noteq> None \<Longrightarrow> subbudgets d' k \<noteq> None"
  shows "claims_ok d'"
  using assms unfolding claims_ok_def by (metis (no_types, lifting))

lemma spend_agent_homed:
  assumes s: "spend_lxc_for_agent s cx d key w request amount desc meta = Inr d'" and pool: "st_pool s"
    and h: "homed kw d"
  shows "homed kw d'"
  using s pool
proof (cases rule: spend_agent_cases)
  case (fresh bps fee m is_agent)
  have "same_places d (debit_opened d key w request amount bps)"
    by (simp add: same_places_def hold_names_def agent_places_def debit_opened_def)
  moreover have "same_places (debit_opened d key w request amount bps) m"
    using movement_moves(1) [OF fresh(5)] moves_only_same by simp
  moreover have "same_places m d'" by (simp add: fresh(9) same_places_def hold_names_def agent_places_def)
  ultimately show ?thesis using h homed_same by metis
qed (use h in simp)

lemma settled_agents [simp]:
  "agents (settled_db cx d w key agent x f charge bps k meta) = agents d"
  "agent_keys (settled_db cx d w key agent x f charge bps k meta) = agent_keys d"
  "agents (taken_db d w charge f) = agents d" "agent_keys (taken_db d w charge f) = agent_keys d"
  by (simp_all add: settled_db_def taken_db_def moved_db_def Let_def split: option.split)

lemma settle_debit_homed:
  assumes s: "settle_agent_debit s cx d w k delivered meta = Inr (d', out)" and pool: "st_pool s"
    and b: "books d" and ok: "claims_ok d" and h: "homed kw d"
  shows "homed kw d'"
  using s pool b ok
proof (cases rule: settle_debit_cases)
  case (fresh c sb e charge cash)
  let ?d = "put_row d k (first_row w c (max 0 delivered) meta)"
  have d: "books ?d" using b by (rule same_money_books [rotated]) simp
  have "moves_only ?d e"
    using decided(2) [OF fresh(6) less_imp_le [OF fresh(4)] fresh(5) _ d] by simp
  then have "same_places ?d e" using moves_only_same by simp
  moreover have "same_places d ?d" by (simp add: same_places_def hold_names_def agent_places_def)
  moreover have "same_places e d'"
    by (simp add: fresh(7) settle_debit_result_def Let_def same_places_def hold_names_def agent_places_def)
  ultimately show ?thesis using h homed_same by metis
qed (use h in simp)

subsection \<open>Steps and reachable databases\<close>

inductive wallet_step :: "store \<Rightarrow> (string \<Rightarrow> string) \<Rightarrow> db \<Rightarrow> db \<Rightarrow> bool" for s kw where
  spend: "spend_lxc_meta s cx d w x de me = Inr (d', part) \<Longrightarrow> wallet_step s kw d d'"
| credit: "credit_lxc_tx_typed cx d w x ty de me = Inr (d', b) \<Longrightarrow> wallet_step s kw d d'"
| grant_up_to: "grant_lxc_up_to s cx d ws target de me = Inr (d', n) \<Longrightarrow> wallet_step s kw d d'"
| refund: "reduce_cash_backed_for_refund d w x = Inr d' \<Longrightarrow> wallet_step s kw d d'"
| create: "create_agent s cx d w name owner i = Inr (d', r) \<Longrightarrow> wallet_step s kw d d'"
| create_room: "create_room_agent_tx cx d w name owner key i = Inr (d', r) \<Longrightarrow> kw key = w \<Longrightarrow>
    wallet_step s kw d d'"
| attach: "attach_agent_key d w a key = Inr d' \<Longrightarrow> kw key = w \<Longrightarrow> wallet_step s kw d d'"
| claim: "claim_agent d w a u = Inr d' \<Longrightarrow> wallet_step s kw d d'"
| update: "update_agent d w a nm tx = Inr d' \<Longrightarrow> wallet_step s kw d d'"
| pause: "pause_agent cx d w a why = Inr d' \<Longrightarrow> wallet_step s kw d d'"
| resume: "resume_agent d w a = Inr d' \<Longrightarrow> wallet_step s kw d d'"
| pause_all: "wallet_step s kw d (pause_all_agents cx d w why)"
| resume_all: "wallet_step s kw d (resume_all_agents d w)"
| fund: "fund_agent cx d w a x = Inr (d', b) \<Longrightarrow> wallet_step s kw d d'"
| withdraw: "withdraw_agent cx d w a x = Inr (d', b) \<Longrightarrow> wallet_step s kw d d'"
| create_pot: "create_pot d w a name kind target til i = Inr (d', p) \<Longrightarrow> wallet_step s kw d d'"
| lock_pot: "lock_pot cx d w a p til = Inr d' \<Longrightarrow> wallet_step s kw d d'"
| move_pot: "move_pot cx d w a p x to_pot = Inr d' \<Longrightarrow> wallet_step s kw d d'"
| archive: "archive_agent cx d w a = Inr (d', out) \<Longrightarrow> wallet_step s kw d d'"
| set_rules: "set_agent_rules s cx d w a r = Inr d' \<Longrightarrow> wallet_step s kw d d'"
| rollback: "rollback_agent_rules s cx d w a v = Inr (d', r) \<Longrightarrow> wallet_step s kw d d'"
| boost: "boost_agent_rule s cx d w a rule v til = Inr (d', bo) \<Longrightarrow> wallet_step s kw d d'"
| end_boost: "end_agent_boost cx d w a rule = Inr d' \<Longrightarrow> wallet_step s kw d d'"
| file_request: "wallet_step s kw d (fst (file_approval cx d need i))"
| decide: "decide_agent_approval cx d w p ok = Inr d' \<Longrightarrow> wallet_step s kw d d'"
| company: "set_company d w c = Inr d' \<Longrightarrow> wallet_step s kw d d'"
| line: "set_credit_line d w lim = Inr d' \<Longrightarrow> wallet_step s kw d d'"
| pause_line: "pause_credit_line d w = Inr d' \<Longrightarrow> wallet_step s kw d d'"
| resume_line: "resume_credit_line d w = Inr d' \<Longrightarrow> wallet_step s kw d d'"
| ceiling: "set_agent_ceiling s d key w c = Inr d' \<Longrightarrow> wallet_step s kw d d'"
| hold: "reserve_lxc_for_agent s cx d key w i x meta = Inr d' \<Longrightarrow> kw key = w \<Longrightarrow> wallet_step s kw d d'"
| settle: "settle_lxc_reservation s cx d i x meta = Inr (d', res) \<Longrightarrow> wallet_step s kw d d'"
| release: "release_lxc_reservation s cx d i why = Inr d' \<Longrightarrow> wallet_step s kw d d'"
| sweep: "release_stranded_reservations s cx d age = (d', n, e) \<Longrightarrow> wallet_step s kw d d'"
| debit: "spend_lxc_for_agent s cx d key w rq x de meta = Inr d' \<Longrightarrow> kw key = w \<Longrightarrow> wallet_step s kw d d'"
| settle_debit: "settle_agent_debit s cx d w k x meta = Inr (d', out) \<Longrightarrow>
    \<forall>c. map_of (claims d) k = Some c \<longrightarrow> kw (cl_key c) = w \<Longrightarrow> wallet_step s kw d d'"

inductive reachable :: "store \<Rightarrow> (string \<Rightarrow> string) \<Rightarrow> db \<Rightarrow> bool" for s kw where
  start: "reachable s kw empty_db"
| after: "reachable s kw d \<Longrightarrow> wallet_step s kw d d' \<Longrightarrow> reachable s kw d'"

lemma empty_books: "books empty_db"
  by (simp add: books_def empty_db_def holds_ok_def balanced_def accounts_ok_def ledger_ok_def
      solvent_def stored_ok_def ledger_sum_def allocated_def account_balance_def posted_def cash_of_def
      bal_of_def test_of_def row_of_def)

lemma empty_inv: "wallet_inv kw empty_db"
  using empty_books
  by (simp add: wallet_inv_def claims_ok_def backed_def cash_ok_def homed_def hold_names_def
      open_debits_def held_sum_def agent_places_def)
    (simp add: empty_db_def cash_of_def bal_of_def row_of_def)


lemma homed_money_inv:
  assumes "wallet_inv kw d" and "homed kw d'" and "same_debits d d'" and "same_money d d'"
  shows "wallet_inv kw d'"
proof -
  have "open_debits kw d' = open_debits kw d"
    using assms(3) by (intro ext open_debits_cong) (simp_all add: same_debits_def)
  then show ?thesis
    using assms same_money_books same_money_backed claims_ok_cong [of d' d]
    by (simp add: wallet_inv_def same_debits_def)
qed

lemma kept_money_inv:
  assumes "wallet_inv kw d" and "kept d d' \<and> same_money d d'" shows "wallet_inv kw d'"
proof -
  have "homed kw d'" using assms homed_same [of d d' kw] by (simp add: kept_def wallet_inv_def)
  then show ?thesis using homed_money_inv [OF assms(1)] assms(2) by (simp add: kept_def)
qed

lemma reserve_inv:
  assumes inv: "wallet_inv kw d" and pool: "st_pool s" and key: "kw key = w"
    and s: "reserve_lxc_for_agent s cx d key w i x meta = Inr d'"
  shows "wallet_inv kw d'"
proof -
  have b: "books d" and c: "claims_ok d" and h: "homed kw d" and k: "backed (open_debits kw d) d"
    using inv by (simp_all add: wallet_inv_def)
  note H = reserve_homed [OF s pool h key]
  have o: "open_debits kw d' = open_debits kw d"
    using open_debits_cong [OF H(2,3)] by blast
  have home: "key_home d key w" using homed_key_home [OF h, of key] key by simp
  show ?thesis
    using reserve_keeps_books [OF b pool home s] k H(1) claims_ok_mono [OF c H(2,3,4)]
    by (simp add: wallet_inv_def o)
qed

lemma kept_inv:
  assumes "wallet_inv kw d" and "kept d d'" and "books d'"
    and "backed (open_debits kw d) d \<Longrightarrow> backed (open_debits kw d) d'"
  shows "wallet_inv kw d'"
  using wallet_inv_same [OF assms(1) _ _ assms(3,4)] assms(2) by (simp add: kept_def)

lemma open_nonneg: "wallet_inv kw d \<Longrightarrow> 0 \<le> open_debits kw d v"
  by (simp add: wallet_inv_def open_debits_nonneg)

lemma release_inv:
  assumes inv: "wallet_inv kw d" and pool: "st_pool s"
    and s: "release_lxc_reservation s cx d i why = Inr d'"
  shows "wallet_inv kw d'"
proof -
  have b: "books d" and h: "homed kw d" using inv by (simp_all add: wallet_inv_def)
  have home: "\<And>r. find_reservation d i = Some r \<Longrightarrow> key_home d (rv_key r) (rv_ws r)"
    by (rule homed_hold(3) [OF h])
  show ?thesis
  proof (rule kept_inv [OF inv release_kept [OF s pool]])
    show "books d'" by (rule release_keeps_books(1) [OF b pool _ s]) (rule home)
    show "backed (open_debits kw d) d \<Longrightarrow> backed (open_debits kw d) d'"
      by (rule release_keeps_books(2) [OF b pool _ s]) (rule home)
  qed
qed

lemma release_all_inv:
  "release_all s cx d is n = (d', m, e) \<Longrightarrow> st_pool s \<Longrightarrow> wallet_inv kw d \<Longrightarrow> wallet_inv kw d'"
proof (induction s cx d "is" n rule: release_all.induct)
  case (2 s cx d i "is" n)
  then show ?case using release_inv [OF 2(4,3)] by (auto split: sum.splits)
qed simp

text \<open>The steps that move money: each keeps the books and the backing.\<close>

lemma money_steps:
  assumes inv: "wallet_inv kw d" and pool: "st_pool s"
  shows "spend_lxc_meta s cx d w x de me = Inr (d', part) \<Longrightarrow> wallet_inv kw d'"
    and "credit_lxc_tx_typed cx d w x ty de me = Inr (d', n) \<Longrightarrow> wallet_inv kw d'"
    and "reduce_cash_backed_for_refund d w x = Inr d' \<Longrightarrow> wallet_inv kw d'"
    and "fund_agent cx d w a x = Inr (d', n) \<Longrightarrow> wallet_inv kw d'"
    and "withdraw_agent cx d w a x = Inr (d', n) \<Longrightarrow> wallet_inv kw d'"
    and "move_pot cx d w a p x to_pot = Inr d' \<Longrightarrow> wallet_inv kw d'"
    and "archive_agent cx d w a = Inr (d', out) \<Longrightarrow> wallet_inv kw d'"
    and "settle_lxc_reservation s cx d i x meta = Inr (d', res) \<Longrightarrow> wallet_inv kw d'"
proof -
  have b: "books d" and k: "backed (open_debits kw d) d" and h: "homed kw d"
    using inv by (simp_all add: wallet_inv_def)
  note keep = kept_inv [OF inv]
  have home: "key_home d (rv_key r) (rv_ws r)" if "find_reservation d i = Some r" for r
    using homed_hold(3) [OF h that] .
  show "wallet_inv kw d'" if t: "spend_lxc_meta s cx d w x de me = Inr (d', part)"
    by (rule keep [OF spend_kept [OF b t] spend_keeps_books [OF b t]
          spend_keeps_backed [OF b _ open_nonneg [OF inv] pool t]])
  show "wallet_inv kw d'" if t: "credit_lxc_tx_typed cx d w x ty de me = Inr (d', n)"
    by (rule keep [OF credit_kept [OF t] credit_keeps_books [OF b t]])
  show "wallet_inv kw d'" if t: "reduce_cash_backed_for_refund d w x = Inr d'"
    by (rule keep [OF refund_kept [OF t] refund_keeps_books [OF b t]])
  show "wallet_inv kw d'" if t: "fund_agent cx d w a x = Inr (d', n)"
    by (rule keep [OF fund_kept [OF t] fund_keeps_books [OF b t]])
  show "wallet_inv kw d'" if t: "withdraw_agent cx d w a x = Inr (d', n)"
    by (rule keep [OF withdraw_kept [OF t] withdraw_keeps_books [OF b t]])
  show "wallet_inv kw d'" if t: "move_pot cx d w a p x to_pot = Inr d'"
    by (rule keep [OF pot_kept [OF t] move_pot_keeps_books [OF b t]])
  show "wallet_inv kw d'" if t: "archive_agent cx d w a = Inr (d', out)"
    by (rule keep [OF archive_kept [OF t] archive_keeps_books [OF b t]])
  show "wallet_inv kw d'" if t: "settle_lxc_reservation s cx d i x meta = Inr (d', res)"
    by (rule keep [OF settle_kept [OF t pool b] settle_keeps_books(1) [OF b pool home t]
          settle_keeps_books(2) [OF b pool home t _ open_nonneg [OF inv]]])
qed

lemma grant_up_to_backed:
  assumes "grant_lxc_up_to s cx d ws target de me = Inr (d', n)" and "backed x d"
  shows "backed x d'"
proof -
  let ?raised = "\<lambda>d d'. \<forall>v. cash_of d' v = cash_of d v \<and> held_sum d' v = held_sum d v \<and> bal_of d v \<le> bal_of d' v"
  have trans: "?raised a b \<Longrightarrow> ?raised b c \<Longrightarrow> ?raised a c" for a b c
    by (metis order_trans)
  have step: "?raised (fst st) (fst (grant_short cx target de me w st))" for st w me
    by (cases st) (simp add: grant_short_def Let_def view_simps)
  have fold: "?raised (fst st) (fst (fold (grant_short cx target de me) us st))" for us st me
  proof (induction us arbitrary: st)
    case (Cons u us)
    show ?case
      using trans [OF step [where st = st and me = me and w = u]
          Cons [of "grant_short cx target de me u st"]] by simp
  qed simp
  have "cash_of (fold (\<lambda>w d. ensure_lxc_row d w) us d) v = cash_of d v \<and>
      held_sum (fold (\<lambda>w d. ensure_lxc_row d w) us d) v = held_sum d v" for us d v
    by (induction us arbitrary: d) (simp_all add: view_simps)
  then have rows: "?raised d (fold (\<lambda>w d. ensure_lxc_row d w) us d)" for us d
    by (simp add: fold_ensure_views)
  let ?e = "fold (\<lambda>w d. ensure_lxc_row d w) ws d"
  have raised: "?raised d d'"
  proof (cases "st_pool s \<and> ws \<noteq> []")
    case True
    then obtain me2 where f: "fold (grant_short cx target de me2) (remdups ws) (?e, 0) = (d', n)"
      using assms(1) by (auto simp: grant_lxc_up_to_def Let_def split: if_splits)
    have "?raised ?e d'"
      using fold [where st = "(?e, 0)" and me = me2 and us = "remdups ws"] unfolding f fst_conv .
    from trans [OF rows this] show ?thesis .
  next
    case False
    then have "d' = d" using assms(1) by (auto simp: grant_lxc_up_to_def split: if_splits)
    then show ?thesis by simp
  qed
  show ?thesis
  proof (rule backedI)
    fix v
    show "0 \<le> cash_of d' v \<and> cash_of d' v \<le> bal_of d' v + held_sum d' v + x v"
      using backedD [OF assms(2), of v] raised [rule_format, of v] by linarith
  qed
qed

lemma grant_up_to_inv:
  assumes inv: "wallet_inv kw d" and pool: "st_pool s"
    and s: "grant_lxc_up_to s cx d ws target de me = Inr (d', n)"
  shows "wallet_inv kw d'"
proof -
  have b: "books d" using inv by (simp add: wallet_inv_def)
  show ?thesis
    by (rule kept_inv [OF inv grant_up_to_kept [OF s] grant_up_to_effect(1) [OF b pool s]
          grant_up_to_backed [OF s]])
qed

lemma ceiling_inv:
  assumes inv: "wallet_inv kw d" and s: "set_agent_ceiling s d key w c = Inr d'"
  shows "wallet_inv kw d'"
proof -
  note C = ceiling_moves [OF s]
  have o: "open_debits kw d' = open_debits kw d" using open_debits_cong [OF C(3,4)] by blast
  show ?thesis
    using inv same_money_books [OF C(2)] same_money_backed [OF C(2)] homed_same [OF C(1), of kw]
      claims_ok_mono [OF _ C(3,4,5)] by (simp add: wallet_inv_def o)
qed

lemma sweep_inv:
  assumes inv: "wallet_inv kw d" and pool: "st_pool s"
    and s: "release_stranded_reservations s cx d age = (d', n, e)"
  shows "wallet_inv kw d'"
  using s release_all_inv [OF _ pool inv] pool by (simp add: release_stranded_reservations_def)

lemma debit_inv:
  assumes inv: "wallet_inv kw d" and pool: "st_pool s" and key: "kw key = w"
    and s: "spend_lxc_for_agent s cx d key w rq x de meta = Inr d'"
  shows "wallet_inv kw d'"
proof -
  have b: "books d" and c: "claims_ok d" and h: "homed kw d" and k: "backed (open_debits kw d) d"
    using inv by (simp_all add: wallet_inv_def)
  have home: "key_home d key w" using homed_key_home [OF h, of key] key by simp
  show ?thesis
    using spend_agent_keeps [OF b pool home s] c k key spend_agent_homed [OF s pool h]
    by (simp add: wallet_inv_def)
qed

lemma settle_debit_inv:
  assumes inv: "wallet_inv kw d" and pool: "st_pool s"
    and kw: "\<forall>c. map_of (claims d) k = Some c \<longrightarrow> kw (cl_key c) = w"
    and s: "settle_agent_debit s cx d w k x meta = Inr (d', out)"
  shows "wallet_inv kw d'"
proof -
  have b: "books d" and c: "claims_ok d" and h: "homed kw d" and o: "backed (open_debits kw d) d"
    using inv by (simp_all add: wallet_inv_def)
  have "kw (cl_key e) = w" if "map_of (claims d) k = Some e" for e using kw that by blast
  then show ?thesis
    using settle_debit_keeps [OF s pool b c] settle_debit_backed [OF s pool b c _ o]
      settle_debit_homed [OF s pool b c h] by (simp add: wallet_inv_def)
qed

lemma step_keeps_inv:
  assumes "wallet_step s kw d d'" and inv: "wallet_inv kw d" and pool: "st_pool s"
  shows "wallet_inv kw d'"
proof -
  have h: "homed kw d" using inv by (simp add: wallet_inv_def)
  note quiet = kept_money_inv [OF inv] and homes = homed_money_inv [OF inv]
  show ?thesis
    using assms(1)
  proof (cases rule: wallet_step.cases)
    case spend then show ?thesis using money_steps(1) [OF inv pool] by blast
  next
    case credit then show ?thesis using money_steps(2) [OF inv pool] by blast
  next
    case grant_up_to then show ?thesis using grant_up_to_inv [OF inv pool] by blast
  next
    case refund then show ?thesis using money_steps(3) [OF inv pool] by blast
  next
    case create then show ?thesis using homes create_agent_homed [OF _ h] accounts_same_money(2) by metis
  next
    case create_room then show ?thesis using homes create_room_homed [OF _ h] accounts_same_money(3) by metis
  next
    case attach then show ?thesis using homes attach_homed [OF _ h] accounts_same_money(4) by metis
  next
    case claim then show ?thesis using quiet accounts_kept(1) accounts_same_money(1) by blast
  next
    case update then show ?thesis using quiet accounts_kept(2) accounts_same_money(5) by blast
  next
    case pause then show ?thesis using quiet accounts_kept(5) accounts_same_money(8) by blast
  next
    case resume then show ?thesis using quiet accounts_kept(6) accounts_same_money(9) by blast
  next
    case pause_all then show ?thesis using quiet accounts_kept(7) accounts_same_money(10) by blast
  next
    case resume_all then show ?thesis using quiet accounts_kept(8) accounts_same_money(11) by blast
  next
    case fund then show ?thesis using money_steps(4) [OF inv pool] by blast
  next
    case withdraw then show ?thesis using money_steps(5) [OF inv pool] by blast
  next
    case create_pot then show ?thesis using quiet accounts_kept(3) accounts_same_money(6) by metis
  next
    case lock_pot then show ?thesis using quiet accounts_kept(4) accounts_same_money(7) by blast
  next
    case move_pot then show ?thesis using money_steps(6) [OF inv pool] by blast
  next
    case archive then show ?thesis using money_steps(7) [OF inv pool] by blast
  next
    case set_rules then show ?thesis using quiet rules_kept(1) rules_same_money(1) by blast
  next
    case rollback then show ?thesis using quiet rules_kept(2) rules_same_money(2) by blast
  next
    case boost then show ?thesis using quiet rules_kept(3) rules_same_money(3) by metis
  next
    case end_boost then show ?thesis using quiet rules_kept(4) rules_same_money(4) by blast
  next
    case file_request then show ?thesis using quiet rules_kept(5) rules_same_money(5) by blast
  next
    case decide then show ?thesis using quiet rules_kept(6) rules_same_money(6) by blast
  next
    case company then show ?thesis using quiet line_kept(1) by blast
  next
    case line then show ?thesis using quiet line_kept(2) by blast
  next
    case pause_line then show ?thesis using quiet line_kept(3) by blast
  next
    case resume_line then show ?thesis using quiet line_kept(4) by blast
  next
    case ceiling then show ?thesis using ceiling_inv [OF inv] by blast
  next
    case hold then show ?thesis using reserve_inv [OF inv pool] by blast
  next
    case settle then show ?thesis using money_steps(8) [OF inv pool] by blast
  next
    case release then show ?thesis using release_inv [OF inv pool] by blast
  next
    case sweep then show ?thesis using sweep_inv [OF inv pool] by blast
  next
    case debit then show ?thesis using debit_inv [OF inv pool] by blast
  next
    case settle_debit then show ?thesis using settle_debit_inv [OF inv pool] by blast
  qed
qed

lemma reachable_inv: "reachable s kw d \<Longrightarrow> st_pool s \<Longrightarrow> wallet_inv kw d"
  by (induction rule: reachable.induct) (use empty_inv step_keeps_inv in blast)+

subsection \<open>What a reachable wallet can always do\<close>

lemma settle_always:
  assumes inv: "wallet_inv kw d" and pool: "st_pool s" and r: "find_reservation d i = Some r"
  shows "\<exists>d' res. settle_lxc_reservation s cx d i x meta = Inr (d', res) \<and> wallet_inv kw d'"
proof -
  have b: "books d" and i: "i \<noteq> ''''" using inv homed_hold(2) r by (auto simp: wallet_inv_def)
  have "0 \<le> rv_bps r" "0 \<le> rv_held r"
    using booksD(1) [OF b] find_reservation_D [OF r] by (auto simp: holds_ok_def list_all_iff)
  then obtain d' res where t: "settle_lxc_reservation s cx d i x meta = Inr (d', res)"
    using settle_succeeds [OF pool r i] by blast
  then show ?thesis using money_steps(8) [OF inv pool t] by blast
qed

lemma release_always:
  assumes inv: "wallet_inv kw d" and pool: "st_pool s" and i: "i \<noteq> ''''"
  shows "\<exists>d'. release_lxc_reservation s cx d i why = Inr d' \<and> wallet_inv kw d'"
proof -
  have "books d" using inv by (simp add: wallet_inv_def)
  then obtain d' where t: "release_lxc_reservation s cx d i why = Inr d'"
    using release_succeeds [OF i] held_nonneg by blast
  then show ?thesis using release_inv [OF inv pool t] by blast
qed

lemma settle_debit_always:
  assumes inv: "wallet_inv kw d" and pool: "st_pool s" and names: "w \<noteq> ''''" "k \<noteq> ''''"
    and c: "map_of (claims d) k = Some c" and kw: "kw (cl_key c) = w"
  shows "\<exists>d' out. settle_agent_debit s cx d w k x meta = Inr (d', out) \<and> wallet_inv kw d'"
proof -
  have b: "books d" and ok: "claims_ok d" using inv by (simp_all add: wallet_inv_def)
  have "\<exists>d' out. settle_agent_debit s cx d w k x meta = Inr (d', out)"
  proof (cases "settlements d k")
    case None
    have e: "(k, c) \<in> set (claims d)" using c by (rule map_of_SomeD)
    then have nn: "0 < cl_amount c" "0 \<le> cl_bps c" and "subbudgets d (cl_key c) \<noteq> None"
      using ok by (auto simp: claims_ok_def)
    then obtain sb where sb: "subbudgets d (cl_key c) = Some sb" by blast
    let ?d = "put_row d k (first_row w c (max 0 x) meta)"
    have d: "books ?d" using b by (rule same_money_books [rotated]) simp
    obtain e charge where dc: "decide_charge s cx ?d w (cl_key c) (agent_in_workspace d (cl_key c) w)
        (cl_amount c) (cl_bps c) (max 0 x) k (dm_requested meta) (sb_ceiling sb - sb_spent sb) = Inr (e, charge)"
      using decide_charge_succeeds by blast
    have "0 \<le> cash_of e w"
      using decided(1) [OF dc less_imp_le [OF nn(1)] nn(2) _ d] booksD(6) by simp
    from settle_debit_eq [OF pool names c None sb less_imp_le [OF nn(1)] nn(2) dc this]
    show ?thesis by blast
  next
    case (Some r)
    then show ?thesis using pool names c by (simp add: settle_agent_debit_def Let_def)
  qed
  then obtain d' out where t: "settle_agent_debit s cx d w k x meta = Inr (d', out)" by blast
  have "\<forall>c. map_of (claims d) k = Some c \<longrightarrow> kw (cl_key c) = w" using c kw by simp
  from settle_debit_inv [OF inv pool this t] t show ?thesis by blast
qed

subsection \<open>A hold stays within the agent's limits\<close>

lemma in_force_cong:
  "rules d' = rules d \<Longrightarrow> boosts d' = boosts d \<Longrightarrow> agent_rules_in_force d' a at = agent_rules_in_force d a at"
  by (simp add: agent_rules_in_force_def agent_boosts_def cong: option.case_cong)

lemma spent_since_cong:
  "postings d' = postings d \<Longrightarrow> market_uses d' = market_uses d \<Longrightarrow> money_payments d' = money_payments d \<Longrightarrow>
    payee_payments d' = payee_payments d \<Longrightarrow> agent_spent_since d' w a t = agent_spent_since d w a t"
  by (simp add: agent_spent_since_def)

lemma reserve_limits:
  assumes s: "reserve_lxc_for_agent s cx d key w i estimate meta = Inr d'" and pool: "st_pool s"
    and n: "find_reservation d i = None" and key: "agent_of_key d key = Some (a, w)"
    and ref: "\<not> has_prefix i ''invoice_agent:''"
    and force: "agent_rules_in_force d a (req_time cx (agent_request_from cx)) = Some r"
    and loc: "rules_location (st_zone s) r = Some loc"
    and l: "l \<in> set (period_limits r loc (req_time cx (agent_request_from cx)))" "pl_ulxc l \<noteq> 0"
    and begun: "pl_since l \<le> cx_now cx"
  shows "agent_spent_since d' w a (pl_since l) \<le> pl_ulxc l"
  using s pool
proof (cases rule: reserve_cases)
  case (fresh bps held m is_agent)
  let ?o = "hold_opened cx d key w i held bps meta"
  have k: "agent_of_key ?o key = Some (a, w)" using key by simp
  have f: "agent_rules_in_force ?o a (req_time cx (agent_request_from cx)) = Some r"
    using force by (simp add: in_force_cong [of ?o d])
  have pos: "0 < held" using fresh(2,4) platform_fee_nonneg [of estimate bps] by simp
  have "agent_spent_since m w a (pl_since l) \<le> pl_ulxc l"
    using movement_limits(1) [OF fresh(5) k pos _ ref f loc l begun] by (simp add: spend_leg_kind_def)
  moreover have "agent_spent_since d' w a (pl_since l) = agent_spent_since m w a (pl_since l)"
    unfolding fresh(9) by (rule spent_since_cong) simp_all
  ultimately show ?thesis by simp
qed (use n in simp)

end
