(* ===== verification/Agent_Stops.thy ===== *)
theory Agent_Stops
  imports Wallet_System
begin

section \<open>Agents that may not spend, and money set aside\<close>

text \<open>
  What a pause of an agent or of its whole workspace and an archive promise: no new hold and
  no new debit on the agent's keys until it is resumed, and none ever after an archive. And
  what funding, withdrawing and a locked pot promise about the money itself.
\<close>

definition stopped :: "db \<Rightarrow> string \<Rightarrow> bool" where
  "stopped d a \<longleftrightarrow> refuse_if_paused d a \<noteq> Inr ()"

lemma stopped_iff:
  "stopped d a \<longleftrightarrow> (case find_agent d a of None \<Rightarrow> True
     | Some r \<Rightarrow> ag_archived_at r \<noteq> None \<or> ws_pauses d (ag_ws r) \<noteq> None \<or> ag_paused_at r \<noteq> None)"
  by (auto simp: stopped_def refuse_if_paused_def Let_def split: option.split)

lemma stopped_cong: "agents d' = agents d \<Longrightarrow> ws_pauses d' = ws_pauses d \<Longrightarrow> stopped d' a = stopped d a"
  by (simp add: stopped_iff find_agent_def cong: option.case_cong)

lemma permitted_not_stopped: "enforce_agent_rules s cx d w a amount ref = Inr d' \<Longrightarrow> \<not> stopped d a"
  using enforce_permits [of s cx d w a amount ref] by (auto simp: rules_permit_def stopped_def)

lemma movement_not_stopped:
  assumes s: "agent_movement_fee s cx d key delta fee bps kind ref model = Inr (d', is_agent)"
    and key: "agent_of_key d key = Some (a, w)" and pos: "0 < delta"
  shows "\<not> stopped d a"
proof -
  obtain c e where c: "cover_shortfall cx d w a (delta + fee) kind ref = Inr (c, account_balance c w (AgentAcc a))"
    and e: "enforce_agent_rules s cx c w a (delta + fee) ref = Inr e"
    using movement_InrD [OF s] key pos by auto
  have "agents c = agents d" "ws_pauses c = ws_pauses d"
    using cover_InrD [OF c] by (auto simp: Let_def)
  then show ?thesis using permitted_not_stopped [OF e] stopped_cong [of c d] by simp
qed

lemma hold_opened_stopped [simp]: "stopped (hold_opened cx d key w i held bps meta) a = stopped d a"
  by (rule stopped_cong) (simp_all add: hold_opened_def ensure_subbudget_def split: option.split)

lemma debit_opened_stopped [simp]: "stopped (debit_opened d key w request amount bps) a = stopped d a"
  by (rule stopped_cong) (simp_all add: debit_opened_def ensure_subbudget_def split: option.split)

lemma debit_opened_key [simp]: "agent_of_key (debit_opened d key w request amount bps) k = agent_of_key d k"
  by (rule agent_of_key_cong) simp_all

lemma stopped_no_hold:
  assumes st: "stopped d a" and key: "agent_of_key d key = Some (a, w)" and pool: "st_pool s"
    and n: "find_reservation d i = None"
  shows "isl (reserve_lxc_for_agent s cx d key w i x meta)"
proof (rule ccontr)
  assume "\<not> isl (reserve_lxc_for_agent s cx d key w i x meta)"
  then obtain d' where r: "reserve_lxc_for_agent s cx d key w i x meta = Inr d'"
    by (cases "reserve_lxc_for_agent s cx d key w i x meta") simp_all
  from r pool show False
  proof (cases rule: reserve_cases)
    case (fresh bps held m is_agent)
    have "0 < held" using fresh(2,4) platform_fee_nonneg [of x bps] by simp
    moreover have "agent_of_key (hold_opened cx d key w i held bps meta) key = Some (a, w)" using key by simp
    ultimately show False using movement_not_stopped [OF fresh(5)] st by simp
  qed (use n in simp)
qed

lemma stopped_no_debit:
  assumes st: "stopped d a" and key: "agent_of_key d key = Some (a, w)" and pool: "st_pool s"
    and n: "map_of (claims d) rq = None"
  shows "isl (spend_lxc_for_agent s cx d key w rq x de meta)"
proof (rule ccontr)
  assume "\<not> isl (spend_lxc_for_agent s cx d key w rq x de meta)"
  then obtain d' where r: "spend_lxc_for_agent s cx d key w rq x de meta = Inr d'"
    by (cases "spend_lxc_for_agent s cx d key w rq x de meta") simp_all
  from r pool show False
  proof (cases rule: spend_agent_cases)
    case (fresh bps fee m is_agent)
    have "agent_of_key (debit_opened d key w rq x bps) key = Some (a, w)" using key by simp
    then show False using movement_not_stopped [OF fresh(5) _ fresh(2)] st by simp
  qed (use n in simp)
qed

subsection \<open>What stops an agent\<close>

lemma find_update_where:
  assumes "\<And>r. ag_id (f r) = ag_id r"
  shows "find_agent (update_agent_where p f d) a = map_option (\<lambda>r. if p r then f r else r) (find_agent d a)"
proof -
  have "find (\<lambda>r. ag_id r = a) (map (\<lambda>r. if p r then f r else r) rs) =
      map_option (\<lambda>r. if p r then f r else r) (find (\<lambda>r. ag_id r = a) rs)" for rs
    using assms by (induction rs) auto
  then show ?thesis by (simp add: find_agent_def update_agent_where_def)
qed

lemma find_revoke [simp]:
  "find_agent (revoke_agent_kya cx d a why) b = find_agent d b"
  "find_agent (revoke_workspace_kya cx d w why) b = find_agent d b"
  "ws_pauses (revoke_agent_kya cx d a why) = ws_pauses d"
  "ws_pauses (revoke_workspace_kya cx d w why) = ws_pauses d"
  by (simp_all add: revoke_agent_kya_def revoke_workspace_kya_def revoke_kya_def find_agent_def)

lemma paused_stopped:
  assumes "pause_agent cx d w a why = Inr d'" and "find_agent d a = Some r" and "ag_ws r = w"
  shows "stopped d' a"
  using assms find_agent_id [OF assms(2)]
  by (auto simp: pause_agent_def stopped_iff is_agent_of_def find_update_where split: if_splits option.splits)

lemma all_paused_stopped:
  "find_agent d a = Some r \<Longrightarrow> ag_ws r = w \<Longrightarrow> stopped (pause_all_agents cx d w why) a"
  by (simp add: pause_all_agents_def stopped_iff) (simp add: find_agent_def)

lemma archived_find:
  assumes "archive_agent cx d w a = Inr (d', out)" and "find_agent d a = Some r"
  shows "find_agent d' a = Some (r\<lparr>ag_archived_at := Some (cx_now cx)\<rparr>)"
proof -
  have f: "find_agent (e\<lparr>api_keys := x, topups := y, schedules := z\<rparr>) b = find_agent e b" for e :: db and x y z b
    by (simp add: find_agent_def)
  have p: "find_agent (posted_db cx d w k rf m f ls) b = find_agent d b" for k rf m f ls b
    by (simp add: find_agent_def)
  show ?thesis
    using assms find_agent_id [OF assms(2)]
    by (auto simp: archive_agent_def post_entry_eq Let_def f p find_update_where split: if_splits)
qed

text \<open>An archive leaves the agent nothing and returns what it held to the workspace.\<close>

lemma archive_sweeps:
  assumes b: "books d" and s: "archive_agent cx d w a = Inr (d', out)"
  shows "account_balance d' w (AgentAcc a) = 0" and "agent_pots_total d w a = 0"
    and "ar_swept out = account_balance d w (AgentAcc a)"
    and "bal_of d' w - allocated d' w = bal_of d w - allocated d w + ar_swept out"
    and "bal_of d' w = bal_of d w"
proof -
  let ?bal = "account_balance d w (AgentAcc a)"
  have nn: "0 \<le> ?bal" using accounts_okD [OF booksD(3) [OF b]] by simp
  show "agent_pots_total d w a = 0" using archive_InrD [OF s] by simp
  show sw: "ar_swept out = ?bal" using archive_InrD [OF s] nn by (simp add: Let_def)
  let ?e = "if ?bal > 0 then posted_db cx d w PkWithdraw (''archive:'' @ a) None None
      [(AgentAcc a, - ?bal), (WorkspaceAcc, ?bal)] else d"
  have m: "same_money ?e d'" using archive_InrD [OF s] by (simp add: Let_def)
  show "account_balance d' w (AgentAcc a) = 0" "bal_of d' w - allocated d' w = bal_of d w - allocated d w + ar_swept out"
    "bal_of d' w = bal_of d w"
    using same_money_views [OF m] nn sw by (auto simp: view_simps)
qed

text \<open>New funds never reach an archived agent; a fund that landed before only answers again.\<close>

lemma archived_not_funded:
  assumes "find_agent d a = Some r" and "ag_archived_at r \<noteq> None"
    and "fund_agent cx d w a x = Inr (d', n)"
  shows "d' = d"
  using fund_InrD [OF assms(3)] assms(1,2) by (auto simp: require_not_archived_def)

subsection \<open>Funding, withdrawing and pots\<close>

lemma fund_then_withdraw:
  assumes f: "fund_agent cx d w a x = Inr (d1, n1)" and new: "cx_move_key cx = ''''" "cx_move_key cx' = ''''"
    and wd: "withdraw_agent cx' d1 w a x = Inr (d2, n2)"
  shows "account_balance d2 w (AgentAcc a) = account_balance d w (AgentAcc a)"
    and "bal_of d2 v = bal_of d v" and "allocated d2 v = allocated d v"
  using fund_InrD [OF f] withdraw_InrD [OF wd] new by (auto simp: view_simps)

lemma funded_withdrawable:
  assumes f: "fund_agent cx d w a x = Inr (d1, n1)" and b: "books d"
    and new: "cx_move_key cx = ''''" "cx_move_key cx' = ''''"
  shows "\<exists>d2 n2. withdraw_agent cx' d1 w a x = Inr (d2, n2)"
proof -
  have "0 \<le> account_balance d w (AgentAcc a)" using accounts_okD [OF booksD(3) [OF b]] by simp
  then show ?thesis
    using fund_InrD [OF f] new
    by (auto simp: withdraw_agent_def move_agent_funds_def Let_def post_entry_eq view_simps lock_agent_Inr
        lock_agent_def find_agent_def)
qed

lemma locked_pot_refuses:
  assumes "find_pot d w a p = Some r" and "pt_locked_until r = Some t" and "t > cx_now cx"
    and "cx_move_key cx = ''''"
  shows "isl (move_pot cx d w a p x False)"
  using assms by (auto simp: move_pot_def lock_in_force_def Let_def isl_def lock_agent_def
      split: if_splits option.splits)

lemma lock_never_shortened:
  assumes "lock_pot cx d w a p until = Inr d'" and "find_pot d w a p = Some r"
    and "pt_locked_until r = Some t" and "t > cx_now cx"
  shows "\<exists>u. until = Some u \<and> t \<le> u"
  using assms by (auto simp: lock_pot_def split: if_splits option.splits)

end
