(* ===== verification/Rule_Periods.thy ===== *)
theory Rule_Periods
  imports Agent_Limits
begin

section \<open>Where the periods of the limits start, and what a model is capped as\<close>

text \<open>
  In UTC the four period limits start at the whole hour, at midnight, at the Monday of the
  week and at the first of the month. A model's cap is kept under one name for the model, its
  snapshots and its alias.
\<close>

lemma civil_day:
  assumes "civil_of_days n = (y, m, d)"
  shows "days_of_civil y m e = n - d + e"
  using civil_of_days_inv(1) [OF assms] by (simp add: days_of_civil_def)

definition monday_of :: "int \<Rightarrow> int" where
  "monday_of n = n - ((n + 4) mod 7 + 6) mod 7"

lemma monday_of_week: "monday_of n \<le> n" "n < monday_of n + 7" "(monday_of n + 4) mod 7 = 1"
proof -
  show "monday_of n \<le> n" "n < monday_of n + 7" by (simp_all add: monday_of_def)
  have "((n + 4) mod 7 + 6) mod 7 = (n + 10) mod 7" by (simp add: mod_simps add.commute)
  then have "(monday_of n + 4) mod 7 = (n - (n + 10) mod 7 + 4) mod 7" by (simp add: monday_of_def)
  also have "\<dots> = (n - (n + 10) + 4) mod 7" by (simp add: mod_simps algebra_simps)
  finally show "(monday_of n + 4) mod 7 = 1" by simp
qed

definition month_start :: "int \<Rightarrow> int" where
  "month_start n = (case civil_of_days n of (y, m, d) \<Rightarrow> n - d + 1)"

lemma month_start_day:
  assumes "civil_of_days n = (y, m, d)"
  shows "month_start n = days_of_civil y m 1" and "month_start n \<le> n" and "n < month_start n + month_days y ! nat (m - 1)"
  using civil_of_days_inv [OF assms] civil_day [OF assms, of 1] by (simp_all add: month_start_def assms)

lemma utc_periods:
  "period_limits r utc t =
    [\<lparr>pl_ulxc = limit_of (rl_hourly r), pl_since = t div ns_hour * ns_hour, pl_name = ''hourly''\<rparr>,
     \<lparr>pl_ulxc = rl_daily r, pl_since = t div ns_day * ns_day, pl_name = ''daily''\<rparr>,
     \<lparr>pl_ulxc = limit_of (rl_weekly r), pl_since = monday_of (t div ns_day) * ns_day, pl_name = ''weekly''\<rparr>,
     \<lparr>pl_ulxc = rl_monthly r, pl_since = month_start (t div ns_day) * ns_day, pl_name = ''monthly''\<rparr>]"
proof -
  obtain y m d where c: "civil_of_days (t div ns_day) = (y, m, d)" by (cases "civil_of_days (t div ns_day)") auto
  have minute: "t mod ns_hour div ns_minute * ns_minute + t mod ns_minute div ns_second * ns_second + t mod ns_second =
      t mod ns_hour"
  proof -
    have "t mod ns_minute div ns_second * ns_second + t mod ns_second = t mod ns_minute"
      using div_mult_mod_eq [of "t mod ns_minute" ns_second] by (simp add: ns_defs mod_mod_cancel)
    moreover have "t mod ns_hour div ns_minute * ns_minute + t mod ns_minute = t mod ns_hour"
      using div_mult_mod_eq [of "t mod ns_hour" ns_minute] by (simp add: ns_defs mod_mod_cancel)
    ultimately show ?thesis by simp
  qed
  have hour: "t - t mod ns_hour = t div ns_hour * ns_hour" by (simp add: minus_mod_eq_div_mult)
  show ?thesis
    using civil_day [OF c] minute hour
    by (simp add: period_limits_def day_start_def utc_def c Let_def monday_of_def month_start_def)
qed

subsection \<open>The name a model is capped under\<close>

lemma cap_key_reads_through [simp]:
  "model_cap_key (to_lower m) = model_cap_key m" "model_cap_key (trim_space m) = model_cap_key m"
  by (simp_all add: model_cap_key_def trim_space_lower)

end
