(* ===== verification/Sample_Wallet.thy ===== *)
theory Sample_Wallet
  imports Agent_Stops Rule_Periods
begin

section \<open>A wallet to try the operations on\<close>

text \<open>
  One workspace with 10,000 \<mu>LXC bought, an agent with two thousand of them and its key
  \<open>ka\<close>, a hold of that key's and a debit of the key \<open>kb\<close>, which no agent has. Each database is
  the last one after one step, so all of them are reachable. The properties' witnesses run
  the operations on them.
\<close>

definition right_or :: "'a \<Rightarrow> 'e + 'a \<Rightarrow> 'a" where
  "right_or x r = (case r of Inl _ \<Rightarrow> x | Inr y \<Rightarrow> y)"

lemma right_or: "\<not> isl r \<Longrightarrow> r = Inr (right_or x r)"
  by (cases r) (simp_all add: right_or_def)

lemma right_or_fst: "\<not> isl r \<Longrightarrow> r = Inr (fst (right_or x r), snd (right_or x r))"
  by (cases r) (simp_all add: right_or_def)

lemma not_isl_InrE: "\<not> isl r \<Longrightarrow> (\<And>x. r = Inr x \<Longrightarrow> P) \<Longrightarrow> P"
  by (cases r) simp_all

definition demo_store :: store where
  "demo_store = \<lparr>st_pool = True, st_zone = (\<lambda>n. if n = ''UTC'' then Some utc else None),
     st_gates = default_gates, st_fee = Some (\<lambda>d w. Inr 150), st_room_budget = None\<rparr>"

definition demo_ctx :: ctx where
  "demo_ctx = \<lparr>cx_now = 1000, cx_request = None, cx_move_key = '''', cx_charge_request = '''',
     cx_memo = '''', cx_changed_by = ''owner'', cx_change = ''''\<rparr>"

definition demo_kw :: "string \<Rightarrow> string" where
  "demo_kw key = ''w''"

definition demo_bought :: db where
  "demo_bought = fst (right_or (empty_db, 0)
     (credit_lxc_tx_typed demo_ctx empty_db ''w'' 10000 Purchase ''bought'' Map.empty))"

definition demo_agent :: db where
  "demo_agent = fst (right_or (demo_bought, new_agent demo_ctx ''a'' ''w'' ''A'' ''o'' KindAgent)
     (create_agent demo_store demo_ctx demo_bought ''w'' ''A'' ''o'' ''a''))"

definition demo_keyed :: db where
  "demo_keyed = right_or demo_agent (attach_agent_key demo_agent ''w'' ''a'' ''ka'')"

definition demo_db :: db where
  "demo_db = fst (right_or (demo_keyed, 0) (fund_agent demo_ctx demo_keyed ''w'' ''a'' 2000))"

definition demo_held :: db where
  "demo_held = right_or demo_db (reserve_lxc_for_agent demo_store demo_ctx demo_db ''ka'' ''w'' ''r1'' 1000 no_meta)"

definition demo_debited :: db where
  "demo_debited = right_or demo_held
     (spend_lxc_for_agent demo_store demo_ctx demo_held ''kb'' ''w'' ''q1'' 500 ''serve'' no_meta)"

lemma demo_pool [simp]: "st_pool demo_store"
  by (simp add: demo_store_def)

lemma demo_step1: "\<not> isl (credit_lxc_tx_typed demo_ctx empty_db ''w'' 10000 Purchase ''bought'' Map.empty)"
  by code_simp

lemma demo_step2: "\<not> isl (create_agent demo_store demo_ctx demo_bought ''w'' ''A'' ''o'' ''a'')"
  by code_simp

lemma demo_step3: "\<not> isl (attach_agent_key demo_agent ''w'' ''a'' ''ka'')"
  by code_simp

lemma demo_step4: "\<not> isl (fund_agent demo_ctx demo_keyed ''w'' ''a'' 2000)"
  by code_simp

lemma demo_step5: "\<not> isl (reserve_lxc_for_agent demo_store demo_ctx demo_db ''ka'' ''w'' ''r1'' 1000 no_meta)"
  by code_simp

lemma demo_step6: "\<not> isl (spend_lxc_for_agent demo_store demo_ctx demo_held ''kb'' ''w'' ''q1'' 500 ''serve'' no_meta)"
  by code_simp

lemma demo_ran:
  "\<exists>n. credit_lxc_tx_typed demo_ctx empty_db ''w'' 10000 Purchase ''bought'' Map.empty = Inr (demo_bought, n)"
  "\<exists>r. create_agent demo_store demo_ctx demo_bought ''w'' ''A'' ''o'' ''a'' = Inr (demo_agent, r)"
  "attach_agent_key demo_agent ''w'' ''a'' ''ka'' = Inr demo_keyed"
  "\<exists>n. fund_agent demo_ctx demo_keyed ''w'' ''a'' 2000 = Inr (demo_db, n)"
  "reserve_lxc_for_agent demo_store demo_ctx demo_db ''ka'' ''w'' ''r1'' 1000 no_meta = Inr demo_held"
  "spend_lxc_for_agent demo_store demo_ctx demo_held ''kb'' ''w'' ''q1'' 500 ''serve'' no_meta = Inr demo_debited"
  subgoal unfolding demo_bought_def by (rule exI, rule right_or_fst [OF demo_step1])
  subgoal unfolding demo_agent_def by (rule exI, rule right_or_fst [OF demo_step2])
  subgoal unfolding demo_keyed_def by (rule right_or [OF demo_step3])
  subgoal unfolding demo_db_def by (rule exI, rule right_or_fst [OF demo_step4])
  subgoal unfolding demo_held_def by (rule right_or [OF demo_step5])
  subgoal unfolding demo_debited_def by (rule right_or [OF demo_step6])
  done

lemma demo_reachable:
  "reachable demo_store demo_kw demo_db" "reachable demo_store demo_kw demo_held"
  "reachable demo_store demo_kw demo_debited"
proof -
  have kw: "demo_kw k = ''w''" for k by (simp add: demo_kw_def)
  have 1: "reachable demo_store demo_kw demo_bought"
    using demo_ran(1) reachable.after [OF reachable.start wallet_step.credit] by blast
  have 2: "reachable demo_store demo_kw demo_agent"
    using demo_ran(2) reachable.after [OF 1 wallet_step.create] by blast
  have 3: "reachable demo_store demo_kw demo_keyed"
    by (rule reachable.after [OF 2 wallet_step.attach [OF demo_ran(3) kw]])
  show 4: "reachable demo_store demo_kw demo_db"
    using demo_ran(4) reachable.after [OF 3 wallet_step.fund] by blast
  show 5: "reachable demo_store demo_kw demo_held"
    by (rule reachable.after [OF 4 wallet_step.hold [OF demo_ran(5) kw]])
  show "reachable demo_store demo_kw demo_debited"
    by (rule reachable.after [OF 5 wallet_step.debit [OF demo_ran(6) kw]])
qed

lemma demo_inv:
  "wallet_inv demo_kw demo_db" "wallet_inv demo_kw demo_held" "wallet_inv demo_kw demo_debited"
  using demo_reachable reachable_inv demo_pool by blast+

lemma demo_books: "books demo_db" "books demo_held" "books demo_debited" "claims_ok demo_debited"
  using demo_inv by (simp_all add: wallet_inv_def)

definition demo_hold :: reservation where
  "demo_hold = the (find_reservation demo_held ''r1'')"

lemma demo_find_hold:
  "find_reservation demo_held ''r1'' = Some demo_hold" "rv_status demo_hold = Held"
proof -
  have "\<not> Option.is_none (find_reservation demo_held ''r1'')" by code_simp
  then show "find_reservation demo_held ''r1'' = Some demo_hold"
    by (cases "find_reservation demo_held ''r1''") (simp_all add: demo_hold_def)
  show "rv_status demo_hold = Held" by code_simp
qed

lemma demo_no_hold: "find_reservation demo_db ''r1'' = None"
  by code_simp

definition demo_claim_row :: spend_claim where
  "demo_claim_row = \<lparr>cl_key = ''kb'', cl_amount = 500, cl_bps = 150\<rparr>"

lemma demo_claim:
  "map_of (claims demo_debited) ''q1'' = Some demo_claim_row" "settlements demo_debited ''q1'' = None"
  by code_simp+

lemma demo_covers: "covers_itself demo_store demo_db ''ka'' ''w'' 1000"
proof -
  have "account_balance demo_db ''w'' (AgentAcc ''a'') = 2000" and "platform_fee 1000 150 = 15"
    and "agent_of_key demo_db ''ka'' = Some (''a'', ''w'')" by code_simp+
  then show ?thesis
    by (auto simp: covers_itself_def platform_fee_bps_def demo_store_def fee_denominator_def)
qed

subsection \<open>The agent under a daily limit\<close>

definition demo_rules :: agent_rules where
  "demo_rules = no_rules\<lparr>rl_daily := 1500, rl_timezone := ''UTC''\<rparr>"

definition demo_ruled :: db where
  "demo_ruled = right_or demo_db (set_agent_rules demo_store demo_ctx demo_db ''w'' ''a'' demo_rules)"

definition demo_ruled_held :: db where
  "demo_ruled_held = right_or demo_ruled
     (reserve_lxc_for_agent demo_store demo_ctx demo_ruled ''ka'' ''w'' ''r2'' 1000 no_meta)"

lemma demo_ruled_ran:
  "set_agent_rules demo_store demo_ctx demo_db ''w'' ''a'' demo_rules = Inr demo_ruled"
  "reserve_lxc_for_agent demo_store demo_ctx demo_ruled ''ka'' ''w'' ''r2'' 1000 no_meta = Inr demo_ruled_held"
proof -
  have 1: "\<not> isl (set_agent_rules demo_store demo_ctx demo_db ''w'' ''a'' demo_rules)" by code_simp
  show "set_agent_rules demo_store demo_ctx demo_db ''w'' ''a'' demo_rules = Inr demo_ruled"
    unfolding demo_ruled_def by (rule right_or [OF 1])
  have 2: "\<not> isl (reserve_lxc_for_agent demo_store demo_ctx demo_ruled ''ka'' ''w'' ''r2'' 1000 no_meta)"
    by code_simp
  show "reserve_lxc_for_agent demo_store demo_ctx demo_ruled ''ka'' ''w'' ''r2'' 1000 no_meta = Inr demo_ruled_held"
    unfolding demo_ruled_held_def by (rule right_or [OF 2])
qed

definition demo_in_force :: agent_rules where
  "demo_in_force = the (agent_rules_in_force demo_ruled ''a'' 1000)"

lemma demo_ruled_facts:
  "find_reservation demo_ruled ''r2'' = None" "agent_of_key demo_ruled ''ka'' = Some (''a'', ''w'')"
  "\<not> has_prefix ''r2'' ''invoice_agent:''" "agent_rules_in_force demo_ruled ''a'' 1000 = Some demo_in_force"
  "rules_location (st_zone demo_store) demo_in_force = Some utc" "rl_daily demo_in_force = 1500"
proof -
  show "find_reservation demo_ruled ''r2'' = None" by code_simp
  show "agent_of_key demo_ruled ''ka'' = Some (''a'', ''w'')" by code_simp
  show "\<not> has_prefix ''r2'' ''invoice_agent:''" by code_simp
  have "\<not> Option.is_none (agent_rules_in_force demo_ruled ''a'' 1000)" by code_simp
  then show "agent_rules_in_force demo_ruled ''a'' 1000 = Some demo_in_force"
    by (cases "agent_rules_in_force demo_ruled ''a'' 1000") (simp_all add: demo_in_force_def)
  have "rl_timezone demo_in_force = ''UTC''" by code_simp
  then show "rules_location (st_zone demo_store) demo_in_force = Some utc"
    by (simp add: rules_location_def demo_store_def)
  show "rl_daily demo_in_force = 1500" by code_simp
qed

definition demo_pot :: pot where
  "demo_pot = \<lparr>pt_id = ''p'', pt_ws = ''w'', pt_agent = ''a'', pt_name = ''P'', pt_kind = ''goal'',
     pt_target = 100, pt_locked_until = Some 5000\<rparr>"

definition demo_lined :: db where
  "demo_lined = demo_db\<lparr>workspaces := [''w'' \<mapsto> \<lparr>wk_synthetic = False, wk_name = ''W'', wk_company = True,
     wk_synthetic_plan = None\<rparr>], credit_lines := [''w'' \<mapsto> \<lparr>cr_limit = 1000, cr_paused = False\<rparr>]\<rparr>"

end
