(* ===== verification/Capabilities.thy ===== *)
theory Capabilities
  imports Wallet_Books "HOL-Library.Product_Lexorder" "HOL-Library.List_Lexorder" "HOL-Library.Char_ord"
begin

section \<open>Who may use a capability with which money (wallet_capabilities.go, capability_terms.go, verification.go, compliance_freeze.go)\<close>

text \<open>
  \<open>gate_db\<close> holds the tables a use is judged by: the clearances an operator records, the freezes,
  the published terms and their acceptances, a workspace's verification checks and the limits set
  for each level. Tables are oldest row first, so the newest row is the last.

  \<open>spend_for_capability\<close> judges a movement of credits, \<open>require_billed_capability\<close> money on a
  Stripe bill; \<open>takes_live\<close> is the condition under which real money passes, which the code's
  chain of refusals is proved to decide. SHA-256, HMAC and the ISO list of countries are
  arguments: \<open>country_code\<close> says which two-letter codes are countries, \<open>digest\<close> is \<open>termsSHA\<close>.
\<close>

datatype clearance_action = Clear | Revoke

record clearance =
  cl_capability :: string
  cl_action :: clearance_action
  cl_operator :: string
  cl_reference :: string
  cl_countries :: "string list"
  cl_partner :: string
  cl_licence :: string
  cl_expires :: "int option"
  cl_at :: int

record clearance_terms =
  ct_reference :: string
  ct_licence :: string
  ct_partner :: string
  ct_countries :: "string list"
  ct_expires :: int

record terms_version =
  tv_capability :: string
  tv_version :: int
  tv_path :: string
  tv_body :: string
  tv_sha :: string
  tv_by :: string
  tv_at :: int

record acceptance =
  ac_ws :: string
  ac_capability :: string
  ac_version :: int
  ac_person :: string
  ac_ip_hash :: string
  ac_at :: int

record verification_row =
  vr_ws :: string
  vr_level :: int
  vr_subject :: string
  vr_method :: string
  vr_status :: string
  vr_ref :: string
  vr_name :: string
  vr_country :: string
  vr_number :: string
  vr_detail :: string
  vr_by :: string
  vr_at :: int

record gate_db =
  clearances :: "clearance list"
  freezes :: "string \<rightharpoonup> freeze"
  terms_versions :: "terms_version list"
  acceptances :: "acceptance list"
  verifications :: "verification_row list"
  level_limits :: "level_limit list"

definition empty_gates :: gate_db where
  "empty_gates = \<lparr>clearances = [], freezes = Map.empty, terms_versions = [], acceptances = [],
     verifications = [], level_limits = []\<rparr>"

text \<open>The newest row of a table that satisfies \<open>p\<close>.\<close>

definition newest :: "('r \<Rightarrow> bool) \<Rightarrow> 'r list \<Rightarrow> 'r option" where
  "newest p rows = find p (rev rows)"

subsection \<open>Clearances\<close>

fun country_codes_from :: "(string \<Rightarrow> bool) \<Rightarrow> string list \<Rightarrow> string list \<Rightarrow> string option \<times> string list" where
  "country_codes_from ok out [] = (None, out)"
| "country_codes_from ok out (c # cs) =
     (let c = to_upper (trim_space c)
      in if c = '''' then country_codes_from ok out cs
         else if \<not> (length c = 2 \<and> ok c) then (Some c, out)
         else country_codes_from ok (if c \<in> set out then out else out @ [c]) cs)"

definition country_codes :: "(string \<Rightarrow> bool) \<Rightarrow> string list \<Rightarrow> err + string list" where
  "country_codes ok cs =
     (case country_codes_from ok [] cs of
        (Some c, _) \<Rightarrow> Inl (ErrInvalid ''not an ISO 3166-1 alpha-2 country code'')
      | (None, out) \<Rightarrow> if out = [] then Inl (ErrInvalid ''a clearance names the countries it covers'')
          else Inr out)"

definition record_clearance ::
    "ctx \<Rightarrow> gate_db \<Rightarrow> string \<Rightarrow> clearance_action \<Rightarrow> string \<Rightarrow> clearance_terms \<Rightarrow> err + gate_db" where
  "record_clearance cx g key action operator t =
     (case capability_by_key key of
        None \<Rightarrow> Inl (ErrNoCapability key)
      | Some c \<Rightarrow>
          if cp_class c = Green then Inl (ErrInvalid ''GREEN: there is nothing to clear'')
          else if trim_space operator = '''' \<or> trim_space (ct_reference t) = ''''
          then Inl (ErrInvalid ''a clearance needs who records it and a reference'')
          else if action = Revoke \<and>
              (case newest (\<lambda>r. cl_capability r = key) (clearances g) of
                 None \<Rightarrow> True | Some r \<Rightarrow> cl_action r \<noteq> Clear)
          then Inl (ErrInvalid ''no clearance to revoke'')
          else Inr (g\<lparr>clearances := clearances g @ [\<lparr>cl_capability = key, cl_action = action,
            cl_operator = operator, cl_reference = ct_reference t, cl_countries = ct_countries t,
            cl_partner = ct_partner t, cl_licence = ct_licence t,
            cl_expires = (if action = Clear then Some (ct_expires t) else None), cl_at = cx_now cx\<rparr>]\<rparr>))"

definition clear_capability ::
    "(string \<Rightarrow> bool) \<Rightarrow> ctx \<Rightarrow> gate_db \<Rightarrow> string \<Rightarrow> string \<Rightarrow> clearance_terms \<Rightarrow> err + gate_db" where
  "clear_capability country_code cx g key operator t =
     rbind (country_codes country_code (ct_countries t)) (\<lambda>cs.
       let t = t\<lparr>ct_countries := cs, ct_licence := trim_space (ct_licence t), ct_partner := trim_space (ct_partner t)\<rparr>
       in if ct_licence t = '''' \<or> ct_partner t = ''''
          then Inl (ErrInvalid ''a clearance names the licence and the partner'')
          else if \<not> ct_expires t > cx_now cx then Inl (ErrInvalid ''a clearance needs an expiry in the future'')
          else record_clearance cx g key Clear operator t)"

definition revoke_clearance :: "ctx \<Rightarrow> gate_db \<Rightarrow> string \<Rightarrow> string \<Rightarrow> string \<Rightarrow> err + gate_db" where
  "revoke_clearance cx g key operator why =
     record_clearance cx g key Revoke operator
       \<lparr>ct_reference = why, ct_licence = '''', ct_partner = '''', ct_countries = [], ct_expires = 0\<rparr>"

text \<open>\<open>clearanceCountries\<close>: \<open>[]\<close> stands for the nil of no clearance in force.\<close>

definition clearance_countries :: "ctx \<Rightarrow> gate_db \<Rightarrow> string \<Rightarrow> string list" where
  "clearance_countries cx g key =
     (case newest (\<lambda>r. cl_capability r = key) (clearances g) of
        None \<Rightarrow> []
      | Some r \<Rightarrow> if cl_action r = Clear \<and> (case cl_expires r of None \<Rightarrow> False | Some t \<Rightarrow> t > cx_now cx)
          then cl_countries r else [])"

definition capability_cleared :: "ctx \<Rightarrow> gate_db \<Rightarrow> string \<Rightarrow> string \<Rightarrow> bool" where
  "capability_cleared cx g country key \<longleftrightarrow> country \<in> set (clearance_countries cx g key)"

definition clearance_in_force :: "ctx \<Rightarrow> gate_db \<Rightarrow> string \<Rightarrow> clearance option" where
  "clearance_in_force cx g key =
     (case newest (\<lambda>r. cl_capability r = key) (clearances g) of
        None \<Rightarrow> None
      | Some r \<Rightarrow> if cl_action r = Clear \<and> (case cl_expires r of None \<Rightarrow> False | Some t \<Rightarrow> t > cx_now cx) \<and>
            cl_countries r \<noteq> [] then Some r else None)"

definition wallet_capabilities :: "ctx \<Rightarrow> gate_db \<Rightarrow> (capability \<times> bool \<times> clearance option) list" where
  "wallet_capabilities cx g =
     map (\<lambda>c. if cp_class c \<noteq> Green \<and> clearance_in_force cx g (cp_key c) \<noteq> None
         then (c, True, clearance_in_force cx g (cp_key c))
         else (c, cp_class c = Green, None)) capabilities"

subsection \<open>Freezes\<close>

definition freeze_refusal :: "gate_db \<Rightarrow> string \<Rightarrow> capability \<Rightarrow> cap_refusal option" where
  "freeze_refusal g w c = map_option (\<lambda>f. \<lparr>cf_capability = c, cf_reason = ByFreeze f\<rparr>) (freezes g w)"

definition frozen_refusal :: "gate_db \<Rightarrow> string \<Rightarrow> capability \<Rightarrow> cap_refusal option" where
  "frozen_refusal g w c = (if cp_class c = Green then None else freeze_refusal g w c)"

definition refusal_err :: "cap_refusal option \<Rightarrow> err + unit" where
  "refusal_err r = (case r of None \<Rightarrow> Inr () | Some f \<Rightarrow> Inl (ErrCapability f))"

definition refuse_frozen :: "gate_db \<Rightarrow> string \<Rightarrow> capability \<Rightarrow> err + unit" where
  "refuse_frozen g w c = refusal_err (frozen_refusal g w c)"

definition refuse_frozen_any_class :: "gate_db \<Rightarrow> string \<Rightarrow> capability \<Rightarrow> err + unit" where
  "refuse_frozen_any_class g w c = refusal_err (freeze_refusal g w c)"

subsection \<open>Terms\<close>

definition latest_terms :: "gate_db \<Rightarrow> string \<Rightarrow> terms_version option" where
  "latest_terms g key =
     (let ts = filter (\<lambda>t. tv_capability t = key) (terms_versions g)
      in find (\<lambda>t. list_all (\<lambda>u. tv_version u \<le> tv_version t) ts) ts)"

definition max_terms_version :: "gate_db \<Rightarrow> string \<Rightarrow> int" where
  "max_terms_version g key = (case latest_terms g key of None \<Rightarrow> 0 | Some t \<Rightarrow> tv_version t)"

text \<open>\<open>PublishFirstTerms\<close>: version 1 of every text whose capability has no terms, in the list's order.\<close>

fun publish_first ::
    "(string \<Rightarrow> string) \<Rightarrow> ctx \<Rightarrow> (string \<rightharpoonup> string \<times> string) \<Rightarrow> gate_db \<Rightarrow> capability list \<Rightarrow> gate_db \<times> string list" where
  "publish_first digest cx texts g [] = (g, [])"
| "publish_first digest cx texts g (c # cs) =
     (case texts (cp_key c) of
        None \<Rightarrow> publish_first digest cx texts g cs
      | Some (path, body) \<Rightarrow>
          if list_ex (\<lambda>t. tv_capability t = cp_key c) (terms_versions g)
          then publish_first digest cx texts g cs
          else
            let g = g\<lparr>terms_versions := terms_versions g @ [\<lparr>tv_capability = cp_key c, tv_version = 1,
                  tv_path = path, tv_body = body, tv_sha = digest body, tv_by = ''lens'', tv_at = cx_now cx\<rparr>]\<rparr>
            in case publish_first digest cx texts g cs of (g, ks) \<Rightarrow> (g, cp_key c # ks))"

definition publish_first_terms ::
    "(string \<Rightarrow> string) \<Rightarrow> ctx \<Rightarrow> (string \<rightharpoonup> string \<times> string) \<Rightarrow> gate_db \<Rightarrow> gate_db \<times> string list" where
  "publish_first_terms digest cx texts g = publish_first digest cx texts g capabilities"

definition publish_terms ::
    "(string \<Rightarrow> string) \<Rightarrow> ctx \<Rightarrow> gate_db \<Rightarrow> string \<Rightarrow> string \<Rightarrow> string \<Rightarrow> string \<Rightarrow> err + gate_db \<times> terms_version" where
  "publish_terms digest cx g key publisher path body =
     (case capability_by_key key of
        None \<Rightarrow> Inl (ErrNoCapability key)
      | Some c \<Rightarrow>
          if trim_space publisher = '''' \<or> trim_space body = '''' \<or> path = ''''
          then Inl (ErrInvalid ''publishing terms needs who publishes them, the text and where it is'')
          else
            let sha = digest body
            in if (case latest_terms g key of None \<Rightarrow> '''' | Some t \<Rightarrow> tv_sha t) = sha
               then Inl (ErrTerms ''unchanged'')
               else let t = \<lparr>tv_capability = key, tv_version = max_terms_version g key + 1, tv_path = path,
                      tv_body = body, tv_sha = sha, tv_by = publisher, tv_at = cx_now cx\<rparr>
                    in Inr (g\<lparr>terms_versions := terms_versions g @ [t]\<rparr>, t))"

definition accepted_row :: "gate_db \<Rightarrow> string \<Rightarrow> string \<Rightarrow> int \<Rightarrow> acceptance option" where
  "accepted_row g w key v =
     find (\<lambda>a. ac_ws a = w \<and> ac_capability a = key \<and> ac_version a = v) (acceptances g)"

definition accept_terms ::
    "ctx \<Rightarrow> gate_db \<Rightarrow> string \<Rightarrow> string \<Rightarrow> int \<Rightarrow> string \<Rightarrow> string \<Rightarrow> err + gate_db \<times> acceptance" where
  "accept_terms cx g w key version person ip_hash =
     (if w = '''' \<or> trim_space person = ''''
      then Inl (ErrInvalid ''an acceptance needs the workspace and the person accepting'')
      else
        let latest = max_terms_version g key
        in if latest = 0 then Inl (ErrTerms ''no terms'')
           else if version \<noteq> latest then Inl (ErrTerms ''stale version'')
           else case accepted_row g w key version of
             Some a \<Rightarrow> Inr (g, a)
           | None \<Rightarrow>
               let a = \<lparr>ac_ws = w, ac_capability = key, ac_version = version, ac_person = person,
                     ac_ip_hash = ip_hash, ac_at = cx_now cx\<rparr>
               in Inr (g\<lparr>acceptances := acceptances g @ [a]\<rparr>, a))"

definition terms_refusal :: "gate_db \<Rightarrow> string \<Rightarrow> capability \<Rightarrow> cap_refusal option" where
  "terms_refusal g w c =
     (case latest_terms g (cp_key c) of
        None \<Rightarrow> None
      | Some t \<Rightarrow> if accepted_row g w (cp_key c) (tv_version t) \<noteq> None then None
          else Some \<lparr>cf_capability = c, cf_reason = ByTerms (tv_version t)\<rparr>)"

definition refuse_unaccepted :: "gate_db \<Rightarrow> string \<Rightarrow> capability \<Rightarrow> err + unit" where
  "refuse_unaccepted g w c = refusal_err (terms_refusal g w c)"

subsection \<open>Verification levels\<close>

definition has_suffix :: "string \<Rightarrow> string \<Rightarrow> bool" where
  "has_suffix s p \<longleftrightarrow> length p \<le> length s \<and> drop (length s - length p) s = p"

definition test_only :: "string \<Rightarrow> bool" where
  "test_only m \<longleftrightarrow> m = ''test'' \<or> m = ''persona'' \<or> has_suffix m ''_sandbox''"

definition record_verification_check :: "gate_db \<Rightarrow> verification_row \<Rightarrow> gate_db" where
  "record_verification_check g r = g\<lparr>verifications := verifications g @ [r]\<rparr>"

text \<open>Each check as it stands now, the newest row of its reference, newest check first.\<close>

definition check_started :: "verification_row list \<Rightarrow> string \<Rightarrow> int" where
  "check_started rows i = Min (vr_at ` set (filter (\<lambda>r. vr_ref r = i) rows))"

definition read_verification_checks :: "gate_db \<Rightarrow> string \<Rightarrow> verification_row list" where
  "read_verification_checks g w =
     (let rows = filter (\<lambda>r. vr_ws r = w) (verifications g);
          latest = filter (\<lambda>r. newest (\<lambda>q. vr_ref q = vr_ref r) rows = Some r) (remdups rows)
      in sort_key (\<lambda>r. (- check_started rows (vr_ref r), vr_ref r)) latest)"

fun climb :: "(int \<Rightarrow> bool) \<Rightarrow> nat \<Rightarrow> int \<Rightarrow> int" where
  "climb passed 0 l = l"
| "climb passed (Suc n) l = (if passed (l + 1) then climb passed n (l + 1) else l)"

definition check_passed :: "bool \<Rightarrow> verification_row list \<Rightarrow> int \<Rightarrow> bool" where
  "check_passed live checks l =
     list_ex (\<lambda>c. vr_status c = ''completed'' \<and> vr_level c = l \<and> \<not> (live \<and> test_only (vr_method c))) checks"

definition reached_levels :: "verification_row list \<Rightarrow> int \<times> int" where
  "reached_levels checks = (climb (check_passed False checks) 3 level_signed_in,
     climb (check_passed True checks) 3 level_signed_in)"

definition live_verification_level :: "gate_db \<Rightarrow> string \<Rightarrow> int" where
  "live_verification_level g w = snd (reached_levels (read_verification_checks g w))"

fun live_country_from :: "string \<times> int \<Rightarrow> verification_row list \<Rightarrow> string" where
  "live_country_from best [] = fst best"
| "live_country_from best (c # cs) =
     live_country_from
       (if vr_status c = ''completed'' \<and> \<not> test_only (vr_method c) \<and> vr_country c \<noteq> '''' \<and> vr_level c > snd best
        then (vr_country c, vr_level c) else best) cs"

definition live_country :: "verification_row list \<Rightarrow> string" where
  "live_country checks = live_country_from ('''', level_signed_in) checks"

definition owner_country :: "gate_db \<Rightarrow> string \<Rightarrow> string" where
  "owner_country g w = live_country (read_verification_checks g w)"

definition money_currencies :: "string list" where
  "money_currencies = [''GBP'', ''EUR'', ''USD'', ''USDC'']"

definition set_level_limit ::
    "ctx \<Rightarrow> gate_db \<Rightarrow> int \<Rightarrow> string \<Rightarrow> int \<Rightarrow> string \<Rightarrow> string \<Rightarrow> err + gate_db" where
  "set_level_limit cx g level currency limit operator reference =
     (let l = \<lparr>ll_level = level, ll_currency = to_upper (trim_space currency), ll_limit = limit,
            ll_operator = trim_space operator, ll_reference = trim_space reference, ll_at = cx_now cx\<rparr>
      in if level < level_contact \<or> level > level_company then Inl (ErrInvalid ''limits are set for L1, L2 and L3'')
         else if ll_currency l \<notin> set money_currencies then Inl (ErrInvalid ''a limit is in GBP, EUR, USD or USDC'')
         else if limit < 0 then Inl (ErrInvalid ''a limit is 0 or more'')
         else if ll_operator l = '''' \<or> ll_reference l = '''' then Inl (ErrInvalid ''a limit names who sets it and why'')
         else Inr (g\<lparr>level_limits := level_limits g @ [l]\<rparr>))"

definition level_limits_in_force :: "gate_db \<Rightarrow> level_limit list" where
  "level_limits_in_force g =
     sort_key (\<lambda>l. (ll_level l, ll_currency l))
       (filter (\<lambda>l. newest (\<lambda>q. ll_level q = ll_level l \<and> ll_currency q = ll_currency l) (level_limits g) = Some l)
         (remdups (level_limits g)))"

fun limit_for_from :: "level_limit option \<Rightarrow> level_limit list \<Rightarrow> int \<Rightarrow> string \<Rightarrow> level_limit option" where
  "limit_for_from best [] have cur = best"
| "limit_for_from best (c # cs) have cur =
     limit_for_from
       (if ll_currency c = cur \<and> ll_level c \<le> have \<and>
           (case best of None \<Rightarrow> True | Some b \<Rightarrow> ll_level c > ll_level b)
        then Some c else best) cs have cur"

definition limit_for :: "level_limit list \<Rightarrow> int \<Rightarrow> string \<Rightarrow> level_limit option" where
  "limit_for ls have cur = limit_for_from None ls have cur"

definition level_refusal :: "gate_db \<Rightarrow> string \<Rightarrow> capability \<Rightarrow> level_refusal option" where
  "level_refusal g w c =
     (if cp_level c = level_signed_in then None
      else let have = live_verification_level g w
        in if have < cp_level c
           then Some \<lparr>lf_needed = cp_level c, lf_have = have, lf_no_limit = False, lf_currency = '''',
             lf_limit = None, lf_amount = 0\<rparr>
           else if \<not> list_ex (\<lambda>l. ll_level l \<le> have \<and> ll_limit l > 0) (level_limits_in_force g)
           then Some \<lparr>lf_needed = cp_level c, lf_have = have, lf_no_limit = True, lf_currency = '''',
             lf_limit = None, lf_amount = 0\<rparr>
           else None)"

text \<open>\<open>overLevelLimit\<close> on the postings of a movement of money, as pairs of currency and amount.\<close>

definition moved_in :: "(string \<times> int) list \<Rightarrow> string \<Rightarrow> int" where
  "moved_in ps cur = sum_where (\<lambda>p. fst p = cur \<and> snd p > 0) snd ps"

fun over_limits ::
    "level_limit list \<Rightarrow> int \<Rightarrow> capability \<Rightarrow> (string \<times> int) list \<Rightarrow> string list \<Rightarrow> level_refusal option" where
  "over_limits ls have c ps [] = None"
| "over_limits ls have c ps (cur # curs) =
     (case limit_for ls have cur of
        None \<Rightarrow> Some \<lparr>lf_needed = cp_level c, lf_have = have, lf_no_limit = True, lf_currency = cur,
          lf_limit = None, lf_amount = 0\<rparr>
      | Some l \<Rightarrow>
          if moved_in ps cur > ll_limit l
          then Some \<lparr>lf_needed = cp_level c, lf_have = have, lf_no_limit = False, lf_currency = cur,
            lf_limit = Some l, lf_amount = moved_in ps cur\<rparr>
          else over_limits ls have c ps curs)"

definition over_level_limit :: "gate_db \<Rightarrow> string \<Rightarrow> capability \<Rightarrow> (string \<times> int) list \<Rightarrow> level_refusal option" where
  "over_level_limit g w c ps =
     (if cp_level c = level_signed_in then None
      else over_limits (level_limits_in_force g) (live_verification_level g w) c ps
        (sort (remdups (map fst (filter (\<lambda>p. snd p > 0) ps)))))"

subsection \<open>Live money\<close>

definition capability_live :: "store \<Rightarrow> ctx \<Rightarrow> gate_db \<Rightarrow> db \<Rightarrow> string \<Rightarrow> capability \<Rightarrow> cap_refusal option" where
  "capability_live s cx g d w c =
     (let countries = clearance_countries cx g (cp_key c)
      in if cp_class c \<noteq> Green \<and> countries = [] then Some \<lparr>cf_capability = c, cf_reason = Uncleared\<rparr>
         else if cp_class c = Green \<and> cp_key c \<notin> set b30 then None
         else
           let plan = of_under (st_gates s) (plan_row_of d w)
           in if \<not> g_live_money (pw_gates plan)
              then Some \<lparr>cf_capability = c, cf_reason = ByPlan (refuse_live_money plan (st_gates s))\<rparr>
              else case level_refusal g w c of
                Some l \<Rightarrow> Some \<lparr>cf_capability = c, cf_reason = ByLevel l\<rparr>
              | None \<Rightarrow>
                  if cp_class c = Green \<or> owner_country g w \<in> set countries then None
                  else Some \<lparr>cf_capability = c, cf_reason = ByCountry (owner_country g w) countries\<rparr>)"

definition set_test_funded :: "db \<Rightarrow> string \<Rightarrow> int \<Rightarrow> db" where
  "set_test_funded d w v =
     (case balances d w of
        None \<Rightarrow> d
      | Some r \<Rightarrow> d\<lparr>balances := (balances d)(w \<mapsto> r\<lparr>lx_test_funded := v\<rparr>)\<rparr>)"

definition spend_for_capability ::
    "store \<Rightarrow> ctx \<Rightarrow> gate_db \<Rightarrow> db \<Rightarrow> string \<Rightarrow> string \<Rightarrow> int \<Rightarrow> err + db \<times> int" where
  "spend_for_capability s cx g d w key amount =
     (case capability_by_key key of
        None \<Rightarrow> Inl (ErrNoCapability key)
      | Some c \<Rightarrow>
          if amount \<le> 0 then Inr (d, 0)
          else
            rbind (refuse_frozen g w c) (\<lambda>_.
            rbind (refuse_unaccepted g w c) (\<lambda>_.
              case capability_live s cx g d w c of
                None \<Rightarrow> Inr (d, 0)
              | Some refusal \<Rightarrow>
                  let have = test_funded_ulxc d w
                  in if have < amount then
                       (if \<not> test_workspace d w then Inl (ErrCapability refusal)
                        else Inr (set_test_funded d w 0, have))
                     else Inr (set_test_funded d w (have - amount), amount))))"

definition require_billed_capability ::
    "store \<Rightarrow> bool \<Rightarrow> ctx \<Rightarrow> gate_db \<Rightarrow> db \<Rightarrow> string \<Rightarrow> string \<Rightarrow> err + unit" where
  "require_billed_capability s live_stripe cx g d w key =
     (case capability_by_key key of
        None \<Rightarrow> Inl (ErrNoCapability key)
      | Some c \<Rightarrow>
          rbind (refuse_frozen g w c) (\<lambda>_.
          rbind (refuse_unaccepted g w c) (\<lambda>_.
            if \<not> live_stripe then Inr () else refusal_err (capability_live s cx g d w c))))"

subsection \<open>Which uses take real money\<close>

text \<open>
  \<open>level_enough\<close> and \<open>takes_live\<close> are what the refusals decide: real money passes for a GREEN
  capability outside B30's list, and otherwise only under a clearance in force (unless GREEN), on a
  plan with live money, at a verification level that is reached and has a limit, and from a
  country the clearance lists (unless GREEN).
\<close>

definition level_enough :: "gate_db \<Rightarrow> string \<Rightarrow> int \<Rightarrow> bool" where
  "level_enough g w needed \<longleftrightarrow> needed = level_signed_in \<or>
     (needed \<le> live_verification_level g w \<and>
      (\<exists>l \<in> set (level_limits_in_force g). ll_level l \<le> live_verification_level g w \<and> 0 < ll_limit l))"

definition takes_live :: "store \<Rightarrow> ctx \<Rightarrow> gate_db \<Rightarrow> db \<Rightarrow> string \<Rightarrow> capability \<Rightarrow> bool" where
  "takes_live s cx g d w c \<longleftrightarrow>
     (cp_class c = Green \<and> cp_key c \<notin> set b30) \<or>
     (g_live_money (pw_gates (of_under (st_gates s) (plan_row_of d w))) \<and> level_enough g w (cp_level c) \<and>
      (cp_class c = Green \<or> owner_country g w \<in> set (clearance_countries cx g (cp_key c))))"

definition may_use :: "gate_db \<Rightarrow> string \<Rightarrow> capability \<Rightarrow> bool" where
  "may_use g w c \<longleftrightarrow> (cp_class c = Green \<or> freezes g w = None) \<and>
     (case latest_terms g (cp_key c) of None \<Rightarrow> True
      | Some t \<Rightarrow> accepted_row g w (cp_key c) (tv_version t) \<noteq> None)"

lemma level_refusal_iff: "level_refusal g w c = None \<longleftrightarrow> level_enough g w (cp_level c)"
  by (auto simp: level_refusal_def level_enough_def Let_def list_ex_iff)

lemma capability_live_iff: "capability_live s cx g d w c = None \<longleftrightarrow> takes_live s cx g d w c"
  using level_refusal_iff [of g w c]
  by (auto simp: capability_live_def takes_live_def Let_def split: option.split)

lemma refusal_err_Inr [simp]: "refusal_err r = Inr u \<longleftrightarrow> r = None"
  by (simp add: refusal_err_def split: option.split)

lemma may_use_iff:
  "refuse_frozen g w c = Inr () \<and> refuse_unaccepted g w c = Inr () \<longleftrightarrow> may_use g w c"
  by (auto simp: refuse_frozen_def frozen_refusal_def freeze_refusal_def refuse_unaccepted_def
      terms_refusal_def may_use_def split: option.split)

lemma b30_never_green: "c \<in> set capabilities \<Longrightarrow> cp_key c \<in> set b30 \<Longrightarrow> cp_class c \<noteq> Green"
  using b30_not_green [of "cp_key c"] capability_by_key_self [of c] by auto

lemma set_test_frame [simp]:
  "ledger (set_test_funded d w x) = ledger d" "reservations (set_test_funded d w x) = reservations d"
  "postings (set_test_funded d w x) = postings d" "acct_balances (set_test_funded d w x) = acct_balances d"
  "next_entry (set_test_funded d w x) = next_entry d" "agents (set_test_funded d w x) = agents d"
  "agent_keys (set_test_funded d w x) = agent_keys d" "workspaces (set_test_funded d w x) = workspaces d"
  "subbudgets (set_test_funded d w x) = subbudgets d" "claims (set_test_funded d w x) = claims d"
  "settlements (set_test_funded d w x) = settlements d" "contracts (set_test_funded d w x) = contracts d"
  "subscriptions (set_test_funded d w x) = subscriptions d" "rules (set_test_funded d w x) = rules d"
  "boosts (set_test_funded d w x) = boosts d" "market_uses (set_test_funded d w x) = market_uses d"
  "money_payments (set_test_funded d w x) = money_payments d"
  "payee_payments (set_test_funded d w x) = payee_payments d"
  by (simp_all add: set_test_funded_def split: option.split)

lemma row_of_set_test:
  "row_of (set_test_funded d w x) v =
     (if v = w \<and> has_row d w then (row_of d w)\<lparr>lx_test_funded := x\<rparr> else row_of d v)"
  by (auto simp: row_of_def set_test_funded_def has_row_def split: option.split)

lemma has_row_set_test [simp]: "has_row (set_test_funded d w x) v = has_row d v"
  by (cases "balances d w") (auto simp: has_row_def set_test_funded_def)

lemma set_test_views [view_simps]:
  shows "bal_of (set_test_funded d w x) v = bal_of d v"
    and "minted_of (set_test_funded d w x) v = minted_of d v"
    and "spent_of (set_test_funded d w x) v = spent_of d v"
    and "cash_of (set_test_funded d w x) v = cash_of d v"
    and "test_of (set_test_funded d w x) v = (if v = w \<and> has_row d w then x else test_of d v)"
    and "held_sum (set_test_funded d w x) v = held_sum d v"
    and "ledger_sum (set_test_funded d w x) v = ledger_sum d v"
    and "account_balance (set_test_funded d w x) v a = account_balance d v a"
    and "posted (set_test_funded d w x) v a = posted d v a"
    and "allocated (set_test_funded d w x) v = allocated d v"
  by (auto simp: bal_of_def minted_of_def spent_of_def cash_of_def test_of_def held_sum_def
      ledger_sum_def row_of_set_test account_balance_def posted_def allocated_def)

lemma test_funded_ulxc_eq:
  "test_funded_ulxc d w = (if \<not> has_row d w then 0
     else let up_to = max (bal_of d w + held_sum d w) 0
       in if test_workspace d w then up_to else min (test_of d w) up_to)"
  by (auto simp: test_funded_ulxc_def has_row_def bal_of_def test_of_def row_of_def Let_def split: option.split)

lemma test_funded_nonneg: "0 \<le> test_of d w \<Longrightarrow> 0 \<le> test_funded_ulxc d w"
  by (simp add: test_funded_ulxc_eq Let_def)

text \<open>What a judged spend does: nothing to the wallet but the test-funded credits it takes.\<close>

lemma spend_for_capability_InrD:
  assumes "spend_for_capability s cx g d w key amount = Inr (d', t)" and "0 < amount" and "0 \<le> test_of d w"
  obtains c where "capability_by_key key = Some c" and "may_use g w c" and "0 \<le> t" and "t \<le> amount"
    and "t \<le> test_funded_ulxc d w"
    and "takes_live s cx g d w c \<Longrightarrow> t = 0 \<and> d' = d"
    and "\<not> takes_live s cx g d w c \<Longrightarrow> (test_workspace d w \<or> t = amount) \<and>
      d' = set_test_funded d w (test_funded_ulxc d w - t)"
proof -
  obtain c where c: "capability_by_key key = Some c" and m: "may_use g w c"
    and r: "(capability_live s cx g d w c = None \<and> d' = d \<and> t = 0) \<or>
      (capability_live s cx g d w c \<noteq> None \<and>
        (if test_funded_ulxc d w < amount
         then test_workspace d w \<and> d' = set_test_funded d w 0 \<and> t = test_funded_ulxc d w
         else d' = set_test_funded d w (test_funded_ulxc d w - amount) \<and> t = amount))"
    using assms(1,2) may_use_iff [of g w]
    by (auto simp: spend_for_capability_def Let_def rbind_Inr_iff split: option.splits if_splits)
  show ?thesis
    by (rule that [OF c m])
      (use r assms(2) test_funded_nonneg [OF assms(3)] capability_live_iff [of s cx g d w c] in
        \<open>auto split: if_splits\<close>)
qed

lemma spend_for_capability_zero:
  "capability_by_key key = Some c \<Longrightarrow> amount \<le> 0 \<Longrightarrow> spend_for_capability s cx g d w key amount = Inr (d, 0)"
  by (simp add: spend_for_capability_def)

text \<open>When it is refused: exactly when the use is barred, or real money would be taken that may not be.\<close>

lemma spend_for_capability_iff:
  assumes "capability_by_key key = Some c" and "0 < amount"
  shows "(\<exists>r. spend_for_capability s cx g d w key amount = Inr r) \<longleftrightarrow>
    may_use g w c \<and> (takes_live s cx g d w c \<or> amount \<le> test_funded_ulxc d w \<or> test_workspace d w)"
proof -
  have "spend_for_capability s cx g d w key amount =
      rbind (refuse_frozen g w c) (\<lambda>_. rbind (refuse_unaccepted g w c) (\<lambda>_.
        case capability_live s cx g d w c of None \<Rightarrow> Inr (d, 0)
        | Some refusal \<Rightarrow> if test_funded_ulxc d w < amount then
            (if \<not> test_workspace d w then Inl (ErrCapability refusal)
             else Inr (set_test_funded d w 0, test_funded_ulxc d w))
          else Inr (set_test_funded d w (test_funded_ulxc d w - amount), amount)))"
    unfolding spend_for_capability_def Let_def using assms by simp
  then show ?thesis
    using may_use_iff [of g w c] capability_live_iff [of s cx g d w c]
    by (cases "refuse_frozen g w c"; cases "refuse_unaccepted g w c") (auto split: option.split)
qed

lemma spend_for_capability_slack:
  assumes b: "books_slack k d" and s: "spend_for_capability s cx g d w key amount = Inr (d', t)"
  shows "books_slack k d'"
proof (cases "0 < amount")
  case True
  from spend_for_capability_InrD [OF s True slackD(7) [OF b]]
  obtain c where "t \<le> test_funded_ulxc d w" and d': "d' = d \<or> d' = set_test_funded d w (test_funded_ulxc d w - t)"
    by metis
  moreover have "books_slack (\<lambda>v. k v - (bal_of d' v - bal_of d v)) d'"
    by (rule slack_wallet [OF b])
      (use d' slackD [OF b] \<open>t \<le> _\<close> holds_ok_cong [of d' d] in \<open>auto simp: view_simps\<close>)
  ultimately show ?thesis by (elim disjE) (simp_all add: view_simps slack_cong)
next
  case False
  then have "d' = d" using s by (auto simp: spend_for_capability_def split: option.splits)
  then show ?thesis using b by simp
qed

subsection \<open>Clearances come and go\<close>

lemma newest_snoc [simp]: "newest p (xs @ [x]) = (if p x then Some x else newest p xs)"
  by (simp add: newest_def)

lemma newest_Nil [simp]: "newest p [] = None"
  by (simp add: newest_def)

lemma find_in: "find p xs = Some x \<Longrightarrow> x \<in> set xs \<and> p x"
  by (induction xs) (auto split: if_splits)

lemma find_append: "find p (xs @ ys) = (case find p xs of None \<Rightarrow> find p ys | Some x \<Rightarrow> Some x)"
  by (induction xs) auto

lemma country_codes_from_sound:
  "country_codes_from ok out cs = (None, res) \<Longrightarrow>
    (\<forall>c \<in> set res. c \<in> set out \<or> (length c = 2 \<and> ok c)) \<and> (distinct out \<longrightarrow> distinct res)"
proof (induction cs arbitrary: out)
  case (Cons c cs)
  show ?case
  proof (cases "to_upper (trim_space c) = ''''")
    case True
    then show ?thesis using Cons.prems by (intro Cons.IH) (simp add: Let_def)
  next
    case False
    let ?c = "to_upper (trim_space c)"
    have ok: "length ?c = 2 \<and> ok ?c"
      and r: "country_codes_from ok (if ?c \<in> set out then out else out @ [?c]) cs = (None, res)"
      using Cons.prems False by (auto simp: Let_def split: if_splits)
    from Cons.IH [OF r] show ?thesis using ok by (cases "?c \<in> set out") auto
  qed
qed simp

lemma country_codes_Inr:
  assumes "country_codes ok cs = Inr out"
  shows "out \<noteq> []" and "distinct out" and "\<forall>c \<in> set out. length c = 2 \<and> ok c"
proof -
  have r: "country_codes_from ok [] cs = (None, out)" and "out \<noteq> []"
    using assms by (auto simp: country_codes_def split: prod.splits option.splits if_splits)
  then show "out \<noteq> []" by simp
  show "distinct out" "\<forall>c \<in> set out. length c = 2 \<and> ok c" using country_codes_from_sound [OF r] by auto
qed

lemma clear_capability_InrD:
  assumes "clear_capability ok cx g key operator t = Inr g'"
  obtains c cs where "capability_by_key key = Some c" and "cp_class c \<noteq> Green" and "cs \<noteq> []"
    and "country_codes ok (ct_countries t) = Inr cs" and "cx_now cx < ct_expires t"
    and "\<And>cx'. clearance_countries cx' g' key = (if cx_now cx' < ct_expires t then cs else [])"
    and "\<And>cx' k. k \<noteq> key \<Longrightarrow> clearance_countries cx' g' k = clearance_countries cx' g k"
    and "g' = g\<lparr>clearances := clearances g'\<rparr>"
proof -
  obtain cs c where "country_codes ok (ct_countries t) = Inr cs" "capability_by_key key = Some c"
      "cp_class c \<noteq> Green" "cx_now cx < ct_expires t"
    and g': "g' = g\<lparr>clearances := clearances g @ [\<lparr>cl_capability = key, cl_action = Clear,
       cl_operator = operator, cl_reference = ct_reference t, cl_countries = cs,
       cl_partner = trim_space (ct_partner t), cl_licence = trim_space (ct_licence t),
       cl_expires = Some (ct_expires t), cl_at = cx_now cx\<rparr>]\<rparr>"
    using assms by (auto simp: clear_capability_def record_clearance_def Let_def split: option.splits if_splits)
  then show thesis
    using country_codes_Inr(1) by (intro that) (auto simp: clearance_countries_def g')
qed

lemma revoke_clearance_InrD:
  assumes "revoke_clearance cx g key operator why = Inr g'"
  shows "clearance_countries cx' g' key = []"
    and "k \<noteq> key \<Longrightarrow> clearance_countries cx' g' k = clearance_countries cx' g k"
    and "g' = g\<lparr>clearances := clearances g'\<rparr>"
  using assms
  by (auto simp: revoke_clearance_def record_clearance_def clearance_countries_def split: option.splits if_splits)

lemma clearance_expired:
  "clearance_countries cx g key = cs \<Longrightarrow> cs \<noteq> [] \<Longrightarrow>
    \<exists>r t. newest (\<lambda>r. cl_capability r = key) (clearances g) = Some r \<and> cl_expires r = Some t \<and> cx_now cx < t"
  by (auto simp: clearance_countries_def split: option.splits if_splits)

lemma in_force_countries:
  "clearance_in_force cx g key = Some r \<longleftrightarrow> newest (\<lambda>r. cl_capability r = key) (clearances g) = Some r \<and>
     clearance_countries cx g key = cl_countries r \<and> cl_countries r \<noteq> []"
  by (auto simp: clearance_in_force_def clearance_countries_def split: option.splits if_splits)

subsection \<open>Terms ask again with each version\<close>

definition terms_ok :: "gate_db \<Rightarrow> bool" where
  "terms_ok g \<longleftrightarrow>
     list_all (\<lambda>t. 1 \<le> tv_version t) (terms_versions g) \<and>
     list_all (\<lambda>a. ac_version a \<le> max_terms_version g (ac_capability a)) (acceptances g)"

lemma find_greatest:
  assumes "xs \<noteq> []"
  shows "\<exists>t. find (\<lambda>t. list_all (\<lambda>u. f u \<le> (f t :: int)) xs) xs = Some t \<and> t \<in> set xs \<and> (\<forall>u \<in> set xs. f u \<le> f t)"
proof -
  have "\<exists>t \<in> set xs. \<forall>u \<in> set xs. f u \<le> f t"
    using Max_in [of "f ` set xs"] Max_ge [of "f ` set xs"] assms by fastforce
  then have "find (\<lambda>t. list_all (\<lambda>u. f u \<le> f t) xs) xs \<noteq> None"
    by (auto simp: find_None_iff list_all_iff)
  then show ?thesis by (auto simp: find_Some_iff list_all_iff)
qed

lemma latest_terms_Some:
  assumes "t \<in> set (terms_versions g)" and "tv_capability t = key"
  shows "\<exists>l. latest_terms g key = Some l \<and> l \<in> set (terms_versions g) \<and> tv_capability l = key \<and>
    tv_version t \<le> tv_version l"
proof -
  let ?ts = "filter (\<lambda>t. tv_capability t = key) (terms_versions g)"
  have "t \<in> set ?ts" using assms by simp
  then have "?ts \<noteq> []" by (metis empty_iff empty_set)
  from find_greatest [OF this, of tv_version] show ?thesis
    using assms by (auto simp: latest_terms_def Let_def)
qed

lemma latest_terms_cong: "terms_versions g' = terms_versions g \<Longrightarrow> latest_terms g' key = latest_terms g key"
  by (simp add: latest_terms_def)

lemma max_terms_cong: "terms_versions g' = terms_versions g \<Longrightarrow> max_terms_version g' key = max_terms_version g key"
  by (simp add: max_terms_version_def latest_terms_def)

lemma latest_terms_snoc:
  assumes "terms_versions g' = terms_versions g @ [t]"
    and "tv_version t = max_terms_version g (tv_capability t) + 1"
  shows "latest_terms g' (tv_capability t) = Some t"
    and "key \<noteq> tv_capability t \<Longrightarrow> latest_terms g' key = latest_terms g key"
proof -
  let ?k = "tv_capability t"
  let ?ts = "filter (\<lambda>t. tv_capability t = ?k) (terms_versions g)"
  have less: "tv_version u < tv_version t" if "u \<in> set ?ts" for u
    using latest_terms_Some [of u g ?k] that assms(2) by (auto simp: max_terms_version_def)
  then have "find (\<lambda>r. list_all (\<lambda>u. tv_version u \<le> tv_version r) (?ts @ [t])) ?ts = None"
    by (fastforce simp: find_None_iff)
  then show "latest_terms g' ?k = Some t"
    using less by (simp add: latest_terms_def Let_def assms(1) list_all_iff find_append order_less_imp_le)
  show "latest_terms g' key = latest_terms g key" if "key \<noteq> ?k"
    using that by (simp add: latest_terms_def assms(1))
qed

lemma publish_terms_asks_again:
  assumes ok: "terms_ok g" and p: "publish_terms digest cx g key publisher path body = Inr (g', t)"
  shows "terms_ok g'" and "latest_terms g' key = Some t" and "tv_version t = max_terms_version g key + 1"
    and "capability_by_key key = Some c \<Longrightarrow> \<not> may_use g' w c"
    and "k \<noteq> key \<Longrightarrow> latest_terms g' k = latest_terms g k" and "acceptances g' = acceptances g"
proof -
  have g': "g' = g\<lparr>terms_versions := terms_versions g @ [t]\<rparr>" and k: "tv_capability t = key"
    and v: "tv_version t = max_terms_version g key + 1"
    using p by (auto simp: publish_terms_def Let_def split: option.splits if_splits)
  have l: "latest_terms g' key = Some t" "\<And>k'. k' \<noteq> key \<Longrightarrow> latest_terms g' k' = latest_terms g k'"
    using latest_terms_snoc [of g' g t] v k g' by simp_all
  then have m: "max_terms_version g k' \<le> max_terms_version g' k'" for k'
    using v by (cases "k' = key") (simp_all add: max_terms_version_def)
  have "0 \<le> max_terms_version g key"
  proof (cases "latest_terms g key")
    case (Some r)
    then have "r \<in> set (terms_versions g)" by (auto simp: latest_terms_def Let_def dest!: find_in)
    then show ?thesis using ok Some by (fastforce simp: terms_ok_def list_all_iff max_terms_version_def)
  qed (simp add: max_terms_version_def)
  then show "terms_ok g'"
    using ok m v by (fastforce simp: terms_ok_def list_all_iff g' intro: order_trans)
  have "accepted_row g' w key (tv_version t) = None" for w
  proof -
    have "ac_version a < tv_version t" if "a \<in> set (acceptances g)" "ac_capability a = key" for a
      using ok that v by (fastforce simp: terms_ok_def list_all_iff)
    then show ?thesis by (fastforce simp: accepted_row_def g' find_None_iff)
  qed
  then show "capability_by_key key = Some c \<Longrightarrow> \<not> may_use g' w c"
    using capability_by_key_key [of key c] l(1) by (simp add: may_use_def)
  show "latest_terms g' key = Some t" "tv_version t = max_terms_version g key + 1"
    "k \<noteq> key \<Longrightarrow> latest_terms g' k = latest_terms g k" "acceptances g' = acceptances g"
    using l v by (simp_all add: g')
qed

lemma accept_terms_lets_use:
  assumes ok: "terms_ok g" and a: "accept_terms cx g w key version person ip = Inr (g', row)"
  shows "terms_ok g'" and "version = max_terms_version g key" and "accepted_row g' w key version = Some row"
    and "\<And>k. latest_terms g' k = latest_terms g k"
    and "v \<noteq> w \<or> k \<noteq> key \<Longrightarrow> accepted_row g' v k n = accepted_row g v k n"
proof -
  have v: "version = max_terms_version g key"
    and g': "g' = g \<or> g' = g\<lparr>acceptances := acceptances g @ [row]\<rparr>"
    and r: "accepted_row g' w key version = Some row"
    and row: "g' \<noteq> g \<Longrightarrow> ac_ws row = w \<and> ac_capability row = key \<and> ac_version row = version"
    using a by (auto simp: accept_terms_def accepted_row_def Let_def find_append split: if_splits option.splits)
  have t: "terms_versions g' = terms_versions g" using g' by auto
  show "version = max_terms_version g key" "accepted_row g' w key version = Some row"
    "\<And>k. latest_terms g' k = latest_terms g k" using v r latest_terms_cong [OF t] by simp_all
  show "terms_ok g'"
    using g' row ok v max_terms_cong [OF t] by (cases "g' = g") (auto simp: terms_ok_def list_all_iff)
  show "accepted_row g' v k n = accepted_row g v k n" if "v \<noteq> w \<or> k \<noteq> key"
    using g' row that by (cases "g' = g") (auto simp: accepted_row_def find_append split: option.split)
qed

text \<open>A person's acceptance is kept: accepting the same version again answers the first one.\<close>

lemma accept_terms_again:
  assumes "accept_terms cx g w key version person ip = Inr (g', row)"
    and "trim_space person' \<noteq> ''''"
  shows "accept_terms cx' g' w key version person' ip' = Inr (g', row)"
proof -
  have "accepted_row g' w key version = Some row" and "terms_versions g' = terms_versions g"
    using assms(1) by (auto simp: accept_terms_def accepted_row_def Let_def find_append split: if_splits option.splits)
  moreover have "w \<noteq> ''''" "max_terms_version g key \<noteq> 0" "version = max_terms_version g key"
    using assms(1) by (auto simp: accept_terms_def Let_def split: if_splits)
  ultimately show ?thesis using assms(2) max_terms_cong [of g' g] by (simp add: accept_terms_def Let_def)
qed

subsection \<open>Levels are reached in order\<close>

lemma climb_range: "l \<le> climb passed n l \<and> climb passed n l \<le> l + int n"
proof (induction n arbitrary: l)
  case (Suc n)
  from Suc.IH [of "l + 1"] show ?case by auto
qed simp

lemma climb_passed: "l < k \<Longrightarrow> k \<le> climb passed n l \<Longrightarrow> passed k"
proof (induction n arbitrary: l)
  case (Suc n)
  from Suc.IH [of "l + 1"] Suc.prems show ?case by (cases "k = l + 1") (auto split: if_splits)
qed simp

lemma climb_stops: "climb passed n l < l + int n \<Longrightarrow> \<not> passed (climb passed n l + 1)"
proof (induction n arbitrary: l)
  case (Suc n)
  then show ?case using Suc.IH [of "l + 1"] by auto
qed simp

lemma climb_mono: "(\<And>k. p k \<Longrightarrow> q k) \<Longrightarrow> climb p n l \<le> climb q n l"
proof (induction n arbitrary: l)
  case (Suc n)
  then show ?case using climb_range [of "l + 1" q n] by auto
qed simp

lemma reached_levels_order:
  assumes "reached_levels checks = (shown, live)"
  shows "0 \<le> live" and "live \<le> shown" and "shown \<le> level_company"
    and "1 \<le> k \<Longrightarrow> k \<le> live \<Longrightarrow> \<exists>c \<in> set checks. vr_status c = ''completed'' \<and> vr_level c = k \<and> \<not> test_only (vr_method c)"
    and "live < level_company \<Longrightarrow>
      \<not> (\<exists>c \<in> set checks. vr_status c = ''completed'' \<and> vr_level c = live + 1 \<and> \<not> test_only (vr_method c))"
proof -
  have e: "shown = climb (check_passed False checks) 3 0" "live = climb (check_passed True checks) 3 0"
    using assms by (simp_all add: reached_levels_def level_signed_in_def)
  show "0 \<le> live" "shown \<le> level_company"
    using climb_range [of 0 _ 3] by (simp_all add: e level_company_def)
  show "live \<le> shown" unfolding e by (rule climb_mono) (auto simp: check_passed_def list_ex_iff)
  show "\<exists>c \<in> set checks. vr_status c = ''completed'' \<and> vr_level c = k \<and> \<not> test_only (vr_method c)"
    if "1 \<le> k" "k \<le> live"
    using climb_passed [of 0 k "check_passed True checks" 3] that by (auto simp: e check_passed_def list_ex_iff)
  show "\<not> (\<exists>c \<in> set checks. vr_status c = ''completed'' \<and> vr_level c = live + 1 \<and> \<not> test_only (vr_method c))"
    if "live < level_company"
    using climb_stops [of "check_passed True checks" 3 0] that
    by (auto simp: e check_passed_def list_ex_iff level_company_def)
qed

lemma read_checks_newest:
  "c \<in> set (read_verification_checks g w) \<longleftrightarrow>
     newest (\<lambda>q. vr_ref q = vr_ref c) (filter (\<lambda>r. vr_ws r = w) (verifications g)) = Some c"
proof -
  have "c \<in> set rows" if "newest p rows = Some c" for p and rows :: "verification_row list"
    using find_in [of p "rev rows" c] that by (simp add: newest_def)
  from this [of "\<lambda>q. vr_ref q = vr_ref c" "filter (\<lambda>r. vr_ws r = w) (verifications g)"]
  show ?thesis by (auto simp: read_verification_checks_def Let_def)
qed

lemma live_country_from_in:
  "live_country_from best checks = fst best \<or>
   (\<exists>c \<in> set checks. live_country_from best checks = vr_country c \<and> vr_status c = ''completed'' \<and>
      \<not> test_only (vr_method c) \<and> vr_country c \<noteq> '''' \<and> snd best < vr_level c)"
proof (induction checks arbitrary: best)
  case (Cons c cs)
  then show ?case
    using Cons [of "(vr_country c, vr_level c)"] Cons [of best] by (fastforce split: if_splits)
qed simp

text \<open>A withdrawn pass lowers the level at once: the newest row of a check is the one that counts.\<close>

lemma withdrawn_pass:
  assumes "vr_ws r = w" and "vr_status r \<noteq> ''completed''"
    and "c \<in> set (read_verification_checks (record_verification_check g r) w)" and "vr_status c = ''completed''"
  shows "vr_ref c \<noteq> vr_ref r \<and> c \<in> set (read_verification_checks g w)"
  using assms by (auto simp: read_checks_newest record_verification_check_def split: if_splits)

lemma limit_for_from_greatest:
  assumes "limit_for_from best ls have cur = Some l"
  shows "(best = Some l \<or> (l \<in> set ls \<and> ll_currency l = cur \<and> ll_level l \<le> have)) \<and>
    (\<forall>b. best = Some b \<longrightarrow> ll_level b \<le> ll_level l) \<and>
    (\<forall>c \<in> set ls. ll_currency c = cur \<and> ll_level c \<le> have \<longrightarrow> ll_level c \<le> ll_level l)"
  using assms
proof (induction ls arbitrary: best)
  case (Cons c cs)
  then show ?case using Cons.IH by (fastforce split: if_splits option.splits)
qed simp

text \<open>A movement within its limits moves, in each currency, at most the limit of the highest level set.\<close>

lemma over_limits_None:
  assumes "over_limits ls have c ps curs = None" and "cur \<in> set curs"
  shows "\<exists>l. limit_for ls have cur = Some l \<and> moved_in ps cur \<le> ll_limit l"
  using assms by (induction curs) (auto split: option.splits if_splits)

lemma within_level_limit:
  assumes "over_level_limit g w c ps = None" and "cp_level c \<noteq> level_signed_in" and "(cur, x) \<in> set ps" and "0 < x"
  shows "\<exists>l \<in> set (level_limits_in_force g). ll_currency l = cur \<and> ll_level l \<le> live_verification_level g w \<and>
    moved_in ps cur \<le> ll_limit l"
proof -
  have "cur \<in> set (sort (remdups (map fst (filter (\<lambda>p. snd p > 0) ps))))" using assms(3,4) by force
  from over_limits_None [OF _ this] assms(1,2)
  have "\<exists>l. limit_for (level_limits_in_force g) (live_verification_level g w) cur = Some l \<and>
      moved_in ps cur \<le> ll_limit l"
    by (simp add: over_level_limit_def)
  then obtain l where l: "limit_for (level_limits_in_force g) (live_verification_level g w) cur = Some l"
      "moved_in ps cur \<le> ll_limit l" by blast
  from limit_for_from_greatest [OF l(1) [unfolded limit_for_def]] l(2) show ?thesis by blast
qed

end
