(* ===== verification/Deal_State.thy ===== *)
theory Deal_State
  imports Capabilities
begin

section \<open>The state of agents' dealings, and entries across two workspaces\<close>

text \<open>
  \<open>deals\<close> is the database of what agents do with each other: the wallet's tables, the tables that
  judge a capability's use, and the rows of transfers, requests, escrows, loans and schedule runs
  (migrations 0144, 0159, 0161, 0162). \<open>desk\<close> is what the server wires in: the store, the owner
  verifier and SHA-256.

  An entry of a transfer or an escrow posts in two workspaces; \<open>across_db\<close> is its whole effect in
  closed form, and the lemmas of the first section move each quantity by it.
\<close>

record transfer =
  tr_id :: string
  tr_entry :: nat
  tr_from_ws :: string
  tr_from :: string
  tr_to_ws :: string
  tr_to :: string
  tr_amount :: int
  tr_memo :: string
  tr_class :: cap_class
  tr_test :: int
  tr_request :: string
  tr_schedule :: string
  tr_refund_of :: string
  tr_loan :: string
  tr_at :: int
  tr_capability :: string

definition new_transfer :: "string \<Rightarrow> string \<Rightarrow> string \<Rightarrow> string \<Rightarrow> int \<Rightarrow> string \<Rightarrow> transfer" where
  "new_transfer from_ws a to_ws b amount memo =
     \<lparr>tr_id = '''', tr_entry = 0, tr_from_ws = from_ws, tr_from = a, tr_to_ws = to_ws, tr_to = b,
      tr_amount = amount, tr_memo = memo, tr_class = Green, tr_test = 0, tr_request = '''',
      tr_schedule = '''', tr_refund_of = '''', tr_loan = '''', tr_at = 0, tr_capability = ''''\<rparr>"

datatype request_status = Asked | Accepted | Declined

record money_request =
  mr_id :: string
  mr_from_ws :: string
  mr_from :: string
  mr_to_ws :: string
  mr_to :: string
  mr_amount :: int
  mr_memo :: string
  mr_status :: request_status
  mr_transfer :: string
  mr_at :: int
  mr_decided :: "int option"

datatype escrow_status = EsHeld | EsDisputed | EsReleased | EsReturned

datatype escrow_actor = Payer | Deadline | Operator

record escrow =
  es_id :: string
  es_payer_ws :: string
  es_payer :: string
  es_payee_ws :: string
  es_payee :: string
  es_amount :: int
  es_memo :: string
  es_class :: cap_class
  es_test :: int
  es_release_at :: int
  es_status :: escrow_status
  es_at :: int
  es_decided :: "int option"

record escrow_event =
  ev_escrow :: string
  ev_kind :: escrow_status
  ev_actor :: escrow_actor
  ev_operator :: string
  ev_detail :: string
  ev_entry :: "nat option"
  ev_at :: int

datatype loan_status = LnOffered | LnDeclined | LnWithdrawn | LnActive | LnLate | LnDefaulted | LnRepaid

record loan_terms =
  lt_principal :: int
  lt_bps :: int
  lt_instalments :: int
  lt_every :: string
  lt_late_fee :: int
  lt_memo :: string

record loan =
  ln_id :: string
  ln_lender_ws :: string
  ln_lender :: string
  ln_borrower_ws :: string
  ln_borrower :: string
  ln_terms :: loan_terms
  ln_status :: loan_status
  ln_paid :: int
  ln_due :: "int option"
  ln_offered :: int
  ln_decided :: "int option"
  ln_test :: bool

datatype loan_event_kind = LePayout | LeInstalment | LeMissed | LeLate | LeDefaulted

record loan_event =
  le_loan :: string
  le_kind :: loan_event_kind
  le_instalment :: int
  le_principal :: int
  le_interest :: int
  le_late_fee :: int
  le_transfer :: string
  le_at :: int

datatype tick_outcome = TickPaid | TickRefused | TickSkipped

record schedule_run =
  sr_schedule :: string
  sr_tick :: int
  sr_outcome :: tick_outcome
  sr_entry :: "nat option"
  sr_use :: "string option"
  sr_detail :: string
  sr_at :: int

record deals =
  dl_db :: db
  dl_gates :: gate_db
  dl_handles :: "(string \<times> string) list"
  dl_transfers :: "transfer list"
  dl_requests :: "money_request list"
  dl_escrows :: "escrow list"
  dl_escrow_events :: "escrow_event list"
  dl_loans :: "loan list"
  dl_loan_events :: "loan_event list"
  dl_runs :: "schedule_run list"

definition empty_deals :: deals where
  "empty_deals = \<lparr>dl_db = empty_db, dl_gates = empty_gates, dl_handles = [], dl_transfers = [],
     dl_requests = [], dl_escrows = [], dl_escrow_events = [], dl_loans = [], dl_loan_events = [],
     dl_runs = []\<rparr>"

record desk =
  dk_store :: store
  dk_verifier :: "(db \<Rightarrow> string \<Rightarrow> err + bool) option"
  dk_sha :: "string \<Rightarrow> string"

text \<open>\<open>testOwnersVerified\<close>: a test workspace's people are verified for its money.\<close>

definition may_earn :: "desk \<Rightarrow> db \<Rightarrow> string \<Rightarrow> err + bool" where
  "may_earn dk d w =
     (case dk_verifier dk of
        None \<Rightarrow> Inr False
      | Some v \<Rightarrow> if test_workspace d w then Inr True else v d w)"

definition owner_verified :: "desk \<Rightarrow> db \<Rightarrow> string \<Rightarrow> string \<Rightarrow> err + string" where
  "owner_verified dk d w a =
     (case find_agent d a of
        None \<Rightarrow> Inl (ErrInvalid ''agent owner'')
      | Some r \<Rightarrow>
          rbind (if ag_owner r \<noteq> '''' then may_earn dk d w else Inr False) (\<lambda>ok.
            if ok then Inr (ag_owner r) else Inl ErrOwnerUnverified))"

definition check_money_wall :: "db \<Rightarrow> string \<Rightarrow> string \<Rightarrow> err + unit" where
  "check_money_wall d a b =
     (if a = b then Inr ()
      else if test_workspace d a \<noteq> test_workspace d b then Inl ErrMoneyWall else Inr ())"

definition show_int :: "int \<Rightarrow> string" where
  "show_int x = (if x < 0 then CHR ''-'' # show_nat (nat (- x)) else show_nat (nat x))"

definition payment_fingerprint :: "desk \<Rightarrow> string \<Rightarrow> string \<Rightarrow> int \<Rightarrow> string \<Rightarrow> string" where
  "payment_fingerprint dk a b amount memo =
     dk_sha dk (''payment'' @ [CHR 0x00] @ a @ [CHR 0x00] @ b @ [CHR 0x00] @ show_int amount @ [CHR 0x00] @ memo)"

definition with_agent_request :: "ctx \<Rightarrow> agent_request \<Rightarrow> ctx" where
  "with_agent_request cx rq = cx\<lparr>cx_request := Some rq\<rparr>"

text \<open>\<open>refusedMovement\<close> on this state: what needs approval files it, and nothing else is kept.\<close>

definition refused_deal :: "ctx \<Rightarrow> deals \<Rightarrow> string \<Rightarrow> err + deals \<times> 'a \<Rightarrow> deals \<times> (err + 'a)" where
  "refused_deal cx n approval_id r =
     (case r of
        Inr (n', x) \<Rightarrow> (n', Inr x)
      | Inl (ErrApprovalNeeded need) \<Rightarrow>
          (case file_approval cx (dl_db n) need approval_id of (d, e) \<Rightarrow> (n\<lparr>dl_db := d\<rparr>, Inl e))
      | Inl e \<Rightarrow> (n, Inl e))"

subsection \<open>Entries across workspaces\<close>

type_synonym ws_leg = "string \<times> leg"

fun insert_across :: "ctx \<Rightarrow> db \<Rightarrow> nat \<Rightarrow> posting_kind \<Rightarrow> string \<Rightarrow> ws_leg list \<Rightarrow> err + db" where
  "insert_across cx d entry kind ref [] = Inr d"
| "insert_across cx d entry kind ref (l # ls) =
     rbind (insert_posting (cx\<lparr>cx_memo := ''''\<rparr>) d entry (fst l) kind ref None None (snd l)) (\<lambda>d.
       insert_across cx d entry kind ref ls)"

definition post_across :: "ctx \<Rightarrow> db \<Rightarrow> posting_kind \<Rightarrow> string \<Rightarrow> ws_leg list \<Rightarrow> err + db \<times> nat" where
  "post_across cx d kind ref ls =
     (case new_entry d of (d, entry) \<Rightarrow>
        rbind (insert_across cx d entry kind ref ls) (\<lambda>d. Inr (d, entry)))"

definition across_posting :: "ctx \<Rightarrow> nat \<Rightarrow> posting_kind \<Rightarrow> string \<Rightarrow> ws_leg \<Rightarrow> posting" where
  "across_posting cx entry kind ref l = leg_posting (cx\<lparr>cx_memo := ''''\<rparr>) entry (fst l) kind ref None None (snd l)"

fun bump_across :: "((string \<times> account) \<times> int) list \<Rightarrow> ws_leg list \<Rightarrow> ((string \<times> account) \<times> int) list" where
  "bump_across kvs [] = kvs"
| "bump_across kvs (l # ls) = bump_across (bump_legs kvs (fst l) [snd l]) ls"

definition across_db :: "ctx \<Rightarrow> db \<Rightarrow> posting_kind \<Rightarrow> string \<Rightarrow> ws_leg list \<Rightarrow> db" where
  "across_db cx d kind ref ls =
     d\<lparr>next_entry := Suc (next_entry d),
       postings := postings d @ map (across_posting cx (next_entry d) kind ref) ls,
       acct_balances := bump_across (acct_balances d) ls\<rparr>"

definition across_on :: "string \<Rightarrow> account \<Rightarrow> ws_leg list \<Rightarrow> int" where
  "across_on v a ls = sum_where (\<lambda>l. fst l = v \<and> fst (snd l) = a) (\<lambda>l. snd (snd l)) ls"

definition across_allocated :: "string \<Rightarrow> ws_leg list \<Rightarrow> int" where
  "across_allocated v ls = sum_where (\<lambda>l. fst l = v \<and> is_allocated (fst (snd l))) (\<lambda>l. snd (snd l)) ls"

definition across_total :: "ws_leg list \<Rightarrow> int" where
  "across_total ls = sum_list (map (\<lambda>l. snd (snd l)) ls)"

lemma across_simps [simp]:
  "across_on v a [] = 0"
  "across_on v a ((w, b, x) # ls) = (if w = v \<and> b = a then x else 0) + across_on v a ls"
  "across_allocated v [] = 0"
  "across_allocated v ((w, b, x) # ls) = (if w = v \<and> is_allocated b then x else 0) + across_allocated v ls"
  "across_total [] = 0" "across_total ((w, b, x) # ls) = x + across_total ls"
  by (simp_all add: across_on_def across_allocated_def across_total_def)

lemma insert_across_eq:
  "insert_across cx d e kind ref ls =
     (if list_all (\<lambda>l. snd (snd l) \<noteq> 0) ls
      then Inr (d\<lparr>postings := postings d @ map (across_posting cx e kind ref) ls,
        acct_balances := bump_across (acct_balances d) ls\<rparr>)
      else Inl (ErrDbCheck ''amount_ulxc <> 0''))"
proof (induction ls arbitrary: d)
  case (Cons l ls)
  then show ?case
    by (cases l) (auto simp: insert_posting_def across_posting_def leg_posting_def)
qed simp

lemma post_across_eq:
  "post_across cx d kind ref ls =
     (if list_all (\<lambda>l. snd (snd l) \<noteq> 0) ls then Inr (across_db cx d kind ref ls, next_entry d)
      else Inl (ErrDbCheck ''amount_ulxc <> 0''))"
  by (simp add: post_across_def new_entry_def insert_across_eq across_db_def)

lemma across_db_frame [simp]:
  shows "balances (across_db cx d kind ref ls) = balances d"
    and "ledger (across_db cx d kind ref ls) = ledger d"
    and "reservations (across_db cx d kind ref ls) = reservations d"
    and "subbudgets (across_db cx d kind ref ls) = subbudgets d"
    and "claims (across_db cx d kind ref ls) = claims d"
    and "settlements (across_db cx d kind ref ls) = settlements d"
    and "agents (across_db cx d kind ref ls) = agents d"
    and "agent_keys (across_db cx d kind ref ls) = agent_keys d"
    and "workspaces (across_db cx d kind ref ls) = workspaces d"
    and "contracts (across_db cx d kind ref ls) = contracts d"
    and "subscriptions (across_db cx d kind ref ls) = subscriptions d"
    and "rules (across_db cx d kind ref ls) = rules d"
    and "boosts (across_db cx d kind ref ls) = boosts d"
    and "market_uses (across_db cx d kind ref ls) = market_uses d"
    and "money_payments (across_db cx d kind ref ls) = money_payments d"
    and "payee_payments (across_db cx d kind ref ls) = payee_payments d"
    and "next_entry (across_db cx d kind ref ls) = Suc (next_entry d)"
  by (simp_all add: across_db_def)

lemma account_balance_bump_across:
  "(case map_of (bump_across kvs ls) (v, a) of None \<Rightarrow> 0 | Some x \<Rightarrow> x) =
     (case map_of kvs (v, a) of None \<Rightarrow> 0 | Some x \<Rightarrow> x) + (if kept_account a then across_on v a ls else 0)"
proof (induction ls arbitrary: kvs)
  case (Cons l ls)
  then show ?case by (cases l) (simp add: account_balance_bump_legs del: bump_legs.simps)
qed simp

lemma allocated_bump_across:
  "sum_where (\<lambda>e. fst (fst e) = u \<and> is_allocated (snd (fst e))) snd (bump_across kvs ls) =
     sum_where (\<lambda>e. fst (fst e) = u \<and> is_allocated (snd (fst e))) snd kvs + across_allocated u ls"
proof (induction ls arbitrary: kvs)
  case (Cons l ls)
  then show ?case by (cases l) (simp add: allocated_bump_legs del: bump_legs.simps)
qed simp

lemma sum_across_postings:
  "sum_where (\<lambda>p. po_ws p = v \<and> po_account p = a) po_amount (map (across_posting cx e kind ref) ls) = across_on v a ls"
  "sum_where (\<lambda>p. po_entry p = f) po_amount (map (across_posting cx e kind ref) ls) =
     (if f = e then across_total ls else 0)"
proof -
  show "sum_where (\<lambda>p. po_ws p = v \<and> po_account p = a) po_amount (map (across_posting cx e kind ref) ls) = across_on v a ls"
    by (induction ls) (auto simp: across_posting_def leg_posting_def across_on_def)
  show "sum_where (\<lambda>p. po_entry p = f) po_amount (map (across_posting cx e kind ref) ls) =
     (if f = e then across_total ls else 0)"
    by (induction ls) (auto simp: across_posting_def leg_posting_def across_total_def)
qed

lemma across_views [view_simps]:
  shows "account_balance (across_db cx d kind ref ls) v a =
      account_balance d v a + (if kept_account a then across_on v a ls else 0)"
    and "posted (across_db cx d kind ref ls) v a = posted d v a + across_on v a ls"
    and "allocated (across_db cx d kind ref ls) v = allocated d v + across_allocated v ls"
    and "entry_sum (across_db cx d kind ref ls) e = entry_sum d e + (if e = next_entry d then across_total ls else 0)"
    and "has_row (across_db cx d kind ref ls) v = has_row d v"
    and "bal_of (across_db cx d kind ref ls) v = bal_of d v"
    and "minted_of (across_db cx d kind ref ls) v = minted_of d v"
    and "spent_of (across_db cx d kind ref ls) v = spent_of d v"
    and "cash_of (across_db cx d kind ref ls) v = cash_of d v"
    and "test_of (across_db cx d kind ref ls) v = test_of d v"
    and "held_sum (across_db cx d kind ref ls) v = held_sum d v"
    and "ledger_sum (across_db cx d kind ref ls) v = ledger_sum d v"
  unfolding account_balance_def posted_def allocated_def entry_sum_def
  by (simp_all add: across_db_def account_balance_bump_across allocated_bump_across sum_across_postings
      has_row_def bal_of_def minted_of_def spent_of_def cash_of_def test_of_def row_of_def held_sum_def ledger_sum_def)

lemma balanced_across:
  assumes b: "balanced d" and z: "across_total ls = 0"
  shows "balanced (across_db cx d kind ref ls)"
proof -
  have none: "entry_sum d (next_entry d) = 0"
    unfolding entry_sum_def using b by (intro sum_where_none) (auto simp: balanced_def list_all_iff)
  show ?thesis
    unfolding balanced_def view_simps using b none z
    by (auto simp: balanced_def list_all_iff across_db_def across_posting_def leg_posting_def)
qed

lemma distinct_bump_across: "distinct (map fst kvs) \<Longrightarrow> distinct (map fst (bump_across kvs ls))"
  by (induction kvs ls rule: bump_across.induct) (simp_all add: distinct_bump_legs del: bump_legs.simps)

lemma accounts_ok_across:
  assumes "accounts_ok d" and "\<And>v a. is_allocated a \<Longrightarrow> 0 \<le> account_balance d v a + across_on v a ls"
  shows "accounts_ok (across_db cx d kind ref ls)"
proof -
  have "distinct (map fst (acct_balances (across_db cx d kind ref ls)))"
    using assms(1) by (simp add: across_db_def accounts_ok_def distinct_bump_across)
  then show ?thesis using assms by (auto simp: accounts_ok_iff view_simps is_allocated_kept)
qed

text \<open>The entry of a movement between two workspaces keeps the books up to the room it needs.\<close>

lemma slack_across:
  assumes b: "books_slack k d" and z: "across_total ls = 0"
    and nn: "\<And>v a. is_allocated a \<Longrightarrow> 0 \<le> account_balance d v a + across_on v a ls"
  shows "books_slack (\<lambda>v. k v + across_allocated v ls) (across_db cx d kind ref ls)" (is "books_slack _ ?e")
proof -
  have "holds_ok ?e" using slackD(1) [OF b] by (simp add: holds_ok_cong [of ?e d])
  moreover have "balanced ?e" using slackD(2) [OF b] z by (rule balanced_across)
  moreover have "accounts_ok ?e" using slackD(3) [OF b] nn by (rule accounts_ok_across)
  moreover have "account_balance ?e v a = posted ?e v a" if "kept_account a" for v a
    using slackD(9) [OF b that] that by (simp add: view_simps)
  ultimately show ?thesis
    using slackD [OF b] by (simp add: books_slack_def ledger_ok_def stored_ok_def view_simps)
qed

subsection \<open>Credits in the whole of Lens\<close>

text \<open>Every ledger row of every workspace: what exists of credits outside escrow.\<close>

definition all_credits :: "db \<Rightarrow> int" where
  "all_credits d = sum_list (map lr_amount (ledger d))"

lemma all_credits_frame [simp]:
  "all_credits (across_db cx d kind ref ls) = all_credits d"
  "all_credits (ensure_lxc_row d w) = all_credits d"
  "all_credits (write_lxc_balance d w b m p) = all_credits d"
  "all_credits (set_test_funded d w x) = all_credits d"
  "all_credits (add_test_funded d w x) = all_credits d"
  "all_credits (insert_lxc_ledger cx d w x b ty de me) = all_credits d + x"
  by (simp_all add: all_credits_def insert_lxc_ledger_def)

lemma all_credits_same: "same_money d d' \<Longrightarrow> all_credits d' = all_credits d"
  by (simp add: same_money_def all_credits_def)

end
