(* ===== verification/Agent_Transfers.thy ===== *)
theory Agent_Transfers
  imports Deal_State Agent_Movement
begin

section \<open>Transfers and requests between agents (agent_transfers.go)\<close>

text \<open>
  \<open>transfer_tx\<close> moves credits from one agent to another, of the same workspace or not; sending,
  answering a request, giving a transfer back, a scheduled payment and a loan's payout and
  instalments all go through it. It is composed of what the source does in order: the checks of
  the two sides (\<open>transfer_sides\<close>), the class and capability (\<open>transfer_class\<close>), the balance and
  the rules, the movement of the workspaces' credits (\<open>move_credits\<close>), the entry and the row.
\<close>

subsection \<open>Addresses\<close>

record wallet_address =
  wa_id :: string
  wa_handle :: string
  wa_name :: string
  wa_ws :: string

definition handle_char :: "char \<Rightarrow> bool" where
  "handle_char c \<longleftrightarrow> (let n = (of_char c :: nat) in 97 \<le> n \<and> n \<le> 122) \<or> is_digit c"

definition valid_handle :: "string \<Rightarrow> bool" where
  "valid_handle h \<longleftrightarrow> 3 \<le> length h \<and> length h \<le> 32 \<and> handle_char (hd h) \<and>
     list_all (\<lambda>c. handle_char c \<or> c = CHR ''.'' \<or> c = CHR ''_'' \<or> c = CHR ''-'') (tl h)"

definition handle_of :: "deals \<Rightarrow> string \<Rightarrow> string" where
  "handle_of n a = (case map_of (dl_handles n) a of None \<Rightarrow> '''' | Some h \<Rightarrow> h)"

definition address_of :: "deals \<Rightarrow> agent_row \<Rightarrow> wallet_address" where
  "address_of n r = \<lparr>wa_id = ag_id r, wa_handle = handle_of n (ag_id r), wa_name = ag_name r, wa_ws = ag_ws r\<rparr>"

definition set_agent_handle :: "deals \<Rightarrow> string \<Rightarrow> string \<Rightarrow> string \<Rightarrow> err + deals \<times> wallet_address" where
  "set_agent_handle n w a handle =
     (let h = to_lower (trim_prefix (trim_space handle) ''@'')
      in if h \<noteq> '''' \<and> \<not> valid_handle h then Inl (ErrHandle ''malformed'')
         else case find (is_agent_of w a) (agents (dl_db n)) of
           None \<Rightarrow> Inl ErrAgentNotFound
         | Some r \<Rightarrow>
             let others = filter (\<lambda>k. fst k \<noteq> a) (dl_handles n)
             in if h \<noteq> '''' \<and> list_ex (\<lambda>k. to_lower (snd k) = h) others then Inl (ErrHandle ''taken'')
                else let n = n\<lparr>dl_handles := (if h = '''' then others else others @ [(a, h)])\<rparr>
                     in Inr (n, address_of n r))"

definition resolve_wallet :: "deals \<Rightarrow> string \<Rightarrow> err + wallet_address" where
  "resolve_wallet n address =
     (let i = trim_space address; h = to_lower (trim_prefix i ''@'')
      in case find (\<lambda>r. ag_id r = i \<or> (case map_of (dl_handles n) (ag_id r) of
             None \<Rightarrow> False | Some k \<Rightarrow> to_lower k = h)) (agents (dl_db n)) of
           None \<Rightarrow> Inl ErrAgentNotFound
         | Some r \<Rightarrow> Inr (address_of n r))"

subsection \<open>Moving the workspaces' credits\<close>

text \<open>A workspace's balance and ledger moved by \<open>delta\<close>, as transfers and escrows do it.\<close>

definition shift_balance ::
    "ctx \<Rightarrow> db \<Rightarrow> string \<Rightarrow> int \<Rightarrow> lxc_type \<Rightarrow> string \<Rightarrow> metadata \<Rightarrow> db" where
  "shift_balance cx d w delta ty desc meta =
     (case read_lxc_balance d w of (d, bal, minted, spent) \<Rightarrow>
        write_lxc_balance (insert_lxc_ledger cx d w delta (bal + delta) ty desc meta) w (bal + delta) minted spent)"

definition class_name :: "cap_class \<Rightarrow> string" where
  "class_name c = (case c of Green \<Rightarrow> ''GREEN'' | Amber \<Rightarrow> ''AMBER'' | Red \<Rightarrow> ''RED'')"

definition move_lxc :: "ctx \<Rightarrow> db \<Rightarrow> string \<Rightarrow> int \<Rightarrow> transfer \<Rightarrow> db" where
  "move_lxc cx d w delta t =
     shift_balance cx d w delta LxcTransfer
       (if delta > 0 then ''credits received from another agent'' else ''credits sent to another agent'')
       [''transfer_id'' \<mapsto> MStr (tr_id t),
        ''counterparty_agent_id'' \<mapsto> MStr (if delta > 0 then tr_from t else tr_to t),
        ''counterparty_workspace_id'' \<mapsto> MStr (if delta > 0 then tr_from_ws t else tr_to_ws t),
        ''class'' \<mapsto> MStr (class_name (tr_class t))]"

definition read_rows :: "db \<Rightarrow> string \<Rightarrow> string \<Rightarrow> db" where
  "read_rows d a b = (if a = b then ensure_lxc_row d a
     else if b < a then ensure_lxc_row (ensure_lxc_row d b) a
     else ensure_lxc_row (ensure_lxc_row d a) b)"

definition across_freeze :: "gate_db \<Rightarrow> string \<Rightarrow> string \<Rightarrow> string \<Rightarrow> err + unit" where
  "across_freeze g a b key =
     (case capability_by_key key of
        None \<Rightarrow> Inr ()
      | Some c \<Rightarrow> rbind (refuse_frozen_any_class g a c) (\<lambda>_. refuse_frozen_any_class g b c))"

definition move_credits ::
    "store \<Rightarrow> ctx \<Rightarrow> gate_db \<Rightarrow> db \<Rightarrow> string \<Rightarrow> transfer \<Rightarrow> err + db \<times> transfer" where
  "move_credits s cx g d key t =
     (let from = tr_from_ws t; to = tr_to_ws t; amount = tr_amount t;
          d = read_rows d from to; had = test_funded_ulxc d from
      in rbind (spend_for_capability s cx g d from key amount) (\<lambda>(d, _).
         rbind (if to \<noteq> from
             then rbind (across_freeze g from to key) (\<lambda>_. Inr (move_lxc cx d from (- amount) t))
             else Inr d) (\<lambda>d.
           let t = t\<lparr>tr_test := max (had - test_funded_ulxc d from) 0\<rparr>;
               d = (if to \<noteq> from then move_lxc cx d to amount t else d)
           in Inr (add_test_funded d to (tr_test t), t))))"

subsection \<open>A transfer\<close>

definition lock_sides :: "db \<Rightarrow> string \<times> string \<Rightarrow> string \<times> string \<Rightarrow> err + unit" where
  "lock_sides d x y = rbind (lock_agent d (fst x) (snd x)) (\<lambda>_. lock_agent d (fst y) (snd y))"

definition sides_in_order :: "transfer \<Rightarrow> (string \<times> string) \<times> (string \<times> string)" where
  "sides_in_order t =
     (if tr_to t < tr_from t then ((tr_to_ws t, tr_to t), (tr_from_ws t, tr_from t))
      else ((tr_from_ws t, tr_from t), (tr_to_ws t, tr_to t)))"

text \<open>Both agents locked, then both owners verified; the answer is whether one owner has both.\<close>

definition transfer_sides :: "desk \<Rightarrow> db \<Rightarrow> transfer \<Rightarrow> err + bool" where
  "transfer_sides dk d t =
     (case sides_in_order t of (x, y) \<Rightarrow>
        rbind (lock_sides d x y) (\<lambda>_.
        rbind (owner_verified dk d (fst x) (snd x)) (\<lambda>a.
        rbind (owner_verified dk d (fst y) (snd y)) (\<lambda>b. Inr (a = b)))))"

definition transfer_class :: "transfer \<Rightarrow> bool \<Rightarrow> string \<times> cap_class" where
  "transfer_class t same_owner =
     (case capability_by_key (tr_capability t) of
        Some c \<Rightarrow> (cp_key c, cp_class c)
      | None \<Rightarrow> if same_owner then (''move_between_own_agents'', Green) else (''pay_another_owner'', Amber))"

definition record_transfer :: "ctx \<Rightarrow> deals \<Rightarrow> transfer \<Rightarrow> err + deals \<times> transfer" where
  "record_transfer cx n t =
     (if list_ex (\<lambda>r. tr_id r = tr_id t) (dl_transfers n) then Inl (ErrDbCheck ''agent_transfers_pkey'')
      else if tr_class t = Red then Inl (ErrDbCheck ''class'')
      else if tr_refund_of t \<noteq> '''' \<and> list_ex (\<lambda>r. tr_refund_of r = tr_refund_of t) (dl_transfers n)
      then Inl ErrAlreadyRefunded
      else let t = t\<lparr>tr_at := cx_now cx\<rparr>
        in Inr (n\<lparr>dl_transfers := dl_transfers n @ [t\<lparr>tr_capability := ''''\<rparr>]\<rparr>, t))"

text \<open>The movement itself: the balance, the rules, the credits, the entry and the row.\<close>

definition make_transfer ::
    "desk \<Rightarrow> ctx \<Rightarrow> deals \<Rightarrow> transfer \<Rightarrow> string \<Rightarrow> bool \<Rightarrow> err + deals \<times> transfer" where
  "make_transfer dk cx n t key judged =
     (let s = dk_store dk; d = dl_db n; bal = account_balance d (tr_from_ws t) (AgentAcc (tr_from t))
      in if bal < tr_amount t then Inl (ErrAgentFunds bal)
         else
           rbind (if judged
               then enforce_agent_rules s cx d (tr_from_ws t) (tr_from t) (tr_amount t) (tr_id t)
               else Inr d) (\<lambda>d.
           rbind (move_credits s cx (dl_gates n) d key t) (\<lambda>(d, t).
           rbind (post_across cx d PkTransfer (tr_id t)
               [(tr_from_ws t, AgentAcc (tr_from t), - tr_amount t),
                (tr_to_ws t, AgentAcc (tr_to t), tr_amount t)]) (\<lambda>(d, entry).
             record_transfer cx (n\<lparr>dl_db := d\<rparr>) (t\<lparr>tr_entry := entry\<rparr>)))))"

definition transfer_tx ::
    "desk \<Rightarrow> ctx \<Rightarrow> deals \<Rightarrow> transfer \<Rightarrow> bool \<Rightarrow> string \<Rightarrow> err + deals \<times> transfer" where
  "transfer_tx dk cx n t judged new_id =
     (if tr_amount t \<le> 0 then Inl (ErrInvalid ''the amount must be positive'')
      else if tr_from t = tr_to t then Inl ErrSameAgent
      else
        rbind (if tr_to_ws t = '''' then map_sum id (\<lambda>a. t\<lparr>tr_to_ws := wa_ws a\<rparr>) (resolve_wallet n (tr_to t))
            else Inr t) (\<lambda>t.
        rbind (check_money_wall (dl_db n) (tr_from_ws t) (tr_to_ws t)) (\<lambda>_.
        rbind (transfer_sides dk (dl_db n) t) (\<lambda>same_owner.
          case transfer_class t same_owner of (key, class) \<Rightarrow>
            make_transfer dk cx n
              (t\<lparr>tr_class := class, tr_id := (if tr_id t = '''' then new_id else tr_id t)\<rparr>) key judged))))"

definition run_transfer ::
    "desk \<Rightarrow> ctx \<Rightarrow> deals \<Rightarrow> transfer \<Rightarrow> bool \<Rightarrow> string \<Rightarrow> string \<Rightarrow> deals \<times> (err + transfer)" where
  "run_transfer dk cx n t judged new_id approval_id =
     refused_deal cx n approval_id (transfer_tx dk cx n t judged new_id)"

definition pay_request :: "string \<Rightarrow> payee \<Rightarrow> string \<Rightarrow> agent_request" where
  "pay_request fingerprint p memo =
     no_request\<lparr>rq_payment := True, rq_fingerprint := fingerprint, rq_payee := p, rq_memo := memo\<rparr>"

definition send_credits ::
    "desk \<Rightarrow> ctx \<Rightarrow> deals \<Rightarrow> string \<Rightarrow> string \<Rightarrow> string \<Rightarrow> int \<Rightarrow> string \<Rightarrow> string \<Rightarrow> string \<Rightarrow> deals \<times> (err + transfer)" where
  "send_credits dk cx n w a address amount memo new_id approval_id =
     (case resolve_wallet n address of
        Inl e \<Rightarrow> (n, Inl e)
      | Inr to \<Rightarrow>
          run_transfer dk
            (with_agent_request cx (pay_request (payment_fingerprint dk a (wa_id to) amount memo)
              \<lparr>py_kind = ''agent'', py_id = wa_id to, py_name = wa_name to\<rparr> memo))
            n (new_transfer w a (wa_ws to) (wa_id to) amount memo) True new_id approval_id)"

subsection \<open>Requests\<close>

definition request_credits ::
    "ctx \<Rightarrow> deals \<Rightarrow> string \<Rightarrow> string \<Rightarrow> string \<Rightarrow> int \<Rightarrow> string \<Rightarrow> string \<Rightarrow> err + deals \<times> money_request" where
  "request_credits cx n w a address amount memo new_id =
     (if amount \<le> 0 then Inl (ErrInvalid ''the amount must be positive'')
      else rbind (resolve_wallet n address) (\<lambda>payer.
        if wa_id payer = a then Inl ErrSameAgent
        else rbind (check_money_wall (dl_db n) w (wa_ws payer)) (\<lambda>_.
          if \<not> list_ex (is_agent_of w a) (agents (dl_db n)) then Inl ErrAgentNotFound
          else if list_ex (\<lambda>r. mr_id r = new_id) (dl_requests n) then Inl (ErrDbCheck ''agent_money_requests_pkey'')
          else let r = \<lparr>mr_id = new_id, mr_from_ws = w, mr_from = a, mr_to_ws = wa_ws payer, mr_to = wa_id payer,
                 mr_amount = amount, mr_memo = memo, mr_status = Asked, mr_transfer = '''', mr_at = cx_now cx,
                 mr_decided = None\<rparr>
               in Inr (n\<lparr>dl_requests := dl_requests n @ [r]\<rparr>, r))))"

definition decide_request :: "ctx \<Rightarrow> request_status \<Rightarrow> string \<Rightarrow> money_request \<Rightarrow> money_request" where
  "decide_request cx status transfer r = r\<lparr>mr_status := status, mr_transfer := transfer, mr_decided := Some (cx_now cx)\<rparr>"

definition update_request :: "(money_request \<Rightarrow> money_request) \<Rightarrow> string \<Rightarrow> deals \<Rightarrow> deals" where
  "update_request f i n = n\<lparr>dl_requests := map (\<lambda>r. if mr_id r = i then f r else r) (dl_requests n)\<rparr>"

definition find_asked :: "deals \<Rightarrow> string \<Rightarrow> string \<Rightarrow> money_request option" where
  "find_asked n w i = find (\<lambda>r. mr_id r = i \<and> mr_to_ws r = w \<and> mr_status r = Asked) (dl_requests n)"

definition answer_money_request ::
    "desk \<Rightarrow> ctx \<Rightarrow> deals \<Rightarrow> string \<Rightarrow> string \<Rightarrow> bool \<Rightarrow> string \<Rightarrow> string \<Rightarrow> deals \<times> (err + money_request)" where
  "answer_money_request dk cx n w i accept new_id approval_id =
     (case find_asked n w i of
        None \<Rightarrow> (n, Inl ErrRequestNotFound)
      | Some r \<Rightarrow>
          if \<not> accept
          then (update_request (decide_request cx Declined '''') i n, Inr (decide_request cx Declined '''' r))
          else
            let cx' = with_agent_request cx (pay_request (payment_fingerprint dk (mr_to r) (mr_from r) (mr_amount r) (mr_memo r))
                  \<lparr>py_kind = ''agent'', py_id = mr_from r, py_name = ''''\<rparr> (mr_memo r));
                t = (new_transfer (mr_to_ws r) (mr_to r) (mr_from_ws r) (mr_from r) (mr_amount r) (mr_memo r))
                  \<lparr>tr_request := mr_id r\<rparr>
            in refused_deal cx n approval_id
                 (rbind (transfer_tx dk cx' n t True new_id) (\<lambda>(n, t).
                    Inr (update_request (decide_request cx Accepted (tr_id t)) i n, decide_request cx Accepted (tr_id t) r))))"

definition list_money_requests :: "deals \<Rightarrow> string \<Rightarrow> money_request list" where
  "list_money_requests n w =
     take 200 (sort_key (\<lambda>r. (- mr_at r, mr_id r)) (filter (\<lambda>r. mr_from_ws r = w \<or> mr_to_ws r = w) (dl_requests n)))"

subsection \<open>Giving back\<close>

definition refunded :: "deals \<Rightarrow> string \<Rightarrow> bool" where
  "refunded n i \<longleftrightarrow> list_ex (\<lambda>r. tr_refund_of r = i) (dl_transfers n)"

definition refundable_row :: "deals \<Rightarrow> string \<Rightarrow> string \<Rightarrow> transfer option" where
  "refundable_row n w i =
     find (\<lambda>t. tr_id t = i \<and> tr_to_ws t = w \<and> tr_refund_of t = '''' \<and> tr_loan t = '''') (dl_transfers n)"

definition refund_of :: "transfer \<Rightarrow> transfer" where
  "refund_of t = (new_transfer (tr_to_ws t) (tr_to t) (tr_from_ws t) (tr_from t) (tr_amount t) (''refund: '' @ tr_memo t))
     \<lparr>tr_refund_of := tr_id t\<rparr>"

definition refund_transfer ::
    "desk \<Rightarrow> ctx \<Rightarrow> deals \<Rightarrow> string \<Rightarrow> string \<Rightarrow> string \<Rightarrow> string \<Rightarrow> deals \<times> (err + transfer)" where
  "refund_transfer dk cx n w i new_id approval_id =
     (case refundable_row n w i of
        None \<Rightarrow> (n, Inl ErrTransferNotFound)
      | Some t \<Rightarrow> if refunded n i then (n, Inl ErrAlreadyRefunded)
          else run_transfer dk cx n (refund_of t) False new_id approval_id)"

text \<open>A transfer on an agent's list: the transfer that gave it back, and whether it may still be.\<close>

definition refunded_by :: "deals \<Rightarrow> string \<Rightarrow> string" where
  "refunded_by n i = (case find (\<lambda>r. tr_refund_of r = i) (dl_transfers n) of None \<Rightarrow> '''' | Some r \<Rightarrow> tr_id r)"

definition list_agent_transfers :: "deals \<Rightarrow> string \<Rightarrow> string \<Rightarrow> (transfer \<times> string \<times> bool) list" where
  "list_agent_transfers n w a =
     map (\<lambda>t. (t, refunded_by n (tr_id t),
         tr_to_ws t = w \<and> tr_to t = a \<and> tr_refund_of t = '''' \<and> tr_loan t = '''' \<and> refunded_by n (tr_id t) = ''''))
       (take 200 (sort_key (\<lambda>t. (- tr_at t, tr_id t))
         (filter (\<lambda>t. (tr_from_ws t = w \<and> tr_from t = a) \<or> (tr_to_ws t = w \<and> tr_to t = a)) (dl_transfers n))))"

subsection \<open>What moving the credits leaves\<close>

text \<open>
  \<open>rows_only\<close> relates two databases that differ in balances, the credit ledger, the rules' own
  records and nothing else that matters to the books; the backing and the holds are the same.
\<close>

definition rows_only :: "db \<Rightarrow> db \<Rightarrow> bool" where
  "rows_only d d' \<longleftrightarrow> reservations d' = reservations d \<and> postings d' = postings d \<and>
     next_entry d' = next_entry d \<and> acct_balances d' = acct_balances d \<and> agent_keys d' = agent_keys d \<and>
     agent_places d' = agent_places d \<and> subbudgets d' = subbudgets d \<and> claims d' = claims d \<and>
     settlements d' = settlements d \<and> workspaces d' = workspaces d \<and>
     market_uses d' = market_uses d \<and> money_payments d' = money_payments d \<and>
     cash_of d' = cash_of d \<and> (\<forall>v. has_row d v \<longrightarrow> has_row d' v)"

lemma rows_only_refl [simp]: "rows_only d d"
  by (simp add: rows_only_def)

lemma rows_only_trans: "rows_only d e \<Longrightarrow> rows_only e f \<Longrightarrow> rows_only d f"
  by (simp add: rows_only_def)

lemma rows_only_held: "rows_only d d' \<Longrightarrow> held_sum d' v = held_sum d v"
  by (simp add: rows_only_def held_sum_def)

lemma rows_only_steps [simp]:
  "rows_only d (ensure_lxc_row d w)" "rows_only d (write_lxc_balance d w b m p)"
  "rows_only d (insert_lxc_ledger cx d w x b ty de me)" "rows_only d (set_test_funded d w x)"
  "rows_only d (add_test_funded d w x)"
  by (simp_all add: rows_only_def fun_eq_iff view_simps agent_places_def)

lemma rows_only_quiet: "rules_quiet d d' \<Longrightarrow> rows_only d d'"
  by (auto simp: rules_quiet_def rows_only_def same_money_def cash_of_def row_of_def has_row_def)

lemma shift_balance_eq:
  "shift_balance cx d w x ty de me = write_lxc_balance
     (insert_lxc_ledger cx (ensure_lxc_row d w) w x (bal_of d w + x) ty de me) w
       (bal_of d w + x) (minted_of d w) (spent_of d w)"
  by (simp add: shift_balance_def)

lemma shift_balance_rows [simp]: "rows_only d (shift_balance cx d w x ty de me)"
  unfolding shift_balance_eq by (blast intro: rows_only_trans rows_only_steps)

lemma shift_balance_views [view_simps]:
  shows "bal_of (shift_balance cx d w x ty de me) v = bal_of d v + (if v = w then x else 0)"
    and "ledger_sum (shift_balance cx d w x ty de me) v = ledger_sum d v + (if v = w then x else 0)"
    and "test_of (shift_balance cx d w x ty de me) v =
      (if v = w then clamp_test_funded (test_of d w) (bal_of d w + x) (held_sum d w) else test_of d v)"
    and "held_sum (shift_balance cx d w x ty de me) v = held_sum d v"
    and "minted_of (shift_balance cx d w x ty de me) v = minted_of d v"
    and "spent_of (shift_balance cx d w x ty de me) v = spent_of d v"
    and "has_row (shift_balance cx d w x ty de me) v \<longleftrightarrow> v = w \<or> has_row d v"
    and "workspaces (shift_balance cx d w x ty de me) = workspaces d"
    and "all_credits (shift_balance cx d w x ty de me) = all_credits d + x"
  unfolding shift_balance_eq by (simp_all add: view_simps)

lemma move_lxc_eq: "\<exists>de me. move_lxc cx d w x t = shift_balance cx d w x LxcTransfer de me"
  by (simp only: move_lxc_def) blast

lemma move_lxc_rows [simp]: "rows_only d (move_lxc cx d w x t)"
  by (simp add: move_lxc_def)

declare move_lxc_def [view_simps]

lemma read_rows_rows [simp]: "rows_only d (read_rows d a b)"
  by (auto simp: read_rows_def intro: rows_only_trans rows_only_steps)

lemma read_rows_views [view_simps]:
  shows "bal_of (read_rows d a b) v = bal_of d v" and "ledger_sum (read_rows d a b) v = ledger_sum d v"
    and "test_of (read_rows d a b) v = test_of d v" and "held_sum (read_rows d a b) v = held_sum d v"
    and "has_row (read_rows d a b) v \<longleftrightarrow> v = a \<or> v = b \<or> has_row d v"
    and "workspaces (read_rows d a b) = workspaces d" and "all_credits (read_rows d a b) = all_credits d"
  by (auto simp: read_rows_def view_simps)

text \<open>
  The money a transfer takes from a workspace that is not a test one is test-funded to the last
  credit when its capability may not take live money, and the test-funded part it took arrives.
\<close>

lemma clamp_min: "min (clamp_test_funded f b h) (max (b + h) 0) = min f (max (b + h) 0)"
  by (auto simp: clamp_test_funded_def)

lemma plan_row_cong:
  "contracts d' = contracts d \<Longrightarrow> subscriptions d' = subscriptions d \<Longrightarrow> workspaces d' = workspaces d \<Longrightarrow>
    plan_row_of d' w = plan_row_of d w"
  by (simp add: plan_row_of_def test_workspace_def)

lemma takes_live_read_rows: "takes_live s cx g (read_rows d a b) w c = takes_live s cx g d w c"
proof -
  have "plan_row_of (read_rows d a b) w = plan_row_of d w"
    by (rule plan_row_cong) (simp_all add: read_rows_def)
  then show ?thesis by (simp add: takes_live_def)
qed

lemma test_workspace_rows: "rows_only d d' \<Longrightarrow> test_workspace d' w = test_workspace d w"
  by (simp add: rows_only_def test_workspace_def)

text \<open>How far a gated spend and the move out of the workspace lower its test-funded credits.\<close>

lemma test_taken:
  assumes s: "spend_for_capability s cx g d w key x = Inr (d1, t0)" and pos: "0 < x"
    and tn: "0 \<le> test_of d w" and r: "has_row d w"
    and d2: "d2 = d1 \<or> d2 = shift_balance cx d1 w (- x) ty de me"
  shows "max (test_funded_ulxc d w - test_funded_ulxc d2 w) 0 \<le> x"
    and "\<exists>c. capability_by_key key = Some c \<and> may_use g w c \<and>
      (takes_live s cx g d w c \<or> test_workspace d w \<or> test_funded_ulxc d w - test_funded_ulxc d2 w = x)"
    and "rows_only d d1" and "0 \<le> test_of d v \<Longrightarrow> 0 \<le> test_of d1 v"
    and "bal_of d1 v = bal_of d v" and "ledger_sum d1 v = ledger_sum d v" and "all_credits d1 = all_credits d"
proof -
  from spend_for_capability_InrD [OF s pos tn] obtain c where c: "capability_by_key key = Some c"
    "may_use g w c" and t0: "0 \<le> t0" "t0 \<le> x" "t0 \<le> test_funded_ulxc d w"
    and live: "takes_live s cx g d w c \<Longrightarrow> t0 = 0 \<and> d1 = d"
    and dead: "\<not> takes_live s cx g d w c \<Longrightarrow> (test_workspace d w \<or> t0 = x) \<and>
      d1 = set_test_funded d w (test_funded_ulxc d w - t0)"
    by metis
  have d1: "d1 = d \<or> d1 = set_test_funded d w (test_funded_ulxc d w - t0)" using live dead by blast
  show "rows_only d d1" using d1 by auto
  show "0 \<le> test_of d v \<Longrightarrow> 0 \<le> test_of d1 v"
    using d1 tn t0 by (auto simp: view_simps r)
  show "bal_of d1 v = bal_of d v" "ledger_sum d1 v = ledger_sum d v" "all_credits d1 = all_credits d"
    using d1 by (auto simp: view_simps)
  define u where "u = bal_of d w + held_sum d w"
  have tf: "test_funded_ulxc d w = (if test_workspace d w then max u 0 else min (test_of d w) (max u 0))"
    using r by (simp add: test_funded_ulxc_eq Let_def u_def)
  have ws: "workspaces d1 = workspaces d" "bal_of d1 w = bal_of d w" "held_sum d1 w = held_sum d w" "has_row d1 w"
    using d1 r by (auto simp: view_simps)
  define y where "y = (if d2 = d1 then 0 else x)"
  have tf2: "test_funded_ulxc d2 w =
      (if test_workspace d w then max (u - y) 0 else min (test_of d1 w) (max (u - y) 0))"
  proof (cases "d2 = d1")
    case True
    then show ?thesis using ws test_workspace_cong [OF ws(1)] by (simp add: test_funded_ulxc_eq Let_def u_def y_def)
  next
    case False
    then have d2: "d2 = shift_balance cx d1 w (- x) ty de me" using d2 by blast
    have "test_workspace d2 w = test_workspace d w" by (simp add: d2 test_workspace_def view_simps ws(1))
    then show ?thesis
      using False clamp_min [of "test_of d1 w" "bal_of d w - x" "held_sum d w"]
      by (simp add: test_funded_ulxc_eq Let_def y_def u_def view_simps ws d2 algebra_simps)
  qed
  have y: "0 \<le> y" "y \<le> x" using pos by (simp_all add: y_def)
  have t1: "test_of d1 w = (if takes_live s cx g d w c then test_of d w else test_funded_ulxc d w - t0)"
    using live dead by (auto simp: view_simps r)
  show "max (test_funded_ulxc d w - test_funded_ulxc d2 w) 0 \<le> x"
    unfolding tf2 t1 tf using y t0 pos by (auto simp: min_def max_def)
  have "test_funded_ulxc d w - test_funded_ulxc d2 w = x"
    if "\<not> takes_live s cx g d w c" "\<not> test_workspace d w"
    unfolding tf2 t1 tf using y t0 pos dead that by (auto simp: min_def max_def)
  then show "\<exists>c. capability_by_key key = Some c \<and> may_use g w c \<and>
      (takes_live s cx g d w c \<or> test_workspace d w \<or> test_funded_ulxc d w - test_funded_ulxc d2 w = x)"
    using c by blast
qed

lemma across_freeze_InrD:
  "across_freeze g a b key = Inr u \<Longrightarrow> capability_by_key key = Some c \<Longrightarrow> freezes g a = None \<and> freezes g b = None"
  by (auto simp: across_freeze_def refuse_frozen_any_class_def freeze_refusal_def)

lemma move_credits_InrD:
  assumes m: "move_credits s cx g d key t = Inr (d', t')" and pos: "0 < tr_amount t"
    and tn: "\<And>v. 0 \<le> test_of d v"
  shows "rows_only d d'" and "t' = t\<lparr>tr_test := tr_test t'\<rparr>" and "0 \<le> tr_test t'"
    and "tr_test t' \<le> tr_amount t"
    and "bal_of d' v = bal_of d v + (if tr_to_ws t = tr_from_ws t then 0
      else (if v = tr_to_ws t then tr_amount t else 0) - (if v = tr_from_ws t then tr_amount t else 0))"
    and "ledger_sum d' v - bal_of d' v = ledger_sum d v - bal_of d v"
    and "0 \<le> test_of d' v" and "all_credits d' = all_credits d"
    and "\<exists>c. capability_by_key key = Some c \<and> may_use g (tr_from_ws t) c \<and>
      (takes_live s cx g d (tr_from_ws t) c \<or> test_workspace d (tr_from_ws t) \<or> tr_test t' = tr_amount t) \<and>
      (tr_to_ws t \<noteq> tr_from_ws t \<longrightarrow> freezes g (tr_from_ws t) = None \<and> freezes g (tr_to_ws t) = None)"
proof -
  let ?w = "tr_from_ws t" and ?u = "tr_to_ws t" and ?x = "tr_amount t"
  let ?D = "read_rows d ?w ?u"
  obtain d1 t0 where s: "spend_for_capability s cx g ?D ?w key ?x = Inr (d1, t0)"
    and fz: "?u \<noteq> ?w \<Longrightarrow> across_freeze g ?w ?u key = Inr ()"
    and r: "\<And>d2. d2 = (if ?u \<noteq> ?w then move_lxc cx d1 ?w (- ?x) t else d1) \<Longrightarrow>
      t' = t\<lparr>tr_test := max (test_funded_ulxc ?D ?w - test_funded_ulxc d2 ?w) 0\<rparr> \<and>
      d' = add_test_funded (if ?u \<noteq> ?w then move_lxc cx d2 ?u ?x t' else d2) ?u (tr_test t')"
    using m by (auto simp: move_credits_def Let_def split: if_splits)
  define d2 where "d2 = (if ?u \<noteq> ?w then move_lxc cx d1 ?w (- ?x) t else d1)"
  note r = r [OF d2_def]
  have tD: "0 \<le> test_of ?D ?w" and row: "has_row ?D ?w" using tn by (simp_all add: view_simps)
  obtain de me where d2: "d2 = d1 \<or> d2 = shift_balance cx d1 ?w (- ?x) LxcTransfer de me"
    unfolding d2_def using move_lxc_eq [of cx d1 ?w "- ?x" t] by metis
  note T = test_taken [OF s pos tD row d2]
  have t': "tr_test t' = max (test_funded_ulxc ?D ?w - test_funded_ulxc d2 ?w) 0" using r by simp
  show "t' = t\<lparr>tr_test := tr_test t'\<rparr>" using r by (metis t')
  show "0 \<le> tr_test t'" "tr_test t' \<le> ?x" unfolding t' using T(1) by simp_all
  have d1: "rows_only d d1" using rows_only_trans [OF read_rows_rows T(3)] .
  have ro: "rows_only d d2" using d1 rows_only_trans [OF d1 move_lxc_rows] by (simp add: d2_def)
  show "rows_only d d'"
    using r rows_only_trans [OF ro rows_only_steps(5)]
      rows_only_trans [OF ro rows_only_trans [OF move_lxc_rows rows_only_steps(5)]] by (auto simp: d2_def)
  have b1: "bal_of d1 v = bal_of d v" "ledger_sum d1 v = ledger_sum d v" "all_credits d1 = all_credits d" for v
    using T(5-7) by (simp_all add: view_simps)
  show "bal_of d' v = bal_of d v + (if ?u = ?w then 0
      else (if v = ?u then ?x else 0) - (if v = ?w then ?x else 0))"
    "ledger_sum d' v - bal_of d' v = ledger_sum d v - bal_of d v" "all_credits d' = all_credits d"
    using r by (simp_all add: d2_def view_simps b1)
  have "0 \<le> test_of d1 v" for v using T(4) tn by (simp add: view_simps)
  then show "0 \<le> test_of d' v" using r \<open>0 \<le> tr_test t'\<close> by (simp add: d2_def view_simps clamp_nonneg)
  obtain c where c: "capability_by_key key = Some c" "may_use g ?w c"
    "takes_live s cx g ?D ?w c \<or> test_workspace ?D ?w \<or> test_funded_ulxc ?D ?w - test_funded_ulxc d2 ?w = ?x"
    using T(2) by blast
  then have "takes_live s cx g d ?w c \<or> test_workspace d ?w \<or> tr_test t' = ?x"
    using takes_live_read_rows test_workspace_rows [OF read_rows_rows] pos t' by fastforce
  then show "\<exists>c. capability_by_key key = Some c \<and> may_use g ?w c \<and>
      (takes_live s cx g d ?w c \<or> test_workspace d ?w \<or> tr_test t' = ?x) \<and>
      (?u \<noteq> ?w \<longrightarrow> freezes g ?w = None \<and> freezes g ?u = None)"
    using c across_freeze_InrD [OF fz c(1)] by blast
qed

subsection \<open>What a transfer does\<close>

lemma owner_verified_InrD:
  "owner_verified dk d w a = Inr o1 \<Longrightarrow> \<exists>r. find_agent d a = Some r \<and> ag_owner r = o1 \<and> o1 \<noteq> '''' \<and>
    may_earn dk d w = Inr True"
  by (auto simp: owner_verified_def split: option.splits if_splits)

lemma lock_agent_InrD: "lock_agent d w a = Inr u \<Longrightarrow> \<exists>r. find_agent d a = Some r \<and> ag_ws r = w"
  by (auto simp: lock_agent_def split: option.splits if_splits)

definition owners_of :: "db \<Rightarrow> transfer \<Rightarrow> string \<times> string" where
  "owners_of d t = (case (find_agent d (tr_from t), find_agent d (tr_to t)) of
     (Some a, Some b) \<Rightarrow> (ag_owner a, ag_owner b) | _ \<Rightarrow> ('''', ''''))"

definition sides_ok :: "desk \<Rightarrow> db \<Rightarrow> transfer \<Rightarrow> bool" where
  "sides_ok dk d t \<longleftrightarrow> lock_agent d (tr_from_ws t) (tr_from t) = Inr () \<and> lock_agent d (tr_to_ws t) (tr_to t) = Inr () \<and>
     fst (owners_of d t) \<noteq> '''' \<and> snd (owners_of d t) \<noteq> '''' \<and>
     may_earn dk d (tr_from_ws t) = Inr True \<and> may_earn dk d (tr_to_ws t) = Inr True"

lemma transfer_sides_InrD:
  assumes "transfer_sides dk d t = Inr same"
  shows "sides_ok dk d t" and "same \<longleftrightarrow> fst (owners_of d t) = snd (owners_of d t)"
  using assms
  by (auto simp: transfer_sides_def sides_in_order_def lock_sides_def sides_ok_def owners_of_def
      dest!: owner_verified_InrD split: if_splits)

definition transfer_legs :: "transfer \<Rightarrow> ws_leg list" where
  "transfer_legs t = [(tr_from_ws t, AgentAcc (tr_from t), - tr_amount t), (tr_to_ws t, AgentAcc (tr_to t), tr_amount t)]"

definition same_owner :: "db \<Rightarrow> transfer \<Rightarrow> bool" where
  "same_owner d t \<longleftrightarrow> fst (owners_of d t) = snd (owners_of d t)"

text \<open>The capability a transfer moves as, and the transfer with its receiver, class and id filled in.\<close>

definition transfer_key :: "deals \<Rightarrow> transfer \<Rightarrow> string" where
  "transfer_key n t = fst (transfer_class t (same_owner (dl_db n) t))"

definition receiver_ws :: "deals \<Rightarrow> transfer \<Rightarrow> string" where
  "receiver_ws n t = (if tr_to_ws t \<noteq> '''' then tr_to_ws t
     else case resolve_wallet n (tr_to t) of Inr a \<Rightarrow> wa_ws a | Inl _ \<Rightarrow> '''')"

definition filled :: "deals \<Rightarrow> transfer \<Rightarrow> string \<Rightarrow> transfer" where
  "filled n t new_id = t\<lparr>tr_to_ws := receiver_ws n t, tr_class := snd (transfer_class t (same_owner (dl_db n) t)),
     tr_id := (if tr_id t = '''' then new_id else tr_id t)\<rparr>"

lemma filled_simps [simp]:
  "tr_from (filled n t i) = tr_from t" "tr_to (filled n t i) = tr_to t" "tr_from_ws (filled n t i) = tr_from_ws t"
  "tr_to_ws (filled n t i) = receiver_ws n t" "tr_amount (filled n t i) = tr_amount t"
  "tr_memo (filled n t i) = tr_memo t" "tr_refund_of (filled n t i) = tr_refund_of t"
  "tr_loan (filled n t i) = tr_loan t" "tr_id (filled n t i) = (if tr_id t = '''' then i else tr_id t)"
  "tr_class (filled n t i) = snd (transfer_class t (same_owner (dl_db n) t))"
  by (simp_all add: filled_def)

lemma record_transfer_InrD:
  "record_transfer cx n t = Inr (n', t') \<Longrightarrow>
    t' = t\<lparr>tr_at := cx_now cx\<rparr> \<and> n' = n\<lparr>dl_transfers := dl_transfers n @ [t'\<lparr>tr_capability := ''''\<rparr>]\<rparr> \<and>
    tr_id t \<notin> tr_id ` set (dl_transfers n) \<and> tr_class t \<noteq> Red \<and>
    (tr_refund_of t \<noteq> '''' \<longrightarrow> \<not> refunded n (tr_refund_of t))"
  by (auto simp: record_transfer_def refunded_def Let_def list_ex_iff split: if_splits)

text \<open>A successful transfer, step by step.\<close>

lemma transfer_tx_InrD:
  assumes "transfer_tx dk cx n t judged new_id = Inr (n', t')"
  defines "t1 \<equiv> filled n t new_id"
  obtains d1 d2 t2 where
    "0 < tr_amount t" and "tr_from t \<noteq> tr_to t"
    and "check_money_wall (dl_db n) (tr_from_ws t) (receiver_ws n t) = Inr ()"
    and "sides_ok dk (dl_db n) t1"
    and "tr_amount t \<le> account_balance (dl_db n) (tr_from_ws t) (AgentAcc (tr_from t))"
    and "if judged then enforce_agent_rules (dk_store dk) cx (dl_db n) (tr_from_ws t) (tr_from t) (tr_amount t) (tr_id t1) = Inr d1
       else d1 = dl_db n"
    and "move_credits (dk_store dk) cx (dl_gates n) d1 (transfer_key n t) t1 = Inr (d2, t2)"
    and "t' = t2\<lparr>tr_entry := next_entry d2, tr_at := cx_now cx\<rparr>"
    and "n' = n\<lparr>dl_db := across_db cx d2 PkTransfer (tr_id t1) (transfer_legs t1),
      dl_transfers := dl_transfers n @ [t'\<lparr>tr_capability := ''''\<rparr>]\<rparr>"
    and "tr_id t1 \<notin> tr_id ` set (dl_transfers n)" and "tr_class t1 \<noteq> Red"
    and "tr_refund_of t \<noteq> '''' \<longrightarrow> \<not> refunded n (tr_refund_of t)"
    and "t2 = t1\<lparr>tr_test := tr_test t2\<rparr>"
proof -
  have pos: "0 < tr_amount t" and ab: "tr_from t \<noteq> tr_to t"
    using assms(1) by (auto simp: transfer_tx_def split: if_splits)
  define t0 where "t0 = t\<lparr>tr_to_ws := receiver_ws n t\<rparr>"
  have "(if tr_to_ws t = '''' then map_sum id (\<lambda>a. t\<lparr>tr_to_ws := wa_ws a\<rparr>) (resolve_wallet n (tr_to t)) else Inr t) = Inr t0"
  proof (cases "tr_to_ws t = ''''")
    case True
    then show ?thesis using assms(1) pos ab
      by (cases "resolve_wallet n (tr_to t)") (auto simp: transfer_tx_def t0_def receiver_ws_def)
  next
    case False
    then show ?thesis by (simp add: t0_def receiver_ws_def)
  qed
  with assms(1) pos ab obtain same where wall: "check_money_wall (dl_db n) (tr_from_ws t0) (tr_to_ws t0) = Inr ()"
    and sides: "transfer_sides dk (dl_db n) t0 = Inr same"
    and r: "(case transfer_class t0 same of (key, class) \<Rightarrow>
       make_transfer dk cx n (t0\<lparr>tr_class := class, tr_id := (if tr_id t0 = '''' then new_id else tr_id t0)\<rparr>) key judged) =
       Inr (n', t')"
    by (auto simp: transfer_tx_def)
  have same: "same = same_owner (dl_db n) t"
    using transfer_sides_InrD(2) [OF sides] by (simp add: same_owner_def owners_of_def t0_def)
  have tc: "transfer_class t0 same = (transfer_key n t, tr_class t1)"
    by (simp add: transfer_class_def t0_def same transfer_key_def t1_def split: option.split)
  have "t0\<lparr>tr_class := tr_class t1, tr_id := (if tr_id t0 = '''' then new_id else tr_id t0)\<rparr> = t1"
    by (simp add: t0_def t1_def filled_def)
  with r have r: "make_transfer dk cx n t1 (transfer_key n t) judged = Inr (n', t')" by (simp add: tc)
  have bal: "tr_amount t \<le> account_balance (dl_db n) (tr_from_ws t) (AgentAcc (tr_from t))"
    using r by (auto simp: make_transfer_def Let_def t1_def split: if_splits)
  obtain d1 d2 t2 where e: "(if judged
        then enforce_agent_rules (dk_store dk) cx (dl_db n) (tr_from_ws t1) (tr_from t1) (tr_amount t1) (tr_id t1)
        else Inr (dl_db n)) = Inr d1"
    and m: "move_credits (dk_store dk) cx (dl_gates n) d1 (transfer_key n t) t1 = Inr (d2, t2)"
    and p: "rbind (post_across cx d2 PkTransfer (tr_id t2)
        [(tr_from_ws t2, AgentAcc (tr_from t2), - tr_amount t2), (tr_to_ws t2, AgentAcc (tr_to t2), tr_amount t2)])
        (\<lambda>(d, entry). record_transfer cx (n\<lparr>dl_db := d\<rparr>) (t2\<lparr>tr_entry := entry\<rparr>)) = Inr (n', t')"
  proof -
    have "\<not> account_balance (dl_db n) (tr_from_ws t1) (AgentAcc (tr_from t1)) < tr_amount t1"
      using bal by (simp add: t1_def)
    note r [unfolded make_transfer_def Let_def if_not_P [OF this]]
    then obtain d1 where e: "(if judged
        then enforce_agent_rules (dk_store dk) cx (dl_db n) (tr_from_ws t1) (tr_from t1) (tr_amount t1) (tr_id t1)
        else Inr (dl_db n)) = Inr d1"
      and q: "rbind (move_credits (dk_store dk) cx (dl_gates n) d1 (transfer_key n t) t1) (\<lambda>(d, t).
        rbind (post_across cx d PkTransfer (tr_id t)
            [(tr_from_ws t, AgentAcc (tr_from t), - tr_amount t), (tr_to_ws t, AgentAcc (tr_to t), tr_amount t)])
          (\<lambda>(d, entry). record_transfer cx (n\<lparr>dl_db := d\<rparr>) (t\<lparr>tr_entry := entry\<rparr>))) = Inr (n', t')"
      by (rule rbind_InrE)
    from q obtain y where y: "move_credits (dk_store dk) cx (dl_gates n) d1 (transfer_key n t) t1 = Inr y"
      "(case y of (d, t) \<Rightarrow> rbind (post_across cx d PkTransfer (tr_id t)
            [(tr_from_ws t, AgentAcc (tr_from t), - tr_amount t), (tr_to_ws t, AgentAcc (tr_to t), tr_amount t)])
          (\<lambda>(d, entry). record_transfer cx (n\<lparr>dl_db := d\<rparr>) (t\<lparr>tr_entry := entry\<rparr>))) = Inr (n', t')"
      by (rule rbind_InrE)
    obtain d2 t2 where "y = (d2, t2)" by (cases y)
    with y show ?thesis by (intro that [OF e]) simp_all
  qed
  have t2: "t2 = t1\<lparr>tr_test := tr_test t2\<rparr>"
    using m by (auto simp: move_credits_def Let_def split: if_splits)
  have f: "tr_id t2 = tr_id t1" "tr_from t2 = tr_from t1" "tr_to t2 = tr_to t1" "tr_amount t2 = tr_amount t"
    "tr_from_ws t2 = tr_from_ws t" "tr_to_ws t2 = receiver_ws n t" "tr_class t2 = tr_class t1"
    "tr_refund_of t2 = tr_refund_of t"
    by (subst t2, simp add: t1_def)+
  have "record_transfer cx (n\<lparr>dl_db := across_db cx d2 PkTransfer (tr_id t1) (transfer_legs t1)\<rparr>)
      (t2\<lparr>tr_entry := next_entry d2\<rparr>) = Inr (n', t')"
    using p pos by (simp add: post_across_eq f transfer_legs_def t1_def)
  note R = record_transfer_InrD [OF this]
  show thesis
  proof (rule that [OF pos ab _ _ bal _ m])
    show "check_money_wall (dl_db n) (tr_from_ws t) (receiver_ws n t) = Inr ()" using wall by (simp add: t0_def)
    show "sides_ok dk (dl_db n) t1"
      using transfer_sides_InrD(1) [OF sides] by (simp add: sides_ok_def owners_of_def t0_def t1_def)
    show "if judged then enforce_agent_rules (dk_store dk) cx (dl_db n) (tr_from_ws t) (tr_from t) (tr_amount t) (tr_id t1) = Inr d1
       else d1 = dl_db n"
      using e by (simp add: t1_def split: if_splits)
    show "t' = t2\<lparr>tr_entry := next_entry d2, tr_at := cx_now cx\<rparr>" using R by simp
    show "n' = n\<lparr>dl_db := across_db cx d2 PkTransfer (tr_id t1) (transfer_legs t1),
      dl_transfers := dl_transfers n @ [t'\<lparr>tr_capability := ''''\<rparr>]\<rparr>" using R by simp
    show "tr_id t1 \<notin> tr_id ` set (dl_transfers n)" "tr_class t1 \<noteq> Red" using R by (simp_all add: f)
    show "tr_refund_of t \<noteq> '''' \<longrightarrow> \<not> refunded n (tr_refund_of t)" using R by (simp add: f refunded_def)
    show "t2 = t1\<lparr>tr_test := tr_test t2\<rparr>" by (rule t2)
  qed
qed

subsection \<open>The money of a transfer\<close>

lemma move_credits_slack:
  assumes b: "books_slack k d" and m: "move_credits s cx g d key t = Inr (d', t')" and pos: "0 < tr_amount t"
  shows "books_slack (\<lambda>v. k v - (bal_of d' v - bal_of d v)) d'"
proof -
  note M = move_credits_InrD [OF m pos slackD(7) [OF b]]
  have r: "rows_only d d'" by (rule M(1))
  then have "holds_ok d'" using slackD(1) [OF b] by (simp add: rows_only_def holds_ok_cong [of d' d])
  then show ?thesis
    using r M(6,7) slackD(6) [OF b] by (intro slack_wallet [OF b]) (simp_all add: rows_only_def)
qed

lemma filled_legs: "transfer_legs (filled n t i) =
   [(tr_from_ws t, AgentAcc (tr_from t), - tr_amount t), (receiver_ws n t, AgentAcc (tr_to t), tr_amount t)]"
  by (simp add: transfer_legs_def)

lemma filled_same_owner: "same_owner d (filled n t i) = same_owner d t"
  by (simp add: same_owner_def owners_of_def)

text \<open>
  Every quantity of the wallet after a transfer. \<open>shift\<close> is what a workspace's own balance moves
  by: nothing when both agents are its own.
\<close>

definition shift :: "string \<Rightarrow> string \<Rightarrow> int \<Rightarrow> string \<Rightarrow> int" where
  "shift from to x v = (if v = to then x else 0) - (if v = from then x else 0)"

lemma shift_same [simp]: "shift w w x v = 0"
  by (simp add: shift_def)

lemma transfer_moves:
  assumes r: "transfer_tx dk cx n t judged new_id = Inr (n', t')" and b: "books (dl_db n)"
  shows "books (dl_db n')"
    and "account_balance (dl_db n') v a = account_balance (dl_db n) v a +
      (if v = receiver_ws n t \<and> a = AgentAcc (tr_to t) then tr_amount t else 0) -
      (if v = tr_from_ws t \<and> a = AgentAcc (tr_from t) then tr_amount t else 0)"
    and "bal_of (dl_db n') v = bal_of (dl_db n) v + shift (tr_from_ws t) (receiver_ws n t) (tr_amount t) v"
    and "cash_of (dl_db n') v = cash_of (dl_db n) v" and "held_sum (dl_db n') v = held_sum (dl_db n) v"
    and "all_credits (dl_db n') = all_credits (dl_db n)"
proof -
  from r obtain d1 d2 t2 where pos: "0 < tr_amount t" and ab: "tr_from t \<noteq> tr_to t"
    and bal: "tr_amount t \<le> account_balance (dl_db n) (tr_from_ws t) (AgentAcc (tr_from t))"
    and e: "if judged then enforce_agent_rules (dk_store dk) cx (dl_db n) (tr_from_ws t) (tr_from t) (tr_amount t)
        (tr_id (filled n t new_id)) = Inr d1 else d1 = dl_db n"
    and m: "move_credits (dk_store dk) cx (dl_gates n) d1 (transfer_key n t) (filled n t new_id) = Inr (d2, t2)"
    and n': "n' = n\<lparr>dl_db := across_db cx d2 PkTransfer (tr_id (filled n t new_id)) (transfer_legs (filled n t new_id)),
      dl_transfers := dl_transfers n @ [t'\<lparr>tr_capability := ''''\<rparr>]\<rparr>"
    by (rule transfer_tx_InrD)
  have q: "same_money (dl_db n) d1" using e by (cases judged) (auto dest: enforce_quiet simp: rules_quiet_def)
  have s1: "books_slack (\<lambda>_. 0) d1" using q b by (simp add: books_slack_0 slack_same_money)
  have pos': "0 < tr_amount (filled n t new_id)" using pos by simp
  note M = move_credits_InrD [OF m pos' slackD(7) [OF s1]]
  have d2: "bal_of d2 v = bal_of (dl_db n) v + shift (tr_from_ws t) (receiver_ws n t) (tr_amount t) v" for v
    using M(5) same_money_views(1) [OF q] by (simp add: shift_def)
  have acc: "account_balance d2 v a = account_balance (dl_db n) v a" for v a
    using M(1) same_money_views(7) [OF q] by (simp add: rows_only_def account_balance_def)
  have nn: "0 \<le> account_balance d2 v a + across_on v a (transfer_legs (filled n t new_id))" if "is_allocated a" for v a
  proof -
    have "0 \<le> account_balance (dl_db n) v a"
      using b that by (auto simp: books_slack_0 accounts_ok_iff dest: slackD(3))
    then show ?thesis using bal pos ab by (auto simp: acc filled_legs)
  qed
  have "books_slack (\<lambda>v. 0 - (bal_of d2 v - bal_of d1 v) + across_allocated v (transfer_legs (filled n t new_id))) (dl_db n')"
    using slack_across [OF move_credits_slack [OF s1 m pos'] _ nn] by (simp add: n' filled_legs)
  then show "books (dl_db n')"
    by (rule slack_books) (use d2 same_money_views(1) [OF q] in \<open>simp add: shift_def filled_legs\<close>)
  show "account_balance (dl_db n') v a = account_balance (dl_db n) v a +
      (if v = receiver_ws n t \<and> a = AgentAcc (tr_to t) then tr_amount t else 0) -
      (if v = tr_from_ws t \<and> a = AgentAcc (tr_from t) then tr_amount t else 0)"
    unfolding n' by (auto simp: view_simps acc filled_legs kept_account_def)
  show "bal_of (dl_db n') v = bal_of (dl_db n) v + shift (tr_from_ws t) (receiver_ws n t) (tr_amount t) v"
    by (simp add: n' view_simps d2)
  show "cash_of (dl_db n') v = cash_of (dl_db n) v"
    using M(1) same_money_views(2) [OF q] by (simp add: n' view_simps rows_only_def)
  show "held_sum (dl_db n') v = held_sum (dl_db n) v"
    using rows_only_held [OF M(1)] same_money_views(4) [OF q] by (simp add: n' view_simps)
  show "all_credits (dl_db n') = all_credits (dl_db n)"
    using M(8) all_credits_same [OF q] by (simp add: n')
qed

subsection \<open>What a transfer leaves on record, and what it may move\<close>

text \<open>The row of a successful transfer, and the tables it leaves alone.\<close>

lemma transfer_row:
  assumes r: "transfer_tx dk cx n t judged new_id = Inr (n', t')"
  shows "dl_transfers n' = dl_transfers n @ [t'\<lparr>tr_capability := ''''\<rparr>]"
    and "n' = n\<lparr>dl_db := dl_db n', dl_transfers := dl_transfers n'\<rparr>"
    and "tr_id t' = (if tr_id t = '''' then new_id else tr_id t)" and "tr_id t' \<notin> tr_id ` set (dl_transfers n)"
    and "tr_from_ws t' = tr_from_ws t" and "tr_from t' = tr_from t" and "tr_to_ws t' = receiver_ws n t"
    and "tr_to t' = tr_to t" and "tr_amount t' = tr_amount t" and "tr_memo t' = tr_memo t"
    and "tr_refund_of t' = tr_refund_of t" and "tr_loan t' = tr_loan t"
    and "tr_class t' = snd (transfer_class t (same_owner (dl_db n) t))" and "tr_class t' \<noteq> Red"
    and "tr_at t' = cx_now cx" and "0 < tr_amount t" and "tr_from t \<noteq> tr_to t"
    and "tr_refund_of t \<noteq> '''' \<Longrightarrow> \<not> refunded n (tr_refund_of t)"
proof -
  from r obtain d1 d2 t2 where *: "0 < tr_amount t" "tr_from t \<noteq> tr_to t"
    "t' = t2\<lparr>tr_entry := next_entry d2, tr_at := cx_now cx\<rparr>"
    "n' = n\<lparr>dl_db := across_db cx d2 PkTransfer (tr_id (filled n t new_id)) (transfer_legs (filled n t new_id)),
      dl_transfers := dl_transfers n @ [t'\<lparr>tr_capability := ''''\<rparr>]\<rparr>"
    "tr_id (filled n t new_id) \<notin> tr_id ` set (dl_transfers n)" "tr_class (filled n t new_id) \<noteq> Red"
    "tr_refund_of t \<noteq> '''' \<longrightarrow> \<not> refunded n (tr_refund_of t)"
    "if judged then enforce_agent_rules (dk_store dk) cx (dl_db n) (tr_from_ws t) (tr_from t) (tr_amount t)
        (tr_id (filled n t new_id)) = Inr d1 else d1 = dl_db n"
    and t2: "t2 = (filled n t new_id)\<lparr>tr_test := tr_test t2\<rparr>"
    by (rule transfer_tx_InrD)
  have f: "tr_id t2 = tr_id (filled n t new_id)" "tr_from_ws t2 = tr_from_ws t" "tr_from t2 = tr_from t"
    "tr_to_ws t2 = receiver_ws n t" "tr_to t2 = tr_to t" "tr_amount t2 = tr_amount t" "tr_memo t2 = tr_memo t"
    "tr_refund_of t2 = tr_refund_of t" "tr_loan t2 = tr_loan t" "tr_class t2 = tr_class (filled n t new_id)"
    by (subst t2, simp)+
  show "dl_transfers n' = dl_transfers n @ [t'\<lparr>tr_capability := ''''\<rparr>]"
    "n' = n\<lparr>dl_db := dl_db n', dl_transfers := dl_transfers n'\<rparr>" by (simp_all add: *(4))
  show "tr_id t' = (if tr_id t = '''' then new_id else tr_id t)" "tr_id t' \<notin> tr_id ` set (dl_transfers n)"
    "tr_from_ws t' = tr_from_ws t" "tr_from t' = tr_from t" "tr_to_ws t' = receiver_ws n t"
    "tr_to t' = tr_to t" "tr_amount t' = tr_amount t" "tr_memo t' = tr_memo t"
    "tr_refund_of t' = tr_refund_of t" "tr_loan t' = tr_loan t"
    "tr_class t' = snd (transfer_class t (same_owner (dl_db n) t))" "tr_class t' \<noteq> Red" "tr_at t' = cx_now cx"
    using *(5,6) by (simp_all add: *(3) f)
  show "0 < tr_amount t" "tr_from t \<noteq> tr_to t" by (rule *)+
  show "tr_refund_of t \<noteq> '''' \<Longrightarrow> \<not> refunded n (tr_refund_of t)" using *(7) by blast
qed

text \<open>
  What the period limits count of an agent's spending is the same after a transfer: it counts
  spends, holds, cards, fees and payments inside the workspace, and no posting of kind
  \<open>transfer\<close>.
\<close>

lemma spent_across:
  "kind \<noteq> PkPay \<Longrightarrow> \<not> spend_leg_kind kind \<Longrightarrow>
    agent_spent_since (across_db cx d kind ref ls) v a since = agent_spent_since d v a since"
proof -
  assume k: "kind \<noteq> PkPay" "\<not> spend_leg_kind kind"
  have "sum_where (\<lambda>p. po_ws p = v \<and> po_account p = AgentAcc a \<and> po_at p \<ge> since \<and> spend_posting p) po_amount
      (map (across_posting cx e kind ref) ls) = 0" for e
    using k by (intro sum_where_none) (auto simp: across_posting_def leg_posting_def spend_posting_def)
  then show ?thesis by (simp add: agent_spent_since_def across_db_def)
qed

lemma spend_for_capability_payees:
  assumes "spend_for_capability s cx g d w key x = Inr (d1, t)" "0 < x" "0 \<le> test_of d w"
  shows "payee_payments d1 = payee_payments d"
  using spend_for_capability_InrD [OF assms] by (metis set_test_frame(18))

lemma move_credits_payees:
  assumes m: "move_credits s cx g d key t = Inr (d', t')" and pos: "0 < tr_amount t"
    and tn: "\<And>v. 0 \<le> test_of d v"
  shows "payee_payments d' = payee_payments d"
proof -
  let ?D = "read_rows d (tr_from_ws t) (tr_to_ws t)"
  have D: "payee_payments ?D = payee_payments d" "0 \<le> test_of ?D (tr_from_ws t)"
    using tn by (auto simp: read_rows_def view_simps)
  obtain d1 t0 where s: "spend_for_capability s cx g ?D (tr_from_ws t) key (tr_amount t) = Inr (d1, t0)"
    and d': "payee_payments d' = payee_payments d1"
    using m by (auto simp: move_credits_def Let_def move_lxc_def shift_balance_eq split: if_splits)
  show ?thesis using d' spend_for_capability_payees [OF s pos D(2)] D(1) by simp
qed

lemma transfer_not_counted:
  assumes r: "transfer_tx dk cx n t judged new_id = Inr (n', t')" and tn: "\<And>v. 0 \<le> test_of (dl_db n) v"
    and i: "\<not> has_prefix (tr_id t') ''invoice_agent:''"
  shows "agent_spent_since (dl_db n') v a since = agent_spent_since (dl_db n) v a since"
proof -
  from r obtain d1 d2 t2 where pos: "0 < tr_amount t"
    and e: "if judged then enforce_agent_rules (dk_store dk) cx (dl_db n) (tr_from_ws t) (tr_from t) (tr_amount t)
        (tr_id (filled n t new_id)) = Inr d1 else d1 = dl_db n"
    and m: "move_credits (dk_store dk) cx (dl_gates n) d1 (transfer_key n t) (filled n t new_id) = Inr (d2, t2)"
    and n': "n' = n\<lparr>dl_db := across_db cx d2 PkTransfer (tr_id (filled n t new_id)) (transfer_legs (filled n t new_id)),
      dl_transfers := dl_transfers n @ [t'\<lparr>tr_capability := ''''\<rparr>]\<rparr>"
    by (rule transfer_tx_InrD)
  have id: "tr_id (filled n t new_id) = tr_id t'" by (simp add: transfer_row(3) [OF r])
  note e = e [unfolded id]
  have "agent_spent_since d1 v a since = agent_spent_since (dl_db n) v a since"
  proof (cases judged)
    case True
    with e have "enforce_agent_rules (dk_store dk) cx (dl_db n) (tr_from_ws t) (tr_from t) (tr_amount t) (tr_id t') = Inr d1"
      by simp
    then show ?thesis using i by (rule spent_quiet)
  next
    case False
    with e show ?thesis by simp
  qed
  moreover have "rules_quiet (dl_db n) d1" using e by (auto dest: enforce_quiet split: if_splits)
  ultimately have q: "rules_quiet (dl_db n) d1" "agent_spent_since d1 v a since = agent_spent_since (dl_db n) v a since"
    by simp_all
  have tn1: "\<And>v. 0 \<le> test_of d1 v" and pos': "0 < tr_amount (filled n t new_id)"
    using tn pos same_money_views(3) [OF quiet_money [OF q(1)]] by simp_all
  have "agent_spent_since d2 v a since = agent_spent_since d1 v a since"
    using move_credits_InrD(1) [OF m pos' tn1] move_credits_payees [OF m pos' tn1]
    by (simp add: agent_spent_since_def rows_only_def)
  then show ?thesis using q(2) by (simp add: n' spent_across spend_leg_kind_def)
qed

lemma takes_live_quiet: "rules_quiet d d' \<Longrightarrow> takes_live s cx g d' w c = takes_live s cx g d w c"
  using plan_row_cong [of d' d w] by (simp add: rules_quiet_def takes_live_def)

text \<open>
  What a transfer may move: its capability is on the list and in use by the sender; credits that
  are not all test-funded leave a real workspace only live; and neither a frozen workspace nor the
  other side of the wall between test and real money is reached.
\<close>

lemma transfer_gated:
  assumes r: "transfer_tx dk cx n t judged new_id = Inr (n', t')" and tn: "\<And>v. 0 \<le> test_of (dl_db n) v"
  shows "\<exists>c. capability_by_key (transfer_key n t) = Some c \<and> may_use (dl_gates n) (tr_from_ws t) c \<and>
      (takes_live (dk_store dk) cx (dl_gates n) (dl_db n) (tr_from_ws t) c \<or>
       test_workspace (dl_db n) (tr_from_ws t) \<or> tr_test t' = tr_amount t) \<and>
      (receiver_ws n t \<noteq> tr_from_ws t \<longrightarrow>
        freezes (dl_gates n) (tr_from_ws t) = None \<and> freezes (dl_gates n) (receiver_ws n t) = None)"
    and "0 \<le> tr_test t'" and "tr_test t' \<le> tr_amount t"
    and "test_workspace (dl_db n) (receiver_ws n t) = test_workspace (dl_db n) (tr_from_ws t)"
    and "judged \<Longrightarrow> \<exists>d. enforce_agent_rules (dk_store dk) cx (dl_db n) (tr_from_ws t) (tr_from t) (tr_amount t) (tr_id t') = Inr d"
    and "sides_ok dk (dl_db n) (filled n t new_id)"
    and "tr_amount t \<le> account_balance (dl_db n) (tr_from_ws t) (AgentAcc (tr_from t))"
proof -
  from r obtain d1 d2 t2 where pos: "0 < tr_amount t"
    and wall: "check_money_wall (dl_db n) (tr_from_ws t) (receiver_ws n t) = Inr ()"
    and side: "sides_ok dk (dl_db n) (filled n t new_id)"
    and bal: "tr_amount t \<le> account_balance (dl_db n) (tr_from_ws t) (AgentAcc (tr_from t))"
    and e: "if judged then enforce_agent_rules (dk_store dk) cx (dl_db n) (tr_from_ws t) (tr_from t) (tr_amount t)
        (tr_id (filled n t new_id)) = Inr d1 else d1 = dl_db n"
    and m: "move_credits (dk_store dk) cx (dl_gates n) d1 (transfer_key n t) (filled n t new_id) = Inr (d2, t2)"
    and t': "t' = t2\<lparr>tr_entry := next_entry d2, tr_at := cx_now cx\<rparr>"
    by (rule transfer_tx_InrD)
  have q: "rules_quiet (dl_db n) d1" using e by (cases judged) (auto dest: enforce_quiet)
  have "0 < tr_amount (filled n t new_id)" "\<And>v. 0 \<le> test_of d1 v"
    using pos tn same_money_views(3) [OF quiet_money [OF q]] by simp_all
  note M = move_credits_InrD [OF m this]
  show "\<exists>c. capability_by_key (transfer_key n t) = Some c \<and> may_use (dl_gates n) (tr_from_ws t) c \<and>
      (takes_live (dk_store dk) cx (dl_gates n) (dl_db n) (tr_from_ws t) c \<or>
       test_workspace (dl_db n) (tr_from_ws t) \<or> tr_test t' = tr_amount t) \<and>
      (receiver_ws n t \<noteq> tr_from_ws t \<longrightarrow>
        freezes (dl_gates n) (tr_from_ws t) = None \<and> freezes (dl_gates n) (receiver_ws n t) = None)"
    using M(9) test_workspace_rows [OF rows_only_quiet [OF q]] takes_live_quiet [OF q] by (simp add: t')
  show "0 \<le> tr_test t'" "tr_test t' \<le> tr_amount t" using M(3,4) by (simp_all add: t')
  show "test_workspace (dl_db n) (receiver_ws n t) = test_workspace (dl_db n) (tr_from_ws t)"
    using wall by (simp add: check_money_wall_def split: if_splits)
  show "judged \<Longrightarrow> \<exists>d. enforce_agent_rules (dk_store dk) cx (dl_db n) (tr_from_ws t) (tr_from t) (tr_amount t) (tr_id t') = Inr d"
    using e by (auto simp: transfer_row(3) [OF r])
  show "sides_ok dk (dl_db n) (filled n t new_id)" by (rule side)
  show "tr_amount t \<le> account_balance (dl_db n) (tr_from_ws t) (AgentAcc (tr_from t))" by (rule bal)
qed
subsection \<open>Giving a transfer back\<close>

lemma refused_deal_InrD: "refused_deal cx n ap r = (n', Inr x) \<Longrightarrow> r = Inr (n', x)"
  by (auto simp: refused_deal_def split: sum.splits err.splits prod.splits)

lemma run_transfer_InrD: "run_transfer dk cx n t judged i ap = (n', Inr t') \<Longrightarrow> transfer_tx dk cx n t judged i = Inr (n', t')"
  unfolding run_transfer_def by (rule refused_deal_InrD)

lemma refund_transfer_InrD:
  assumes "refund_transfer dk cx n w i new_id ap = (n', Inr t')"
  obtains t where "refundable_row n w i = Some t" and "\<not> refunded n i"
    and "transfer_tx dk cx n (refund_of t) False new_id = Inr (n', t')"
  using assms by (auto simp: refund_transfer_def split: option.splits if_splits dest: run_transfer_InrD)

lemma refundable_rowD:
  "refundable_row n w i = Some t \<Longrightarrow> t \<in> set (dl_transfers n) \<and> tr_id t = i \<and> tr_to_ws t = w \<and>
     tr_refund_of t = '''' \<and> tr_loan t = ''''"
  by (auto simp: refundable_row_def find_Some_iff)

lemma refund_of_simps [simp]:
  "tr_from_ws (refund_of t) = tr_to_ws t" "tr_from (refund_of t) = tr_to t" "tr_to_ws (refund_of t) = tr_from_ws t"
  "tr_to (refund_of t) = tr_from t" "tr_amount (refund_of t) = tr_amount t" "tr_refund_of (refund_of t) = tr_id t"
  "tr_loan (refund_of t) = ''''" "tr_id (refund_of t) = ''''"
  by (simp_all add: refund_of_def new_transfer_def)

lemma refund_recorded:
  assumes "refund_transfer dk cx n w i new_id ap = (n', Inr t')" and "i \<noteq> ''''"
  shows "\<not> refunded n i" and "refunded n' i"
proof -
  obtain t where t: "refundable_row n w i = Some t" "\<not> refunded n i"
    "transfer_tx dk cx n (refund_of t) False new_id = Inr (n', t')"
    using assms(1) by (rule refund_transfer_InrD)
  show "\<not> refunded n i" by (rule t)
  show "refunded n' i"
    using transfer_row(1,11) [OF t(3)] refundable_rowD [OF t(1)] by (simp add: refunded_def)
qed

lemma refunded_refuses:
  "refunded n i \<Longrightarrow> refund_transfer dk cx n w i new_id ap =
     (n, Inl (if refundable_row n w i = None then ErrTransferNotFound else ErrAlreadyRefunded))"
  by (auto simp: refund_transfer_def split: option.split)

lemma find_snoc: "(\<And>x. x \<in> set xs \<Longrightarrow> \<not> p x) \<Longrightarrow> p y \<Longrightarrow> find p (xs @ [y]) = Some y"
  by (induction xs) auto

text \<open>The transfer just made is the one its id finds, when its receiver may give it back.\<close>

lemma refundable_new:
  assumes "transfer_tx dk cx n t judged new_id = Inr (n', t')" "tr_refund_of t = ''''" "tr_loan t = ''''"
  shows "refundable_row n' (tr_to_ws t') (tr_id t') = Some (t'\<lparr>tr_capability := ''''\<rparr>)"
  unfolding refundable_row_def transfer_row(1) [OF assms(1)]
  using transfer_row(4,11,12) [OF assms(1)] assms(2,3) by (intro find_snoc) (auto intro: rev_image_eqI)

lemma refund_undoes:
  assumes r: "transfer_tx dk cx n t judged new_id = Inr (n1, t1)" "tr_refund_of t = ''''" "tr_loan t = ''''"
      "tr_from_ws t \<noteq> ''''"
    and f: "refund_transfer dk cx' n1 (tr_to_ws t1) (tr_id t1) new_id' ap = (n2, Inr t2)"
    and b: "books (dl_db n)"
  shows "books (dl_db n2)" and "account_balance (dl_db n2) v a = account_balance (dl_db n) v a"
    and "bal_of (dl_db n2) v = bal_of (dl_db n) v" and "cash_of (dl_db n2) v = cash_of (dl_db n) v"
proof -
  let ?t = "t1\<lparr>tr_capability := ''''\<rparr>"
  have x: "transfer_tx dk cx' n1 (refund_of ?t) False new_id' = Inr (n2, t2)"
    using refund_transfer_InrD [OF f] refundable_new [OF r(1-3)] by (metis option.inject)
  note A = transfer_moves [OF r(1) b] and R = transfer_row [OF r(1)]
  note B = transfer_moves [OF x A(1)]
  have ws: "receiver_ws n1 (refund_of ?t) = tr_from_ws t" using r(4) R(5) by (simp add: receiver_ws_def)
  show "books (dl_db n2)" by (rule B(1))
  show "account_balance (dl_db n2) v a = account_balance (dl_db n) v a"
    using A(2) [of v a] B(2) [of v a] ws R(6-9) by simp
  show "bal_of (dl_db n2) v = bal_of (dl_db n) v"
    using A(3) [of v] B(3) [of v] ws R(6-9) by (simp add: shift_def)
  show "cash_of (dl_db n2) v = cash_of (dl_db n) v" using A(4) B(4) by simp
qed

end
