(* ===== verification/Tick_Runs.thy ===== *)
theory Tick_Runs
  imports Prelude
begin

section \<open>Runs of a minute's tick\<close>

text \<open>
  The schedules, the escrow deadlines and the loan repayments are run by the same loop: the earliest
  thing due is settled in a transaction of its own, again and again, until nothing is due, one of
  them fails, or the run has done \<open>maxTicksPerRun\<close> of them. \<open>run_ticks\<close> is that loop; the locale
  \<open>tick_runner\<close> is what a tick promises of it, and what a run then does.
\<close>

definition max_ticks_per_run :: nat where
  "max_ticks_per_run = 1000"

fun run_ticks :: "('s \<Rightarrow> 's \<times> ('e + 'o option)) \<Rightarrow> nat \<Rightarrow> 's \<Rightarrow> 's \<times> 'o list \<times> 'e option" where
  "run_ticks tick 0 s = (s, [], None)"
| "run_ticks tick (Suc k) s =
     (case tick s of
        (s, Inl e) \<Rightarrow> (s, [], Some e)
      | (s, Inr None) \<Rightarrow> (s, [], None)
      | (s, Inr (Some x)) \<Rightarrow> (case run_ticks tick k s of (s, xs, e) \<Rightarrow> (s, x # xs, e)))"

lemma run_ticks_fine:
  "(\<And>s s' e. tick s \<noteq> (s', Inl e)) \<Longrightarrow> run_ticks tick k s = (s', xs, e) \<Longrightarrow> e = None"
proof (induction k arbitrary: s xs)
  case (Suc k)
  then show ?case by (auto split: prod.splits sum.splits option.splits)
qed simp

locale tick_runner =
  fixes tick :: "'s \<Rightarrow> 's \<times> ('e + 'o option)"
    and due :: "'s \<Rightarrow> nat"
    and ok :: "'s \<Rightarrow> bool"
  assumes settles: "ok s \<Longrightarrow> tick s = (s', Inr (Some x)) \<Longrightarrow> due s' < due s \<and> ok s'"
    and idle: "ok s \<Longrightarrow> tick s = (s', Inr None) \<Longrightarrow> due s = 0 \<and> s' = s"
    and failed: "ok s \<Longrightarrow> tick s = (s', Inl e) \<Longrightarrow> due s' = due s \<and> ok s'"
begin

text \<open>A run that does not fail, and has ticks enough for what is due, leaves nothing due.\<close>

lemma run_finishes:
  "ok s \<Longrightarrow> due s \<le> k \<Longrightarrow> run_ticks tick k s = (s', xs, None) \<Longrightarrow> due s' = 0 \<and> ok s'"
proof (induction k arbitrary: s xs)
  case (Suc k)
  show ?case
  proof (cases "tick s")
    case (Pair s1 r)
    show ?thesis
    proof (cases r)
      case (Inl e)
      with Pair Suc.prems(3) show ?thesis by simp
    next
      case (Inr x)
      show ?thesis
      proof (cases x)
        case None
        with Pair Inr Suc.prems idle show ?thesis by auto
      next
        case (Some y)
        with Pair Inr have t: "due s1 < due s" "ok s1" using settles Suc.prems(1) by auto
        obtain ys where "run_ticks tick k s1 = (s', ys, None)"
          using Suc.prems(3) Pair Inr Some by (auto split: prod.splits)
        then show ?thesis using Suc.IH [of s1 ys] t Suc.prems(2) by simp
      qed
    qed
  qed
qed simp

text \<open>A run settles one thing due with each of its ticks, and never more than it was given.\<close>

lemma run_bounded:
  "ok s \<Longrightarrow> run_ticks tick k s = (s', xs, e) \<Longrightarrow> length xs \<le> k \<and> length xs + due s' \<le> due s \<and> ok s'"
proof (induction k arbitrary: s xs)
  case (Suc k)
  show ?case
  proof (cases "tick s")
    case (Pair s1 r)
    show ?thesis
    proof (cases r)
      case (Inl e)
      with Pair Suc.prems show ?thesis using failed by auto
    next
      case (Inr x)
      show ?thesis
      proof (cases x)
        case None
        with Pair Inr Suc.prems show ?thesis using idle by auto
      next
        case (Some y)
        with Pair Inr have t: "due s1 < due s" "ok s1" using settles Suc.prems(1) by auto
        obtain ys where ys: "run_ticks tick k s1 = (s', ys, e)" "xs = y # ys"
          using Suc.prems(2) Pair Inr Some by (auto split: prod.splits)
        then show ?thesis using Suc.IH [OF t(2) ys(1)] t by auto
      qed
    qed
  qed
qed auto

end

end
