(* ===== verification/Agent_Escrows.thy ===== *)
theory Agent_Escrows
  imports Agent_Transfers Tick_Runs
begin

section \<open>Escrow between agents (agent_escrows.go)\<close>

text \<open>
  \<open>pay_into_escrow\<close> takes credits from an agent and its workspace and holds them on the account of
  the escrow; \<open>settle_escrow_tx\<close> moves them on, to the payee (\<open>confirm_escrow\<close>,
  \<open>run_escrow_deadline\<close>, a decision to release) or back to the payer (a decision to return).
  The second part shows what is in escrow at any time and that each escrow is settled once.
\<close>

subsection \<open>Reading\<close>

definition find_escrow :: "deals \<Rightarrow> string \<Rightarrow> escrow option" where
  "find_escrow n i = find (\<lambda>e. es_id e = i) (dl_escrows n)"

definition escrow_events :: "deals \<Rightarrow> string \<Rightarrow> escrow_event list" where
  "escrow_events n i = filter (\<lambda>e. ev_escrow e = i) (dl_escrow_events n)"

definition with_events :: "deals \<Rightarrow> escrow \<Rightarrow> escrow \<times> escrow_event list" where
  "with_events n e = (e, escrow_events n (es_id e))"

definition get_escrow :: "deals \<Rightarrow> string \<Rightarrow> string \<Rightarrow> err + escrow \<times> escrow_event list" where
  "get_escrow n w i =
     (case find (\<lambda>e. es_id e = i \<and> (es_payer_ws e = w \<or> es_payee_ws e = w)) (dl_escrows n) of
        None \<Rightarrow> Inl ErrEscrowNotFound
      | Some e \<Rightarrow> Inr (with_events n e))"

definition list_escrows :: "deals \<Rightarrow> string \<Rightarrow> (escrow \<times> escrow_event list) list" where
  "list_escrows n w = map (with_events n) (sort_key (\<lambda>e. (- es_at e, es_id e))
     (filter (\<lambda>e. es_payer_ws e = w \<or> es_payee_ws e = w) (dl_escrows n)))"

definition list_disputed_escrows :: "deals \<Rightarrow> (escrow \<times> escrow_event list) list" where
  "list_disputed_escrows n = rev (map (with_events n) (sort_key (\<lambda>e. (- es_at e, es_id e))
     (filter (\<lambda>e. es_status e = EsDisputed) (dl_escrows n))))"

subsection \<open>Paying in\<close>

definition escrow_event :: "ctx \<Rightarrow> deals \<Rightarrow> string \<Rightarrow> escrow_status \<Rightarrow> escrow_actor \<Rightarrow> string \<Rightarrow> string \<Rightarrow> nat option \<Rightarrow> deals" where
  "escrow_event cx n i kind actor operator detail entry =
     n\<lparr>dl_escrow_events := dl_escrow_events n @ [\<lparr>ev_escrow = i, ev_kind = kind, ev_actor = actor,
       ev_operator = operator, ev_detail = detail, ev_entry = entry, ev_at = cx_now cx\<rparr>]\<rparr>"

definition move_escrow_lxc :: "ctx \<Rightarrow> db \<Rightarrow> string \<Rightarrow> int \<Rightarrow> escrow \<Rightarrow> string \<Rightarrow> db" where
  "move_escrow_lxc cx d w delta e desc =
     shift_balance cx d w delta LxcEscrow desc
       [''escrow_id'' \<mapsto> MStr (es_id e), ''payer_agent_id'' \<mapsto> MStr (es_payer e),
        ''payee_agent_id'' \<mapsto> MStr (es_payee e), ''class'' \<mapsto> MStr (class_name (es_class e))]"

text \<open>Each side is locked and its owner verified, in the order of the agents' ids.\<close>

definition escrow_sides :: "desk \<Rightarrow> db \<Rightarrow> escrow \<Rightarrow> err + bool" where
  "escrow_sides dk d e =
     (let payer = (es_payer_ws e, es_payer e); payee = (es_payee_ws e, es_payee e);
          x = (if es_payee e < es_payer e then payee else payer);
          y = (if es_payee e < es_payer e then payer else payee)
      in rbind (lock_agent d (fst x) (snd x)) (\<lambda>_.
         rbind (owner_verified dk d (fst x) (snd x)) (\<lambda>a.
         rbind (lock_agent d (fst y) (snd y)) (\<lambda>_.
         rbind (owner_verified dk d (fst y) (snd y)) (\<lambda>b. Inr (a = b))))))"

definition escrow_capability :: "bool \<Rightarrow> string" where
  "escrow_capability one_owner = (if one_owner then ''move_between_own_agents'' else ''escrow'')"

definition class_of_key :: "string \<Rightarrow> cap_class" where
  "class_of_key key = (case capability_by_key key of Some c \<Rightarrow> cp_class c | None \<Rightarrow> Green)"

text \<open>The credits leave the payer's workspace, as far as they can test-funded first.\<close>

definition hold_credits ::
    "store \<Rightarrow> ctx \<Rightarrow> gate_db \<Rightarrow> db \<Rightarrow> string \<Rightarrow> escrow \<Rightarrow> err + db \<times> escrow" where
  "hold_credits s cx g d key e =
     (let w = es_payer_ws e; d = ensure_lxc_row d w; had = test_funded_ulxc d w
      in rbind (spend_for_capability s cx g d w key (es_amount e)) (\<lambda>(d, _).
           let d = move_escrow_lxc cx d w (- es_amount e) e ''credits paid into escrow''
           in Inr (d, e\<lparr>es_test := max (had - test_funded_ulxc d w) 0\<rparr>)))"

definition record_escrow :: "ctx \<Rightarrow> deals \<Rightarrow> escrow \<Rightarrow> nat \<Rightarrow> err + deals \<times> escrow" where
  "record_escrow cx n e entry =
     (if list_ex (\<lambda>r. es_id r = es_id e) (dl_escrows n) then Inl (ErrDbCheck ''agent_escrows_pkey'')
      else Inr (escrow_event cx (n\<lparr>dl_escrows := dl_escrows n @ [e]\<rparr>) (es_id e) EsHeld Payer '''' '''' (Some entry), e))"

text \<open>The credits held, the entry and the row, once the payment is judged.\<close>

definition hold_escrow ::
    "desk \<Rightarrow> ctx \<Rightarrow> deals \<Rightarrow> db \<Rightarrow> string \<Rightarrow> escrow \<Rightarrow> err + deals \<times> escrow" where
  "hold_escrow dk cx n d key e =
     rbind (hold_credits (dk_store dk) cx (dl_gates n) d key e) (\<lambda>(d, e).
     rbind (post_across cx d PkEscrow (es_id e)
         [(es_payer_ws e, AgentAcc (es_payer e), - es_amount e),
          (es_payer_ws e, EscrowAcc (es_id e), es_amount e)]) (\<lambda>(d, entry).
       record_escrow cx (n\<lparr>dl_db := d\<rparr>) e entry))"

definition pay_into_escrow_tx :: "desk \<Rightarrow> ctx \<Rightarrow> deals \<Rightarrow> escrow \<Rightarrow> err + deals \<times> escrow" where
  "pay_into_escrow_tx dk cx n e =
     rbind (check_money_wall (dl_db n) (es_payer_ws e) (es_payee_ws e)) (\<lambda>_.
     rbind (escrow_sides dk (dl_db n) e) (\<lambda>one_owner.
       let key = escrow_capability one_owner; e = e\<lparr>es_class := class_of_key key\<rparr>;
           bal = account_balance (dl_db n) (es_payer_ws e) (AgentAcc (es_payer e))
       in if bal < es_amount e then Inl (ErrAgentFunds bal)
          else
            rbind (enforce_agent_rules (dk_store dk) cx (dl_db n) (es_payer_ws e) (es_payer e) (es_amount e) (es_id e)) (\<lambda>d.
              hold_escrow dk cx n d key e)))"

definition new_escrow :: "ctx \<Rightarrow> string \<Rightarrow> string \<Rightarrow> string \<Rightarrow> wallet_address \<Rightarrow> int \<Rightarrow> string \<Rightarrow> int \<Rightarrow> escrow" where
  "new_escrow cx i w a payee amount memo release_at =
     \<lparr>es_id = i, es_payer_ws = w, es_payer = a, es_payee_ws = wa_ws payee, es_payee = wa_id payee,
      es_amount = amount, es_memo = memo, es_class = Green, es_test = 0, es_release_at = release_at,
      es_status = EsHeld, es_at = cx_now cx, es_decided = None\<rparr>"

definition answer_escrow :: "string \<Rightarrow> string \<Rightarrow> deals \<times> (err + 'a) \<Rightarrow> deals \<times> (err + escrow \<times> escrow_event list)" where
  "answer_escrow w i r = (case r of (n, Inl e) \<Rightarrow> (n, Inl e) | (n, Inr x) \<Rightarrow> (n, get_escrow n w i))"

definition pay_into_escrow ::
    "desk \<Rightarrow> ctx \<Rightarrow> deals \<Rightarrow> string \<Rightarrow> string \<Rightarrow> string \<Rightarrow> int \<Rightarrow> string \<Rightarrow> int \<Rightarrow> string \<Rightarrow> string \<Rightarrow>
     deals \<times> (err + escrow \<times> escrow_event list)" where
  "pay_into_escrow dk cx n w a address amount memo release_at new_id approval_id =
     (if amount \<le> 0 then (n, Inl (ErrEscrowTerms ''the amount must be positive''))
      else if release_at \<le> cx_now cx then (n, Inl (ErrEscrowTerms ''release_at must be in the future''))
      else case resolve_wallet n address of
        Inl e \<Rightarrow> (n, Inl e)
      | Inr to \<Rightarrow>
          if wa_id to = a then (n, Inl ErrSameAgent)
          else
            let fingerprint = payment_fingerprint dk a (wa_id to) amount (''escrow'' @ [CHR 0x00] @ memo);
                cx' = with_agent_request cx (pay_request fingerprint
                  \<lparr>py_kind = ''agent'', py_id = wa_id to, py_name = wa_name to\<rparr> memo)
            in answer_escrow w new_id (refused_deal cx n approval_id
                 (pay_into_escrow_tx dk cx' n (new_escrow cx new_id w a to amount memo release_at))))"

subsection \<open>Settling\<close>

definition update_escrow :: "(escrow \<Rightarrow> escrow) \<Rightarrow> string \<Rightarrow> deals \<Rightarrow> deals" where
  "update_escrow f i n = n\<lparr>dl_escrows := map (\<lambda>e. if es_id e = i then f e else e) (dl_escrows n)\<rparr>"

definition settle_to :: "escrow \<Rightarrow> bool \<Rightarrow> string \<times> string" where
  "settle_to e release = (if release then (es_payee_ws e, es_payee e) else (es_payer_ws e, es_payer e))"

definition settled_status :: "bool \<Rightarrow> escrow_status" where
  "settled_status release = (if release then EsReleased else EsReturned)"

definition settle_escrow_tx ::
    "ctx \<Rightarrow> deals \<Rightarrow> escrow \<Rightarrow> bool \<Rightarrow> escrow_actor \<Rightarrow> string \<Rightarrow> string \<Rightarrow> err + deals" where
  "settle_escrow_tx cx n e release actor operator detail =
     (case settle_to e release of (w, a) \<Rightarrow>
        rbind (if release then check_money_wall (dl_db n) (es_payer_ws e) (es_payee_ws e) else Inr ()) (\<lambda>_.
        rbind (lock_agent (dl_db n) w a) (\<lambda>_.
          let desc = (if release then ''credits released from escrow'' else ''credits returned from escrow'');
              d = add_test_funded (move_escrow_lxc cx (dl_db n) w (es_amount e) e desc) w (es_test e)
          in rbind (post_across cx d PkEscrow (es_id e)
                 [(es_payer_ws e, EscrowAcc (es_id e), - es_amount e), (w, AgentAcc a, es_amount e)]) (\<lambda>(d, entry).
               Inr (escrow_event cx
                 (update_escrow (\<lambda>e. e\<lparr>es_status := settled_status release, es_decided := Some (cx_now cx)\<rparr>)
                   (es_id e) (n\<lparr>dl_db := d\<rparr>))
                 (es_id e) (settled_status release) actor operator detail (Some entry))))))"

definition payer_escrow :: "deals \<Rightarrow> string \<Rightarrow> string \<Rightarrow> escrow option" where
  "payer_escrow n w i = find (\<lambda>e. es_id e = i \<and> es_payer_ws e = w \<and> es_status e = EsHeld) (dl_escrows n)"

definition kept_or :: "deals \<Rightarrow> err + deals \<Rightarrow> deals \<times> (err + unit)" where
  "kept_or n r = (case r of Inl e \<Rightarrow> (n, Inl e) | Inr n' \<Rightarrow> (n', Inr ()))"

definition confirm_escrow :: "ctx \<Rightarrow> deals \<Rightarrow> string \<Rightarrow> string \<Rightarrow> deals \<times> (err + escrow \<times> escrow_event list)" where
  "confirm_escrow cx n w i =
     (case payer_escrow n w i of
        None \<Rightarrow> (n, Inl ErrEscrowNotFound)
      | Some e \<Rightarrow> answer_escrow w i (kept_or n (settle_escrow_tx cx n e True Payer '''' ''delivery confirmed'')))"

definition mark_disputed :: "ctx \<Rightarrow> deals \<Rightarrow> string \<Rightarrow> escrow_actor \<Rightarrow> string \<Rightarrow> deals" where
  "mark_disputed cx n i actor detail =
     escrow_event cx (update_escrow (\<lambda>e. e\<lparr>es_status := EsDisputed\<rparr>) i n) i EsDisputed actor '''' detail None"

definition dispute_escrow :: "ctx \<Rightarrow> deals \<Rightarrow> string \<Rightarrow> string \<Rightarrow> string \<Rightarrow> deals \<times> (err + escrow \<times> escrow_event list)" where
  "dispute_escrow cx n w i reason =
     (let reason = trim_space reason
      in if reason = '''' then (n, Inl (ErrEscrowTerms ''a dispute needs a reason''))
         else case payer_escrow n w i of
           None \<Rightarrow> (n, Inl ErrEscrowNotFound)
         | Some e \<Rightarrow>
             if es_release_at e \<le> cx_now cx then (n, Inl (ErrEscrowTerms ''its deadline has passed''))
             else answer_escrow w i (mark_disputed cx n (es_id e) Payer reason, Inr ()))"

definition decide_escrow ::
    "ctx \<Rightarrow> deals \<Rightarrow> string \<Rightarrow> bool \<Rightarrow> string \<Rightarrow> string \<Rightarrow> deals \<times> (err + escrow \<times> escrow_event list)" where
  "decide_escrow cx n i release operator note =
     (if trim_space operator = '''' \<or> trim_space note = ''''
      then (n, Inl (ErrEscrowTerms ''a decision needs who made it and a note''))
      else case find (\<lambda>e. es_id e = i \<and> es_status e = EsDisputed) (dl_escrows n) of
        None \<Rightarrow> (n, Inl ErrEscrowNotFound)
      | Some e \<Rightarrow> answer_escrow (es_payer_ws e) i (kept_or n (settle_escrow_tx cx n e release Operator operator note)))"

text \<open>
  The earliest held escrow whose deadline is by now; \<open>told\<close> is the text of the error that kept one
  from being released.
\<close>

definition due_escrows :: "deals \<Rightarrow> int \<Rightarrow> escrow list" where
  "due_escrows n now = sort_key (\<lambda>e. (es_release_at e, es_id e))
     (filter (\<lambda>e. es_status e = EsHeld \<and> es_release_at e \<le> now) (dl_escrows n))"

definition run_escrow_deadline :: "(err \<Rightarrow> string) \<Rightarrow> ctx \<Rightarrow> int \<Rightarrow> deals \<Rightarrow> deals \<times> (err + string option)" where
  "run_escrow_deadline told cx now n =
     (case due_escrows n now of
        [] \<Rightarrow> (n, Inr None)
      | e # _ \<Rightarrow>
          (case settle_escrow_tx cx n e True Deadline '''' ''the deadline passed without a dispute'' of
             Inr n' \<Rightarrow> (n', Inr (Some (es_id e)))
           | Inl x \<Rightarrow> (mark_disputed cx n (es_id e) Deadline (''could not be released at its deadline: '' @ told x),
               Inr (Some (es_id e)))))"

definition run_escrow_deadlines :: "(err \<Rightarrow> string) \<Rightarrow> ctx \<Rightarrow> int \<Rightarrow> deals \<Rightarrow> deals \<times> nat" where
  "run_escrow_deadlines told cx now n =
     (case run_ticks (run_escrow_deadline told cx now) max_ticks_per_run n of (n, ids, _) \<Rightarrow> (n, length ids))"

subsection \<open>The money of an escrow\<close>

lemma move_escrow_eq: "\<exists>de me. move_escrow_lxc cx d w x e desc = shift_balance cx d w x LxcEscrow de me"
  by (simp only: move_escrow_lxc_def) blast

declare move_escrow_lxc_def [view_simps]

lemma move_escrow_rows [simp]: "rows_only d (move_escrow_lxc cx d w x e desc)"
  by (simp add: move_escrow_lxc_def)

lemma hold_credits_InrD:
  assumes m: "hold_credits s cx g d key e = Inr (d', e')" and pos: "0 < es_amount e"
    and tn: "\<And>v. 0 \<le> test_of d v"
  shows "rows_only d d'" and "e' = e\<lparr>es_test := es_test e'\<rparr>" and "0 \<le> es_test e'"
    and "es_test e' \<le> es_amount e"
    and "bal_of d' v = bal_of d v - (if v = es_payer_ws e then es_amount e else 0)"
    and "ledger_sum d' v - bal_of d' v = ledger_sum d v - bal_of d v"
    and "0 \<le> test_of d' v" and "all_credits d' = all_credits d - es_amount e"
    and "\<exists>c. capability_by_key key = Some c \<and> may_use g (es_payer_ws e) c \<and>
      (takes_live s cx g d (es_payer_ws e) c \<or> test_workspace d (es_payer_ws e) \<or> es_test e' = es_amount e)"
proof -
  let ?w = "es_payer_ws e" and ?x = "es_amount e"
  let ?D = "ensure_lxc_row d ?w" and ?de = "''credits paid into escrow''"
  obtain d1 t0 where s: "spend_for_capability s cx g ?D ?w key ?x = Inr (d1, t0)"
    and r: "d' = move_escrow_lxc cx d1 ?w (- ?x) e ?de"
      "e' = e\<lparr>es_test := max (test_funded_ulxc ?D ?w - test_funded_ulxc d' ?w) 0\<rparr>"
    using m by (auto simp: hold_credits_def Let_def)
  have tD: "0 \<le> test_of ?D ?w" and row: "has_row ?D ?w" using tn by (simp_all add: view_simps)
  obtain de me where d2: "d' = d1 \<or> d' = shift_balance cx d1 ?w (- ?x) LxcEscrow de me"
    using r(1) move_escrow_eq by metis
  note T = test_taken [OF s pos tD row d2]
  have e': "es_test e' = max (test_funded_ulxc ?D ?w - test_funded_ulxc d' ?w) 0" using r by simp
  show "e' = e\<lparr>es_test := es_test e'\<rparr>" using r(2) e' by simp
  show "0 \<le> es_test e'" "es_test e' \<le> ?x" unfolding e' using T(1) by simp_all
  show "rows_only d d'"
    unfolding r(1) by (rule rows_only_trans [OF rows_only_trans [OF rows_only_steps(1) T(3)] move_escrow_rows])
  show "bal_of d' v = bal_of d v - (if v = ?w then ?x else 0)"
    "ledger_sum d' v - bal_of d' v = ledger_sum d v - bal_of d v" "all_credits d' = all_credits d - ?x"
    using r(1) T(5-7) by (simp_all add: view_simps)
  have "0 \<le> test_of d1 v" for v using T(4) tn by (simp add: view_simps)
  then show "0 \<le> test_of d' v" using r(1) by (simp add: view_simps clamp_nonneg)
  obtain c where c: "capability_by_key key = Some c" "may_use g ?w c"
    "takes_live s cx g ?D ?w c \<or> test_workspace ?D ?w \<or> test_funded_ulxc ?D ?w - test_funded_ulxc d' ?w = ?x"
    using T(2) by blast
  have "takes_live s cx g d ?w c \<or> test_workspace d ?w \<or> es_test e' = ?x"
    using c(3) takes_live_read_rows [of s cx g d ?w ?w ?w c] test_workspace_rows [of d ?D ?w] pos e'
    by (auto simp: read_rows_def)
  then show "\<exists>c. capability_by_key key = Some c \<and> may_use g ?w c \<and>
      (takes_live s cx g d ?w c \<or> test_workspace d ?w \<or> es_test e' = ?x)"
    using c(1,2) by blast
qed

text \<open>Both sides of an escrow hold what \<open>sides_ok\<close> says of the transfer between them.\<close>

definition escrow_transfer :: "escrow \<Rightarrow> transfer" where
  "escrow_transfer e = new_transfer (es_payer_ws e) (es_payer e) (es_payee_ws e) (es_payee e) (es_amount e) (es_memo e)"

lemma escrow_transfer_simps [simp]:
  "tr_from_ws (escrow_transfer e) = es_payer_ws e" "tr_from (escrow_transfer e) = es_payer e"
  "tr_to_ws (escrow_transfer e) = es_payee_ws e" "tr_to (escrow_transfer e) = es_payee e"
  by (simp_all add: escrow_transfer_def new_transfer_def)

lemma escrow_sides_InrD:
  assumes "escrow_sides dk d e = Inr same"
  shows "sides_ok dk d (escrow_transfer e)" and "same \<longleftrightarrow> same_owner d (escrow_transfer e)"
  using assms
  by (auto simp: escrow_sides_def Let_def sides_ok_def same_owner_def owners_of_def
      dest!: owner_verified_InrD split: if_splits)

definition escrow_key :: "deals \<Rightarrow> escrow \<Rightarrow> string" where
  "escrow_key n e = escrow_capability (same_owner (dl_db n) (escrow_transfer e))"

text \<open>The database once the entry that pays into escrow \<open>e\<close> is posted.\<close>

definition held_db :: "ctx \<Rightarrow> db \<Rightarrow> escrow \<Rightarrow> db" where
  "held_db cx d e = across_db cx d PkEscrow (es_id e)
     [(es_payer_ws e, AgentAcc (es_payer e), - es_amount e), (es_payer_ws e, EscrowAcc (es_id e), es_amount e)]"

lemma hold_escrow_InrD:
  assumes "hold_escrow dk cx n d key e = Inr (n', e')"
  obtains d2 where "hold_credits (dk_store dk) cx (dl_gates n) d key e = Inr (d2, e')"
    and "es_amount e \<noteq> 0" and "es_id e \<notin> es_id ` set (dl_escrows n)" and "e' = e\<lparr>es_test := es_test e'\<rparr>"
    and "n' = escrow_event cx (n\<lparr>dl_db := held_db cx d2 e, dl_escrows := dl_escrows n @ [e']\<rparr>)
      (es_id e) EsHeld Payer '''' '''' (Some (next_entry d2))"
proof -
  from assms obtain y where h: "hold_credits (dk_store dk) cx (dl_gates n) d key e = Inr y"
    and r: "(case y of (d, e) \<Rightarrow> rbind (post_across cx d PkEscrow (es_id e)
        [(es_payer_ws e, AgentAcc (es_payer e), - es_amount e),
         (es_payer_ws e, EscrowAcc (es_id e), es_amount e)]) (\<lambda>(d, entry).
      record_escrow cx (n\<lparr>dl_db := d\<rparr>) e entry)) = Inr (n', e')"
    unfolding hold_escrow_def by (rule rbind_InrE)
  obtain d2 e2 where y: "y = (d2, e2)" by (cases y)
  have e2: "e2 = e\<lparr>es_test := es_test e2\<rparr>" using h by (auto simp: y hold_credits_def Let_def)
  have f: "es_id e2 = es_id e" "es_payer_ws e2 = es_payer_ws e" "es_payer e2 = es_payer e" "es_amount e2 = es_amount e"
    by (subst e2, simp)+
  note r = r [unfolded y prod.case f, unfolded post_across_eq]
  have nz: "es_amount e \<noteq> 0" using r by (auto split: if_splits)
  have rec: "record_escrow cx (n\<lparr>dl_db := held_db cx d2 e\<rparr>) e2 (next_entry d2) = Inr (n', e')"
    using r nz by (simp add: held_db_def)
  then have E: "e2 = e'" by (simp add: record_escrow_def split: if_splits)
  show thesis
  proof (rule that [OF _ nz])
    show "hold_credits (dk_store dk) cx (dl_gates n) d key e = Inr (d2, e')" using h by (simp add: y E)
    show "es_id e \<notin> es_id ` set (dl_escrows n)"
      using rec by (auto simp: record_escrow_def f list_ex_iff split: if_splits)
    show "e' = e\<lparr>es_test := es_test e'\<rparr>" using e2 by (simp add: E)
    show "n' = escrow_event cx (n\<lparr>dl_db := held_db cx d2 e, dl_escrows := dl_escrows n @ [e']\<rparr>)
      (es_id e) EsHeld Payer '''' '''' (Some (next_entry d2))"
      using rec f(1) by (simp add: record_escrow_def E split: if_splits)
  qed
qed

lemma pay_into_escrow_tx_InrD:
  assumes "pay_into_escrow_tx dk cx n e = Inr (n', e')"
  obtains d1 where
    "check_money_wall (dl_db n) (es_payer_ws e) (es_payee_ws e) = Inr ()"
    and "sides_ok dk (dl_db n) (escrow_transfer e)"
    and "es_amount e \<le> account_balance (dl_db n) (es_payer_ws e) (AgentAcc (es_payer e))"
    and "enforce_agent_rules (dk_store dk) cx (dl_db n) (es_payer_ws e) (es_payer e) (es_amount e) (es_id e) = Inr d1"
    and "hold_escrow dk cx n d1 (escrow_key n e) (e\<lparr>es_class := class_of_key (escrow_key n e)\<rparr>) = Inr (n', e')"
proof -
  let ?k = "escrow_key n e"
  let ?e = "e\<lparr>es_class := class_of_key ?k\<rparr>"
  obtain one where wall: "check_money_wall (dl_db n) (es_payer_ws e) (es_payee_ws e) = Inr ()"
    and s: "escrow_sides dk (dl_db n) e = Inr one"
    using assms by (auto simp: pay_into_escrow_tx_def)
  note S = escrow_sides_InrD [OF s]
  have key: "escrow_capability one = ?k" using S(2) by (simp add: escrow_key_def)
  have r: "(if account_balance (dl_db n) (es_payer_ws e) (AgentAcc (es_payer e)) < es_amount e
       then Inl (ErrAgentFunds (account_balance (dl_db n) (es_payer_ws e) (AgentAcc (es_payer e))))
       else rbind (enforce_agent_rules (dk_store dk) cx (dl_db n) (es_payer_ws e) (es_payer e) (es_amount e) (es_id e)) (\<lambda>d.
              hold_escrow dk cx n d ?k ?e)) = Inr (n', e')"
    using assms by (simp add: pay_into_escrow_tx_def wall s key Let_def cong: if_cong)
  then have bal: "es_amount e \<le> account_balance (dl_db n) (es_payer_ws e) (AgentAcc (es_payer e))"
    by (simp split: if_splits)
  then have "rbind (enforce_agent_rules (dk_store dk) cx (dl_db n) (es_payer_ws e) (es_payer e) (es_amount e) (es_id e)) (\<lambda>d.
              hold_escrow dk cx n d ?k ?e) = Inr (n', e')"
    using r by simp
  then obtain d1 where "enforce_agent_rules (dk_store dk) cx (dl_db n) (es_payer_ws e) (es_payer e) (es_amount e) (es_id e) = Inr d1"
    "hold_escrow dk cx n d1 ?k ?e = Inr (n', e')"
    by (rule rbind_InrE)
  with wall S(1) bal show thesis by (rule that)
qed

lemma escrow_event_frame [simp]:
  "dl_db (escrow_event cx n i k a op de en) = dl_db n" "dl_gates (escrow_event cx n i k a op de en) = dl_gates n"
  "dl_handles (escrow_event cx n i k a op de en) = dl_handles n"
  "dl_transfers (escrow_event cx n i k a op de en) = dl_transfers n"
  "dl_requests (escrow_event cx n i k a op de en) = dl_requests n"
  "dl_escrows (escrow_event cx n i k a op de en) = dl_escrows n"
  "dl_loans (escrow_event cx n i k a op de en) = dl_loans n"
  "dl_loan_events (escrow_event cx n i k a op de en) = dl_loan_events n"
  "dl_runs (escrow_event cx n i k a op de en) = dl_runs n"
  by (simp_all add: escrow_event_def)

lemma update_escrow_frame [simp]:
  "dl_db (update_escrow f i n) = dl_db n" "dl_gates (update_escrow f i n) = dl_gates n"
  "dl_handles (update_escrow f i n) = dl_handles n" "dl_transfers (update_escrow f i n) = dl_transfers n"
  "dl_requests (update_escrow f i n) = dl_requests n" "dl_escrow_events (update_escrow f i n) = dl_escrow_events n"
  "dl_loans (update_escrow f i n) = dl_loans n" "dl_loan_events (update_escrow f i n) = dl_loan_events n"
  "dl_runs (update_escrow f i n) = dl_runs n"
  "dl_escrows (update_escrow f i n) = map (\<lambda>e. if es_id e = i then f e else e) (dl_escrows n)"
  by (simp_all add: update_escrow_def)

lemma books_account_nonneg: "books d \<Longrightarrow> is_allocated a \<Longrightarrow> 0 \<le> account_balance d v a"
  by (auto simp: books_slack_0 accounts_ok_iff dest: slackD(3))

lemma pay_in_moves:
  assumes r: "pay_into_escrow_tx dk cx n e = Inr (n', e')" and pos: "0 < es_amount e" and b: "books (dl_db n)"
  shows "books (dl_db n')"
    and "account_balance (dl_db n') v a = account_balance (dl_db n) v a +
      (if v = es_payer_ws e then (if a = EscrowAcc (es_id e) then es_amount e else 0) -
        (if a = AgentAcc (es_payer e) then es_amount e else 0) else 0)"
    and "bal_of (dl_db n') v = bal_of (dl_db n) v - (if v = es_payer_ws e then es_amount e else 0)"
    and "cash_of (dl_db n') v = cash_of (dl_db n) v" and "held_sum (dl_db n') v = held_sum (dl_db n) v"
    and "all_credits (dl_db n') = all_credits (dl_db n) - es_amount e"
proof -
  from r obtain d1 where bal: "es_amount e \<le> account_balance (dl_db n) (es_payer_ws e) (AgentAcc (es_payer e))"
    and en: "enforce_agent_rules (dk_store dk) cx (dl_db n) (es_payer_ws e) (es_payer e) (es_amount e) (es_id e) = Inr d1"
    and ho: "hold_escrow dk cx n d1 (escrow_key n e) (e\<lparr>es_class := class_of_key (escrow_key n e)\<rparr>) = Inr (n', e')"
    by (rule pay_into_escrow_tx_InrD)
  let ?e = "e\<lparr>es_class := class_of_key (escrow_key n e)\<rparr>"
  obtain d2 where h: "hold_credits (dk_store dk) cx (dl_gates n) d1 (escrow_key n e) ?e = Inr (d2, e')"
    and n': "dl_db n' = held_db cx d2 ?e"
    using ho by (rule hold_escrow_InrD) simp
  have q: "same_money (dl_db n) d1" using enforce_quiet [OF en] by (rule quiet_money)
  have s1: "books_slack (\<lambda>_. 0) d1" using q b by (simp add: books_slack_0 slack_same_money)
  have "0 < es_amount ?e" using pos by simp
  note M = hold_credits_InrD [OF h this slackD(7) [OF s1]]
  have d2: "bal_of d2 v = bal_of (dl_db n) v - (if v = es_payer_ws e then es_amount e else 0)" for v
    using M(5) same_money_views(1) [OF q] by simp
  have acc: "account_balance d2 v a = account_balance (dl_db n) v a" for v a
    using M(1) same_money_views(7) [OF q] by (simp add: rows_only_def account_balance_def)
  let ?ls = "[(es_payer_ws e, AgentAcc (es_payer e), - es_amount e), (es_payer_ws e, EscrowAcc (es_id e), es_amount e)]"
  have nn: "0 \<le> account_balance d2 v a + across_on v a ?ls" if "is_allocated a" for v a
    using books_account_nonneg [OF b that, of v] bal that by (auto simp: acc)
  have s2: "books_slack (\<lambda>v. 0 - (bal_of d2 v - bal_of d1 v)) d2"
    using M(1,6,7) slackD(1,6) [OF s1]
    by (intro slack_wallet [OF s1]) (simp_all add: rows_only_def holds_ok_cong [of d2 d1])
  have "books_slack (\<lambda>v. 0 - (bal_of d2 v - bal_of d1 v) + across_allocated v ?ls) (dl_db n')"
    using slack_across [OF s2 _ nn] by (simp add: n' held_db_def)
  then show "books (dl_db n')"
    by (rule slack_books) (use d2 same_money_views(1) [OF q] in simp)
  show "account_balance (dl_db n') v a = account_balance (dl_db n) v a +
      (if v = es_payer_ws e then (if a = EscrowAcc (es_id e) then es_amount e else 0) -
        (if a = AgentAcc (es_payer e) then es_amount e else 0) else 0)"
    by (auto simp: n' held_db_def view_simps acc kept_account_def)
  show "bal_of (dl_db n') v = bal_of (dl_db n) v - (if v = es_payer_ws e then es_amount e else 0)"
    by (simp add: n' held_db_def view_simps d2)
  show "cash_of (dl_db n') v = cash_of (dl_db n) v"
    using M(1) same_money_views(2) [OF q] by (simp add: n' held_db_def view_simps rows_only_def)
  show "held_sum (dl_db n') v = held_sum (dl_db n) v"
    using rows_only_held [OF M(1)] same_money_views(4) [OF q] by (simp add: n' held_db_def view_simps)
  show "all_credits (dl_db n') = all_credits (dl_db n) - es_amount e"
    using M(8) all_credits_same [OF q] by (simp add: n' held_db_def)
qed

lemma pay_in_row:
  assumes "pay_into_escrow_tx dk cx n e = Inr (n', e')" and pos: "0 < es_amount e"
    and tn: "\<And>v. 0 \<le> test_of (dl_db n) v"
  shows "dl_escrows n' = dl_escrows n @ [e']" and "es_id e' \<notin> es_id ` set (dl_escrows n)"
    and "e' = e\<lparr>es_class := es_class e', es_test := es_test e'\<rparr>" and "0 \<le> es_test e'" and "es_test e' \<le> es_amount e"
    and "dl_transfers n' = dl_transfers n" and "dl_gates n' = dl_gates n"
    and "\<exists>c. capability_by_key (escrow_key n e) = Some c \<and> may_use (dl_gates n) (es_payer_ws e) c \<and>
      (takes_live (dk_store dk) cx (dl_gates n) (dl_db n) (es_payer_ws e) c \<or>
       test_workspace (dl_db n) (es_payer_ws e) \<or> es_test e' = es_amount e)"
    and "test_workspace (dl_db n) (es_payer_ws e) = test_workspace (dl_db n) (es_payee_ws e)"
    and "dl_loans n' = dl_loans n"
proof -
  from assms(1) obtain d1 where wall: "check_money_wall (dl_db n) (es_payer_ws e) (es_payee_ws e) = Inr ()"
    and en: "enforce_agent_rules (dk_store dk) cx (dl_db n) (es_payer_ws e) (es_payer e) (es_amount e) (es_id e) = Inr d1"
    and ho: "hold_escrow dk cx n d1 (escrow_key n e) (e\<lparr>es_class := class_of_key (escrow_key n e)\<rparr>) = Inr (n', e')"
    by (rule pay_into_escrow_tx_InrD)
  let ?e = "e\<lparr>es_class := class_of_key (escrow_key n e)\<rparr>"
  obtain d2 where h: "hold_credits (dk_store dk) cx (dl_gates n) d1 (escrow_key n e) ?e = Inr (d2, e')"
    and new: "es_id ?e \<notin> es_id ` set (dl_escrows n)" and e': "e' = ?e\<lparr>es_test := es_test e'\<rparr>"
    and n': "n' = escrow_event cx (n\<lparr>dl_db := held_db cx d2 ?e, dl_escrows := dl_escrows n @ [e']\<rparr>)
      (es_id ?e) EsHeld Payer '''' '''' (Some (next_entry d2))"
    using ho by (rule hold_escrow_InrD) simp
  have q: "rules_quiet (dl_db n) d1" by (rule enforce_quiet [OF en])
  have "0 < es_amount ?e" "\<And>v. 0 \<le> test_of d1 v"
    using pos tn same_money_views(3) [OF quiet_money [OF q]] by simp_all
  note M = hold_credits_InrD [OF h this]
  have f: "es_id e' = es_id e" "es_class e' = es_class ?e" by (subst e', simp)+
  show "dl_escrows n' = dl_escrows n @ [e']" "dl_transfers n' = dl_transfers n" "dl_gates n' = dl_gates n"
    "dl_loans n' = dl_loans n"
    by (simp_all add: n')
  show "es_id e' \<notin> es_id ` set (dl_escrows n)" using new f by simp
  show "e' = e\<lparr>es_class := es_class e', es_test := es_test e'\<rparr>" using e' f by simp
  show "0 \<le> es_test e'" "es_test e' \<le> es_amount e" using M(3,4) by simp_all
  show "\<exists>c. capability_by_key (escrow_key n e) = Some c \<and> may_use (dl_gates n) (es_payer_ws e) c \<and>
      (takes_live (dk_store dk) cx (dl_gates n) (dl_db n) (es_payer_ws e) c \<or>
       test_workspace (dl_db n) (es_payer_ws e) \<or> es_test e' = es_amount e)"
    using M(9) test_workspace_rows [OF rows_only_quiet [OF q]] takes_live_quiet [OF q] by simp
  show "test_workspace (dl_db n) (es_payer_ws e) = test_workspace (dl_db n) (es_payee_ws e)"
    using wall by (simp add: check_money_wall_def split: if_splits)
qed

subsection \<open>Settling moves what was held\<close>

text \<open>The database once escrow \<open>e\<close> is settled to agent \<open>a\<close> of workspace \<open>w\<close>.\<close>

definition settle_desc :: "bool \<Rightarrow> string" where
  "settle_desc release = (if release then ''credits released from escrow'' else ''credits returned from escrow'')"

definition settled_funds :: "ctx \<Rightarrow> db \<Rightarrow> escrow \<Rightarrow> bool \<Rightarrow> db" where
  "settled_funds cx d e release =
     (let w = fst (settle_to e release)
      in add_test_funded (move_escrow_lxc cx d w (es_amount e) e (settle_desc release)) w (es_test e))"

definition settle_legs :: "escrow \<Rightarrow> bool \<Rightarrow> ws_leg list" where
  "settle_legs e release = [(es_payer_ws e, EscrowAcc (es_id e), - es_amount e),
     (fst (settle_to e release), AgentAcc (snd (settle_to e release)), es_amount e)]"

definition settle_row :: "ctx \<Rightarrow> bool \<Rightarrow> escrow \<Rightarrow> escrow" where
  "settle_row cx release e = e\<lparr>es_status := settled_status release, es_decided := Some (cx_now cx)\<rparr>"

lemma settle_escrow_tx_eq:
  assumes "es_amount e \<noteq> 0"
  shows "settle_escrow_tx cx n e release actor operator detail =
    (if release \<and> check_money_wall (dl_db n) (es_payer_ws e) (es_payee_ws e) \<noteq> Inr () then Inl ErrMoneyWall
     else if lock_agent (dl_db n) (fst (settle_to e release)) (snd (settle_to e release)) \<noteq> Inr () then Inl ErrAgentNotFound
     else let d = settled_funds cx (dl_db n) e release
       in Inr (escrow_event cx (update_escrow (settle_row cx release) (es_id e)
            (n\<lparr>dl_db := across_db cx d PkEscrow (es_id e) (settle_legs e release)\<rparr>))
            (es_id e) (settled_status release) actor operator detail (Some (next_entry d))))"
  using assms
  by (auto simp: settle_escrow_tx_def settle_to_def check_money_wall_def lock_agent_def settle_row_def [abs_def]
      settled_funds_def settle_legs_def settle_desc_def Let_def post_across_eq split: option.splits if_splits)

lemma settle_escrow_tx_InrD:
  assumes "settle_escrow_tx cx n e release actor operator detail = Inr n'" and "es_amount e \<noteq> 0"
  shows "dl_db n' = across_db cx (settled_funds cx (dl_db n) e release) PkEscrow (es_id e) (settle_legs e release)"
    and "dl_escrows n' = map (\<lambda>x. if es_id x = es_id e then settle_row cx release x else x) (dl_escrows n)"
    and "dl_transfers n' = dl_transfers n" and "dl_loans n' = dl_loans n" and "dl_gates n' = dl_gates n"
    and "release \<Longrightarrow> test_workspace (dl_db n) (es_payer_ws e) = test_workspace (dl_db n) (es_payee_ws e)"
    and "lock_agent (dl_db n) (fst (settle_to e release)) (snd (settle_to e release)) = Inr ()"
  using assms(1) unfolding settle_escrow_tx_eq [OF assms(2)]
  by (auto simp: Let_def check_money_wall_def split: if_splits)

lemma settled_funds_views:
  shows "rows_only d (settled_funds cx d e r)"
    and "bal_of (settled_funds cx d e r) v = bal_of d v + (if v = fst (settle_to e r) then es_amount e else 0)"
    and "ledger_sum (settled_funds cx d e r) v = ledger_sum d v + (if v = fst (settle_to e r) then es_amount e else 0)"
    and "all_credits (settled_funds cx d e r) = all_credits d + es_amount e"
    and "(\<And>u. 0 \<le> test_of d u) \<Longrightarrow> 0 \<le> es_test e \<Longrightarrow> 0 \<le> test_of (settled_funds cx d e r) v"
  by (auto simp: settled_funds_def Let_def view_simps clamp_nonneg
      intro: rows_only_trans [OF shift_balance_rows rows_only_steps(5)])

lemma settle_moves:
  assumes r: "settle_escrow_tx cx n e release actor operator detail = Inr n'"
    and pos: "0 < es_amount e" "0 \<le> es_test e" and b: "books (dl_db n)"
  shows "books (dl_db n')"
    and "account_balance (dl_db n') v a = account_balance (dl_db n) v a -
      (if v = es_payer_ws e \<and> a = EscrowAcc (es_id e) then es_amount e else 0) +
      (if (v, a) = (fst (settle_to e release), AgentAcc (snd (settle_to e release))) then es_amount e else 0)"
    and "bal_of (dl_db n') v = bal_of (dl_db n) v + (if v = fst (settle_to e release) then es_amount e else 0)"
    and "cash_of (dl_db n') v = cash_of (dl_db n) v" and "held_sum (dl_db n') v = held_sum (dl_db n) v"
    and "all_credits (dl_db n') = all_credits (dl_db n) + es_amount e"
proof -
  have "es_amount e \<noteq> 0" using pos by simp
  note n' = settle_escrow_tx_InrD(1) [OF r this]
  let ?d = "settled_funds cx (dl_db n) e release"
  note F = settled_funds_views [where d = "dl_db n" and cx = cx and e = e and r = release]
  have b0: "books_slack (\<lambda>_. 0) (dl_db n)" using b by (simp add: books_slack_0)
  have s: "books_slack (\<lambda>v. 0 - (bal_of ?d v - bal_of (dl_db n) v)) ?d"
    using F(1,2,3,5) slackD(1,6,7) [OF b0] pos
    by (intro slack_wallet [OF b0]) (simp_all add: rows_only_def holds_ok_cong [of ?d "dl_db n"])
  have acc: "account_balance ?d v a = account_balance (dl_db n) v a" for v a
    using F(1) by (simp add: rows_only_def account_balance_def)
  have nn: "0 \<le> account_balance ?d v a + across_on v a (settle_legs e release)" if "is_allocated a" for v a
    using books_account_nonneg [OF b that, of v] that pos by (auto simp: acc settle_legs_def)
  have "books_slack (\<lambda>v. 0 - (bal_of ?d v - bal_of (dl_db n) v) + across_allocated v (settle_legs e release)) (dl_db n')"
    using slack_across [OF s _ nn] by (simp add: n' settle_legs_def)
  then show "books (dl_db n')" by (rule slack_books) (simp add: F settle_legs_def)
  show "account_balance (dl_db n') v a = account_balance (dl_db n) v a -
      (if v = es_payer_ws e \<and> a = EscrowAcc (es_id e) then es_amount e else 0) +
      (if (v, a) = (fst (settle_to e release), AgentAcc (snd (settle_to e release))) then es_amount e else 0)"
    by (auto simp: n' view_simps acc settle_legs_def kept_account_def)
  show "bal_of (dl_db n') v = bal_of (dl_db n) v + (if v = fst (settle_to e release) then es_amount e else 0)"
    by (simp add: n' view_simps F)
  show "cash_of (dl_db n') v = cash_of (dl_db n) v" using F(1) by (simp add: n' view_simps rows_only_def)
  show "held_sum (dl_db n') v = held_sum (dl_db n) v" using rows_only_held [OF F(1)] by (simp add: n' view_simps)
  show "all_credits (dl_db n') = all_credits (dl_db n) + es_amount e" by (simp add: n' F)
qed

subsection \<open>What is in escrow\<close>

definition open_escrow :: "escrow \<Rightarrow> bool" where
  "open_escrow e \<longleftrightarrow> es_status e = EsHeld \<or> es_status e = EsDisputed"

definition escrowed :: "deals \<Rightarrow> string \<Rightarrow> string \<Rightarrow> int" where
  "escrowed n v i = sum_where (\<lambda>e. es_payer_ws e = v \<and> es_id e = i \<and> open_escrow e) es_amount (dl_escrows n)"

definition in_escrow :: "deals \<Rightarrow> int" where
  "in_escrow n = sum_where open_escrow es_amount (dl_escrows n)"

text \<open>
  The invariant of escrow: every escrow has an id of its own, and the account of each holds exactly
  its amount while it is open, nothing before and nothing after.
\<close>

definition escrow_ok :: "deals \<Rightarrow> bool" where
  "escrow_ok n \<longleftrightarrow> distinct (map es_id (dl_escrows n)) \<and>
     (\<forall>e \<in> set (dl_escrows n). 0 < es_amount e \<and> 0 \<le> es_test e) \<and>
     (\<forall>v i. account_balance (dl_db n) v (EscrowAcc i) = escrowed n v i)"

definition credits_in_lens :: "deals \<Rightarrow> int" where
  "credits_in_lens n = all_credits (dl_db n) + in_escrow n"

lemma sum_where_update:
  assumes "distinct (map key xs)" "e \<in> set xs" "\<And>x. key (g x) = key x"
  shows "sum_where p f (map (\<lambda>x. if key x = key e then g x else x) xs) =
    sum_where p f xs - (if p e then f e else 0) + (if p (g e) then f (g e) else 0)"
  using assms(1,2)
proof (induction xs)
  case (Cons x xs)
  show ?case
  proof (cases "x = e")
    case True
    then have "map (\<lambda>x. if key x = key e then g x else x) xs = xs"
      using Cons.prems(1) by (intro map_idI) (auto simp: rev_image_eqI)
    then show ?thesis using True by simp
  next
    case False
    then have "key x \<noteq> key e" "e \<in> set xs" using Cons.prems by (auto simp: rev_image_eqI)
    then show ?thesis using Cons.IH Cons.prems(1) False by simp
  qed
qed simp

lemma settle_row_simps [simp]:
  "es_id (settle_row cx r e) = es_id e" "es_payer_ws (settle_row cx r e) = es_payer_ws e"
  "es_amount (settle_row cx r e) = es_amount e" "es_test (settle_row cx r e) = es_test e"
  "es_status (settle_row cx r e) = settled_status r" "\<not> open_escrow (settle_row cx r e)"
  by (simp_all add: settle_row_def open_escrow_def settled_status_def)

lemma escrow_okD:
  assumes "escrow_ok n"
  shows "distinct (map es_id (dl_escrows n))" "e \<in> set (dl_escrows n) \<Longrightarrow> 0 < es_amount e"
    "e \<in> set (dl_escrows n) \<Longrightarrow> 0 \<le> es_test e" "account_balance (dl_db n) v (EscrowAcc i) = escrowed n v i"
  using assms by (auto simp: escrow_ok_def)

lemma settle_keeps:
  assumes r: "settle_escrow_tx cx n e release actor operator detail = Inr n'"
    and i: "escrow_ok n" and b: "books (dl_db n)" and e: "e \<in> set (dl_escrows n)" "open_escrow e"
  shows "escrow_ok n'" and "credits_in_lens n' = credits_in_lens n"
proof -
  note I = escrow_okD [OF i]
  note S = settle_moves [OF r I(2) [OF e(1)] I(3) [OF e(1)] b]
  have "es_amount e \<noteq> 0" using I(2) [OF e(1)] by simp
  note n' = settle_escrow_tx_InrD(2) [OF r this]
  have es: "sum_where p es_amount (dl_escrows n') = sum_where p es_amount (dl_escrows n) -
      (if p e then es_amount e else 0) + (if p (settle_row cx release e) then es_amount e else 0)" for p
    unfolding n' using sum_where_update [OF I(1) e(1), of "settle_row cx release"] by simp
  have ids: "map es_id (dl_escrows n') = map es_id (dl_escrows n)" by (simp add: n')
  have "account_balance (dl_db n') v (EscrowAcc i) = escrowed n' v i" for v i
    using S(2) [of v "EscrowAcc i"] I(4) [of v i] e(2) by (auto simp: escrowed_def es)
  moreover have "0 < es_amount x \<and> 0 \<le> es_test x" if "x \<in> set (dl_escrows n')" for x
    using that I(2,3) by (auto simp: n')
  ultimately show "escrow_ok n'" using I(1) by (simp add: escrow_ok_def ids)
  show "credits_in_lens n' = credits_in_lens n"
    using S(6) e(2) by (simp add: credits_in_lens_def in_escrow_def es)
qed

lemma pay_in_keeps:
  assumes r: "pay_into_escrow_tx dk cx n e = Inr (n', e')" and pos: "0 < es_amount e"
    and st: "es_status e = EsHeld" and i: "escrow_ok n" and b: "books (dl_db n)"
  shows "escrow_ok n'" and "credits_in_lens n' = credits_in_lens n"
proof -
  note I = escrow_okD [OF i] and S = pay_in_moves [OF r pos b]
  have "\<And>v. 0 \<le> test_of (dl_db n) v" using b by (auto simp: books_slack_0 dest: slackD(7))
  note R = pay_in_row [OF r pos this]
  have f: "es_id e' = es_id e" "es_payer_ws e' = es_payer_ws e" "es_amount e' = es_amount e" "open_escrow e'"
    by (subst R(3), simp add: open_escrow_def st)+
  have none: "escrowed n v (es_id e) = 0" for v
    unfolding escrowed_def using R(2) f(1) by (intro sum_where_none) (auto simp: rev_image_eqI)
  have "account_balance (dl_db n') v (EscrowAcc i) = escrowed n' v i" for v i
    using S(2) [of v "EscrowAcc i"] I(4) [of v i] f by (auto simp: escrowed_def R(1))
  then show "escrow_ok n'"
    using I(1-3) R(2,4) f pos by (auto simp: escrow_ok_def R(1))
  show "credits_in_lens n' = credits_in_lens n"
    using S(6) f by (simp add: credits_in_lens_def in_escrow_def R(1))
qed

subsection \<open>Every operation of escrow\<close>

definition deals_ok :: "deals \<Rightarrow> bool" where
  "deals_ok n \<longleftrightarrow> books (dl_db n) \<and> escrow_ok n"

definition follows :: "escrow_status \<Rightarrow> escrow_status \<Rightarrow> bool" where
  "follows a b \<longleftrightarrow> a = b \<or> (a = EsHeld \<and> b \<noteq> EsHeld \<and> b \<noteq> EsReturned) \<or> (a = EsDisputed \<and> (b = EsReleased \<or> b = EsReturned))"

text \<open>
  \<open>escrows_kept\<close>: the escrows of before are there, in their place, each with what was agreed and a
  status the code's state machine may have brought it to.
\<close>

definition same_terms :: "escrow \<Rightarrow> escrow \<Rightarrow> bool" where
  "same_terms e e' \<longleftrightarrow> e' = e\<lparr>es_status := es_status e', es_decided := es_decided e'\<rparr>"

definition escrows_kept :: "deals \<Rightarrow> deals \<Rightarrow> bool" where
  "escrows_kept n n' \<longleftrightarrow> length (dl_escrows n) \<le> length (dl_escrows n') \<and>
     list_all2 (\<lambda>e e'. same_terms e e' \<and> follows (es_status e) (es_status e'))
       (dl_escrows n) (take (length (dl_escrows n)) (dl_escrows n'))"

text \<open>A step of agents' dealings: the invariants hold after it, no credit came or went, and every escrow moved on as it may.\<close>

definition deal_kept :: "deals \<Rightarrow> deals \<Rightarrow> bool" where
  "deal_kept n n' \<longleftrightarrow> deals_ok n' \<and> credits_in_lens n' = credits_in_lens n \<and> escrows_kept n n'"

lemma escrows_kept_same: "dl_escrows n' = dl_escrows n \<Longrightarrow> escrows_kept n n'"
  by (simp add: escrows_kept_def same_terms_def follows_def list_all2_same)

lemma escrows_kept_snoc: "dl_escrows n' = dl_escrows n @ [e] \<Longrightarrow> escrows_kept n n'"
  by (simp add: escrows_kept_def same_terms_def follows_def list_all2_same)

lemma escrows_kept_update:
  assumes "dl_escrows n' = map (\<lambda>x. if es_id x = i then f x else x) (dl_escrows n)"
    and "\<And>x. x \<in> set (dl_escrows n) \<Longrightarrow> es_id x = i \<Longrightarrow> same_terms x (f x) \<and> follows (es_status x) (es_status (f x))"
  shows "escrows_kept n n'"
  using assms by (auto simp: escrows_kept_def same_terms_def follows_def list_all2_map2 list_all2_same)

lemma deal_kept_refl: "deals_ok n \<Longrightarrow> deal_kept n n"
  by (simp add: deal_kept_def escrows_kept_same)

lemma escrow_by_id: "escrow_ok n \<Longrightarrow> e \<in> set (dl_escrows n) \<Longrightarrow> x \<in> set (dl_escrows n) \<Longrightarrow> es_id x = es_id e \<Longrightarrow> x = e"
  by (auto simp: escrow_ok_def distinct_map dest: inj_onD)

lemma escrow_settle_kept:
  assumes i: "deals_ok n" and e: "e \<in> set (dl_escrows n)" "open_escrow e" "release \<or> es_status e = EsDisputed"
    and r: "settle_escrow_tx cx n e release actor operator detail = Inr n'"
  shows "deal_kept n n'"
proof -
  have b: "books (dl_db n)" "escrow_ok n" using i by (simp_all add: deals_ok_def)
  note I = escrow_okD [OF b(2)]
  have "es_amount e \<noteq> 0" using I(2) [OF e(1)] by simp
  note n' = settle_escrow_tx_InrD(2) [OF r this]
  have "escrows_kept n n'"
  proof (rule escrows_kept_update [OF n'])
    fix x assume "x \<in> set (dl_escrows n)" "es_id x = es_id e"
    then have "x = e" using escrow_by_id [OF b(2) e(1)] by blast
    then show "same_terms x (settle_row cx release x) \<and> follows (es_status x) (es_status (settle_row cx release x))"
      using e(2,3) by (auto simp: same_terms_def settle_row_def follows_def settled_status_def open_escrow_def)
  qed
  then show ?thesis
    using settle_keeps [OF r b(2,1) e(1,2)] settle_moves(1) [OF r I(2) [OF e(1)] I(3) [OF e(1)] b(1)]
    by (simp add: deal_kept_def deals_ok_def)
qed

lemma disputed_kept:
  assumes i: "deals_ok n" and e: "e \<in> set (dl_escrows n)" "es_status e = EsHeld"
  shows "deal_kept n (mark_disputed cx n (es_id e) actor detail)" (is "deal_kept n ?n")
proof -
  have b: "books (dl_db n)" "escrow_ok n" using i by (simp_all add: deals_ok_def)
  note I = escrow_okD [OF b(2)]
  let ?f = "\<lambda>e. e\<lparr>es_status := EsDisputed\<rparr>"
  have n': "dl_escrows ?n = map (\<lambda>x. if es_id x = es_id e then ?f x else x) (dl_escrows n)"
    and d: "dl_db ?n = dl_db n" by (simp_all add: mark_disputed_def)
  have es: "sum_where p es_amount (dl_escrows ?n) = sum_where p es_amount (dl_escrows n) -
      (if p e then es_amount e else 0) + (if p (?f e) then es_amount (?f e) else 0)" for p
    unfolding n' by (rule sum_where_update [OF I(1) e(1)]) simp
  have ids: "map es_id (dl_escrows ?n) = map es_id (dl_escrows n)" by (simp add: n')
  have "escrowed ?n v i = escrowed n v i" for v i using e(2) by (simp add: escrowed_def es open_escrow_def)
  moreover have "0 < es_amount x \<and> 0 \<le> es_test x" if "x \<in> set (dl_escrows ?n)" for x
    using that I(2,3) by (auto simp: n')
  ultimately have "escrow_ok ?n" using I(1,4) by (simp add: escrow_ok_def ids d)
  moreover have "credits_in_lens ?n = credits_in_lens n"
    using e(2) by (simp add: credits_in_lens_def in_escrow_def es open_escrow_def d)
  moreover have "escrows_kept n ?n"
  proof (rule escrows_kept_update [OF n'])
    fix x assume "x \<in> set (dl_escrows n)" "es_id x = es_id e"
    then have "x = e" using escrow_by_id [OF b(2) e(1)] by blast
    then show "same_terms x (?f x) \<and> follows (es_status x) (es_status (?f x))"
      using e(2) by (simp add: same_terms_def follows_def)
  qed
  ultimately show ?thesis using b(1) by (simp add: deal_kept_def deals_ok_def d)
qed

lemma fst_answer_escrow [simp]: "fst (answer_escrow w i r) = fst r"
  by (auto simp: answer_escrow_def split: prod.splits sum.splits)

lemma payer_escrowD: "payer_escrow n w i = Some e \<Longrightarrow>
    e \<in> set (dl_escrows n) \<and> es_id e = i \<and> es_payer_ws e = w \<and> es_status e = EsHeld"
  by (auto simp: payer_escrow_def find_Some_iff)

lemma refused_deal_kept:
  assumes "deals_ok n" and "\<And>n' x. r = Inr (n', x) \<Longrightarrow> deal_kept n n'"
  shows "deal_kept n (fst (refused_deal cx n ap r))"
proof (cases r)
  case (Inr y)
  then show ?thesis using assms by (cases y) (simp add: refused_deal_def)
next
  case (Inl e)
  show ?thesis
  proof (cases "\<exists>need. e = ErrApprovalNeeded need")
    case True
    then obtain need where e: "e = ErrApprovalNeeded need" by blast
    obtain d x where f: "file_approval cx (dl_db n) need ap = (d, x)" by fastforce
    have m: "same_money (dl_db n) d"
      using f by (auto simp: file_approval_def Let_def same_money_def split: option.splits)
    have n': "fst (refused_deal cx n ap r) = n\<lparr>dl_db := d\<rparr>" by (simp add: Inl e f refused_deal_def)
    have "credits_in_lens (n\<lparr>dl_db := d\<rparr>) = credits_in_lens n"
      using all_credits_same [OF m] by (simp add: credits_in_lens_def in_escrow_def)
    moreover have "deals_ok (n\<lparr>dl_db := d\<rparr>)"
      using assms(1) same_money_books [OF m] same_money_views(7) [OF m]
      by (simp add: deals_ok_def escrow_ok_def escrowed_def)
    ultimately show ?thesis by (simp add: n' deal_kept_def escrows_kept_same)
  next
    case False
    then have "fst (refused_deal cx n ap r) = n" by (auto simp: Inl refused_deal_def split: err.split)
    then show ?thesis using deal_kept_refl [OF assms(1)] by simp
  qed
qed

lemma pay_into_escrow_kept:
  assumes i: "deals_ok n"
  shows "deal_kept n (fst (pay_into_escrow dk cx n w a address amount memo release_at new_id approval_id))"
proof -
  have b: "books (dl_db n)" "escrow_ok n" using i by (simp_all add: deals_ok_def)
  have tn: "\<And>v. 0 \<le> test_of (dl_db n) v" using b(1) by (auto simp: books_slack_0 dest: slackD(7))
  have "deal_kept n n'" if r: "pay_into_escrow_tx dk cx' n (new_escrow cx new_id w a to amount memo release_at) = Inr (n', e')"
    and pos: "0 < amount" for cx' to n' e'
  proof -
    let ?e = "new_escrow cx new_id w a to amount memo release_at"
    have e: "0 < es_amount ?e" "es_status ?e = EsHeld" using pos by (simp_all add: new_escrow_def)
    show ?thesis
      using pay_in_keeps [OF r e b(2,1)] pay_in_moves(1) [OF r e(1) b(1)]
        escrows_kept_snoc [OF pay_in_row(1) [OF r e(1) tn]]
      by (simp add: deal_kept_def deals_ok_def)
  qed
  then show ?thesis
    using deal_kept_refl [OF i]
    by (auto simp: pay_into_escrow_def Let_def intro: refused_deal_kept [OF i] split: sum.split)
qed

lemma confirm_kept: "deals_ok n \<Longrightarrow> deal_kept n (fst (confirm_escrow cx n w i))"
  by (auto simp: confirm_escrow_def kept_or_def open_escrow_def
      intro: deal_kept_refl escrow_settle_kept split: option.split sum.split dest!: payer_escrowD)

lemma dispute_kept: "deals_ok n \<Longrightarrow> deal_kept n (fst (dispute_escrow cx n w i reason))"
  by (auto simp: dispute_escrow_def Let_def intro: deal_kept_refl disputed_kept
      split: option.split dest!: payer_escrowD)

lemma disputed_escrowD: "find (\<lambda>e. es_id e = i \<and> es_status e = EsDisputed) es = Some e \<Longrightarrow>
    e \<in> set es \<and> es_id e = i \<and> es_status e = EsDisputed"
  by (auto simp: find_Some_iff)

lemma decide_kept: "deals_ok n \<Longrightarrow> deal_kept n (fst (decide_escrow cx n i release operator note))"
  by (auto simp: decide_escrow_def kept_or_def open_escrow_def
      intro: deal_kept_refl escrow_settle_kept split: option.split sum.split dest!: disputed_escrowD)

lemma due_escrowsD: "e \<in> set (due_escrows n now) \<longleftrightarrow> e \<in> set (dl_escrows n) \<and> es_status e = EsHeld \<and> es_release_at e \<le> now"
  by (auto simp: due_escrows_def)

lemma deadline_kept:
  assumes i: "deals_ok n"
  shows "deal_kept n (fst (run_escrow_deadline told cx now n))"
proof (cases "due_escrows n now")
  case Nil
  then show ?thesis using deal_kept_refl [OF i] by (simp add: run_escrow_deadline_def)
next
  case (Cons e es)
  then have "e \<in> set (due_escrows n now)" by simp
  then have e: "e \<in> set (dl_escrows n)" "es_status e = EsHeld" by (simp_all add: due_escrowsD)
  then show ?thesis
    using Cons disputed_kept [OF i e] escrow_settle_kept [OF i e(1)]
    by (auto simp: run_escrow_deadline_def open_escrow_def split: sum.split)
qed

text \<open>
  Each tick settles the escrow that is due first, or leaves it to the operator: one less is due, so
  a run leaves nothing due when no more than its ticks were.
\<close>

lemma due_count: "int (length (due_escrows n now)) =
    sum_where (\<lambda>e. es_status e = EsHeld \<and> es_release_at e \<le> now) (\<lambda>_. 1) (dl_escrows n)"
  unfolding due_escrows_def length_sort by (induction "dl_escrows n" arbitrary: n) (simp_all add: sum_where_def sum_list_triv)

lemma due_escrows_update:
  assumes i: "escrow_ok n" and e: "e \<in> set (due_escrows n now)"
    and n': "dl_escrows n' = map (\<lambda>x. if es_id x = es_id e then f x else x) (dl_escrows n)"
    and f: "\<And>x. es_status (f x) \<noteq> EsHeld" "\<And>x. es_id (f x) = es_id x"
  shows "length (due_escrows n' now) < length (due_escrows n now)"
proof -
  have m: "e \<in> set (dl_escrows n)" "es_status e = EsHeld" "es_release_at e \<le> now"
    using e by (simp_all add: due_escrowsD)
  have "int (length (due_escrows n' now)) = int (length (due_escrows n now)) - 1"
    unfolding due_count n' using sum_where_update [OF escrow_okD(1) [OF i] m(1) f(2)] f(1) m(2,3) by simp
  then show ?thesis by simp
qed

lemma settle_due_less:
  assumes i: "deals_ok n" and e: "e \<in> set (due_escrows n now)"
    and r: "settle_escrow_tx cx n e True actor operator detail = Inr n'"
  shows "length (due_escrows n' now) < length (due_escrows n now)"
proof -
  have k: "escrow_ok n" using i by (simp add: deals_ok_def)
  have "es_amount e \<noteq> 0" using escrow_okD(2) [OF k] e by (fastforce simp: due_escrowsD)
  then show ?thesis
    by (rule due_escrows_update [OF k e settle_escrow_tx_InrD(2) [OF r]]) (simp_all add: settled_status_def)
qed

lemma disputed_due_less:
  assumes "deals_ok n" "e \<in> set (due_escrows n now)"
  shows "length (due_escrows (mark_disputed cx n (es_id e) actor detail) now) < length (due_escrows n now)"
  using assms by (intro due_escrows_update [where f = "\<lambda>e. e\<lparr>es_status := EsDisputed\<rparr>" and e = e])
    (simp_all add: deals_ok_def mark_disputed_def)

lemma deadline_settles:
  assumes i: "deals_ok n" and t: "run_escrow_deadline told cx now n = (n', Inr (Some x))"
  shows "length (due_escrows n' now) < length (due_escrows n now)"
proof -
  obtain e es where due: "due_escrows n now = e # es"
    using t by (auto simp: run_escrow_deadline_def split: list.splits)
  then have e: "e \<in> set (due_escrows n now)" by simp
  show ?thesis
  proof (cases "settle_escrow_tx cx n e True Deadline '''' ''the deadline passed without a dispute''")
    case (Inl y)
    then show ?thesis using t due disputed_due_less [OF i e, of cx Deadline] by (simp add: run_escrow_deadline_def) blast
  next
    case (Inr m)
    then show ?thesis using t due settle_due_less [OF i e Inr] by (simp add: run_escrow_deadline_def)
  qed
qed

interpretation escrow_run: tick_runner "run_escrow_deadline told cx now" "\<lambda>n. length (due_escrows n now)" deals_ok
proof
  show "length (due_escrows n' now) < length (due_escrows n now) \<and> deals_ok n'"
    if "deals_ok n" "run_escrow_deadline told cx now n = (n', Inr (Some x))" for n n' x
    using deadline_settles [OF that] deadline_kept [OF that(1), of told cx now] that(2) by (simp add: deal_kept_def)
qed (auto simp: run_escrow_deadline_def split: list.splits sum.splits)

lemma deadline_never_fails: "run_escrow_deadline told cx now n \<noteq> (n', Inl e)"
  by (auto simp: run_escrow_deadline_def split: list.splits sum.splits)

text \<open>A run of the deadlines: as many as were due when they are no more than a run's ticks, and then none is.\<close>

lemma run_deadlines_due:
  assumes "deals_ok n" and "run_escrow_deadlines told cx now n = (n', k)"
  shows "k \<le> max_ticks_per_run" and "k + length (due_escrows n' now) \<le> length (due_escrows n now)"
    and "deals_ok n'" and "length (due_escrows n now) \<le> max_ticks_per_run \<Longrightarrow> due_escrows n' now = []"
proof -
  obtain ids e where r: "run_ticks (run_escrow_deadline told cx now) max_ticks_per_run n = (n', ids, e)" "k = length ids"
    using assms(2) by (auto simp: run_escrow_deadlines_def split: prod.splits)
  have "e = None" using deadline_never_fails r(1) by (rule run_ticks_fine)
  with r escrow_run.run_bounded [OF assms(1) r(1)] escrow_run.run_finishes [OF assms(1)]
  show "k \<le> max_ticks_per_run" "k + length (due_escrows n' now) \<le> length (due_escrows n now)" "deals_ok n'"
    "length (due_escrows n now) \<le> max_ticks_per_run \<Longrightarrow> due_escrows n' now = []"
    by auto
qed

text \<open>A settled escrow stays as it was settled.\<close>

definition settled :: "escrow \<Rightarrow> bool" where
  "settled e \<longleftrightarrow> es_status e = EsReleased \<or> es_status e = EsReturned"

lemma settled_not_open: "settled e \<longleftrightarrow> \<not> open_escrow e"
  by (cases "es_status e") (simp_all add: settled_def open_escrow_def)

lemma escrows_kept_nth:
  assumes "escrows_kept n n'" "j < length (dl_escrows n)"
  shows "j < length (dl_escrows n')" "same_terms (dl_escrows n ! j) (dl_escrows n' ! j)"
    "follows (es_status (dl_escrows n ! j)) (es_status (dl_escrows n' ! j))"
  using assms by (auto simp: escrows_kept_def list_all2_conv_all_nth)

lemma settled_stays:
  assumes "escrows_kept n n'" "j < length (dl_escrows n)" "settled (dl_escrows n ! j)"
  shows "j < length (dl_escrows n')" "es_status (dl_escrows n' ! j) = es_status (dl_escrows n ! j)"
  using escrows_kept_nth [OF assms(1,2)] assms(3) by (auto simp: settled_def follows_def)

end
