(* ===== verification/Tick_Times.thy ===== *)
theory Tick_Times
  imports Clock
begin

section \<open>When the next tick falls\<close>

text \<open>
  \<open>add_date\<close> is \<open>time.Time.AddDate(0, months, days)\<close> in UTC, where a day past the end of its month
  runs on into the next; \<open>next_tick\<close> (agent_schedules.go) and \<open>due_of\<close> (company_loans.go) are built
  on it. The lemmas say that every step goes forward, by an hour at least.
\<close>

definition add_date :: "int \<Rightarrow> int \<Rightarrow> int \<Rightarrow> int" where
  "add_date t months days =
     (case civil_of_days (t div ns_day) of (y, m, d) \<Rightarrow>
        let i = y * 12 + (m - 1) + months
        in (days_of_civil (i div 12) (i mod 12 + 1) d + days) * ns_day + t mod ns_day)"

definition next_tick :: "int \<Rightarrow> string \<Rightarrow> int" where
  "next_tick t every =
     (if every = ''hour'' then t + ns_hour
      else if every = ''day'' then add_date t 0 1
      else if every = ''week'' then add_date t 0 7
      else add_date t 1 0)"

definition due_of :: "int \<Rightarrow> string \<Rightarrow> int \<Rightarrow> int" where
  "due_of decided every k =
     (if every = ''day'' then add_date decided 0 k
      else if every = ''week'' then add_date decided 0 (7 * k)
      else add_date decided k 0)"

text \<open>The days before the month numbered \<open>i\<close> since year 0.\<close>

definition month_first :: "int \<Rightarrow> int" where
  "month_first i = days_before_year (i div 12) + days_before_month (i div 12) (i mod 12 + 1)"

lemma month_first_step: "month_first i + 28 \<le> month_first (i + 1)"
proof (cases "i mod 12 = 11")
  case True
  then have e: "i + 1 = 12 * (i div 12 + 1)" using div_mult_mod_eq [of i 12] by simp
  have q: "(i + 1) div 12 = i div 12 + 1" "(i + 1) mod 12 = 0" by (subst e, simp)+
  show ?thesis
    unfolding month_first_def q True days_before_year_Suc
    by (simp add: days_before_month_def month_days_def year_days_def)
next
  case False
  have r: "0 \<le> i mod 12" "i mod 12 < 12" by simp_all
  then have q: "(i + 1) div 12 = i div 12" "(i + 1) mod 12 = i mod 12 + 1"
  proof -
    have split: "(12 * a + b) div 12 = a" "(12 * a + b) mod 12 = b" if "0 \<le> b" "b < 12" for a b :: int
      using that by simp_all
    have e: "i + 1 = 12 * (i div 12) + (i mod 12 + 1)" using div_mult_mod_eq [of i 12] by simp
    have b: "0 \<le> i mod 12 + 1" "i mod 12 + 1 < 12" using r False by linarith+
    show "(i + 1) div 12 = i div 12" by (subst e, rule split(1) [OF b])
    show "(i + 1) mod 12 = i mod 12 + 1" by (subst e, rule split(2) [OF b])
  qed
  define m where "m = nat (i mod 12)"
  have m: "m < 11" "i mod 12 = int m" using r False by (auto simp: m_def)
  have l: "length (month_days y) = 12" for y by (simp add: month_days_def)
  have "28 \<le> month_days (i div 12) ! m" using m(1) by (auto simp: month_days_def nth_Cons split: nat.split)
  then show ?thesis
    unfolding month_first_def q days_before_month_def m(2) using m(1)
    by (simp add: take_Suc_conv_app_nth l nat_add_distrib)
qed

lemma month_first_mono: "month_first i + 28 * int k \<le> month_first (i + int k)"
proof (induction k)
  case (Suc k)
  then show ?case using month_first_step [of "i + int k"] by (simp add: algebra_simps)
qed simp

lemma add_date_eq:
  obtains i d where "t div ns_day = month_first i + (d - 1)"
    and "\<And>months days. add_date t months days = (month_first (i + months) + (d - 1) + days) * ns_day + t mod ns_day"
proof -
  obtain y m d where c: "civil_of_days (t div ns_day) = (y, m, d)" by (metis prod_cases3)
  note inv = civil_of_days_inv [OF c]
  define i where "i = y * 12 + (m - 1)"
  have i: "i div 12 = y" "i mod 12 + 1 = m" using inv by (simp_all add: i_def)
  show thesis
  proof (rule that [of i d])
    show "t div ns_day = month_first i + (d - 1)" using inv by (simp add: month_first_def i days_of_civil_def)
    show "add_date t months days = (month_first (i + months) + (d - 1) + days) * ns_day + t mod ns_day" for months days
      by (simp add: add_date_def c Let_def month_first_def days_of_civil_def i_def algebra_simps)
  qed
qed

lemma add_date_later:
  assumes "0 \<le> days"
  shows "t + (28 * int k + days) * ns_day \<le> add_date t (int k) days"
proof -
  obtain i d where t: "t div ns_day = month_first i + (d - 1)"
    and a: "add_date t (int k) days = (month_first (i + int k) + (d - 1) + days) * ns_day + t mod ns_day"
    using add_date_eq [of t] by metis
  have "t = (month_first i + (d - 1)) * ns_day + t mod ns_day"
    using div_mult_mod_eq [of t ns_day] by (simp add: t)
  moreover have "(month_first i + 28 * int k) * ns_day \<le> month_first (i + int k) * ns_day"
    using month_first_mono [of i k] by (simp add: ns_defs)
  ultimately show ?thesis unfolding a by (simp add: algebra_simps)
qed

lemma next_tick_later: "t + ns_hour \<le> next_tick t every"
  using add_date_later [of 1 t 0] add_date_later [of 7 t 0] add_date_later [of 0 t 1]
  by (auto simp: next_tick_def ns_defs)

lemma due_of_later: "t + int k * ns_day \<le> due_of t every (int k)"
  using add_date_later [of "int k" t 0] add_date_later [of "7 * int k" t 0] add_date_later [of 0 t k]
  by (auto simp: due_of_def ns_defs)

end
