(* ===== verification/Company_Loans.thy ===== *)
theory Company_Loans
  imports Agent_Escrows Tick_Times
begin

section \<open>Loans between companies (company_loans.go)\<close>

text \<open>
  A loan is offered, answered, and repaid in instalments taken on the schedules' tick, each a
  transfer that names the loan. Instalments are computed in \<open>int64\<close>, so \<open>instalment\<close> wraps every
  operation; the first group of lemmas is about their sum.
\<close>

subsection \<open>Terms\<close>

definition loan_interest :: "loan_terms \<Rightarrow> int" where
  "loan_interest t = go_div (i64 (lt_principal t * lt_bps t)) 10000"

definition instalment :: "loan_terms \<Rightarrow> int \<Rightarrow> int \<times> int" where
  "instalment t k =
     (let n = lt_instalments t; total = loan_interest t;
          capital = go_div (lt_principal t) n; interest = go_div total n
      in if k = n
         then (i64 (lt_principal t - i64 (capital * (n - 1))), i64 (total - i64 (interest * (n - 1))))
         else (capital, interest))"

definition validate_terms :: "loan_terms \<Rightarrow> err + unit" where
  "validate_terms t =
     (if lt_principal t \<le> 0 then Inl (ErrLoanTerms ''the principal must be positive'')
      else if lt_bps t < 0 \<or> lt_bps t > 100000 then Inl (ErrLoanTerms ''interest_bps must be 0 to 100000'')
      else if lt_instalments t < 1 \<or> lt_instalments t > 120 then Inl (ErrLoanTerms ''1 to 120 instalments'')
      else if lt_every t \<noteq> ''day'' \<and> lt_every t \<noteq> ''week'' \<and> lt_every t \<noteq> ''month''
      then Inl (ErrLoanTerms ''every must be day, week or month'')
      else if lt_late_fee t < 0 then Inl (ErrLoanTerms ''the late fee cannot be negative'')
      else Inr ())"

definition is_company :: "db \<Rightarrow> string \<Rightarrow> bool" where
  "is_company d w = (case workspaces d w of None \<Rightarrow> False | Some r \<Rightarrow> wk_company r \<or> wk_synthetic r)"

text \<open>Both sides are companies; one workspace counts once, so it is never both.\<close>

definition require_companies :: "db \<Rightarrow> string \<Rightarrow> string \<Rightarrow> err + unit" where
  "require_companies d a b =
     (if length (filter (is_company d) (remdups [a, b])) = 2 then Inr () else Inl ErrLoanCompaniesOnly)"

subsection \<open>Reading\<close>

definition loan_events_of :: "deals \<Rightarrow> string \<Rightarrow> loan_event list" where
  "loan_events_of n i = filter (\<lambda>e. le_loan e = i) (dl_loan_events n)"

definition loan_side :: "string \<Rightarrow> loan \<Rightarrow> bool" where
  "loan_side w l \<longleftrightarrow> ln_lender_ws l = w \<or> ln_borrower_ws l = w"

definition get_loan :: "deals \<Rightarrow> string \<Rightarrow> string \<Rightarrow> err + loan \<times> loan_event list" where
  "get_loan n w i =
     (case find (\<lambda>l. ln_id l = i \<and> loan_side w l) (dl_loans n) of
        None \<Rightarrow> Inl ErrLoanNotFound
      | Some l \<Rightarrow> Inr (l, loan_events_of n i))"

definition list_loans :: "deals \<Rightarrow> string \<Rightarrow> (loan \<times> loan_event list) list" where
  "list_loans n w = map (\<lambda>l. (l, loan_events_of n (ln_id l)))
     (sort_key (\<lambda>l. (- ln_offered l, ln_id l)) (filter (loan_side w) (dl_loans n)))"

subsection \<open>Offering\<close>

text \<open>An uncleared loan is made of test-funded credits only, and the offer is refused when they are too few.\<close>

definition may_lend :: "store \<Rightarrow> ctx \<Rightarrow> gate_db \<Rightarrow> db \<Rightarrow> string \<Rightarrow> int \<Rightarrow> err + unit" where
  "may_lend s cx g d w capital =
     (case capability_by_key ''loans_between_companies'' of
        None \<Rightarrow> Inr ()
      | Some c \<Rightarrow>
          if cp_class c = Green then Inr ()
          else rbind (refuse_frozen g w c) (\<lambda>_.
            case capability_live s cx g d w c of
              None \<Rightarrow> Inr ()
            | Some refusal \<Rightarrow>
                if test_funded_ulxc d w < capital \<and> \<not> test_workspace d w
                then Inl (ErrCapability refusal) else Inr ()))"

definition offer_loan ::
    "desk \<Rightarrow> ctx \<Rightarrow> deals \<Rightarrow> string \<Rightarrow> string \<Rightarrow> string \<Rightarrow> loan_terms \<Rightarrow> string \<Rightarrow> err + deals \<times> loan" where
  "offer_loan dk cx n w lender address terms new_id =
     rbind (validate_terms terms) (\<lambda>_.
     rbind (resolve_wallet n address) (\<lambda>to.
       let d = dl_db n
       in if wa_ws to = w then Inl (ErrLoanTerms ''a company cannot lend to itself'')
          else
            rbind (lock_agent d w lender) (\<lambda>_.
            rbind (require_companies d w (wa_ws to)) (\<lambda>_.
            rbind (check_money_wall d w (wa_ws to)) (\<lambda>_.
            rbind (owner_verified dk d w lender) (\<lambda>_.
            rbind (owner_verified dk d (wa_ws to) (wa_id to)) (\<lambda>_.
            rbind (may_lend (dk_store dk) cx (dl_gates n) d w (lt_principal terms)) (\<lambda>_.
              if list_ex (\<lambda>l. ln_id l = new_id) (dl_loans n) then Inl (ErrDbCheck ''agent_loans_pkey'')
              else let l = \<lparr>ln_id = new_id, ln_lender_ws = w, ln_lender = lender, ln_borrower_ws = wa_ws to,
                     ln_borrower = wa_id to, ln_terms = terms, ln_status = LnOffered, ln_paid = 0, ln_due = None,
                     ln_offered = cx_now cx, ln_decided = None,
                     ln_test = test_workspace d w \<or> test_workspace d (wa_ws to)\<rparr>
                   in Inr (n\<lparr>dl_loans := dl_loans n @ [l]\<rparr>, l)))))))))"

subsection \<open>Answering and withdrawing\<close>

definition update_loan :: "(loan \<Rightarrow> loan) \<Rightarrow> string \<Rightarrow> deals \<Rightarrow> deals" where
  "update_loan f i n = n\<lparr>dl_loans := map (\<lambda>l. if ln_id l = i then f l else l) (dl_loans n)\<rparr>"

definition loan_event ::
    "ctx \<Rightarrow> deals \<Rightarrow> string \<Rightarrow> loan_event_kind \<Rightarrow> int \<Rightarrow> int \<Rightarrow> int \<Rightarrow> int \<Rightarrow> string \<Rightarrow> deals" where
  "loan_event cx n i kind k capital interest fee transfer =
     n\<lparr>dl_loan_events := dl_loan_events n @ [\<lparr>le_loan = i, le_kind = kind, le_instalment = k,
       le_principal = capital, le_interest = interest, le_late_fee = fee, le_transfer = transfer,
       le_at = cx_now cx\<rparr>]\<rparr>"

definition payout_of :: "loan \<Rightarrow> transfer" where
  "payout_of l = (new_transfer (ln_lender_ws l) (ln_lender l) (ln_borrower_ws l) (ln_borrower l)
       (lt_principal (ln_terms l)) (''loan '' @ ln_id l @ '': payout''))
     \<lparr>tr_loan := ln_id l, tr_capability := ''loans_between_companies''\<rparr>"

definition pay_out_loan :: "desk \<Rightarrow> ctx \<Rightarrow> deals \<Rightarrow> loan \<Rightarrow> string \<Rightarrow> err + deals \<times> unit" where
  "pay_out_loan dk cx n l new_id =
     (let cx' = with_agent_request cx (pay_request (''loan:'' @ ln_id l)
            \<lparr>py_kind = ''company'', py_id = ln_borrower_ws l, py_name = ''''\<rparr> (lt_memo (ln_terms l)))
      in rbind (transfer_tx dk cx' n (payout_of l) True new_id) (\<lambda>(n, t).
           let start = (\<lambda>l. l\<lparr>ln_status := LnActive, ln_decided := Some (tr_at t),
                 ln_due := Some (due_of (tr_at t) (lt_every (ln_terms l)) 1)\<rparr>)
           in Inr (loan_event cx (update_loan start (ln_id l) n) (ln_id l) LePayout 0
                (lt_principal (ln_terms l)) 0 0 (tr_id t), ())))"

definition offered_loan :: "deals \<Rightarrow> string \<Rightarrow> string \<Rightarrow> loan option" where
  "offered_loan n w i = find (\<lambda>l. ln_id l = i \<and> ln_borrower_ws l = w \<and> ln_status l = LnOffered) (dl_loans n)"

definition answer_with_loan :: "string \<Rightarrow> string \<Rightarrow> deals \<times> (err + 'a) \<Rightarrow> deals \<times> (err + loan \<times> loan_event list)" where
  "answer_with_loan w i r = (case r of (n, Inl e) \<Rightarrow> (n, Inl e) | (n, Inr x) \<Rightarrow> (n, get_loan n w i))"

definition answer_loan ::
    "desk \<Rightarrow> ctx \<Rightarrow> deals \<Rightarrow> string \<Rightarrow> string \<Rightarrow> bool \<Rightarrow> string \<Rightarrow> string \<Rightarrow> deals \<times> (err + loan \<times> loan_event list)" where
  "answer_loan dk cx n w i accept new_id approval_id =
     (case offered_loan n w i of
        None \<Rightarrow> (n, Inl ErrLoanNotFound)
      | Some l \<Rightarrow>
          if \<not> accept
          then answer_with_loan w i
            (update_loan (\<lambda>l. l\<lparr>ln_status := LnDeclined, ln_decided := Some (cx_now cx)\<rparr>) i n, Inr ())
          else
            (case require_companies (dl_db n) (ln_lender_ws l) (ln_borrower_ws l) of
               Inl e \<Rightarrow> (n, Inl e)
             | Inr _ \<Rightarrow> answer_with_loan w i (refused_deal cx n approval_id (pay_out_loan dk cx n l new_id))))"

definition withdraw_loan :: "ctx \<Rightarrow> deals \<Rightarrow> string \<Rightarrow> string \<Rightarrow> err + deals" where
  "withdraw_loan cx n w i =
     (if list_ex (\<lambda>l. ln_id l = i \<and> ln_lender_ws l = w \<and> ln_status l = LnOffered) (dl_loans n)
      then Inr (update_loan (\<lambda>l. if ln_lender_ws l = w \<and> ln_status l = LnOffered
             then l\<lparr>ln_status := LnWithdrawn, ln_decided := Some (cx_now cx)\<rparr> else l) i n)
      else Inl ErrLoanNotFound)"

definition running :: "loan \<Rightarrow> bool" where
  "running l \<longleftrightarrow> ln_status l = LnActive \<or> ln_status l = LnLate"

definition bring_test_loan_due :: "deals \<Rightarrow> string \<Rightarrow> string \<Rightarrow> int \<Rightarrow> deals \<times> (err + loan \<times> loan_event list)" where
  "bring_test_loan_due n w i now =
     (if list_ex (\<lambda>l. ln_id l = i \<and> loan_side w l \<and> ln_test l \<and> running l) (dl_loans n)
      then answer_with_loan w i
        (update_loan (\<lambda>l. if loan_side w l \<and> ln_test l \<and> running l
           then l\<lparr>ln_due := Some (case ln_due l of None \<Rightarrow> now | Some t \<Rightarrow> min t now)\<rparr> else l) i n, Inr ())
      else (n, Inl ErrLoanNotFound))"

subsection \<open>Repaying\<close>

definition due_loans :: "deals \<Rightarrow> int \<Rightarrow> loan list" where
  "due_loans n now = sort_key (\<lambda>l. (the (ln_due l), ln_id l))
     (filter (\<lambda>l. running l \<and> (case ln_due l of None \<Rightarrow> False | Some t \<Rightarrow> t \<le> now)) (dl_loans n))"

definition late_fee_now :: "loan \<Rightarrow> int" where
  "late_fee_now l = (if ln_status l = LnLate then lt_late_fee (ln_terms l) else 0)"

definition instalment_of :: "loan \<Rightarrow> transfer" where
  "instalment_of l =
     (let k = ln_paid l + 1
      in case instalment (ln_terms l) k of (capital, interest) \<Rightarrow>
        (new_transfer (ln_borrower_ws l) (ln_borrower l) (ln_lender_ws l) (ln_lender l)
           (i64 (i64 (capital + interest) + late_fee_now l))
           (''loan '' @ ln_id l @ '': instalment '' @ show_int k @ '' of '' @ show_int (lt_instalments (ln_terms l))))
        \<lparr>tr_loan := ln_id l, tr_capability := ''loans_between_companies''\<rparr>)"

text \<open>The errors that make an instalment missed; any other fails the tick.\<close>

definition counts_as_missed :: "err \<Rightarrow> bool" where
  "counts_as_missed e \<longleftrightarrow> (case e of ErrAgentFunds _ \<Rightarrow> True | ErrCapability _ \<Rightarrow> True | ErrOwnerUnverified \<Rightarrow> True
     | ErrAgentNotFound \<Rightarrow> True | ErrMoneyWall \<Rightarrow> True | _ \<Rightarrow> False)"

definition loan_paid :: "loan \<Rightarrow> loan" where
  "loan_paid l =
     (let k = ln_paid l + 1
      in if k = lt_instalments (ln_terms l)
         then l\<lparr>ln_status := LnRepaid, ln_paid := k, ln_due := None\<rparr>
         else l\<lparr>ln_status := LnActive, ln_paid := k,
           ln_due := Some (due_of (the (ln_decided l)) (lt_every (ln_terms l)) (k + 1))\<rparr>)"

definition loan_missed :: "loan \<Rightarrow> loan" where
  "loan_missed l =
     (if ln_status l = LnLate then l\<lparr>ln_status := LnDefaulted, ln_due := None\<rparr>
      else l\<lparr>ln_status := LnLate, ln_due := Some (due_of (the (ln_due l)) (lt_every (ln_terms l)) 1)\<rparr>)"

definition run_loan_tick ::
    "desk \<Rightarrow> ctx \<Rightarrow> (deals \<Rightarrow> string) \<Rightarrow> int \<Rightarrow> deals \<Rightarrow> deals \<times> (err + loan_event_kind option)" where
  "run_loan_tick dk cx fresh now n =
     (case due_loans n now of
        [] \<Rightarrow> (n, Inr None)
      | l # _ \<Rightarrow>
          (let k = ln_paid l + 1; fee = late_fee_now l; i = ln_id l
           in case instalment (ln_terms l) k of (capital, interest) \<Rightarrow>
             (case transfer_tx dk cx n (instalment_of l) False (fresh n) of
                Inr (n, t) \<Rightarrow>
                  (loan_event cx (update_loan loan_paid i n) i LeInstalment k capital interest fee (tr_id t),
                   Inr (Some LeInstalment))
              | Inl e \<Rightarrow>
                  if counts_as_missed e
                  then let kind = (if ln_status l = LnLate then LeDefaulted else LeLate);
                           n = loan_event cx n i LeMissed k capital interest fee ''''
                       in (loan_event cx (update_loan loan_missed i n) i kind k 0 0 0 '''', Inr (Some kind))
                  else (n, Inl e))))"

definition run_loan_repayments ::
    "desk \<Rightarrow> ctx \<Rightarrow> (deals \<Rightarrow> string) \<Rightarrow> int \<Rightarrow> deals \<Rightarrow> deals \<times> (nat \<times> nat \<times> nat) \<times> err option" where
  "run_loan_repayments dk cx fresh now n =
     (case run_ticks (run_loan_tick dk cx fresh now) max_ticks_per_run n of (n, kinds, e) \<Rightarrow>
        (n, (length (filter (\<lambda>k. k = LeInstalment) kinds), length (filter (\<lambda>k. k = LeLate \<or> k = LeDefaulted) kinds),
          length (filter (\<lambda>k. k = LeDefaulted) kinds)), e))"

subsection \<open>The instalments add up\<close>

definition loan_terms_ok :: "loan_terms \<Rightarrow> bool" where
  "loan_terms_ok t \<longleftrightarrow> validate_terms t = Inr () \<and> is_i64 (lt_principal t)"

text \<open>Terms whose interest does not overflow: \<open>principal * interest_bps\<close> fits an \<open>int64\<close>.\<close>

definition interest_fits :: "loan_terms \<Rightarrow> bool" where
  "interest_fits t \<longleftrightarrow> is_i64 (lt_principal t * lt_bps t)"

lemma loan_terms_okD:
  assumes "loan_terms_ok t"
  shows "0 < lt_principal t" "0 \<le> lt_bps t" "lt_bps t \<le> 100000" "1 \<le> lt_instalments t" "lt_instalments t \<le> 120"
    "0 \<le> lt_late_fee t" "is_i64 (lt_principal t)"
  using assms by (auto simp: loan_terms_ok_def validate_terms_def split: if_splits)

lemma last_part: "0 \<le> x \<Longrightarrow> 1 \<le> n \<Longrightarrow> 0 \<le> x - x div n * (n - 1) \<and> x - x div n * (n - 1) \<le> x" for x n :: int
proof -
  assume a: "0 \<le> x" "1 \<le> n"
  have "x - x div n * (n - 1) = x div n + x mod n"
    using div_mult_mod_eq [of x n] by (simp add: algebra_simps)
  moreover have "0 \<le> x div n" "0 \<le> x mod n" using a by (simp_all add: pos_imp_zdiv_nonneg_iff)
  moreover have "0 \<le> x div n * (n - 1)" using a \<open>0 \<le> x div n\<close> by simp
  ultimately show ?thesis by linarith
qed

lemma is_i64_between: "0 \<le> x \<Longrightarrow> x \<le> y \<Longrightarrow> is_i64 y \<Longrightarrow> is_i64 x"
  by (simp add: is_i64_def)

lemma loan_interest_eq:
  assumes "loan_terms_ok t" "interest_fits t"
  shows "loan_interest t = lt_principal t * lt_bps t div 10000" "0 \<le> loan_interest t" "is_i64 (loan_interest t)"
proof -
  note T = loan_terms_okD [OF assms(1)]
  have nn: "0 \<le> lt_principal t * lt_bps t" using T(1,2) by simp
  show e: "loan_interest t = lt_principal t * lt_bps t div 10000"
    using assms(2) nn by (simp add: loan_interest_def interest_fits_def i64_id go_div_nonneg)
  show z: "0 \<le> loan_interest t" using nn by (simp add: e pos_imp_zdiv_nonneg_iff)
  have "loan_interest t \<le> lt_principal t * lt_bps t"
    unfolding e using zdiv_mono2 [OF nn, of 1 10000] by simp
  then show "is_i64 (loan_interest t)" using z assms(2) by (auto simp: interest_fits_def intro: is_i64_between)
qed

lemma split_part:
  assumes "0 \<le> x" "1 \<le> n" "is_i64 x"
  shows "i64 (x - i64 (go_div x n * (n - 1))) = x - x div n * (n - 1)"
proof -
  have "0 \<le> x div n" using assms by (simp add: pos_imp_zdiv_nonneg_iff)
  then have z: "0 \<le> x div n * (n - 1)" using assms(2) by simp
  have L: "0 \<le> x - x div n * (n - 1)" "x - x div n * (n - 1) \<le> x"
    using last_part [OF assms(1,2)] by blast+
  have "x div n * (n - 1) \<le> x" using L(1) by linarith
  with z have "is_i64 (x div n * (n - 1))" using assms(3) by (rule is_i64_between)
  moreover have "is_i64 (x - x div n * (n - 1))" using L assms(3) by (rule is_i64_between)
  ultimately show ?thesis using assms by (simp add: go_div_nonneg i64_id)
qed

lemma instalment_eq:
  assumes "loan_terms_ok t" "interest_fits t"
  shows "instalment t k = (let n = lt_instalments t; total = lt_principal t * lt_bps t div 10000 in
      if k = n then (lt_principal t - lt_principal t div n * (n - 1), total - total div n * (n - 1))
      else (lt_principal t div n, total div n))"
proof -
  note T = loan_terms_okD [OF assms(1)] and I = loan_interest_eq [OF assms]
  show ?thesis
    using T split_part [of "lt_principal t" "lt_instalments t"] split_part [OF I(2) T(4) I(3)] I(2)
    by (simp add: instalment_def Let_def I(1) go_div_nonneg)
qed

lemma sum_parts: "(\<Sum>k = 1..Suc m. if k = Suc m then a else b) = a + int m * b" for a b :: int
  by (simp add: sum.cl_ivl_Suc)

text \<open>The instalments repay the principal and the whole interest, to the credit.\<close>

lemma instalments_sum:
  assumes "loan_terms_ok t" "interest_fits t"
  shows "(\<Sum>k = 1..nat (lt_instalments t). fst (instalment t (int k))) = lt_principal t"
    and "(\<Sum>k = 1..nat (lt_instalments t). snd (instalment t (int k))) = lt_principal t * lt_bps t div 10000"
    and "0 \<le> fst (instalment t k)" and "0 \<le> snd (instalment t k)"
proof -
  note T = loan_terms_okD [OF assms(1)] and I = loan_interest_eq [OF assms]
  define m where "m = nat (lt_instalments t - 1)"
  have m: "nat (lt_instalments t) = Suc m" "lt_instalments t = int (Suc m)" using T(4) by (simp_all add: m_def)
  have k: "int k = lt_instalments t \<longleftrightarrow> k = Suc m" for k using m(2) by auto
  show "(\<Sum>k = 1..nat (lt_instalments t). fst (instalment t (int k))) = lt_principal t"
    unfolding instalment_eq [OF assms] Let_def k m(1)
    using sum_parts [of m "lt_principal t - lt_principal t div lt_instalments t * (lt_instalments t - 1)" "lt_principal t div lt_instalments t"]
    by (simp add: if_distrib m(2) cong: if_cong)
  show "(\<Sum>k = 1..nat (lt_instalments t). snd (instalment t (int k))) = lt_principal t * lt_bps t div 10000"
    unfolding instalment_eq [OF assms] Let_def k m(1)
    using sum_parts [of m "loan_interest t - loan_interest t div lt_instalments t * (lt_instalments t - 1)" "loan_interest t div lt_instalments t"]
    by (simp add: if_distrib m(2) I(1) cong: if_cong)
  show "0 \<le> fst (instalment t k)"
    using T last_part [of "lt_principal t" "lt_instalments t"]
    by (simp add: instalment_eq [OF assms] Let_def pos_imp_zdiv_nonneg_iff)
  show "0 \<le> snd (instalment t k)"
    using T I(2) last_part [of "loan_interest t" "lt_instalments t"]
    by (simp add: instalment_eq [OF assms] Let_def I(1) pos_imp_zdiv_nonneg_iff)
qed

end
