(* ===== verification/Loan_Books.thy ===== *)
theory Loan_Books
  imports Company_Loans
begin

section \<open>What a loan has paid, and the states it passes through\<close>

text \<open>
  \<open>loans_ok\<close> is the invariant of the loans: the transfers that name a loan are its payout and the
  instalments it has paid, to the credit, with the late fees its events tell; and what its status
  says of its instalments holds. Every operation on loans keeps it, and moves the status along
  \<open>loan_moves\<close>.
\<close>

subsection \<open>The invariant\<close>

definition loan_fits :: "loan_terms \<Rightarrow> bool" where
  "loan_fits t \<longleftrightarrow> interest_fits t \<and>
     is_i64 (lt_principal t + lt_principal t * lt_bps t div 10000 + lt_late_fee t)"

definition unanswered :: "loan \<Rightarrow> bool" where
  "unanswered l \<longleftrightarrow> ln_status l = LnOffered \<or> ln_status l = LnDeclined \<or> ln_status l = LnWithdrawn"

text \<open>What a loan paid out and what it took back, by the transfers that name it.\<close>

definition lent :: "deals \<Rightarrow> loan \<Rightarrow> int" where
  "lent n l = sum_where (\<lambda>t. tr_loan t = ln_id l \<and> tr_from_ws t = ln_lender_ws l) tr_amount (dl_transfers n)"

definition taken :: "deals \<Rightarrow> loan \<Rightarrow> int" where
  "taken n l = sum_where (\<lambda>t. tr_loan t = ln_id l \<and> tr_from_ws t = ln_borrower_ws l) tr_amount (dl_transfers n)"

definition fees_taken :: "deals \<Rightarrow> loan \<Rightarrow> int" where
  "fees_taken n l = sum_where (\<lambda>e. le_loan e = ln_id l \<and> le_kind e = LeInstalment) le_late_fee (dl_loan_events n)"

definition owed :: "loan_terms \<Rightarrow> nat \<Rightarrow> int" where
  "owed t k = (\<Sum>j = 1..k. fst (instalment t (int j)) + snd (instalment t (int j)))"

definition loan_ok :: "deals \<Rightarrow> loan \<Rightarrow> bool" where
  "loan_ok n l \<longleftrightarrow> ln_id l \<noteq> '''' \<and> validate_terms (ln_terms l) = Inr () \<and> ln_lender_ws l \<noteq> ln_borrower_ws l \<and>
     0 \<le> ln_paid l \<and> ln_paid l \<le> lt_instalments (ln_terms l) \<and>
     (running l \<longrightarrow> ln_paid l < lt_instalments (ln_terms l) \<and> ln_due l \<noteq> None \<and> ln_decided l \<noteq> None) \<and>
     (ln_status l = LnRepaid \<longrightarrow> ln_paid l = lt_instalments (ln_terms l)) \<and>
     (unanswered l \<longrightarrow> ln_paid l = 0) \<and>
     (loan_fits (ln_terms l) \<longrightarrow>
        lent n l = (if unanswered l then 0 else lt_principal (ln_terms l)) \<and>
        taken n l = owed (ln_terms l) (nat (ln_paid l)) + fees_taken n l)"

definition loans_ok :: "deals \<Rightarrow> bool" where
  "loans_ok n \<longleftrightarrow> distinct (map ln_id (dl_loans n)) \<and> (\<forall>l \<in> set (dl_loans n). loan_ok n l) \<and>
     (\<forall>t \<in> set (dl_transfers n). tr_loan t \<noteq> '''' \<longrightarrow> tr_loan t \<in> ln_id ` set (dl_loans n)) \<and>
     (\<forall>e \<in> set (dl_loan_events n). le_loan e \<in> ln_id ` set (dl_loans n))"

text \<open>A step that leaves the loans aside: the transfers it adds name none.\<close>

definition loans_aside :: "deals \<Rightarrow> deals \<Rightarrow> bool" where
  "loans_aside n n' \<longleftrightarrow> dl_loans n' = dl_loans n \<and> dl_loan_events n' = dl_loan_events n \<and>
     (\<exists>ts. dl_transfers n' = dl_transfers n @ ts \<and> (\<forall>t \<in> set ts. tr_loan t = ''''))"

lemma loans_aside_refl [simp]: "loans_aside n n"
  by (simp add: loans_aside_def)

lemma loans_aside_ok: "loans_ok n \<Longrightarrow> loans_aside n n' \<Longrightarrow> loans_ok n'"
proof -
  assume ok: "loans_ok n" and a: "loans_aside n n'"
  from a obtain ts where s: "dl_loans n' = dl_loans n" "dl_loan_events n' = dl_loan_events n"
    "dl_transfers n' = dl_transfers n @ ts" "\<forall>t \<in> set ts. tr_loan t = ''''"
    by (auto simp: loans_aside_def)
  have none: "sum_where (\<lambda>t. tr_loan t = ln_id l \<and> tr_from_ws t = w) tr_amount ts = 0" if "ln_id l \<noteq> ''''" for l w
    using s(4) that by (intro sum_where_none) auto
  have "loan_ok n' l" if o: "loan_ok n l" for l
  proof -
    have "ln_id l \<noteq> ''''" using o by (simp add: loan_ok_def)
    from none [OF this] show ?thesis using o by (simp add: loan_ok_def lent_def taken_def fees_taken_def s)
  qed
  then show ?thesis using ok s(4) by (auto simp: loans_ok_def s)
qed

lemma sum_where_other:
  "(\<And>x. x \<in> set ys \<Longrightarrow> \<not> p x) \<Longrightarrow> sum_where p f (xs @ ys) = sum_where p f xs"
  by (simp add: sum_where_none)

lemma loan_by_id: "loans_ok n \<Longrightarrow> l \<in> set (dl_loans n) \<Longrightarrow> x \<in> set (dl_loans n) \<Longrightarrow> ln_id x = ln_id l \<Longrightarrow> x = l"
  by (auto simp: loans_ok_def distinct_map dest: inj_onD)

text \<open>A step of one loan: its row, its transfers and its events, and no other's.\<close>

definition loan_step :: "deals \<Rightarrow> loan \<Rightarrow> (loan \<Rightarrow> loan) \<Rightarrow> transfer list \<Rightarrow> loan_event list \<Rightarrow> deals \<Rightarrow> bool" where
  "loan_step n l f ts es n' \<longleftrightarrow>
     dl_loans n' = map (\<lambda>x. if ln_id x = ln_id l then f x else x) (dl_loans n) \<and>
     dl_transfers n' = dl_transfers n @ ts \<and> (\<forall>t \<in> set ts. tr_loan t = ln_id l) \<and>
     dl_loan_events n' = dl_loan_events n @ es \<and> (\<forall>e \<in> set es. le_loan e = ln_id l)"

lemma loan_step_ok:
  assumes ok: "loans_ok n" and l: "l \<in> set (dl_loans n)" and s: "loan_step n l f ts es n'"
    and f: "ln_id (f l) = ln_id l" "loan_ok n' (f l)"
  shows "loans_ok n'"
proof -
  note S = s [unfolded loan_step_def]
  have same: "x = l" if "x \<in> set (dl_loans n)" "ln_id x = ln_id l" for x using loan_by_id [OF ok l that] .
  have ids: "map ln_id (dl_loans n') = map ln_id (dl_loans n)" using S same f(1) by (auto dest: same)
  have img: "ln_id ` set (dl_loans n') = ln_id ` set (dl_loans n)" using ids by (metis list.set_map)
  have "loan_ok n' x" if x: "x \<in> set (dl_loans n')" for x
  proof -
    obtain y where y: "y \<in> set (dl_loans n)" "x = (if ln_id y = ln_id l then f y else y)" using x S by auto
    show ?thesis
    proof (cases "ln_id y = ln_id l")
      case True
      then show ?thesis using y same f(2) by auto
    next
      case False
      then have "loan_ok n y" "x = y" using ok y by (auto simp: loans_ok_def)
      moreover have "lent n' y = lent n y" "taken n' y = taken n y" "fees_taken n' y = fees_taken n y"
        using S False by (auto simp: lent_def taken_def fees_taken_def simp del: sum_where_append intro!: sum_where_other)
      ultimately show ?thesis by (simp add: loan_ok_def)
    qed
  qed
  moreover have "\<forall>t \<in> set (dl_transfers n'). tr_loan t \<noteq> '''' \<longrightarrow> tr_loan t \<in> ln_id ` set (dl_loans n)"
    "\<forall>e \<in> set (dl_loan_events n'). le_loan e \<in> ln_id ` set (dl_loans n)"
    using ok S l by (auto simp: loans_ok_def)
  ultimately show ?thesis unfolding loans_ok_def img ids using ok by (simp add: loans_ok_def)
qed

subsection \<open>The status a loan may move to\<close>

definition loan_moves :: "loan_status \<Rightarrow> loan_status \<Rightarrow> bool" where
  "loan_moves a b \<longleftrightarrow> a = b \<or> (a = LnOffered \<and> (b = LnDeclined \<or> b = LnWithdrawn \<or> b = LnActive)) \<or>
     (a = LnActive \<and> (b = LnLate \<or> b = LnRepaid)) \<or>
     (a = LnLate \<and> (b = LnActive \<or> b = LnRepaid \<or> b = LnDefaulted))"

definition same_agreement :: "loan \<Rightarrow> loan \<Rightarrow> bool" where
  "same_agreement l l' \<longleftrightarrow> l' = l\<lparr>ln_status := ln_status l', ln_paid := ln_paid l', ln_due := ln_due l',
     ln_decided := ln_decided l'\<rparr> \<and> ln_paid l \<le> ln_paid l'"

definition loans_kept :: "deals \<Rightarrow> deals \<Rightarrow> bool" where
  "loans_kept n n' \<longleftrightarrow> length (dl_loans n) \<le> length (dl_loans n') \<and>
     list_all2 (\<lambda>l l'. same_agreement l l' \<and> loan_moves (ln_status l) (ln_status l'))
       (dl_loans n) (take (length (dl_loans n)) (dl_loans n'))"

lemma loans_kept_same: "dl_loans n' = dl_loans n \<Longrightarrow> loans_kept n n'"
  by (simp add: loans_kept_def same_agreement_def loan_moves_def list_all2_same)

lemma loans_kept_snoc: "dl_loans n' = dl_loans n @ [l] \<Longrightarrow> loans_kept n n'"
  by (simp add: loans_kept_def same_agreement_def loan_moves_def list_all2_same)

lemma loans_kept_step:
  assumes ok: "loans_ok n" and l: "l \<in> set (dl_loans n)" and s: "loan_step n l f ts es n'"
    and f: "same_agreement l (f l)" "loan_moves (ln_status l) (ln_status (f l))"
  shows "loans_kept n n'"
proof -
  have "same_agreement x (if ln_id x = ln_id l then f x else x) \<and>
      loan_moves (ln_status x) (ln_status (if ln_id x = ln_id l then f x else x))" if "x \<in> set (dl_loans n)" for x
    using loan_by_id [OF ok l that] f by (auto simp: same_agreement_def loan_moves_def)
  then show ?thesis
    using s by (simp add: loans_kept_def loan_step_def list_all2_map2 list_all2_same)
qed

subsection \<open>Every operation on loans\<close>

lemma transfer_kept:
  assumes i: "deals_ok n" and r: "transfer_tx dk cx n t judged new_id = Inr (n', t')"
  shows "deal_kept n n'"
proof -
  have b: "books (dl_db n)" "escrow_ok n" using i by (simp_all add: deals_ok_def)
  note M = transfer_moves [OF r b(1)]
  have e: "dl_escrows n' = dl_escrows n" by (subst transfer_row(2) [OF r]) simp
  have "escrow_ok n'" using b(2) M(2) by (simp add: escrow_ok_def escrowed_def e)
  then show ?thesis
    using M(1,6) by (simp add: deal_kept_def deals_ok_def credits_in_lens_def in_escrow_def e escrows_kept_same)
qed

lemma transfer_aside:
  "transfer_tx dk cx n t judged new_id = Inr (n', t') \<Longrightarrow> tr_loan t = '''' \<Longrightarrow> loans_aside n n'"
  using transfer_row(1,2,12) [of dk cx n t judged new_id n' t'] unfolding loans_aside_def
  by (metis deals.select_convs(4,8,9) deals.surjective deals.update_convs(1,4) transfer.select_convs(14) transfer.surjective
      transfer.update_convs(16) list.set(1) list.set(2) empty_iff insert_iff)

lemma deal_kept_cong:
  "deal_kept n n' \<Longrightarrow> dl_db n'' = dl_db n' \<Longrightarrow> dl_escrows n'' = dl_escrows n' \<Longrightarrow> deal_kept n n''"
  by (simp add: deal_kept_def deals_ok_def escrow_ok_def escrowed_def credits_in_lens_def in_escrow_def escrows_kept_def)

lemma instalment_le:
  assumes "loan_terms_ok t" "interest_fits t"
  shows "fst (instalment t k) \<le> lt_principal t" and "snd (instalment t k) \<le> lt_principal t * lt_bps t div 10000"
proof -
  note T = loan_terms_okD [OF assms(1)] and I = loan_interest_eq [OF assms]
  have d: "x div lt_instalments t \<le> x" if "0 \<le> x" for x
    using zdiv_mono2 [OF that, of 1 "lt_instalments t"] T(4) by simp
  show "fst (instalment t k) \<le> lt_principal t"
    using T last_part [of "lt_principal t" "lt_instalments t"] d [of "lt_principal t"]
    by (simp add: instalment_eq [OF assms] Let_def)
  show "snd (instalment t k) \<le> lt_principal t * lt_bps t div 10000"
    using T(4) I(2) last_part [of "loan_interest t" "lt_instalments t"] d [of "loan_interest t"]
    by (simp add: instalment_eq [OF assms] Let_def I(1))
qed

lemma fits_terms: "validate_terms t = Inr () \<Longrightarrow> loan_fits t \<Longrightarrow> loan_terms_ok t \<and> interest_fits t"
proof -
  assume v: "validate_terms t = Inr ()" and f: "loan_fits t"
  have p: "0 < lt_principal t" "0 \<le> lt_bps t" "0 \<le> lt_late_fee t"
    using v by (auto simp: validate_terms_def split: if_splits)
  then have "0 \<le> lt_principal t * lt_bps t div 10000" by (simp add: pos_imp_zdiv_nonneg_iff)
  then have "is_i64 (lt_principal t)"
    using p f by (auto simp: loan_fits_def intro!: is_i64_between [of "lt_principal t" "lt_principal t + lt_principal t * lt_bps t div 10000 + lt_late_fee t"])
  then show ?thesis using v f by (simp add: loan_terms_ok_def loan_fits_def)
qed

text \<open>What an instalment transfers, without the wrap-around.\<close>

lemma instalment_amount:
  assumes v: "validate_terms (ln_terms l) = Inr ()" and f: "loan_fits (ln_terms l)"
  shows "tr_amount (instalment_of l) = fst (instalment (ln_terms l) (ln_paid l + 1)) +
    snd (instalment (ln_terms l) (ln_paid l + 1)) + late_fee_now l"
proof -
  let ?t = "ln_terms l" and ?k = "ln_paid l + 1"
  have t: "loan_terms_ok ?t" "interest_fits ?t" using fits_terms [OF v f] by simp_all
  note nn = instalments_sum(3,4) [OF t] and le = instalment_le [OF t]
  have fee: "0 \<le> late_fee_now l" "late_fee_now l \<le> lt_late_fee ?t"
    using loan_terms_okD(6) [OF t(1)] by (simp_all add: late_fee_now_def)
  let ?m = "lt_principal ?t + lt_principal ?t * lt_bps ?t div 10000 + lt_late_fee ?t"
  have m: "is_i64 ?m" using f by (simp add: loan_fits_def)
  have "fst (instalment ?t ?k) + snd (instalment ?t ?k) + late_fee_now l \<le> ?m"
    using le [of ?k] fee by linarith
  moreover have "fst (instalment ?t ?k) + snd (instalment ?t ?k) \<le> ?m"
    using le [of ?k] fee by linarith
  moreover have "0 \<le> fst (instalment ?t ?k) + snd (instalment ?t ?k)"
    "0 \<le> fst (instalment ?t ?k) + snd (instalment ?t ?k) + late_fee_now l"
    using nn [of ?k] fee by linarith+
  ultimately have "is_i64 (fst (instalment ?t ?k) + snd (instalment ?t ?k))"
    "is_i64 (fst (instalment ?t ?k) + snd (instalment ?t ?k) + late_fee_now l)"
    using m is_i64_between by blast+
  then show ?thesis
    by (simp add: instalment_of_def Let_def new_transfer_def i64_id case_prod_beta)
qed

lemma instalment_of_simps [simp]:
  "tr_from_ws (instalment_of l) = ln_borrower_ws l" "tr_from (instalment_of l) = ln_borrower l"
  "tr_to_ws (instalment_of l) = ln_lender_ws l" "tr_to (instalment_of l) = ln_lender l"
  "tr_loan (instalment_of l) = ln_id l" "tr_refund_of (instalment_of l) = ''''"
  by (simp_all add: instalment_of_def Let_def new_transfer_def split: prod.split)

lemma payout_of_simps [simp]:
  "tr_from_ws (payout_of l) = ln_lender_ws l" "tr_from (payout_of l) = ln_lender l"
  "tr_to_ws (payout_of l) = ln_borrower_ws l" "tr_to (payout_of l) = ln_borrower l"
  "tr_loan (payout_of l) = ln_id l" "tr_refund_of (payout_of l) = ''''"
  "tr_amount (payout_of l) = lt_principal (ln_terms l)"
  by (simp_all add: payout_of_def new_transfer_def)

lemma loan_event_frame [simp]:
  "dl_db (loan_event cx n i kd k p x f t) = dl_db n" "dl_escrows (loan_event cx n i kd k p x f t) = dl_escrows n"
  "dl_transfers (loan_event cx n i kd k p x f t) = dl_transfers n" "dl_loans (loan_event cx n i kd k p x f t) = dl_loans n"
  "dl_loan_events (loan_event cx n i kd k p x f t) = dl_loan_events n @
    [\<lparr>le_loan = i, le_kind = kd, le_instalment = k, le_principal = p, le_interest = x, le_late_fee = f,
      le_transfer = t, le_at = cx_now cx\<rparr>]"
  by (simp_all add: loan_event_def)

lemma update_loan_frame [simp]:
  "dl_db (update_loan g i n) = dl_db n" "dl_escrows (update_loan g i n) = dl_escrows n"
  "dl_transfers (update_loan g i n) = dl_transfers n" "dl_loan_events (update_loan g i n) = dl_loan_events n"
  "dl_loans (update_loan g i n) = map (\<lambda>l. if ln_id l = i then g l else l) (dl_loans n)"
  by (simp_all add: update_loan_def)

text \<open>What every step of a loan amounts to.\<close>

definition loan_op_ok :: "deals \<Rightarrow> deals \<Rightarrow> bool" where
  "loan_op_ok n n' \<longleftrightarrow> deal_kept n n' \<and> loans_ok n' \<and> loans_kept n n'"

definition all_ok :: "deals \<Rightarrow> bool" where
  "all_ok n \<longleftrightarrow> deals_ok n \<and> loans_ok n"

lemma loan_op_refl: "all_ok n \<Longrightarrow> loan_op_ok n n"
  by (simp add: all_ok_def loan_op_ok_def deal_kept_refl loans_kept_same)

lemma loan_op_aside: "all_ok n \<Longrightarrow> deal_kept n n' \<Longrightarrow> loans_aside n n' \<Longrightarrow> loan_op_ok n n'"
  using loans_aside_ok [of n n'] loans_kept_same [of n' n] by (simp add: all_ok_def loan_op_ok_def loans_aside_def)

lemma loan_op_step:
  assumes ok: "all_ok n" and k: "deal_kept n n'" and l: "l \<in> set (dl_loans n)"
    and s: "loan_step n l f ts es n'" and f: "same_agreement l (f l)" "loan_moves (ln_status l) (ln_status (f l))"
    and o: "loan_ok n' (f l)"
  shows "loan_op_ok n n'"
proof -
  have lo: "loans_ok n" using ok by (simp add: all_ok_def)
  have "ln_id (f l) = ln_id l" using f(1) by (auto simp: same_agreement_def) (metis loan.select_convs(1) loan.surjective loan.update_convs(7-9,11))
  then show ?thesis
    using k loan_step_ok [OF lo l s _ o] loans_kept_step [OF lo l s f] by (simp add: loan_op_ok_def)
qed

text \<open>Paying a loan out, and taking an instalment of it.\<close>

lemma owed_Suc: "0 \<le> k \<Longrightarrow> owed t (nat (k + 1)) = owed t (nat k) + fst (instalment t (k + 1)) + snd (instalment t (k + 1))"
  by (simp add: owed_def nat_add_distrib add.commute)

lemma pay_out_kept:
  assumes ok: "all_ok n" and l: "l \<in> set (dl_loans n)" "ln_status l = LnOffered"
    and r: "pay_out_loan dk cx n l new_id = Inr (n', u)"
  shows "loan_op_ok n n'"
proof -
  obtain cx' n1 t where t: "transfer_tx dk cx' n (payout_of l) True new_id = Inr (n1, t)"
    and n': "n' = loan_event cx (update_loan (\<lambda>l. l\<lparr>ln_status := LnActive, ln_decided := Some (tr_at t),
         ln_due := Some (due_of (tr_at t) (lt_every (ln_terms l)) 1)\<rparr>) (ln_id l) n1) (ln_id l) LePayout 0
       (lt_principal (ln_terms l)) 0 0 (tr_id t)"
    using r unfolding pay_out_loan_def Let_def by (auto elim!: rbind_InrE)
  let ?f = "\<lambda>l. l\<lparr>ln_status := LnActive, ln_decided := Some (tr_at t),
         ln_due := Some (due_of (tr_at t) (lt_every (ln_terms l)) 1)\<rparr>"
  note R = transfer_row [OF t]
  have fr: "dl_loans n1 = dl_loans n" "dl_loan_events n1 = dl_loan_events n" by (subst R(2), simp)+
  have k: "deal_kept n n'"
    using transfer_kept [OF _ t] ok by (auto simp: all_ok_def n' intro: deal_kept_cong)
  have s: "loan_step n l ?f [t\<lparr>tr_capability := ''''\<rparr>] [last (dl_loan_events n')] n'"
    using R(12) by (simp add: loan_step_def n' fr R(1))
  have o: "loan_ok n l" using ok l(1) by (simp add: all_ok_def loans_ok_def)
  then have z: "ln_paid l = 0" "1 \<le> lt_instalments (ln_terms l)" using l(2)
    by (auto simp: loan_ok_def unanswered_def validate_terms_def split: if_splits)
  have "loan_ok n' (?f l)"
    using o l(2) z R(5,9,12)
    by (auto simp: loan_ok_def unanswered_def running_def lent_def taken_def fees_taken_def n' fr R(1))
  then show ?thesis
    using l(2) by (intro loan_op_step [OF ok k l(1) s]) (simp_all add: same_agreement_def loan_moves_def)
qed

lemma instalment_kept:
  assumes ok: "all_ok n" and l: "l \<in> set (dl_loans n)" "running l"
    and t: "transfer_tx dk cx n (instalment_of l) False new_id = Inr (n1, t)"
    and n': "n' = loan_event cx (update_loan loan_paid (ln_id l) n1) (ln_id l) LeInstalment (ln_paid l + 1)
       principal' interest (late_fee_now l) (tr_id t)"
  shows "loan_op_ok n n'"
proof -
  note R = transfer_row [OF t]
  have fr: "dl_loans n1 = dl_loans n" "dl_loan_events n1 = dl_loan_events n" by (subst R(2), simp)+
  have k: "deal_kept n n'"
    using transfer_kept [OF _ t] ok by (auto simp: all_ok_def n' intro: deal_kept_cong)
  have s: "loan_step n l loan_paid [t\<lparr>tr_capability := ''''\<rparr>] [last (dl_loan_events n')] n'"
    using R(12) by (simp add: loan_step_def n' fr R(1))
  have o: "loan_ok n l" using ok l(1) by (simp add: all_ok_def loans_ok_def)
  then have v: "validate_terms (ln_terms l) = Inr ()" "0 \<le> ln_paid l" "ln_paid l < lt_instalments (ln_terms l)"
    "ln_decided l \<noteq> None" "\<not> unanswered l" "ln_lender_ws l \<noteq> ln_borrower_ws l"
    using l(2) by (auto simp: loan_ok_def unanswered_def running_def)
  have f: "ln_id (loan_paid l) = ln_id l" "ln_terms (loan_paid l) = ln_terms l" "ln_paid (loan_paid l) = ln_paid l + 1"
    "ln_lender_ws (loan_paid l) = ln_lender_ws l" "ln_borrower_ws (loan_paid l) = ln_borrower_ws l"
    "\<not> unanswered (loan_paid l)"
    by (simp_all add: loan_paid_def Let_def unanswered_def)
  have "lent n' (loan_paid l) = lent n l" using v(6) R(5,12) by (simp add: lent_def n' R(1) f)
  moreover have "taken n' (loan_paid l) = taken n l + tr_amount (instalment_of l)"
    using R(5,9,12) by (simp add: taken_def n' R(1) f)
  moreover have "fees_taken n' (loan_paid l) = fees_taken n l + late_fee_now l"
    by (simp add: fees_taken_def n' fr f)
  moreover have "running (loan_paid l) \<longrightarrow> ln_paid l + 1 < lt_instalments (ln_terms l) \<and>
      ln_due (loan_paid l) \<noteq> None \<and> ln_decided (loan_paid l) \<noteq> None"
    using v(3,4) by (auto simp: loan_paid_def Let_def running_def)
  moreover have "ln_status (loan_paid l) = LnRepaid \<longrightarrow> ln_paid l + 1 = lt_instalments (ln_terms l)"
    by (auto simp: loan_paid_def Let_def)
  ultimately have "loan_ok n' (loan_paid l)"
    using o v f(6) instalment_amount [of l] owed_Suc [OF v(2), of "ln_terms l"]
    unfolding loan_ok_def f by simp
  then show ?thesis
    using l(2) by (intro loan_op_step [OF ok k l(1) s])
      (auto simp: same_agreement_def loan_moves_def loan_paid_def Let_def running_def)
qed

text \<open>The steps that move no money.\<close>

lemma quiet_loan_step:
  assumes ok: "all_ok n" and l: "l \<in> set (dl_loans n)"
    and n': "dl_loans n' = map (\<lambda>x. if ln_id x = ln_id l then f x else x) (dl_loans n)"
      "dl_transfers n' = dl_transfers n" "dl_loan_events n' = dl_loan_events n @ es"
      "dl_db n' = dl_db n" "dl_escrows n' = dl_escrows n"
    and es: "\<forall>e \<in> set es. le_loan e = ln_id l \<and> le_kind e \<noteq> LeInstalment"
    and f: "same_agreement l (f l)" "loan_moves (ln_status l) (ln_status (f l))" "ln_paid (f l) = ln_paid l"
      "unanswered (f l) = unanswered l" "ln_status (f l) \<noteq> LnRepaid"
      "running (f l) \<Longrightarrow> ln_paid l < lt_instalments (ln_terms l) \<and> ln_due (f l) \<noteq> None \<and> ln_decided (f l) \<noteq> None"
  shows "loan_op_ok n n'"
proof (rule loan_op_step [where f = f, OF ok _ l _ f(1,2)])
  show "deal_kept n n'"
    using deal_kept_refl n'(4,5) ok by (auto simp: all_ok_def intro: deal_kept_cong)
  show "loan_step n l f [] es n'" using n' es by (simp add: loan_step_def)
  have g: "ln_id (f l) = ln_id l" "ln_terms (f l) = ln_terms l" "ln_lender_ws (f l) = ln_lender_ws l"
    "ln_borrower_ws (f l) = ln_borrower_ws l"
    using f(1) unfolding same_agreement_def
    by (metis loan.surjective loan.select_convs(1,2,4,6) loan.update_convs(7-9,11))+
  have none: "sum_where (\<lambda>e. le_loan e = ln_id l \<and> le_kind e = LeInstalment) le_late_fee es = 0"
    using es by (intro sum_where_none) auto
  have "loan_ok n l" using ok l by (simp add: all_ok_def loans_ok_def)
  then show "loan_ok n' (f l)"
    using f(3-6) none by (simp add: loan_ok_def lent_def taken_def fees_taken_def g n')
qed

lemma quiet_update:
  assumes "all_ok n" "l \<in> set (dl_loans n)" "same_agreement l (f l)" "loan_moves (ln_status l) (ln_status (f l))"
    "ln_paid (f l) = ln_paid l" "unanswered (f l) = unanswered l" "ln_status (f l) \<noteq> LnRepaid"
    "running (f l) \<Longrightarrow> ln_paid l < lt_instalments (ln_terms l) \<and> ln_due (f l) \<noteq> None \<and> ln_decided (f l) \<noteq> None"
  shows "loan_op_ok n (update_loan f (ln_id l) n)"
  by (rule quiet_loan_step [where f = f and es = "[]", OF assms(1,2)]) (use assms in simp_all)

lemma find_SomeD: "find p xs = Some x \<Longrightarrow> x \<in> set xs \<and> p x"
  by (auto simp: find_Some_iff)

lemma fst_answer_with_loan [simp]: "fst (answer_with_loan w i r) = fst r"
  by (auto simp: answer_with_loan_def split: prod.splits sum.splits)

lemma refused_op:
  assumes ok: "all_ok n" and "\<And>n' x. r = Inr (n', x) \<Longrightarrow> loan_op_ok n n'"
  shows "loan_op_ok n (fst (refused_deal cx n ap r))"
proof (cases r)
  case (Inr y)
  then show ?thesis using assms(2) by (cases y) (simp add: refused_deal_def)
next
  case (Inl e)
  have "deal_kept n (fst (refused_deal cx n ap r))"
    using ok by (intro refused_deal_kept) (simp_all add: Inl all_ok_def)
  moreover have "loans_aside n (fst (refused_deal cx n ap r))"
    by (auto simp: Inl refused_deal_def loans_aside_def split: err.split prod.split)
  ultimately show ?thesis by (rule loan_op_aside [OF ok])
qed

lemma answer_loan_kept:
  assumes ok: "all_ok n"
  shows "loan_op_ok n (fst (answer_loan dk cx n w i accept new_id ap))"
proof (cases "offered_loan n w i")
  case None
  then show ?thesis using loan_op_refl [OF ok] by (simp add: answer_loan_def)
next
  case (Some l)
  then have l: "l \<in> set (dl_loans n)" "ln_id l = i" "ln_status l = LnOffered"
    by (auto simp: offered_loan_def dest: find_SomeD)
  have decline: "loan_op_ok n (update_loan (\<lambda>l. l\<lparr>ln_status := LnDeclined, ln_decided := Some (cx_now cx)\<rparr>) i n)"
    unfolding l(2) [symmetric] by (rule quiet_update [OF ok l(1)])
      (simp_all add: same_agreement_def loan_moves_def unanswered_def running_def l(3))
  have accept: "loan_op_ok n (fst (refused_deal cx n ap (pay_out_loan dk cx n l new_id)))"
    using pay_out_kept [OF ok l(1,3)] by (rule refused_op [OF ok])
  show ?thesis
    using decline accept loan_op_refl [OF ok] by (auto simp: answer_loan_def Some split: sum.split)
qed

lemma withdraw_loan_kept:
  assumes ok: "all_ok n" and r: "withdraw_loan cx n w i = Inr n'"
  shows "loan_op_ok n n'"
proof -
  obtain l where l: "l \<in> set (dl_loans n)" "ln_id l = i" "ln_lender_ws l = w" "ln_status l = LnOffered"
    using r by (auto simp: withdraw_loan_def list_ex_iff split: if_splits)
  have n': "n' = update_loan (\<lambda>l. if ln_lender_ws l = w \<and> ln_status l = LnOffered
      then l\<lparr>ln_status := LnWithdrawn, ln_decided := Some (cx_now cx)\<rparr> else l) i n"
    using r by (auto simp: withdraw_loan_def split: if_splits)
  show ?thesis
    unfolding n' l(2) [symmetric] by (rule quiet_update [OF ok l(1)])
      (simp_all add: same_agreement_def loan_moves_def unanswered_def running_def l(3,4))
qed

lemma bring_due_kept:
  assumes ok: "all_ok n"
  shows "loan_op_ok n (fst (bring_test_loan_due n w i now))"
proof (cases "list_ex (\<lambda>l. ln_id l = i \<and> loan_side w l \<and> ln_test l \<and> running l) (dl_loans n)")
  case True
  then obtain l where l: "l \<in> set (dl_loans n)" "ln_id l = i" "loan_side w l" "ln_test l" "running l"
    by (auto simp: list_ex_iff)
  have o: "loan_ok n l" using ok l(1) by (simp add: all_ok_def loans_ok_def)
  have "loan_op_ok n (update_loan (\<lambda>l. if loan_side w l \<and> ln_test l \<and> running l
      then l\<lparr>ln_due := Some (case ln_due l of None \<Rightarrow> now | Some t \<Rightarrow> min t now)\<rparr> else l) i n)"
    unfolding l(2) [symmetric] by (rule quiet_update [OF ok l(1)])
      (use l(3-5) o in \<open>auto simp: same_agreement_def loan_moves_def unanswered_def running_def loan_ok_def\<close>)
  then show ?thesis using True by (simp add: bring_test_loan_due_def)
next
  case False
  then have "bring_test_loan_due n w i now = (n, Inl ErrLoanNotFound)" by (simp add: bring_test_loan_due_def)
  then show ?thesis using loan_op_refl [OF ok] by simp
qed

lemma offer_loan_kept:
  assumes ok: "all_ok n" and r: "offer_loan dk cx n w lender address terms new_id = Inr (n', l)" and i: "new_id \<noteq> ''''"
  shows "loan_op_ok n n'"
proof -
  have v: "validate_terms terms = Inr ()" using r by (auto simp: offer_loan_def elim!: rbind_InrE)
  have n': "n' = n\<lparr>dl_loans := dl_loans n @ [l]\<rparr>" "new_id \<notin> ln_id ` set (dl_loans n)"
    and l: "ln_id l = new_id" "ln_terms l = terms" "ln_status l = LnOffered" "ln_paid l = 0" "ln_lender_ws l \<noteq> ln_borrower_ws l"
    using r by (auto simp: offer_loan_def Let_def list_ex_iff elim!: rbind_InrE split: if_splits)
  have lo: "loans_ok n" "deals_ok n" using ok by (simp_all add: all_ok_def)
  have "1 \<le> lt_instalments terms" using v by (auto simp: validate_terms_def split: if_splits)
  have named: "tr_loan t \<noteq> new_id" if "t \<in> set (dl_transfers n)" for t
    using lo(1) n'(2) i that by (metis loans_ok_def)
  have told: "le_loan e \<noteq> new_id" if "e \<in> set (dl_loan_events n)" for e
    using lo(1) n'(2) that by (metis loans_ok_def)
  have none: "lent n' l = 0" "taken n' l = 0" "fees_taken n' l = 0"
    unfolding lent_def taken_def fees_taken_def using named told
    by (auto simp: l(1) n'(1) intro!: sum_where_none)
  have "loan_ok n' l"
    using v i none l \<open>1 \<le> lt_instalments terms\<close>
    by (simp add: loan_ok_def unanswered_def running_def owed_def)
  moreover have "loan_ok n' x" if "loan_ok n x" for x
    using that by (simp add: loan_ok_def lent_def taken_def fees_taken_def n'(1))
  ultimately have "loans_ok n'" using lo(1) n'(2) l(1) by (auto simp: loans_ok_def n'(1))
  moreover have "deal_kept n n'" using deal_kept_refl [OF lo(2)] by (rule deal_kept_cong) (simp_all add: n'(1))
  moreover have "loans_kept n n'" by (rule loans_kept_snoc) (simp add: n'(1))
  ultimately show ?thesis by (simp add: loan_op_ok_def)
qed

lemma due_loansD: "l \<in> set (due_loans n now) \<Longrightarrow> l \<in> set (dl_loans n) \<and> running l \<and> (\<exists>t. ln_due l = Some t \<and> t \<le> now)"
  by (auto simp: due_loans_def split: option.splits)

lemma missed_kept:
  assumes ok: "all_ok n" and l: "l \<in> set (dl_loans n)" "running l"
  shows "loan_op_ok n (loan_event cx (update_loan loan_missed (ln_id l)
      (loan_event cx n (ln_id l) LeMissed k a b fee '''')) (ln_id l) (if ln_status l = LnLate then LeDefaulted else LeLate) k 0 0 0 '''')"
    (is "loan_op_ok n ?n")
proof -
  have o: "loan_ok n l" using ok l(1) by (simp add: all_ok_def loans_ok_def)
  show ?thesis
    using l o
    by (intro quiet_loan_step [OF ok l(1), where f = loan_missed and es = "drop (length (dl_loan_events n)) (dl_loan_events ?n)"])
      (auto simp: same_agreement_def loan_moves_def unanswered_def running_def loan_missed_def loan_ok_def)
qed

lemma loan_tick_kept:
  assumes ok: "all_ok n"
  shows "loan_op_ok n (fst (run_loan_tick dk cx fresh now n))"
proof (cases "due_loans n now")
  case Nil
  then show ?thesis using loan_op_refl [OF ok] by (simp add: run_loan_tick_def)
next
  case (Cons l ls)
  then have l: "l \<in> set (dl_loans n)" "running l" using due_loansD [of l n now] by simp_all
  obtain a b where ab: "instalment (ln_terms l) (ln_paid l + 1) = (a, b)" by fastforce
  show ?thesis
  proof (cases "transfer_tx dk cx n (instalment_of l) False (fresh n)")
    case (Inl e)
    then show ?thesis
      using Cons ab missed_kept [OF ok l] loan_op_refl [OF ok] by (simp add: run_loan_tick_def Let_def)
  next
    case (Inr y)
    then show ?thesis
      using Cons ab instalment_kept [OF ok l] by (cases y) (simp add: run_loan_tick_def Let_def)
  qed
qed

subsection \<open>Every tick brings a loan nearer its end\<close>

text \<open>
  \<open>ticks_left\<close> bounds the ticks a loan may still take: two for each instalment to come, for one
  missed and then paid, and one more while it is not late. \<open>loans_due\<close> adds them up over the loans
  due by \<open>now\<close>.
\<close>

definition ticks_left :: "loan \<Rightarrow> int" where
  "ticks_left l = 2 * (lt_instalments (ln_terms l) - ln_paid l) + (if ln_status l = LnActive then 1 else 0)"

definition is_due :: "int \<Rightarrow> loan \<Rightarrow> bool" where
  "is_due now l \<longleftrightarrow> running l \<and> (case ln_due l of None \<Rightarrow> False | Some t \<Rightarrow> t \<le> now)"

definition loans_due :: "int \<Rightarrow> deals \<Rightarrow> nat" where
  "loans_due now n = nat (sum_where (is_due now) ticks_left (dl_loans n))"

lemma due_loans_set: "l \<in> set (due_loans n now) \<longleftrightarrow> l \<in> set (dl_loans n) \<and> is_due now l"
  by (simp add: due_loans_def is_due_def)

lemma ticks_left_pos: "loan_ok n l \<Longrightarrow> running l \<Longrightarrow> 2 \<le> ticks_left l"
  by (simp add: loan_ok_def ticks_left_def)

lemma due_sum_nonneg: "loans_ok n \<Longrightarrow> 0 \<le> sum_where (is_due now) ticks_left (dl_loans n)"
  by (intro sum_where_nonneg) (force simp: loans_ok_def is_due_def dest: ticks_left_pos)

lemma ticks_left_step:
  assumes "loan_ok n l" "is_due now l"
  shows "(if is_due now (loan_paid l) then ticks_left (loan_paid l) else 0) < ticks_left l"
    and "(if is_due now (loan_missed l) then ticks_left (loan_missed l) else 0) < ticks_left l"
  using assms ticks_left_pos [of n l]
  by (auto simp: ticks_left_def loan_paid_def loan_missed_def is_due_def running_def Let_def)

lemma loan_step_fewer:
  assumes ok: "loans_ok n" and l: "l \<in> set (dl_loans n)" "is_due now l"
    and n': "dl_loans n' = map (\<lambda>x. if ln_id x = ln_id l then f x else x) (dl_loans n)"
    and f: "\<And>x. ln_id (f x) = ln_id x" "(if is_due now (f l) then ticks_left (f l) else 0) < ticks_left l"
    and ok': "loans_ok n'"
  shows "loans_due now n' < loans_due now n"
proof -
  have "distinct (map ln_id (dl_loans n))" using ok by (simp add: loans_ok_def)
  note sum_where_update [OF this l(1) f(1), of "is_due now" ticks_left]
  then have "sum_where (is_due now) ticks_left (dl_loans n') < sum_where (is_due now) ticks_left (dl_loans n)"
    using f(2) l(2) by (simp add: n' split: if_splits)
  then show ?thesis using due_sum_nonneg [OF ok', of now] by (simp add: loans_due_def)
qed

lemma loan_paid_id [simp]: "ln_id (loan_paid l) = ln_id l"
  by (simp add: loan_paid_def Let_def)

lemma loan_missed_id [simp]: "ln_id (loan_missed l) = ln_id l"
  by (simp add: loan_missed_def)

lemma loan_tick_settles:
  assumes ok: "all_ok n" and t: "run_loan_tick dk cx fresh now n = (n', Inr (Some kind))"
  shows "loans_due now n' < loans_due now n"
proof -
  obtain l ls where c: "due_loans n now = l # ls" using t by (auto simp: run_loan_tick_def split: list.splits)
  then have l: "l \<in> set (dl_loans n)" "is_due now l" using due_loans_set [of l n now] by simp_all
  have lo: "loans_ok n" "loan_ok n l" using ok l(1) by (auto simp: all_ok_def loans_ok_def)
  have ok': "loans_ok n'" using loan_tick_kept [OF ok, of dk cx fresh now] t by (simp add: loan_op_ok_def)
  obtain a b where ab: "instalment (ln_terms l) (ln_paid l + 1) = (a, b)" by fastforce
  show ?thesis
  proof (cases "transfer_tx dk cx n (instalment_of l) False (fresh n)")
    case (Inl e)
    then have "dl_loans n' = map (\<lambda>x. if ln_id x = ln_id l then loan_missed x else x) (dl_loans n)"
      using t c ab by (auto simp: run_loan_tick_def Let_def split: if_splits)
    then show ?thesis using ticks_left_step(2) [OF lo(2) l(2)] by (intro loan_step_fewer [OF lo(1) l _ _ _ ok']) simp_all
  next
    case (Inr y)
    obtain n1 tr where y: "y = (n1, tr)" by (cases y)
    have "dl_loans n1 = dl_loans n" by (subst transfer_row(2) [OF Inr [unfolded y]]) simp
    then have "dl_loans n' = map (\<lambda>x. if ln_id x = ln_id l then loan_paid x else x) (dl_loans n)"
      using t c ab Inr by (auto simp: run_loan_tick_def Let_def y)
    then show ?thesis using ticks_left_step(1) [OF lo(2) l(2)] by (intro loan_step_fewer [OF lo(1) l _ _ _ ok']) simp_all
  qed
qed

interpretation loan_run: tick_runner "run_loan_tick dk cx fresh now" "loans_due now" all_ok
proof
  show "loans_due now n' < loans_due now n \<and> all_ok n'"
    if "all_ok n" "run_loan_tick dk cx fresh now n = (n', Inr (Some k))" for n n' k
    using loan_tick_settles [OF that] loan_tick_kept [OF that(1), of dk cx fresh now] that(2)
    by (simp add: loan_op_ok_def deal_kept_def all_ok_def)
  show "loans_due now n = 0 \<and> n' = n" if "all_ok n" "run_loan_tick dk cx fresh now n = (n', Inr None)" for n n'
  proof -
    have d: "due_loans n now = []" "n' = n"
      using that(2) by (auto simp: run_loan_tick_def Let_def split: list.splits sum.splits if_splits prod.splits)
    then have "\<not> is_due now l" if "l \<in> set (dl_loans n)" for l using due_loans_set [of l n now] that by simp
    then show ?thesis using d(2) sum_where_none [of "dl_loans n" "is_due now" ticks_left] by (simp add: loans_due_def)
  qed
  show "loans_due now n' = loans_due now n \<and> all_ok n'" if "all_ok n" "run_loan_tick dk cx fresh now n = (n', Inl e)" for n n' e
    using that by (auto simp: run_loan_tick_def Let_def split: list.splits sum.splits if_splits prod.splits)
qed

lemma sum_where_member:
  "x \<in> set xs \<Longrightarrow> p x \<Longrightarrow> (\<And>y. y \<in> set xs \<Longrightarrow> p y \<Longrightarrow> 0 \<le> f y) \<Longrightarrow> f x \<le> sum_where p f xs"
proof (induction xs)
  case (Cons y ys)
  have "0 \<le> sum_where p f ys" using Cons.prems(3) by (intro sum_where_nonneg) simp
  then show ?case using Cons by (cases "x = y") fastforce+
qed simp

lemma loans_due_none: "loans_ok n \<Longrightarrow> loans_due now n = 0 \<Longrightarrow> due_loans n now = []"
proof -
  assume ok: "loans_ok n" and z: "loans_due now n = 0"
  have "\<not> is_due now l" if l: "l \<in> set (dl_loans n)" for l
  proof
    assume d: "is_due now l"
    then have "2 \<le> ticks_left l" using ok l ticks_left_pos [of n l] by (simp add: loans_ok_def is_due_def)
    moreover have "ticks_left l \<le> sum_where (is_due now) ticks_left (dl_loans n)"
    proof (rule sum_where_member [where p = "is_due now", OF l d])
      fix x assume "x \<in> set (dl_loans n)" "is_due now x"
      then show "0 \<le> ticks_left x" using ok ticks_left_pos [of n x] by (auto simp: loans_ok_def is_due_def)
    qed
    ultimately show False using z by (simp add: loans_due_def)
  qed
  then have "l \<notin> set (due_loans n now)" for l by (simp add: due_loans_set)
  then show ?thesis by (cases "due_loans n now") force+
qed

text \<open>A run of the repayments: what it left, and that nothing is due once it ends without an error.\<close>

lemma run_repayments:
  assumes ok: "all_ok n" and r: "run_loan_repayments dk cx fresh now n = (n', counts, e)"
  shows "all_ok n'" and "loans_due now n \<le> max_ticks_per_run \<Longrightarrow> e = None \<Longrightarrow> due_loans n' now = []"
proof -
  obtain ks where t: "run_ticks (run_loan_tick dk cx fresh now) max_ticks_per_run n = (n', ks, e)"
    using r by (auto simp: run_loan_repayments_def split: prod.splits)
  show "all_ok n'" using loan_run.run_bounded [OF ok t] by blast
  show "due_loans n' now = []" if "loans_due now n \<le> max_ticks_per_run" "e = None"
    using loan_run.run_finishes [OF ok that(1) t [unfolded that(2)]] loans_due_none by (simp add: all_ok_def)
qed

end
