(* ===== verification/Deal_System.thy ===== *)
theory Deal_System
  imports Loan_Books
begin

section \<open>Agents' dealings as one system\<close>

text \<open>
  \<open>deal_step\<close> is one operation of agents with each other: a transfer, a request or its answer, a
  refund, an escrow paid in, confirmed, disputed, decided or released at its deadline, a loan
  offered, answered, withdrawn, brought due or repaid, and whatever the operator records of
  capabilities, clearances, freezes and terms. \<open>step_ok\<close> is what each of them keeps.
\<close>

lemma loan_op_cong:
  assumes "loan_op_ok n n'" "dl_db n'' = dl_db n'" "dl_escrows n'' = dl_escrows n'" "dl_loans n'' = dl_loans n'"
    "dl_transfers n'' = dl_transfers n'" "dl_loan_events n'' = dl_loan_events n'"
  shows "loan_op_ok n n''"
  using assms deal_kept_cong [of n n' n'']
  by (simp add: loan_op_ok_def loans_ok_def loan_ok_def lent_def taken_def fees_taken_def loans_kept_def)

lemma loan_op_other:
  "all_ok n \<Longrightarrow> dl_db n' = dl_db n \<Longrightarrow> dl_escrows n' = dl_escrows n \<Longrightarrow> dl_loans n' = dl_loans n \<Longrightarrow>
    dl_transfers n' = dl_transfers n \<Longrightarrow> dl_loan_events n' = dl_loan_events n \<Longrightarrow> loan_op_ok n n'"
  using loan_op_refl by (rule loan_op_cong)

lemma transfer_op:
  "all_ok n \<Longrightarrow> transfer_tx dk cx n t judged i = Inr (n', t') \<Longrightarrow> tr_loan t = '''' \<Longrightarrow> loan_op_ok n n'"
  by (intro loan_op_aside transfer_kept transfer_aside) (auto simp: all_ok_def)

lemma new_transfer_loan [simp]: "tr_loan (new_transfer v a w b x m) = ''''"
  by (simp add: new_transfer_def)

lemma send_ok: "all_ok n \<Longrightarrow> loan_op_ok n (fst (send_credits dk cx n w a address amount memo i ap))"
  unfolding send_credits_def
  by (auto simp: run_transfer_def intro!: refused_op dest: transfer_op intro: loan_op_refl split: sum.split)

lemma refund_ok: "all_ok n \<Longrightarrow> loan_op_ok n (fst (refund_transfer dk cx n w t i ap))"
  unfolding refund_transfer_def
  by (auto simp: run_transfer_def intro!: refused_op dest: transfer_op intro: loan_op_refl split: option.split)

lemma request_ok: "all_ok n \<Longrightarrow> request_credits cx n w a address amount memo i = Inr (n', r) \<Longrightarrow> loan_op_ok n n'"
  by (erule loan_op_other) (auto simp: request_credits_def Let_def elim!: rbind_InrE split: if_splits)

lemma answer_ok:
  assumes ok: "all_ok n"
  shows "loan_op_ok n (fst (answer_money_request dk cx n w i accept new_id ap))"
proof (cases "find_asked n w i")
  case None
  then show ?thesis using loan_op_refl [OF ok] by (simp add: answer_money_request_def)
next
  case (Some r)
  have marked: "loan_op_ok n (update_request f i n')" if "loan_op_ok n n'" for f n'
    using that by (rule loan_op_cong) (simp_all add: update_request_def)
  show ?thesis
  proof (cases accept)
    case False
    then show ?thesis using marked [OF loan_op_refl [OF ok]] by (simp add: answer_money_request_def Some)
  next
    case True
    then show ?thesis
      unfolding answer_money_request_def Let_def Some
      by (auto intro!: refused_op [OF ok] marked elim!: rbind_InrE dest!: transfer_op [OF ok])
  qed
qed

subsection \<open>Escrow leaves loans aside\<close>

lemma escrow_ops_aside:
  assumes "dl_loans n' = dl_loans n" "dl_transfers n' = dl_transfers n" "dl_loan_events n' = dl_loan_events n"
  shows "loans_aside n n'"
  using assms by (simp add: loans_aside_def)

lemma settle_aside: "settle_escrow_tx cx n e r ac op de = Inr n' \<Longrightarrow> loans_aside n n'"
  by (auto simp: settle_escrow_tx_def Let_def split: prod.splits elim!: rbind_InrE intro!: escrow_ops_aside)

lemma pay_in_aside:
  assumes "pay_into_escrow_tx dk cx n e = Inr (n', e')"
  shows "loans_aside n n'"
proof -
  obtain d1 where "hold_escrow dk cx n d1 (escrow_key n e) (e\<lparr>es_class := class_of_key (escrow_key n e)\<rparr>) = Inr (n', e')"
    using assms by (rule pay_into_escrow_tx_InrD)
  then show ?thesis by (rule hold_escrow_InrD) (simp add: escrow_ops_aside)
qed

lemma disputed_aside [simp]: "loans_aside n (mark_disputed cx n i ac de)"
  by (simp add: mark_disputed_def escrow_ops_aside)

lemma pay_into_escrow_ok:
  assumes ok: "all_ok n"
  shows "loan_op_ok n (fst (pay_into_escrow dk cx n w a address amount memo release_at i ap))"
proof -
  have "loans_aside n (fst (refused_deal cx n ap r))" if "\<And>n' x. r = Inr (n', x) \<Longrightarrow> loans_aside n n'" for r :: "err + deals \<times> escrow"
    using that by (auto simp: refused_deal_def loans_aside_def split: err.split prod.split sum.split)
  then have "loans_aside n (fst (pay_into_escrow dk cx n w a address amount memo release_at i ap))"
    by (auto simp: pay_into_escrow_def Let_def dest: pay_in_aside split: sum.split)
  then show ?thesis using pay_into_escrow_kept ok by (intro loan_op_aside [OF ok]) (simp_all add: all_ok_def)
qed

lemma escrow_op: "all_ok n \<Longrightarrow> (deals_ok n \<Longrightarrow> deal_kept n n') \<Longrightarrow> loans_aside n n' \<Longrightarrow> loan_op_ok n n'"
  by (rule loan_op_aside) (auto simp: all_ok_def)

lemma confirm_ok: "all_ok n \<Longrightarrow> loan_op_ok n (fst (confirm_escrow cx n w i))"
  by (erule escrow_op, erule confirm_kept)
    (auto simp: confirm_escrow_def kept_or_def dest: settle_aside split: option.split sum.split)

lemma dispute_ok: "all_ok n \<Longrightarrow> loan_op_ok n (fst (dispute_escrow cx n w i reason))"
  by (erule escrow_op, erule dispute_kept) (auto simp: dispute_escrow_def Let_def split: option.split)

lemma decide_ok: "all_ok n \<Longrightarrow> loan_op_ok n (fst (decide_escrow cx n i release operator note))"
  by (erule escrow_op, erule decide_kept)
    (auto simp: decide_escrow_def kept_or_def dest: settle_aside split: option.split sum.split)

lemma deadline_ok: "all_ok n \<Longrightarrow> loan_op_ok n (fst (run_escrow_deadline told cx now n))"
  by (erule escrow_op, erule deadline_kept)
    (auto simp: run_escrow_deadline_def dest: settle_aside split: list.split sum.split)

subsection \<open>The steps and their invariant\<close>

inductive deal_step :: "desk \<Rightarrow> (err \<Rightarrow> string) \<Rightarrow> deals \<Rightarrow> deals \<Rightarrow> bool" for dk told where
  send: "deal_step dk told n (fst (send_credits dk cx n w a address amount memo i ap))"
| ask: "request_credits cx n w a address amount memo i = Inr (n', r) \<Longrightarrow> deal_step dk told n n'"
| answer: "deal_step dk told n (fst (answer_money_request dk cx n w i accept new_id ap))"
| refund: "deal_step dk told n (fst (refund_transfer dk cx n w t i ap))"
| escrow_in: "deal_step dk told n (fst (pay_into_escrow dk cx n w a address amount memo release_at i ap))"
| confirm: "deal_step dk told n (fst (confirm_escrow cx n w i))"
| dispute: "deal_step dk told n (fst (dispute_escrow cx n w i reason))"
| decide: "deal_step dk told n (fst (decide_escrow cx n i release operator note))"
| deadline: "deal_step dk told n (fst (run_escrow_deadline told cx now n))"
| offer: "new_id \<noteq> '''' \<Longrightarrow> offer_loan dk cx n w a address terms new_id = Inr (n', l) \<Longrightarrow> deal_step dk told n n'"
| loan_answer: "deal_step dk told n (fst (answer_loan dk cx n w i accept new_id ap))"
| withdraw: "withdraw_loan cx n w i = Inr n' \<Longrightarrow> deal_step dk told n n'"
| bring_due: "deal_step dk told n (fst (bring_test_loan_due n w i now))"
| repay: "deal_step dk told n (fst (run_loan_tick dk cx fresh now n))"
| handle: "set_agent_handle n w a h = Inr (n', x) \<Longrightarrow> deal_step dk told n n'"
| operator: "deal_step dk told n (n\<lparr>dl_gates := g\<rparr>)"

lemma step_ok: "deal_step dk told n n' \<Longrightarrow> all_ok n \<Longrightarrow> loan_op_ok n n'"
proof (induction rule: deal_step.induct)
  case (handle n w a h n' x)
  then show ?case
    by (intro loan_op_other) (auto simp: set_agent_handle_def Let_def split: option.splits if_splits)
next
  case (operator n g)
  then show ?case by (intro loan_op_other) simp_all
qed (rule send_ok request_ok answer_ok refund_ok pay_into_escrow_ok confirm_ok dispute_ok decide_ok deadline_ok
    offer_loan_kept answer_loan_kept withdraw_loan_kept bring_due_kept loan_tick_kept; assumption)+

definition deals_reach :: "desk \<Rightarrow> (err \<Rightarrow> string) \<Rightarrow> deals \<Rightarrow> deals \<Rightarrow> bool" where
  "deals_reach dk told = (deal_step dk told)\<^sup>*\<^sup>*"

text \<open>An ended loan: declined, withdrawn, defaulted or repaid.\<close>

definition ended :: "loan \<Rightarrow> bool" where
  "ended l \<longleftrightarrow> ln_status l = LnDeclined \<or> ln_status l = LnWithdrawn \<or> ln_status l = LnDefaulted \<or> ln_status l = LnRepaid"

lemma loans_kept_nth:
  assumes "loans_kept n n'" "j < length (dl_loans n)"
  shows "j < length (dl_loans n')" "same_agreement (dl_loans n ! j) (dl_loans n' ! j)"
    "loan_moves (ln_status (dl_loans n ! j)) (ln_status (dl_loans n' ! j))"
  using assms by (auto simp: loans_kept_def list_all2_conv_all_nth)

lemma reach_ok:
  assumes "deals_reach dk told n n'" "all_ok n"
  shows "all_ok n'" and "credits_in_lens n' = credits_in_lens n"
    and "j < length (dl_escrows n) \<Longrightarrow> settled (dl_escrows n ! j) \<Longrightarrow>
      j < length (dl_escrows n') \<and> es_status (dl_escrows n' ! j) = es_status (dl_escrows n ! j)"
    and "j < length (dl_loans n) \<Longrightarrow> ended (dl_loans n ! j) \<Longrightarrow>
      j < length (dl_loans n') \<and> ln_status (dl_loans n' ! j) = ln_status (dl_loans n ! j)"
  using assms(1) unfolding deals_reach_def
proof (induction rule: rtranclp_induct)
  case base
  { case 1 show ?case by (rule assms(2)) }
  { case 2 show ?case by simp }
  { case 3 then show ?case by simp }
  { case 4 then show ?case by simp }
next
  case (step m n')
  have k: "loan_op_ok m n'" using step_ok [OF step.hyps(2) step.IH(1)] .
  { case 1 show ?case using k by (simp add: loan_op_ok_def deal_kept_def all_ok_def) }
  { case 2 show ?case using k step.IH(2) by (simp add: loan_op_ok_def deal_kept_def) }
  { case 3
    then have m: "j < length (dl_escrows m)" "es_status (dl_escrows m ! j) = es_status (dl_escrows n ! j)"
      using step.IH(3) by blast+
    then have "settled (dl_escrows m ! j)" using 3 by (simp add: settled_def)
    then show ?case using settled_stays [of m n' j] k m by (simp add: loan_op_ok_def deal_kept_def) }
  { case 4
    then have m: "j < length (dl_loans m)" "ln_status (dl_loans m ! j) = ln_status (dl_loans n ! j)"
      using step.IH(4) by blast+
    then have "ended (dl_loans m ! j)" using 4 by (simp add: ended_def)
    then show ?case using loans_kept_nth [of m n' j] k m by (auto simp: loan_op_ok_def ended_def loan_moves_def) }
qed

end
