(* ===== verification/Transfer_Rule.thy ===== *)
theory Transfer_Rule
  imports Agent_Transfers Agent_Limits
begin

section \<open>When a transfer goes through\<close>

text \<open>
  \<open>transfer_permitted\<close> says in one formula when \<open>transfer_tx\<close> succeeds, over what can be read
  before it runs; \<open>transfer_iff\<close> proves that it is exactly that, and \<open>refund_goes\<close> applies it to
  giving a transfer back.
\<close>

lemma went_iff: "(\<exists>y. r = Inr y) \<longleftrightarrow> \<not> isl r"
  by (cases r) simp_all

lemma rbind_went: "isl (rbind r f) \<longleftrightarrow> isl r \<or> isl (f (projr r))"
  by (cases r) simp_all

lemma across_freeze_iff:
  "capability_by_key key = Some c \<Longrightarrow>
    (across_freeze g a b key = Inr ()) \<longleftrightarrow> freezes g a = None \<and> freezes g b = None"
  by (auto simp: across_freeze_def refuse_frozen_any_class_def freeze_refusal_def rbind_Inr_iff split: option.split)

lemma test_funded_read_rows:
  "\<not> test_workspace d w \<Longrightarrow> test_funded_ulxc (read_rows d a b) w = test_funded_ulxc d w"
proof -
  assume nt: "\<not> test_workspace d w"
  have t: "test_workspace (read_rows d a b) w = test_workspace d w" by (simp add: test_workspace_def view_simps)
  have z: "test_of d w = 0" if "\<not> has_row d w"
    using that by (simp add: test_of_def row_of_def has_row_def)
  show ?thesis using nt z by (auto simp: test_funded_ulxc_eq Let_def view_simps t)
qed

lemma move_credits_iff:
  assumes c: "capability_by_key key = Some c" and pos: "0 < tr_amount t"
  shows "(\<exists>r. move_credits s cx g d key t = Inr r) \<longleftrightarrow> may_use g (tr_from_ws t) c \<and>
     (takes_live s cx g d (tr_from_ws t) c \<or> test_workspace d (tr_from_ws t) \<or>
      tr_amount t \<le> test_funded_ulxc d (tr_from_ws t)) \<and>
     (tr_to_ws t \<noteq> tr_from_ws t \<longrightarrow> freezes g (tr_from_ws t) = None \<and> freezes g (tr_to_ws t) = None)"
proof -
  let ?w = "tr_from_ws t" and ?u = "tr_to_ws t" and ?x = "tr_amount t"
  let ?D = "read_rows d ?w ?u"
  have "(\<exists>r. move_credits s cx g d key t = Inr r) \<longleftrightarrow>
      (\<exists>r. spend_for_capability s cx g ?D ?w key ?x = Inr r) \<and> (?u \<noteq> ?w \<longrightarrow> across_freeze g ?w ?u key = Inr ())"
    unfolding went_iff move_credits_def Let_def
    by (cases "spend_for_capability s cx g ?D ?w key ?x"; cases "across_freeze g ?w ?u key")
      (auto simp: case_prod_beta rbind_went)
  moreover have "test_workspace ?D ?w = test_workspace d ?w" by (simp add: test_workspace_def view_simps)
  ultimately show ?thesis
    unfolding spend_for_capability_iff [OF c pos] takes_live_read_rows across_freeze_iff [OF c]
    using test_funded_read_rows by auto
qed

lemma owner_verified_iff:
  "owner_verified dk d w a = Inr o1 \<longleftrightarrow>
    (\<exists>r. find_agent d a = Some r \<and> ag_owner r = o1 \<and> o1 \<noteq> '''' \<and> may_earn dk d w = Inr True)"
  by (auto simp: owner_verified_def split: option.splits if_splits)

lemma transfer_sides_iff: "(\<exists>b. transfer_sides dk d t = Inr b) \<longleftrightarrow> sides_ok dk d t"
proof
  assume "sides_ok dk d t"
  then have l: "lock_agent d (tr_from_ws t) (tr_from t) = Inr ()" "lock_agent d (tr_to_ws t) (tr_to t) = Inr ()"
    and m: "may_earn dk d (tr_from_ws t) = Inr True" "may_earn dk d (tr_to_ws t) = Inr True"
    and o: "fst (owners_of d t) \<noteq> ''''" "snd (owners_of d t) \<noteq> ''''" by (simp_all add: sides_ok_def)
  obtain a b where ab: "find_agent d (tr_from t) = Some a" "find_agent d (tr_to t) = Some b"
    using lock_agent_InrD [OF l(1)] lock_agent_InrD [OF l(2)] by blast
  have "owner_verified dk d (tr_from_ws t) (tr_from t) = Inr (ag_owner a)"
    "owner_verified dk d (tr_to_ws t) (tr_to t) = Inr (ag_owner b)"
    using ab m o by (simp_all add: owner_verified_iff owners_of_def)
  then show "\<exists>b. transfer_sides dk d t = Inr b"
    using l by (simp add: transfer_sides_def sides_in_order_def lock_sides_def)
qed (blast dest: transfer_sides_InrD(1))

text \<open>The rules' own records leave what decides the movement of the credits as it was.\<close>

lemma move_credits_quiet:
  assumes q: "rules_quiet d d'" and c: "capability_by_key key = Some c" and pos: "0 < tr_amount t"
  shows "(\<exists>r. move_credits s cx g d' key t = Inr r) \<longleftrightarrow> (\<exists>r. move_credits s cx g d key t = Inr r)"
proof -
  have "test_funded_ulxc d' w = test_funded_ulxc d w" for w
    using same_money_views [OF quiet_money [OF q]] test_workspace_rows [OF rows_only_quiet [OF q]]
    by (simp add: test_funded_ulxc_eq Let_def)
  then show ?thesis
    unfolding move_credits_iff [OF c pos] takes_live_quiet [OF q] test_workspace_rows [OF rows_only_quiet [OF q]] by simp
qed

definition transfer_permitted :: "desk \<Rightarrow> ctx \<Rightarrow> deals \<Rightarrow> transfer \<Rightarrow> bool \<Rightarrow> string \<Rightarrow> bool" where
  "transfer_permitted dk cx n t judged new_id \<longleftrightarrow>
     (let d = dl_db n; g = dl_gates n; s = dk_store dk; w = tr_from_ws t; u = receiver_ws n t
      in 0 < tr_amount t \<and> tr_from t \<noteq> tr_to t \<and>
         (tr_to_ws t = '''' \<longrightarrow> \<not> isl (resolve_wallet n (tr_to t))) \<and>
         test_workspace d w = test_workspace d u \<and> sides_ok dk d (filled n t new_id) \<and>
         tr_amount t \<le> account_balance d w (AgentAcc (tr_from t)) \<and>
         (judged \<longrightarrow> rules_permit s cx d w (tr_from t) (tr_amount t)) \<and>
         (\<exists>c. capability_by_key (transfer_key n t) = Some c \<and> may_use g w c \<and>
            (takes_live s cx g d w c \<or> test_workspace d w \<or> tr_amount t \<le> test_funded_ulxc d w)) \<and>
         (u \<noteq> w \<longrightarrow> freezes g w = None \<and> freezes g u = None) \<and>
         tr_id (filled n t new_id) \<notin> tr_id ` set (dl_transfers n) \<and> tr_class (filled n t new_id) \<noteq> Red \<and>
         (tr_refund_of t \<noteq> '''' \<longrightarrow> \<not> refunded n (tr_refund_of t)))"

lemma judged_quiet:
  "if judged then enforce_agent_rules s cx d w a x i = Inr d1 else d1 = d \<Longrightarrow> rules_quiet d d1"
  by (cases judged) (auto dest: enforce_quiet)

lemma record_transfer_iff:
  "isl (record_transfer cx n t) \<longleftrightarrow> tr_id t \<in> tr_id ` set (dl_transfers n) \<or> tr_class t = Red \<or>
     (tr_refund_of t \<noteq> '''' \<and> refunded n (tr_refund_of t))"
  by (auto simp: record_transfer_def refunded_def Let_def list_ex_iff intro: rev_image_eqI)

lemma move_credits_row: "move_credits s cx g d key t = Inr (d', t') \<Longrightarrow> t' = t\<lparr>tr_test := tr_test t'\<rparr>"
  by (auto simp: move_credits_def Let_def split: if_splits)

lemma make_transfer_went:
  assumes pos: "0 < tr_amount t" and c: "capability_by_key key = Some c"
    and m: "\<exists>r. move_credits (dk_store dk) cx (dl_gates n) (dl_db n) key t = Inr r"
    and bal: "tr_amount t \<le> account_balance (dl_db n) (tr_from_ws t) (AgentAcc (tr_from t))"
    and j: "judged \<Longrightarrow> rules_permit (dk_store dk) cx (dl_db n) (tr_from_ws t) (tr_from t) (tr_amount t)"
    and rec: "tr_id t \<notin> tr_id ` set (dl_transfers n)" "tr_class t \<noteq> Red"
      "tr_refund_of t \<noteq> '''' \<longrightarrow> \<not> refunded n (tr_refund_of t)"
  shows "\<not> isl (make_transfer dk cx n t key judged)"
proof -
  let ?s = "dk_store dk" and ?d = "dl_db n"
  let ?e = "if judged then enforce_agent_rules ?s cx ?d (tr_from_ws t) (tr_from t) (tr_amount t) (tr_id t) else Inr ?d"
  obtain d1 where d1: "?e = Inr d1"
  proof (cases judged)
    case True
    with j enforce_permits [of ?s cx ?d "tr_from_ws t" "tr_from t" "tr_amount t" "tr_id t"] that show ?thesis by auto
  next
    case False
    with that show ?thesis by auto
  qed
  then have "rules_quiet ?d d1" by (intro judged_quiet) (auto split: if_splits)
  then obtain d2 t2 where m2: "move_credits ?s cx (dl_gates n) d1 key t = Inr (d2, t2)"
    using m move_credits_quiet [OF _ c pos] by (metis surj_pair)
  have t2: "t2 = t\<lparr>tr_test := tr_test t2\<rparr>" by (rule move_credits_row [OF m2])
  have f: "tr_amount t2 = tr_amount t" "tr_id t2 = tr_id t" "tr_class t2 = tr_class t" "tr_refund_of t2 = tr_refund_of t"
    by (subst t2, simp)+
  have "\<not> account_balance ?d (tr_from_ws t) (AgentAcc (tr_from t)) < tr_amount t" using bal by simp
  then show ?thesis
    using rec pos
    by (auto simp: make_transfer_def Let_def d1 m2 post_across_eq f record_transfer_iff refunded_def)
qed

lemma transfer_goes:
  assumes "transfer_permitted dk cx n t judged new_id"
  shows "\<not> isl (transfer_tx dk cx n t judged new_id)"
proof -
  let ?u = "receiver_ws n t" and ?t = "filled n t new_id" and ?w = "tr_from_ws t"
  define t0 where "t0 = t\<lparr>tr_to_ws := ?u\<rparr>"
  note P = assms [unfolded transfer_permitted_def Let_def]
  obtain c where c: "capability_by_key (transfer_key n t) = Some c" "may_use (dl_gates n) ?w c"
    "takes_live (dk_store dk) cx (dl_gates n) (dl_db n) ?w c \<or> test_workspace (dl_db n) ?w \<or>
      tr_amount t \<le> test_funded_ulxc (dl_db n) ?w"
    using P by blast
  have rs: "(if tr_to_ws t = '''' then map_sum id (\<lambda>a. t\<lparr>tr_to_ws := wa_ws a\<rparr>) (resolve_wallet n (tr_to t)) else Inr t) = Inr t0"
    using P by (cases "resolve_wallet n (tr_to t)") (auto simp: t0_def receiver_ws_def)
  have "sides_ok dk (dl_db n) t0" using P by (simp add: sides_ok_def owners_of_def t0_def)
  then obtain same where sides: "transfer_sides dk (dl_db n) t0 = Inr same" using transfer_sides_iff by blast
  have same: "same = same_owner (dl_db n) t"
    using transfer_sides_InrD(2) [OF sides] by (simp add: same_owner_def owners_of_def t0_def)
  have tc: "transfer_class t0 same = (transfer_key n t, tr_class ?t)"
    by (simp add: transfer_class_def t0_def same transfer_key_def split: option.split)
  have t1: "tr_id t0 = '''' \<Longrightarrow> t0\<lparr>tr_class := tr_class ?t, tr_id := new_id\<rparr> = ?t"
    "tr_id t0 \<noteq> '''' \<Longrightarrow> t0\<lparr>tr_class := tr_class ?t\<rparr> = ?t"
    by (simp_all add: t0_def filled_def)
  have wall: "check_money_wall (dl_db n) (tr_from_ws t0) (tr_to_ws t0) = Inr ()"
    using P by (simp add: check_money_wall_def t0_def)
  have pos: "0 < tr_amount ?t" using P by simp
  have "\<exists>r. move_credits (dk_store dk) cx (dl_gates n) (dl_db n) (transfer_key n t) ?t = Inr r"
    unfolding move_credits_iff [OF c(1) pos] using c P by simp
  then have "\<not> isl (make_transfer dk cx n ?t (transfer_key n t) judged)"
    by (rule make_transfer_went [OF pos c(1)]) (use P in simp_all)
  then show ?thesis using P by (cases "tr_id t0 = ''''") (simp_all add: transfer_tx_def rs wall sides tc t1 [simplified])
qed

text \<open>A transfer succeeds exactly when it is permitted.\<close>

lemma transfer_iff:
  "(\<exists>r. transfer_tx dk cx n t judged new_id = Inr r) \<longleftrightarrow> transfer_permitted dk cx n t judged new_id"
proof
  assume "\<exists>r. transfer_tx dk cx n t judged new_id = Inr r"
  then obtain n' t' where r: "transfer_tx dk cx n t judged new_id = Inr (n', t')" by auto
  then obtain d1 d2 t2 where pos: "0 < tr_amount t" and ab: "tr_from t \<noteq> tr_to t"
    and wall: "check_money_wall (dl_db n) (tr_from_ws t) (receiver_ws n t) = Inr ()"
    and side: "sides_ok dk (dl_db n) (filled n t new_id)"
    and bal: "tr_amount t \<le> account_balance (dl_db n) (tr_from_ws t) (AgentAcc (tr_from t))"
    and e: "if judged then enforce_agent_rules (dk_store dk) cx (dl_db n) (tr_from_ws t) (tr_from t) (tr_amount t)
        (tr_id (filled n t new_id)) = Inr d1 else d1 = dl_db n"
    and m: "move_credits (dk_store dk) cx (dl_gates n) d1 (transfer_key n t) (filled n t new_id) = Inr (d2, t2)"
    and rec: "tr_id (filled n t new_id) \<notin> tr_id ` set (dl_transfers n)" "tr_class (filled n t new_id) \<noteq> Red"
      "tr_refund_of t \<noteq> '''' \<longrightarrow> \<not> refunded n (tr_refund_of t)"
    by (rule transfer_tx_InrD)
  have rs: "tr_to_ws t = '''' \<Longrightarrow> \<not> isl (resolve_wallet n (tr_to t))"
    using r pos ab by (cases "resolve_wallet n (tr_to t)") (auto simp: transfer_tx_def)
  have rules: "judged \<Longrightarrow> rules_permit (dk_store dk) cx (dl_db n) (tr_from_ws t) (tr_from t) (tr_amount t)"
    using e enforce_permits by fastforce
  have pos': "0 < tr_amount (filled n t new_id)" using pos by simp
  obtain c where c: "capability_by_key (transfer_key n t) = Some c"
    using m by (auto simp: move_credits_def Let_def spend_for_capability_def split: option.splits)
  have "\<exists>r. move_credits (dk_store dk) cx (dl_gates n) (dl_db n) (transfer_key n t) (filled n t new_id) = Inr r"
    using m move_credits_quiet [OF judged_quiet [OF e] c pos'] by blast
  then show "transfer_permitted dk cx n t judged new_id"
    unfolding move_credits_iff [OF c pos'] transfer_permitted_def Let_def
    using pos ab rs wall side bal rules c rec by (auto simp: check_money_wall_def split: if_splits)
qed (use transfer_goes went_iff in blast)

text \<open>What the judgement's part aside, a transfer leaves the agents and the workspaces as they are.\<close>

lemma shift_balance_agents [simp]: "agents (shift_balance cx d w x ty de me) = agents d"
  by (simp add: shift_balance_eq)

lemma read_rows_agents [simp]: "agents (read_rows d a b) = agents d"
  by (simp add: read_rows_def)

lemma move_credits_agents:
  assumes m: "move_credits s cx g d key t = Inr (d', t')" and pos: "0 < tr_amount t"
    and tn: "\<And>v. 0 \<le> test_of d v"
  shows "agents d' = agents d"
proof -
  let ?D = "read_rows d (tr_from_ws t) (tr_to_ws t)"
  have t: "0 \<le> test_of ?D (tr_from_ws t)" using tn by (simp add: view_simps)
  obtain d1 t0 where s: "spend_for_capability s cx g ?D (tr_from_ws t) key (tr_amount t) = Inr (d1, t0)"
    and d': "agents d' = agents d1"
    using m by (auto simp: move_credits_def Let_def move_lxc_def split: if_splits)
  have "agents d1 = agents ?D" using spend_for_capability_InrD [OF s pos t] by (metis set_test_frame(6))
  then show ?thesis using d' by simp
qed

lemma unjudged_frame:
  assumes r: "transfer_tx dk cx n t False new_id = Inr (n', t')" and tn: "\<And>v. 0 \<le> test_of (dl_db n) v"
  shows "agents (dl_db n') = agents (dl_db n)" and "workspaces (dl_db n') = workspaces (dl_db n)"
proof -
  from r obtain d2 t2 where pos: "0 < tr_amount t"
    and m: "move_credits (dk_store dk) cx (dl_gates n) (dl_db n) (transfer_key n t) (filled n t new_id) = Inr (d2, t2)"
    and n': "n' = n\<lparr>dl_db := across_db cx d2 PkTransfer (tr_id (filled n t new_id)) (transfer_legs (filled n t new_id)),
      dl_transfers := dl_transfers n @ [t'\<lparr>tr_capability := ''''\<rparr>]\<rparr>"
    by (rule transfer_tx_InrD) auto
  have pos': "0 < tr_amount (filled n t new_id)" using pos by simp
  show "agents (dl_db n') = agents (dl_db n)" using move_credits_agents [OF m pos' tn] by (simp add: n')
  show "workspaces (dl_db n') = workspaces (dl_db n)" using move_credits_InrD(1) [OF m pos' tn] by (simp add: n' rows_only_def)
qed

end
