(* ===== verification/Sample_Deals.thy ===== *)
theory Sample_Deals
  imports Sample_Wallet Deal_System Transfer_Rule
begin

section \<open>Two companies that deal with each other\<close>

text \<open>
  The sample wallet with a second workspace, both of them test workspaces, and an agent of
  another owner in it. Every state after \<open>duo\<close> is what an operation left.
\<close>

definition demo_desk :: desk where
  "demo_desk = \<lparr>dk_store = demo_store, dk_verifier = Some (\<lambda>d w. Inr True), dk_sha = (\<lambda>s. s)\<rparr>"

definition demo_two :: db where
  "demo_two = fst (right_or (demo_agent, new_agent demo_ctx ''b'' ''v'' ''B'' ''p'' KindAgent)
     (create_agent demo_store demo_ctx demo_agent ''v'' ''B'' ''p'' ''b''))"

definition demo_peer :: db where
  "demo_peer = fst (right_or (demo_two, 0) (fund_agent demo_ctx demo_two ''w'' ''a'' 2000))"

definition duo :: deals where
  "duo = empty_deals\<lparr>dl_db := demo_peer\<lparr>workspaces :=
     [''w'' \<mapsto> \<lparr>wk_synthetic = True, wk_name = ''W'', wk_company = False, wk_synthetic_plan = None\<rparr>,
      ''v'' \<mapsto> \<lparr>wk_synthetic = True, wk_name = ''V'', wk_company = False, wk_synthetic_plan = None\<rparr>]\<rparr>\<rparr>"

definition duo_order :: transfer where
  "duo_order = new_transfer ''w'' ''a'' ''v'' ''b'' 1000 ''order''"

subsection \<open>The books of both\<close>

lemma demo_peer_books: "books demo_peer"
proof -
  have 1: "reachable demo_store demo_kw demo_bought"
    using demo_ran(1) reachable.after [OF reachable.start wallet_step.credit] by blast
  have 2: "reachable demo_store demo_kw demo_agent"
    using demo_ran(2) reachable.after [OF 1 wallet_step.create] by blast
  have "\<not> isl (create_agent demo_store demo_ctx demo_agent ''v'' ''B'' ''p'' ''b'')" by code_simp
  from right_or_fst [OF this] have "\<exists>x. create_agent demo_store demo_ctx demo_agent ''v'' ''B'' ''p'' ''b'' = Inr (demo_two, x)"
    unfolding demo_two_def by (rule exI)
  then have 3: "reachable demo_store demo_kw demo_two"
    using reachable.after [OF 2 wallet_step.create] by blast
  have "\<not> isl (fund_agent demo_ctx demo_two ''w'' ''a'' 2000)" by code_simp
  from right_or_fst [OF this] have "\<exists>x. fund_agent demo_ctx demo_two ''w'' ''a'' 2000 = Inr (demo_peer, x)"
    unfolding demo_peer_def by (rule exI)
  then have "reachable demo_store demo_kw demo_peer"
    using reachable.after [OF 3 wallet_step.fund] by blast
  then show ?thesis using reachable_inv [OF _ demo_pool] by (simp add: wallet_inv_def)
qed

lemma no_escrow_accounts:
  "list_all (\<lambda>p. case snd (fst p) of EscrowAcc _ \<Rightarrow> False | _ \<Rightarrow> True) (acct_balances d) \<Longrightarrow>
    account_balance d v (EscrowAcc i) = 0"
proof -
  assume a: "list_all (\<lambda>p. case snd (fst p) of EscrowAcc _ \<Rightarrow> False | _ \<Rightarrow> True) (acct_balances d)"
  have "map_of (acct_balances d) (v, EscrowAcc i) = None"
  proof (cases "map_of (acct_balances d) (v, EscrowAcc i)")
    case (Some x)
    then have "((v, EscrowAcc i), x) \<in> set (acct_balances d)" by (rule map_of_SomeD)
    then show ?thesis using a by (auto simp: list_all_iff)
  qed
  then show ?thesis by (simp add: account_balance_def)
qed

lemma duo_ok: "all_ok duo"
proof -
  have "same_money demo_peer (dl_db duo)" by (simp add: duo_def same_money_def)
  then have "books (dl_db duo)" by (rule same_money_books [OF _ demo_peer_books])
  moreover have "account_balance (dl_db duo) v (EscrowAcc i) = 0" for v i
    by (rule no_escrow_accounts) code_simp
  ultimately show ?thesis
    by (simp add: all_ok_def deals_ok_def escrow_ok_def loans_ok_def escrowed_def duo_def empty_deals_def)
qed

lemma duo_tested: "0 \<le> test_of (dl_db duo) v"
  using duo_ok by (auto simp: all_ok_def deals_ok_def books_slack_0 dest: slackD(7))

subsection \<open>Transfers between the two\<close>

lemma duo_facts:
  "dl_gates duo = empty_gates" "dl_transfers duo = []" "dl_loans duo = []" "dl_escrows duo = []"
  by (simp_all add: duo_def empty_deals_def)

lemma duo_test: "test_workspace (dl_db duo) ''w''" "test_workspace (dl_db duo) ''v''"
  by (simp_all add: test_workspace_def duo_def)

lemma duo_funds: "account_balance (dl_db duo) ''w'' (AgentAcc ''a'') = 2000"
  by code_simp

lemma duo_order_facts:
  "tr_refund_of duo_order = ''''" "tr_loan duo_order = ''''" "tr_from_ws duo_order = ''w''" "tr_id duo_order = ''''"
  "tr_from duo_order = ''a''" "tr_amount duo_order = 1000" "tr_to_ws duo_order = ''v''" "tr_to duo_order = ''b''"
  "tr_capability duo_order = ''''" "receiver_ws duo duo_order = ''v''"
  by (simp_all add: duo_order_def new_transfer_def receiver_ws_def)

lemma duo_sides: "sides_ok demo_desk (dl_db duo) duo_order" "\<not> same_owner (dl_db duo) duo_order"
  by code_simp+

lemma open_gates [simp]: "freezes empty_gates w = None" "latest_terms empty_gates k = None" "may_use empty_gates w c"
  by (simp_all add: latest_terms_def empty_gates_def may_use_def)

lemma known_keys: "capability_by_key ''pay_another_owner'' \<noteq> None" "capability_by_key ''loans_between_companies'' \<noteq> None"
proof -
  have "\<not> Option.is_none (capability_by_key ''pay_another_owner'')"
    "\<not> Option.is_none (capability_by_key ''loans_between_companies'')" by code_simp+
  then show "capability_by_key ''pay_another_owner'' \<noteq> None" "capability_by_key ''loans_between_companies'' \<noteq> None"
    by (auto simp: Option.is_none_def)
qed

lemma no_empty_key: "capability_by_key '''' = None"
  by code_simp

text \<open>A transfer between the two goes through when the sender has the credits and its rules let it.\<close>

lemma amber_transfer:
  "tr_capability t = '''' \<Longrightarrow> \<not> same \<Longrightarrow> transfer_class t same = (''pay_another_owner'', Amber)"
  by (simp add: transfer_class_def no_empty_key)

lemma tests_transfer:
  assumes g: "dl_gates n = empty_gates" and w: "test_workspace (dl_db n) (tr_from_ws t)" "test_workspace (dl_db n) (receiver_ws n t)"
    and c: "transfer_class t (same_owner (dl_db n) t) = (k, Amber)" "capability_by_key k \<noteq> None" and ws: "tr_to_ws t \<noteq> ''''"
    and x: "0 < tr_amount t" "tr_amount t \<le> account_balance (dl_db n) (tr_from_ws t) (AgentAcc (tr_from t))"
    and s: "tr_from t \<noteq> tr_to t" "sides_ok dk (dl_db n) (filled n t i)"
    and j: "judged \<Longrightarrow> rules_permit (dk_store dk) cx (dl_db n) (tr_from_ws t) (tr_from t) (tr_amount t)"
    and i: "tr_id t = ''''" "i \<notin> tr_id ` set (dl_transfers n)"
    and f: "tr_refund_of t \<noteq> '''' \<longrightarrow> \<not> refunded n (tr_refund_of t)"
  shows "\<exists>r. transfer_tx dk cx n t judged i = Inr r"
  unfolding transfer_iff transfer_permitted_def Let_def
  using assms by (auto simp: transfer_key_def)

lemma duo_permit: "rules_permit demo_store demo_ctx (dl_db duo) ''w'' ''a'' 1000"
proof -
  have "\<not> isl (enforce_agent_rules demo_store demo_ctx (dl_db duo) ''w'' ''a'' 1000 ''x'')" by code_simp
  then show ?thesis by (simp add: went_iff flip: enforce_permits [where ref = "''x''"])
qed

lemma sides_filled: "receiver_ws n t = tr_to_ws t \<Longrightarrow> sides_ok dk d (filled n t i) = sides_ok dk d t"
  by (simp add: sides_ok_def owners_of_def)

lemma duo_goes: "\<exists>r. transfer_tx demo_desk demo_ctx duo duo_order judged ''t1'' = Inr r"
proof -
  have "sides_ok demo_desk (dl_db duo) (filled duo duo_order ''t1'')"
    using duo_sides(1) by (simp add: sides_filled duo_order_facts)
  then show ?thesis
    using duo_sides(2) duo_test duo_funds duo_permit
    by (intro tests_transfer [OF _ _ _ amber_transfer known_keys(1)]) (simp_all add: duo_order_facts duo_facts demo_desk_def)
qed

definition duo_sent :: "deals \<times> transfer" where
  "duo_sent = projr (transfer_tx demo_desk demo_ctx duo duo_order False ''t1'')"

definition duo_judged :: "deals \<times> transfer" where
  "duo_judged = projr (transfer_tx demo_desk demo_ctx duo duo_order True ''t1'')"

lemma duo_ran:
  "transfer_tx demo_desk demo_ctx duo duo_order False ''t1'' = Inr (fst duo_sent, snd duo_sent)"
  "transfer_tx demo_desk demo_ctx duo duo_order True ''t1'' = Inr (fst duo_judged, snd duo_judged)"
  using duo_goes [of False] duo_goes [of True] by (auto simp: duo_sent_def duo_judged_def)

subsection \<open>The transfer given back\<close>

lemma desk_earns: "may_earn demo_desk d w = Inr True"
  by (simp add: may_earn_def demo_desk_def)

lemma sides_agents:
  assumes "agents d' = agents d"
  shows "sides_ok demo_desk d' t = sides_ok demo_desk d t" "same_owner d' t = same_owner d t"
  using assms by (simp_all add: sides_ok_def same_owner_def owners_of_def lock_agent_def find_agent_def desk_earns)

lemma sides_swap:
  "sides_ok demo_desk d (refund_of t) = sides_ok demo_desk d t" "same_owner d (refund_of t) = same_owner d t"
  by (auto simp: sides_ok_def same_owner_def owners_of_def desk_earns split: option.split)

definition duo_row :: transfer where
  "duo_row = (snd duo_sent)\<lparr>tr_capability := ''''\<rparr>"

lemma duo_row_facts:
  "tr_from_ws duo_row = ''w''" "tr_from duo_row = ''a''" "tr_to_ws duo_row = ''v''" "tr_to duo_row = ''b''"
  "tr_amount duo_row = 1000" "tr_id duo_row = ''t1''" "tr_refund_of duo_row = ''''" "tr_loan duo_row = ''''"
  using transfer_row(3,5-9,11,12) [OF duo_ran(1)] by (simp_all add: duo_row_def duo_order_facts)

definition duo_back :: "deals \<times> transfer" where
  "duo_back = projr (transfer_tx demo_desk demo_ctx (fst duo_sent) (refund_of duo_row) False ''t2'')"

lemma duo_sent_row: "dl_transfers (fst duo_sent) = [duo_row]"
  using transfer_row(1) [OF duo_ran(1)] by (simp add: duo_facts duo_row_def)

lemma duo_back_ran: "transfer_tx demo_desk demo_ctx (fst duo_sent) (refund_of duo_row) False ''t2'' = Inr (fst duo_back, snd duo_back)"
proof -
  let ?n = "fst duo_sent" and ?t = "refund_of duo_row"
  have b: "books (dl_db duo)" using duo_ok by (simp add: all_ok_def deals_ok_def)
  note F = unjudged_frame [OF duo_ran(1) duo_tested]
  have bal: "1000 \<le> account_balance (dl_db ?n) ''v'' (AgentAcc ''b'')"
    using transfer_moves(2) [OF duo_ran(1) b, of "''v''" "AgentAcc ''b''"] books_account_nonneg [OF b, of "AgentAcc ''b''" "''v''"]
    by (simp add: duo_order_facts)
  have ws: "test_workspace (dl_db ?n) ''w''" "test_workspace (dl_db ?n) ''v''"
    using duo_test test_workspace_cong [OF F(2)] by simp_all
  have rc: "receiver_ws ?n ?t = ''w''" by (simp add: receiver_ws_def duo_row_facts)
  have same: "sides_ok demo_desk d duo_row = sides_ok demo_desk d duo_order" "same_owner d duo_row = same_owner d duo_order" for d
    by (simp_all add: sides_ok_def same_owner_def owners_of_def duo_row_facts duo_order_facts)
  have "sides_ok demo_desk (dl_db ?n) (filled ?n ?t ''t2'')"
    using duo_sides(1) by (subst sides_filled) (simp_all add: rc duo_row_facts sides_swap sides_agents [OF F(1)] same)
  moreover have "\<not> same_owner (dl_db ?n) ?t" using duo_sides(2) by (simp add: sides_swap sides_agents [OF F(1)] same)
  moreover have "dl_gates ?n = empty_gates" by (subst transfer_row(2) [OF duo_ran(1)]) (simp add: duo_facts)
  ultimately have "\<exists>r. transfer_tx demo_desk demo_ctx ?n ?t False ''t2'' = Inr r"
    using bal ws
    by (intro tests_transfer [OF _ _ _ amber_transfer known_keys(1)]) (simp_all add: rc duo_row_facts duo_sent_row refunded_def, simp_all add: refund_of_def new_transfer_def)
  then show ?thesis by (auto simp: duo_back_def)
qed

lemma duo_refunded:
  "refund_transfer demo_desk demo_ctx (fst duo_sent) (tr_to_ws (snd duo_sent)) (tr_id (snd duo_sent)) ''t2'' ''p1'' =
    (fst duo_back, Inr (snd duo_back))"
proof -
  have i: "tr_to_ws (snd duo_sent) = ''v''" "tr_id (snd duo_sent) = ''t1''"
    using duo_row_facts(3,6) by (simp_all add: duo_row_def)
  have "refundable_row (fst duo_sent) ''v'' ''t1'' = Some duo_row" "\<not> refunded (fst duo_sent) ''t1''"
    by (simp_all add: refundable_row_def refunded_def duo_sent_row duo_row_facts)
  then show ?thesis
    unfolding i refund_transfer_def run_transfer_def by (simp add: duo_back_ran refused_deal_def case_prod_beta)
qed

subsection \<open>An escrow paid in and released\<close>

definition told_nothing :: "err \<Rightarrow> string" where
  "told_nothing e = ''''"

definition duo_held :: deals where
  "duo_held = fst (pay_into_escrow demo_desk demo_ctx duo ''w'' ''a'' ''b'' 400 ''work'' 5000 ''e1'' ''p1'')"

definition duo_done :: deals where
  "duo_done = fst (confirm_escrow demo_ctx duo_held ''w'' ''e1'')"

lemma duo_steps: "deal_step demo_desk told_nothing duo duo_held" "deal_step demo_desk told_nothing duo_held duo_done"
  unfolding duo_held_def duo_done_def by (rule deal_step.intros)+

lemma duo_reaches: "deals_reach demo_desk told_nothing duo duo_held" "deals_reach demo_desk told_nothing duo_held duo_done"
  "deals_reach demo_desk told_nothing duo duo_done"
  unfolding deals_reach_def using duo_steps by (auto intro: rtranclp.rtrancl_into_rtrancl)

lemma duo_paid_in: "list_all (\<lambda>e. es_status e = EsHeld \<and> es_release_at e = 5000 \<and> es_amount e = 400) (dl_escrows duo_held) \<and> length (dl_escrows duo_held) = 1"
  by code_simp

lemma duo_due: "length (due_escrows duo_held 6000) = 1"
proof -
  obtain e where "dl_escrows duo_held = [e]" "es_status e = EsHeld" "es_release_at e = 5000"
    using duo_paid_in by (cases "dl_escrows duo_held"; cases "tl (dl_escrows duo_held)") auto
  then show ?thesis by (simp add: due_escrows_def)
qed

text \<open>A state with an escrow that was released.\<close>

definition duo_settled :: deals where
  "duo_settled = duo\<lparr>dl_escrows := [(new_escrow demo_ctx ''e1'' ''w'' ''a''
     \<lparr>wa_id = ''b'', wa_handle = '''', wa_name = ''B'', wa_ws = ''v''\<rparr> 400 ''work'' 5000)\<lparr>es_status := EsReleased\<rparr>]\<rparr>"

lemma duo_settled_ok: "all_ok duo_settled" "length (dl_escrows duo_settled) = 1" "settled (dl_escrows duo_settled ! 0)"
proof -
  have "account_balance (dl_db duo) v (EscrowAcc i) = 0" for v i
    using duo_ok by (simp add: all_ok_def deals_ok_def escrow_ok_def escrowed_def duo_facts)
  then show "all_ok duo_settled"
    using duo_ok by (simp add: all_ok_def deals_ok_def escrow_ok_def escrowed_def loans_ok_def duo_facts
        duo_settled_def new_escrow_def open_escrow_def)
  show "length (dl_escrows duo_settled) = 1" "settled (dl_escrows duo_settled ! 0)"
    by (simp_all add: duo_settled_def settled_def)
qed

definition duo_decided :: deals where
  "duo_decided = fst (decide_escrow demo_ctx duo_settled ''e1'' False ''op'' ''note'')"

lemma duo_decided_reach: "deals_reach demo_desk told_nothing duo_settled duo_decided"
  unfolding deals_reach_def duo_decided_def by (rule r_into_rtranclp, rule deal_step.decide)

subsection \<open>A loan that is repaid\<close>

definition duo_terms :: loan_terms where
  "duo_terms = \<lparr>lt_principal = 301, lt_bps = 1000, lt_instalments = 2, lt_every = ''day'', lt_late_fee = 5, lt_memo = ''''\<rparr>"

definition duo_loan :: loan where
  "duo_loan = \<lparr>ln_id = ''l1'', ln_lender_ws = ''v'', ln_lender = ''b'', ln_borrower_ws = ''w'', ln_borrower = ''a'',
     ln_terms = duo_terms, ln_status = LnActive, ln_paid = 1, ln_due = Some 2000, ln_offered = 1000,
     ln_decided = Some 1000, ln_test = True\<rparr>"

definition duo_owing :: deals where
  "duo_owing = duo\<lparr>dl_loans := [duo_loan],
     dl_transfers := [(payout_of duo_loan)\<lparr>tr_id := ''t1''\<rparr>,
       (new_transfer ''w'' ''a'' ''v'' ''b'' 165 '''')\<lparr>tr_id := ''t2'', tr_loan := ''l1''\<rparr>],
     dl_loan_events := [\<lparr>le_loan = ''l1'', le_kind = LeInstalment, le_instalment = 1, le_principal = 150,
       le_interest = 15, le_late_fee = 0, le_transfer = ''t2'', le_at = 1500\<rparr>]\<rparr>"

definition duo_repaid :: deals where
  "duo_repaid = fst (run_loan_tick demo_desk demo_ctx (\<lambda>n. ''t3'') 2000 duo_owing)"

lemma duo_terms_fit: "loan_fits duo_terms"
  by (simp add: loan_fits_def interest_fits_def duo_terms_def is_i64_def)

lemma duo_instalments: "instalment duo_terms 1 = (150, 15)" "instalment duo_terms 2 = (151, 15)"
  by code_simp+

lemma duo_owing_ok: "all_ok duo_owing"
proof -
  have "deals_ok duo_owing"
    using duo_ok by (simp add: all_ok_def deals_ok_def escrow_ok_def escrowed_def duo_owing_def)
  moreover have "loan_ok duo_owing duo_loan"
    using duo_instalments(1)
    by (simp add: loan_ok_def duo_owing_def duo_loan_def lent_def taken_def fees_taken_def owed_def unanswered_def
        running_def payout_of_def new_transfer_def validate_terms_def duo_terms_def sum_where_def)
  ultimately show ?thesis
    by (simp add: all_ok_def loans_ok_def) (simp add: duo_owing_def payout_of_def new_transfer_def duo_loan_def)
qed

lemma duo_parties [simp]:
  "ln_borrower_ws duo_loan = ''w''" "ln_borrower duo_loan = ''a''" "ln_lender_ws duo_loan = ''v''" "ln_lender duo_loan = ''b''"
  by (simp_all add: duo_loan_def)

lemma duo_instalment:
  "tr_amount (instalment_of duo_loan) = 166" "tr_id (instalment_of duo_loan) = ''''"
  "tr_capability (instalment_of duo_loan) = ''loans_between_companies''"
  using duo_instalments(2)
  by (simp_all add: instalment_of_def duo_loan_def new_transfer_def i64_id is_i64_def late_fee_now_def)

lemma loans_key: "transfer_class (instalment_of duo_loan) same = (''loans_between_companies'', Amber)"
proof -
  have "map_option (\<lambda>c. (cp_key c, cp_class c)) (capability_by_key ''loans_between_companies'') =
      Some (''loans_between_companies'', Amber)" by code_simp
  then show ?thesis by (auto simp: transfer_class_def duo_instalment)
qed

lemma duo_tick_ran: "\<exists>r. transfer_tx demo_desk demo_ctx duo_owing (instalment_of duo_loan) False ''t3'' = Inr r"
proof -
  let ?t = "instalment_of duo_loan"
  have db: "dl_db duo_owing = dl_db duo" "dl_gates duo_owing = empty_gates"
    "tr_id ` set (dl_transfers duo_owing) = {''t1'', ''t2''}"
    by (simp_all add: duo_owing_def duo_facts payout_of_def new_transfer_def)
  have t: "tr_from_ws ?t = ''w''" "tr_from ?t = ''a''" "tr_to_ws ?t = ''v''" "tr_to ?t = ''b''" "receiver_ws duo_owing ?t = ''v''"
    by (simp_all add: receiver_ws_def)
  have "sides_ok demo_desk (dl_db duo) ?t = sides_ok demo_desk (dl_db duo) duo_order"
    by (simp add: sides_ok_def owners_of_def t duo_order_facts)
  then have "sides_ok demo_desk (dl_db duo_owing) (filled duo_owing ?t ''t3'')"
    using duo_sides(1) by (subst sides_filled) (simp_all add: t db)
  then show ?thesis
    using duo_test duo_funds
    by (intro tests_transfer [OF _ _ _ loans_key known_keys(2)]) (simp_all add: t db duo_instalment)
qed

lemma duo_repaid_loan: "map ln_status (dl_loans duo_repaid) = [LnRepaid]" "map ln_terms (dl_loans duo_repaid) = [duo_terms]"
proof -
  obtain n' t' where r: "transfer_tx demo_desk demo_ctx duo_owing (instalment_of duo_loan) False ''t3'' = Inr (n', t')"
    using duo_tick_ran by auto
  have l: "dl_loans n' = [duo_loan]" by (subst transfer_row(2) [OF r]) (simp add: duo_owing_def)
  have d: "due_loans duo_owing 2000 = [duo_loan]"
    by (simp add: due_loans_def duo_owing_def running_def duo_loan_def)
  have "dl_loans duo_repaid = [loan_paid duo_loan]"
    by (simp add: duo_repaid_def run_loan_tick_def d r l case_prod_beta Let_def)
  then show "map ln_status (dl_loans duo_repaid) = [LnRepaid]" "map ln_terms (dl_loans duo_repaid) = [duo_terms]"
    by (simp_all add: loan_paid_def duo_loan_def duo_terms_def)
qed

lemma duo_repaid_reach: "deals_reach demo_desk told_nothing duo_owing duo_repaid"
  unfolding deals_reach_def duo_repaid_def by (rule r_into_rtranclp, rule deal_step.repay)

subsection \<open>Corner cases\<close>

text \<open>
  A loan smaller than its number of instalments: its first instalments are of nothing, which no
  transfer takes, and the run stops at it on every tick, whatever else is due.
\<close>

lemma run_ticks_failed: "tick s = (s', Inl e) \<Longrightarrow> 0 < k \<Longrightarrow> run_ticks tick k s = (s', [], Some e)"
  by (cases k) simp_all

lemma empty_instalment_blocks:
  assumes "due_loans n now = l # ls" and "tr_amount (instalment_of l) \<le> 0"
  shows "run_loan_repayments dk cx fresh now n = (n, (0, 0, 0), Some (ErrInvalid ''the amount must be positive''))"
proof -
  have "run_loan_tick dk cx fresh now n = (n, Inl (ErrInvalid ''the amount must be positive''))"
    using assms by (simp add: run_loan_tick_def Let_def case_prod_beta transfer_tx_def counts_as_missed_def)
  then have "run_ticks (run_loan_tick dk cx fresh now) max_ticks_per_run n = (n, [], Some (ErrInvalid ''the amount must be positive''))"
    by (rule run_ticks_failed) (simp add: max_ticks_per_run_def)
  then show ?thesis by (simp add: run_loan_repayments_def)
qed

lemma empty_instalment_offered:
  defines "t \<equiv> duo_terms\<lparr>lt_principal := 1, lt_bps := 0\<rparr>"
  shows "validate_terms t = Inr ()" and "instalment t 1 = (0, 0)"
  unfolding t_def by code_simp+

text \<open>The cash behind credits that are sent to another workspace stays with the sender.\<close>

lemma backing_left_behind:
  "bal_of (dl_db (fst duo_sent)) ''w'' = 9000" "held_sum (dl_db (fst duo_sent)) ''w'' = 0"
  "cash_of (dl_db (fst duo_sent)) ''w'' = 10000" "bal_of (dl_db (fst duo_sent)) ''v'' = 1000" "cash_of (dl_db (fst duo_sent)) ''v'' = 0"
proof -
  have 0: "bal_of (dl_db duo) ''w'' = 10000" "held_sum (dl_db duo) ''w'' = 0" "cash_of (dl_db duo) ''w'' = 10000"
    "bal_of (dl_db duo) ''v'' = 0" "cash_of (dl_db duo) ''v'' = 0" by code_simp+
  have "books (dl_db duo)" using duo_ok by (simp add: all_ok_def deals_ok_def)
  note M = transfer_moves(3-5) [OF duo_ran(1) this]
  show "bal_of (dl_db (fst duo_sent)) ''w'' = 9000" "held_sum (dl_db (fst duo_sent)) ''w'' = 0"
    "cash_of (dl_db (fst duo_sent)) ''w'' = 10000" "bal_of (dl_db (fst duo_sent)) ''v'' = 1000"
    "cash_of (dl_db (fst duo_sent)) ''v'' = 0"
    by (simp_all add: M 0 shift_def duo_order_facts)
qed

end
