(* ===== verification/Key_Pool.thy ===== *)
theory Key_Pool
  imports Prelude "HOL-Library.Multiset"
begin

section \<open>The pool of provider keys (internal/keypool/pool.go)\<close>

text \<open>
  A pool keeps, for each provider, the list of its API keys and the position of the next turn.
  Each key carries a circular window of its last hundred outcomes (true is an error). The
  float64 comparison \<open>errs / len > 0.5\<close> of at most hundred outcomes is exact, and is
  \<open>2 * errs > len\<close> here. Go ranges over the map of providers in an order of its own; the list
  here is one such order, and \<open>find_any_order\<close> shows that keys with distinct ids are found the
  same in every order. The id of a new key (a random UUID) and the time are arguments.
\<close>

definition window_size :: nat where "window_size = 100"

definition min_window_for_unhealth :: nat where "min_window_for_unhealth = 1"

definition allowed_providers :: "string list" where
  "allowed_providers = [''openai'', ''anthropic'', ''google'']"

record pool_key =
  pk_id :: string
  pk_provider :: string
  pk_key :: string
  pk_alias :: string
  pk_rate_limit :: int
  pk_requests :: int
  pk_errors :: int
  pk_last_used :: "int option"
  pk_last_error :: "int option"
  pk_healthy :: bool
  pk_window :: "bool list"
  pk_window_len :: nat
  pk_window_idx :: nat

record key_stats =
  ks_id :: string
  ks_provider :: string
  ks_alias :: string
  ks_requests :: int
  ks_errors :: int
  ks_error_rate :: "nat \<times> nat" \<comment> \<open>errors and outcomes in the window\<close>
  ks_healthy :: bool
  ks_last_used :: "int option"

record pool =
  pl_keys :: "(string \<times> pool_key list) list"
  pl_counter :: "string \<Rightarrow> nat"

datatype pool_error = UnsupportedProvider | KeyRequired | NoKeys | NoHealthyKeys

definition new_pool :: pool where
  "new_pool = \<lparr>pl_keys = [], pl_counter = (\<lambda>_. 0)\<rparr>"

definition keys_of :: "pool \<Rightarrow> string \<Rightarrow> pool_key list" where
  "keys_of p provider = (case map_of (pl_keys p) provider of None \<Rightarrow> [] | Some ks \<Rightarrow> ks)"

fun put_keys :: "(string \<times> pool_key list) list \<Rightarrow> string \<Rightarrow> pool_key list \<Rightarrow> (string \<times> pool_key list) list" where
  "put_keys [] provider ks = [(provider, ks)]"
| "put_keys ((q, ks') # rest) provider ks =
     (if q = provider then (q, ks) # rest else (q, ks') # put_keys rest provider ks)"

subsection \<open>Adding, taking and removing keys\<close>

definition new_key :: "string \<Rightarrow> string \<Rightarrow> string \<Rightarrow> string \<Rightarrow> int \<Rightarrow> pool_key" where
  "new_key i provider key alias rate =
     \<lparr>pk_id = i, pk_provider = provider, pk_key = key, pk_alias = alias, pk_rate_limit = rate,
      pk_requests = 0, pk_errors = 0, pk_last_used = None, pk_last_error = None, pk_healthy = True,
      pk_window = replicate window_size False, pk_window_len = 0, pk_window_idx = 0\<rparr>"

definition add_key ::
    "pool \<Rightarrow> string \<Rightarrow> string \<Rightarrow> string \<Rightarrow> string \<Rightarrow> int \<Rightarrow> pool_error + pool \<times> pool_key" where
  "add_key p i provider key alias rate =
     (if provider \<notin> set allowed_providers then Inl UnsupportedProvider
      else if key = '''' then Inl KeyRequired
      else let k = new_key i provider key alias rate
        in Inr (p\<lparr>pl_keys := put_keys (pl_keys p) provider (keys_of p provider @ [k])\<rparr>, k))"

fun find_healthy :: "pool_key list \<Rightarrow> nat \<Rightarrow> nat \<Rightarrow> nat \<Rightarrow> nat option" where
  "find_healthy ks start i 0 = None"
| "find_healthy ks start i (Suc n) =
     (let idx = (start + i) mod length ks
      in if pk_healthy (ks ! idx) then Some idx else find_healthy ks start (Suc i) n)"

definition get_key :: "pool \<Rightarrow> string \<Rightarrow> pool_error + pool \<times> pool_key" where
  "get_key p provider =
     (let ks = keys_of p provider
      in if ks = [] then Inl NoKeys
         else case find_healthy ks (pl_counter p provider) 0 (length ks) of
             None \<Rightarrow> Inl NoHealthyKeys
           | Some idx \<Rightarrow>
               Inr (p\<lparr>pl_counter := (pl_counter p)(provider := (idx + 1) mod length ks)\<rparr>, ks ! idx))"

fun drop_first :: "string \<Rightarrow> pool_key list \<Rightarrow> pool_key list option" where
  "drop_first i [] = None"
| "drop_first i (k # ks) =
     (if pk_id k = i then Some ks else map_option ((#) k) (drop_first i ks))"

fun drop_from :: "string \<Rightarrow> (string \<times> pool_key list) list \<Rightarrow> (string \<times> pool_key list) list option" where
  "drop_from i [] = None"
| "drop_from i ((q, ks) # rest) =
     (case drop_first i ks of
        Some ks' \<Rightarrow> Some ((q, ks') # rest)
      | None \<Rightarrow> map_option ((#) (q, ks)) (drop_from i rest))"

definition remove_key :: "pool \<Rightarrow> string \<Rightarrow> pool \<times> bool" where
  "remove_key p i =
     (case drop_from i (pl_keys p) of
        None \<Rightarrow> (p, False)
      | Some kss \<Rightarrow> (p\<lparr>pl_keys := kss\<rparr>, True))"

subsection \<open>The window of a key\<close>

definition observe_outcome :: "bool \<Rightarrow> pool_key \<Rightarrow> pool_key" where
  "observe_outcome is_error k =
     k\<lparr>pk_window := (pk_window k)[pk_window_idx k := is_error],
       pk_window_idx := (pk_window_idx k + 1) mod window_size,
       pk_window_len := (if pk_window_len k < window_size then pk_window_len k + 1 else pk_window_len k)\<rparr>"

definition window_errors :: "pool_key \<Rightarrow> nat" where
  "window_errors k = length (filter id (take (pk_window_len k) (pk_window k)))"

definition over_half :: "pool_key \<Rightarrow> bool" where
  "over_half k \<longleftrightarrow> pk_window_len k \<noteq> 0 \<and> 2 * window_errors k > pk_window_len k"

subsection \<open>Recording outcomes and promoting keys\<close>

definition note_success :: "int \<Rightarrow> pool_key \<Rightarrow> pool_key" where
  "note_success now k =
     observe_outcome False (k\<lparr>pk_requests := pk_requests k + 1, pk_last_used := Some now\<rparr>)"

definition note_error :: "int \<Rightarrow> pool_key \<Rightarrow> pool_key" where
  "note_error now k =
     (let k = observe_outcome True (k\<lparr>pk_errors := pk_errors k + 1, pk_last_error := Some now\<rparr>)
      in if pk_window_len k \<ge> min_window_for_unhealth \<and> over_half k then k\<lparr>pk_healthy := False\<rparr> else k)"

definition note_healthy :: "pool_key \<Rightarrow> pool_key" where
  "note_healthy k =
     k\<lparr>pk_errors := 0, pk_healthy := True, pk_window_idx := 0, pk_window_len := 0,
       pk_window := replicate window_size False\<rparr>"

fun find_in :: "string \<Rightarrow> pool_key list \<Rightarrow> pool_key option" where
  "find_in i [] = None"
| "find_in i (k # ks) = (if pk_id k = i then Some k else find_in i ks)"

fun find_among :: "string \<Rightarrow> (string \<times> pool_key list) list \<Rightarrow> pool_key option" where
  "find_among i [] = None"
| "find_among i ((q, ks) # rest) =
     (case find_in i ks of Some k \<Rightarrow> Some k | None \<Rightarrow> find_among i rest)"

definition find_key :: "pool \<Rightarrow> string \<Rightarrow> pool_key option" where
  "find_key p i = find_among i (pl_keys p)"

text \<open>The code changes the key it found in place: the first with that id.\<close>

fun change_in :: "string \<Rightarrow> (pool_key \<Rightarrow> pool_key) \<Rightarrow> pool_key list \<Rightarrow> pool_key list" where
  "change_in i f [] = []"
| "change_in i f (k # ks) = (if pk_id k = i then f k # ks else k # change_in i f ks)"

fun change_among ::
    "string \<Rightarrow> (pool_key \<Rightarrow> pool_key) \<Rightarrow> (string \<times> pool_key list) list \<Rightarrow> (string \<times> pool_key list) list" where
  "change_among i f [] = []"
| "change_among i f ((q, ks) # rest) =
     (case find_in i ks of
        Some _ \<Rightarrow> (q, change_in i f ks) # rest
      | None \<Rightarrow> (q, ks) # change_among i f rest)"

definition record_success :: "int \<Rightarrow> pool \<Rightarrow> string \<Rightarrow> pool" where
  "record_success now p i = p\<lparr>pl_keys := change_among i (note_success now) (pl_keys p)\<rparr>"

definition record_error :: "int \<Rightarrow> pool \<Rightarrow> string \<Rightarrow> pool" where
  "record_error now p i = p\<lparr>pl_keys := change_among i (note_error now) (pl_keys p)\<rparr>"

definition mark_healthy :: "pool \<Rightarrow> string \<Rightarrow> pool" where
  "mark_healthy p i = p\<lparr>pl_keys := change_among i note_healthy (pl_keys p)\<rparr>"

subsection \<open>Statistics and the health check\<close>

definition all_keys :: "pool \<Rightarrow> pool_key list" where
  "all_keys p = concat (map snd (pl_keys p))"

definition stats_of :: "pool_key \<Rightarrow> key_stats" where
  "stats_of k =
     \<lparr>ks_id = pk_id k, ks_provider = pk_provider k, ks_alias = pk_alias k, ks_requests = pk_requests k,
      ks_errors = pk_errors k, ks_error_rate = (window_errors k, pk_window_len k),
      ks_healthy = pk_healthy k, ks_last_used = pk_last_used k\<rparr>"

definition stats :: "pool \<Rightarrow> key_stats list" where
  "stats p = map stats_of (all_keys p)"

text \<open>\<open>cancelled n\<close>: the context has ended when the \<open>n\<close>th probe's turn comes.\<close>

fun probe_all ::
    "(nat \<Rightarrow> bool) \<Rightarrow> (string \<Rightarrow> string \<Rightarrow> bool) \<Rightarrow> nat \<Rightarrow> pool_key list \<Rightarrow> pool \<Rightarrow> pool" where
  "probe_all cancelled check n [] p = p"
| "probe_all cancelled check n (k # ks) p =
     (if cancelled n then p
      else probe_all cancelled check (Suc n) ks
        (if check (pk_provider k) (pk_key k) then mark_healthy p (pk_id k) else p))"

definition run_health_check_once ::
    "(nat \<Rightarrow> bool) \<Rightarrow> (string \<Rightarrow> string \<Rightarrow> bool) option \<Rightarrow> pool \<Rightarrow> pool" where
  "run_health_check_once cancelled check p =
     (case check of
        None \<Rightarrow> p
      | Some f \<Rightarrow> probe_all cancelled f 0 (filter (\<lambda>k. \<not> pk_healthy k) (all_keys p)) p)"

section \<open>Turns: the healthy keys in rotation\<close>

lemma find_healthy_Some:
  assumes "find_healthy ks c i n = Some idx"
  shows "\<exists>j \<ge> i. j < i + n \<and> idx = (c + j) mod length ks \<and> pk_healthy (ks ! idx) \<and>
    (\<forall>m. i \<le> m \<and> m < j \<longrightarrow> \<not> pk_healthy (ks ! ((c + m) mod length ks)))"
  using assms
proof (induction n arbitrary: i)
  case (Suc n)
  show ?case
  proof (cases "pk_healthy (ks ! ((c + i) mod length ks))")
    case True
    with Suc.prems show ?thesis by (intro exI [of _ i]) auto
  next
    case False
    with Suc.prems have "find_healthy ks c (Suc i) n = Some idx" by (simp add: Let_def)
    from Suc.IH [OF this] False show ?thesis
      by (metis Suc_leD Suc_leI add_Suc_right add_Suc_shift order_le_imp_less_or_eq)
  qed
qed simp

lemma find_healthy_None:
  assumes "find_healthy ks c i n = None" and "i \<le> j" and "j < i + n"
  shows "\<not> pk_healthy (ks ! ((c + j) mod length ks))"
  using assms
proof (induction n arbitrary: i)
  case (Suc n)
  then show ?case by (cases "i = j") (auto simp: Let_def split: if_splits)
qed simp

text \<open>The healthy keys of a provider in the order their turns come.\<close>

definition queue_of :: "pool \<Rightarrow> string \<Rightarrow> pool_key list" where
  "queue_of p provider = filter pk_healthy (rotate (pl_counter p provider) (keys_of p provider))"

lemma keys_of_counter [simp]: "keys_of (p\<lparr>pl_counter := c\<rparr>) provider = keys_of p provider"
  by (simp add: keys_of_def)

lemma rotate_past:
  assumes "j < length zs"
  shows "rotate (Suc j) zs = drop (Suc j) zs @ take j zs @ [zs ! j]"
proof (cases "Suc j = length zs")
  case True
  then have "take j zs @ [zs ! j] = zs" by (metis assms order_refl take_Suc_conv_app_nth take_all_iff)
  then show ?thesis using True by (simp add: rotate_drop_take del: rotate_Suc)
next
  case False
  then show ?thesis using assms by (simp add: rotate_drop_take take_Suc_conv_app_nth del: rotate_Suc)
qed

lemma get_key_turn:
  assumes "keys_of p provider \<noteq> []"
  shows "case queue_of p provider of
      [] \<Rightarrow> get_key p provider = Inl NoHealthyKeys
    | k # q \<Rightarrow> \<exists>p'. get_key p provider = Inr (p', k) \<and> queue_of p' provider = q @ [k] \<and>
        pl_keys p' = pl_keys p"
proof -
  define ks where "ks = keys_of p provider"
  define c where "c = pl_counter p provider"
  define zs where "zs = rotate c ks"
  have len: "length zs = length ks" "ks \<noteq> []" using assms by (simp_all add: zs_def ks_def)
  have nth: "zs ! j = ks ! ((c + j) mod length ks)" if "j < length ks" for j
    using that by (simp add: zs_def nth_rotate)
  have q: "queue_of p provider = filter pk_healthy zs" by (simp add: queue_of_def zs_def ks_def c_def)
  show ?thesis
  proof (cases "find_healthy ks c 0 (length ks)")
    case None
    have "\<not> pk_healthy k" if "k \<in> set zs" for k
    proof -
      from that obtain j where "j < length ks" "k = zs ! j" by (metis in_set_conv_nth len(1))
      then show ?thesis using find_healthy_None [OF None, of j] nth by simp
    qed
    then have "queue_of p provider = []" by (simp add: q filter_empty_conv)
    moreover have "get_key p provider = Inl NoHealthyKeys"
      using None assms by (simp add: get_key_def ks_def c_def)
    ultimately show ?thesis by simp
  next
    case (Some idx)
    obtain j where j: "j < length ks" "idx = (c + j) mod length ks" "pk_healthy (ks ! idx)"
      and before: "\<forall>m < j. \<not> pk_healthy (ks ! ((c + m) mod length ks))"
      using find_healthy_Some [OF Some] by auto
    have zj: "zs ! j = ks ! idx" using nth j by simp
    have none: "filter pk_healthy (take j zs) = []"
      using before nth j(1) len by (auto simp: filter_empty_conv in_set_conv_nth)
    have split: "zs = take j zs @ ks ! idx # drop (Suc j) zs"
      using j(1) len zj by (metis id_take_nth_drop)
    have queue: "queue_of p provider = ks ! idx # filter pk_healthy (drop (Suc j) zs)"
      unfolding q by (subst split) (simp add: none j(3))
    let ?p = "p\<lparr>pl_counter := (pl_counter p)(provider := (idx + 1) mod length ks)\<rparr>"
    have "rotate ((idx + 1) mod length ks) ks = rotate (Suc j) zs"
    proof -
      have "rotate ((idx + 1) mod length ks) ks = rotate (Suc j + c) ks"
        by (subst (1 2) rotate_conv_mod) (simp add: j(2) mod_simps add.commute)
      then show ?thesis by (simp add: zs_def rotate_rotate)
    qed
    also have "\<dots> = drop (Suc j) zs @ take j zs @ [ks ! idx]"
      using rotate_past [of j zs] j(1) len zj by simp
    finally have "queue_of ?p provider = filter pk_healthy (drop (Suc j) zs) @ [ks ! idx]"
      by (simp add: queue_of_def ks_def [symmetric] none j(3))
    moreover have "get_key p provider = Inr (?p, ks ! idx)"
      using Some assms by (simp add: get_key_def ks_def [symmetric] c_def [symmetric] Let_def)
    ultimately show ?thesis by (simp add: queue)
  qed
qed

text \<open>\<open>turns n\<close>: \<open>n\<close> calls of Get one after another, and the keys they gave.\<close>

fun turns :: "nat \<Rightarrow> pool \<Rightarrow> string \<Rightarrow> pool_error + pool \<times> pool_key list" where
  "turns 0 p provider = Inr (p, [])"
| "turns (Suc n) p provider =
     rbind (get_key p provider) (\<lambda>(p, k).
     rbind (turns n p provider) (\<lambda>(p, ks). Inr (p, k # ks)))"

lemma turns_rotate:
  assumes "queue_of p provider = q" and "q \<noteq> []"
  shows "\<exists>p'. turns n p provider = Inr (p', map (\<lambda>i. q ! (i mod length q)) [0..<n]) \<and>
    pl_keys p' = pl_keys p"
  using assms
proof (induction n arbitrary: p q)
  case (Suc n)
  then obtain k r where q: "q = k # r" by (cases q) auto
  have ne: "keys_of p provider \<noteq> []" using Suc.prems by (auto simp: queue_of_def)
  obtain p1 where p1: "get_key p provider = Inr (p1, k)" "queue_of p1 provider = r @ [k]" "pl_keys p1 = pl_keys p"
    using get_key_turn [OF ne] by (auto simp: Suc.prems(1) q)
  obtain p2 where p2: "turns n p1 provider = Inr (p2, map (\<lambda>i. (r @ [k]) ! (i mod length (r @ [k]))) [0..<n])"
    "pl_keys p2 = pl_keys p1"
    using Suc.IH [OF p1(2)] by auto
  have shift: "(r @ [k]) ! (i mod Suc (length r)) = (k # r) ! (Suc i mod Suc (length r))" for i
  proof -
    have l: "i mod Suc (length r) < Suc (length r)" by simp
    have s: "Suc i mod Suc (length r) = (if Suc (i mod Suc (length r)) = Suc (length r) then 0 else Suc (i mod Suc (length r)))"
      by (simp add: mod_Suc)
    show ?thesis
    proof (cases "i mod Suc (length r) = length r")
      case True
      then show ?thesis using s by simp
    next
      case False
      then have "i mod Suc (length r) < length r" using l by linarith
      then show ?thesis using s by (simp add: nth_append)
    qed
  qed
  have "[0..<Suc n] = 0 # map Suc [0..<n]" by (simp add: map_Suc_upt upt_conv_Cons)
  then have "map (\<lambda>i. q ! (i mod length q)) [0..<Suc n] = k # map (\<lambda>i. (r @ [k]) ! (i mod Suc (length r))) [0..<n]"
    by (simp add: q shift)
  then show ?case using p1 p2 by auto
qed simp

section \<open>The window is the last hundred outcomes\<close>

definition last_n :: "nat \<Rightarrow> 'a list \<Rightarrow> 'a list" where
  "last_n n xs = drop (length xs - n) xs"

lemma last_n_last_n: "last_n n (last_n n xs @ ys) = last_n n (xs @ ys)"
proof (cases "length xs \<le> n")
  case False
  then show ?thesis by (cases "length ys \<le> n") (simp_all add: last_n_def add.commute)
qed (simp add: last_n_def)

definition key_ok :: "pool_key \<Rightarrow> bool" where
  "key_ok k \<longleftrightarrow> length (pk_window k) = window_size \<and> pk_window_len k \<le> window_size \<and>
     pk_window_idx k < window_size \<and> (pk_window_len k < window_size \<longrightarrow> pk_window_idx k = pk_window_len k)"

text \<open>The outcomes the window holds, oldest first.\<close>

definition recent :: "pool_key \<Rightarrow> bool list" where
  "recent k =
     (if pk_window_len k < window_size then take (pk_window_len k) (pk_window k)
      else rotate (pk_window_idx k) (pk_window k))"

lemma window_size_pos [simp]: "0 < window_size" "window_size \<noteq> 0"
  by (simp_all add: window_size_def)

lemma recent_length: "key_ok k \<Longrightarrow> length (recent k) = pk_window_len k"
  by (auto simp: recent_def key_ok_def)

lemma count_rotate: "length (filter P (rotate n xs)) = length (filter P xs)"
proof (induction n)
  case (Suc n)
  have "length (filter P (rotate1 ys)) = length (filter P ys)" for ys by (cases ys) simp_all
  then show ?case using Suc by simp
qed simp

lemma window_errors_recent: "key_ok k \<Longrightarrow> window_errors k = length (filter id (recent k))"
  by (auto simp: recent_def window_errors_def key_ok_def count_rotate)

lemma rotate_update:
  assumes "i < length xs"
  shows "rotate (Suc i) (xs[i := x]) = tl (rotate i xs) @ [x]"
proof -
  have "rotate i xs = drop i xs @ take i xs" using assms by (simp add: rotate_drop_take)
  then have "tl (rotate i xs) = drop (Suc i) xs @ take i xs"
    using assms by (simp add: Cons_nth_drop_Suc [symmetric])
  moreover have "rotate (Suc i) (xs[i := x]) = drop (Suc i) xs @ take i xs @ [x]"
    using rotate_past [of i "xs[i := x]"] assms by simp
  ultimately show ?thesis by simp
qed

lemma observe_keeps [keeps]: "key_ok k \<Longrightarrow> key_ok (observe_outcome e k)"
  by (auto simp: key_ok_def observe_outcome_def mod_Suc)

lemma observe_recent:
  assumes "key_ok k"
  shows "recent (observe_outcome e k) = last_n window_size (recent k @ [e])"
proof -
  let ?w = "pk_window k" and ?i = "pk_window_idx k" and ?n = "pk_window_len k"
  have w: "length ?w = window_size" "?i < window_size" "?n \<le> window_size"
    and fill: "?n < window_size \<Longrightarrow> ?i = ?n"
    using assms by (auto simp: key_ok_def)
  show ?thesis
  proof (cases "?n < window_size")
    case True
    then have i: "?i = ?n" by (rule fill)
    have upd: "?w[?n := e] = take ?n ?w @ e # drop (Suc ?n) ?w"
      using w True by (simp add: upd_conv_take_nth_drop)
    have short: "last_n window_size (recent k @ [e]) = take ?n ?w @ [e]"
      using w True by (simp add: last_n_def recent_def)
    show ?thesis
    proof (cases "Suc ?n < window_size")
      case True
      then show ?thesis using w i short by (simp add: recent_def observe_outcome_def upd)
    next
      case False
      then have "Suc ?n = window_size" using \<open>?n < window_size\<close> by simp
      then show ?thesis using w i short by (auto simp: recent_def observe_outcome_def upd)
    qed
  next
    case False
    then have n: "?n = window_size" using w by simp
    have "recent (observe_outcome e k) = rotate (Suc ?i) (?w[?i := e])"
      using w n rotate_conv_mod [of "Suc ?i" "?w[?i := e]"] by (simp add: recent_def observe_outcome_def)
    also have "\<dots> = tl (rotate ?i ?w) @ [e]" using w by (simp add: rotate_update del: rotate_Suc)
    finally show ?thesis using w n by (simp add: recent_def last_n_def drop_Suc)
  qed
qed

subsection \<open>What a key is to its users: its recent outcomes and whether it is in turn\<close>

record key_view =
  kv_recent :: "bool list"
  kv_healthy :: bool

datatype key_event = Succeeded int | Failed int | Promoted

definition view_key :: "pool_key \<Rightarrow> key_view" where
  "view_key k = \<lparr>kv_recent = recent k, kv_healthy = pk_healthy k\<rparr>"

fun view_event :: "key_event \<Rightarrow> key_view \<Rightarrow> key_view" where
  "view_event (Succeeded t) v = v\<lparr>kv_recent := last_n window_size (kv_recent v @ [False])\<rparr>"
| "view_event (Failed t) v =
     (let r = last_n window_size (kv_recent v @ [True])
      in \<lparr>kv_recent = r, kv_healthy = (kv_healthy v \<and> 2 * length (filter id r) \<le> length r)\<rparr>)"
| "view_event Promoted v = \<lparr>kv_recent = [], kv_healthy = True\<rparr>"

fun key_event_on :: "key_event \<Rightarrow> pool_key \<Rightarrow> pool_key" where
  "key_event_on (Succeeded t) k = note_success t k"
| "key_event_on (Failed t) k = note_error t k"
| "key_event_on Promoted k = note_healthy k"

lemma key_ok_fields [simp]:
  "key_ok (k\<lparr>pk_requests := n, pk_last_used := t\<rparr>) = key_ok k"
  "key_ok (k\<lparr>pk_errors := n, pk_last_error := t\<rparr>) = key_ok k"
  "key_ok (k\<lparr>pk_healthy := h\<rparr>) = key_ok k"
  by (simp_all add: key_ok_def)

lemma recent_fields [simp]:
  "recent (k\<lparr>pk_requests := n, pk_last_used := t\<rparr>) = recent k"
  "recent (k\<lparr>pk_errors := n, pk_last_error := t\<rparr>) = recent k"
  "recent (k\<lparr>pk_healthy := h\<rparr>) = recent k"
  by (simp_all add: recent_def)

lemma key_event_keeps [keeps]: "key_ok k \<Longrightarrow> key_ok (key_event_on ev k)"
proof (cases ev)
  case Promoted
  then show ?thesis by (simp add: note_healthy_def key_ok_def)
qed (simp_all add: note_success_def note_error_def Let_def keeps)

lemma key_event_healthy_other [simp]: "pk_healthy (observe_outcome e k) = pk_healthy k"
  by (simp add: observe_outcome_def)

lemma view_key_event:
  assumes "key_ok k"
  shows "view_key (key_event_on ev k) = view_event ev (view_key k)"
proof (cases ev)
  case (Succeeded t)
  then show ?thesis using assms by (simp add: view_key_def note_success_def observe_recent)
next
  case (Failed t)
  define k1 where "k1 = observe_outcome True (k\<lparr>pk_errors := pk_errors k + 1, pk_last_error := Some t\<rparr>)"
  have ok: "key_ok k1" using assms by (simp add: k1_def keeps)
  have r: "recent k1 = last_n window_size (recent k @ [True])"
    using assms by (simp add: k1_def observe_recent)
  have len: "pk_window_len k1 = length (recent k1)" and errs: "window_errors k1 = length (filter id (recent k1))"
    using ok by (simp_all add: recent_length window_errors_recent)
  have "recent k1 \<noteq> []" by (simp add: r last_n_def window_size_def)
  then have "pk_window_len k1 \<ge> min_window_for_unhealth \<and> over_half k1 \<longleftrightarrow>
      2 * length (filter id (recent k1)) > length (recent k1)"
    by (simp add: len errs over_half_def min_window_for_unhealth_def Suc_le_eq)
  moreover have "pk_healthy k1 = pk_healthy k" by (simp add: k1_def)
  ultimately show ?thesis
    by (auto simp: Failed note_error_def k1_def [symmetric] view_key_def r [symmetric] Let_def)
next
  case Promoted
  then show ?thesis by (simp add: view_key_def note_healthy_def recent_def)
qed

lemma view_key_events:
  "key_ok k \<Longrightarrow> view_key (fold key_event_on evs k) = fold view_event evs (view_key k) \<and> key_ok (fold key_event_on evs k)"
  by (induction evs arbitrary: k) (simp_all add: view_key_event keeps)

lemma new_key_ok: "key_ok (new_key i provider key alias rate)"
  by (simp add: new_key_def key_ok_def)

lemma new_key_view: "view_key (new_key i provider key alias rate) = \<lparr>kv_recent = [], kv_healthy = True\<rparr>"
  by (simp add: new_key_def view_key_def recent_def)

lemma fold_view_recent:
  "Promoted \<notin> set evs \<Longrightarrow>
    kv_recent (fold view_event evs v) =
      (if evs = [] then kv_recent v
       else last_n window_size (kv_recent v @ map (\<lambda>e. case e of Failed _ \<Rightarrow> True | _ \<Rightarrow> False) evs))"
proof (induction evs arbitrary: v)
  case (Cons e evs)
  have "kv_recent (view_event e v) = last_n window_size (kv_recent v @ [case e of Failed _ \<Rightarrow> True | _ \<Rightarrow> False])"
    using Cons.prems by (cases e) (simp_all add: Let_def)
  with Cons show ?case by (simp add: last_n_last_n)
qed simp

section \<open>The pool as a whole\<close>

definition pool_ok :: "pool \<Rightarrow> bool" where
  "pool_ok p \<longleftrightarrow> distinct (map fst (pl_keys p)) \<and> distinct (map pk_id (all_keys p)) \<and>
     (\<forall>(q, ks) \<in> set (pl_keys p). q \<in> set allowed_providers \<and>
        (\<forall>k \<in> set ks. pk_provider k = q \<and> pk_key k \<noteq> '''' \<and> key_ok k))"

lemma pool_okD:
  assumes "pool_ok p"
  shows "distinct (map fst (pl_keys p))" "distinct (map pk_id (all_keys p))"
    "(q, ks) \<in> set (pl_keys p) \<Longrightarrow> k \<in> set ks \<Longrightarrow> pk_provider k = q \<and> pk_key k \<noteq> '''' \<and> key_ok k"
    "(q, ks) \<in> set (pl_keys p) \<Longrightarrow> q \<in> set allowed_providers"
  using assms unfolding pool_ok_def by blast+

subsection \<open>Finding a key\<close>

lemma find_in_Some: "find_in i ks = Some k \<Longrightarrow> k \<in> set ks \<and> pk_id k = i"
  by (induction ks) (auto split: if_splits)

lemma find_in_None: "find_in i ks = None \<longleftrightarrow> i \<notin> pk_id ` set ks"
  by (induction ks) auto

lemma find_in_distinct: "distinct (map pk_id ks) \<Longrightarrow> k \<in> set ks \<Longrightarrow> find_in (pk_id k) ks = Some k"
  by (induction ks) (auto simp: image_iff)

lemma find_among_concat: "find_among i kss = find_in i (concat (map snd kss))"
proof (induction i kss rule: find_among.induct)
  case (2 i q ks rest)
  have "find_in i (ks @ ls) = (case find_in i ks of Some k \<Rightarrow> Some k | None \<Rightarrow> find_in i ls)" for ls
    by (induction ks) auto
  with 2 show ?case by (auto split: option.split)
qed simp

lemma find_key_all: "find_key p i = find_in i (all_keys p)"
  by (simp add: find_key_def find_among_concat all_keys_def)

lemma find_any_order:
  assumes "distinct (map pk_id (all_keys p))" and "mset (pl_keys p') = mset (pl_keys p)"
  shows "find_key p' i = find_key p i"
proof -
  have m: "mset (all_keys p') = mset (all_keys p)"
    using assms(2) by (simp add: all_keys_def mset_concat mset_map multiset.map_comp flip: sum_mset_sum_list)
  then have d: "distinct (map pk_id (all_keys p'))"
    using assms(1) by (metis distinct_count_atmost_1 mset_map mset_eq_imp_distinct_iff)
  have s: "set (all_keys p') = set (all_keys p)" using m by (rule mset_eq_setD)
  show ?thesis
  proof (cases "find_in i (all_keys p)")
    case None
    then show ?thesis using s by (metis find_in_None find_key_all)
  next
    case (Some k)
    then have "k \<in> set (all_keys p')" "pk_id k = i" using find_in_Some s by fastforce+
    then show ?thesis using find_in_distinct [OF d] Some by (auto simp: find_key_all)
  qed
qed

subsection \<open>Changing a key\<close>

lemma change_in_other: "i \<notin> pk_id ` set ks \<Longrightarrow> change_in i f ks = ks"
  by (induction ks) auto

lemma map_if_other: "i \<notin> pk_id ` set ks \<Longrightarrow> map (\<lambda>k. if pk_id k = i then f k else k) ks = ks"
  by (induction ks) auto

lemma change_in_map:
  "distinct (map pk_id ks) \<Longrightarrow> change_in i f ks = map (\<lambda>k. if pk_id k = i then f k else k) ks"
  by (induction ks) (auto simp: map_if_other)

definition change_all :: "string \<Rightarrow> (pool_key \<Rightarrow> pool_key) \<Rightarrow> (string \<times> pool_key list) list \<Rightarrow> (string \<times> pool_key list) list" where
  "change_all i f = map (\<lambda>r. (fst r, map (\<lambda>k. if pk_id k = i then f k else k) (snd r)))"

lemma change_among_all:
  "distinct (map pk_id (concat (map snd kss))) \<Longrightarrow> change_among i f kss = change_all i f kss"
proof (induction i f kss rule: change_among.induct)
  case (2 i f q ks rest)
  have d: "distinct (map pk_id ks)" "distinct (map pk_id (concat (map snd rest)))"
    and apart: "pk_id ` set ks \<inter> pk_id ` set (concat (map snd rest)) = {}"
    using 2(2) by simp_all
  show ?case
  proof (cases "find_in i ks")
    case None
    then have "map (\<lambda>k. if pk_id k = i then f k else k) ks = ks" by (simp add: find_in_None map_if_other)
    then show ?thesis using None 2(1) [OF None d(2)] by (simp add: change_all_def)
  next
    case (Some k)
    then have i: "i \<in> pk_id ` set ks" using find_in_Some by blast
    have "map (\<lambda>k. if pk_id k = i then f k else k) (snd r) = snd r" if "r \<in> set rest" for r
    proof -
      have "set (snd r) \<subseteq> set (concat (map snd rest))" using that by auto
      then have "i \<notin> pk_id ` set (snd r)" using i apart by blast
      then show ?thesis by (rule map_if_other)
    qed
    then have "map (\<lambda>r. (fst r, map (\<lambda>k. if pk_id k = i then f k else k) (snd r))) rest = rest"
      by (intro map_idI) (simp only: prod.collapse)
    then have "change_all i f rest = rest" by (simp add: change_all_def)
    then show ?thesis using Some by (simp add: change_all_def change_in_map [OF d(1)])
  qed
qed (simp add: change_all_def)

lemma all_keys_changed:
  "concat (map snd (change_all i f kss)) = map (\<lambda>k. if pk_id k = i then f k else k) (concat (map snd kss))"
  by (induction kss) (auto simp: change_all_def)

lemma change_ok:
  assumes ok: "pool_ok p"
    and f: "\<And>k. key_ok k \<Longrightarrow> key_ok (f k)" "\<And>k. pk_id (f k) = pk_id k"
      "\<And>k. pk_provider (f k) = pk_provider k" "\<And>k. pk_key (f k) = pk_key k"
  shows "pool_ok (p\<lparr>pl_keys := change_among i f (pl_keys p)\<rparr>)"
    and "all_keys (p\<lparr>pl_keys := change_among i f (pl_keys p)\<rparr>) =
      map (\<lambda>k. if pk_id k = i then f k else k) (all_keys p)"
proof -
  have d: "distinct (map pk_id (concat (map snd (pl_keys p))))" using pool_okD(2) [OF ok] by (simp add: all_keys_def)
  show a: "all_keys (p\<lparr>pl_keys := change_among i f (pl_keys p)\<rparr>) =
      map (\<lambda>k. if pk_id k = i then f k else k) (all_keys p)"
    by (simp add: all_keys_def change_among_all [OF d] all_keys_changed)
  have ids: "map pk_id (map (\<lambda>k. if pk_id k = i then f k else k) ks) = map pk_id ks" for ks
    by (simp add: f)
  have fst: "map fst (change_all i f kss) = map fst kss" for kss
    by (simp add: change_all_def split_def)
  have "q \<in> set allowed_providers \<and> (\<forall>k \<in> set ks. pk_provider k = q \<and> pk_key k \<noteq> '''' \<and> key_ok k)"
    if changed: "(q, ks) \<in> set (change_all i f (pl_keys p))" for q ks
  proof -
    obtain ks' where m: "(q, ks') \<in> set (pl_keys p)" "ks = map (\<lambda>k. if pk_id k = i then f k else k) ks'"
      using changed by (auto simp: change_all_def)
    then show ?thesis using pool_okD(3,4) [OF ok m(1)] f by auto
  qed
  then show "pool_ok (p\<lparr>pl_keys := change_among i f (pl_keys p)\<rparr>)"
    using pool_okD(1,2) [OF ok] unfolding pool_ok_def a ids by (auto simp: change_among_all [OF d] fst)
qed

lemma note_fields [simp]:
  "pk_id (note_success t k) = pk_id k" "pk_provider (note_success t k) = pk_provider k" "pk_key (note_success t k) = pk_key k"
  "pk_id (note_error t k) = pk_id k" "pk_provider (note_error t k) = pk_provider k" "pk_key (note_error t k) = pk_key k"
  "pk_id (note_healthy k) = pk_id k" "pk_provider (note_healthy k) = pk_provider k" "pk_key (note_healthy k) = pk_key k"
  by (simp_all add: note_success_def note_error_def note_healthy_def observe_outcome_def Let_def)

lemmas event_keeps = key_event_keeps [of _ "Succeeded t"] key_event_keeps [of _ "Failed t"]
  key_event_keeps [of _ Promoted] for t

lemmas recorded_keys =
  change_ok(2) [where f = "note_success t", folded record_success_def]
  change_ok(2) [where f = "note_error t", folded record_error_def]
  change_ok(2) [where f = note_healthy, folded mark_healthy_def] for t

lemma record_ok [keeps]:
  assumes "pool_ok p"
  shows "pool_ok (record_success t p i)" "pool_ok (record_error t p i)" "pool_ok (mark_healthy p i)"
  using change_ok(1) [OF assms] event_keeps
  by (simp_all add: record_success_def record_error_def mark_healthy_def)

subsection \<open>Adding and removing\<close>

lemma put_keys_map: "map_of (put_keys kss q ks) = (map_of kss)(q \<mapsto> ks)"
  by (induction kss q ks rule: put_keys.induct) auto

lemma put_keys_set:
  "(q', ks') \<in> set (put_keys kss q ks) \<Longrightarrow> (q' = q \<and> ks' = ks) \<or> (q', ks') \<in> set kss"
  by (induction kss q ks rule: put_keys.induct) (auto split: if_splits)

lemma put_keys_distinct:
  "distinct (map fst kss) \<Longrightarrow> distinct (map fst (put_keys kss q ks))"
proof (induction kss q ks rule: put_keys.induct)
  case (2 q' ks' rest q ks)
  have "fst ` set (put_keys rest q ks) \<subseteq> insert q (fst ` set rest)" using put_keys_set by fastforce
  with 2 show ?case by auto
qed simp

lemma put_keys_all:
  assumes "distinct (map fst kss)"
  shows "mset (concat (map snd (put_keys kss q ((case map_of kss q of None \<Rightarrow> [] | Some ks \<Rightarrow> ks) @ [k])))) =
    add_mset k (mset (concat (map snd kss)))"
  using assms
proof (induction kss)
  case (Cons r kss)
  obtain q' ks' where r: "r = (q', ks')" by (cases r)
  have "map_of kss q = None" if "q' = q" using Cons.prems that r by (simp add: map_of_eq_None_iff)
  with Cons show ?case by (auto simp: r)
qed simp

lemma add_key_keeps [keeps]:
  assumes ok: "pool_ok p" and i: "find_key p i = None" and add: "add_key p i provider key alias rate = Inr (p', k)"
  shows "pool_ok p'" and "mset (all_keys p') = add_mset k (mset (all_keys p))"
    and "k = new_key i provider key alias rate"
proof -
  have allowed: "provider \<in> set allowed_providers" and key: "key \<noteq> ''''"
    and k: "k = new_key i provider key alias rate"
    and p': "p' = p\<lparr>pl_keys := put_keys (pl_keys p) provider (keys_of p provider @ [k])\<rparr>"
    using add by (auto simp: add_key_def Let_def split: if_splits)
  show "k = new_key i provider key alias rate" by (fact k)
  have d: "distinct (map fst (pl_keys p))" by (rule pool_okD(1) [OF ok])
  show m: "mset (all_keys p') = add_mset k (mset (all_keys p))"
    using put_keys_all [OF d] by (simp add: p' all_keys_def keys_of_def)
  have "pk_id k \<notin> pk_id ` set (all_keys p)"
    using i by (simp add: find_key_all find_in_None k new_key_def)
  then have ids: "distinct (map pk_id (all_keys p'))"
    using pool_okD(2) [OF ok] m
    by (metis add_mset_eq_singleton_iff distinct.simps(2) list.set_map list.simps(9) mset.simps(2) mset_eq_imp_distinct_iff mset_map)
  have new: "pk_provider k = provider \<and> pk_key k \<noteq> '''' \<and> key_ok k"
    using key by (simp add: k new_key_ok) (simp add: new_key_def)
  have "q \<in> set allowed_providers \<and> (\<forall>k \<in> set ks. pk_provider k = q \<and> pk_key k \<noteq> '''' \<and> key_ok k)"
    if m: "(q, ks) \<in> set (pl_keys p')" for q ks
  proof -
    have old: "\<forall>k \<in> set (keys_of p provider). pk_provider k = provider \<and> pk_key k \<noteq> '''' \<and> key_ok k"
      using pool_okD(3) [OF ok] map_of_SomeD [of "pl_keys p" provider]
      by (cases "map_of (pl_keys p) provider") (simp_all add: keys_of_def)
    from m [unfolded p', simplified] consider "q = provider" "ks = keys_of p provider @ [k]" | "(q, ks) \<in> set (pl_keys p)"
      by (auto dest: put_keys_set)
    then show ?thesis
      by cases (use old new allowed pool_okD(3,4) [OF ok] in auto)
  qed
  then show "pool_ok p'" using ids put_keys_distinct [OF d] by (auto simp: pool_ok_def p')
qed

lemma drop_first_Some:
  "drop_first i ks = Some ks' \<Longrightarrow> \<exists>k as bs. ks = as @ k # bs \<and> ks' = as @ bs \<and> pk_id k = i"
proof (induction i ks arbitrary: ks' rule: drop_first.induct)
  case (2 i k ks)
  show ?case
  proof (cases "pk_id k = i")
    case True
    with 2 have "k # ks = [] @ k # ks' \<and> ks' = [] @ ks' \<and> pk_id k = i" by simp
    then show ?thesis by blast
  next
    case False
    with 2 obtain k' as bs ls where "drop_first i ks = Some ls" "ks' = k # ls" "ks = as @ k' # bs" "ls = as @ bs" "pk_id k' = i"
      by auto
    then have "k # ks = (k # as) @ k' # bs \<and> ks' = (k # as) @ bs \<and> pk_id k' = i" by simp
    then show ?thesis by blast
  qed
qed simp

lemma drop_from_Some:
  "drop_from i kss = Some kss' \<Longrightarrow>
    \<exists>q k as bs xs ys. kss = xs @ (q, as @ k # bs) # ys \<and> kss' = xs @ (q, as @ bs) # ys \<and> pk_id k = i"
proof (induction i kss arbitrary: kss' rule: drop_from.induct)
  case (2 i q ks rest)
  show ?case
  proof (cases "drop_first i ks")
    case None
    with 2 obtain ls where ls: "drop_from i rest = Some ls" "kss' = (q, ks) # ls" by auto
    from 2(1) [OF None ls(1)] obtain q' k as bs xs ys where
      "rest = xs @ (q', as @ k # bs) # ys \<and> ls = xs @ (q', as @ bs) # ys \<and> pk_id k = i" by blast
    then show ?thesis using ls(2)
      by (intro exI [of _ q'] exI [of _ k] exI [of _ as] exI [of _ bs] exI [of _ "(q, ks) # xs"] exI [of _ ys]) simp
  next
    case (Some ks')
    with 2(2) drop_first_Some [OF Some] show ?thesis by fastforce
  qed
qed simp

lemma remove_key_keeps [keeps]:
  assumes "pool_ok p"
  shows "pool_ok (fst (remove_key p i))"
proof (cases "drop_from i (pl_keys p)")
  case (Some kss')
  then obtain q k as bs xs ys where
    s: "pl_keys p = xs @ (q, as @ k # bs) # ys" "kss' = xs @ (q, as @ bs) # ys" using drop_from_Some by blast
  then show ?thesis using assms Some
    by (auto simp: remove_key_def pool_ok_def all_keys_def)
qed (use assms in \<open>simp add: remove_key_def\<close>)

lemma pool_ok_counter [simp]: "pool_ok (p\<lparr>pl_counter := c\<rparr>) = pool_ok p"
  by (simp add: pool_ok_def all_keys_def)

lemma get_key_keeps [keeps]: "pool_ok p \<Longrightarrow> get_key p provider = Inr (p', k) \<Longrightarrow> pool_ok p'"
  by (auto simp: get_key_def Let_def split: if_splits option.splits)

subsection \<open>The health check\<close>

lemma probe_all_keeps: "pool_ok p \<Longrightarrow> pool_ok (probe_all c f n ks p)"
  by (induction c f n ks p rule: probe_all.induct) (simp_all add: record_ok)

lemma health_check_keeps [keeps]: "pool_ok p \<Longrightarrow> pool_ok (run_health_check_once c f p)"
  by (simp add: run_health_check_once_def probe_all_keeps split: option.split)

lemma probe_all_keys:
  assumes "pool_ok p"
  shows "all_keys (probe_all (\<lambda>_. False) f n ks p) =
    map (\<lambda>k. if \<exists>k' \<in> set ks. pk_id k' = pk_id k \<and> f (pk_provider k') (pk_key k') then note_healthy k else k) (all_keys p)"
  using assms
proof (induction ks arbitrary: n p)
  case (Cons k ks)
  let ?p = "if f (pk_provider k) (pk_key k) then mark_healthy p (pk_id k) else p"
  have ok: "pool_ok ?p" using Cons.prems by (simp add: record_ok)
  have all: "all_keys ?p =
      map (\<lambda>x. if pk_id x = pk_id k \<and> f (pk_provider k) (pk_key k) then note_healthy x else x) (all_keys p)"
    using recorded_keys(3) [OF Cons.prems] event_keeps(3) by simp
  have idem: "note_healthy (note_healthy x) = note_healthy x" for x by (simp add: note_healthy_def)
  have step: "probe_all (\<lambda>_. False) f n (k # ks) p = probe_all (\<lambda>_. False) f (Suc n) ks ?p" by simp
  show ?case unfolding step Cons.IH [OF ok] all by (auto simp: idem)
qed simp

lemma health_check_promotes:
  assumes "pool_ok p"
  shows "all_keys (run_health_check_once (\<lambda>_. False) (Some f) p) =
    map (\<lambda>k. if \<not> pk_healthy k \<and> f (pk_provider k) (pk_key k) then note_healthy k else k) (all_keys p)"
proof -
  have d: "distinct (map pk_id (all_keys p))" by (rule pool_okD(2) [OF assms])
  have "(\<exists>k' \<in> set (filter (\<lambda>k. \<not> pk_healthy k) (all_keys p)). pk_id k' = pk_id k \<and> f (pk_provider k') (pk_key k')) \<longleftrightarrow>
      \<not> pk_healthy k \<and> f (pk_provider k) (pk_key k)" if "k \<in> set (all_keys p)" for k
  proof -
    have "k' = k" if "k' \<in> set (all_keys p)" "pk_id k' = pk_id k" for k'
      using d that \<open>k \<in> set (all_keys p)\<close> by (meson distinct_map inj_on_eq_iff)
    then show ?thesis using that by auto
  qed
  then show ?thesis
    by (simp add: run_health_check_once_def probe_all_keys [OF assms] cong: map_cong)
qed

subsection \<open>Every pool the program can have\<close>

inductive pool_step :: "pool \<Rightarrow> pool \<Rightarrow> bool" where
  add: "find_key p i = None \<Longrightarrow> add_key p i provider key alias rate = Inr (p', k) \<Longrightarrow> pool_step p p'"
| get: "get_key p provider = Inr (p', k) \<Longrightarrow> pool_step p p'"
| remove: "pool_step p (fst (remove_key p i))"
| success: "pool_step p (record_success t p i)"
| error: "pool_step p (record_error t p i)"
| promote: "pool_step p (mark_healthy p i)"
| check: "pool_step p (run_health_check_once c f p)"

inductive reachable_pool :: "pool \<Rightarrow> bool" where
  start: "reachable_pool new_pool"
| step: "reachable_pool p \<Longrightarrow> pool_step p p' \<Longrightarrow> reachable_pool p'"

lemma pool_step_keeps: "pool_step p p' \<Longrightarrow> pool_ok p \<Longrightarrow> pool_ok p'"
  by (induction rule: pool_step.induct)
    (blast intro: add_key_keeps get_key_keeps remove_key_keeps record_ok health_check_keeps)+

lemma reachable_pool_ok: "reachable_pool p \<Longrightarrow> pool_ok p"
proof (induction rule: reachable_pool.induct)
  case start
  show ?case by (simp add: new_pool_def pool_ok_def all_keys_def)
next
  case step
  then show ?case by (blast intro: pool_step_keeps)
qed

subsection \<open>The statistics do not look at the keys\<close>

definition rekey :: "(string \<Rightarrow> string) \<Rightarrow> pool \<Rightarrow> pool" where
  "rekey g p = p\<lparr>pl_keys := map (\<lambda>(q, ks). (q, map (\<lambda>k. k\<lparr>pk_key := g (pk_key k)\<rparr>) ks)) (pl_keys p)\<rparr>"

lemma stats_of_rekey: "stats_of (k\<lparr>pk_key := x\<rparr>) = stats_of k"
  by (simp add: stats_of_def window_errors_def)

lemma stats_rekey: "stats (rekey g p) = stats p"
  by (simp add: stats_def all_keys_def rekey_def map_concat split_def o_def stats_of_rekey)

end
