(* ===== verification/Serving_Guards.thy ===== *)
theory Serving_Guards
  imports Key_Pool
begin

section \<open>Backpressure on observational writes (internal/backpressure/backpressure.go)\<close>

text \<open>
  The limiter is a channel of \<open>n\<close> slots and a counter of what was shed; \<open>None\<close> is the nil
  limiter, which admits everything.
\<close>

record write_limiter =
  wl_cap :: nat
  wl_held :: nat
  wl_dropped :: int

definition new_limiter :: "int \<Rightarrow> write_limiter option" where
  "new_limiter n = (if n \<le> 0 then None else Some \<lparr>wl_cap = nat n, wl_held = 0, wl_dropped = 0\<rparr>)"

definition try_acquire :: "write_limiter option \<Rightarrow> write_limiter option \<times> bool" where
  "try_acquire l =
     (case l of
        None \<Rightarrow> (None, True)
      | Some x \<Rightarrow>
          if wl_held x < wl_cap x then (Some (x\<lparr>wl_held := wl_held x + 1\<rparr>), True)
          else (Some (x\<lparr>wl_dropped := i64 (wl_dropped x + 1)\<rparr>), False))"

definition release_slot :: "write_limiter option \<Rightarrow> write_limiter option" where
  "release_slot l =
     (case l of
        None \<Rightarrow> None
      | Some x \<Rightarrow> if wl_held x > 0 then Some (x\<lparr>wl_held := wl_held x - 1\<rparr>) else Some x)"

definition dropped_writes :: "write_limiter option \<Rightarrow> int" where
  "dropped_writes l = (case l of None \<Rightarrow> 0 | Some x \<Rightarrow> wl_dropped x)"

definition log_drop :: "write_limiter option \<Rightarrow> bool" where
  "log_drop l =
     (case l of None \<Rightarrow> False | Some x \<Rightarrow> wl_dropped x = 1 \<or> go_mod (wl_dropped x) 256 = 0)"

text \<open>
  A writer acquires and, when it was admitted, releases once. \<open>Start w\<close> and \<open>Finish w\<close> are the
  two ends of writer \<open>w\<close>; \<open>inside\<close> are the writers admitted and not finished.
\<close>

datatype write_event = Start nat | Finish nat

fun write_step :: "write_event \<Rightarrow> write_limiter option \<times> nat list \<Rightarrow> write_limiter option \<times> nat list" where
  "write_step (Start w) (l, inside) =
     (case try_acquire l of (l, ok) \<Rightarrow> (l, if ok then w # inside else inside))"
| "write_step (Finish w) (l, inside) =
     (if w \<in> set inside then (release_slot l, remove1 w inside) else (l, inside))"

lemma write_step_bound:
  assumes "wl_cap x = n" and "wl_held x = length inside" and "length inside \<le> n"
    and "write_step ev (Some x, inside) = (l', inside')"
  shows "\<exists>x'. l' = Some x' \<and> wl_cap x' = n \<and> wl_held x' = length inside' \<and> length inside' \<le> n"
  using assms
  by (cases ev) (auto simp: try_acquire_def release_slot_def length_remove1 split: if_splits dest: length_pos_if_in_set)

lemma write_run_bound:
  assumes "fold write_step evs (Some x, inside) = (l', inside')"
    and "wl_cap x = n" and "wl_held x = length inside" and "length inside \<le> n"
  shows "\<exists>x'. l' = Some x' \<and> wl_cap x' = n \<and> wl_held x' = length inside' \<and> length inside' \<le> n"
  using assms
proof (induction evs arbitrary: x inside)
  case (Cons ev evs)
  obtain l1 inside1 where s: "write_step ev (Some x, inside) = (l1, inside1)" by (cases "write_step ev (Some x, inside)")
  from write_step_bound [OF Cons.prems(2-4) s] obtain x1 where
    "l1 = Some x1" "wl_cap x1 = n" "wl_held x1 = length inside1" "length inside1 \<le> n" by blast
  with Cons.IH [of x1 inside1] Cons.prems(1) s show ?case by simp
qed auto

section \<open>Fallback chains (internal/fallback/router.go)\<close>

record fallback_target =
  ft_provider :: string
  ft_model :: string
  ft_priority :: int

type_synonym fallback_router = "string \<rightharpoonup> fallback_target list"

definition chain_target :: "string \<Rightarrow> string \<Rightarrow> int \<Rightarrow> fallback_target" where
  "chain_target p m n = \<lparr>ft_provider = p, ft_model = m, ft_priority = n\<rparr>"

definition default_chains :: "(string \<times> fallback_target list) list" where
  "default_chains =
     [(''openai'', [chain_target ''anthropic'' ''claude-sonnet-4-6'' 1, chain_target ''google'' ''gemini-2.5-flash'' 2]),
      (''anthropic'', [chain_target ''openai'' ''gpt-4o'' 1, chain_target ''google'' ''gemini-2.5-flash'' 2]),
      (''google'', [chain_target ''openai'' ''gpt-4o'' 1, chain_target ''anthropic'' ''claude-sonnet-4-6'' 2]),
      (''mistral'', [chain_target ''groq'' ''llama-3.3-70b-versatile'' 1, chain_target ''openai'' ''gpt-4o'' 2]),
      (''groq'', [chain_target ''mistral'' ''mistral-large-latest'' 1, chain_target ''openai'' ''gpt-4o'' 2]),
      (''vllm'', [chain_target ''openai'' ''gpt-4o-mini'' 1])]"

definition new_router :: fallback_router where
  "new_router = map_of default_chains"

definition get_chain :: "fallback_router \<Rightarrow> string \<Rightarrow> fallback_target list" where
  "get_chain r provider = (case r provider of None \<Rightarrow> [] | Some c \<Rightarrow> c)"

definition set_chain :: "fallback_router \<Rightarrow> string \<Rightarrow> fallback_target list \<Rightarrow> fallback_router" where
  "set_chain r provider targets = r(provider \<mapsto> targets)"

definition should_fallback :: "int \<Rightarrow> 'e option \<Rightarrow> bool" where
  "should_fallback status err \<longleftrightarrow> err \<noteq> None \<or> status \<ge> 500 \<or> status = 429"

lemma get_set_chain: "get_chain (set_chain r p c) q = (if q = p then c else get_chain r q)"
  by (simp add: get_chain_def set_chain_def)

text \<open>No default chain leads back to the provider that failed or names one twice.\<close>

lemma default_chains_sound:
  "\<forall>(p, c) \<in> set default_chains. p \<notin> set (map ft_provider c) \<and> distinct (map ft_provider c) \<and>
    map ft_priority c = map int [1..<Suc (length c)]"
  by code_simp

section \<open>A request and its fallbacks (internal/proxy/proxy.go, internal/inference/config.go)\<close>

text \<open>
  A provider's configuration is its name and the credential its closures apply; URLs, headers
  and bodies are data of the surroundings \<open>upstream\<close>: the translation of a request, one
  round trip, the translation of a reply and the clock of the key pool. The round trip's
  status is 0 when there was no response. \<open>own\<close> are a workspace's own keys on the BYOK plan.
\<close>

datatype credential = Configured | PoolCredential string | OwnCredential string

record provider_config =
  pc_name :: string
  pc_credential :: credential

definition config_for :: "string \<Rightarrow> provider_config option" where
  "config_for name =
     (if name \<in> {''openai'', ''anthropic'', ''google'', ''mistral'', ''groq'', ''vllm'', ''bedrock''}
      then Some \<lparr>pc_name = name, pc_credential = Configured\<rparr> else None)"

definition config_for_own_key :: "string \<Rightarrow> string \<Rightarrow> provider_config option" where
  "config_for_own_key name key =
     (if name \<in> {''openai'', ''anthropic'', ''google'', ''mistral'', ''groq''}
      then Some \<lparr>pc_name = name, pc_credential = OwnCredential key\<rparr> else None)"

definition config_for_key :: "provider_config \<Rightarrow> string \<Rightarrow> provider_config" where
  "config_for_key cfg key =
     (if pc_name cfg \<in> {''openai'', ''anthropic'', ''google''}
      then cfg\<lparr>pc_credential := PoolCredential key\<rparr> else cfg)"

definition own_key_config :: "(string \<Rightarrow> string) \<Rightarrow> string \<Rightarrow> provider_config option" where
  "own_key_config own provider =
     (if own provider = '''' then None else config_for_own_key provider (own provider))"

record ('b, 'e) upstream =
  up_set_model :: "'b \<Rightarrow> string \<Rightarrow> 'b"
  up_build :: "provider_config \<Rightarrow> 'b \<Rightarrow> 'e + 'b"
  up_forward :: "nat \<Rightarrow> provider_config \<Rightarrow> 'b \<Rightarrow> string \<Rightarrow> int \<times> 'b \<times> 'e option"
  up_parse :: "provider_config \<Rightarrow> 'b \<Rightarrow> string \<Rightarrow> 'b option"
  up_now :: "nat \<Rightarrow> int"

record fallback_result =
  fr_provider :: string
  fr_model :: string
  fr_attempts :: nat
  fr_fell_back :: bool

record ('b, 'e) last_attempt =
  la_body :: "'b option"
  la_status :: int
  la_err :: "'e option"
  la_used :: "string \<times> string"

text \<open>What left the gateway, in order: the attempt's number, its configuration, model and outcome.\<close>

record 'e sent =
  sn_index :: nat
  sn_config :: provider_config
  sn_model :: string
  sn_status :: int
  sn_err :: "'e option"

definition attempt_config :: "(string \<Rightarrow> string) option \<Rightarrow> string \<Rightarrow> provider_config option" where
  "attempt_config own provider =
     (case config_for provider of
        None \<Rightarrow> None
      | Some cfg \<Rightarrow> (case own of None \<Rightarrow> Some cfg | Some keys \<Rightarrow> own_key_config keys provider))"

definition pick_key ::
    "pool option \<Rightarrow> (string \<Rightarrow> string) option \<Rightarrow> string \<Rightarrow> provider_config \<Rightarrow>
      pool option \<times> provider_config \<times> string option" where
  "pick_key pool own provider cfg =
     (case pool of
        None \<Rightarrow> (None, cfg, None)
      | Some p \<Rightarrow>
          if own \<noteq> None then (Some p, cfg, None)
          else case get_key p provider of
              Inl _ \<Rightarrow> (Some p, cfg, None)
            | Inr (p, k) \<Rightarrow> (Some p, config_for_key cfg (pk_key k), Some (pk_id k)))"

definition count_outcome :: "pool option \<Rightarrow> string option \<Rightarrow> int \<Rightarrow> bool \<Rightarrow> pool option" where
  "count_outcome pool i now failed =
     (case (pool, i) of
        (Some p, Some i) \<Rightarrow> Some (if failed then record_error now p i else record_success now p i)
      | _ \<Rightarrow> pool)"

definition attempts_for :: "fallback_router option \<Rightarrow> string \<Rightarrow> string \<Rightarrow> (string \<times> string) list" where
  "attempts_for router provider model =
     (provider, model) #
       (case router of None \<Rightarrow> [] | Some r \<Rightarrow> map (\<lambda>t. (ft_provider t, ft_model t)) (take 2 (get_chain r provider)))"

fun walk_attempts ::
    "('b, 'e) upstream \<Rightarrow> bool \<Rightarrow> (string \<Rightarrow> string) option \<Rightarrow> 'b \<Rightarrow> nat \<Rightarrow> nat \<Rightarrow> (string \<times> string) list \<Rightarrow>
      ('b, 'e) last_attempt \<Rightarrow> pool option \<Rightarrow>
      pool option \<times> 'e sent list \<times> ('b option \<times> int \<times> fallback_result \<times> 'e option)" where
  "walk_attempts u routed own body tries i [] prev pool =
     (pool, [], la_body prev, la_status prev,
      \<lparr>fr_provider = fst (la_used prev), fr_model = snd (la_used prev), fr_attempts = tries,
       fr_fell_back = (tries > 1)\<rparr>, la_err prev)"
| "walk_attempts u routed own body tries i ((provider, model) # rest) prev pool =
     (case attempt_config own provider of
        None \<Rightarrow> walk_attempts u routed own body tries (Suc i) rest prev pool
      | Some cfg \<Rightarrow>
          case pick_key pool own provider cfg of (pool, cfg, key) \<Rightarrow>
          let attempt_body = (if i > 0 then up_set_model u body model else body)
          in case up_build u cfg attempt_body of
               Inl e \<Rightarrow>
                 walk_attempts u routed own body tries (Suc i) rest
                   (prev\<lparr>la_err := Some e, la_used := (provider, model)\<rparr>)
                   (count_outcome pool key (up_now u i) True)
             | Inr send_body \<Rightarrow>
                 case up_forward u i cfg send_body model of (status, rb, err) \<Rightarrow>
                 let pool = count_outcome pool key (up_now u i) (err \<noteq> None);
                     here = \<lparr>sn_index = i, sn_config = cfg, sn_model = model, sn_status = status, sn_err = err\<rparr>
                 in if routed \<and> should_fallback status err
                    then case walk_attempts u routed own body tries (Suc i) rest
                           \<lparr>la_body = Some rb, la_status = status, la_err = err, la_used = (provider, model)\<rparr> pool of
                         (pool, trace, out) \<Rightarrow> (pool, here # trace, out)
                    else
                      let rb = (if err = None \<and> status = 200
                                then (case up_parse u cfg rb model of None \<Rightarrow> rb | Some t \<Rightarrow> t) else rb)
                      in (pool, [here], Some rb, status,
                          \<lparr>fr_provider = provider, fr_model = model, fr_attempts = i + 1, fr_fell_back = (i > 0)\<rparr>, err))"

definition forward_with_fallback ::
    "('b, 'e) upstream \<Rightarrow> fallback_router option \<Rightarrow> pool option \<Rightarrow> (string \<Rightarrow> string) option \<Rightarrow> string \<Rightarrow> string \<Rightarrow> 'b \<Rightarrow>
      pool option \<times> 'e sent list \<times> ('b option \<times> int \<times> fallback_result \<times> 'e option)" where
  "forward_with_fallback u router pool own provider model body =
     (let attempts = attempts_for router provider model
      in walk_attempts u (router \<noteq> None) own body (length attempts) 0 attempts
           \<lparr>la_body = None, la_status = 0, la_err = None, la_used = hd attempts\<rparr> pool)"

subsection \<open>What is sent, and with whose key\<close>

lemma config_for_SomeD: "config_for n = Some cfg \<Longrightarrow> pc_name cfg = n \<and> pc_credential cfg = Configured"
  by (auto simp: config_for_def split: if_splits)

lemma attempt_config_name: "attempt_config own p = Some cfg \<Longrightarrow> pc_name cfg = p"
  by (auto simp: attempt_config_def config_for_def own_key_config_def config_for_own_key_def
      split: option.splits if_splits)

lemma attempt_config_own:
  "attempt_config (Some keys) p = Some cfg \<Longrightarrow> keys p \<noteq> '''' \<and> pc_credential cfg = OwnCredential (keys p)"
  by (auto simp: attempt_config_def own_key_config_def config_for_own_key_def split: option.splits if_splits)

lemma pick_key_own: "pick_key pool (Some keys) p cfg = (pool, cfg, None)"
  by (simp add: pick_key_def split: option.split)

lemma config_for_key_name [simp]: "pc_name (config_for_key cfg k) = pc_name cfg"
  by (simp add: config_for_key_def)

lemma pick_key_name: "pick_key pool own p cfg = (pool', cfg', key) \<Longrightarrow> pc_name cfg' = pc_name cfg"
  by (auto simp: pick_key_def split: option.splits sum.splits if_splits)

lemma count_outcome_None [simp]: "count_outcome pool None now failed = pool"
  by (simp add: count_outcome_def split: option.split)

definition pool_fine :: "pool option \<Rightarrow> bool" where
  "pool_fine pool \<longleftrightarrow> (case pool of None \<Rightarrow> True | Some p \<Rightarrow> pool_ok p)"

lemma pick_key_pool: "pick_key pool own p cfg = (pool', cfg', key) \<Longrightarrow> pool_fine pool \<Longrightarrow> pool_fine pool'"
  by (auto simp: pick_key_def pool_fine_def split: option.splits sum.splits if_splits dest: get_key_keeps)

lemma count_outcome_pool: "pool_fine pool \<Longrightarrow> pool_fine (count_outcome pool key now failed)"
  by (auto simp: count_outcome_def pool_fine_def record_ok split: option.splits)

definition send_failed :: "'e sent \<Rightarrow> bool" where
  "send_failed s = should_fallback (sn_status s) (sn_err s)"

text \<open>What the walk promises of the attempts from the \<open>i\<close>th on.\<close>

definition walk_ok ::
    "(string \<Rightarrow> string) option \<Rightarrow> bool \<Rightarrow> nat \<Rightarrow> (string \<times> string) list \<Rightarrow> pool option \<Rightarrow> pool option \<Rightarrow>
      'e sent list \<Rightarrow> int \<times> fallback_result \<times> 'e option \<Rightarrow> bool" where
  "walk_ok own routed i attempts pool pool' trace out \<longleftrightarrow>
     length trace \<le> length attempts \<and> sorted_wrt (<) (map sn_index trace) \<and>
     (\<forall>s \<in> set trace. i \<le> sn_index s \<and> sn_index s < i + length attempts \<and>
        (pc_name (sn_config s), sn_model s) = attempts ! (sn_index s - i)) \<and>
     (\<forall>s \<in> set (butlast trace). routed \<and> send_failed s) \<and>
     (\<forall>keys. own = Some keys \<longrightarrow> pool' = pool \<and>
        (\<forall>s \<in> set trace. keys (pc_name (sn_config s)) \<noteq> '''' \<and>
           pc_credential (sn_config s) = OwnCredential (keys (pc_name (sn_config s))))) \<and>
     (pool_fine pool \<longrightarrow> pool_fine pool') \<and>
     (trace \<noteq> [] \<and> \<not> (routed \<and> send_failed (last trace)) \<longrightarrow>
        fst out = sn_status (last trace) \<and> snd (snd out) = sn_err (last trace) \<and>
        fr_provider (fst (snd out)) = pc_name (sn_config (last trace)) \<and>
        fr_model (fst (snd out)) = sn_model (last trace) \<and>
        fr_attempts (fst (snd out)) = sn_index (last trace) + 1)"

lemma walk_ok_skip:
  assumes "walk_ok own routed (Suc i) rest pool pool' trace out"
    and "pool = pool0 \<or> own = None" and "pool_fine pool0 \<longrightarrow> pool_fine pool"
  shows "walk_ok own routed i (a # rest) pool0 pool' trace out"
  using assms unfolding walk_ok_def by (auto simp: nth_Cons' Suc_diff_le)

lemma walk_ok_again:
  assumes "walk_ok own routed (Suc i) rest pool pool' trace out"
    and "pool = pool0 \<or> own = None" and "pool_fine pool0 \<longrightarrow> pool_fine pool"
    and "sn_index s = i" and "(pc_name (sn_config s), sn_model s) = a" and "routed \<and> send_failed s"
    and "\<forall>keys. own = Some keys \<longrightarrow> keys (pc_name (sn_config s)) \<noteq> '''' \<and>
      pc_credential (sn_config s) = OwnCredential (keys (pc_name (sn_config s)))"
  shows "walk_ok own routed i (a # rest) pool0 pool' (s # trace) out"
  using assms unfolding walk_ok_def by (auto simp: nth_Cons' Suc_diff_le)

lemma walk_attempts_ok:
  assumes "walk_attempts u routed own body tries i attempts prev pool = (pool', trace, rb, out)"
  shows "walk_ok own routed i attempts pool pool' trace out"
  using assms
proof (induction attempts arbitrary: i prev pool pool' trace)
  case Nil
  then show ?case by (auto simp: walk_ok_def)
next
  case (Cons a rest)
  obtain provider model where a: "a = (provider, model)" by (cases a)
  show ?case
  proof (cases "attempt_config own provider")
    case None
    then have "walk_attempts u routed own body tries (Suc i) rest prev pool = (pool', trace, rb, out)"
      using Cons.prems by (simp add: a)
    from walk_ok_skip [OF Cons.IH [OF this]] show ?thesis by simp
  next
    case (Some cfg0)
    obtain pool1 cfg key where pick: "pick_key pool own provider cfg0 = (pool1, cfg, key)" by (metis prod.collapse)
    have name: "pc_name cfg = provider" using pick_key_name [OF pick] attempt_config_name [OF Some] by simp
    have mine: "(\<forall>keys. own = Some keys \<longrightarrow> keys provider \<noteq> '''' \<and> pc_credential cfg = OwnCredential (keys provider)) \<and>
        (own = None \<or> pool1 = pool \<and> key = None)"
      using pick Some by (cases own) (auto simp: pick_key_own dest: attempt_config_own)
    have fine: "pool_fine pool \<longrightarrow> pool_fine (count_outcome pool1 key t failed)" for t failed
      using pick_key_pool [OF pick] count_outcome_pool by blast
    have same: "count_outcome pool1 key t failed = pool \<or> own = None" for t failed using mine by auto
    let ?body = "if i > 0 then up_set_model u body model else body"
    show ?thesis
    proof (cases "up_build u cfg ?body")
      case (Inl e)
      then have "walk_attempts u routed own body tries (Suc i) rest
          (prev\<lparr>la_err := Some e, la_used := (provider, model)\<rparr>) (count_outcome pool1 key (up_now u i) True) =
          (pool', trace, rb, out)"
        using Cons.prems by (simp add: a Some pick)
      from walk_ok_skip [OF Cons.IH [OF this] same] fine show ?thesis by blast
    next
      case (Inr send_body)
      obtain status b err where f: "up_forward u i cfg send_body model = (status, b, err)" by (metis prod.collapse)
      let ?pool = "count_outcome pool1 key (up_now u i) (err \<noteq> None)"
      let ?here = "\<lparr>sn_index = i, sn_config = cfg, sn_model = model, sn_status = status, sn_err = err\<rparr>"
      show ?thesis
      proof (cases "routed \<and> should_fallback status err")
        case True
        obtain pool2 trace2 out2 where w: "walk_attempts u routed own body tries (Suc i) rest
            \<lparr>la_body = Some b, la_status = status, la_err = err, la_used = (provider, model)\<rparr> ?pool = (pool2, trace2, out2)"
          by (metis prod.collapse)
        then have out: "pool2 = pool'" "trace = ?here # trace2" "out2 = (rb, out)"
          using Cons.prems True by (simp_all add: a Some pick Inr f Let_def)
        have "walk_ok own routed i (a # rest) pool pool' (?here # trace2) out"
          by (rule walk_ok_again [OF Cons.IH [OF w [unfolded out(1,3)]] same])
            (use fine mine name True in \<open>simp_all add: a send_failed_def\<close>)
        then show ?thesis by (simp add: out(2))
      next
        case False
        then have out: "pool' = ?pool" "trace = [?here]" "fst out = status" "snd (snd out) = err"
          "fst (snd out) = \<lparr>fr_provider = provider, fr_model = model, fr_attempts = i + 1, fr_fell_back = (i > 0)\<rparr>"
          using Cons.prems by (auto simp: a Some pick Inr f Let_def)
        show ?thesis
          using mine name same fine by (auto simp: walk_ok_def out a)
      qed
    qed
  qed
qed

lemma forward_ok:
  "forward_with_fallback u router pool own provider model body = (pool', trace, rb, out) \<Longrightarrow>
    walk_ok own (router \<noteq> None) 0 (attempts_for router provider model) pool pool' trace out"
  by (simp add: forward_with_fallback_def Let_def walk_attempts_ok)

lemma attempts_for_length: "length (attempts_for router provider model) \<le> 3"
  by (simp add: attempts_for_def split: option.split)

end
