(* ===== verification/Circuit_Breaker.thy ===== *)
theory Circuit_Breaker
  imports Prelude
begin

section \<open>Circuit breakers and their registry (internal/retry/policy.go, internal/ha/shared_breaker.go)\<close>

text \<open>
  A breaker is closed, open or half open and counts failures and successes under its mutex, so
  each call is one step here. Times are nanoseconds; \<open>cb_last_fail = None\<close> is Go's zero time,
  from which every reset timeout has long passed. A transition that changes the state is
  published through the hook, when one is installed; an operation returns what it published.
\<close>

datatype cb_state = Closed | Open | HalfOpen

record breaker =
  cb_name :: string
  cb_threshold :: int
  cb_reset :: int
  cb_success_threshold :: int
  cb_state :: cb_state
  cb_failures :: int
  cb_successes :: int
  cb_last_fail :: "int option"
  cb_hooked :: bool

record cb_event =
  ev_name :: string
  ev_from :: cb_state
  ev_to :: cb_state

definition new_breaker :: "string \<Rightarrow> int \<Rightarrow> int \<Rightarrow> int \<Rightarrow> breaker" where
  "new_breaker name threshold reset successes =
     \<lparr>cb_name = name, cb_threshold = (if threshold \<le> 0 then 5 else threshold),
      cb_reset = (if reset \<le> 0 then 60 * 10 ^ 9 else reset),
      cb_success_threshold = (if successes \<le> 0 then 2 else successes), cb_state = Closed,
      cb_failures = 0, cb_successes = 0, cb_last_fail = None, cb_hooked = False\<rparr>"

definition set_on_state_change :: "bool \<Rightarrow> breaker \<Rightarrow> breaker" where
  "set_on_state_change h b = b\<lparr>cb_hooked := h\<rparr>"

definition transition :: "cb_state \<Rightarrow> breaker \<Rightarrow> breaker \<times> cb_event list" where
  "transition to b =
     (b\<lparr>cb_state := to\<rparr>,
      if cb_hooked b \<and> cb_state b \<noteq> to
      then [\<lparr>ev_name = cb_name b, ev_from = cb_state b, ev_to = to\<rparr>] else [])"

definition reset_elapsed :: "int \<Rightarrow> breaker \<Rightarrow> bool" where
  "reset_elapsed now b = (case cb_last_fail b of None \<Rightarrow> True | Some t \<Rightarrow> now - t \<ge> cb_reset b)"

definition allow :: "int \<Rightarrow> breaker \<Rightarrow> (breaker \<times> cb_event list) \<times> bool" where
  "allow now b =
     (case cb_state b of
        Closed \<Rightarrow> ((b, []), True)
      | Open \<Rightarrow>
          if reset_elapsed now b
          then case transition HalfOpen b of (b, evs) \<Rightarrow> ((b\<lparr>cb_successes := 0\<rparr>, evs), True)
          else ((b, []), False)
      | HalfOpen \<Rightarrow> ((b, []), True))"

definition breaker_success :: "breaker \<Rightarrow> breaker \<times> cb_event list" where
  "breaker_success b =
     (case cb_state b of
        Closed \<Rightarrow> (b\<lparr>cb_failures := 0\<rparr>, [])
      | HalfOpen \<Rightarrow>
          let b = b\<lparr>cb_successes := cb_successes b + 1\<rparr>
          in if cb_successes b \<ge> cb_success_threshold b
             then case transition Closed b of (b, evs) \<Rightarrow> (b\<lparr>cb_failures := 0, cb_successes := 0\<rparr>, evs)
             else (b, [])
      | Open \<Rightarrow> case transition HalfOpen b of (b, evs) \<Rightarrow> (b\<lparr>cb_successes := 1\<rparr>, evs))"

definition breaker_failure :: "int \<Rightarrow> breaker \<Rightarrow> breaker \<times> cb_event list" where
  "breaker_failure now b =
     (let b = b\<lparr>cb_last_fail := Some now\<rparr>
      in case cb_state b of
           Closed \<Rightarrow>
             let b = b\<lparr>cb_failures := cb_failures b + 1\<rparr>
             in if cb_failures b \<ge> cb_threshold b then transition Open b else (b, [])
         | HalfOpen \<Rightarrow> transition Open b
         | Open \<Rightarrow> (b, []))"

definition apply_remote_state :: "int \<Rightarrow> cb_state \<Rightarrow> breaker \<Rightarrow> breaker" where
  "apply_remote_state now to b =
     (if cb_state b = to then b
      else let b = b\<lparr>cb_state := to, cb_failures := 0, cb_successes := 0\<rparr>
        in if to = Open then b\<lparr>cb_last_fail := Some now\<rparr> else b)"

subsection \<open>The registry\<close>

record registry =
  rg_breakers :: "string \<rightharpoonup> breaker"
  rg_threshold :: int
  rg_reset :: int
  rg_success_threshold :: int
  rg_hooked :: bool

definition new_registry :: "int \<Rightarrow> int \<Rightarrow> int \<Rightarrow> registry" where
  "new_registry threshold reset successes =
     \<lparr>rg_breakers = Map.empty, rg_threshold = threshold, rg_reset = reset,
      rg_success_threshold = successes, rg_hooked = False\<rparr>"

definition registry_on_state_change :: "bool \<Rightarrow> registry \<Rightarrow> registry" where
  "registry_on_state_change h r =
     r\<lparr>rg_hooked := h, rg_breakers := (\<lambda>n. map_option (set_on_state_change h) (rg_breakers r n))\<rparr>"

definition get_or_create :: "registry \<Rightarrow> string \<Rightarrow> registry \<times> breaker" where
  "get_or_create r provider =
     (case rg_breakers r provider of
        Some b \<Rightarrow> (r, b)
      | None \<Rightarrow>
          let b = new_breaker provider (rg_threshold r) (rg_reset r) (rg_success_threshold r);
              b = (if rg_hooked r then set_on_state_change True b else b)
          in (r\<lparr>rg_breakers := (rg_breakers r)(provider \<mapsto> b)\<rparr>, b))"

text \<open>The breaker of a provider is shared: what happens to it is seen through the registry.\<close>

definition on_breaker :: "string \<Rightarrow> (breaker \<Rightarrow> breaker) \<Rightarrow> registry \<Rightarrow> registry" where
  "on_breaker provider f r =
     (case get_or_create r provider of (r, b) \<Rightarrow> r\<lparr>rg_breakers := (rg_breakers r)(provider \<mapsto> f b)\<rparr>)"

definition registry_apply_remote :: "int \<Rightarrow> string \<Rightarrow> cb_state \<Rightarrow> registry \<Rightarrow> registry" where
  "registry_apply_remote now provider to r = on_breaker provider (apply_remote_state now to) r"

text \<open>
  A message of the gossip channel, as SharedBreaker.Publish sends it and apply mirrors it: an
  instance drops its own.
\<close>

record breaker_msg =
  bm_origin :: string
  bm_provider :: string
  bm_to :: cb_state

definition gossip_publish :: "bool \<Rightarrow> string \<Rightarrow> cb_event \<Rightarrow> breaker_msg list" where
  "gossip_publish enabled self ev =
     (if \<not> enabled then []
      else [\<lparr>bm_origin = self, bm_provider = ev_name ev, bm_to = ev_to ev\<rparr>])"

definition gossip_apply :: "string \<Rightarrow> int \<Rightarrow> breaker_msg \<Rightarrow> registry \<Rightarrow> registry" where
  "gossip_apply self now m r =
     (if bm_origin m = self then r else registry_apply_remote now (bm_provider m) (bm_to m) r)"

definition breaker_states :: "registry \<Rightarrow> string \<rightharpoonup> cb_state" where
  "breaker_states r = (\<lambda>n. map_option cb_state (rg_breakers r n))"

section \<open>What a breaker promises\<close>

text \<open>
  The contract forgets the counters a state does not use: a closed breaker is its run of
  failures, an open one the time of its last failure, a half open one its successes.
\<close>

datatype gate = Shut int | Tripped "int option" | Probing int

definition gate_of :: "breaker \<Rightarrow> gate" where
  "gate_of b =
     (case cb_state b of Closed \<Rightarrow> Shut (cb_failures b) | Open \<Rightarrow> Tripped (cb_last_fail b)
      | HalfOpen \<Rightarrow> Probing (cb_successes b))"

datatype cb_call = AllowAt int | Success | Failure int | Remote int cb_state

fun gate_call :: "int \<Rightarrow> int \<Rightarrow> int \<Rightarrow> cb_call \<Rightarrow> gate \<Rightarrow> gate" where
  "gate_call th re su (AllowAt now) (Tripped t) =
     (if (case t of None \<Rightarrow> True | Some t \<Rightarrow> now - t \<ge> re) then Probing 0 else Tripped t)"
| "gate_call th re su (AllowAt now) g = g"
| "gate_call th re su Success (Shut n) = Shut 0"
| "gate_call th re su Success (Tripped t) = Probing 1"
| "gate_call th re su Success (Probing m) = (if m + 1 \<ge> su then Shut 0 else Probing (m + 1))"
| "gate_call th re su (Failure now) (Shut n) = (if n + 1 \<ge> th then Tripped (Some now) else Shut (n + 1))"
| "gate_call th re su (Failure now) g = Tripped (Some now)"
| "gate_call th re su (Remote now to) g =
     (case to of
        Closed \<Rightarrow> (case g of Shut n \<Rightarrow> Shut n | _ \<Rightarrow> Shut 0)
      | Open \<Rightarrow> (case g of Tripped t \<Rightarrow> Tripped t | _ \<Rightarrow> Tripped (Some now))
      | HalfOpen \<Rightarrow> (case g of Probing m \<Rightarrow> Probing m | _ \<Rightarrow> Probing 0))"

fun breaker_call :: "cb_call \<Rightarrow> breaker \<Rightarrow> breaker \<times> cb_event list" where
  "breaker_call (AllowAt now) b = fst (allow now b)"
| "breaker_call Success b = breaker_success b"
| "breaker_call (Failure now) b = breaker_failure now b"
| "breaker_call (Remote now to) b = (apply_remote_state now to b, [])"

lemmas breaker_defs = allow_def breaker_success_def breaker_failure_def apply_remote_state_def
  transition_def reset_elapsed_def

lemma breaker_call_config [simp]:
  "cb_name (fst (breaker_call c b)) = cb_name b"
  "cb_threshold (fst (breaker_call c b)) = cb_threshold b"
  "cb_reset (fst (breaker_call c b)) = cb_reset b"
  "cb_success_threshold (fst (breaker_call c b)) = cb_success_threshold b"
  "cb_hooked (fst (breaker_call c b)) = cb_hooked b"
  by (cases c; simp add: breaker_defs Let_def split: cb_state.split option.split)+

lemma gate_of_call:
  "gate_of (fst (breaker_call c b)) =
    gate_call (cb_threshold b) (cb_reset b) (cb_success_threshold b) c (gate_of b)"
proof (cases c)
  case (Remote now to)
  then show ?thesis
    by (cases to; cases "cb_state b") (simp_all add: gate_of_def apply_remote_state_def Let_def)
qed (cases "cb_state b"; simp add: gate_of_def breaker_defs Let_def split: option.split)+

text \<open>A run of calls, and what it published.\<close>

fun breaker_run :: "cb_call list \<Rightarrow> breaker \<Rightarrow> breaker \<times> cb_event list" where
  "breaker_run [] b = (b, [])"
| "breaker_run (c # cs) b =
     (case breaker_call c b of (b, evs) \<Rightarrow>
        case breaker_run cs b of (b, evs2) \<Rightarrow> (b, evs @ evs2))"

lemma breaker_run_Cons:
  "fst (breaker_run (c # cs) b) = fst (breaker_run cs (fst (breaker_call c b)))"
  "snd (breaker_run (c # cs) b) = snd (breaker_call c b) @ snd (breaker_run cs (fst (breaker_call c b)))"
  by (simp_all split: prod.split)

lemma breaker_run_config [simp]:
  "cb_threshold (fst (breaker_run cs b)) = cb_threshold b"
  "cb_reset (fst (breaker_run cs b)) = cb_reset b"
  "cb_success_threshold (fst (breaker_run cs b)) = cb_success_threshold b"
  "cb_name (fst (breaker_run cs b)) = cb_name b"
  "cb_hooked (fst (breaker_run cs b)) = cb_hooked b"
  by (induction cs arbitrary: b) (simp_all add: breaker_run_Cons del: breaker_run.simps(2))

lemma gate_of_run:
  "gate_of (fst (breaker_run cs b)) =
    fold (gate_call (cb_threshold b) (cb_reset b) (cb_success_threshold b)) cs (gate_of b)"
  by (induction cs arbitrary: b) (simp_all add: breaker_run_Cons gate_of_call del: breaker_run.simps(2))

subsection \<open>Well-formed breakers\<close>

definition breaker_ok :: "breaker \<Rightarrow> bool" where
  "breaker_ok b \<longleftrightarrow> 0 < cb_threshold b \<and> 0 < cb_reset b \<and> 0 < cb_success_threshold b \<and>
     (case gate_of b of
        Shut n \<Rightarrow> 0 \<le> n \<and> n < cb_threshold b
      | Tripped t \<Rightarrow> t \<noteq> None
      | Probing m \<Rightarrow> 0 \<le> m \<and> m \<le> cb_success_threshold b)"

lemma new_breaker_ok: "breaker_ok (new_breaker name th re su)"
  by (simp add: breaker_ok_def new_breaker_def gate_of_def)

lemma breaker_call_ok [keeps]:
  assumes "breaker_ok b"
  shows "breaker_ok (fst (breaker_call c b))"
proof -
  have "0 < cb_threshold b" "0 < cb_reset b" "0 < cb_success_threshold b"
    using assms by (simp_all add: breaker_ok_def)
  moreover obtain g where g: "gate_of b = g" by blast
  moreover have "case g of Shut n \<Rightarrow> 0 \<le> n \<and> n < cb_threshold b | Tripped t \<Rightarrow> t \<noteq> None
      | Probing m \<Rightarrow> 0 \<le> m \<and> m \<le> cb_success_threshold b"
    using assms g by (simp add: breaker_ok_def)
  ultimately show ?thesis
    unfolding breaker_ok_def gate_of_call breaker_call_config
    by (cases c; cases g) (auto split: option.split cb_state.split)
qed

lemma breaker_run_ok: "breaker_ok b \<Longrightarrow> breaker_ok (fst (breaker_run cs b))"
  by (induction cs arbitrary: b) (simp_all add: breaker_run_Cons breaker_call_ok del: breaker_run.simps(2))

subsection \<open>When a breaker lets a request through\<close>

definition admits :: "int \<Rightarrow> breaker \<Rightarrow> bool" where
  "admits now b = snd (allow now b)"

lemma admits_gate:
  "admits now b = (case gate_of b of Tripped (Some t) \<Rightarrow> now - t \<ge> cb_reset b | _ \<Rightarrow> True)"
  by (cases "cb_state b") (simp_all add: admits_def gate_of_def breaker_defs split: option.split)

text \<open>Calls that leave an open breaker open: refused requests and late failures.\<close>

fun holds_open :: "int \<Rightarrow> int \<Rightarrow> cb_call \<Rightarrow> bool" where
  "holds_open t re (AllowAt now) \<longleftrightarrow> now < t + re"
| "holds_open t re (Failure now) \<longleftrightarrow> t \<le> now"
| "holds_open t re (Remote now to) \<longleftrightarrow> to = Open"
| "holds_open t re Success \<longleftrightarrow> False"

lemma stays_tripped:
  assumes "list_all (holds_open t re) cs" and "t \<le> u"
  shows "\<exists>u' \<ge> t. fold (gate_call th re su) cs (Tripped (Some u)) = Tripped (Some u')"
  using assms
proof (induction cs arbitrary: u)
  case (Cons c cs)
  show ?case
  proof (cases c)
    case (AllowAt now)
    then show ?thesis using Cons by simp
  next
    case (Failure now)
    then have "t \<le> now" using Cons.prems by simp
    with Cons.IH [of now] Cons.prems Failure show ?thesis by simp
  qed (use Cons in simp_all)
qed auto

subsection \<open>Runs of failures\<close>

fun streak_from :: "int \<Rightarrow> cb_call list \<Rightarrow> int" where
  "streak_from n [] = n"
| "streak_from n (Failure _ # cs) = streak_from (n + 1) cs"
| "streak_from n (Success # cs) = streak_from 0 cs"
| "streak_from n (_ # cs) = streak_from n cs"

fun is_local :: "cb_call \<Rightarrow> bool" where
  "is_local (Remote _ _) = False"
| "is_local _ = True"

lemma shut_while_streak:
  assumes "list_all is_local cs" and "\<forall>k \<le> length cs. streak_from n (take k cs) < th"
  shows "fold (gate_call th re su) cs (Shut n) = Shut (streak_from n cs)"
  using assms
proof (induction cs arbitrary: n)
  case (Cons c cs)
  have *: "\<forall>k \<le> length cs. streak_from n (take (Suc k) (c # cs)) < th" using Cons.prems(2) by auto
  show ?case
  proof (cases c)
    case (Failure now)
    have "n + 1 < th" using * [rule_format, of 0] Failure by simp
    then show ?thesis using Cons.IH [of "n + 1"] Cons.prems(1) * Failure by simp
  qed (use Cons * in simp_all)
qed simp

subsection \<open>What a breaker publishes\<close>

lemma call_events:
  "snd (breaker_call c b) =
    (if cb_hooked b \<and> is_local c \<and> cb_state (fst (breaker_call c b)) \<noteq> cb_state b
     then [\<lparr>ev_name = cb_name b, ev_from = cb_state b, ev_to = cb_state (fst (breaker_call c b))\<rparr>] else [])"
  by (cases c; cases "cb_state b") (simp_all add: breaker_defs Let_def)

definition mirror :: "int \<Rightarrow> cb_event list \<Rightarrow> breaker \<Rightarrow> breaker" where
  "mirror now evs b = fold (\<lambda>ev. apply_remote_state now (ev_to ev)) evs b"

lemma mirror_simps [simp]:
  "mirror now [] b = b"
  "mirror now (ev # evs) b = mirror now evs (apply_remote_state now (ev_to ev) b)"
  "mirror now (evs @ evs2) b = mirror now evs2 (mirror now evs b)"
  by (simp_all add: mirror_def)

lemma remote_state [simp]: "cb_state (apply_remote_state now to b) = to"
  by (simp add: apply_remote_state_def Let_def)

lemma mirror_follows:
  assumes "cb_hooked b" and "cb_state b' = cb_state b" and "list_all is_local cs"
  shows "cb_state (mirror now (snd (breaker_run cs b)) b') = cb_state (fst (breaker_run cs b))"
  using assms
proof (induction cs arbitrary: b b')
  case (Cons c cs)
  let ?b = "fst (breaker_call c b)"
  have "cb_state (mirror now (snd (breaker_call c b)) b') = cb_state ?b"
    using Cons.prems(1,2) Cons.prems(3) by (simp add: call_events)
  then show ?case
    using Cons.IH [of ?b] Cons.prems by (simp add: breaker_run_Cons del: breaker_run.simps(2))
qed simp

subsection \<open>Breakers of different providers\<close>

lemma breaker_on_get [simp]: "rg_breakers (on_breaker p f r) q =
    (if q = p then Some (f (snd (get_or_create r p))) else rg_breakers r q)"
  by (auto simp: on_breaker_def get_or_create_def Let_def split: option.splits)

lemma on_breaker_get:
  "snd (get_or_create (on_breaker p f r) q) =
    (if q = p then f (snd (get_or_create r p)) else snd (get_or_create r q))"
  by (auto simp: on_breaker_def get_or_create_def Let_def split: option.splits)

lemma get_or_create_again: "snd (get_or_create (fst (get_or_create r p)) q) = snd (get_or_create r q)"
  by (auto simp: get_or_create_def Let_def split: option.splits)

subsection \<open>A peer that receives what an instance publishes\<close>

lemma get_or_create_state:
  "cb_state (snd (get_or_create r p)) = (case breaker_states r p of None \<Rightarrow> Closed | Some st \<Rightarrow> st)"
  by (simp add: get_or_create_def breaker_states_def new_breaker_def set_on_state_change_def Let_def
      split: option.split)

definition gossip_all :: "string \<Rightarrow> int \<Rightarrow> breaker_msg list \<Rightarrow> registry \<Rightarrow> registry" where
  "gossip_all self now ms r = fold (gossip_apply self now) ms r"

lemma gossip_all_state:
  assumes "\<And>m. m \<in> set ms \<Longrightarrow> bm_origin m \<noteq> self \<and> bm_provider m = p"
  shows "cb_state (snd (get_or_create (gossip_all self now ms r) p)) =
    (if ms = [] then cb_state (snd (get_or_create r p)) else bm_to (last ms))"
  using assms
proof (induction ms arbitrary: r)
  case (Cons m ms)
  let ?r = "gossip_apply self now m r"
  have "cb_state (snd (get_or_create ?r p)) = bm_to m"
    using Cons.prems [of m] by (simp add: gossip_apply_def registry_apply_remote_def on_breaker_get)
  moreover have "gossip_all self now (m # ms) r = gossip_all self now ms ?r" by (simp add: gossip_all_def)
  ultimately show ?case using Cons.IH [of ?r] Cons.prems by simp
qed (simp add: gossip_all_def)

lemma run_events_last:
  assumes "cb_hooked b" and "list_all is_local cs"
  shows "(snd (breaker_run cs b) = [] \<longrightarrow> cb_state (fst (breaker_run cs b)) = cb_state b) \<and>
    (snd (breaker_run cs b) \<noteq> [] \<longrightarrow> ev_to (last (snd (breaker_run cs b))) = cb_state (fst (breaker_run cs b))) \<and>
    (\<forall>ev \<in> set (snd (breaker_run cs b)). ev_name ev = cb_name b)"
  using assms
proof (induction cs arbitrary: b)
  case (Cons c cs)
  let ?b = "fst (breaker_call c b)"
  have "cb_hooked ?b" "list_all is_local cs" "is_local c" using Cons.prems by simp_all
  with Cons.IH [of ?b] Cons.prems(1) show ?case
    by (auto simp: breaker_run_Cons call_events simp del: breaker_run.simps(2))
qed simp

lemma gossip_follows:
  assumes "cb_hooked b" and "list_all is_local cs" and "self \<noteq> peer"
    and "cb_state (snd (get_or_create r (cb_name b))) = cb_state b"
  shows "cb_state (snd (get_or_create
      (gossip_all peer now (concat (map (gossip_publish True self) (snd (breaker_run cs b)))) r) (cb_name b))) =
    cb_state (fst (breaker_run cs b))"
proof -
  let ?ms = "concat (map (gossip_publish True self) (snd (breaker_run cs b)))"
  have "concat (map (gossip_publish True self) evs) =
      map (\<lambda>ev. \<lparr>bm_origin = self, bm_provider = ev_name ev, bm_to = ev_to ev\<rparr>) evs" for evs
    by (induction evs) (simp_all add: gossip_publish_def)
  then have ms: "?ms = map (\<lambda>ev. \<lparr>bm_origin = self, bm_provider = ev_name ev, bm_to = ev_to ev\<rparr>) (snd (breaker_run cs b))" .
  have "bm_origin m \<noteq> peer \<and> bm_provider m = cb_name b" if "m \<in> set ?ms" for m
    using that run_events_last [OF assms(1,2)] assms(3) unfolding ms by auto
  from gossip_all_state [of ?ms, OF this] show ?thesis
    using run_events_last [OF assms(1,2)] assms(4) by (auto simp: ms last_map)
qed

end
