(* ===== verification/Retry_Policy.thy ===== *)
theory Retry_Policy
  imports Circuit_Breaker Go_Text
begin

section \<open>What is retried, and how long to wait (internal/retry/policy.go, retry.go)\<close>

text \<open>
  An error of Go is what the code asks of it: whether it is a context error, whether it is a
  \<open>net.Error\<close> that timed out, its text, and the wait of a \<open>*RetryAfterError\<close> in its chain.
  \<open>strconv.Atoi\<close> is written out; \<open>dates\<close> stands for \<open>time.Parse\<close> with the four layouts, the
  waits it finds from now. The exponential backoff of policy.go is computed in float64 with a
  random sample, and is a parameter (\<open>backoff\<close>) wherever it is used.
\<close>

record go_err =
  ge_context :: bool
  ge_net_timeout :: bool
  ge_text :: string
  ge_retry_after :: "int option"

fun contains_text :: "string \<Rightarrow> string \<Rightarrow> bool" where
  "contains_text [] p \<longleftrightarrow> p = []"
| "contains_text (c # cs) p \<longleftrightarrow> has_prefix (c # cs) p \<or> contains_text cs p"

definition retryable_statuses :: "int list" where
  "retryable_statuses = [429, 500, 502, 503, 504]"

definition non_retryable_statuses :: "int list" where
  "non_retryable_statuses = [400, 401, 403, 404, 422]"

definition transient_texts :: "string list" where
  "transient_texts = [''connection reset'', ''connection refused'', ''eof'', ''timeout'', ''temporary failure'']"

definition is_retryable :: "go_err option \<Rightarrow> int \<Rightarrow> bool" where
  "is_retryable err status =
     (if (case err of None \<Rightarrow> False | Some e \<Rightarrow> ge_context e) then False
      else if status > 0 \<and> status \<in> set non_retryable_statuses then False
      else if status > 0 \<and> status \<in> set retryable_statuses then True
      else if status > 0 \<and> status \<ge> 200 \<and> status < 300 then False
      else if status > 0 \<and> status \<ge> 400 \<and> status < 500 then False
      else if status > 0 \<and> status \<ge> 500 then True
      else case err of
             None \<Rightarrow> False
           | Some e \<Rightarrow>
               ge_net_timeout e \<or> list_ex (contains_text (to_lower (ge_text e))) transient_texts)"

subsection \<open>Numbers and waits\<close>

definition parse_int64 :: "string \<Rightarrow> int option" where
  "parse_int64 s =
     (let neg = (s \<noteq> [] \<and> hd s = CHR ''-'');
          ds = (if s \<noteq> [] \<and> (hd s = CHR ''-'' \<or> hd s = CHR ''+'') then tl s else s);
          v = (if neg then - digits_value ds else digits_value ds)
      in if ds = [] \<or> \<not> list_all is_digit ds then None
         else if is_i64 v then Some v else None)"

definition second_ns :: int where "second_ns = 10 ^ 9"

definition ms_ns :: int where "ms_ns = 10 ^ 6"

definition parse_retry_after :: "(string \<Rightarrow> int option list) \<Rightarrow> string \<Rightarrow> int" where
  "parse_retry_after dates header =
     (let h = trim_space header
      in if h = '''' then 0
         else case parse_int64 h of
             Some n \<Rightarrow>
               if n \<ge> 0 then i64 (n * second_ns)
               else (case filter (\<lambda>d. d > 0) (List.map_filter id (dates h)) of [] \<Rightarrow> 0 | d # _ \<Rightarrow> d)
           | None \<Rightarrow> (case filter (\<lambda>d. d > 0) (List.map_filter id (dates h)) of [] \<Rightarrow> 0 | d # _ \<Rightarrow> d))"

definition min_delay :: int where "min_delay = ms_ns"

subsection \<open>The retry loop of an executor\<close>

record retry_policy =
  rp_max_attempts :: int
  rp_max_delay :: int

record 'v exec_result =
  er_value :: "'v option"
  er_status :: int
  er_attempts :: int
  er_delay :: int
  er_circuit_open :: bool

datatype exec_error = CircuitOpen | ContextEnded | Upstream go_err | Exhausted int

text \<open>
  What surrounds a call: the \<open>n\<close>th attempt's answer, the times of the \<open>n\<close>th \<open>Allow\<close> and of
  what is recorded after it, what other goroutines do to the shared breaker before it, and
  whether the context ends in the wait after it.
\<close>

record 'v surroundings =
  sr_answer :: "nat \<Rightarrow> 'v \<times> int \<times> go_err option"
  sr_allow_at :: "nat \<Rightarrow> int"
  sr_record_at :: "nat \<Rightarrow> int"
  sr_others :: "nat \<Rightarrow> breaker \<Rightarrow> breaker"
  sr_cancelled :: "nat \<Rightarrow> bool"

definition attempts_of :: "retry_policy \<Rightarrow> nat" where
  "attempts_of p = nat (if rp_max_attempts p < 1 then 1 else rp_max_attempts p)"

definition wait_before_next :: "retry_policy \<Rightarrow> (nat \<Rightarrow> int) \<Rightarrow> nat \<Rightarrow> go_err option \<Rightarrow> int" where
  "wait_before_next p backoff attempt err =
     (let delay =
            (case Option.bind err ge_retry_after of
               None \<Rightarrow> backoff attempt
             | Some after \<Rightarrow>
                 let delay = (if after < 0 then 0 else after)
                 in if rp_max_delay p > 0 \<and> delay > rp_max_delay p then rp_max_delay p else delay)
      in if delay < min_delay then min_delay else delay)"

definition ok_answer :: "int \<Rightarrow> go_err option \<Rightarrow> bool" where
  "ok_answer status err \<longleftrightarrow> err = None \<and> status \<ge> 200 \<and> status < 300"

definition gave_up :: "nat \<Rightarrow> int \<Rightarrow> go_err option \<Rightarrow> int \<Rightarrow> 'v exec_result \<times> exec_error option" where
  "gave_up attempts status err waited =
     (\<lparr>er_value = None, er_status = status, er_attempts = int attempts, er_delay = waited,
       er_circuit_open = False\<rparr>,
      Some (case err of None \<Rightarrow> Exhausted status | Some e \<Rightarrow> Upstream e))"

text \<open>\<open>execute_from\<close>: the loop from an attempt on, with \<open>left\<close> attempts to go; the last
  component counts the calls of \<open>fn\<close> made.\<close>

fun execute_from ::
    "retry_policy \<Rightarrow> (nat \<Rightarrow> int) \<Rightarrow> 'v surroundings \<Rightarrow> nat \<Rightarrow> nat \<Rightarrow> int \<Rightarrow> breaker \<Rightarrow>
      breaker \<times> ('v exec_result \<times> exec_error option) \<times> nat" where
  "execute_from p backoff s attempt 0 waited b = (b, gave_up (attempts_of p) 0 None waited, attempt)"
| "execute_from p backoff s attempt (Suc left) waited b =
     (case (if attempt > 0 then allow (sr_allow_at s attempt) (sr_others s attempt b) else ((b, []), True)) of
        ((b, _), allowed) \<Rightarrow>
          if \<not> allowed
          then (b, (\<lparr>er_value = None, er_status = 0, er_attempts = int attempt, er_delay = 0,
                 er_circuit_open = True\<rparr>, Some CircuitOpen), attempt)
          else case sr_answer s attempt of (val, status, err) \<Rightarrow>
            if ok_answer status err
            then (fst (breaker_success b), (\<lparr>er_value = Some val, er_status = status,
                    er_attempts = int attempt + 1, er_delay = waited, er_circuit_open = False\<rparr>, None), Suc attempt)
            else
              let b = fst (breaker_failure (sr_record_at s attempt) b)
              in if \<not> is_retryable err status \<or> left = 0
                 then (b, gave_up (attempts_of p) status err waited, Suc attempt)
                 else
                   let waited = waited + wait_before_next p backoff attempt err
                   in if sr_cancelled s attempt
                      then (b, (\<lparr>er_value = None, er_status = 0, er_attempts = int attempt + 1, er_delay = waited,
                             er_circuit_open = False\<rparr>, Some ContextEnded), Suc attempt)
                      else execute_from p backoff s (Suc attempt) left waited b)"

definition execute ::
    "retry_policy \<Rightarrow> (nat \<Rightarrow> int) \<Rightarrow> 'v surroundings \<Rightarrow> registry \<Rightarrow> string \<Rightarrow>
      registry \<times> ('v exec_result \<times> exec_error option) \<times> nat" where
  "execute p backoff s r provider =
     (case get_or_create r provider of (r, b) \<Rightarrow>
        case allow (sr_allow_at s 0) b of
          ((b, _), False) \<Rightarrow>
            (r\<lparr>rg_breakers := (rg_breakers r)(provider \<mapsto> b)\<rparr>,
             (\<lparr>er_value = None, er_status = 0, er_attempts = 0, er_delay = 0, er_circuit_open = True\<rparr>,
              Some CircuitOpen), 0)
        | ((b, _), True) \<Rightarrow>
            case execute_from p backoff s 0 (attempts_of p) 0 b of (b, out, n) \<Rightarrow>
              (r\<lparr>rg_breakers := (rg_breakers r)(provider \<mapsto> b)\<rparr>, out, n))"

subsection \<open>The plain retry loop (retry.go)\<close>

text \<open>
  \<open>Do\<close> calls \<open>fn\<close> until it has a response whose status is not retryable. \<open>jitter d\<close> is the
  random addition \<open>rand.Int63n(d / 4 + 1)\<close>, \<open>ended n\<close> whether the context has ended before
  the \<open>n\<close>th attempt (counted from 1), and \<open>slept n d\<close> what the \<open>n\<close>th sleep of \<open>d\<close> took when the
  context ended in it.
\<close>

record response =
  rs_status :: int
  rs_retry_after :: string

record retry_config =
  rc_max_attempts :: int
  rc_base_delay :: int
  rc_max_delay :: int
  rc_codes :: "int list"

record retry_world =
  rw_answer :: "nat \<Rightarrow> go_err + response"
  rw_ended :: "nat \<Rightarrow> bool"
  rw_slept :: "nat \<Rightarrow> int \<Rightarrow> int option"
  rw_jitter :: "nat \<Rightarrow> int \<Rightarrow> int"

datatype last_error = NoError | FromAttempt go_err | FromContext

record retry_result =
  rr_response :: "response option"
  rr_attempts :: nat
  rr_delay :: int
  rr_last_error :: last_error

definition default_config :: retry_config where
  "default_config =
     \<lparr>rc_max_attempts = 3, rc_base_delay = second_ns, rc_max_delay = 16 * second_ns,
      rc_codes = [429, 500, 502, 503, 504]\<rparr>"

definition is_retryable_code :: "int list \<Rightarrow> int \<Rightarrow> bool" where
  "is_retryable_code codes status = list_ex (\<lambda>c. c = status) codes"

definition compute_delay :: "retry_config \<Rightarrow> (int \<Rightarrow> int) \<Rightarrow> nat \<Rightarrow> int" where
  "compute_delay c jitter attempt =
     (let d = i64 (rc_base_delay c * 2 ^ (attempt - 1));
          d = (if d > rc_max_delay c then rc_max_delay c else d)
      in if d \<le> 0 then 0 else i64 (d + jitter d))"

definition response_wait :: "response \<Rightarrow> int option" where
  "response_wait r =
     (if rs_status r \<noteq> 429 then None
      else if rs_retry_after r = '''' then None
      else case parse_int64 (rs_retry_after r) of
          None \<Rightarrow> None
        | Some n \<Rightarrow> if n < 0 then None else Some (i64 (n * second_ns)))"

definition sleep_with_context :: "(int \<Rightarrow> int option) \<Rightarrow> int \<Rightarrow> int \<times> bool" where
  "sleep_with_context slept d =
     (if d \<le> 0 then (0, True) else case slept d of None \<Rightarrow> (d, True) | Some t \<Rightarrow> (t, False))"

fun do_from :: "retry_config \<Rightarrow> retry_world \<Rightarrow> nat \<Rightarrow> nat \<Rightarrow> retry_result \<Rightarrow> retry_result" where
  "do_from c w attempt 0 result = result"
| "do_from c w attempt (Suc left) result =
     (if rw_ended w attempt then result\<lparr>rr_last_error := FromContext\<rparr>
      else
        let result = result\<lparr>rr_attempts := attempt\<rparr>
        in case rw_answer w attempt of
             Inl e \<Rightarrow>
               let result = result\<lparr>rr_last_error := FromAttempt e, rr_response := None\<rparr>
               in if left = 0 then result
                  else (case sleep_with_context (rw_slept w attempt)
                              (compute_delay c (rw_jitter w attempt) attempt) of
                          (waited, ok) \<Rightarrow>
                            let result = result\<lparr>rr_delay := rr_delay result + waited\<rparr>
                            in if ok then do_from c w (Suc attempt) left result
                               else result\<lparr>rr_last_error := FromContext\<rparr>)
           | Inr r \<Rightarrow>
               if \<not> is_retryable_code (rc_codes c) (rs_status r) \<or> left = 0
               then result\<lparr>rr_response := Some r, rr_last_error := NoError\<rparr>
               else
                 let backoff = compute_delay c (rw_jitter w attempt) attempt;
                     backoff = (case response_wait r of Some hint \<Rightarrow> hint | None \<Rightarrow> backoff)
                 in case sleep_with_context (rw_slept w attempt) backoff of
                      (waited, ok) \<Rightarrow>
                        let result = result\<lparr>rr_delay := rr_delay result + waited\<rparr>
                        in if ok then do_from c w (Suc attempt) left result
                           else result\<lparr>rr_last_error := FromContext\<rparr>)"

definition retry_do :: "retry_config \<Rightarrow> retry_world \<Rightarrow> retry_result" where
  "retry_do c w =
     do_from c w 1 (nat (if rc_max_attempts c < 1 then 1 else rc_max_attempts c))
       \<lparr>rr_response = None, rr_attempts = 0, rr_delay = 0, rr_last_error = NoError\<rparr>"

section \<open>What the loops do\<close>

subsection \<open>The executor\<close>

definition answered_ok :: "'v surroundings \<Rightarrow> nat \<Rightarrow> bool" where
  "answered_ok s m = (case sr_answer s m of (_, status, err) \<Rightarrow> ok_answer status err)"

definition answered_retryable :: "'v surroundings \<Rightarrow> nat \<Rightarrow> bool" where
  "answered_retryable s m = (case sr_answer s m of (_, status, err) \<Rightarrow> is_retryable err status)"

lemma execute_from_calls:
  assumes "execute_from p backoff s a left w b = (b', (res, err), n)"
  shows "a \<le> n \<and> n \<le> a + left \<and> (a = 0 \<and> 0 < left \<longrightarrow> 0 < n) \<and>
    (\<forall>m. a \<le> m \<and> Suc m < n \<longrightarrow> \<not> answered_ok s m \<and> answered_retryable s m \<and> \<not> sr_cancelled s m) \<and>
    (err = None \<longrightarrow> a < n \<and> answered_ok s (n - 1) \<and> er_value res = Some (fst (sr_answer s (n - 1)))) \<and>
    (a < n \<and> answered_ok s (n - 1) \<longrightarrow> err = None)"
  using assms
proof (induction left arbitrary: a w b)
  case 0
  then show ?case by (auto simp: gave_up_def)
next
  case (Suc left)
  obtain val status er where ans: "sr_answer s a = (val, status, er)" by (cases "sr_answer s a") auto
  obtain b1 evs allowed where
    al: "(if a > 0 then allow (sr_allow_at s a) (sr_others s a b) else ((b, []), True)) = ((b1, evs), allowed)"
    by (metis prod.collapse)
  let ?b2 = "fst (breaker_failure (sr_record_at s a) b1)"
  let ?w = "w + wait_before_next p backoff a er"
  have al0: "a = 0 \<Longrightarrow> allowed" using al by simp
  note run = Suc.prems [unfolded execute_from.simps(2) al ans prod.case Let_def]
  consider (refused) "\<not> allowed" | (ok) "allowed" "ok_answer status er"
    | (stop) "allowed" "\<not> ok_answer status er" "\<not> is_retryable er status \<or> left = 0 \<or> sr_cancelled s a"
    | (again) "allowed" "\<not> ok_answer status er" "is_retryable er status" "left \<noteq> 0" "\<not> sr_cancelled s a"
    by blast
  then show ?case
  proof cases
    case refused
    then show ?thesis using run al0 by auto
  next
    case ok
    then show ?thesis using run by (auto simp: answered_ok_def ans)
  next
    case stop
    then show ?thesis
      using run by (auto simp: answered_ok_def ans gave_up_def split: if_splits)
  next
    case again
    then have rest: "execute_from p backoff s (Suc a) left ?w ?b2 = (b', (res, err), n)" using run by simp
    have here: "\<not> answered_ok s a \<and> answered_retryable s a"
      using again by (simp add: answered_ok_def answered_retryable_def ans)
    note ih = Suc.IH [OF rest]
    have "\<not> answered_ok s m \<and> answered_retryable s m \<and> \<not> sr_cancelled s m" if "a \<le> m" "Suc m < n" for m
      using ih that here again(5) by (cases "m = a") simp_all
    moreover have "err = None" if "answered_ok s (n - 1)"
    proof -
      have "n \<noteq> Suc a" using that here by auto
      then have "Suc a < n" using ih by linarith
      then show ?thesis using ih that by blast
    qed
    moreover have "a < n" "n \<le> a + Suc left" using ih by simp_all
    ultimately show ?thesis using ih by simp
  qed
qed

lemma execute_calls:
  assumes "execute p backoff s r provider = (r', (res, err), n)"
  shows "n \<le> attempts_of p"
    and "n = 0 \<longleftrightarrow> \<not> admits (sr_allow_at s 0) (snd (get_or_create r provider))"
    and "Suc m < n \<Longrightarrow> \<not> answered_ok s m \<and> answered_retryable s m \<and> \<not> sr_cancelled s m"
    and "err = None \<longleftrightarrow> 0 < n \<and> answered_ok s (n - 1)"
    and "err = None \<Longrightarrow> er_value res = Some (fst (sr_answer s (n - 1)))"
    and "n = 0 \<Longrightarrow> err = Some CircuitOpen"
    and "q \<noteq> provider \<Longrightarrow> rg_breakers r' q = rg_breakers r q"
proof -
  obtain r1 b where g: "get_or_create r provider = (r1, b)" by (cases "get_or_create r provider")
  obtain b1 evs ok where al: "allow (sr_allow_at s 0) b = ((b1, evs), ok)" by (metis prod.collapse)
  have other: "q \<noteq> provider \<Longrightarrow> rg_breakers r1 q = rg_breakers r q"
    using g by (auto simp: get_or_create_def Let_def split: option.splits)
  note run = assms [unfolded execute_def g al prod.case]
  have adm: "admits (sr_allow_at s 0) (snd (get_or_create r provider)) = ok" by (simp add: admits_def g al)
  have pos: "0 < attempts_of p" by (simp add: attempts_of_def)
  have "n \<le> attempts_of p \<and> (n = 0 \<longleftrightarrow> \<not> ok) \<and>
      (\<forall>m. Suc m < n \<longrightarrow> \<not> answered_ok s m \<and> answered_retryable s m \<and> \<not> sr_cancelled s m) \<and>
      (err = None \<longleftrightarrow> 0 < n \<and> answered_ok s (n - 1)) \<and>
      (err = None \<longrightarrow> er_value res = Some (fst (sr_answer s (n - 1)))) \<and> (n = 0 \<longrightarrow> err = Some CircuitOpen) \<and>
      (q \<noteq> provider \<longrightarrow> rg_breakers r' q = rg_breakers r q)"
  proof (cases ok)
    case False
    then show ?thesis using run other by auto
  next
    case True
    obtain b2 out k where e: "execute_from p backoff s 0 (attempts_of p) 0 b1 = (b2, out, k)"
      by (metis prod.collapse)
    from run True e have out: "out = (res, err)" "k = n" and r': "r' = r1\<lparr>rg_breakers := (rg_breakers r1)(provider \<mapsto> b2)\<rparr>"
      by auto
    from execute_from_calls [OF e [unfolded out]] pos True other show ?thesis by (auto simp: r')
  qed
  then show "n \<le> attempts_of p" "n = 0 \<longleftrightarrow> \<not> admits (sr_allow_at s 0) (snd (get_or_create r provider))"
    "Suc m < n \<Longrightarrow> \<not> answered_ok s m \<and> answered_retryable s m \<and> \<not> sr_cancelled s m"
    "err = None \<longleftrightarrow> 0 < n \<and> answered_ok s (n - 1)"
    "err = None \<Longrightarrow> er_value res = Some (fst (sr_answer s (n - 1)))"
    "n = 0 \<Longrightarrow> err = Some CircuitOpen" "q \<noteq> provider \<Longrightarrow> rg_breakers r' q = rg_breakers r q"
    using adm by blast+
qed

lemma wait_bounds:
  shows "min_delay \<le> wait_before_next p backoff n err"
    and "0 < rp_max_delay p \<Longrightarrow> backoff n \<le> max min_delay (rp_max_delay p) \<Longrightarrow>
      wait_before_next p backoff n err \<le> max min_delay (rp_max_delay p)"
  by (auto simp: wait_before_next_def Let_def split: option.split)

subsection \<open>The plain loop\<close>

definition response_final :: "retry_config \<Rightarrow> go_err + response \<Rightarrow> bool" where
  "response_final c a = (case a of Inl _ \<Rightarrow> False | Inr r \<Rightarrow> \<not> is_retryable_code (rc_codes c) (rs_status r))"

text \<open>One more attempt that was not the last: the loop goes on, or the context ended in its wait.\<close>

lemma do_from_again:
  assumes "\<not> rw_ended w a" and "\<not> response_final c (rw_answer w a)" and "rr_response r0 = None"
  shows "\<exists>r1. rr_response r1 = None \<and> rr_attempts r1 = a \<and>
    (do_from c w a (Suc (Suc left)) r0 = do_from c w (Suc a) (Suc left) r1 \<or>
     do_from c w a (Suc (Suc left)) r0 = r1\<lparr>rr_last_error := FromContext\<rparr>)"
proof -
  note step = do_from.simps(2) [of c w a "Suc left" r0]
  show ?thesis
  proof (cases "rw_answer w a")
    case (Inl e)
    obtain t ok where s: "sleep_with_context (rw_slept w a) (compute_delay c (rw_jitter w a) a) = (t, ok)"
      by (metis prod.collapse)
    show ?thesis
      by (rule exI [of _ "r0\<lparr>rr_attempts := a, rr_last_error := FromAttempt e, rr_response := None,
            rr_delay := rr_delay r0 + t\<rparr>"])
        (simp add: step assms(1) Inl s Let_def del: do_from.simps)
  next
    case (Inr r)
    then have code: "is_retryable_code (rc_codes c) (rs_status r)"
      using assms(2) by (simp add: response_final_def)
    obtain t ok where s: "sleep_with_context (rw_slept w a)
        (case response_wait r of Some hint \<Rightarrow> hint | None \<Rightarrow> compute_delay c (rw_jitter w a) a) = (t, ok)"
      by (metis prod.collapse)
    show ?thesis
      by (rule exI [of _ "r0\<lparr>rr_attempts := a, rr_delay := rr_delay r0 + t\<rparr>"])
        (simp add: step assms Inr code s Let_def del: do_from.simps)
  qed
qed

lemma do_from_calls:
  assumes "do_from c w a (Suc left) res0 = res" and "rr_response res0 = None" and "rr_attempts res0 < a"
    and "0 < a"
  shows "\<exists>n. rr_attempts res = n \<and> n \<le> a + left \<and> (n = rr_attempts res0 \<or> a \<le> n) \<and>
    (\<forall>m. a \<le> m \<and> m < n \<longrightarrow> \<not> response_final c (rw_answer w m)) \<and>
    (case rr_response res of
       Some r \<Rightarrow> a \<le> n \<and> rw_answer w n = Inr r \<and> rr_last_error res = NoError \<and> (response_final c (Inr r) \<or> n = a + left)
     | None \<Rightarrow> rr_last_error res \<noteq> NoError)"
  using assms
proof (induction left arbitrary: a res0)
  case 0
  then show ?case
    by (cases "rw_answer w a") (auto simp: Let_def split: if_splits)
next
  case (Suc left)
  show ?case
  proof (cases "rw_ended w a")
    case True
    then show ?thesis using Suc.prems by auto
  next
    case False
    show ?thesis
    proof (cases "response_final c (rw_answer w a)")
      case True
      then obtain r where "rw_answer w a = Inr r" "\<not> is_retryable_code (rc_codes c) (rs_status r)"
        by (auto simp: response_final_def split: sum.splits)
      then show ?thesis using Suc.prems False by (auto simp: Let_def response_final_def)
    next
      case more: False
      from do_from_again [OF False more Suc.prems(2), of left] Suc.prems(1)
      have "(\<exists>r1. rr_response r1 = None \<and> rr_attempts r1 = a \<and> do_from c w (Suc a) (Suc left) r1 = res) \<or>
          (rr_response res = None \<and> rr_attempts res = a \<and> rr_last_error res = FromContext)"
        by (auto simp del: do_from.simps)
      then show ?thesis
      proof
        assume "\<exists>r1. rr_response r1 = None \<and> rr_attempts r1 = a \<and> do_from c w (Suc a) (Suc left) r1 = res"
        then obtain r1 where r1: "rr_response r1 = None" "rr_attempts r1 = a" "do_from c w (Suc a) (Suc left) r1 = res"
          by blast
        have "rr_attempts r1 < Suc a" "0 < Suc a" using r1(2) by simp_all
        from Suc.IH [OF r1(3,1) this] obtain n where
          n: "rr_attempts res = n" "n \<le> Suc a + left" "n = a \<or> Suc a \<le> n"
            "\<forall>m. Suc a \<le> m \<and> m < n \<longrightarrow> \<not> response_final c (rw_answer w m)"
            "case rr_response res of
               Some r \<Rightarrow> Suc a \<le> n \<and> rw_answer w n = Inr r \<and> rr_last_error res = NoError \<and>
                 (response_final c (Inr r) \<or> n = Suc a + left)
             | None \<Rightarrow> rr_last_error res \<noteq> NoError"
          using r1(2) by (simp del: do_from.simps)
        have "\<not> response_final c (rw_answer w m)" if "a \<le> m" "m < n" for m
          using n(4) more that by (cases "m = a") auto
        then show ?thesis using n by (auto split: option.splits)
      qed (use more in \<open>auto simp: le_less_Suc_eq\<close>)
    qed
  qed
qed

end
