(* ===== verification/Rate_Limits.thy ===== *)
theory Rate_Limits
  imports Prelude
begin

section \<open>Rate limits (internal/ratelimit/limiter.go, internal/ha/shared_limiter.go)\<close>

text \<open>
  The limiter picks the most specific rule for a workspace and key and counts the request in
  one fixed window per limit; the counters are kept by Redis, whose answers are an argument:
  \<open>counted w\<close> is the count and time to live the script returned for a window, or \<open>None\<close> when
  it failed or returned less than two numbers. The shared limiter of the instances puts an
  in-process counter in front of the one they share.
\<close>

record rate_rule =
  ru_workspace :: string
  ru_key :: string
  ru_per_second :: int
  ru_per_minute :: int
  ru_per_hour :: int

record rate_result =
  ra_allowed :: bool
  ra_limit_type :: string
  ra_retry_after :: int
  ra_remaining :: int

definition no_rule :: rate_rule where
  "no_rule = \<lparr>ru_workspace = '''', ru_key = '''', ru_per_second = 0, ru_per_minute = 0, ru_per_hour = 0\<rparr>"

definition default_rate_rules :: "rate_rule list" where
  "default_rate_rules = [no_rule\<lparr>ru_per_second := 100, ru_per_minute := 1000, ru_per_hour := 10000\<rparr>]"

text \<open>\<open>None\<close>: the rule names another workspace or key (\<open>continue\<close>).\<close>

definition rule_score :: "string \<Rightarrow> string \<Rightarrow> rate_rule \<Rightarrow> int option" where
  "rule_score ws key r =
     (if ru_workspace r \<noteq> '''' \<and> ru_workspace r \<noteq> ws then None
      else if ru_key r \<noteq> '''' \<and> ru_key r \<noteq> key then None
      else Some ((if ru_workspace r \<noteq> '''' then 10 else 0) + (if ru_key r \<noteq> '''' then 5 else 0)))"

fun best_rule :: "string \<Rightarrow> string \<Rightarrow> rate_rule list \<Rightarrow> int \<Rightarrow> rate_rule \<Rightarrow> rate_rule" where
  "best_rule ws key [] score best = best"
| "best_rule ws key (r # rs) score best =
     (case rule_score ws key r of
        None \<Rightarrow> best_rule ws key rs score best
      | Some n \<Rightarrow> if n > score then best_rule ws key rs n r else best_rule ws key rs score best)"

definition match_rule :: "rate_rule list \<Rightarrow> string \<Rightarrow> string \<Rightarrow> rate_rule" where
  "match_rule rules ws key = best_rule ws key rules (- 1) no_rule"

definition add_rate_rule :: "rate_rule \<Rightarrow> rate_rule list \<Rightarrow> rate_rule list" where
  "add_rate_rule r rules = rules @ [r]"

record rate_window =
  rw_name :: string
  rw_secs :: int
  rw_limit :: int

definition windows_for :: "rate_rule \<Rightarrow> rate_window list" where
  "windows_for r =
     [\<lparr>rw_name = ''second'', rw_secs = 1, rw_limit = ru_per_second r\<rparr>,
      \<lparr>rw_name = ''minute'', rw_secs = 60, rw_limit = ru_per_minute r\<rparr>,
      \<lparr>rw_name = ''hour'', rw_secs = 3600, rw_limit = ru_per_hour r\<rparr>]"

text \<open>\<open>Inl\<close>: the window that denies, \<open>Inr\<close>: the least that remains, \<open>-1\<close> when nothing was counted.\<close>

fun check_windows ::
    "(rate_window \<Rightarrow> (int \<times> int) option) \<Rightarrow> rate_window list \<Rightarrow> int \<Rightarrow> rate_result + int" where
  "check_windows counted [] least = Inr least"
| "check_windows counted (w # ws) least =
     (if rw_limit w \<le> 0 then check_windows counted ws least
      else case counted w of
             None \<Rightarrow> check_windows counted ws least
           | Some (count, ttl) \<Rightarrow>
               if count > rw_limit w
               then Inl \<lparr>ra_allowed = False, ra_limit_type = rw_name w,
                      ra_retry_after = (if ttl \<le> 0 then rw_secs w else ttl), ra_remaining = 0\<rparr>
               else
                 let remaining = rw_limit w - count
                 in check_windows counted ws
                      (if least < 0 \<or> remaining < least then remaining else least))"

text \<open>\<open>shared\<close>: the answer of the shared limiter, when one is attached.\<close>

definition check_rate ::
    "rate_rule list \<Rightarrow> bool \<Rightarrow> (rate_window \<Rightarrow> (int \<times> int) option) \<Rightarrow> (rate_rule \<Rightarrow> bool) option \<Rightarrow>
      string \<Rightarrow> string \<Rightarrow> rate_result" where
  "check_rate rules has_redis counted shared ws key =
     (let rule = match_rule rules ws key
      in if \<not> has_redis
         then \<lparr>ra_allowed = True, ra_limit_type = '''', ra_retry_after = 0, ra_remaining = 0\<rparr>
         else case check_windows counted (windows_for rule) (- 1) of
             Inl denied \<Rightarrow> denied
           | Inr least \<Rightarrow>
               let least = (if least < 0 then 0 else least)
               in if (case shared of None \<Rightarrow> False | Some allow \<Rightarrow> \<not> allow rule)
                  then \<lparr>ra_allowed = False, ra_limit_type = ''shared'', ra_retry_after = 60, ra_remaining = 0\<rparr>
                  else \<lparr>ra_allowed = True, ra_limit_type = '''', ra_retry_after = 0, ra_remaining = least\<rparr>)"

subsection \<open>The most specific rule wins\<close>

lemma rule_score_nonneg: "rule_score ws key r = Some n \<Longrightarrow> 0 \<le> n"
  by (auto simp: rule_score_def split: if_splits)

definition wins :: "string \<Rightarrow> string \<Rightarrow> rate_rule list \<Rightarrow> rate_rule \<Rightarrow> int \<Rightarrow> bool" where
  "wins ws key rs r n \<longleftrightarrow>
     (\<exists>as bs. rs = as @ r # bs \<and> rule_score ws key r = Some n \<and>
        (\<forall>q \<in> set as. \<forall>m. rule_score ws key q = Some m \<longrightarrow> m < n) \<and>
        (\<forall>q \<in> set bs. \<forall>m. rule_score ws key q = Some m \<longrightarrow> m \<le> n))"

lemma wins_first:
  "rule_score ws key r = Some n \<Longrightarrow> \<forall>q \<in> set rs. \<forall>m. rule_score ws key q = Some m \<longrightarrow> m \<le> n \<Longrightarrow>
    wins ws key (r # rs) r n"
  unfolding wins_def by (intro exI [of _ "[]"] exI [of _ rs]) simp

lemma wins_later:
  assumes "wins ws key rs q n" and "\<forall>m. rule_score ws key r = Some m \<longrightarrow> m < n"
  shows "wins ws key (r # rs) q n"
proof -
  obtain as bs where "rs = as @ q # bs" "rule_score ws key q = Some n"
    "\<forall>x \<in> set as. \<forall>m. rule_score ws key x = Some m \<longrightarrow> m < n"
    "\<forall>x \<in> set bs. \<forall>m. rule_score ws key x = Some m \<longrightarrow> m \<le> n"
    using assms(1) unfolding wins_def by blast
  then show ?thesis
    using assms(2) unfolding wins_def by (intro exI [of _ "r # as"] exI [of _ bs]) simp
qed

lemma best_rule_wins:
  "(best_rule ws key rs score best = best \<and> (\<forall>r \<in> set rs. \<forall>n. rule_score ws key r = Some n \<longrightarrow> n \<le> score)) \<or>
    (\<exists>n > score. wins ws key rs (best_rule ws key rs score best) n)"
proof (induction rs arbitrary: score best)
  case (Cons r rs)
  show ?case
  proof (cases "\<exists>n > score. rule_score ws key r = Some n")
    case True
    then obtain n where n: "rule_score ws key r = Some n" "n > score" by blast
    then have step: "best_rule ws key (r # rs) score best = best_rule ws key rs n r" by simp
    from Cons.IH [of n r] show ?thesis
    proof
      assume "best_rule ws key rs n r = r \<and> (\<forall>q \<in> set rs. \<forall>m. rule_score ws key q = Some m \<longrightarrow> m \<le> n)"
      then show ?thesis using n wins_first step by metis
    next
      assume "\<exists>m > n. wins ws key rs (best_rule ws key rs n r) m"
      then obtain m where "m > n" "wins ws key rs (best_rule ws key rs n r) m" by blast
      then have "wins ws key (r # rs) (best_rule ws key rs n r) m" "score < m"
        using n by (auto intro: wins_later)
      then show ?thesis using step by metis
    qed
  next
    case False
    then have low: "\<forall>n. rule_score ws key r = Some n \<longrightarrow> n \<le> score" by (meson not_le)
    then have step: "best_rule ws key (r # rs) score best = best_rule ws key rs score best"
      by (auto split: option.split)
    from Cons.IH [of score best] show ?thesis
    proof
      assume "\<exists>n > score. wins ws key rs (best_rule ws key rs score best) n"
      then obtain n where "n > score" "wins ws key rs (best_rule ws key rs score best) n" by blast
      then show ?thesis using low step wins_later by (metis order_le_less_trans)
    qed (use low step in simp)
  qed
qed simp

lemma match_rule_wins:
  "(match_rule rules ws key = no_rule \<and> (\<forall>r \<in> set rules. rule_score ws key r = None)) \<or>
    (\<exists>n. wins ws key rules (match_rule rules ws key) n)"
  using best_rule_wins [of ws key rules "- 1" no_rule] unfolding match_rule_def
  by (metis not_Some_eq order_trans rule_score_nonneg zero_neq_neg_one zero_le_numeral neg_0_le_iff_le not_one_le_zero)

subsection \<open>A request is denied exactly when a window is over its limit\<close>

lemma check_windows_iff:
  "isl (check_windows counted ws least) \<longleftrightarrow>
    (\<exists>w \<in> set ws. 0 < rw_limit w \<and> (\<exists>n ttl. counted w = Some (n, ttl) \<and> rw_limit w < n))"
  by (induction counted ws least rule: check_windows.induct) (auto simp: Let_def split: option.splits)

lemma check_windows_denied:
  "check_windows counted ws least = Inl r \<Longrightarrow> \<not> ra_allowed r"
  by (induction ws arbitrary: least) (auto simp: Let_def split: option.splits if_splits)

lemma check_windows_least:
  assumes "check_windows counted ws least = Inr n"
  shows "(0 \<le> least \<longrightarrow> n \<le> least) \<and>
    (\<forall>w \<in> set ws. \<forall>m ttl. 0 < rw_limit w \<and> counted w = Some (m, ttl) \<longrightarrow> n \<le> rw_limit w - m)"
  using assms
proof (induction ws arbitrary: least)
  case (Cons w ws)
  show ?case
  proof (cases "rw_limit w \<le> 0 \<or> counted w = None")
    case True
    then show ?thesis using Cons by (auto split: option.splits if_splits)
  next
    case False
    then obtain m ttl where c: "counted w = Some (m, ttl)" "0 < rw_limit w" by auto
    let ?l = "if least < 0 \<or> rw_limit w - m < least then rw_limit w - m else least"
    have "check_windows counted ws ?l = Inr n" "m \<le> rw_limit w"
      using Cons.prems c by (auto simp: Let_def split: if_splits)
    from Cons.IH [OF this(1)] this(2) c show ?thesis by (auto split: if_splits)
  qed
qed simp

section \<open>The limit the instances share (internal/ha/shared_limiter.go)\<close>

text \<open>
  An in-process window counts from its first request until \<open>lw_reset_at\<close>. The script's counter
  is Redis's: \<open>script\<close> is its answer to this request, \<open>None\<close> when it failed.
\<close>

record lw_entry =
  lw_count :: int
  lw_reset_at :: int

type_synonym local_window = "string \<rightharpoonup> lw_entry"

definition lw_entry_at :: "local_window \<Rightarrow> string \<Rightarrow> int \<Rightarrow> int \<Rightarrow> local_window \<times> lw_entry" where
  "lw_entry_at l key window now =
     (let fresh = \<lparr>lw_count = 0, lw_reset_at = now + window\<rparr>
      in case l key of
           None \<Rightarrow> (l(key \<mapsto> fresh), fresh)
         | Some e \<Rightarrow> if now > lw_reset_at e then (l(key \<mapsto> fresh), fresh) else (l, e))"

definition lw_count_at :: "local_window \<Rightarrow> string \<Rightarrow> int \<Rightarrow> int \<Rightarrow> local_window \<times> int" where
  "lw_count_at l key window now = (case lw_entry_at l key window now of (l, e) \<Rightarrow> (l, lw_count e))"

definition lw_add :: "local_window \<Rightarrow> string \<Rightarrow> int \<Rightarrow> int \<Rightarrow> local_window \<times> int" where
  "lw_add l key window now =
     (case lw_entry_at l key window now of (l, e) \<Rightarrow>
        let e = e\<lparr>lw_count := lw_count e + 1\<rparr> in (l(key \<mapsto> e), lw_count e))"

record shared_decision =
  sd_allowed :: bool
  sd_count :: int
  sd_limit :: int

definition local_decision :: "local_window \<Rightarrow> string \<Rightarrow> int \<Rightarrow> int \<Rightarrow> int \<Rightarrow> local_window \<times> shared_decision" where
  "local_decision l key limit window now =
     (case lw_add l key window now of (l, n) \<Rightarrow> (l, \<lparr>sd_allowed = (n \<le> limit), sd_count = n, sd_limit = limit\<rparr>))"

text \<open>The last component: whether the script was run.\<close>

definition shared_allow ::
    "bool \<Rightarrow> int option \<Rightarrow> local_window \<Rightarrow> string \<Rightarrow> int \<Rightarrow> int \<Rightarrow> int \<Rightarrow> local_window \<times> shared_decision \<times> bool" where
  "shared_allow enabled script l key limit window now =
     (if limit \<le> 0 then (l, \<lparr>sd_allowed = True, sd_count = 0, sd_limit = limit\<rparr>, False)
      else if \<not> enabled then case local_decision l key limit window now of (l, dec) \<Rightarrow> (l, dec, False)
      else case lw_count_at l key window now of (l, n) \<Rightarrow>
        if n \<ge> limit then (l, \<lparr>sd_allowed = False, sd_count = limit, sd_limit = limit\<rparr>, False)
        else case script of
            None \<Rightarrow> (case local_decision l key limit window now of (l, dec) \<Rightarrow> (l, dec, True))
          | Some count \<Rightarrow>
              let allowed = (count \<le> limit);
                  l = (if allowed then fst (lw_add l key window now) else l)
              in (l, \<lparr>sd_allowed = allowed, sd_count = count, sd_limit = limit\<rparr>, True))"

subsection \<open>Instances in front of one counter\<close>

text \<open>
  A request at an instance while one window of the counter lasts: INCR answers one more than
  before. \<open>fl_local\<close> is each instance's own window, \<open>fl_count\<close> the counter's value, \<open>fl_let\<close>
  the requests let through so far.
\<close>

record fleet =
  fl_local :: "string \<Rightarrow> local_window"
  fl_count :: int
  fl_let :: int

definition fleet_request :: "string \<Rightarrow> int \<Rightarrow> int \<Rightarrow> string \<Rightarrow> int \<Rightarrow> fleet \<Rightarrow> fleet \<times> bool" where
  "fleet_request key limit window i now f =
     (case shared_allow True (Some (fl_count f + 1)) (fl_local f i) key limit window now of
        (l, dec, asked) \<Rightarrow>
          (\<lparr>fl_local = (fl_local f)(i := l), fl_count = (if asked then fl_count f + 1 else fl_count f),
            fl_let = (if sd_allowed dec then fl_let f + 1 else fl_let f)\<rparr>, sd_allowed dec))"

fun fleet_run :: "string \<Rightarrow> int \<Rightarrow> int \<Rightarrow> (string \<times> int) list \<Rightarrow> fleet \<Rightarrow> fleet" where
  "fleet_run key limit window [] f = f"
| "fleet_run key limit window ((i, now) # rs) f =
     fleet_run key limit window rs (fst (fleet_request key limit window i now f))"

definition local_count :: "fleet \<Rightarrow> string \<Rightarrow> string \<Rightarrow> int" where
  "local_count f i key = (case fl_local f i key of None \<Rightarrow> 0 | Some e \<Rightarrow> lw_count e)"

text \<open>No instance has counted more than was let through, which is what the counter says.\<close>

definition fleet_ok :: "string \<Rightarrow> int \<Rightarrow> fleet \<Rightarrow> bool" where
  "fleet_ok key limit f \<longleftrightarrow> 0 \<le> fl_count f \<and> fl_let f = min limit (fl_count f) \<and>
     (\<forall>i. 0 \<le> local_count f i key \<and> local_count f i key \<le> fl_let f)"

lemma lw_entry_key: "fst (lw_entry_at l key window now) key = Some (snd (lw_entry_at l key window now))"
  by (auto simp: lw_entry_at_def Let_def split: option.split)

lemma lw_entry_again:
  "0 \<le> window \<Longrightarrow> lw_entry_at (fst (lw_entry_at l key window now)) key window now = lw_entry_at l key window now"
  by (auto simp: lw_entry_at_def Let_def split: option.splits if_splits)

lemma lw_entry_count:
  "lw_count (snd (lw_entry_at l key window now)) \<in> {0, case l key of None \<Rightarrow> 0 | Some e \<Rightarrow> lw_count e}"
  by (auto simp: lw_entry_at_def Let_def split: option.splits)

lemma fleet_request_ok:
  assumes "0 < limit" and "0 \<le> window" and ok: "fleet_ok key limit f"
  shows "fleet_ok key limit (fst (fleet_request key limit window i now f)) \<and>
    snd (fleet_request key limit window i now f) = (fl_let f < limit) \<and>
    fl_let (fst (fleet_request key limit window i now f)) = min limit (fl_let f + 1)"
proof -
  define l where "l = fst (lw_entry_at (fl_local f i) key window now)"
  define e where "e = snd (lw_entry_at (fl_local f i) key window now)"
  have pair: "lw_entry_at (fl_local f i) key window now = (l, e)" by (simp add: l_def e_def)
  have again: "lw_entry_at l key window now = (l, e)"
    using lw_entry_again [OF assms(2), of "fl_local f i" key now] by (simp add: pair)
  have lkey: "l key = Some e" unfolding l_def e_def by (rule lw_entry_key)
  have loc: "0 \<le> local_count f j key" "local_count f j key \<le> fl_let f" for j using ok unfolding fleet_ok_def by blast+
  have fl: "0 \<le> fl_count f" "fl_let f = min limit (fl_count f)" using ok unfolding fleet_ok_def by blast+
  have "lw_count e \<in> {0, local_count f i key}"
    using lw_entry_count [of "fl_local f i" key window now] by (simp add: e_def local_count_def)
  then have le: "0 \<le> lw_count e" "lw_count e \<le> fl_let f" using loc [of i] fl assms(1) by auto
  note request = fleet_request_def shared_allow_def lw_count_at_def lw_add_def Let_def pair again lkey
  consider (fast) "lw_count e \<ge> limit" | (over) "lw_count e < limit" "fl_count f + 1 > limit"
    | (fits) "lw_count e < limit" "fl_count f + 1 \<le> limit" by linarith
  then show ?thesis
  proof cases
    case fast
    then have f': "fleet_request key limit window i now f = (f\<lparr>fl_local := (fl_local f)(i := l)\<rparr>, False)"
      using assms(1) by (simp add: request)
    show ?thesis using fast fl le loc by (auto simp: f' fleet_ok_def local_count_def lkey)
  next
    case over
    then have f': "fleet_request key limit window i now f =
        (f\<lparr>fl_local := (fl_local f)(i := l), fl_count := fl_count f + 1\<rparr>, False)"
      using assms(1) by (simp add: request)
    show ?thesis using over fl le loc by (auto simp: f' fleet_ok_def local_count_def lkey)
  next
    case fits
    let ?e = "e\<lparr>lw_count := lw_count e + 1\<rparr>"
    have f': "fleet_request key limit window i now f =
        (f\<lparr>fl_local := (fl_local f)(i := l(key \<mapsto> ?e)), fl_count := fl_count f + 1, fl_let := fl_let f + 1\<rparr>, True)"
      using fits assms(1) by (simp add: request)
    have "local_count f j key \<le> fl_let f + 1" for j using loc(2) [of j] by simp
    then show ?thesis using fits fl le loc(1) by (auto simp: f' fleet_ok_def local_count_def)
  qed
qed

text \<open>So of any number of requests, at any instances, exactly the first \<open>limit\<close> get through.\<close>

lemma fleet_run_let:
  assumes "0 < limit" and "0 \<le> window" and "fleet_ok key limit f"
  shows "fl_let (fleet_run key limit window rs f) = min limit (fl_let f + int (length rs))"
  using assms(3)
proof (induction rs arbitrary: f)
  case Nil
  then show ?case by (simp add: fleet_ok_def)
next
  case (Cons r rs)
  obtain i now where r: "r = (i, now)" by (cases r)
  have s: "fleet_ok key limit (fst (fleet_request key limit window i now f))"
    "fl_let (fst (fleet_request key limit window i now f)) = min limit (fl_let f + 1)"
    using fleet_request_ok [OF assms(1,2) Cons.prems] by blast+
  show ?case using Cons.IH [OF s(1)] by (simp add: r s(2))
qed

end
