(* ===== verification/Leader_Election.thy ===== *)
theory Leader_Election
  imports Prelude
begin

section \<open>Leadership of a background job (internal/ha/leader.go)\<close>

text \<open>
  Instances elect the one that runs a job by a Redis key with a time to live. Redis is not part
  of the repository: \<open>redis\<close> is the record of the commands the code sends it, each taking the
  server's state and clock, and \<open>redis_leases\<close> is what their documentation promises of GET,
  SET NX PX, PEXPIRE and DEL. \<open>map_redis\<close> is one such server.

  The two Lua scripts and one turn of the loops of Run and runAsLeader are definitions; the
  interleaving of all instances with the clock is the relation \<open>leader_step\<close>.
\<close>

record 'r redis =
  rd_get :: "'r \<Rightarrow> int \<Rightarrow> string \<Rightarrow> string option"
  rd_set_nx :: "'r \<Rightarrow> int \<Rightarrow> string \<Rightarrow> string \<Rightarrow> int \<Rightarrow> 'r \<times> bool"
  rd_pexpire :: "'r \<Rightarrow> int \<Rightarrow> string \<Rightarrow> int \<Rightarrow> 'r"
  rd_del :: "'r \<Rightarrow> int \<Rightarrow> string \<Rightarrow> 'r"

definition redis_leases :: "'r redis \<Rightarrow> bool" where
  "redis_leases R \<longleftrightarrow>
     (\<forall>s now k v ttl t j. now \<le> t \<longrightarrow>
        snd (rd_set_nx R s now k v ttl) = (rd_get R s now k = None) \<and>
        rd_get R (fst (rd_set_nx R s now k v ttl)) t j =
          (if j = k \<and> rd_get R s now k = None then (if t < now + ttl then Some v else None)
           else rd_get R s t j) \<and>
        rd_get R (rd_pexpire R s now k ttl) t j =
          (if j = k then (if t < now + ttl then rd_get R s now k else None) else rd_get R s t j) \<and>
        rd_get R (rd_del R s now k) t j = (if j = k then None else rd_get R s t j))"

lemma redis_nx: "redis_leases R \<Longrightarrow> snd (rd_set_nx R s now k v ttl) = (rd_get R s now k = None)"
  unfolding redis_leases_def by blast

lemma redis_leasesD:
  assumes "redis_leases R" and "now \<le> t"
  shows "rd_get R (fst (rd_set_nx R s now k v ttl)) t j =
      (if j = k \<and> rd_get R s now k = None then (if t < now + ttl then Some v else None) else rd_get R s t j)"
    and "rd_get R (rd_pexpire R s now k ttl) t j =
      (if j = k then (if t < now + ttl then rd_get R s now k else None) else rd_get R s t j)"
    and "rd_get R (rd_del R s now k) t j = (if j = k then None else rd_get R s t j)"
  using assms unfolding redis_leases_def by blast+

text \<open>A server that keeps, for each key, its value and when it ends.\<close>

definition map_get :: "(string \<rightharpoonup> string \<times> int) \<Rightarrow> int \<Rightarrow> string \<Rightarrow> string option" where
  "map_get m now k = (case m k of None \<Rightarrow> None | Some (v, e) \<Rightarrow> if now < e then Some v else None)"

definition map_redis :: "(string \<rightharpoonup> string \<times> int) redis" where
  "map_redis =
     \<lparr>rd_get = map_get,
      rd_set_nx = (\<lambda>m now k v ttl. if map_get m now k = None then (m(k \<mapsto> (v, now + ttl)), True) else (m, False)),
      rd_pexpire = (\<lambda>m now k ttl. case map_get m now k of None \<Rightarrow> m(k := None) | Some v \<Rightarrow> m(k \<mapsto> (v, now + ttl))),
      rd_del = (\<lambda>m now k. m(k := None))\<rparr>"

lemma map_redis_leases: "redis_leases map_redis"
  by (auto simp: redis_leases_def map_redis_def map_get_def split: option.splits if_splits)

subsection \<open>What one instance does\<close>

definition leader_key :: "string \<Rightarrow> string" where
  "leader_key job = ''ha:leader:'' @ job"

definition leader_acquire :: "'r redis \<Rightarrow> 'r \<Rightarrow> int \<Rightarrow> string \<Rightarrow> string \<Rightarrow> int \<Rightarrow> 'r \<times> bool" where
  "leader_acquire R s now job self ttl = rd_set_nx R s now (leader_key job) self ttl"

definition renew_lua :: "'r redis \<Rightarrow> 'r \<Rightarrow> int \<Rightarrow> string \<Rightarrow> string \<Rightarrow> int \<Rightarrow> 'r \<times> int" where
  "renew_lua R s now key self ms =
     (if rd_get R s now key = Some self then (rd_pexpire R s now key ms, 1) else (s, 0))"

definition release_lua :: "'r redis \<Rightarrow> 'r \<Rightarrow> int \<Rightarrow> string \<Rightarrow> string \<Rightarrow> 'r \<times> int" where
  "release_lua R s now key self =
     (if rd_get R s now key = Some self then (rd_del R s now key, 1) else (s, 0))"

definition leader_renew :: "'r redis \<Rightarrow> 'r \<Rightarrow> int \<Rightarrow> string \<Rightarrow> string \<Rightarrow> int \<Rightarrow> 'r \<times> bool" where
  "leader_renew R s now job self ttl =
     (case renew_lua R s now (leader_key job) self ttl of (s, n) \<Rightarrow> (s, n = 1))"

definition leader_release :: "'r redis \<Rightarrow> 'r \<Rightarrow> int \<Rightarrow> string \<Rightarrow> string \<Rightarrow> 'r" where
  "leader_release R s now job self = fst (release_lua R s now (leader_key job) self)"

text \<open>
  Where an instance is: outside, in runAsLeader with the time its lease was last taken or
  renewed, or past the end of its leadership with \<open>fn\<close> still returning (\<open>cancel(); <-done\<close>).
\<close>

datatype role = Standby | Leading int | Stopping

record 'r cluster =
  cu_redis :: 'r
  cu_now :: int
  cu_role :: "string \<Rightarrow> role"

definition set_role :: "string \<Rightarrow> role \<Rightarrow> 'r cluster \<Rightarrow> 'r cluster" where
  "set_role i ro c = c\<lparr>cu_role := (cu_role c)(i := ro)\<rparr>"

definition try_lead :: "'r redis \<Rightarrow> string \<Rightarrow> int \<Rightarrow> string \<Rightarrow> 'r cluster \<Rightarrow> 'r cluster" where
  "try_lead R job ttl i c =
     (case leader_acquire R (cu_redis c) (cu_now c) job i ttl of
        (s, ok) \<Rightarrow> if ok then set_role i (Leading (cu_now c)) (c\<lparr>cu_redis := s\<rparr>) else c\<lparr>cu_redis := s\<rparr>)"

definition renew_tick :: "'r redis \<Rightarrow> string \<Rightarrow> int \<Rightarrow> string \<Rightarrow> 'r cluster \<Rightarrow> 'r cluster" where
  "renew_tick R job ttl i c =
     (case leader_renew R (cu_redis c) (cu_now c) job i ttl of
        (s, held) \<Rightarrow> set_role i (if held then Leading (cu_now c) else Stopping) (c\<lparr>cu_redis := s\<rparr>))"

definition give_up :: "'r redis \<Rightarrow> string \<Rightarrow> string \<Rightarrow> role \<Rightarrow> 'r cluster \<Rightarrow> 'r cluster" where
  "give_up R job i ro c =
     set_role i ro (c\<lparr>cu_redis := leader_release R (cu_redis c) (cu_now c) job i\<rparr>)"

text \<open>
  The turns of an instance. \<open>finish\<close> is \<open>case <-done\<close> (fn has returned, then the key is
  released), \<open>shutdown\<close> is \<open>case <-ctx.Done()\<close> (the key is released, then fn is waited for),
  \<open>stopped\<close> is the end of that wait. A command that fails leaves the server as it is; a
  reply lost after its command ran is that command's step followed by \<open>renew_error\<close> or
  \<open>finish_error\<close>.
\<close>

inductive leader_step :: "'r redis \<Rightarrow> string \<Rightarrow> int \<Rightarrow> 'r cluster \<Rightarrow> 'r cluster \<Rightarrow> bool"
  for R job ttl where
  time: "cu_now c \<le> t \<Longrightarrow> leader_step R job ttl c (c\<lparr>cu_now := t\<rparr>)"
| acquire: "cu_role c i = Standby \<Longrightarrow> leader_step R job ttl c (try_lead R job ttl i c)"
| renew: "cu_role c i = Leading t \<Longrightarrow> leader_step R job ttl c (renew_tick R job ttl i c)"
| renew_error: "cu_role c i = Leading t \<Longrightarrow> leader_step R job ttl c (set_role i Stopping c)"
| finish: "cu_role c i = Leading t \<Longrightarrow> leader_step R job ttl c (give_up R job i Standby c)"
| finish_error: "cu_role c i = Leading t \<Longrightarrow> leader_step R job ttl c (set_role i Standby c)"
| shutdown: "cu_role c i = Leading t \<Longrightarrow> leader_step R job ttl c (give_up R job i Stopping c)"
| stopped: "cu_role c i = Stopping \<Longrightarrow> leader_step R job ttl c (set_role i Standby c)"

inductive leader_reach :: "'r redis \<Rightarrow> string \<Rightarrow> int \<Rightarrow> 'r cluster \<Rightarrow> bool" for R job ttl where
  start: "(\<And>i. cu_role c i = Standby) \<Longrightarrow> leader_reach R job ttl c"
| step: "leader_reach R job ttl c \<Longrightarrow> leader_step R job ttl c c' \<Longrightarrow> leader_reach R job ttl c'"

inductive_cases leader_stepE: "leader_step R job ttl c c'"

subsection \<open>At most one instance holds a lease that has not run out\<close>

definition leads_now :: "int \<Rightarrow> 'r cluster \<Rightarrow> string \<Rightarrow> bool" where
  "leads_now ttl c i \<longleftrightarrow> (\<exists>t. cu_role c i = Leading t \<and> cu_now c < t + ttl)"

definition runs_job :: "'r cluster \<Rightarrow> string \<Rightarrow> bool" where
  "runs_job c i \<longleftrightarrow> cu_role c i \<noteq> Standby"

definition leases_ok :: "'r redis \<Rightarrow> string \<Rightarrow> int \<Rightarrow> 'r cluster \<Rightarrow> bool" where
  "leases_ok R job ttl c \<longleftrightarrow>
     (\<forall>i t u. cu_role c i = Leading t \<longrightarrow> cu_now c \<le> u \<longrightarrow> u < t + ttl \<longrightarrow>
        rd_get R (cu_redis c) u (leader_key job) = Some i)"

lemma leases_okD:
  "leases_ok R job ttl c \<Longrightarrow> cu_role c i = Leading t \<Longrightarrow> cu_now c \<le> u \<Longrightarrow> u < t + ttl \<Longrightarrow>
    rd_get R (cu_redis c) u (leader_key job) = Some i"
  by (simp add: leases_ok_def)

text \<open>A lease of another instance that still runs is the key's value now.\<close>

lemma other_lease_over:
  assumes "leases_ok R job ttl c" and "rd_get R (cu_redis c) (cu_now c) (leader_key job) \<noteq> Some j"
    and "cu_role c j = Leading t"
  shows "t + ttl \<le> cu_now c"
  using assms(1,2) leases_okD [OF assms(1,3), of "cu_now c"] by linarith

text \<open>So it is enough to look at the one whose key it is.\<close>

lemma sole_lease:
  assumes "\<And>j t. cu_role c j = Leading t \<Longrightarrow> j \<noteq> i \<Longrightarrow> t + ttl \<le> cu_now c"
    and "\<And>t u. cu_role c i = Leading t \<Longrightarrow> cu_now c \<le> u \<Longrightarrow> u < t + ttl \<Longrightarrow>
      rd_get R (cu_redis c) u (leader_key job) = Some i"
  shows "leases_ok R job ttl c"
  unfolding leases_ok_def
proof (intro allI impI)
  fix j t u
  assume j: "cu_role c j = Leading t" "cu_now c \<le> u" "u < t + ttl"
  then have "j = i" using assms(1) [OF j(1)] by linarith
  with assms(2) j show "rd_get R (cu_redis c) u (leader_key job) = Some j" by blast
qed

lemma leader_release_kept:
  assumes R: "redis_leases R" and ok: "leases_ok R job ttl c" and ro: "\<And>t. ro \<noteq> Leading t"
  shows "leases_ok R job ttl (give_up R job i ro c)"
proof (cases "rd_get R (cu_redis c) (cu_now c) (leader_key job) = Some i")
  case True
  have "t + ttl \<le> cu_now c" if "cu_role c j = Leading t" "j \<noteq> i" for j t
    using other_lease_over [OF ok _ that(1)] True that(2) by simp
  then show ?thesis
    using ro by (intro sole_lease [where i = i]) (simp_all add: give_up_def set_role_def)
next
  case False
  then show ?thesis using ok ro
    by (auto simp: leases_ok_def give_up_def leader_release_def release_lua_def set_role_def)
qed

lemma leases_kept [keeps]:
  assumes "leader_step R job ttl c c'" and R: "redis_leases R" and ok: "leases_ok R job ttl c"
  shows "leases_ok R job ttl c'"
  using assms(1)
proof cases
  case (time t)
  then show ?thesis using ok by (simp add: leases_ok_def)
next
  case (acquire i)
  show ?thesis
  proof (cases "rd_get R (cu_redis c) (cu_now c) (leader_key job) = None")
    case True
    have "t + ttl \<le> cu_now c" if "cu_role c j = Leading t" for j t
      using other_lease_over [OF ok _ that] True by simp
    then show ?thesis
      by (intro sole_lease [where i = i])
        (auto simp: acquire try_lead_def leader_acquire_def set_role_def True redis_nx [OF R] redis_leasesD [OF R] split_beta)
  next
    case False
    have "rd_get R (fst (leader_acquire R (cu_redis c) (cu_now c) job i ttl)) u (leader_key job) =
        rd_get R (cu_redis c) u (leader_key job)" if "cu_now c \<le> u" for u
      using False by (auto simp: leader_acquire_def redis_leasesD(1) [OF R that])
    moreover have "\<not> snd (leader_acquire R (cu_redis c) (cu_now c) job i ttl)"
      using False by (simp add: leader_acquire_def redis_nx [OF R])
    ultimately show ?thesis
      using ok by (auto simp: leases_ok_def acquire try_lead_def split_beta)
  qed
next
  case (renew i t)
  show ?thesis
  proof (cases "rd_get R (cu_redis c) (cu_now c) (leader_key job) = Some i")
    case True
    have "t + ttl \<le> cu_now c" if "cu_role c j = Leading t" "j \<noteq> i" for j t
      using other_lease_over [OF ok _ that(1)] True that(2) by simp
    then show ?thesis
      by (intro sole_lease [where i = i])
        (auto simp: renew renew_tick_def leader_renew_def renew_lua_def set_role_def True redis_leasesD [OF R])
  next
    case False
    then show ?thesis using ok
      by (auto simp: leases_ok_def renew renew_tick_def leader_renew_def renew_lua_def set_role_def)
  qed
next
  case (renew_error i t)
  then show ?thesis using ok by (simp add: leases_ok_def set_role_def)
next
  case (finish_error i t)
  then show ?thesis using ok by (simp add: leases_ok_def set_role_def)
next
  case (stopped i)
  then show ?thesis using ok by (simp add: leases_ok_def set_role_def)
next
  case (finish i t)
  then show ?thesis using leader_release_kept [OF R ok] by simp
next
  case (shutdown i t)
  then show ?thesis using leader_release_kept [OF R ok] by simp
qed

lemma reach_leases: "leader_reach R job ttl c \<Longrightarrow> redis_leases R \<Longrightarrow> leases_ok R job ttl c"
proof (induction rule: leader_reach.induct)
  case (start c)
  then show ?case by (simp add: leases_ok_def)
next
  case (step c c')
  then show ?case by (blast intro: leases_kept)
qed

lemma one_leader:
  assumes "leases_ok R job ttl c" and "leads_now ttl c i" and "leads_now ttl c j"
  shows "i = j"
proof -
  have "rd_get R (cu_redis c) (cu_now c) (leader_key job) = Some k" if "leads_now ttl c k" for k
    using that leases_okD [OF assms(1)] by (auto simp: leads_now_def)
  from this [OF assms(2)] this [OF assms(3)] show ?thesis by simp
qed

text \<open>
  On shutdown the key is released before fn has returned, so another instance may start the
  job while this one is still in it.
\<close>

definition two_up :: "(string \<rightharpoonup> string \<times> int) cluster" where
  "two_up = \<lparr>cu_redis = Map.empty, cu_now = 0, cu_role = (\<lambda>_. Standby)\<rparr>"

lemma leader_overlap_reached:
  "\<exists>c. leader_reach map_redis ''job'' 30 c \<and> runs_job c ''a'' \<and> runs_job c ''b''"
proof -
  let ?c1 = "try_lead map_redis ''job'' 30 ''a'' two_up"
  let ?c2 = "give_up map_redis ''job'' ''a'' Stopping ?c1"
  let ?c3 = "try_lead map_redis ''job'' 30 ''b'' ?c2"
  have r1: "cu_role ?c1 ''a'' = Leading 0" by code_simp
  have r2: "cu_role ?c2 ''b'' = Standby" by code_simp
  have "leader_reach map_redis ''job'' 30 two_up" by (rule leader_reach.start) (simp add: two_up_def)
  then have "leader_reach map_redis ''job'' 30 ?c1"
    by (rule leader_reach.step) (rule leader_step.acquire, simp add: two_up_def)
  then have "leader_reach map_redis ''job'' 30 ?c2"
    by (rule leader_reach.step) (rule leader_step.shutdown [OF r1])
  then have "leader_reach map_redis ''job'' 30 ?c3"
    by (rule leader_reach.step) (rule leader_step.acquire [OF r2])
  moreover have "cu_role ?c3 ''a'' = Stopping" by code_simp
  moreover have "cu_role ?c3 ''b'' = Leading 0" by code_simp
  ultimately show ?thesis by (auto simp: runs_job_def)
qed

end
