(* ===== verification/Fee_Settings.thy ===== *)
theory Fee_Settings
  imports Retry_Policy
begin

section \<open>The fees Lens runs with (internal/fees/fees.go)\<close>

text \<open>
  Load reads every fee from the environment, an unset one taking its default. \<open>getenv\<close> is the
  environment; \<open>json\<close> stands for \<open>json.Unmarshal\<close> into a \<open>map[string]int64\<close> and answers the
  object's entries, or \<open>None\<close> for what is not such an object. Go ranges over the entries in an
  order of its own, which decides only the key an error names.
\<close>

record fee_settings =
  fs_market :: int
  fs_services :: int
  fs_compute :: int
  fs_lending :: int
  fs_platform :: "string \<rightharpoonup> int"
  fs_fx_margin :: "string \<rightharpoonup> int"
  fs_intl_payment :: "string \<rightharpoonup> int"
  fs_merchant :: int
  fs_merchant_a2a :: int

datatype fee_error = BadBps string | BadFeeMap string | FeeOutside string

definition bps_denominator :: int where "bps_denominator = 10000"

definition default_fees :: fee_settings where
  "default_fees =
     \<lparr>fs_market = 1500, fs_services = 500, fs_compute = 500, fs_lending = 100,
      fs_platform = [''free'' \<mapsto> 550, ''team'' \<mapsto> 300, ''business'' \<mapsto> 100, ''enterprise'' \<mapsto> 100],
      fs_fx_margin = [''free'' \<mapsto> 0, ''team'' \<mapsto> 50, ''business'' \<mapsto> 25, ''enterprise'' \<mapsto> 15],
      fs_intl_payment = [''GBP'' \<mapsto> 500, ''EUR'' \<mapsto> 600, ''USD'' \<mapsto> 700],
      fs_merchant = 75, fs_merchant_a2a = 100\<rparr>"

definition read_bps :: "string \<Rightarrow> string \<Rightarrow> int \<Rightarrow> fee_error + int" where
  "read_bps name v old =
     (let v = trim_space v
      in if v = '''' then Inr old
         else case parse_int64 v of
             None \<Rightarrow> Inl (BadBps name)
           | Some n \<Rightarrow> if n < 0 \<or> n > bps_denominator then Inl (BadBps name) else Inr n)"

definition read_fee_map ::
    "(string \<Rightarrow> (string \<times> int) list option) \<Rightarrow> string \<Rightarrow> string \<Rightarrow> int \<Rightarrow> (string \<rightharpoonup> int) \<Rightarrow>
      fee_error + (string \<rightharpoonup> int)" where
  "read_fee_map json name v ceil old =
     (let v = trim_space v
      in if v = '''' then Inr old
         else case json v of
             None \<Rightarrow> Inl (BadFeeMap name)
           | Some m \<Rightarrow>
               if m = [] then Inl (BadFeeMap name)
               else if list_ex (\<lambda>(k, n). n < 0 \<or> (ceil \<ge> 0 \<and> n > ceil)) m then Inl (FeeOutside name)
               else Inr (map_of m))"

definition load_fees ::
    "(string \<Rightarrow> (string \<times> int) list option) \<Rightarrow> (string \<Rightarrow> string) \<Rightarrow> fee_error + fee_settings" where
  "load_fees json getenv =
     (let s = default_fees
      in rbind (read_bps ''LENS_MARKET_TAKE_BPS'' (getenv ''LENS_MARKET_TAKE_BPS'') (fs_market s)) (\<lambda>n.
         let s = s\<lparr>fs_market := n\<rparr> in
         rbind (read_bps ''LENS_SERVICES_TAKE_BPS'' (getenv ''LENS_SERVICES_TAKE_BPS'') (fs_services s)) (\<lambda>n.
         let s = s\<lparr>fs_services := n\<rparr> in
         rbind (read_bps ''LENS_COMPUTE_TAKE_BPS'' (getenv ''LENS_COMPUTE_TAKE_BPS'') (fs_compute s)) (\<lambda>n.
         let s = s\<lparr>fs_compute := n\<rparr> in
         rbind (read_bps ''LENS_LENDING_FEE_BPS'' (getenv ''LENS_LENDING_FEE_BPS'') (fs_lending s)) (\<lambda>n.
         let s = s\<lparr>fs_lending := n\<rparr> in
         rbind (read_bps ''LENS_MERCHANT_FEE_BPS'' (getenv ''LENS_MERCHANT_FEE_BPS'') (fs_merchant s)) (\<lambda>n.
         let s = s\<lparr>fs_merchant := n\<rparr> in
         rbind (read_bps ''LENS_MERCHANT_A2A_FEE_BPS'' (getenv ''LENS_MERCHANT_A2A_FEE_BPS'') (fs_merchant_a2a s)) (\<lambda>n.
         let s = s\<lparr>fs_merchant_a2a := n\<rparr> in
         rbind (read_fee_map json ''LENS_PLATFORM_FEE_BPS'' (getenv ''LENS_PLATFORM_FEE_BPS'') bps_denominator
             (fs_platform s)) (\<lambda>m.
         let s = s\<lparr>fs_platform := m\<rparr> in
         rbind (read_fee_map json ''LENS_FX_MARGIN_BPS'' (getenv ''LENS_FX_MARGIN_BPS'') bps_denominator
             (fs_fx_margin s)) (\<lambda>m.
         let s = s\<lparr>fs_fx_margin := m\<rparr> in
         rbind (read_fee_map json ''LENS_INTL_PAYMENT_FEE_MINOR'' (getenv ''LENS_INTL_PAYMENT_FEE_MINOR'') (- 1)
             (fs_intl_payment s)) (\<lambda>m. Inr (s\<lparr>fs_intl_payment := m\<rparr>)))))))))))"

subsection \<open>Every fee that is loaded is in range\<close>

definition bps_ok :: "int \<Rightarrow> bool" where
  "bps_ok n \<longleftrightarrow> 0 \<le> n \<and> n \<le> bps_denominator"

definition fees_ok :: "fee_settings \<Rightarrow> bool" where
  "fees_ok s \<longleftrightarrow> bps_ok (fs_market s) \<and> bps_ok (fs_services s) \<and> bps_ok (fs_compute s) \<and>
     bps_ok (fs_lending s) \<and> bps_ok (fs_merchant s) \<and> bps_ok (fs_merchant_a2a s) \<and>
     (\<forall>n \<in> ran (fs_platform s). bps_ok n) \<and> (\<forall>n \<in> ran (fs_fx_margin s). bps_ok n) \<and>
     (\<forall>n \<in> ran (fs_intl_payment s). 0 \<le> n)"

lemma read_bps_ok: "read_bps name v old = Inr n \<Longrightarrow> bps_ok old \<Longrightarrow> bps_ok n"
  by (auto simp: read_bps_def bps_ok_def Let_def split: if_splits option.splits)

lemma read_fee_map_ok:
  assumes "read_fee_map json name v ceil old = Inr m" and "n \<in> ran m" and "n \<notin> ran old"
  shows "0 \<le> n \<and> (0 \<le> ceil \<longrightarrow> n \<le> ceil)"
proof -
  from assms obtain es where es: "m = map_of es" "\<not> list_ex (\<lambda>(k, n). n < 0 \<or> (ceil \<ge> 0 \<and> n > ceil)) es"
    by (auto simp: read_fee_map_def Let_def split: if_splits option.splits)
  from assms(2) obtain k where "(k, n) \<in> set es" by (auto simp: es(1) ran_def dest: map_of_SomeD)
  with es(2) show ?thesis by (fastforce simp: list_ex_iff)
qed

lemma fee_map_bps:
  assumes "read_fee_map json name v bps_denominator old = Inr m" and "\<forall>n \<in> ran old. bps_ok n"
  shows "\<forall>n \<in> ran m. bps_ok n"
  using read_fee_map_ok [OF assms(1)] assms(2) by (fastforce simp: bps_ok_def bps_denominator_def)

lemma fee_map_minor:
  assumes "read_fee_map json name v (- 1) old = Inr m" and "\<forall>n \<in> ran old. 0 \<le> n"
  shows "\<forall>n \<in> ran m. (0 :: int) \<le> n"
  using read_fee_map_ok [OF assms(1)] assms(2) by blast

lemma ran_upd: "ran (m(k \<mapsto> v)) \<subseteq> insert v (ran m)"
  by (auto simp: ran_def)

lemma default_fees_ok: "fees_ok default_fees"
  by (auto simp: fees_ok_def default_fees_def bps_ok_def bps_denominator_def dest!: subsetD [OF ran_upd])

lemma load_fees_ok:
  assumes "load_fees json getenv = Inr s"
  shows "fees_ok s"
proof -
  have d: "fees_ok default_fees" by (rule default_fees_ok)
  then show ?thesis
    using assms unfolding load_fees_def Let_def fees_ok_def
    by (elim rbind_InrE conjE) (auto dest!: read_bps_ok fee_map_bps fee_map_minor)
qed

text \<open>An environment that sets nothing gives the defaults.\<close>

lemma load_fees_unset: "(\<And>n. trim_space (getenv n) = '''') \<Longrightarrow> load_fees json getenv = Inr default_fees"
  by (simp add: load_fees_def read_bps_def read_fee_map_def default_fees_def)

end
