(* ===== verification/Sample_Serving.thy ===== *)
theory Sample_Serving
  imports Serving_Guards Retry_Policy Rate_Limits Leader_Election Fee_Settings
begin

section \<open>Sample states of the serving layer\<close>

text \<open>
  Concrete pools, breakers, requests and clusters that the properties of the serving layer are
  applied to: a pool of three OpenAI keys, one of them benched, a breaker with a threshold of
  two, an upstream that answers 503 to OpenAI and 200 to everyone else, and two instances.
\<close>

definition sample_key :: "string \<Rightarrow> bool \<Rightarrow> pool_key" where
  "sample_key i healthy = (new_key i ''openai'' (''sk-'' @ i) i 0)\<lparr>pk_healthy := healthy\<rparr>"

definition sample_pool :: pool where
  "sample_pool = \<lparr>pl_keys = [(''openai'', [sample_key ''k1'' True, sample_key ''k2'' False, sample_key ''k3'' True])],
     pl_counter = (\<lambda>_. 1)\<rparr>"

lemma sample_pool_facts:
  "keys_of sample_pool ''openai'' = [sample_key ''k1'' True, sample_key ''k2'' False, sample_key ''k3'' True]"
  "pk_healthy (sample_key i h) = h" "pk_id (sample_key i h) = i"
  by (simp_all add: sample_pool_def keys_of_def sample_key_def new_key_def)

definition sample_breaker :: breaker where
  "sample_breaker = set_on_state_change True (new_breaker ''openai'' 2 1000 1)"

definition tripped_breaker :: breaker where
  "tripped_breaker = fst (breaker_run [Failure 10, Failure 20] sample_breaker)"

lemma tripped_gate: "gate_of tripped_breaker = Tripped (Some 20)" "cb_reset tripped_breaker = 1000"
  by (simp_all add: tripped_breaker_def sample_breaker_def set_on_state_change_def new_breaker_def gate_of_def
      breaker_defs Let_def)

definition sample_upstream :: "(string, string) upstream" where
  "sample_upstream =
     \<lparr>up_set_model = (\<lambda>b m. m), up_build = (\<lambda>c b. Inr b),
      up_forward = (\<lambda>i c b m. if pc_name c = ''openai'' then (503, ''busy'', None) else (200, ''answer'', None)),
      up_parse = (\<lambda>c b m. None), up_now = int\<rparr>"

definition sample_own :: "string \<Rightarrow> string" where
  "sample_own p = (if p = ''openai'' then ''own-o'' else if p = ''anthropic'' then ''own-a'' else '''')"

definition flaky :: "string surroundings" where
  "flaky = \<lparr>sr_answer = (\<lambda>n. if n < 2 then (''busy'', 503, None) else (''answer'', 200, None)),
     sr_allow_at = (\<lambda>n. int n), sr_record_at = (\<lambda>n. int n), sr_others = (\<lambda>n b. b), sr_cancelled = (\<lambda>n. False)\<rparr>"

definition broken :: "string surroundings" where
  "broken = flaky\<lparr>sr_answer := (\<lambda>n. (''bad request'', 400, None))\<rparr>"

definition three_tries :: retry_policy where
  "three_tries = \<lparr>rp_max_attempts = 3, rp_max_delay = 30 * second_ns\<rparr>"

definition one_leader_up :: "(string \<rightharpoonup> string \<times> int) cluster" where
  "one_leader_up = try_lead map_redis ''job'' 30 ''a'' two_up"

lemma one_leader_reached: "leader_reach map_redis ''job'' 30 one_leader_up"
proof -
  have "leader_reach map_redis ''job'' 30 two_up" by (rule leader_reach.start) (simp add: two_up_def)
  then show ?thesis
    unfolding one_leader_up_def by (rule leader_reach.step) (rule leader_step.acquire, simp add: two_up_def)
qed

definition empty_fleet :: fleet where
  "empty_fleet = \<lparr>fl_local = (\<lambda>_. Map.empty), fl_count = 0, fl_let = 0\<rparr>"

definition sample_rate_rules :: "rate_rule list" where
  "sample_rate_rules = default_rate_rules @ [no_rule\<lparr>ru_workspace := ''w'', ru_per_minute := 5\<rparr>]"

section \<open>Corner cases the code takes\<close>

text \<open>A call that cannot be retried ends the executor's loop, which still reports every attempt.\<close>

lemma attempts_overreported:
  "case execute three_tries (\<lambda>_. 0) broken (new_registry 0 0 0) ''openai'' of
     (_, (res, err), calls) \<Rightarrow> calls = 1 \<and> er_attempts res = 3"
  by code_simp

text \<open>A Retry-After of 9223372037 seconds overflows a duration and is not waited for at all.\<close>

lemma retry_after_wraps:
  "response_wait \<lparr>rs_status = 429, rs_retry_after = ''9223372037''\<rparr> = Some (- 9223372036709551616)"
  "sleep_with_context (\<lambda>_. None) (- 9223372036709551616) = (0, True)"
  by code_simp+

text \<open>The rule for every workspace and key scores nothing and is the one that is enforced.\<close>

lemma global_rule_applies: "match_rule default_rate_rules ''w'' ''k'' = hd default_rate_rules"
  by code_simp

text \<open>A request that Gemini's translator refuses is counted against the pooled key it was given.\<close>

definition google_pool :: pool where
  "google_pool = \<lparr>pl_keys = [(''google'', [new_key ''g1'' ''google'' ''gk'' ''g'' 0])], pl_counter = (\<lambda>_. 0)\<rparr>"

definition refusing_upstream :: "(string, string) upstream" where
  "refusing_upstream = sample_upstream\<lparr>up_build := (\<lambda>c b. Inl ''bad body'')\<rparr>"

lemma untranslatable_benches_key:
  "case forward_with_fallback refusing_upstream None (Some google_pool) None ''google'' ''gemini'' ''x'' of
     (Some p, trace, _) \<Rightarrow> trace = [] \<and> map pk_healthy (keys_of p ''google'') = [False]
   | (None, _, _) \<Rightarrow> False"
  by code_simp

end
