(* ===== verification/Agent_Statements.thy ===== *)
theory Agent_Statements
  imports Deal_System
begin

section \<open>Statements of agents' accounts (agent_payments.go, agent_statements.go)\<close>

text \<open>
  \<open>read_agent_statement\<close> is an account's newest lines, each with the balance it left;
  \<open>period_statement\<close> is the totals and the lines of one account, or of all a workspace has, over
  \<open>[from, to)\<close>, and the two statements built on it add the loans, escrows and pots of the period.
  A posting's id is its place in the table. The lemmas say what a statement's figures are and that
  a closed period's do not change.
\<close>

definition numbered :: "db \<Rightarrow> (nat \<times> posting) list" where
  "numbered d = zip [0..<length (postings d)] (postings d)"

text \<open>The account of another posting of the entry, the first by id.\<close>

definition counter_account :: "db \<Rightarrow> nat \<times> posting \<Rightarrow> account option" where
  "counter_account d p = map_option (\<lambda>q. po_account (snd q))
     (find (\<lambda>q. po_entry (snd q) = po_entry (snd p) \<and> fst q \<noteq> fst p) (numbered d))"

text \<open>Each posting with the balance it leaves on its account; \<open>sum(\<dots>) OVER\<close> with what was there before.\<close>

fun running_balances :: "(account \<Rightarrow> int) \<Rightarrow> (nat \<times> posting) list \<Rightarrow> ((nat \<times> posting) \<times> int) list" where
  "running_balances bal [] = []"
| "running_balances bal (p # ps) =
     (let x = bal (po_account (snd p)) + po_amount (snd p)
      in (p, x) # running_balances (bal(po_account (snd p) := x)) ps)"

definition line_label :: "posting \<Rightarrow> string" where
  "line_label p = (case po_fee_bps p of Some bps \<Rightarrow> if po_kind p = PkFee then fee_label bps else '''' | None \<Rightarrow> '''')"

subsection \<open>An account's newest lines\<close>

record agent_line =
  gl_entry :: nat
  gl_kind :: posting_kind
  gl_amount :: int
  gl_counterparty :: "account option"
  gl_ref :: string
  gl_after :: int
  gl_at :: int
  gl_label :: string

definition agent_line_of :: "db \<Rightarrow> (nat \<times> posting) \<times> int \<Rightarrow> agent_line" where
  "agent_line_of d l =
     (let p = snd (fst l)
      in \<lparr>gl_entry = po_entry p, gl_kind = po_kind p, gl_amount = po_amount p,
        gl_counterparty = counter_account d (fst l), gl_ref = po_ref p, gl_after = snd l, gl_at = po_at p,
        gl_label = line_label p\<rparr>)"

definition on_account :: "string \<Rightarrow> account option \<Rightarrow> posting \<Rightarrow> bool" where
  "on_account w acc p \<longleftrightarrow> po_ws p = w \<and> (case acc of None \<Rightarrow> True | Some a \<Rightarrow> po_account p = a)"

definition read_agent_statement :: "db \<Rightarrow> string \<Rightarrow> string \<Rightarrow> nat \<Rightarrow> err + agent_line list" where
  "read_agent_statement d w a limit =
     rbind (agent_exists d w a) (\<lambda>_.
       Inr (take limit (rev (map (agent_line_of d)
         (running_balances (\<lambda>_. 0) (filter (\<lambda>p. on_account w (Some (AgentAcc a)) (snd p)) (numbered d)))))))"

subsection \<open>A period\<close>

record statement_line =
  sl_id :: nat
  sl_entry :: nat
  sl_at :: int
  sl_account :: account
  sl_kind :: posting_kind
  sl_amount :: int
  sl_counterparty :: "account option"
  sl_ref :: string
  sl_after :: int
  sl_label :: string
  sl_memo :: string

record statement_account =
  sa_account :: account
  sa_opening :: int
  sa_in :: int
  sa_out :: int
  sa_closing :: int

record statement =
  st_ws :: string
  st_agent :: string
  st_from :: int
  st_to :: int
  st_accounts :: "statement_account list"
  st_lines :: "statement_line list"
  st_loans :: "(loan \<times> loan_event list) list"
  st_escrows :: "(escrow \<times> escrow_event list) list"
  st_pots :: "(pot \<times> int) list"

fun account_text :: "account \<Rightarrow> string" where
  "account_text WorkspaceAcc = ''workspace''"
| "account_text SpendAcc = ''spend''"
| "account_text CashedOutAcc = ''cashed_out''"
| "account_text (AgentAcc a) = ''agent:'' @ a"
| "account_text (PotAcc p) = ''pot:'' @ p"
| "account_text (EscrowAcc e) = ''escrow:'' @ e"

definition account_totals :: "posting list \<Rightarrow> int \<Rightarrow> account \<Rightarrow> statement_account" where
  "account_totals ps from a =
     (let opening = sum_where (\<lambda>p. po_account p = a \<and> po_at p < from) po_amount ps;
          inflow = sum_where (\<lambda>p. po_account p = a \<and> po_at p \<ge> from \<and> po_amount p > 0) po_amount ps;
          outflow = - sum_where (\<lambda>p. po_account p = a \<and> po_at p \<ge> from \<and> po_amount p < 0) po_amount ps
      in \<lparr>sa_account = a, sa_opening = opening, sa_in = inflow, sa_out = outflow,
        sa_closing = opening + inflow - outflow\<rparr>)"

definition opening_of :: "statement_account list \<Rightarrow> account \<Rightarrow> int" where
  "opening_of accs a = (case find (\<lambda>r. sa_account r = a) accs of None \<Rightarrow> 0 | Some r \<Rightarrow> sa_opening r)"

definition line_of :: "db \<Rightarrow> (nat \<times> posting) \<times> int \<Rightarrow> statement_line" where
  "line_of d l =
     (let p = snd (fst l)
      in \<lparr>sl_id = fst (fst l), sl_entry = po_entry p, sl_at = po_at p, sl_account = po_account p,
        sl_kind = po_kind p, sl_amount = po_amount p, sl_counterparty = counter_account d (fst l),
        sl_ref = po_ref p, sl_after = snd l, sl_label = line_label p, sl_memo = po_memo p\<rparr>)"

definition before :: "db \<Rightarrow> string \<Rightarrow> account option \<Rightarrow> int \<Rightarrow> (nat \<times> posting) list" where
  "before d w acc to = filter (\<lambda>p. on_account w acc (snd p) \<and> po_at (snd p) < to) (numbered d)"

definition period_accounts :: "db \<Rightarrow> string \<Rightarrow> account option \<Rightarrow> int \<Rightarrow> int \<Rightarrow> statement_account list" where
  "period_accounts d w acc from to =
     (let ps = map snd (before d w acc to)
      in map (account_totals ps from) (sort_key account_text (remdups (map po_account ps))))"

definition period_rows :: "db \<Rightarrow> string \<Rightarrow> account option \<Rightarrow> int \<Rightarrow> int \<Rightarrow> (nat \<times> posting) list" where
  "period_rows d w acc from to =
     sort_key (\<lambda>p. (po_at (snd p), fst p)) (filter (\<lambda>p. po_at (snd p) \<ge> from) (before d w acc to))"

definition period_statement :: "db \<Rightarrow> string \<Rightarrow> account option \<Rightarrow> int \<Rightarrow> int \<Rightarrow> statement" where
  "period_statement d w acc from to =
     (let accs = period_accounts d w acc from to
      in \<lparr>st_ws = w, st_agent = '''', st_from = from, st_to = to, st_accounts = accs,
        st_lines = map (line_of d) (running_balances (opening_of accs) (period_rows d w acc from to)),
        st_loans = [], st_escrows = [], st_pots = []\<rparr>)"

text \<open>The loans and escrows open in the period, with the events that fell in it; \<open>''''\<close> is every agent.\<close>

definition in_period :: "int \<Rightarrow> int \<Rightarrow> int \<Rightarrow> bool" where
  "in_period from to at \<longleftrightarrow> from \<le> at \<and> at < to"

definition by_then :: "int option \<Rightarrow> int \<Rightarrow> bool" where
  "by_then t from \<longleftrightarrow> (case t of None \<Rightarrow> False | Some t \<Rightarrow> t \<ge> from)"

definition statement_escrows :: "deals \<Rightarrow> string \<Rightarrow> string \<Rightarrow> int \<Rightarrow> int \<Rightarrow> (escrow \<times> escrow_event list) list" where
  "statement_escrows n w a from to =
     map (\<lambda>(e, es). (e, filter (\<lambda>x. in_period from to (ev_at x)) es))
       (map (with_events n) (sort_key (\<lambda>e. (- es_at e, es_id e))
         (filter (\<lambda>e. ((es_payer_ws e = w \<and> (a = '''' \<or> es_payer e = a)) \<or>
               (es_payee_ws e = w \<and> (a = '''' \<or> es_payee e = a))) \<and>
             es_at e < to \<and> (es_status e = EsHeld \<or> es_status e = EsDisputed \<or> by_then (es_decided e) from))
           (dl_escrows n))))"

definition statement_loans :: "deals \<Rightarrow> string \<Rightarrow> string \<Rightarrow> int \<Rightarrow> int \<Rightarrow> (loan \<times> loan_event list) list" where
  "statement_loans n w a from to =
     map (\<lambda>l. (l, filter (\<lambda>x. in_period from to (le_at x)) (loan_events_of n (ln_id l))))
       (sort_key (\<lambda>l. (- ln_offered l, ln_id l))
         (filter (\<lambda>l. ((ln_lender_ws l = w \<and> (a = '''' \<or> ln_lender l = a)) \<or>
               (ln_borrower_ws l = w \<and> (a = '''' \<or> ln_borrower l = a))) \<and>
             ln_offered l < to \<and>
             (ln_status l = LnOffered \<or> ln_status l = LnActive \<or> ln_status l = LnLate \<or> by_then (ln_decided l) from \<or>
              list_ex (\<lambda>x. le_at x \<ge> from) (loan_events_of n (ln_id l))))
           (dl_loans n)))"

definition agent_period_statement :: "deals \<Rightarrow> string \<Rightarrow> string \<Rightarrow> int \<Rightarrow> int \<Rightarrow> err + statement" where
  "agent_period_statement n w a from to =
     rbind (agent_exists (dl_db n) w a) (\<lambda>_.
       let st = period_statement (dl_db n) w (Some (AgentAcc a)) from to
       in Inr (st\<lparr>st_agent := a,
            st_accounts := (if st_accounts st = [] then [\<lparr>sa_account = AgentAcc a, sa_opening = 0, sa_in = 0,
              sa_out = 0, sa_closing = 0\<rparr>] else st_accounts st),
            st_loans := statement_loans n w a from to, st_escrows := statement_escrows n w a from to,
            st_pots := pots_at (dl_db n) w a '''' to\<rparr>))"

definition workspace_agent_statement :: "deals \<Rightarrow> string \<Rightarrow> int \<Rightarrow> int \<Rightarrow> statement" where
  "workspace_agent_statement n w from to =
     (period_statement (dl_db n) w None from to)
       \<lparr>st_loans := statement_loans n w '''' from to, st_escrows := statement_escrows n w '''' from to\<rparr>"

subsection \<open>What the running balances are\<close>

lemma map_snd_numbered: "map snd (numbered d) = postings d"
  by (simp add: numbered_def)

lemma map_snd_filter_numbered: "map snd (filter (\<lambda>p. P (snd p)) (numbered d)) = filter P (postings d)"
proof -
  have "map snd (filter (\<lambda>p. P (snd p)) (zip [m..<m + length ps] ps)) = filter P ps" for m ps
  proof (induction ps arbitrary: m)
    case (Cons p ps)
    have "[m..<m + length (p # ps)] = m # [Suc m..<Suc m + length ps]" by (simp add: upt_conv_Cons del: upt_Suc)
    then show ?case using Cons.IH [of "Suc m"] by (simp del: upt_Suc)
  qed simp
  from this [of 0] show ?thesis by (simp add: numbered_def)
qed

lemma running_rows: "map fst (running_balances bal ps) = ps"
  by (induction ps arbitrary: bal) (simp_all add: Let_def)

lemma running_after:
  "i < length ps \<Longrightarrow> snd (running_balances bal ps ! i) = bal (po_account (snd (ps ! i))) +
     sum_where (\<lambda>p. po_account p = po_account (snd (ps ! i))) po_amount (map snd (take (Suc i) ps))"
proof (induction ps arbitrary: bal i)
  case (Cons p ps)
  then show ?case by (cases i) (simp_all add: Let_def)
qed simp

lemma length_running [simp]: "length (running_balances bal ps) = length ps"
  by (metis length_map running_rows)

lemma agent_rows: "on_account w (Some b) = (\<lambda>p. po_ws p = w \<and> po_account p = b)"
  by (simp add: on_account_def fun_eq_iff)

text \<open>The newest line of an account shows what the account holds, and each line the one before it and its amount.\<close>

lemma statement_newest:
  assumes st: "stored_ok d w" and r: "read_agent_statement d w a limit = Inr ls" and lim: "0 < limit"
  shows "(case ls of [] \<Rightarrow> 0 | l # _ \<Rightarrow> gl_after l) = account_balance d w (AgentAcc a)"
proof -
  define ps where "ps = filter (\<lambda>p. on_account w (Some (AgentAcc a)) (snd p)) (numbered d)"
  have ls: "ls = take limit (rev (map (agent_line_of d) (running_balances (\<lambda>_. 0) ps)))"
    using r by (auto simp: read_agent_statement_def ps_def)
  have bal: "account_balance d w (AgentAcc a) = sum_list (map po_amount (map snd ps))"
    unfolding ps_def map_snd_filter_numbered using st by (simp add: stored_ok_def posted_def sum_where_def agent_rows)
  show ?thesis
  proof (cases ps rule: rev_cases)
    case Nil
    then show ?thesis using bal by (simp add: ls)
  next
    case (snoc qs q)
    let ?rs = "running_balances (\<lambda>_. 0) ps"
    have acc: "po_account (snd p) = AgentAcc a" if "p \<in> set ps" for p
      using that by (simp add: ps_def on_account_def)
    have n: "?rs \<noteq> []" using length_running [of "\<lambda>_. 0" ps] snoc by fastforce
    have "hd ls = agent_line_of d (last ?rs)"
      using lim n by (simp add: ls hd_take hd_rev last_map)
    moreover have "ls \<noteq> []" using lim n by (simp add: ls)
    moreover have "snd (last ?rs) = sum_where (\<lambda>p. po_account p = po_account (snd q)) po_amount (map snd ps)"
      using running_after [of "length ps - 1" ps "\<lambda>_. 0"] snoc n by (simp add: last_conv_nth nth_append)
    moreover have "sum_where (\<lambda>p. po_account p = po_account (snd q)) po_amount (map snd ps) = sum_list (map po_amount (map snd ps))"
      unfolding sum_where_def using acc snoc by (subst filter_True) auto
    ultimately show ?thesis using bal by (cases ls) (simp_all add: agent_line_of_def Let_def)
  qed
qed

subsection \<open>What a period's figures are\<close>

lemma map_snd_before: "map snd (before d w acc to) = filter (\<lambda>p. on_account w acc p \<and> po_at p < to) (postings d)"
  unfolding before_def by (rule map_snd_filter_numbered)

text \<open>The opening balance is all that was posted before the period, the closing one all before its end.\<close>

definition posted_before :: "db \<Rightarrow> string \<Rightarrow> account \<Rightarrow> int \<Rightarrow> int" where
  "posted_before d w a t = sum_where (\<lambda>p. po_ws p = w \<and> po_account p = a \<and> po_at p < t) po_amount (postings d)"

lemma sum_where_filter: "sum_where p f (filter q xs) = sum_where (\<lambda>x. q x \<and> p x) f xs"
  by (simp add: sum_where_def filter_filter conj_commute cong: conj_cong)

lemma sum_where_split: "sum_where p f xs = sum_where (\<lambda>x. p x \<and> q x) f xs + sum_where (\<lambda>x. p x \<and> \<not> q x) f xs"
  by (induction xs) auto

lemma in_minus_out:
  "sum_where (\<lambda>p. q p \<and> po_amount p > 0) po_amount ps + sum_where (\<lambda>p. q p \<and> po_amount p < 0) po_amount ps =
     sum_where q po_amount ps"
  by (induction ps) auto

lemma account_totals_eq:
  assumes "ps = filter (\<lambda>p. on_account w acc p \<and> po_at p < to) (postings d)" and a: "acc = None \<or> acc = Some a"
    and "from \<le> to"
  shows "sa_opening (account_totals ps from a) = posted_before d w a from"
    and "sa_closing (account_totals ps from a) = posted_before d w a to"
    and "sa_in (account_totals ps from a) - sa_out (account_totals ps from a) =
      sum_where (\<lambda>p. po_account p = a \<and> from \<le> po_at p) po_amount ps"
    and "sa_closing (account_totals ps from a) =
      sa_opening (account_totals ps from a) + sa_in (account_totals ps from a) - sa_out (account_totals ps from a)"
proof -
  let ?A = "account_totals ps from a"
  have on: "on_account w acc p \<and> po_account p = a \<longleftrightarrow> po_ws p = w \<and> po_account p = a" for p
    using a by (auto simp: on_account_def)
  show op: "sa_opening ?A = posted_before d w a from"
    unfolding account_totals_def Let_def posted_before_def assms(1) statement_account.select_convs sum_where_filter
    by (rule sum_where_cong) (use assms(3) on in fastforce)+
  show io: "sa_in ?A - sa_out ?A = sum_where (\<lambda>p. po_account p = a \<and> from \<le> po_at p) po_amount ps"
    using in_minus_out [of "\<lambda>p. po_account p = a \<and> from \<le> po_at p" ps] by (simp add: account_totals_def Let_def conj_assoc)
  show c: "sa_closing ?A = sa_opening ?A + sa_in ?A - sa_out ?A" by (simp add: account_totals_def Let_def)
  have "sum_where (\<lambda>p. po_account p = a) po_amount ps = posted_before d w a to"
    unfolding posted_before_def assms(1) sum_where_filter by (rule sum_where_cong) (use on in fastforce)+
  moreover have "sum_where (\<lambda>p. po_account p = a) po_amount ps =
      sum_where (\<lambda>p. po_account p = a \<and> po_at p < from) po_amount ps + sum_where (\<lambda>p. po_account p = a \<and> from \<le> po_at p) po_amount ps"
    using sum_where_split [of "\<lambda>p. po_account p = a" po_amount ps "\<lambda>p. po_at p < from"] by (simp add: not_less)
  ultimately show "sa_closing ?A = posted_before d w a to" using c io by (simp add: account_totals_def Let_def)
qed

lemma period_accountD:
  assumes "A \<in> set (period_accounts d w acc from to)"
  shows "A = account_totals (filter (\<lambda>p. on_account w acc p \<and> po_at p < to) (postings d)) from (sa_account A)"
    and "acc = None \<or> acc = Some (sa_account A)"
proof -
  let ?ps = "filter (\<lambda>p. on_account w acc p \<and> po_at p < to) (postings d)"
  obtain p where p: "p \<in> set ?ps" and A: "A = account_totals ?ps from (po_account p)"
    using assms by (auto simp: period_accounts_def Let_def map_snd_before)
  have a: "sa_account A = po_account p" by (simp add: A account_totals_def Let_def)
  show "A = account_totals ?ps from (sa_account A)" unfolding a by (rule A)
  show "acc = None \<or> acc = Some (sa_account A)"
    using p a by (cases acc) (simp_all add: on_account_def)
qed

lemma period_account:
  assumes "A \<in> set (st_accounts (period_statement d w acc from to))" and "from \<le> to"
  shows "sa_opening A = posted_before d w (sa_account A) from" and "sa_closing A = posted_before d w (sa_account A) to"
    and "sa_closing A = sa_opening A + sa_in A - sa_out A"
proof -
  have A: "A \<in> set (period_accounts d w acc from to)" using assms(1) by (simp add: period_statement_def Let_def)
  note T = account_totals_eq [OF refl period_accountD(2) [OF A] assms(2)]
  note e = period_accountD(1) [OF A]
  show "sa_opening A = posted_before d w (sa_account A) from" "sa_closing A = posted_before d w (sa_account A) to"
    "sa_closing A = sa_opening A + sa_in A - sa_out A"
    using T(1,2,4) [where w = w and d = d] unfolding e [symmetric] by blast+
qed

text \<open>A period opens where the one before it closed.\<close>

lemma periods_chain:
  assumes "A \<in> set (st_accounts (period_statement d w acc from to))" "B \<in> set (st_accounts (period_statement d w acc to until))"
    and "from \<le> to" "to \<le> until" "sa_account B = sa_account A"
  shows "sa_opening B = sa_closing A"
  using period_account(1) [OF assms(2,4)] period_account(2) [OF assms(1,3)] assms(5) by simp

text \<open>Every account posted to by the end of the period is there once, under its opening balance.\<close>

lemma period_accounts_distinct: "distinct (map sa_account (period_accounts d w acc from to))"
proof -
  have "map sa_account (period_accounts d w acc from to) =
      sort_key account_text (remdups (map po_account (map snd (before d w acc to))))"
    by (simp add: period_accounts_def Let_def account_totals_def o_def)
  then show ?thesis by simp
qed

lemma opening_of_account:
  "A \<in> set accs \<Longrightarrow> distinct (map sa_account accs) \<Longrightarrow> opening_of accs (sa_account A) = sa_opening A"
  by (induction accs) (auto simp: opening_of_def)

text \<open>A line's balance is its account's opening balance and every line of the account up to it.\<close>

lemma period_line:
  assumes "i < length (st_lines (period_statement d w acc from to))"
  shows "let ls = st_lines (period_statement d w acc from to)
    in sl_after (ls ! i) = opening_of (st_accounts (period_statement d w acc from to)) (sl_account (ls ! i)) +
      sum_where (\<lambda>l. sl_account l = sl_account (ls ! i)) sl_amount (take (Suc i) ls)"
proof -
  define accs where "accs = period_accounts d w acc from to"
  define ps where "ps = period_rows d w acc from to"
  let ?rs = "running_balances (opening_of accs) ps"
  have st: "st_lines (period_statement d w acc from to) = map (line_of d) ?rs"
    "st_accounts (period_statement d w acc from to) = accs"
    by (simp_all add: period_statement_def Let_def accs_def ps_def)
  have i: "i < length ps" using assms by (simp add: st)
  have fst: "fst (?rs ! j) = ps ! j" if "j < length ps" for j
    using that running_rows [of "opening_of accs" ps] nth_map [of j ?rs fst] by simp
  have l: "sl_account (line_of d r) = po_account (snd (fst r))" "sl_after (line_of d r) = snd r"
    "sl_amount (line_of d r) = po_amount (snd (fst r))" for r
    by (simp_all add: line_of_def Let_def)
  have "sum_where (\<lambda>p. po_account p = a) po_amount (map snd (take (Suc i) ps)) =
      sum_where (\<lambda>l. sl_account l = a) sl_amount (take (Suc i) (map (line_of d) ?rs))" for a
  proof -
    have "map snd (take (Suc i) ps) = map (snd \<circ> fst) (take (Suc i) ?rs)"
      using running_rows [of "opening_of accs" ps] by (metis map_map take_map)
    then show ?thesis by (simp add: sum_where_def take_map filter_map o_def l)
  qed
  then show ?thesis
    unfolding st Let_def using running_after [OF i, of "opening_of accs"] i by (simp add: l fst)
qed

subsection \<open>A closed period stays what it was\<close>

lemma numbered_append: "\<exists>qs. numbered (d\<lparr>postings := postings d @ ps\<rparr>) = numbered d @ qs \<and> map snd qs = ps"
proof -
  have "[0..<length (postings d) + length ps] =
      [0..<length (postings d)] @ [length (postings d)..<length (postings d) + length ps]"
    by (rule upt_add_eq_append) simp
  then have "numbered (d\<lparr>postings := postings d @ ps\<rparr>) =
      numbered d @ zip [length (postings d)..<length (postings d) + length ps] ps"
    by (simp add: numbered_def zip_append1)
  moreover have "map snd (zip [length (postings d)..<length (postings d) + length ps] ps) = ps" by simp
  ultimately show ?thesis by blast
qed

lemma closed_period:
  assumes p: "postings d' = postings d @ ps"
    and late: "\<And>q. q \<in> set ps \<Longrightarrow> to \<le> po_at q"
    and fresh: "\<And>q p. q \<in> set ps \<Longrightarrow> p \<in> set (postings d) \<Longrightarrow> po_entry q \<noteq> po_entry p"
  shows "period_statement d' w acc from to = period_statement d w acc from to"
proof -
  have num: "numbered d' = numbered (d\<lparr>postings := postings d @ ps\<rparr>)" by (simp add: numbered_def p)
  obtain qs where n: "numbered d' = numbered d @ qs" and qs: "map snd qs = ps"
    unfolding num using numbered_append by blast
  have q: "snd x \<in> set ps" if "x \<in> set qs" for x using that by (simp flip: qs)
  have "filter (\<lambda>p. on_account w acc (snd p) \<and> po_at (snd p) < to) qs = []"
    using q late by (auto simp: filter_empty_conv not_less)
  then have b: "before d' w acc to = before d w acc to" by (simp add: before_def n)
  have c: "counter_account d' x = counter_account d x" if "snd x \<in> set (postings d)" for x
  proof -
    have none: "\<not> (\<exists>y \<in> set qs. po_entry (snd y) = po_entry (snd x) \<and> fst y \<noteq> fst x)"
      using q fresh that by fastforce
    have "find P (xs @ qs) = find P xs" if "\<not> (\<exists>y \<in> set qs. P y)" for P and xs :: "(nat \<times> posting) list"
      using that by (induction xs) (auto simp: find_None_iff)
    then show ?thesis using none by (simp add: counter_account_def n)
  qed
  have rows: "period_rows d' w acc from to = period_rows d w acc from to" by (simp add: period_rows_def b)
  have accs: "period_accounts d' w acc from to = period_accounts d w acc from to" by (simp add: period_accounts_def b)
  have "line_of d' l = line_of d l" if "l \<in> set (running_balances bal (period_rows d w acc from to))" for l bal
  proof -
    have "fst l \<in> set (period_rows d w acc from to)"
      using that running_rows by (metis image_eqI list.set_map)
    then have "fst l \<in> set (numbered d)" by (simp add: period_rows_def before_def)
    then have "snd (fst l) \<in> set (postings d)" by (metis image_eqI list.set_map map_snd_numbered)
    then show ?thesis by (simp add: line_of_def Let_def c)
  qed
  then show ?thesis by (simp add: period_statement_def Let_def rows accs cong: map_cong)
qed

subsection \<open>What a workspace's statement adds up to\<close>

lemma sum_one: "distinct as \<Longrightarrow> b \<in> set as \<Longrightarrow> sum_list (map (\<lambda>a. if b = a then x else (0 :: int)) as) = x"
proof (induction as)
  case (Cons a as)
  have none: "sum_list (map (\<lambda>a. if b = a then x else 0) as) = 0" if "b \<notin> set as"
    using that by (induction as) auto
  show ?case using Cons none by auto
qed simp

lemma sum_over_accounts:
  "distinct as \<Longrightarrow> po_account ` set ps \<subseteq> set as \<Longrightarrow>
    sum_list (map (\<lambda>a. sum_where (\<lambda>p. po_account p = a \<and> q p) po_amount ps) as) = sum_where q po_amount ps"
proof (induction ps)
  case (Cons p ps)
  have "sum_list (map (\<lambda>a. sum_where (\<lambda>p. po_account p = a \<and> q p) po_amount (p # ps)) as) =
      sum_list (map (\<lambda>a. if po_account p = a then if q p then po_amount p else 0 else 0) as) +
      sum_list (map (\<lambda>a. sum_where (\<lambda>p. po_account p = a \<and> q p) po_amount ps) as)"
    by (simp flip: sum_list_addf)
  then show ?case using Cons sum_one [of as "po_account p" "if q p then po_amount p else 0"] by simp
qed (simp add: sum_list_0)

text \<open>The movements of all accounts come to everything posted in the workspace in the period.\<close>

lemma workspace_movement:
  assumes "from \<le> to"
  shows "sum_list (map (\<lambda>A. sa_in A - sa_out A) (st_accounts (period_statement d w None from to))) =
    sum_where (\<lambda>p. po_ws p = w \<and> from \<le> po_at p \<and> po_at p < to) po_amount (postings d)"
proof -
  let ?ps = "filter (\<lambda>p. on_account w None p \<and> po_at p < to) (postings d)"
  let ?as = "sort_key account_text (remdups (map po_account ?ps))"
  have "st_accounts (period_statement d w None from to) = map (account_totals ?ps from) ?as"
    by (simp add: period_statement_def period_accounts_def Let_def map_snd_before)
  then have "sum_list (map (\<lambda>A. sa_in A - sa_out A) (st_accounts (period_statement d w None from to))) =
      sum_list (map (\<lambda>a. sum_where (\<lambda>p. po_account p = a \<and> from \<le> po_at p) po_amount ?ps) ?as)"
    using account_totals_eq(3) [of ?ps w None to d, OF refl _ assms] by (simp add: o_def)
  also have "\<dots> = sum_where (\<lambda>p. from \<le> po_at p) po_amount ?ps" by (rule sum_over_accounts) auto
  also have "\<dots> = sum_where (\<lambda>p. po_ws p = w \<and> from \<le> po_at p \<and> po_at p < to) po_amount (postings d)"
    unfolding sum_where_filter by (rule sum_where_cong) (auto simp: on_account_def)
  finally show ?thesis .
qed

text \<open>
  The entry of a transfer to another workspace has one posting in each, so it leaves the postings
  of the sender's own workspace short of its amount.
\<close>

lemma transfer_one_sided:
  assumes r: "transfer_tx dk cx n t judged new_id = Inr (n', t')" and tn: "\<And>v. 0 \<le> test_of (dl_db n) v"
    and ws: "receiver_ws n t \<noteq> tr_from_ws t"
  shows "\<exists>ps. postings (dl_db n') = postings (dl_db n) @ ps \<and> list_all (\<lambda>p. po_at p = cx_now cx) ps \<and>
    sum_where (\<lambda>p. po_ws p = tr_from_ws t) po_amount ps = - tr_amount t"
proof -
  from r obtain d1 d2 t2 where pos: "0 < tr_amount t"
    and e: "if judged then enforce_agent_rules (dk_store dk) cx (dl_db n) (tr_from_ws t) (tr_from t) (tr_amount t)
        (tr_id (filled n t new_id)) = Inr d1 else d1 = dl_db n"
    and m: "move_credits (dk_store dk) cx (dl_gates n) d1 (transfer_key n t) (filled n t new_id) = Inr (d2, t2)"
    and n': "n' = n\<lparr>dl_db := across_db cx d2 PkTransfer (tr_id (filled n t new_id)) (transfer_legs (filled n t new_id)),
      dl_transfers := dl_transfers n @ [t'\<lparr>tr_capability := ''''\<rparr>]\<rparr>"
    by (rule transfer_tx_InrD)
  have q: "same_money (dl_db n) d1" using e by (cases judged) (auto dest: enforce_quiet simp: rules_quiet_def)
  have pos': "0 < tr_amount (filled n t new_id)" and tn1: "\<And>v. 0 \<le> test_of d1 v"
    using pos tn same_money_views(3) [OF q] by simp_all
  have "postings d2 = postings (dl_db n)"
    using move_credits_InrD(1) [OF m pos' tn1] q by (simp add: rows_only_def same_money_def)
  then show ?thesis
    using ws by (simp add: n' across_db_def filled_legs across_posting_def leg_posting_def)
qed

end
