(* ===== verification/Agent_Payments.thy ===== *)
theory Agent_Payments
  imports Deal_System Transfer_Rule
begin

section \<open>Payments of agents and purchases they make (agent_payments.go, agent_market.go, agent_self_service.go)\<close>

text \<open>
  \<open>pay_agent\<close> pays another agent: of the same workspace by an entry of two postings
  (\<open>pay_agent_tx\<close>), of another company by a billed use on the company's marketplace bill
  (\<open>pay_company_agent\<close>). \<open>judge_agent_purchase\<close> is a purchase the agent's rules judge,
  \<open>request_payment_approval\<close> asks for an approval before paying, and \<open>simulate_agent_rules\<close>
  (agent_rule_simulator.go) says what the rules would answer.

  \<open>marketplace\<close> is what the payments ask of internal/market: a listing a buyer may pay with its
  seller and its price for one use, or a refusal; whether a sale may be made there; and whether two
  workspaces share a card or an owner. What they write of it, the billed uses, is modelled.
\<close>

record marketplace =
  mk_payable :: "db \<Rightarrow> string \<Rightarrow> string \<Rightarrow> err + (string + int)"
  mk_sellable :: "db \<Rightarrow> string \<Rightarrow> err + string option"
  mk_linked :: "db \<Rightarrow> string \<Rightarrow> string \<Rightarrow> err + bool"

text \<open>The store with its marketplace: \<open>s.listings\<close>, \<open>s.companyPayments\<close> and whether Stripe is live.\<close>

record pay_desk =
  pd_desk :: desk
  pd_listings :: "marketplace option"
  pd_companies :: "marketplace option"
  pd_live_stripe :: bool

record agent_payment =
  ay_entry :: string
  ay_from :: string
  ay_to :: string
  ay_amount :: int
  ay_from_balance :: int
  ay_to_balance :: int
  ay_memo :: string
  ay_to_ws :: string
  ay_via :: string

definition new_payment :: "string \<Rightarrow> string \<Rightarrow> int \<Rightarrow> string \<Rightarrow> agent_payment" where
  "new_payment a b amount memo =
     \<lparr>ay_entry = '''', ay_from = a, ay_to = b, ay_amount = amount, ay_from_balance = 0, ay_to_balance = 0,
      ay_memo = memo, ay_to_ws = '''', ay_via = ''''\<rparr>"

definition key_agent :: "db \<Rightarrow> string \<Rightarrow> err + string \<times> string" where
  "key_agent d key = (case agent_of_key d key of None \<Rightarrow> Inl ErrAgentNotFound | Some x \<Rightarrow> Inr x)"

subsection \<open>Within a workspace\<close>

definition pay_legs :: "string \<Rightarrow> agent_payment \<Rightarrow> ws_leg list" where
  "pay_legs w pay = [(w, AgentAcc (ay_from pay), - ay_amount pay), (w, AgentAcc (ay_to pay), ay_amount pay)]"

definition pay_agent_tx :: "store \<Rightarrow> ctx \<Rightarrow> db \<Rightarrow> string \<Rightarrow> agent_payment \<Rightarrow> err + db \<times> agent_payment" where
  "pay_agent_tx s cx d w pay =
     (let a = ay_from pay; b = ay_to pay
      in rbind (lock_sides d (w, if b < a then b else a) (w, if b < a then a else b)) (\<lambda>_.
         rbind (require_owner d b) (\<lambda>_.
           let bal = account_balance d w (AgentAcc a)
           in if bal < ay_amount pay then Inl (ErrAgentFunds bal)
              else
                let pay = pay\<lparr>ay_entry := show_nat (next_entry d)\<rparr>
                in rbind (enforce_agent_rules s cx d w a (ay_amount pay) (ay_entry pay)) (\<lambda>d.
                   rbind (post_across cx d PkPay (ay_memo pay) (pay_legs w pay)) (\<lambda>(d, entry).
                     Inr (d, pay\<lparr>ay_to_balance := account_balance d w (AgentAcc b),
                       ay_from_balance := bal - ay_amount pay\<rparr>))))))"

definition on_db :: "deals \<Rightarrow> err + db \<times> 'a \<Rightarrow> err + deals \<times> 'a" where
  "on_db n r = map_sum id (\<lambda>(d, x). (n\<lparr>dl_db := d\<rparr>, x)) r"

subsection \<open>To another company, through the marketplace (market/agent_payment.go)\<close>

definition billed_use :: "string \<Rightarrow> string \<Rightarrow> int \<Rightarrow> int \<Rightarrow> db \<Rightarrow> err + db" where
  "billed_use buyer a price at d =
     (if price \<le> 0 then Inl (ErrDbCheck ''market_uses_check'')
      else Inr (d\<lparr>market_uses := market_uses d @ [\<lparr>mu_buyer = buyer, mu_agent = a, mu_price = price,
        mu_billed = True, mu_at = at\<rparr>]\<rparr>))"

definition company_payee_refusal :: "marketplace \<Rightarrow> db \<Rightarrow> string \<Rightarrow> string \<Rightarrow> err + string" where
  "company_payee_refusal mk d payer payee =
     rbind (mk_linked mk d payer payee) (\<lambda>linked.
       if linked then Inr ''the two companies share a card or an owner''
       else map_sum id (\<lambda>r. case r of None \<Rightarrow> '''' | Some why \<Rightarrow> why) (mk_sellable mk d payer))"

definition charge_agent_payment ::
    "db \<Rightarrow> string \<Rightarrow> string \<Rightarrow> int \<Rightarrow> int \<Rightarrow> string \<Rightarrow> err + db \<times> string" where
  "charge_agent_payment d payer a amount at use_id =
     rbind (billed_use payer a amount at d) (\<lambda>d. Inr (d, use_id))"

definition refuse_frozen_pair :: "gate_db \<Rightarrow> string \<Rightarrow> string \<Rightarrow> string \<Rightarrow> err + unit" where
  "refuse_frozen_pair g key payer payee =
     (case capability_by_key key of
        None \<Rightarrow> Inr ()
      | Some c \<Rightarrow> rbind (refuse_frozen g payer c) (\<lambda>_. refuse_frozen g payee c))"

text \<open>What is checked before the payment's transaction, and what refuses it inside.\<close>

definition company_payable :: "pay_desk \<Rightarrow> marketplace \<Rightarrow> ctx \<Rightarrow> deals \<Rightarrow> string \<Rightarrow> string \<Rightarrow> string \<Rightarrow> err + unit" where
  "company_payable pd mk cx n w payee_ws a =
     (let d = dl_db n; g = dl_gates n; s = dk_store (pd_desk pd)
      in rbind (check_money_wall d w payee_ws) (\<lambda>_.
         rbind (company_payee_refusal mk d w payee_ws) (\<lambda>refusal.
           if refusal \<noteq> '''' then Inl (ErrWashTrade refusal)
           else
             rbind (require_billed_capability s (pd_live_stripe pd) cx g d w ''pay_another_owner'') (\<lambda>_.
             rbind (lock_agent d w a) (\<lambda>_.
               refuse_frozen_pair g ''pay_another_owner'' w payee_ws)))))"

text \<open>The payment itself: judged by the payer's rules, then on the company's bill.\<close>

definition charge_company ::
    "store \<Rightarrow> ctx \<Rightarrow> db \<Rightarrow> string \<Rightarrow> string \<Rightarrow> agent_payment \<Rightarrow> string \<Rightarrow> err + db \<times> agent_payment" where
  "charge_company s cx d w payee_ws pay use_id =
     (let a = ay_from pay
      in rbind (enforce_agent_rules s cx d w a (ay_amount pay) (''company:'' @ payee_ws)) (\<lambda>d.
         rbind (charge_agent_payment d w a (ay_amount pay) (req_time cx (agent_request_from cx)) use_id) (\<lambda>(d, i).
           Inr (d, pay\<lparr>ay_entry := i, ay_from_balance := account_balance d w (AgentAcc a)\<rparr>))))"

definition pay_company_agent ::
    "pay_desk \<Rightarrow> marketplace \<Rightarrow> ctx \<Rightarrow> deals \<Rightarrow> string \<Rightarrow> string \<Rightarrow> agent_payment \<Rightarrow> string \<Rightarrow> string \<Rightarrow>
     deals \<times> (err + agent_payment)" where
  "pay_company_agent pd mk cx n w payee_ws pay use_id approval_id =
     (let pay = pay\<lparr>ay_to_ws := payee_ws, ay_via := ''marketplace''\<rparr>
      in case company_payable pd mk cx n w payee_ws (ay_from pay) of
           Inl e \<Rightarrow> (n, Inl e)
         | Inr _ \<Rightarrow> refused_deal cx n approval_id
             (on_db n (charge_company (dk_store (pd_desk pd)) cx (dl_db n) w payee_ws pay use_id)))"

subsection \<open>Paying an agent\<close>

text \<open>The payee's workspace when companies may be paid and it is another's.\<close>

definition other_company :: "pay_desk \<Rightarrow> db \<Rightarrow> string \<Rightarrow> string \<Rightarrow> (marketplace \<times> string) option" where
  "other_company pd d w b =
     (case pd_companies pd of
        None \<Rightarrow> None
      | Some mk \<Rightarrow> (case find_agent d b of
            None \<Rightarrow> None
          | Some r \<Rightarrow> if ag_ws r \<noteq> w then Some (mk, ag_ws r) else None))"

definition pay_agent ::
    "pay_desk \<Rightarrow> ctx \<Rightarrow> deals \<Rightarrow> string \<Rightarrow> string \<Rightarrow> string \<Rightarrow> int \<Rightarrow> string \<Rightarrow> string \<Rightarrow> string \<Rightarrow>
     deals \<times> (err + agent_payment)" where
  "pay_agent pd cx n w a b amount memo use_id approval_id =
     (let pay = new_payment a b amount memo
      in if amount \<le> 0 then (n, Inl (ErrInvalid ''the amount must be positive''))
         else if a = b then (n, Inl ErrSameAgent)
         else
           let cx = with_agent_request cx (pay_request (payment_fingerprint (pd_desk pd) a b amount memo)
                 \<lparr>py_kind = ''agent'', py_id = b, py_name = ''''\<rparr> memo)
           in case other_company pd (dl_db n) w b of
                Some (mk, payee_ws) \<Rightarrow> pay_company_agent pd mk cx n w payee_ws pay use_id approval_id
              | None \<Rightarrow> refused_deal cx n approval_id (on_db n (pay_agent_tx (dk_store (pd_desk pd)) cx (dl_db n) w pay)))"

subsection \<open>A purchase (agent_market.go)\<close>

definition purchase_request :: "desk \<Rightarrow> string \<Rightarrow> string \<Rightarrow> commitment \<Rightarrow> string \<Rightarrow> agent_request" where
  "purchase_request dk a listing c what =
     no_request\<lparr>rq_payment := True, rq_listing := listing,
       rq_fingerprint := dk_sha dk (''purchase'' @ [CHR 0x00] @ a @ [CHR 0x00] @ what),
       rq_payee := \<lparr>py_kind = ''listing'', py_id = listing, py_name = ''''\<rparr>, rq_memo := what, rq_commitment := c\<rparr>"

definition judge_agent_purchase ::
    "desk \<Rightarrow> ctx \<Rightarrow> deals \<Rightarrow> string \<Rightarrow> string \<Rightarrow> string \<Rightarrow> int \<Rightarrow> commitment \<Rightarrow> string \<Rightarrow> (db \<Rightarrow> err + db) \<Rightarrow> string \<Rightarrow>
     deals \<times> (err + unit)" where
  "judge_agent_purchase dk cx n w a listing amount c what record_it approval_id =
     (let cx = with_agent_request cx (purchase_request dk a listing c what)
      in case lock_agent (dl_db n) w a of
           Inl e \<Rightarrow> (n, Inl e)
         | Inr _ \<Rightarrow>
             (case enforce_agent_rules (dk_store dk) cx (dl_db n) w a amount what of
                Inl e \<Rightarrow> refused_deal cx n approval_id (Inl e)
              | Inr d \<Rightarrow>
                  (case record_it d of
                     Inl e \<Rightarrow> (n, Inl e)
                   | Inr d \<Rightarrow> (n\<lparr>dl_db := d\<rparr>, Inr ()))))"

subsection \<open>What an agent asks itself (agent_self_service.go)\<close>

definition request_payment_approval ::
    "desk \<Rightarrow> ctx \<Rightarrow> db \<Rightarrow> string \<Rightarrow> string \<Rightarrow> string \<Rightarrow> int \<Rightarrow> string \<Rightarrow> string \<Rightarrow> string \<Rightarrow> err + db \<times> approval" where
  "request_payment_approval dk cx d w a b amount memo reason new_id =
     rbind (get_agent_rules d w a) (\<lambda>r.
       if rl_approval_above r = 0 \<or> amount \<le> rl_approval_above r then Inl ErrApprovalNotNeeded
       else
         let fp = payment_fingerprint dk a b amount memo;
             p = name_payee d \<lparr>py_kind = ''agent'', py_id = b, py_name = ''''\<rparr>
         in case find (open_approval a fp) (approvals d) of
              Some q \<Rightarrow>
                Inr (d\<lparr>approvals := map (\<lambda>q. if open_approval a fp q then q\<lparr>ap_reason := reason\<rparr> else q) (approvals d)\<rparr>,
                  q\<lparr>ap_reason := reason\<rparr>)
            | None \<Rightarrow>
                let q = \<lparr>ap_id = new_id, ap_ws = w, ap_agent = a, ap_fingerprint = fp, ap_amount = amount, ap_model = '''',
                      ap_payee = p, ap_memo = memo, ap_status = Pending, ap_decided_at = None, ap_used_ref = None,
                      ap_reason = reason, ap_at = cx_now cx\<rparr>
                in Inr (d\<lparr>approvals := approvals d @ [q]\<rparr>, q))"

text \<open>A receipt: the entry's postings in the workspace, when one of them moved the agent's account.\<close>

record agent_receipt =
  rc_entry :: nat
  rc_kind :: posting_kind
  rc_ref :: string
  rc_at :: int
  rc_postings :: "(account \<times> int) list"

definition read_receipt :: "db \<Rightarrow> string \<Rightarrow> string \<Rightarrow> nat \<Rightarrow> err + agent_receipt" where
  "read_receipt d w a entry =
     (let mine = list_ex (\<lambda>p. po_entry p = entry \<and> po_account p = AgentAcc a) (postings d);
          ps = filter (\<lambda>p. po_entry p = entry \<and> po_ws p = w \<and> mine) (postings d)
      in if ps = [] then Inl ErrReceiptNotFound
         else Inr \<lparr>rc_entry = entry, rc_kind = po_kind (last ps), rc_ref = po_ref (last ps), rc_at = po_at (last ps),
           rc_postings = map (\<lambda>p. (po_account p, po_amount p)) ps\<rparr>)"

subsection \<open>Would a request pass the rules? (agent_rule_simulator.go)\<close>

record simulated_request =
  si_amount :: int
  si_model :: string
  si_provider :: string
  si_payee :: "payee option"
  si_licence :: "commitment option"
  si_at :: "int option"

datatype verdict = SimAllowed | SimApprovalRequired | SimRefused err

record rule_simulation =
  sm_verdict :: verdict
  sm_amount :: int
  sm_at :: int
  sm_balance :: int

definition payee_kinds :: "string list" where
  "payee_kinds = [''agent'', ''listing'', ''company'', ''merchant'']"

definition check_simulation :: "simulated_request \<Rightarrow> err + unit" where
  "check_simulation i =
     (if si_amount i < 0 then Inl (ErrBadSimulation ''amount_ulxc cannot be negative'')
      else
        rbind (case si_payee i of
            None \<Rightarrow> Inr ()
          | Some p \<Rightarrow>
              if py_kind p \<notin> set payee_kinds then Inl (ErrBadSimulation ''a payee's kind'')
              else if py_id p = '''' then Inl (ErrBadSimulation ''the payee needs its id'') else Inr ()) (\<lambda>_.
        case si_licence i of
          None \<Rightarrow> Inr ()
        | Some c \<Rightarrow>
            if (case si_payee i of None \<Rightarrow> True | Some p \<Rightarrow> py_kind p \<noteq> ''listing'')
            then Inl (ErrBadSimulation ''a licence is to a listing'')
            else if cm_kind c \<notin> {''buy'', ''rent'', ''subscribe''} then Inl (ErrBadSimulation ''a licence's kind'')
            else if cm_licence c \<noteq> ''personal'' \<and> cm_licence c \<notin> set agent_licences
            then Inl (ErrBadSimulation ''a licence is personal, commercial or enterprise'')
            else Inr ()))"

definition simulated_ask :: "ctx \<Rightarrow> simulated_request \<Rightarrow> string \<Rightarrow> agent_request" where
  "simulated_ask cx i fresh =
     (let req = no_request\<lparr>rq_model := si_model i, rq_provider := si_provider i,
            rq_at := Some (case si_at i of None \<Rightarrow> cx_now cx | Some t \<Rightarrow> t),
            rq_fingerprint := ''simulated:'' @ fresh\<rparr>;
          req = (case si_payee i of
              None \<Rightarrow> req
            | Some p \<Rightarrow> req\<lparr>rq_payment := True, rq_payee := p,
                rq_listing := (if py_kind p = ''listing'' then py_id p else '''')\<rparr>)
      in case si_licence i of
           None \<Rightarrow> req
         | Some c \<Rightarrow> req\<lparr>rq_commitment := no_commitment\<lparr>cm_kind := cm_kind c, cm_licence := cm_licence c,
             cm_ulxc := si_amount i\<rparr>\<rparr>)"

definition simulate_agent_rules ::
    "store \<Rightarrow> ctx \<Rightarrow> db \<Rightarrow> string \<Rightarrow> string \<Rightarrow> simulated_request \<Rightarrow> string \<Rightarrow> err + rule_simulation" where
  "simulate_agent_rules s cx d w a i fresh =
     rbind (check_simulation i) (\<lambda>_.
     rbind (agent_exists d w a) (\<lambda>_.
       let answer = (\<lambda>v. Inr \<lparr>sm_verdict = v, sm_amount = si_amount i,
             sm_at = (case si_at i of None \<Rightarrow> cx_now cx | Some t \<Rightarrow> t),
             sm_balance = account_balance d w (AgentAcc a)\<rparr>)
       in case enforce_agent_rules s (with_agent_request cx (simulated_ask cx i fresh)) d w a (si_amount i) ''simulated'' of
            Inr _ \<Rightarrow> answer SimAllowed
          | Inl (ErrApprovalNeeded need) \<Rightarrow> answer SimApprovalRequired
          | Inl (ErrAgentRule r) \<Rightarrow> answer (SimRefused (ErrAgentRule r))
          | Inl (ErrAgentRequestRate limit asked) \<Rightarrow> answer (SimRefused (ErrAgentRequestRate limit asked))
          | Inl e \<Rightarrow> Inl e))"

subsection \<open>What a payment within the workspace does\<close>

lemma lock_sides_iff:
  "lock_sides d x y = Inr u \<longleftrightarrow> lock_agent d (fst x) (snd x) = Inr () \<and> lock_agent d (fst y) (snd y) = Inr ()"
  by (cases "lock_agent d (fst x) (snd x)"; cases "lock_agent d (fst y) (snd y)") (simp_all add: lock_sides_def)

lemma lock_pair:
  "lock_sides d (w, if b < a then b else a) (w, if b < a then a else b) = Inr u \<longleftrightarrow>
     lock_agent d w a = Inr () \<and> lock_agent d w b = Inr ()" for a b :: string
  by (auto simp: lock_sides_iff)

lemma lock_both:
  "lock_agent d w a = Inr () \<Longrightarrow> lock_agent d w b = Inr () \<Longrightarrow>
    lock_sides d (w, a) (w, b) = Inr () \<and> lock_sides d (w, b) (w, a) = Inr ()"
  by (simp add: lock_sides_iff)

lemma pay_agent_tx_InrD:
  assumes "pay_agent_tx s cx d w pay = Inr (d', pay')"
  obtains e where "lock_agent d w (ay_from pay) = Inr ()" and "lock_agent d w (ay_to pay) = Inr ()"
    and "require_owner d (ay_to pay) = Inr ()" and "ay_amount pay \<noteq> 0"
    and "ay_amount pay \<le> account_balance d w (AgentAcc (ay_from pay))"
    and "enforce_agent_rules s cx d w (ay_from pay) (ay_amount pay) (show_nat (next_entry d)) = Inr e"
    and "d' = across_db cx e PkPay (ay_memo pay) (pay_legs w pay)"
    and "pay' = pay\<lparr>ay_entry := show_nat (next_entry d), ay_to_balance := account_balance d' w (AgentAcc (ay_to pay)),
      ay_from_balance := account_balance d w (AgentAcc (ay_from pay)) - ay_amount pay\<rparr>"
proof -
  let ?a = "ay_from pay" and ?x = "ay_amount pay"
  let ?bal = "account_balance d w (AgentAcc ?a)" and ?p = "pay\<lparr>ay_entry := show_nat (next_entry d)\<rparr>"
  from assms have l: "lock_agent d w ?a = Inr ()" "lock_agent d w (ay_to pay) = Inr ()"
    and o: "require_owner d (ay_to pay) = Inr ()" and b: "?x \<le> ?bal"
    by (auto simp: pay_agent_tx_def Let_def lock_sides_iff split: if_splits)
  from assms l o b have "rbind (enforce_agent_rules s cx d w ?a ?x (show_nat (next_entry d))) (\<lambda>d.
       rbind (post_across cx d PkPay (ay_memo pay) (pay_legs w ?p)) (\<lambda>(d, entry).
         Inr (d, ?p\<lparr>ay_to_balance := account_balance d w (AgentAcc (ay_to pay)), ay_from_balance := ?bal - ?x\<rparr>))) = Inr (d', pay')"
    using lock_both [OF l] by (simp add: pay_agent_tx_def Let_def split: if_splits)
  then obtain e where e: "enforce_agent_rules s cx d w ?a ?x (show_nat (next_entry d)) = Inr e"
    and p: "rbind (post_across cx e PkPay (ay_memo pay) (pay_legs w ?p)) (\<lambda>(d, entry).
         Inr (d, ?p\<lparr>ay_to_balance := account_balance d w (AgentAcc (ay_to pay)), ay_from_balance := ?bal - ?x\<rparr>)) = Inr (d', pay')"
    by (rule rbind_InrE)
  have ls: "pay_legs w ?p = pay_legs w pay" by (simp add: pay_legs_def)
  show thesis
    by (rule that [OF l o _ b e]) (use p in \<open>auto simp: ls post_across_eq pay_legs_def split: if_splits\<close>)
qed

text \<open>A payment succeeds exactly when both agents are the workspace's, the payee has an owner, the
  payer holds the amount and its rules let it through.\<close>

definition payment_permitted :: "store \<Rightarrow> ctx \<Rightarrow> db \<Rightarrow> string \<Rightarrow> agent_payment \<Rightarrow> bool" where
  "payment_permitted s cx d w pay \<longleftrightarrow>
     lock_agent d w (ay_from pay) = Inr () \<and> lock_agent d w (ay_to pay) = Inr () \<and>
     require_owner d (ay_to pay) = Inr () \<and> ay_amount pay \<noteq> 0 \<and>
     ay_amount pay \<le> account_balance d w (AgentAcc (ay_from pay)) \<and>
     rules_permit s cx d w (ay_from pay) (ay_amount pay)"

lemma pay_iff: "(\<exists>r. pay_agent_tx s cx d w pay = Inr r) \<longleftrightarrow> payment_permitted s cx d w pay"
proof
  assume "\<exists>r. pay_agent_tx s cx d w pay = Inr r"
  then obtain d' pay' where "pay_agent_tx s cx d w pay = Inr (d', pay')" by auto
  then show "payment_permitted s cx d w pay"
    by (rule pay_agent_tx_InrD) (use enforce_permits in \<open>fastforce simp: payment_permitted_def\<close>)
next
  assume p: "payment_permitted s cx d w pay"
  then obtain e where e: "enforce_agent_rules s cx d w (ay_from pay) (ay_amount pay) (show_nat (next_entry d)) = Inr e"
    using enforce_permits by (fastforce simp: payment_permitted_def)
  have l: "lock_agent d w (ay_from pay) = Inr ()" "lock_agent d w (ay_to pay) = Inr ()"
    using p by (simp_all add: payment_permitted_def)
  show "\<exists>r. pay_agent_tx s cx d w pay = Inr r"
    using p e lock_both [OF l]
    by (simp add: pay_agent_tx_def Let_def payment_permitted_def post_across_eq pay_legs_def)
qed

lemma pay_moves:
  assumes r: "pay_agent_tx s cx d w pay = Inr (d', pay')" and pos: "0 < ay_amount pay"
    and b: "books d"
  shows "books d'"
    and "account_balance d' v a = account_balance d v a +
      (if v = w \<and> a = AgentAcc (ay_to pay) then ay_amount pay else 0) -
      (if v = w \<and> a = AgentAcc (ay_from pay) then ay_amount pay else 0)"
    and "bal_of d' v = bal_of d v" and "cash_of d' v = cash_of d v" and "held_sum d' v = held_sum d v"
    and "ledger d' = ledger d" and "allocated d' v = allocated d v"
proof -
  from r obtain e where bal: "ay_amount pay \<le> account_balance d w (AgentAcc (ay_from pay))"
    and en: "enforce_agent_rules s cx d w (ay_from pay) (ay_amount pay) (show_nat (next_entry d)) = Inr e"
    and d': "d' = across_db cx e PkPay (ay_memo pay) (pay_legs w pay)"
    by (rule pay_agent_tx_InrD)
  have q: "same_money d e" using enforce_quiet [OF en] by (rule quiet_money)
  note V = same_money_views [OF q]
  have s: "books_slack (\<lambda>_. 0) e" using q b by (simp add: books_slack_0 slack_same_money)
  have nn: "0 \<le> account_balance e v a + across_on v a (pay_legs w pay)" if "is_allocated a" for v a
    using books_account_nonneg [OF b that, of v] bal pos by (auto simp: V(7) pay_legs_def)
  have "books_slack (\<lambda>v. 0 + across_allocated v (pay_legs w pay)) d'"
    unfolding d' by (rule slack_across [OF s _ nn]) (simp_all add: pay_legs_def)
  then show "books d'" by (rule slack_books) (simp add: pay_legs_def)
  show "account_balance d' v a = account_balance d v a +
      (if v = w \<and> a = AgentAcc (ay_to pay) then ay_amount pay else 0) -
      (if v = w \<and> a = AgentAcc (ay_from pay) then ay_amount pay else 0)"
    by (auto simp: d' view_simps V pay_legs_def kept_account_def)
  show "bal_of d' v = bal_of d v" "cash_of d' v = cash_of d v" "held_sum d' v = held_sum d v"
    "allocated d' v = allocated d v" by (simp_all add: d' view_simps V pay_legs_def)
  show "ledger d' = ledger d" using q by (simp add: d' same_money_def)
qed

text \<open>A payment is spend: the payer's periods count it, and nobody else's do.\<close>

lemma show_nat_head: "show_nat k \<noteq> [] \<and> (of_char (hd (show_nat k)) :: nat) < 58"
proof (induction k rule: show_nat.induct)
  case (1 n)
  then show ?case by (subst (1 2) show_nat.simps) auto
qed

lemma no_invoice_ref [simp]:
  "\<not> has_prefix (show_nat k) ''invoice_agent:''" "\<not> has_prefix (''company:'' @ w) ''invoice_agent:''"
  "\<not> has_prefix (''schedule:'' @ w) ''invoice_agent:''"
proof -
  have "(of_char (CHR ''i'') :: nat) = 105" by simp
  then show "\<not> has_prefix (show_nat k) ''invoice_agent:''"
    using show_nat_head [of k] by (cases "show_nat k") (auto simp: has_prefix_def)
qed (simp_all add: has_prefix_def)

lemma pay_counted:
  assumes r: "pay_agent_tx s cx d w pay = Inr (d', pay')" and ab: "ay_from pay \<noteq> ay_to pay" and pos: "0 < ay_amount pay"
  shows "agent_spent_since d' v a since = agent_spent_since d v a since +
    (if v = w \<and> a = ay_from pay \<and> since \<le> cx_now cx then ay_amount pay else 0)"
proof -
  from r obtain e where en: "enforce_agent_rules s cx d w (ay_from pay) (ay_amount pay) (show_nat (next_entry d)) = Inr e"
    and d': "d' = across_db cx e PkPay (ay_memo pay) (pay_legs w pay)"
    by (rule pay_agent_tx_InrD)
  have "agent_spent_since e v a since = agent_spent_since d v a since"
    using spent_quiet [OF en no_invoice_ref(1)] by simp
  moreover have "agent_spent_since d' v a since = agent_spent_since e v a since +
      (if v = w \<and> a = ay_from pay \<and> since \<le> cx_now cx then ay_amount pay else 0)"
    using ab pos by (auto simp: d' agent_spent_since_def across_db_def across_posting_def leg_posting_def pay_legs_def
        spend_posting_def spend_leg_kind_def)
  ultimately show ?thesis by simp
qed

subsection \<open>Operations that only change the wallet's database\<close>

text \<open>
  \<open>wallet_op\<close> is what an operation on the wallet's tables keeps for the dealings: the books, every
  account of an escrow, and every credit there is.
\<close>

definition wallet_op :: "db \<Rightarrow> db \<Rightarrow> bool" where
  "wallet_op d d' \<longleftrightarrow> books d' \<and> all_credits d' = all_credits d \<and>
     (\<forall>v i. account_balance d' v (EscrowAcc i) = account_balance d v (EscrowAcc i))"

lemma wallet_op_trans: "wallet_op d e \<Longrightarrow> wallet_op e f \<Longrightarrow> wallet_op d f"
  by (simp add: wallet_op_def)

lemma wallet_op_money: "books d \<Longrightarrow> same_money d d' \<Longrightarrow> wallet_op d d'"
  using same_money_views(7) all_credits_same by (simp add: wallet_op_def same_money_books)

lemma wallet_op_ok:
  assumes ok: "all_ok n" and w: "wallet_op (dl_db n) (dl_db n')"
    and s: "dl_escrows n' = dl_escrows n" "dl_loans n' = dl_loans n" "dl_transfers n' = dl_transfers n"
      "dl_loan_events n' = dl_loan_events n"
  shows "loan_op_ok n n'"
proof (rule loan_op_aside [OF ok])
  have "escrow_ok n'" using ok w
    by (simp add: all_ok_def deals_ok_def escrow_ok_def escrowed_def wallet_op_def s)
  then show "deal_kept n n'" using w
    by (simp add: deal_kept_def deals_ok_def credits_in_lens_def in_escrow_def wallet_op_def s escrows_kept_same)
  show "loans_aside n n'" by (simp add: loans_aside_def s)
qed

lemma on_db_InrD: "on_db n r = Inr (n', x) \<Longrightarrow> \<exists>d. r = Inr (d, x) \<and> n' = n\<lparr>dl_db := d\<rparr>"
  by (cases r) (auto simp: on_db_def)

lemma on_db_op:
  assumes ok: "all_ok n" and r: "\<And>d x. r = Inr (d, x) \<Longrightarrow> wallet_op (dl_db n) d"
  shows "loan_op_ok n (fst (refused_deal cx n ap (on_db n r)))"
proof (rule refused_op [OF ok])
  fix n' x
  assume "on_db n r = Inr (n', x)"
  then show "loan_op_ok n n'" using on_db_InrD r by (force intro: wallet_op_ok [OF ok])
qed

lemma pay_wallet_op:
  assumes "pay_agent_tx s cx d w pay = Inr (d', pay')" and "0 < ay_amount pay" and "books d"
  shows "wallet_op d d'"
  using pay_moves(1,2,6) [OF assms] by (simp add: wallet_op_def all_credits_def)

subsection \<open>What a payment to another company does\<close>

lemma billed_use_InrD:
  "billed_use buyer a price at d = Inr d' \<Longrightarrow> 0 < price \<and> d' = d\<lparr>market_uses := market_uses d @
     [\<lparr>mu_buyer = buyer, mu_agent = a, mu_price = price, mu_billed = True, mu_at = at\<rparr>]\<rparr>"
  by (auto simp: billed_use_def split: if_splits)

lemma billed_use_money: "billed_use buyer a price at d = Inr d' \<Longrightarrow> same_money d d'"
  by (auto dest: billed_use_InrD simp: same_money_def)

lemma billed_use_counted:
  "billed_use buyer a price at d = Inr d' \<Longrightarrow> agent_spent_since d' v b since = agent_spent_since d v b since +
     (if v = buyer \<and> b = a \<and> since \<le> at then price else 0)"
  by (auto dest!: billed_use_InrD simp: agent_spent_since_def)

text \<open>
  What it takes to pay another company's agent: the same side of the wall, parties that are not
  linked, a sale that may be made, the capability, and neither company frozen.
\<close>

definition company_permitted :: "pay_desk \<Rightarrow> marketplace \<Rightarrow> ctx \<Rightarrow> deals \<Rightarrow> string \<Rightarrow> string \<Rightarrow> string \<Rightarrow> bool" where
  "company_permitted pd mk cx n w u a \<longleftrightarrow>
     (let d = dl_db n; g = dl_gates n
      in (w \<noteq> u \<longrightarrow> test_workspace d w = test_workspace d u) \<and> mk_linked mk d w u = Inr False \<and>
         (mk_sellable mk d w = Inr None \<or> mk_sellable mk d w = Inr (Some '''')) \<and>
         require_billed_capability (dk_store (pd_desk pd)) (pd_live_stripe pd) cx g d w ''pay_another_owner'' = Inr () \<and>
         lock_agent d w a = Inr () \<and> refuse_frozen_pair g ''pay_another_owner'' w u = Inr ())"

lemma payee_refusal_none: "company_payee_refusal mk d w u = Inr '''' \<longleftrightarrow>
    mk_linked mk d w u = Inr False \<and> (mk_sellable mk d w = Inr None \<or> mk_sellable mk d w = Inr (Some ''''))"
  by (cases "mk_linked mk d w u"; cases "mk_sellable mk d w") (auto simp: company_payee_refusal_def split: option.split)

lemma money_wall_iff: "check_money_wall d w u = Inr x \<longleftrightarrow> (w \<noteq> u \<longrightarrow> test_workspace d w = test_workspace d u)"
  by (simp add: check_money_wall_def)

lemma company_payable_iff: "company_payable pd mk cx n w u a = Inr x \<longleftrightarrow> company_permitted pd mk cx n w u a"
proof -
  have "company_payable pd mk cx n w u a = Inr x \<longleftrightarrow>
      check_money_wall (dl_db n) w u = Inr () \<and> company_payee_refusal mk (dl_db n) w u = Inr '''' \<and>
      require_billed_capability (dk_store (pd_desk pd)) (pd_live_stripe pd) cx (dl_gates n) (dl_db n) w ''pay_another_owner'' = Inr () \<and>
      lock_agent (dl_db n) w a = Inr () \<and> refuse_frozen_pair (dl_gates n) ''pay_another_owner'' w u = Inr ()"
    unfolding company_payable_def Let_def
    by (cases "check_money_wall (dl_db n) w u"; cases "company_payee_refusal mk (dl_db n) w u") (simp_all add: rbind_Inr_iff)
  then show ?thesis unfolding company_permitted_def Let_def payee_refusal_none money_wall_iff by simp
qed

lemma charge_company_InrD:
  assumes "charge_company s cx d w u pay use_id = Inr (d', pay')"
  shows "pay' = pay\<lparr>ay_entry := use_id, ay_from_balance := account_balance d' w (AgentAcc (ay_from pay))\<rparr>"
    and "\<exists>e. enforce_agent_rules s cx d w (ay_from pay) (ay_amount pay) (''company:'' @ u) = Inr e \<and>
      billed_use w (ay_from pay) (ay_amount pay) (req_time cx (agent_request_from cx)) e = Inr d'"
  using assms by (auto simp: charge_company_def charge_agent_payment_def Let_def elim!: rbind_InrE)

lemma company_pay_InrD:
  assumes "pay_company_agent pd mk cx n w u pay use_id ap = (n', Inr pay')"
  shows "company_permitted pd mk cx n w u (ay_from pay)"
    and "\<exists>d'. charge_company (dk_store (pd_desk pd)) cx (dl_db n) w u
      (pay\<lparr>ay_to_ws := u, ay_via := ''marketplace''\<rparr>) use_id = Inr (d', pay') \<and> n' = n\<lparr>dl_db := d'\<rparr>"
proof -
  let ?c = "charge_company (dk_store (pd_desk pd)) cx (dl_db n) w u (pay\<lparr>ay_to_ws := u, ay_via := ''marketplace''\<rparr>) use_id"
  have eq: "pay_company_agent pd mk cx n w u pay use_id ap =
      (case company_payable pd mk cx n w u (ay_from pay) of Inl e \<Rightarrow> (n, Inl e)
       | Inr _ \<Rightarrow> refused_deal cx n ap (on_db n ?c))"
    by (simp add: pay_company_agent_def Let_def)
  obtain x where p: "company_payable pd mk cx n w u (ay_from pay) = Inr x"
    using assms unfolding eq by (cases "company_payable pd mk cx n w u (ay_from pay)") simp_all
  then show "company_permitted pd mk cx n w u (ay_from pay)" by (simp add: company_payable_iff)
  have "refused_deal cx n ap (on_db n ?c) = (n', Inr pay')" using assms unfolding eq p by simp
  then have "on_db n ?c = Inr (n', pay')" by (rule refused_deal_InrD)
  then show "\<exists>d'. ?c = Inr (d', pay') \<and> n' = n\<lparr>dl_db := d'\<rparr>" by (rule on_db_InrD)
qed

text \<open>It moves no credits; the payer's periods count it, as they count a payment inside the company.\<close>

lemma charge_company_money:
  assumes "charge_company s cx d w u pay use_id = Inr (d', pay')"
  shows "same_money d d'"
    and "agent_spent_since d' v a since = agent_spent_since d v a since +
      (if v = w \<and> a = ay_from pay \<and> since \<le> req_time cx (agent_request_from cx) then ay_amount pay else 0)"
proof -
  obtain e where e: "enforce_agent_rules s cx d w (ay_from pay) (ay_amount pay) (''company:'' @ u) = Inr e"
    and u: "billed_use w (ay_from pay) (ay_amount pay) (req_time cx (agent_request_from cx)) e = Inr d'"
    using charge_company_InrD(2) [OF assms] by blast
  show "same_money d d'"
    by (rule same_money_trans [OF quiet_money [OF enforce_quiet [OF e]] billed_use_money [OF u]])
  show "agent_spent_since d' v a since = agent_spent_since d v a since +
      (if v = w \<and> a = ay_from pay \<and> since \<le> req_time cx (agent_request_from cx) then ay_amount pay else 0)"
    using spent_quiet [OF e no_invoice_ref(2)] billed_use_counted [OF u] by simp
qed

subsection \<open>Paying an agent, either way\<close>

lemma pay_agent_ok:
  assumes ok: "all_ok n"
  shows "loan_op_ok n (fst (pay_agent pd cx n w a b amount memo use_id ap))"
proof -
  let ?pay = "new_payment a b amount memo"
  have b: "books (dl_db n)" using ok by (simp add: all_ok_def deals_ok_def)
  define cx' where "cx' = with_agent_request cx (pay_request (payment_fingerprint (pd_desk pd) a b amount memo)
                 \<lparr>py_kind = ''agent'', py_id = b, py_name = ''''\<rparr> memo)"
  have inside: "loan_op_ok n (fst (refused_deal cx' n ap (on_db n (pay_agent_tx (dk_store (pd_desk pd)) cx' (dl_db n) w ?pay))))"
    if "0 < amount"
    by (rule on_db_op [OF ok]) (use that b in \<open>auto simp: new_payment_def intro: pay_wallet_op\<close>)
  have across: "loan_op_ok n (fst (pay_company_agent pd mk cx' n w u ?pay use_id ap))" for mk u
  proof (cases "company_payable pd mk cx' n w u a")
    case (Inl e)
    then show ?thesis using loan_op_refl [OF ok] by (simp add: pay_company_agent_def new_payment_def)
  next
    case (Inr x)
    then show ?thesis
      unfolding pay_company_agent_def Let_def
      by (auto simp: new_payment_def intro!: on_db_op [OF ok] wallet_op_money [OF b] charge_company_money(1))
  qed
  show ?thesis
    using inside across loan_op_refl [OF ok]
    by (auto simp: pay_agent_def Let_def cx'_def [symmetric] split: option.split)
qed

lemma purchase_ok:
  assumes ok: "all_ok n" and rec: "\<And>d d'. record_it d = Inr d' \<Longrightarrow> same_money d d'"
  shows "loan_op_ok n (fst (judge_agent_purchase dk cx n w a listing amount c what record_it ap))"
proof -
  have b: "books (dl_db n)" using ok by (simp add: all_ok_def deals_ok_def)
  have "loan_op_ok n (n\<lparr>dl_db := d'\<rparr>)"
    if "enforce_agent_rules (dk_store dk) cx' (dl_db n) w a amount what = Inr d" "record_it d = Inr d'" for cx' d d'
    using same_money_trans [OF quiet_money [OF enforce_quiet [OF that(1)]] rec [OF that(2)]]
    by (intro wallet_op_ok [OF ok]) (simp_all add: wallet_op_money [OF b])
  then show ?thesis
    unfolding judge_agent_purchase_def Let_def
    using loan_op_refl [OF ok] by (auto split: sum.split intro!: refused_op [OF ok])
qed

subsection \<open>Receipts and simulations\<close>

text \<open>A receipt of an entry made within one workspace lists postings that sum to zero.\<close>

lemma receipt_sum:
  assumes b: "balanced d" and r: "read_receipt d w a entry = Inr rc"
    and one: "\<forall>p \<in> set (postings d). po_entry p = entry \<longrightarrow> po_ws p = w"
  shows "sum_list (map snd (rc_postings rc)) = 0"
proof -
  obtain p where p: "p \<in> set (postings d)" "po_entry p = entry"
    using r by (auto simp: read_receipt_def Let_def list_ex_iff filter_empty_conv split: if_splits)
  then have "entry_sum d entry = 0" using b by (auto simp: balanced_def list_all_iff)
  moreover have "filter (\<lambda>p. po_entry p = entry \<and> po_ws p = w) (postings d) = filter (\<lambda>p. po_entry p = entry) (postings d)"
    using one by (intro filter_cong) auto
  moreover have "rc_postings rc = map (\<lambda>p. (po_account p, po_amount p))
      (filter (\<lambda>p. po_entry p = entry \<and> po_ws p = w) (postings d))"
    using r by (cases "list_ex (\<lambda>p. po_entry p = entry \<and> po_account p = AgentAcc a) (postings d)")
      (auto simp: read_receipt_def Let_def split: if_splits)
  ultimately show ?thesis by (simp add: entry_sum_def sum_where_def o_def)
qed

lemma simulation_iff:
  assumes "simulate_agent_rules s cx d w a i fresh = Inr out"
  shows "sm_verdict out = SimAllowed \<longleftrightarrow>
    rules_permit s (with_agent_request cx (simulated_ask cx i fresh)) d w a (si_amount i)"
    and "sm_balance out = account_balance d w (AgentAcc a)"
proof -
  let ?cx = "with_agent_request cx (simulated_ask cx i fresh)"
  show "sm_balance out = account_balance d w (AgentAcc a)"
    using assms by (auto simp: simulate_agent_rules_def Let_def split: sum.splits err.splits)
  show "sm_verdict out = SimAllowed \<longleftrightarrow> rules_permit s ?cx d w a (si_amount i)"
    using assms enforce_permits [of s ?cx d w a "si_amount i" "''simulated''"]
    by (auto simp: simulate_agent_rules_def Let_def split: sum.splits err.splits)
qed

end
