(* ===== verification/Company_Payments.thy ===== *)
theory Company_Payments
  imports Agent_Payments
begin

section \<open>When another company's agent is paid\<close>

text \<open>
  \<open>company_pay_iff\<close> says when a payment through the marketplace goes through, over what can be read
  before it runs, and \<open>company_pay_bills\<close> what it leaves.
\<close>

lemma charge_company_iff:
  "(\<exists>r. charge_company s cx d w u pay use_id = Inr r) \<longleftrightarrow>
    0 < ay_amount pay \<and> rules_permit s cx d w (ay_from pay) (ay_amount pay)"
proof -
  have "(\<exists>r. charge_company s cx d w u pay use_id = Inr r) \<longleftrightarrow>
      (\<exists>e. enforce_agent_rules s cx d w (ay_from pay) (ay_amount pay) (''company:'' @ u) = Inr e) \<and> 0 < ay_amount pay"
    by (cases "enforce_agent_rules s cx d w (ay_from pay) (ay_amount pay) (''company:'' @ u)")
      (auto simp: charge_company_def charge_agent_payment_def billed_use_def Let_def)
  then show ?thesis by (simp add: enforce_permits conj_commute)
qed

lemma refused_deal_went: "(\<exists>n' p. refused_deal cx n ap r = (n', Inr p)) \<longleftrightarrow> (\<exists>y. r = Inr y)"
  by (cases r) (auto simp: refused_deal_def split: err.split prod.split)

lemma company_pay_iff:
  "(\<exists>n' p. pay_company_agent pd mk cx n w u pay use_id ap = (n', Inr p)) \<longleftrightarrow>
    company_permitted pd mk cx n w u (ay_from pay) \<and> 0 < ay_amount pay \<and>
    rules_permit (dk_store (pd_desk pd)) cx (dl_db n) w (ay_from pay) (ay_amount pay)"
proof -
  let ?pay = "pay\<lparr>ay_to_ws := u, ay_via := ''marketplace''\<rparr>"
  let ?c = "charge_company (dk_store (pd_desk pd)) cx (dl_db n) w u ?pay use_id"
  have eq: "pay_company_agent pd mk cx n w u pay use_id ap =
      (case company_payable pd mk cx n w u (ay_from pay) of Inl e \<Rightarrow> (n, Inl e)
       | Inr _ \<Rightarrow> refused_deal cx n ap (on_db n ?c))"
    by (simp add: pay_company_agent_def Let_def)
  have on: "(\<exists>y. on_db n ?c = Inr y) \<longleftrightarrow> (\<exists>y. ?c = Inr y)" by (cases ?c) (auto simp: on_db_def)
  show ?thesis
  proof (cases "company_payable pd mk cx n w u (ay_from pay)")
    case (Inl e)
    then show ?thesis using company_payable_iff [of pd mk cx n w u "ay_from pay"] by (simp add: eq)
  next
    case (Inr x)
    then have "company_permitted pd mk cx n w u (ay_from pay)" by (simp add: company_payable_iff)
    then show ?thesis unfolding eq Inr sum.case refused_deal_went on charge_company_iff by simp
  qed
qed

lemma enforce_uses:
  assumes "enforce_agent_rules s cx d w a x ref = Inr d'"
  shows "market_uses d' = market_uses d"
proof -
  have w: "market_uses (watch_agent_spend cx e w a x t b) = market_uses e" for e t b
    by (simp add: watch_agent_spend_def Let_def revoke_agent_kya_def revoke_kya_def update_agent_where_def)
  have r: "market_uses (record_payee_payment cx e w a q i x f) = market_uses e" for e q i f
    by (simp add: record_payee_payment_def Let_def)
  show ?thesis
    using assms w r
    by (auto simp: enforce_agent_rules_def Let_def judge_approval_def use_approval_def split: option.splits if_splits)
qed

lemma company_pay_bills:
  assumes "pay_company_agent pd mk cx n w u pay use_id ap = (n', Inr p)"
  shows "same_money (dl_db n) (dl_db n')" and "n' = n\<lparr>dl_db := dl_db n'\<rparr>" and "ay_entry p = use_id"
    and "market_uses (dl_db n') = market_uses (dl_db n) @ [\<lparr>mu_buyer = w, mu_agent = ay_from pay, mu_price = ay_amount pay,
      mu_billed = True, mu_at = req_time cx (agent_request_from cx)\<rparr>]"
    and "\<forall>v a since. agent_spent_since (dl_db n') v a since = agent_spent_since (dl_db n) v a since +
      (if v = w \<and> a = ay_from pay \<and> since \<le> req_time cx (agent_request_from cx) then ay_amount pay else 0)"
proof -
  let ?pay = "pay\<lparr>ay_to_ws := u, ay_via := ''marketplace''\<rparr>"
  obtain d' where c: "charge_company (dk_store (pd_desk pd)) cx (dl_db n) w u ?pay use_id = Inr (d', p)"
    and n': "n' = n\<lparr>dl_db := d'\<rparr>" using company_pay_InrD(2) [OF assms] by blast
  note M = charge_company_money [OF c]
  show "same_money (dl_db n) (dl_db n')" using M(1) by (simp add: n')
  show "n' = n\<lparr>dl_db := dl_db n'\<rparr>" by (simp add: n')
  show "ay_entry p = use_id" using charge_company_InrD(1) [OF c] by simp
  obtain e where e: "enforce_agent_rules (dk_store (pd_desk pd)) cx (dl_db n) w (ay_from pay) (ay_amount pay) (''company:'' @ u) = Inr e"
    and b: "billed_use w (ay_from pay) (ay_amount pay) (req_time cx (agent_request_from cx)) e = Inr d'"
    using charge_company_InrD(2) [OF c] by auto
  show "market_uses (dl_db n') = market_uses (dl_db n) @ [\<lparr>mu_buyer = w, mu_agent = ay_from pay, mu_price = ay_amount pay,
      mu_billed = True, mu_at = req_time cx (agent_request_from cx)\<rparr>]"
    using billed_use_InrD [OF b] enforce_uses [OF e] by (simp add: n')
  show "\<forall>v a since. agent_spent_since (dl_db n') v a since = agent_spent_since (dl_db n) v a since +
      (if v = w \<and> a = ay_from pay \<and> since \<le> req_time cx (agent_request_from cx) then ay_amount pay else 0)"
    using M(2) by (simp add: n')
qed

end
