(* ===== verification/Agent_Schedules.thy ===== *)
theory Agent_Schedules
  imports Agent_Payments Tick_Runs Tick_Times
begin

section \<open>Scheduled payments and automatic top-ups (agent_schedules.go)\<close>

text \<open>
  A schedule pays an agent, of the workspace or of another, or a marketplace listing, every hour,
  day, week or month. \<open>run_schedule_tick\<close> runs the earliest tick due in one transaction: the
  payment, its run row and the next tick; \<open>run_agent_schedules\<close> runs what is due, then the
  licences' renewals, then the top-ups. Standing orders to a saved outside payee are not modelled:
  every schedule here pays an agent or a listing.
\<close>

subsection \<open>Schedules\<close>

definition valid_every :: "string \<Rightarrow> bool" where
  "valid_every e \<longleftrightarrow> e \<in> {''hour'', ''day'', ''week'', ''month''}"

definition rule_error :: "string \<Rightarrow> err" where
  "rule_error why = ErrAgentRule (InvalidRules why)"

definition new_schedule ::
    "ctx \<Rightarrow> string \<Rightarrow> string \<Rightarrow> string \<Rightarrow> string \<Rightarrow> string \<Rightarrow> int \<Rightarrow> string \<Rightarrow> string \<Rightarrow> int \<Rightarrow> agent_schedule" where
  "new_schedule cx i w a b listing amount memo every first =
     \<lparr>sc_id = i, sc_ws = w, sc_from = a, sc_to = b, sc_listing = listing, sc_amount = amount, sc_memo = memo,
      sc_every = every, sc_next = first, sc_end = None, sc_active = True, sc_at = cx_now cx\<rparr>"

definition insert_schedule :: "db \<Rightarrow> agent_schedule \<Rightarrow> err + db \<times> agent_schedule" where
  "insert_schedule d c =
     (if list_ex (\<lambda>r. sc_id r = sc_id c) (schedules d) then Inl (ErrDbCheck ''agent_payment_schedules_pkey'')
      else if sc_amount c \<le> 0 then Inl (ErrDbCheck ''agent_payment_schedules_amount_ulxc_check'')
      else Inr (d\<lparr>schedules := schedules d @ [c]\<rparr>, c))"

definition create_agent_schedule ::
    "ctx \<Rightarrow> db \<Rightarrow> string \<Rightarrow> string \<Rightarrow> string \<Rightarrow> int \<Rightarrow> string \<Rightarrow> string \<Rightarrow> int \<Rightarrow> string \<Rightarrow> err + db \<times> agent_schedule" where
  "create_agent_schedule cx d w a b amount memo every first new_id =
     (if amount \<le> 0 then Inl (rule_error ''the amount must be positive'')
      else if \<not> valid_every every then Inl (rule_error ''every must be hour, day, week or month'')
      else if a = b then Inl ErrSameAgent
      else
        rbind (case find_agent d b of None \<Rightarrow> Inr () | Some r \<Rightarrow> check_money_wall d w (ag_ws r)) (\<lambda>_.
          if \<not> list_ex (is_agent_of w a) (agents d) \<or> find_agent d b = None then Inl ErrAgentNotFound
          else insert_schedule d (new_schedule cx new_id w a b '''' amount memo every first)))"

definition create_agent_listing_schedule ::
    "pay_desk \<Rightarrow> ctx \<Rightarrow> db \<Rightarrow> string \<Rightarrow> string \<Rightarrow> string \<Rightarrow> int \<Rightarrow> string \<Rightarrow> string \<Rightarrow> int \<Rightarrow> string \<Rightarrow>
     err + db \<times> agent_schedule" where
  "create_agent_listing_schedule pd cx d w a listing amount memo every first new_id =
     (if \<not> valid_every every then Inl (rule_error ''every must be hour, day, week or month'')
      else case pd_listings pd of
        None \<Rightarrow> Inl (ErrListingPayee ''the marketplace is not configured'')
      | Some mk \<Rightarrow>
          rbind (mk_payable mk d w listing) (\<lambda>p.
            case p of
              Inl refusal \<Rightarrow> Inl (ErrListingPayee refusal)
            | Inr price \<Rightarrow>
                let amount = (if amount = 0 then price else amount)
                in if amount < price then Inl (ErrListingPayee ''the listing costs more'')
                   else if \<not> list_ex (is_agent_of w a) (agents d) then Inl ErrAgentNotFound
                   else insert_schedule d (new_schedule cx new_id w a '''' listing amount memo every first)))"

definition list_agent_schedules :: "db \<Rightarrow> string \<Rightarrow> agent_schedule list" where
  "list_agent_schedules d w =
     take 500 (sort_key (\<lambda>c. (\<not> sc_active c, - sc_at c, sc_id c)) (filter (\<lambda>c. sc_ws c = w) (schedules d)))"

definition has_schedule :: "db \<Rightarrow> string \<Rightarrow> string \<Rightarrow> bool" where
  "has_schedule d w i \<longleftrightarrow> list_ex (\<lambda>c. sc_id c = i \<and> sc_ws c = w) (schedules d)"

definition list_agent_schedule_runs :: "deals \<Rightarrow> string \<Rightarrow> string \<Rightarrow> err + schedule_run list" where
  "list_agent_schedule_runs n w i =
     (if \<not> has_schedule (dl_db n) w i then Inl ErrScheduleNotFound
      else Inr (take 500 (sort_key (\<lambda>r. - sr_tick r) (filter (\<lambda>r. sr_schedule r = i) (dl_runs n)))))"

definition update_schedule :: "(agent_schedule \<Rightarrow> agent_schedule) \<Rightarrow> string \<Rightarrow> db \<Rightarrow> db" where
  "update_schedule f i d = d\<lparr>schedules := map (\<lambda>c. if sc_id c = i then f c else c) (schedules d)\<rparr>"

definition cancel_agent_schedule :: "db \<Rightarrow> string \<Rightarrow> string \<Rightarrow> err + db" where
  "cancel_agent_schedule d w i =
     (if \<not> has_schedule d w i then Inl ErrScheduleNotFound
      else Inr (update_schedule (\<lambda>c. if sc_ws c = w then c\<lparr>sc_active := False\<rparr> else c) i d))"

definition ends_by :: "agent_schedule \<Rightarrow> int \<Rightarrow> bool" where
  "ends_by c t \<longleftrightarrow> (case sc_end c of None \<Rightarrow> False | Some e \<Rightarrow> e < t)"

definition advanced :: "int \<Rightarrow> agent_schedule \<Rightarrow> agent_schedule" where
  "advanced t c = c\<lparr>sc_next := t, sc_active := (sc_active c \<and> \<not> ends_by c t)\<rparr>"

definition advance_schedule :: "db \<Rightarrow> agent_schedule \<Rightarrow> db" where
  "advance_schedule d c = update_schedule (advanced (next_tick (sc_next c) (sc_every c))) (sc_id c) d"

definition record_run ::
    "ctx \<Rightarrow> deals \<Rightarrow> agent_schedule \<Rightarrow> tick_outcome \<Rightarrow> nat option \<Rightarrow> string option \<Rightarrow> string \<Rightarrow> err + deals" where
  "record_run cx n c outcome entry used detail =
     (if list_ex (\<lambda>r. sr_schedule r = sc_id c \<and> sr_tick r = sc_next c) (dl_runs n)
      then Inl (ErrDbCheck ''agent_schedule_runs_pkey'')
      else Inr (n\<lparr>dl_runs := dl_runs n @ [\<lparr>sr_schedule = sc_id c, sr_tick = sc_next c, sr_outcome = outcome,
        sr_entry = entry, sr_use = used, sr_detail = detail, sr_at = cx_now cx\<rparr>]\<rparr>))"

text \<open>A tick counts as run: its row is written and the schedule moves on to the next.\<close>

definition count_tick ::
    "ctx \<Rightarrow> deals \<Rightarrow> agent_schedule \<Rightarrow> tick_outcome \<Rightarrow> nat option \<Rightarrow> string option \<Rightarrow> string \<Rightarrow> err + deals" where
  "count_tick cx n c outcome entry used detail =
     rbind (record_run cx n c outcome entry used detail) (\<lambda>n. Inr (n\<lparr>dl_db := advance_schedule (dl_db n) c\<rparr>))"

definition skip_agent_schedule_tick :: "ctx \<Rightarrow> deals \<Rightarrow> string \<Rightarrow> string \<Rightarrow> err + deals \<times> agent_schedule" where
  "skip_agent_schedule_tick cx n w i =
     (case find (\<lambda>c. sc_id c = i \<and> sc_ws c = w \<and> sc_active c) (schedules (dl_db n)) of
        None \<Rightarrow> Inl ErrScheduleNotFound
      | Some c \<Rightarrow> rbind (count_tick cx n c TickSkipped None None ''skipped by the owner'') (\<lambda>n.
          Inr (n, advanced (next_tick (sc_next c) (sc_every c)) c)))"

subsection \<open>One tick\<close>

definition pad :: "nat \<Rightarrow> int \<Rightarrow> string" where
  "pad k x = (let s = show_nat (nat x) in replicate (k - length s) (CHR ''0'') @ s)"

definition rfc3339 :: "int \<Rightarrow> string" where
  "rfc3339 t =
     (case civil_of_days (t div ns_day) of (y, m, d) \<Rightarrow>
        let s = t mod ns_day div ns_second
        in pad 4 y @ ''-'' @ pad 2 m @ ''-'' @ pad 2 d @ ''T'' @ pad 2 (s div 3600) @ '':'' @
           pad 2 (s mod 3600 div 60) @ '':'' @ pad 2 (s mod 60) @ ''Z'')"

definition tick_request :: "agent_schedule \<Rightarrow> int \<Rightarrow> agent_request" where
  "tick_request c now =
     no_request\<lparr>rq_payment := True, rq_at := Some now, rq_listing := sc_listing c,
       rq_payee := (if sc_listing c \<noteq> '''' then \<lparr>py_kind = ''listing'', py_id = sc_listing c, py_name = ''''\<rparr>
         else \<lparr>py_kind = ''agent'', py_id = sc_to c, py_name = ''''\<rparr>),
       rq_fingerprint := ''schedule:'' @ sc_id c @ '':'' @ rfc3339 (sc_next c)\<rparr>"

text \<open>\<open>ChargeScheduledListing\<close> (market/schedule.go): a refusal, or the listing's price judged and billed.\<close>

definition charge_scheduled_listing ::
    "marketplace \<Rightarrow> db \<Rightarrow> string \<Rightarrow> string \<Rightarrow> string \<Rightarrow> int \<Rightarrow> int \<Rightarrow> (int \<Rightarrow> err + db) \<Rightarrow> string \<Rightarrow> err + (string + db \<times> string)" where
  "charge_scheduled_listing mk d buyer a listing most at judge use_id =
     rbind (mk_payable mk d buyer listing) (\<lambda>p.
       case p of
         Inl refusal \<Rightarrow> Inr (Inl refusal)
       | Inr price \<Rightarrow>
           if price > most then Inr (Inl ''the listing now costs more a use than this schedule pays'')
           else
             rbind (mk_sellable mk d buyer) (\<lambda>r.
               case r of
                 Some why \<Rightarrow> Inr (Inl why)
               | None \<Rightarrow>
                   rbind (judge price) (\<lambda>d.
                   rbind (billed_use buyer a price at d) (\<lambda>d. Inr (Inr (d, use_id))))))"

definition pay_listing_tx :: "pay_desk \<Rightarrow> ctx \<Rightarrow> db \<Rightarrow> agent_schedule \<Rightarrow> string \<Rightarrow> err + db \<times> string" where
  "pay_listing_tx pd cx d c use_id =
     (case pd_listings pd of
        None \<Rightarrow> Inl (ErrListingPayee ''the marketplace is not configured'')
      | Some mk \<Rightarrow>
          let w = sc_ws c; a = sc_from c
          in rbind (lock_agent d w a) (\<lambda>_.
             rbind (charge_scheduled_listing mk d w a (sc_listing c) (sc_amount c) (sc_next c)
                 (\<lambda>price. enforce_agent_rules (dk_store (pd_desk pd)) cx d w a price (''schedule:'' @ sc_id c)) use_id) (\<lambda>r.
               case r of
                 Inl refusal \<Rightarrow> Inl (ErrListingPayee refusal)
               | Inr x \<Rightarrow> Inr x)))"

definition tick_transfer :: "agent_schedule \<Rightarrow> string \<Rightarrow> transfer" where
  "tick_transfer c payee_ws =
     (new_transfer (sc_ws c) (sc_from c) payee_ws (sc_to c) (sc_amount c) (sc_memo c))\<lparr>tr_schedule := sc_id c\<rparr>"

definition payee_ws_of :: "db \<Rightarrow> agent_schedule \<Rightarrow> err + string" where
  "payee_ws_of d c =
     (if sc_to c = '''' then Inr ''''
      else case find_agent d (sc_to c) of None \<Rightarrow> Inl (ErrInvalid ''schedule payee'') | Some r \<Rightarrow> Inr (ag_ws r))"

definition tick_payment ::
    "pay_desk \<Rightarrow> ctx \<Rightarrow> deals \<Rightarrow> agent_schedule \<Rightarrow> string \<Rightarrow> err + deals \<times> nat option \<times> string option" where
  "tick_payment pd cx n c new_id =
     rbind (payee_ws_of (dl_db n) c) (\<lambda>payee_ws.
       if sc_listing c \<noteq> '''' then
         rbind (pay_listing_tx pd cx (dl_db n) c new_id) (\<lambda>(d, i). Inr (n\<lparr>dl_db := d\<rparr>, None, Some i))
       else if payee_ws \<noteq> sc_ws c then
         rbind (transfer_tx (pd_desk pd) cx n (tick_transfer c payee_ws) True new_id) (\<lambda>(n, t).
           Inr (n, Some (tr_entry t), None))
       else
         rbind (pay_agent_tx (dk_store (pd_desk pd)) cx (dl_db n) (sc_ws c)
             (new_payment (sc_from c) (sc_to c) (sc_amount c) (sc_memo c))) (\<lambda>(d, p).
           Inr (n\<lparr>dl_db := d\<rparr>, Some (next_entry (dl_db n)), None)))"

text \<open>The refusals that count a tick as run; any other error fails it, and with it the run.\<close>

definition refuses_tick :: "err \<Rightarrow> bool" where
  "refuses_tick e \<longleftrightarrow> (case e of ErrAgentFunds _ \<Rightarrow> True | ErrAgentRule _ \<Rightarrow> True | ErrAgentRequestRate _ _ \<Rightarrow> True
     | ErrApprovalNeeded _ \<Rightarrow> True | ErrApprovalRequired _ \<Rightarrow> True | ErrAgentNotFound \<Rightarrow> True | ErrAgentOwnerless \<Rightarrow> True
     | ErrListingPayee _ \<Rightarrow> True | ErrOwnerUnverified \<Rightarrow> True | ErrCapability _ \<Rightarrow> True | ErrMoneyWall \<Rightarrow> True | _ \<Rightarrow> False)"

definition due_schedules :: "db \<Rightarrow> int \<Rightarrow> agent_schedule list" where
  "due_schedules d now = sort_key (\<lambda>c. (sc_next c, sc_id c))
     (filter (\<lambda>c. sc_active c \<and> sc_next c \<le> now) (schedules d))"

definition ran_as :: "deals \<Rightarrow> tick_outcome \<Rightarrow> err + deals \<Rightarrow> deals \<times> (err + tick_outcome option)" where
  "ran_as n outcome r = (case r of Inl e \<Rightarrow> (n, Inl e) | Inr n' \<Rightarrow> (n', Inr (Some outcome)))"

definition run_schedule_tick ::
    "pay_desk \<Rightarrow> (err \<Rightarrow> string) \<Rightarrow> ctx \<Rightarrow> (deals \<Rightarrow> string) \<Rightarrow> int \<Rightarrow> deals \<Rightarrow> deals \<times> (err + tick_outcome option)" where
  "run_schedule_tick pd told cx fresh now n =
     (case due_schedules (dl_db n) now of
        [] \<Rightarrow> (n, Inr None)
      | c # _ \<Rightarrow>
          (case tick_payment pd (with_agent_request cx (tick_request c now)) n c (fresh n) of
             Inr (n', entry, used) \<Rightarrow> ran_as n TickPaid (count_tick cx n' c TickPaid entry used '''')
           | Inl e \<Rightarrow>
               if refuses_tick e then ran_as n TickRefused (count_tick cx n c TickRefused None None (told e))
               else (n, Inl e)))"

subsection \<open>Top-ups\<close>

definition set_agent_top_up :: "db \<Rightarrow> string \<Rightarrow> string \<Rightarrow> int \<Rightarrow> int \<Rightarrow> err + db" where
  "set_agent_top_up d w a below to =
     (if below \<le> 0 \<or> to \<le> below then Inl (rule_error ''a top-up needs 0 < below_ulxc < to_ulxc'')
      else if \<not> list_ex (is_agent_of w a) (agents d) then Inl ErrAgentNotFound
      else if list_ex (\<lambda>t. tu_agent t = a) (topups d)
      then Inr (d\<lparr>topups := map (\<lambda>t. if tu_agent t = a then t\<lparr>tu_below := below, tu_to := to\<rparr> else t) (topups d)\<rparr>)
      else Inr (d\<lparr>topups := topups d @ [\<lparr>tu_agent = a, tu_ws = w, tu_below = below, tu_to = to\<rparr>]\<rparr>))"

definition get_agent_top_up :: "db \<Rightarrow> string \<Rightarrow> string \<Rightarrow> (int \<times> int) option" where
  "get_agent_top_up d w a =
     map_option (\<lambda>t. (tu_below t, tu_to t)) (find (\<lambda>t. tu_agent t = a \<and> tu_ws t = w) (topups d))"

definition remove_agent_top_up :: "db \<Rightarrow> string \<Rightarrow> string \<Rightarrow> db" where
  "remove_agent_top_up d w a = d\<lparr>topups := filter (\<lambda>t. \<not> (tu_agent t = a \<and> tu_ws t = w)) (topups d)\<rparr>"

definition top_up_agent :: "ctx \<Rightarrow> db \<Rightarrow> string \<Rightarrow> string \<Rightarrow> err + db \<times> int" where
  "top_up_agent cx d w a =
     rbind (lock_agent d w a) (\<lambda>_.
       case find (\<lambda>t. tu_agent t = a) (topups d) of
         None \<Rightarrow> Inr (d, 0)
       | Some t \<Rightarrow>
           let bal = account_balance d w (AgentAcc a)
           in if require_owner d a \<noteq> Inr () \<or> bal \<ge> tu_below t then Inr (d, 0)
              else (case read_lxc_balance d w of (d', ws_bal, _, _) \<Rightarrow>
                let amount = min (tu_to t - bal) (ws_bal - allocated d' w)
                in if amount \<le> 0 then Inr (d, 0)
                   else rbind (post_entry cx d' w PkTopUp '''' [(WorkspaceAcc, - amount), (AgentAcc a, amount)])
                     (\<lambda>d. Inr (d, amount))))"

fun top_up_all :: "ctx \<Rightarrow> db \<Rightarrow> (string \<times> string) list \<Rightarrow> db \<times> nat \<times> err option" where
  "top_up_all cx d [] = (d, 0, None)"
| "top_up_all cx d ((w, a) # due) =
     (case top_up_agent cx d w a of
        Inl e \<Rightarrow> (d, 0, Some e)
      | Inr (d, x) \<Rightarrow> (case top_up_all cx d due of (d, k, e) \<Rightarrow> (d, (if x > 0 then Suc k else k), e)))"

subsection \<open>A run\<close>

record schedule_result =
  rr_paid :: nat
  rr_refused :: nat
  rr_topped :: nat
  rr_renewed :: nat
  rr_unpaid :: nat

definition tick_counts :: "tick_outcome list \<Rightarrow> schedule_result" where
  "tick_counts outs = \<lparr>rr_paid = length (filter (\<lambda>x. x = TickPaid) outs),
     rr_refused = length (filter (\<lambda>x. x \<noteq> TickPaid) outs), rr_topped = 0, rr_renewed = 0, rr_unpaid = 0\<rparr>"

text \<open>\<open>renew\<close> is the marketplace's \<open>RenewLicences\<close> when its charger renews licences.\<close>

definition run_agent_schedules ::
    "pay_desk \<Rightarrow> (err \<Rightarrow> string) \<Rightarrow> ctx \<Rightarrow> (deals \<Rightarrow> string) \<Rightarrow> (deals \<Rightarrow> deals \<times> (nat \<times> nat) \<times> err option) option \<Rightarrow>
     int \<Rightarrow> deals \<Rightarrow> deals \<times> schedule_result \<times> err list" where
  "run_agent_schedules pd told cx fresh renew now n =
     (case run_ticks (run_schedule_tick pd told cx fresh now) max_ticks_per_run n of (n, outs, tick_err) \<Rightarrow>
        (case (case renew of None \<Rightarrow> (n, (0, 0), None) | Some f \<Rightarrow> f n) of (n, (renewed, unpaid), renew_err) \<Rightarrow>
           let res = (tick_counts outs)\<lparr>rr_renewed := renewed, rr_unpaid := unpaid\<rparr>;
               errs = (case tick_err of None \<Rightarrow> [] | Some e \<Rightarrow> [e]) @ (case renew_err of None \<Rightarrow> [] | Some e \<Rightarrow> [e])
           in if errs \<noteq> [] then (n, res, errs)
              else (case top_up_all cx (dl_db n) (map (\<lambda>t. (tu_ws t, tu_agent t)) (topups (dl_db n))) of (d, k, e) \<Rightarrow>
                (n\<lparr>dl_db := d\<rparr>, res\<lparr>rr_topped := k\<rparr>, (case e of None \<Rightarrow> [] | Some e \<Rightarrow> [e])))))"

end
