(* ===== verification/Schedule_Runs.thy ===== *)
theory Schedule_Runs
  imports Agent_Schedules
begin

section \<open>What the schedules and the top-ups do\<close>

text \<open>
  \<open>schedules_ok\<close> is what the tables of schedules and runs keep: each tick ran at most once, and
  every run of a schedule is of a tick before its next. A tick is then shown to pay as an ordinary
  payment or to change nothing but its own row, to fail only for what is not a refusal, and a run
  to come to an end with nothing due. The last part is the top-ups.
\<close>

subsection \<open>What a payment leaves of the schedules\<close>

definition plan_same :: "db \<Rightarrow> db \<Rightarrow> bool" where
  "plan_same d d' \<longleftrightarrow> schedules d' = schedules d \<and> topups d' = topups d \<and> agent_places d' = agent_places d"

lemma plan_same_refl [simp]: "plan_same d d"
  by (simp add: plan_same_def)

lemma plan_same_trans: "plan_same d e \<Longrightarrow> plan_same e f \<Longrightarrow> plan_same d f"
  by (simp add: plan_same_def)

lemma record_payee_plan: "plan_same d (record_payee_payment cx d w a req ids amount ref)"
  by (simp add: plan_same_def record_payee_payment_def Let_def agent_places_def)

lemma watch_plan: "schedules (watch_agent_spend cx d w a amount now on) = schedules d"
  "topups (watch_agent_spend cx d w a amount now on) = topups d"
  by (simp_all add: watch_agent_spend_def Let_def revoke_agent_kya_def revoke_kya_def update_agent_where_def)

lemma judge_approval_plan:
  "judge_approval d r w a req amount ref = Inr d' \<Longrightarrow> schedules d' = schedules d \<and> topups d' = topups d"
  by (auto simp: judge_approval_def use_approval_def Let_def split: if_splits option.splits)

lemma enforce_plan:
  assumes e: "enforce_agent_rules s cx d w a amount ref = Inr d'"
  shows "plan_same d d'"
proof -
  have "schedules d' = schedules d \<and> topups d' = topups d"
  proof (cases "agent_rules_in_force d a (req_time cx (agent_request_from cx))")
    case None
    then show ?thesis using e record_payee_plan by (auto simp: enforce_agent_rules_def Let_def watch_plan plan_same_def)
  next
    case (Some r)
    then obtain f ids where f: "judge_approval d r w a (agent_request_from cx) amount ref = Inr f"
      and d': "d' = watch_agent_spend cx (record_payee_payment cx f w a (agent_request_from cx) ids amount ref)
        w a amount (req_time cx (agent_request_from cx)) (rl_pause_on_unusual r)"
      using e by (auto simp: enforce_agent_rules_def Let_def split: option.splits)
    show ?thesis
      using judge_approval_plan [OF f] record_payee_plan [of f cx w a "agent_request_from cx" ids amount ref]
      by (simp add: d' watch_plan plan_same_def)
  qed
  then show ?thesis using enforce_quiet [OF e] by (simp add: plan_same_def rules_quiet_def)
qed

lemma shift_plan [simp]:
  "schedules (shift_balance cx d w x ty de me) = schedules d" "topups (shift_balance cx d w x ty de me) = topups d"
  by (simp_all add: shift_balance_eq write_lxc_balance_def insert_lxc_ledger_def ensure_lxc_row_def
      split: option.split)

lemma read_rows_plan [simp]: "schedules (read_rows d a b) = schedules d" "topups (read_rows d a b) = topups d"
  by (simp_all add: read_rows_def ensure_lxc_row_def split: option.split)

lemma set_test_plan [simp]:
  "schedules (set_test_funded d w x) = schedules d" "topups (set_test_funded d w x) = topups d"
  "schedules (add_test_funded d w x) = schedules d" "topups (add_test_funded d w x) = topups d"
  by (simp_all add: set_test_funded_def add_test_funded_def split: option.split)

lemma spend_plan:
  "spend_for_capability s cx g d w key x = Inr (d', t) \<Longrightarrow> schedules d' = schedules d \<and> topups d' = topups d"
  by (auto simp: spend_for_capability_def Let_def split: option.splits if_splits)

lemma move_credits_plan:
  "move_credits s cx g d key t = Inr (d', t') \<Longrightarrow> schedules d' = schedules d \<and> topups d' = topups d"
  by (auto simp: move_credits_def Let_def move_lxc_def split: if_splits dest!: spend_plan)

lemma across_plan [simp]: "plan_same d (across_db cx d kind ref ls)"
  by (simp add: plan_same_def across_db_def agent_places_def)

lemma transfer_plan:
  assumes r: "transfer_tx dk cx n t judged new_id = Inr (n', t')" and tn: "\<And>v. 0 \<le> test_of (dl_db n) v"
  shows "plan_same (dl_db n) (dl_db n')" and "dl_runs n' = dl_runs n"
proof -
  show "dl_runs n' = dl_runs n" by (subst transfer_row(2) [OF r], simp)
  from r obtain d1 d2 t2 where pos: "0 < tr_amount t"
    and e: "if judged then enforce_agent_rules (dk_store dk) cx (dl_db n) (tr_from_ws t) (tr_from t) (tr_amount t)
        (tr_id (filled n t new_id)) = Inr d1 else d1 = dl_db n"
    and m: "move_credits (dk_store dk) cx (dl_gates n) d1 (transfer_key n t) (filled n t new_id) = Inr (d2, t2)"
    and n': "n' = n\<lparr>dl_db := across_db cx d2 PkTransfer (tr_id (filled n t new_id)) (transfer_legs (filled n t new_id)),
      dl_transfers := dl_transfers n @ [t'\<lparr>tr_capability := ''''\<rparr>]\<rparr>"
    by (rule transfer_tx_InrD)
  have 1: "plan_same (dl_db n) d1" using e by (cases judged) (auto dest: enforce_plan)
  have q: "rules_quiet (dl_db n) d1" using e by (cases judged) (auto dest: enforce_quiet)
  have pos': "0 < tr_amount (filled n t new_id)" and tn1: "\<And>v. 0 \<le> test_of d1 v"
    using pos tn same_money_views(3) [OF quiet_money [OF q]] by simp_all
  have "plan_same d1 d2"
    using move_credits_plan [OF m] move_credits_agents [OF m pos' tn1] by (simp add: plan_same_def agent_places_def)
  then show "plan_same (dl_db n) (dl_db n')" using 1 across_plan by (auto simp: n' intro: plan_same_trans)
qed

lemma billed_use_plan: "billed_use buyer a price at d = Inr d' \<Longrightarrow> plan_same d d'"
  by (auto dest!: billed_use_InrD simp: plan_same_def agent_places_def)

lemma pay_plan: "pay_agent_tx s cx d w pay = Inr (d', pay') \<Longrightarrow> plan_same d d'"
  by (erule pay_agent_tx_InrD) (auto dest!: enforce_plan intro: plan_same_trans)

lemma pay_listing_InrD:
  assumes "pay_listing_tx pd cx d c use_id = Inr (d', i)"
  shows "i = use_id \<and> (\<exists>mk price e. pd_listings pd = Some mk \<and> mk_payable mk d (sc_ws c) (sc_listing c) = Inr (Inr price) \<and>
    price \<le> sc_amount c \<and> lock_agent d (sc_ws c) (sc_from c) = Inr () \<and>
    enforce_agent_rules (dk_store (pd_desk pd)) cx d (sc_ws c) (sc_from c) price (''schedule:'' @ sc_id c) = Inr e \<and>
    billed_use (sc_ws c) (sc_from c) price (sc_next c) e = Inr d')"
  using assms
  by (auto simp: pay_listing_tx_def charge_scheduled_listing_def Let_def split: option.splits sum.splits if_splits)

text \<open>What a tick's payment does, whichever it is.\<close>

lemma tick_payment_InrD:
  assumes "tick_payment pd cx n c new_id = Inr (n', entry, used)"
  obtains (listing) d mk price e where "sc_listing c \<noteq> ''''" "n' = n\<lparr>dl_db := d\<rparr>" "entry = None" "used = Some new_id"
      "pd_listings pd = Some mk" "mk_payable mk (dl_db n) (sc_ws c) (sc_listing c) = Inr (Inr price)" "price \<le> sc_amount c"
      "enforce_agent_rules (dk_store (pd_desk pd)) cx (dl_db n) (sc_ws c) (sc_from c) price (''schedule:'' @ sc_id c) = Inr e"
      "billed_use (sc_ws c) (sc_from c) price (sc_next c) e = Inr d"
    | (transfer) r t where "sc_listing c = ''''" "payee_ws_of (dl_db n) c = Inr r" "r \<noteq> sc_ws c"
      "transfer_tx (pd_desk pd) cx n (tick_transfer c r) True new_id = Inr (n', t)" "entry = Some (tr_entry t)" "used = None"
    | (payment) d p where "sc_listing c = ''''" "payee_ws_of (dl_db n) c = Inr (sc_ws c)" "n' = n\<lparr>dl_db := d\<rparr>"
      "pay_agent_tx (dk_store (pd_desk pd)) cx (dl_db n) (sc_ws c)
        (new_payment (sc_from c) (sc_to c) (sc_amount c) (sc_memo c)) = Inr (d, p)"
      "entry = Some (next_entry (dl_db n))" "used = None"
proof -
  from assms obtain r where r: "payee_ws_of (dl_db n) c = Inr r" by (auto simp: tick_payment_def)
  consider "sc_listing c \<noteq> ''''" | "sc_listing c = ''''" "r \<noteq> sc_ws c" | "sc_listing c = ''''" "r = sc_ws c" by blast
  then show thesis
  proof cases
    case 1
    then have "rbind (pay_listing_tx pd cx (dl_db n) c new_id) (\<lambda>(d, i). Inr (n\<lparr>dl_db := d\<rparr>, None, Some i)) = Inr (n', entry, used)"
      using assms r by (simp add: tick_payment_def)
    then obtain d i where p: "pay_listing_tx pd cx (dl_db n) c new_id = Inr (d, i)"
      and e: "n' = n\<lparr>dl_db := d\<rparr>" "entry = None" "used = Some i" by auto
    then show thesis using listing [OF 1 e(1,2)] pay_listing_InrD [OF p] by blast
  next
    case 2
    then have "rbind (transfer_tx (pd_desk pd) cx n (tick_transfer c r) True new_id) (\<lambda>(n, t). Inr (n, Some (tr_entry t), None)) =
        Inr (n', entry, used)"
      using assms r by (simp add: tick_payment_def)
    then show thesis using transfer [OF 2(1) r 2(2)] by auto
  next
    case 3
    then have "rbind (pay_agent_tx (dk_store (pd_desk pd)) cx (dl_db n) (sc_ws c)
        (new_payment (sc_from c) (sc_to c) (sc_amount c) (sc_memo c))) (\<lambda>(d, p).
          Inr (n\<lparr>dl_db := d\<rparr>, Some (next_entry (dl_db n)), None)) = Inr (n', entry, used)"
      using assms r by (simp add: tick_payment_def)
    then show thesis using payment [OF 3(1)] r 3(2) by auto
  qed
qed

lemma tick_payment_plan:
  assumes "tick_payment pd cx n c new_id = Inr (n', entry, used)" and tn: "\<And>v. 0 \<le> test_of (dl_db n) v"
  shows "plan_same (dl_db n) (dl_db n')" and "dl_runs n' = dl_runs n"
proof -
  have "plan_same (dl_db n) (dl_db n') \<and> dl_runs n' = dl_runs n"
    using assms(1)
  proof (cases rule: tick_payment_InrD)
    case (listing d mk price e)
    then show ?thesis using plan_same_trans [OF enforce_plan billed_use_plan] by simp
  next
    case (transfer r t)
    then show ?thesis using transfer_plan [OF transfer(4) tn] by blast
  next
    case (payment d p)
    then show ?thesis using pay_plan [OF payment(4)] by simp
  qed
  then show "plan_same (dl_db n) (dl_db n')" "dl_runs n' = dl_runs n" by simp_all
qed

text \<open>And what it keeps: the books, every credit there is, the escrows and the loans.\<close>

lemma tick_payment_ok:
  assumes ok: "all_ok n" and r: "tick_payment pd cx n c new_id = Inr (n', entry, used)" and pos: "0 < sc_amount c"
  shows "loan_op_ok n n'"
proof -
  have b: "books (dl_db n)" using ok by (simp add: all_ok_def deals_ok_def)
  show ?thesis
    using r
  proof (cases rule: tick_payment_InrD)
    case (listing d mk price e)
    have "same_money (dl_db n) d"
      using same_money_trans [OF quiet_money [OF enforce_quiet [OF listing(8)]] billed_use_money [OF listing(9)]] .
    then show ?thesis using wallet_op_money [OF b] by (intro wallet_op_ok [OF ok]) (simp_all add: listing(2))
  next
    case (transfer r t)
    show ?thesis by (rule transfer_op [OF ok transfer(4)]) (simp add: tick_transfer_def new_transfer_def)
  next
    case (payment d p)
    have "wallet_op (dl_db n) d"
      by (rule pay_wallet_op [OF payment(4) _ b]) (simp add: new_payment_def pos)
    then show ?thesis by (intro wallet_op_ok [OF ok]) (simp_all add: payment(3))
  qed
qed

subsection \<open>Each tick once\<close>

definition run_key :: "schedule_run \<Rightarrow> string \<times> int" where
  "run_key r = (sr_schedule r, sr_tick r)"

definition schedule_ok :: "db \<Rightarrow> agent_schedule \<Rightarrow> bool" where
  "schedule_ok d c \<longleftrightarrow> 0 < sc_amount c \<and> sc_from c \<noteq> sc_to c \<and>
     (sc_to c \<noteq> '''' \<longrightarrow> sc_to c \<in> fst ` set (agent_places d)) \<and> (sc_to c = '''' \<longrightarrow> sc_listing c \<noteq> '''')"

definition schedules_ok :: "deals \<Rightarrow> bool" where
  "schedules_ok n \<longleftrightarrow> distinct (map sc_id (schedules (dl_db n))) \<and> distinct (map run_key (dl_runs n)) \<and>
     (\<forall>c \<in> set (schedules (dl_db n)). schedule_ok (dl_db n) c) \<and>
     (\<forall>r \<in> set (dl_runs n). \<exists>c \<in> set (schedules (dl_db n)). sc_id c = sr_schedule r \<and> sr_tick r < sc_next c)"

lemma schedules_okD:
  assumes "schedules_ok n"
  shows "distinct (map sc_id (schedules (dl_db n)))" and "distinct (map run_key (dl_runs n))"
    and "c \<in> set (schedules (dl_db n)) \<Longrightarrow> schedule_ok (dl_db n) c"
    and "c \<in> set (schedules (dl_db n)) \<Longrightarrow> r \<in> set (dl_runs n) \<Longrightarrow> sr_schedule r = sc_id c \<Longrightarrow> sr_tick r < sc_next c"
proof -
  show "distinct (map sc_id (schedules (dl_db n)))" "distinct (map run_key (dl_runs n))"
    "c \<in> set (schedules (dl_db n)) \<Longrightarrow> schedule_ok (dl_db n) c"
    using assms by (simp_all add: schedules_ok_def)
  show "sr_tick r < sc_next c"
    if c: "c \<in> set (schedules (dl_db n))" and r: "r \<in> set (dl_runs n)" "sr_schedule r = sc_id c"
  proof -
    obtain c' where "c' \<in> set (schedules (dl_db n))" "sc_id c' = sr_schedule r" "sr_tick r < sc_next c'"
      using assms r(1) by (auto simp: schedules_ok_def)
    moreover from this have "c' = c"
      using assms c r(2) by (auto simp: schedules_ok_def distinct_map dest: inj_onD)
    ultimately show ?thesis by simp
  qed
qed

lemma advanced_simps [simp]:
  "sc_id (advanced t c) = sc_id c" "sc_next (advanced t c) = t" "sc_amount (advanced t c) = sc_amount c"
  "sc_from (advanced t c) = sc_from c" "sc_to (advanced t c) = sc_to c" "sc_listing (advanced t c) = sc_listing c"
  "sc_active (advanced t c) \<longleftrightarrow> sc_active c \<and> \<not> ends_by c t" "sc_every (advanced t c) = sc_every c"
  by (simp_all add: advanced_def)

lemma schedule_ok_same:
  "schedule_ok d c \<Longrightarrow> agent_places d' = agent_places d \<Longrightarrow> sc_amount c' = sc_amount c \<Longrightarrow> sc_from c' = sc_from c \<Longrightarrow>
    sc_to c' = sc_to c \<Longrightarrow> sc_listing c' = sc_listing c \<Longrightarrow> schedule_ok d' c'"
  by (simp add: schedule_ok_def)

lemma advance_db [simp]:
  "agent_places (advance_schedule d c) = agent_places d" "topups (advance_schedule d c) = topups d"
  "schedules (advance_schedule d c) = map (\<lambda>x. if sc_id x = sc_id c
     then advanced (next_tick (sc_next c) (sc_every c)) x else x) (schedules d)"
  by (simp_all add: advance_schedule_def update_schedule_def agent_places_def)

lemma next_tick_after: "t < next_tick t every"
  using next_tick_later [of t every] by (simp add: ns_defs)

text \<open>Counting a tick always succeeds, and is the tick's only run.\<close>

lemma count_tick_ok:
  assumes ok: "schedules_ok n" and c: "c \<in> set (schedules (dl_db n))"
  obtains n' where "count_tick cx n c outcome entry used detail = Inr n'"
    and "n' = n\<lparr>dl_db := advance_schedule (dl_db n) c, dl_runs := dl_runs n @ [\<lparr>sr_schedule = sc_id c,
      sr_tick = sc_next c, sr_outcome = outcome, sr_entry = entry, sr_use = used, sr_detail = detail, sr_at = cx_now cx\<rparr>]\<rparr>"
    and "schedules_ok n'"
proof -
  note O = schedules_okD [OF ok]
  let ?r = "\<lparr>sr_schedule = sc_id c, sr_tick = sc_next c, sr_outcome = outcome, sr_entry = entry, sr_use = used,
     sr_detail = detail, sr_at = cx_now cx\<rparr>"
  let ?n = "n\<lparr>dl_db := advance_schedule (dl_db n) c, dl_runs := dl_runs n @ [?r]\<rparr>"
  let ?f = "\<lambda>x. if sc_id x = sc_id c then advanced (next_tick (sc_next c) (sc_every c)) x else x"
  have fresh: "\<not> (\<exists>r \<in> set (dl_runs n). sr_schedule r = sc_id c \<and> sr_tick r = sc_next c)"
    using O(4) [OF c] by fastforce
  then have r: "count_tick cx n c outcome entry used detail = Inr ?n"
    by (simp add: count_tick_def record_run_def list_ex_iff)
  have same: "x = c" if "x \<in> set (schedules (dl_db n))" "sc_id x = sc_id c" for x
    using O(1) c that by (auto simp: distinct_map dest: inj_onD)
  have ids: "map sc_id (schedules (dl_db ?n)) = map sc_id (schedules (dl_db n))" by simp
  have "distinct (map run_key (dl_runs ?n))" using O(2) fresh by (auto simp: run_key_def)
  moreover have "schedule_ok (dl_db ?n) x" if "x \<in> set (schedules (dl_db ?n))" for x
    using that O(3) by (auto simp: schedule_ok_def)
  moreover have "\<exists>y \<in> set (schedules (dl_db ?n)). sc_id y = sr_schedule r \<and> sr_tick r < sc_next y"
    if "r \<in> set (dl_runs ?n)" for r
  proof (cases "r = ?r")
    case True
    then show ?thesis using c next_tick_after by (auto intro!: bexI [of _ "?f c"])
  next
    case False
    then have "r \<in> set (dl_runs n)" using that by simp
    then obtain y where y: "y \<in> set (schedules (dl_db n))" "sc_id y = sr_schedule r" "sr_tick r < sc_next y"
      using ok by (auto simp: schedules_ok_def)
    have "sr_tick r < sc_next (?f y)"
      using y same [of y] next_tick_after [of "sc_next c" "sc_every c"] by auto
    then show ?thesis using y by (intro bexI [of _ "?f y"]) auto
  qed
  ultimately have "schedules_ok ?n" using O(1) unfolding schedules_ok_def ids by blast
  with r show thesis using that by blast
qed

lemma schedules_ok_plan: "schedules_ok n \<Longrightarrow> plan_same (dl_db n) (dl_db n') \<Longrightarrow> dl_runs n' = dl_runs n \<Longrightarrow> schedules_ok n'"
  by (simp add: schedules_ok_def plan_same_def schedule_ok_def)

lemma advance_wallet:
  assumes "all_ok n"
  shows "loan_op_ok n (n\<lparr>dl_db := advance_schedule (dl_db n) c, dl_runs := rs\<rparr>)"
proof -
  have "books (dl_db n)" using assms by (simp add: all_ok_def deals_ok_def)
  moreover have "same_money (dl_db n) (advance_schedule (dl_db n) c)"
    by (simp add: same_money_def advance_schedule_def update_schedule_def)
  ultimately show ?thesis by (intro wallet_op_ok [OF assms]) (simp_all add: wallet_op_money)
qed

lemma due_in:
  assumes "due_schedules d now = c # cs"
  shows "c \<in> set (schedules d)" and "sc_active c" and "sc_next c \<le> now"
proof -
  have "c \<in> set (due_schedules d now)" by (simp add: assms)
  then show "c \<in> set (schedules d)" "sc_active c" "sc_next c \<le> now" by (auto simp: due_schedules_def)
qed

text \<open>
  What one tick does: nothing when nothing is due; the payment, the run and the next tick; for a
  refusal the run and the next tick and nothing else; for any other error nothing.
\<close>

lemma tick_cases:
  assumes ok: "all_ok n" "schedules_ok n" and r: "run_schedule_tick pd told cx fresh now n = (n', out)"
  obtains (idle) "due_schedules (dl_db n) now = []" "n' = n" "out = Inr None"
    | (paid) c cs m entry used where "due_schedules (dl_db n) now = c # cs"
      "tick_payment pd (with_agent_request cx (tick_request c now)) n c (fresh n) = Inr (m, entry, used)"
      "count_tick cx m c TickPaid entry used '''' = Inr n'" "out = Inr (Some TickPaid)" "schedules_ok m"
      "plan_same (dl_db n) (dl_db m)" "dl_runs m = dl_runs n" "loan_op_ok n m"
    | (refused) c cs e where "due_schedules (dl_db n) now = c # cs"
      "tick_payment pd (with_agent_request cx (tick_request c now)) n c (fresh n) = Inl e" "refuses_tick e"
      "count_tick cx n c TickRefused None None (told e) = Inr n'" "out = Inr (Some TickRefused)"
    | (failed) c cs e where "due_schedules (dl_db n) now = c # cs"
      "tick_payment pd (with_agent_request cx (tick_request c now)) n c (fresh n) = Inl e" "\<not> refuses_tick e"
      "n' = n" "out = Inl e"
proof (cases "due_schedules (dl_db n) now")
  case Nil
  then have "n' = n" "out = Inr None" using r by (simp_all add: run_schedule_tick_def)
  with Nil show thesis by (rule idle)
next
  case (Cons c cs)
  let ?p = "tick_payment pd (with_agent_request cx (tick_request c now)) n c (fresh n)"
  note D = due_in [OF Cons]
  have b: "books (dl_db n)" using ok by (simp add: all_ok_def deals_ok_def)
  have tn: "\<And>v. 0 \<le> test_of (dl_db n) v" using b by (auto simp: books_slack_0 dest: slackD(7))
  show thesis
  proof (cases ?p)
    case (Inl e)
    show thesis
    proof (cases "refuses_tick e")
      case True
      obtain m where m: "count_tick cx n c TickRefused None None (told e) = Inr m"
        using count_tick_ok [OF ok(2) D(1)] by blast
      then have "n' = m" "out = Inr (Some TickRefused)"
        using r Cons Inl True by (simp_all add: run_schedule_tick_def ran_as_def)
      with m show thesis using refused [OF Cons Inl True] by blast
    next
      case False
      then have "n' = n" "out = Inl e" using r Cons Inl by (simp_all add: run_schedule_tick_def)
      then show thesis by (rule failed [OF Cons Inl False])
    qed
  next
    case (Inr y)
    obtain m entry used where y: "y = (m, entry, used)" by (cases y)
    note P = tick_payment_plan [OF Inr [unfolded y] tn]
    have m: "schedules_ok m" using ok(2) P by (rule schedules_ok_plan)
    have cm: "c \<in> set (schedules (dl_db m))" using D(1) P(1) by (simp add: plan_same_def)
    have "schedule_ok (dl_db n) c" using schedules_okD(3) [OF ok(2) D(1)] .
    then have k: "loan_op_ok n m"
      using tick_payment_ok [OF ok(1) Inr [unfolded y]] by (simp add: schedule_ok_def)
    obtain q where q: "count_tick cx m c TickPaid entry used '''' = Inr q"
      using count_tick_ok [OF m cm] by blast
    have e: "n' = q \<and> out = Inr (Some TickPaid)"
      using r Cons Inr y q by (simp add: run_schedule_tick_def ran_as_def)
    show thesis by (rule paid [OF Cons Inr [unfolded y] _ _ m P k]) (use e q in simp_all)
  qed
qed

subsection \<open>A tick fails only for what is not a refusal\<close>

text \<open>
  \<open>services_answer\<close> is what the run relies on of what it calls: the owner verifier and the
  marketplace answer (whatever they answer), a listing's price is positive, and the ids generated
  are new.
\<close>

definition market_answers :: "marketplace \<Rightarrow> bool" where
  "market_answers mk \<longleftrightarrow>
     (\<forall>d b l. case mk_payable mk d b l of Inl e \<Rightarrow> False | Inr (Inl why) \<Rightarrow> True | Inr (Inr price) \<Rightarrow> 0 < price) \<and>
     (\<forall>d b. \<not> isl (mk_sellable mk d b))"

definition services_answer :: "pay_desk \<Rightarrow> (deals \<Rightarrow> string) \<Rightarrow> bool" where
  "services_answer pd fresh \<longleftrightarrow>
     (\<forall>v d w. dk_verifier (pd_desk pd) = Some v \<longrightarrow> \<not> isl (v d w)) \<and>
     (\<forall>mk. pd_listings pd = Some mk \<longrightarrow> market_answers mk) \<and>
     (\<forall>n. fresh n \<notin> tr_id ` set (dl_transfers n))"

lemma refuses_simps [simp]:
  "refuses_tick (ErrAgentFunds x)" "refuses_tick (ErrAgentRule why)" "refuses_tick (ErrAgentRequestRate rpm k)"
  "refuses_tick (ErrApprovalNeeded q)" "refuses_tick ErrAgentNotFound" "refuses_tick ErrAgentOwnerless"
  "refuses_tick (ErrListingPayee s)" "refuses_tick ErrOwnerUnverified" "refuses_tick (ErrCapability r)"
  "refuses_tick ErrMoneyWall"
  by (simp_all add: refuses_tick_def)

lemma as_rule_refuses: "as_rule r = Inl e \<Longrightarrow> refuses_tick e"
  by (auto simp: as_rule_def split: sum.splits)

lemma judge_amount_refuses: "judge_amount d r loc w a req at ids x = Inl e \<Longrightarrow> refuses_tick e"
  by (auto simp: judge_amount_def Let_def rbind_Inl_iff guard_def dest: as_rule_refuses split: if_splits prod.splits)

lemma judge_approval_refuses: "judge_approval d r w a req x ref = Inl e \<Longrightarrow> refuses_tick e"
  by (auto simp: judge_approval_def split: if_splits option.splits)

lemma paused_refuses: "find_agent d a \<noteq> None \<Longrightarrow> refuse_if_paused d a = Inl e \<Longrightarrow> refuses_tick e"
  by (auto simp: refuse_if_paused_def Let_def split: option.splits if_splits)

lemma enforce_refuses:
  assumes a: "lock_agent d w a = Inr ()" and e: "enforce_agent_rules s cx d w a x ref = Inl e"
  shows "refuses_tick e"
proof -
  have f: "find_agent d a \<noteq> None" using lock_agent_InrD [OF a] by auto
  show ?thesis
    using e paused_refuses [OF f]
    by (auto simp: enforce_agent_rules_def Let_def rbind_Inl_iff dest: as_rule_refuses judge_amount_refuses
        judge_approval_refuses split: option.splits)
qed

lemma lock_refuses: "lock_agent d w a = Inl e \<Longrightarrow> refuses_tick e"
  by (auto simp: lock_agent_def split: if_splits option.splits)

lemma refusal_refuses: "refusal_err r = Inl e \<Longrightarrow> refuses_tick e"
  by (auto simp: refusal_err_def split: option.splits)

lemma spend_refuses:
  "capability_by_key key \<noteq> None \<Longrightarrow> spend_for_capability s cx g d w key x = Inl e \<Longrightarrow> refuses_tick e"
  by (auto simp: spend_for_capability_def Let_def rbind_Inl_iff refuse_frozen_def refuse_unaccepted_def
      dest: refusal_refuses split: option.splits if_splits)

lemma move_credits_refuses:
  assumes "capability_by_key key \<noteq> None" and "move_credits s cx g d key t = Inl e"
  shows "refuses_tick e"
  using assms spend_refuses [OF assms(1)]
  by (auto simp: move_credits_def Let_def rbind_Inl_iff across_freeze_def refuse_frozen_any_class_def
      dest: refusal_refuses split: option.splits if_splits)

lemma payment_keys:
  "capability_by_key ''move_between_own_agents'' \<noteq> None" "capability_by_key ''pay_another_owner'' \<noteq> None"
  "capability_by_key '''' = None"
proof -
  have "\<not> Option.is_none (capability_by_key ''move_between_own_agents'')"
    "\<not> Option.is_none (capability_by_key ''pay_another_owner'')" by code_simp+
  then show "capability_by_key ''move_between_own_agents'' \<noteq> None" "capability_by_key ''pay_another_owner'' \<noteq> None"
    by (auto simp: Option.is_none_def)
  show "capability_by_key '''' = None" by code_simp
qed

lemma new_transfer_class:
  "transfer_class ((new_transfer v a w b x m)\<lparr>tr_schedule := i, tr_to_ws := u\<rparr>) same =
    (if same then (''move_between_own_agents'', Green) else (''pay_another_owner'', Amber))"
  by (simp add: transfer_class_def new_transfer_def payment_keys)

lemma owner_refuses:
  assumes v: "\<forall>v d w. dk_verifier dk = Some v \<longrightarrow> \<not> isl (v d w)" and a: "lock_agent d w a = Inr ()"
    and e: "owner_verified dk d w a = Inl e"
  shows "refuses_tick e"
proof -
  have m: "may_earn dk d w \<noteq> Inl x" for x
  proof (cases "dk_verifier dk")
    case (Some f)
    then have "f d w \<noteq> Inl x" using v by (metis isl_def)
    then show ?thesis using Some by (simp add: may_earn_def)
  qed (simp add: may_earn_def)
  show ?thesis
    using e m lock_agent_InrD [OF a] by (auto simp: owner_verified_def rbind_Inl_iff split: if_splits option.splits)
qed

lemma sides_refuse:
  assumes v: "\<forall>v d w. dk_verifier dk = Some v \<longrightarrow> \<not> isl (v d w)" and e: "transfer_sides dk d t = Inl e"
  shows "refuses_tick e"
proof -
  obtain x y where xy: "sides_in_order t = (x, y)" by (cases "sides_in_order t")
  show ?thesis
    using e owner_refuses [OF v]
    by (auto simp: transfer_sides_def xy lock_sides_def rbind_Inl_iff rbind_Inr_iff dest: lock_refuses)
qed

lemma make_transfer_refuses:
  assumes a: "lock_agent (dl_db n) (tr_from_ws t) (tr_from t) = Inr ()" and k: "capability_by_key key \<noteq> None"
    and pos: "0 < tr_amount t" and i: "tr_id t \<notin> tr_id ` set (dl_transfers n)" and c: "tr_class t \<noteq> Red" "tr_refund_of t = ''''"
    and e: "make_transfer dk cx n t key judged = Inl e"
  shows "refuses_tick e"
proof -
  have f: "tr_amount t2 = tr_amount t \<and> tr_id t2 = tr_id t \<and> tr_class t2 = tr_class t \<and> tr_refund_of t2 = tr_refund_of t \<and>
      tr_from_ws t2 = tr_from_ws t \<and> tr_from t2 = tr_from t \<and> tr_to_ws t2 = tr_to_ws t \<and> tr_to t2 = tr_to t"
    if "move_credits (dk_store dk) cx (dl_gates n) d1 key t = Inr (d2, t2)" for d1 d2 t2
    by (subst (1 2 3 4 5 6 7 8) move_credits_row [OF that]) simp
  show ?thesis
  proof (cases "account_balance (dl_db n) (tr_from_ws t) (AgentAcc (tr_from t)) < tr_amount t")
    case True
    then show ?thesis using e by (auto simp: make_transfer_def Let_def)
  next
    case False
    then consider "enforce_agent_rules (dk_store dk) cx (dl_db n) (tr_from_ws t) (tr_from t) (tr_amount t) (tr_id t) = Inl e"
      | d1 where "move_credits (dk_store dk) cx (dl_gates n) d1 key t = Inl e"
      using e pos i c f
      by (auto simp: make_transfer_def Let_def rbind_Inl_iff post_across_eq record_transfer_def list_ex_iff
          intro: rev_image_eqI split: if_splits)
    then show ?thesis using enforce_refuses [OF a] move_credits_refuses [OF k] by cases blast+
  qed
qed

lemma transfer_refuses:
  assumes v: "\<forall>v d w. dk_verifier dk = Some v \<longrightarrow> \<not> isl (v d w)" and pos: "0 < sc_amount c"
    and ab: "sc_from c \<noteq> sc_to c" and i: "new_id \<notin> tr_id ` set (dl_transfers n)"
    and e: "transfer_tx dk cx n (tick_transfer c u) judged new_id = Inl e"
  shows "refuses_tick e"
proof -
  define t where "t = tick_transfer c u"
  have t: "tr_amount t = sc_amount c" "tr_from t = sc_from c" "tr_to t = sc_to c" "tr_from_ws t = sc_ws c" "tr_id t = ''''"
    "tr_refund_of t = ''''" "tr_to_ws t = u"
    by (simp_all add: t_def tick_transfer_def new_transfer_def)
  have cl: "transfer_class (t\<lparr>tr_to_ws := x\<rparr>) same =
      (if same then (''move_between_own_agents'', Green) else (''pay_another_owner'', Amber))" for x same
    unfolding t_def tick_transfer_def by (rule new_transfer_class)
  have tx: "t = t\<lparr>tr_to_ws := u\<rparr>" by (simp add: t(7) [symmetric])
  have rest: "refuses_tick e"
    if r: "rbind (check_money_wall (dl_db n) (tr_from_ws t') (tr_to_ws t')) (\<lambda>_.
        rbind (transfer_sides dk (dl_db n) t') (\<lambda>same.
          case transfer_class t' same of (key, class) \<Rightarrow>
            make_transfer dk cx n (t'\<lparr>tr_class := class, tr_id := (if tr_id t' = '''' then new_id else tr_id t')\<rparr>) key judged)) = Inl e"
      and t': "t' = t\<lparr>tr_to_ws := x\<rparr>" for t' x
  proof -
    consider "check_money_wall (dl_db n) (tr_from_ws t') (tr_to_ws t') = Inl e"
      | "transfer_sides dk (dl_db n) t' = Inl e"
      | same where "transfer_sides dk (dl_db n) t' = Inr same"
        "make_transfer dk cx n (t'\<lparr>tr_class := snd (transfer_class t' same), tr_id := new_id\<rparr>) (fst (transfer_class t' same)) judged = Inl e"
      using r t(5) by (auto simp: rbind_Inl_iff t' case_prod_beta)
    then show ?thesis
    proof cases
      case 1
      then show ?thesis by (auto simp: check_money_wall_def split: if_splits)
    next
      case 2
      then show ?thesis by (rule sides_refuse [OF v])
    next
      case 3
      let ?t = "t'\<lparr>tr_class := snd (transfer_class t' same), tr_id := new_id\<rparr>"
      have "lock_agent (dl_db n) (tr_from_ws ?t) (tr_from ?t) = Inr ()"
        using transfer_sides_InrD(1) [OF 3(1)] by (simp add: sides_ok_def)
      then show ?thesis
        by (rule make_transfer_refuses [OF _ _ _ _ _ _ 3(2)])
          (use i pos payment_keys in \<open>simp_all add: cl t' t(1,6)\<close>)
    qed
  qed
  show ?thesis
  proof (cases "u = ''''")
    case True
    then have "\<And>a. resolve_wallet n (sc_to c) = Inr a \<Longrightarrow> refuses_tick e"
      using e rest [OF _ refl] pos ab unfolding t_def [symmetric] by (auto simp: transfer_tx_def t)
    moreover have "resolve_wallet n (sc_to c) = Inl x \<Longrightarrow> refuses_tick e" for x
      using e pos ab True unfolding t_def [symmetric]
      by (auto simp: transfer_tx_def t resolve_wallet_def Let_def split: option.splits)
    ultimately show ?thesis by (cases "resolve_wallet n (sc_to c)") blast+
  next
    case False
    then show ?thesis using e rest [OF _ tx] pos ab unfolding t_def [symmetric] by (simp add: transfer_tx_def t)
  qed
qed

lemma pay_refuses:
  assumes pos: "0 < ay_amount pay" and e: "pay_agent_tx s cx d w pay = Inl e"
  shows "refuses_tick e"
proof (cases "lock_sides d (w, if ay_to pay < ay_from pay then ay_to pay else ay_from pay)
    (w, if ay_to pay < ay_from pay then ay_from pay else ay_to pay)")
  case (Inl e')
  then show ?thesis using e by (auto simp: pay_agent_tx_def Let_def lock_sides_def rbind_Inl_iff dest: lock_refuses)
next
  case (Inr x)
  then have a: "lock_agent d w (ay_from pay) = Inr ()" "lock_agent d w (ay_to pay) = Inr ()"
    by (auto simp: lock_sides_def rbind_Inr_iff split: if_splits)
  have "require_owner d (ay_to pay) = Inl f \<Longrightarrow> refuses_tick f" for f
    using lock_agent_InrD [OF a(2)] by (auto simp: require_owner_def split: if_splits)
  then show ?thesis
    using e Inr pos enforce_refuses [OF a(1)]
    by (auto simp: pay_agent_tx_def Let_def rbind_Inl_iff post_across_eq pay_legs_def split: if_splits)
qed

lemma listing_refuses:
  assumes m: "market_answers mk" and lock: "lock_agent d w a = Inr ()"
    and e: "charge_scheduled_listing mk d w a listing most at (\<lambda>price. enforce_agent_rules s cx d w a price ref) use_id = Inl e"
  shows "refuses_tick e"
proof -
  have a: "case mk_payable mk d w listing of Inl e \<Rightarrow> False | Inr (Inl why) \<Rightarrow> True | Inr (Inr price) \<Rightarrow> 0 < price"
    using m by (simp add: market_answers_def)
  then obtain p where p: "mk_payable mk d w listing = Inr p" by (cases "mk_payable mk d w listing") simp_all
  then have pos: "\<And>price. p = Inr price \<Longrightarrow> 0 < price" using a by simp
  obtain q where q: "mk_sellable mk d w = Inr q"
    using m went_iff [of "mk_sellable mk d w"] that unfolding market_answers_def by blast
  show ?thesis
    using e enforce_refuses [OF lock] pos
    by (auto simp: charge_scheduled_listing_def p q rbind_Inl_iff billed_use_def split: sum.splits if_splits option.splits)
qed

lemma tick_payment_refuses:
  assumes sv: "services_answer pd fresh" and ok: "schedule_ok (dl_db n) c"
    and e: "tick_payment pd cx n c (fresh n) = Inl e"
  shows "refuses_tick e"
proof -
  obtain u where u: "payee_ws_of (dl_db n) c = Inr u"
  proof (cases "sc_to c = ''''")
    case False
    then obtain w where "(sc_to c, w) \<in> set (agent_places (dl_db n))" using ok by (auto simp: schedule_ok_def)
    then have "find_agent (dl_db n) (sc_to c) \<noteq> None" by (auto simp: agent_places_def find_agent_def find_None_iff)
    then show ?thesis using that by (auto simp: payee_ws_of_def False)
  qed (use that in \<open>simp add: payee_ws_of_def\<close>)
  have s: "\<forall>v d w. dk_verifier (pd_desk pd) = Some v \<longrightarrow> \<not> isl (v d w)" "\<And>mk. pd_listings pd = Some mk \<Longrightarrow> market_answers mk"
    "fresh n \<notin> tr_id ` set (dl_transfers n)"
    using sv by (simp_all add: services_answer_def)
  have o: "0 < sc_amount c" "sc_from c \<noteq> sc_to c" using ok by (simp_all add: schedule_ok_def)
  consider "sc_listing c \<noteq> ''''" "pay_listing_tx pd cx (dl_db n) c (fresh n) = Inl e"
    | "transfer_tx (pd_desk pd) cx n (tick_transfer c u) True (fresh n) = Inl e"
    | "pay_agent_tx (dk_store (pd_desk pd)) cx (dl_db n) (sc_ws c)
        (new_payment (sc_from c) (sc_to c) (sc_amount c) (sc_memo c)) = Inl e"
    using e by (auto simp: tick_payment_def u rbind_Inl_iff split: if_splits)
  then show ?thesis
  proof cases
    case 1
    show ?thesis
    proof (cases "pd_listings pd")
      case None
      then show ?thesis using 1 by (auto simp: pay_listing_tx_def)
    next
      case (Some mk)
      show ?thesis
      proof (cases "lock_agent (dl_db n) (sc_ws c) (sc_from c)")
        case (Inl f)
        then show ?thesis using 1 Some by (auto simp: pay_listing_tx_def dest: lock_refuses)
      next
        case (Inr x)
        let ?charge = "charge_scheduled_listing mk (dl_db n) (sc_ws c) (sc_from c) (sc_listing c) (sc_amount c) (sc_next c)
          (\<lambda>price. enforce_agent_rules (dk_store (pd_desk pd)) cx (dl_db n) (sc_ws c) (sc_from c) price (''schedule:'' @ sc_id c))
          (fresh n)"
        have r: "?charge = Inl f \<Longrightarrow> refuses_tick f" for f
          by (rule listing_refuses [OF s(2) [OF Some]]) (use Inr in simp_all)
        have "rbind ?charge (\<lambda>r. case r of Inl refusal \<Rightarrow> Inl (ErrListingPayee refusal) | Inr x \<Rightarrow> Inr x) = Inl e"
          using 1(2) Some Inr by (simp add: pay_listing_tx_def Let_def)
        then show ?thesis using r by (cases ?charge) (auto split: sum.splits)
      qed
    qed
  next
    case 2
    then show ?thesis by (rule transfer_refuses [OF s(1) o s(3)])
  next
    case 3
    then show ?thesis by (rule pay_refuses [rotated]) (simp add: new_payment_def o)
  qed
qed

lemma tick_never_fails:
  assumes "services_answer pd fresh" "all_ok n" "schedules_ok n"
  shows "run_schedule_tick pd told cx fresh now n \<noteq> (n', Inl e)"
proof
  assume r: "run_schedule_tick pd told cx fresh now n = (n', Inl e)"
  show False
    using assms(2,3) r
  proof (cases rule: tick_cases)
    case (failed c cs e')
    then show False
      using tick_payment_refuses [OF assms(1)] schedules_okD(3) [OF assms(3) due_in(1)] by blast
  qed simp_all
qed

subsection \<open>A run comes to its end\<close>

text \<open>The ticks due, at most one an hour since each schedule's next.\<close>

definition ticks_of :: "int \<Rightarrow> agent_schedule \<Rightarrow> nat" where
  "ticks_of now c = (if sc_active c \<and> sc_next c \<le> now then Suc (nat ((now - sc_next c) div ns_hour)) else 0)"

definition ticks_due :: "int \<Rightarrow> deals \<Rightarrow> nat" where
  "ticks_due now n = sum_list (map (ticks_of now) (schedules (dl_db n)))"

lemma ticks_of_advanced:
  assumes "sc_active c" "sc_next c \<le> now"
  shows "ticks_of now (advanced (next_tick (sc_next c) (sc_every c)) c) < ticks_of now c"
proof -
  let ?t = "next_tick (sc_next c) (sc_every c)"
  have "sc_next c + ns_hour \<le> ?t" by (rule next_tick_later)
  then have "(now - ?t) div ns_hour \<le> (now - (sc_next c + ns_hour)) div ns_hour"
    by (intro zdiv_mono1) (simp_all add: ns_defs)
  also have "\<dots> = (now - sc_next c) div ns_hour - 1"
    using div_add_self1 [of ns_hour "now - (sc_next c + ns_hour)"] by (simp add: ns_defs algebra_simps)
  finally have s: "(now - ?t) div ns_hour \<le> (now - sc_next c) div ns_hour - 1" .
  have "0 \<le> (now - ?t) div ns_hour" if "?t \<le> now"
    using that by (simp add: ns_defs pos_imp_zdiv_nonneg_iff)
  then show ?thesis using s assms by (auto simp: ticks_of_def)
qed

lemma sum_list_change:
  fixes f :: "'a \<Rightarrow> nat"
  shows "distinct (map k xs) \<Longrightarrow> x \<in> set xs \<Longrightarrow> f (g x) < f x \<Longrightarrow>
    sum_list (map f (map (\<lambda>y. if k y = k x then g y else y) xs)) < sum_list (map f xs)"
proof (induction xs)
  case (Cons y ys)
  show ?case
  proof (cases "k y = k x")
    case True
    moreover have "k y \<noteq> k z" if "z \<in> set ys" for z using Cons.prems(1) that by auto
    ultimately have "k z \<noteq> k x" if "z \<in> set ys" for z using that by metis
    then have "map (\<lambda>y. if k y = k x then g y else y) ys = ys" by (intro map_idI) simp
    moreover have "y = x" using True Cons.prems(1,2) by (auto dest: image_eqI [where f = k])
    ultimately show ?thesis using Cons.prems(3) by simp
  next
    case False
    then show ?thesis using Cons by auto
  qed
qed simp

lemma count_tick_fewer:
  assumes ok: "schedules_ok n" and c: "c \<in> set (schedules (dl_db n))" "sc_active c" "sc_next c \<le> now"
    and r: "count_tick cx n c outcome entry used detail = Inr n'"
  shows "ticks_due now n' < ticks_due now n"
proof -
  have n': "schedules (dl_db n') = map (\<lambda>x. if sc_id x = sc_id c then advanced (next_tick (sc_next c) (sc_every c)) x else x)
      (schedules (dl_db n))"
    using r by (auto simp: count_tick_def record_run_def split: if_splits)
  show ?thesis
    unfolding ticks_due_def n'
    by (rule sum_list_change [where k = sc_id and g = "advanced (next_tick (sc_next c) (sc_every c))",
        OF schedules_okD(1) [OF ok] c(1) ticks_of_advanced [OF c(2,3)]])
qed

lemma due_none: "ticks_due now n = 0 \<longleftrightarrow> due_schedules (dl_db n) now = []"
proof -
  have "due_schedules (dl_db n) now = [] \<longleftrightarrow> filter (\<lambda>c. sc_active c \<and> sc_next c \<le> now) (schedules (dl_db n)) = []"
    unfolding due_schedules_def by (simp flip: length_0_conv)
  then show ?thesis by (auto simp: ticks_due_def filter_empty_conv ticks_of_def split: if_splits)
qed

lemma loan_op_trans: "loan_op_ok n m \<Longrightarrow> loan_op_ok m n' \<Longrightarrow> all_ok n' \<and> credits_in_lens n' = credits_in_lens n"
  by (simp add: loan_op_ok_def deal_kept_def all_ok_def)

text \<open>A tick that is counted keeps every invariant and every credit, and leaves fewer due.\<close>

lemma tick_settles:
  assumes ok: "all_ok n" "schedules_ok n" and r: "run_schedule_tick pd told cx fresh now n = (n', Inr (Some x))"
  shows "all_ok n'" and "schedules_ok n'" and "credits_in_lens n' = credits_in_lens n" and "ticks_due now n' < ticks_due now n"
    and "\<exists>c. c \<in> set (schedules (dl_db n)) \<and> sc_active c \<and> sc_next c \<le> now \<and>
      map run_key (dl_runs n') = map run_key (dl_runs n) @ [(sc_id c, sc_next c)] \<and>
      schedules (dl_db n') = schedules (advance_schedule (dl_db n) c)"
proof -
  have "all_ok n' \<and> schedules_ok n' \<and> credits_in_lens n' = credits_in_lens n \<and> ticks_due now n' < ticks_due now n \<and>
    (\<exists>c. c \<in> set (schedules (dl_db n)) \<and> sc_active c \<and> sc_next c \<le> now \<and>
      map run_key (dl_runs n') = map run_key (dl_runs n) @ [(sc_id c, sc_next c)] \<and>
      schedules (dl_db n') = schedules (advance_schedule (dl_db n) c))"
    (is "?goal")
    using ok r
  proof (cases rule: tick_cases)
    case (paid c cs m entry used)
    note D = due_in [OF paid(1)]
    have ps: "schedules (dl_db m) = schedules (dl_db n)" using paid(6) by (simp add: plan_same_def)
    have c: "c \<in> set (schedules (dl_db m))" using D(1) ps by simp
    obtain q where q: "count_tick cx m c TickPaid entry used '''' = Inr q" "schedules_ok q"
      and e: "q = m\<lparr>dl_db := advance_schedule (dl_db m) c, dl_runs := dl_runs m @ [\<lparr>sr_schedule = sc_id c,
        sr_tick = sc_next c, sr_outcome = TickPaid, sr_entry = entry, sr_use = used, sr_detail = '''', sr_at = cx_now cx\<rparr>]\<rparr>"
      by (rule count_tick_ok [OF paid(5) c])
    have n': "n' = q" using q(1) paid(3) by simp
    have am: "all_ok m" using paid(8) by (simp add: loan_op_ok_def deal_kept_def all_ok_def)
    have "loan_op_ok m q" unfolding e by (rule advance_wallet [OF am])
    then have "all_ok q \<and> credits_in_lens q = credits_in_lens n" by (rule loan_op_trans [OF paid(8)])
    moreover have "ticks_due now q < ticks_due now m" using count_tick_fewer [OF paid(5) c D(2,3) q(1)] .
    moreover have "ticks_due now m = ticks_due now n" by (simp add: ticks_due_def ps)
    moreover have "map run_key (dl_runs q) = map run_key (dl_runs n) @ [(sc_id c, sc_next c)]"
      "schedules (dl_db q) = schedules (advance_schedule (dl_db n) c)"
      by (simp_all add: e paid(7) run_key_def ps)
    ultimately show ?goal using q(2) D unfolding n' by (intro conjI exI [of _ c]) simp_all
  next
    case (refused c cs e)
    note D = due_in [OF refused(1)]
    obtain q where q: "count_tick cx n c TickRefused None None (told e) = Inr q" "schedules_ok q"
      and e: "q = n\<lparr>dl_db := advance_schedule (dl_db n) c, dl_runs := dl_runs n @ [\<lparr>sr_schedule = sc_id c,
        sr_tick = sc_next c, sr_outcome = TickRefused, sr_entry = None, sr_use = None, sr_detail = told e, sr_at = cx_now cx\<rparr>]\<rparr>"
      by (rule count_tick_ok [OF ok(2) D(1)])
    have n': "n' = q" using q(1) refused(4) by simp
    have "loan_op_ok n q" unfolding e by (rule advance_wallet [OF ok(1)])
    then have "all_ok q \<and> credits_in_lens q = credits_in_lens n" by (rule loan_op_trans [OF loan_op_refl [OF ok(1)]])
    moreover have "ticks_due now q < ticks_due now n" using count_tick_fewer [OF ok(2) D q(1)] .
    moreover have "map run_key (dl_runs q) = map run_key (dl_runs n) @ [(sc_id c, sc_next c)]"
      "schedules (dl_db q) = schedules (advance_schedule (dl_db n) c)"
      by (simp_all add: e run_key_def)
    ultimately show ?goal using q(2) D unfolding n' by (intro conjI exI [of _ c]) simp_all
  qed simp_all
  then show "all_ok n'" "schedules_ok n'" "credits_in_lens n' = credits_in_lens n" "ticks_due now n' < ticks_due now n"
    "\<exists>c. c \<in> set (schedules (dl_db n)) \<and> sc_active c \<and> sc_next c \<le> now \<and>
      map run_key (dl_runs n') = map run_key (dl_runs n) @ [(sc_id c, sc_next c)] \<and>
      schedules (dl_db n') = schedules (advance_schedule (dl_db n) c)"
    by blast+
qed

interpretation schedule_run: tick_runner "run_schedule_tick pd told cx fresh now" "ticks_due now" "\<lambda>n. all_ok n \<and> schedules_ok n"
proof unfold_locales
  fix s s' x
  assume "all_ok s \<and> schedules_ok s" "run_schedule_tick pd told cx fresh now s = (s', Inr (Some x))"
  then show "ticks_due now s' < ticks_due now s \<and> all_ok s' \<and> schedules_ok s'"
    using tick_settles(1,2,4) [of s] by simp
next
  fix s s'
  assume a: "all_ok s \<and> schedules_ok s" "run_schedule_tick pd told cx fresh now s = (s', Inr None)"
  then have "all_ok s" "schedules_ok s" by simp_all
  then show "ticks_due now s = 0 \<and> s' = s" using a(2) by (cases rule: tick_cases) (simp_all add: due_none)
next
  fix s s' e
  assume a: "all_ok s \<and> schedules_ok s" "run_schedule_tick pd told cx fresh now s = (s', Inl e)"
  then have "all_ok s" "schedules_ok s" by simp_all
  then show "ticks_due now s' = ticks_due now s \<and> all_ok s' \<and> schedules_ok s'"
    using a(2) by (cases rule: tick_cases) (use a(1) in simp_all)
qed

end
