(* ===== verification/Top_Ups.thy ===== *)
theory Top_Ups
  imports Schedule_Runs
begin

section \<open>A whole run: every tick, the renewals, every top-up\<close>

text \<open>
  A top-up moves what brings the agent to its target, or all the workspace has left to give, and
  the last lemmas follow \<open>run_agent_schedules\<close> to its end: it does not fail, no tick is left due and
  each that was has its run, and every top-up has fired that could.
\<close>

subsection \<open>A top-up\<close>

definition topups_ok :: "db \<Rightarrow> bool" where
  "topups_ok d \<longleftrightarrow> distinct (map tu_agent (topups d)) \<and>
     (\<forall>t \<in> set (topups d). tu_below t < tu_to t \<and> lock_agent d (tu_ws t) (tu_agent t) = Inr ())"

text \<open>A top-up that has nothing to do: no owner, enough on the account, or nothing left to give.\<close>

definition topped :: "db \<Rightarrow> topup_row \<Rightarrow> bool" where
  "topped d t \<longleftrightarrow> require_owner d (tu_agent t) \<noteq> Inr () \<or>
     tu_below t \<le> account_balance d (tu_ws t) (AgentAcc (tu_agent t)) \<or> bal_of d (tu_ws t) \<le> allocated d (tu_ws t)"

lemma top_up_InrD:
  assumes "top_up_agent cx d w a = Inr (d', x)"
  shows "(x = 0 \<and> d' = d \<and> (\<forall>t. find (\<lambda>t. tu_agent t = a) (topups d) = Some t \<longrightarrow> tu_below t < tu_to t \<longrightarrow>
      require_owner d a \<noteq> Inr () \<or> tu_below t \<le> account_balance d w (AgentAcc a) \<or> bal_of d w \<le> allocated d w)) \<or>
    (\<exists>t. find (\<lambda>t. tu_agent t = a) (topups d) = Some t \<and> require_owner d a = Inr () \<and>
      account_balance d w (AgentAcc a) < tu_below t \<and> 0 < x \<and>
      x = min (tu_to t - account_balance d w (AgentAcc a)) (bal_of d w - allocated d w) \<and>
      d' = posted_db cx (ensure_lxc_row d w) w PkTopUp '''' None None [(WorkspaceAcc, - x), (AgentAcc a, x)])"
  using assms
  by (auto simp: top_up_agent_def Let_def post_entry_eq view_simps split: option.splits if_splits)

lemma top_up_runs:
  assumes "lock_agent d w a = Inr ()"
  obtains d' x where "top_up_agent cx d w a = Inr (d', x)"
proof -
  have "\<not> isl (top_up_agent cx d w a)" using assms by (auto simp: top_up_agent_def Let_def post_entry_eq split: option.split)
  then show thesis using that by (cases "top_up_agent cx d w a") auto
qed

text \<open>What it does: its amount to the agent's account, the workspace's own balance untouched.\<close>

lemma top_up_moves:
  assumes b: "books d" and r: "top_up_agent cx d w a = Inr (d', x)"
  shows "wallet_op d d'" and "plan_same d d'" and "0 \<le> x" and "agents d' = agents d" and "bal_of d' v = bal_of d v"
    and "allocated d' v = allocated d v + (if v = w then x else 0)"
    and "account_balance d' v b = account_balance d v b + (if v = w \<and> b = AgentAcc a then x else 0)"
proof -
  let ?e = "posted_db cx (ensure_lxc_row d w) w PkTopUp '''' None None [(WorkspaceAcc, - x), (AgentAcc a, x)]"
  consider "x = 0" "d' = d" | "0 < x" "x \<le> bal_of d w - allocated d w" "d' = ?e" using top_up_InrD [OF r] by fastforce
  then have "wallet_op d d' \<and> plan_same d d' \<and> 0 \<le> x \<and> agents d' = agents d \<and> bal_of d' v = bal_of d v \<and>
    allocated d' v = allocated d v + (if v = w then x else 0) \<and>
    account_balance d' v b = account_balance d v b + (if v = w \<and> b = AgentAcc a then x else 0)"
  proof cases
    case 1
    then show ?thesis using b by (simp add: wallet_op_def)
  next
    case 2
    have "books ?e"
      using 2(1,2) b accounts_okD [OF booksD(3) [OF b]]
      by (intro books_posted books_ensure) (auto simp: view_simps add_increasing2)
    moreover have "all_credits ?e = all_credits d" "schedules ?e = schedules d" "topups ?e = topups d" "agents ?e = agents d"
      by (simp_all add: all_credits_def posted_db_def ensure_lxc_row_def split: option.split)
    ultimately show ?thesis
      using 2(1) unfolding 2(3) by (auto simp: wallet_op_def plan_same_def agent_places_def view_simps)
  qed
  then show "wallet_op d d'" "plan_same d d'" "0 \<le> x" "agents d' = agents d" "bal_of d' v = bal_of d v"
    "allocated d' v = allocated d v + (if v = w then x else 0)"
    "account_balance d' v b = account_balance d v b + (if v = w \<and> b = AgentAcc a then x else 0)"
    by simp_all
qed

lemma topups_ok_plan: "topups_ok d \<Longrightarrow> plan_same d d' \<Longrightarrow> topups_ok d'"
  by (simp add: topups_ok_def plan_same_def lock_agent_places)

lemma topup_found: "topups_ok d \<Longrightarrow> t \<in> set (topups d) \<Longrightarrow> find (\<lambda>u. tu_agent u = tu_agent t) (topups d) = Some t"
  unfolding topups_ok_def
proof -
  assume a: "distinct (map tu_agent (topups d)) \<and>
      (\<forall>t\<in>set (topups d). tu_below t < tu_to t \<and> lock_agent d (tu_ws t) (tu_agent t) = Inr ())" "t \<in> set (topups d)"
  obtain u where u: "find (\<lambda>u. tu_agent u = tu_agent t) (topups d) = Some u"
    using a(2) by (cases "find (\<lambda>u. tu_agent u = tu_agent t) (topups d)") (auto simp: find_None_iff)
  then have "u \<in> set (topups d)" "tu_agent u = tu_agent t" by (auto simp: find_Some_iff)
  then have "u = t" using a by (auto simp: distinct_map dest: inj_onD)
  then show ?thesis using u by simp
qed

lemma topped_after:
  assumes b: "books d" and ok: "topups_ok d" and t: "t \<in> set (topups d)"
    and r: "top_up_agent cx d (tu_ws t) (tu_agent t) = Inr (d', x)"
  shows "topped d' t"
proof -
  note M = top_up_moves [OF b r]
  have f: "find (\<lambda>u. tu_agent u = tu_agent t) (topups d) = Some t" using topup_found [OF ok t] .
  have lt: "tu_below t < tu_to t" using ok t by (simp add: topups_ok_def)
  show ?thesis
    using top_up_InrD [OF r] f lt
    by (auto simp: topped_def require_owner_def find_agent_def M(4,5,6,7) split: option.splits if_splits)
qed

lemma topped_stays:
  assumes b: "books d" and r: "top_up_agent cx d w a = Inr (d', x)" and t: "topped d t"
  shows "topped d' t"
  using t top_up_moves(3-7) [OF b r] by (auto simp: topped_def require_owner_def find_agent_def)

text \<open>All of them: none fails, and each has fired that could.\<close>

lemma top_up_all_done:
  "books d \<Longrightarrow> topups_ok d \<Longrightarrow> set ts \<subseteq> set (topups d) \<Longrightarrow>
   top_up_all cx d (map (\<lambda>t. (tu_ws t, tu_agent t)) ts) = (d', k, e) \<Longrightarrow>
   e = None \<and> wallet_op d d' \<and> plan_same d d' \<and> (\<forall>t \<in> set ts. topped d' t) \<and> (\<forall>t. topped d t \<longrightarrow> topped d' t)"
proof (induction ts arbitrary: d d' k e)
  case Nil
  then show ?case by (simp add: wallet_op_def)
next
  case (Cons t ts)
  have l: "lock_agent d (tu_ws t) (tu_agent t) = Inr ()" using Cons.prems(2,3) by (auto simp: topups_ok_def)
  obtain m x where m: "top_up_agent cx d (tu_ws t) (tu_agent t) = Inr (m, x)" by (rule top_up_runs [OF l])
  note M = top_up_moves [OF Cons.prems(1) m]
  obtain q j e' where q: "top_up_all cx m (map (\<lambda>t. (tu_ws t, tu_agent t)) ts) = (q, j, e')" by (metis prod_cases3)
  have e: "d' = q" "e = e'" using Cons.prems(4) m q by (auto split: prod.splits)
  have bm: "books m" using M(1) by (simp add: wallet_op_def)
  have sub: "set ts \<subseteq> set (topups m)" using Cons.prems(3) M(2) by (simp add: plan_same_def)
  have IH: "e' = None \<and> wallet_op m q \<and> plan_same m q \<and> (\<forall>t \<in> set ts. topped q t) \<and> (\<forall>t. topped m t \<longrightarrow> topped q t)"
    by (rule Cons.IH [OF bm topups_ok_plan [OF Cons.prems(2) M(2)] sub q])
  have "topped m t" using topped_after [OF Cons.prems(1,2) _ m] Cons.prems(3) by simp
  then show ?case
    using IH M(1,2) topped_stays [OF Cons.prems(1) m] wallet_op_trans [OF M(1)] plan_same_trans [OF M(2)]
    unfolding e by auto
qed

subsection \<open>The ticks of a run\<close>

lemma run_ticks_keeps:
  assumes step: "\<And>s s' x. P s \<Longrightarrow> tick s = (s', Inr (Some x)) \<Longrightarrow> P s'" and fine: "\<And>s s' e. P s \<Longrightarrow> tick s \<noteq> (s', Inl e)"
    and idle: "\<And>s s'. P s \<Longrightarrow> tick s = (s', Inr None) \<Longrightarrow> s' = s"
  shows "P s \<Longrightarrow> run_ticks tick k s = (s', xs, e) \<Longrightarrow> P s' \<and> e = None"
proof (induction k arbitrary: s xs)
  case (Suc k)
  obtain s1 r where t: "tick s = (s1, r)" by (cases "tick s")
  show ?case
  proof (cases r)
    case (Inl f)
    then show ?thesis using fine [OF Suc.prems(1)] t by blast
  next
    case (Inr x)
    show ?thesis
    proof (cases x)
      case None
      then show ?thesis using idle [OF Suc.prems(1)] Suc.prems t Inr by simp
    next
      case (Some y)
      obtain ys where "run_ticks tick k s1 = (s', ys, e)"
        using Suc.prems(2) t Inr Some by (auto split: prod.splits)
      then show ?thesis using Suc.IH [OF step [OF Suc.prems(1)]] t Inr Some by simp
    qed
  qed
qed simp

text \<open>What a tick leaves as it is, and that what was due is still there or has its run.\<close>

definition ticks_kept :: "int \<Rightarrow> deals \<Rightarrow> deals \<Rightarrow> bool" where
  "ticks_kept now n m \<longleftrightarrow> credits_in_lens m = credits_in_lens n \<and> topups_ok (dl_db m) \<and>
     set (dl_runs n) \<subseteq> set (dl_runs m) \<and>
     (\<forall>c \<in> set (schedules (dl_db n)). sc_active c \<and> sc_next c \<le> now \<longrightarrow>
        c \<in> set (schedules (dl_db m)) \<or> (sc_id c, sc_next c) \<in> run_key ` set (dl_runs m))"

lemma count_tick_frame:
  assumes "count_tick cx n c outcome entry used detail = Inr n'"
  shows "plan_same (dl_db n) (dl_db n'\<lparr>schedules := schedules (dl_db n)\<rparr>)" and "set (dl_runs n) \<subseteq> set (dl_runs n')"
  using assms by (auto simp: count_tick_def record_run_def plan_same_def advance_schedule_def update_schedule_def
      agent_places_def split: if_splits)

lemma tick_frame:
  assumes ok: "all_ok n" "schedules_ok n" and r: "run_schedule_tick pd told cx fresh now n = (n', Inr (Some x))"
  shows "topups (dl_db n') = topups (dl_db n)" and "agent_places (dl_db n') = agent_places (dl_db n)"
    and "set (dl_runs n) \<subseteq> set (dl_runs n')"
proof -
  have "topups (dl_db n') = topups (dl_db n) \<and> agent_places (dl_db n') = agent_places (dl_db n) \<and>
      set (dl_runs n) \<subseteq> set (dl_runs n')"
    using ok r
  proof (cases rule: tick_cases)
    case (paid c cs m entry used)
    then show ?thesis using count_tick_frame [OF paid(3)] by (auto simp: plan_same_def agent_places_def)
  next
    case (refused c cs e)
    then show ?thesis using count_tick_frame [OF refused(4)] by (auto simp: plan_same_def agent_places_def)
  qed simp_all
  then show "topups (dl_db n') = topups (dl_db n)" "agent_places (dl_db n') = agent_places (dl_db n)"
    "set (dl_runs n) \<subseteq> set (dl_runs n')" by simp_all
qed

lemma tick_keeps:
  assumes ok: "all_ok m" "schedules_ok m" and k: "ticks_kept now n m"
    and r: "run_schedule_tick pd told cx fresh now m = (n', Inr (Some x))"
  shows "ticks_kept now n n'"
proof -
  note S = tick_settles [OF ok r] note F = tick_frame [OF ok r]
  obtain c where c: "c \<in> set (schedules (dl_db m))" "map run_key (dl_runs n') = map run_key (dl_runs m) @ [(sc_id c, sc_next c)]"
    "schedules (dl_db n') = schedules (advance_schedule (dl_db m) c)"
    using S(5) by blast
  have runs: "run_key ` set (dl_runs n') = insert (sc_id c, sc_next c) (run_key ` set (dl_runs m))"
    using arg_cong [OF c(2), of set] by simp
  have still: "y \<in> set (schedules (dl_db n')) \<or> (sc_id y, sc_next y) \<in> run_key ` set (dl_runs n')"
    if y: "y \<in> set (schedules (dl_db m))" for y
  proof (cases "sc_id y = sc_id c")
    case True
    then have "y = c" using y c(1) schedules_okD(1) [OF ok(2)] by (auto simp: distinct_map dest: inj_onD)
    then show ?thesis by (simp add: runs)
  next
    case False
    then have "y \<in> set (schedules (dl_db n'))" unfolding c(3) advance_db set_map by (intro rev_image_eqI [OF y]) simp
    then show ?thesis by simp
  qed
  have "topups_ok (dl_db n')"
    using k F(1,2) by (simp add: ticks_kept_def topups_ok_def lock_agent_places)
  moreover have "credits_in_lens n' = credits_in_lens n" "set (dl_runs n) \<subseteq> set (dl_runs n')"
    using k S(3) F(3) by (auto simp: ticks_kept_def)
  moreover have "y \<in> set (schedules (dl_db n')) \<or> (sc_id y, sc_next y) \<in> run_key ` set (dl_runs n')"
    if "y \<in> set (schedules (dl_db n))" "sc_active y" "sc_next y \<le> now" for y
  proof (cases "y \<in> set (schedules (dl_db m))")
    case False
    then have "(sc_id y, sc_next y) \<in> run_key ` set (dl_runs m)" using k that unfolding ticks_kept_def by blast
    then show ?thesis by (simp add: runs)
  qed (rule still)
  ultimately show ?thesis by (simp add: ticks_kept_def)
qed

text \<open>A run of ticks never fails, leaves nothing due, and every tick that was due has its one run.\<close>

lemma ticks_all_run:
  assumes sv: "services_answer pd fresh" and ok: "all_ok n" "schedules_ok n" "topups_ok (dl_db n)"
    and k: "ticks_due now n \<le> k" and r: "run_ticks (run_schedule_tick pd told cx fresh now) k n = (n', outs, e)"
  shows "e = None" and "ticks_due now n' = 0" and "all_ok n'" and "schedules_ok n'" and "ticks_kept now n n'"
proof -
  let ?P = "\<lambda>m. all_ok m \<and> schedules_ok m \<and> ticks_kept now n m"
  have start: "?P n" using ok by (simp add: ticks_kept_def)
  have "?P n' \<and> e = None"
  proof (rule run_ticks_keeps [where P = ?P, OF _ _ _ start r])
    fix s s' x
    assume "?P s" "run_schedule_tick pd told cx fresh now s = (s', Inr (Some x))"
    then show "?P s'" using tick_settles(1,2) [of s] tick_keeps [of s] by simp
  next
    fix s s' e
    assume "?P s"
    then show "run_schedule_tick pd told cx fresh now s \<noteq> (s', Inl e)" using tick_never_fails [OF sv] by blast
  next
    fix s s'
    assume "?P s" "run_schedule_tick pd told cx fresh now s = (s', Inr None)"
    then show "s' = s" using schedule_run.idle [of s] by simp
  qed
  then show "e = None" "all_ok n'" "schedules_ok n'" "ticks_kept now n n'" by simp_all
  with r show "ticks_due now n' = 0" using schedule_run.run_finishes [OF _ k] ok by simp
qed

subsection \<open>The run\<close>

text \<open>What the marketplace's renewals do to the wallet: they bill uses, and leave its plan and its credits.\<close>

definition renewer_ok :: "(deals \<Rightarrow> deals \<times> (nat \<times> nat) \<times> err option) option \<Rightarrow> bool" where
  "renewer_ok renew \<longleftrightarrow> (\<forall>f n n' x e. renew = Some f \<longrightarrow> f n = (n', x, e) \<longrightarrow> e = None \<and>
     plan_same (dl_db n) (dl_db n') \<and> dl_runs n' = dl_runs n \<and> (all_ok n \<longrightarrow> loan_op_ok n n'))"

lemma run_schedules_done:
  assumes sv: "services_answer pd fresh" "renewer_ok renew" and ok: "all_ok n" "schedules_ok n" "topups_ok (dl_db n)"
    and k: "ticks_due now n \<le> max_ticks_per_run"
    and r: "run_agent_schedules pd told cx fresh renew now n = (n', res, errs)"
  shows "errs = []" and "due_schedules (dl_db n') now = []" and "all_ok n'" and "schedules_ok n'"
    and "credits_in_lens n' = credits_in_lens n" and "set (dl_runs n) \<subseteq> set (dl_runs n')"
    and "c \<in> set (schedules (dl_db n)) \<Longrightarrow> sc_active c \<Longrightarrow> sc_next c \<le> now \<Longrightarrow> (sc_id c, sc_next c) \<in> run_key ` set (dl_runs n')"
    and "t \<in> set (topups (dl_db n')) \<Longrightarrow> topped (dl_db n') t"
proof -
  obtain n1 outs e1 where r1: "run_ticks (run_schedule_tick pd told cx fresh now) max_ticks_per_run n = (n1, outs, e1)"
    by (metis prod_cases3)
  note R = ticks_all_run [OF sv(1) ok k r1]
  obtain n2 x e2 where r2: "(case renew of None \<Rightarrow> (n1, (0, 0), None) | Some f \<Rightarrow> f n1) = (n2, x, e2)"
    by (metis prod_cases3)
  have "x = (fst x, snd x)" by simp
  then have 2: "e2 = None \<and> plan_same (dl_db n1) (dl_db n2) \<and> dl_runs n2 = dl_runs n1 \<and> loan_op_ok n1 n2"
    using r2 sv(2) R(3) loan_op_refl [OF R(3)] unfolding renewer_ok_def by (cases renew) (simp, metis option.simps(5))
  have ok2: "all_ok n2" "schedules_ok n2" "topups_ok (dl_db n2)" "credits_in_lens n2 = credits_in_lens n"
    using 2 R(4,5) schedules_ok_plan [OF R(4)] topups_ok_plan [of "dl_db n1"]
    by (simp_all add: loan_op_ok_def deal_kept_def all_ok_def ticks_kept_def)
  obtain d j e3 where r3: "top_up_all cx (dl_db n2) (map (\<lambda>t. (tu_ws t, tu_agent t)) (topups (dl_db n2))) = (d, j, e3)"
    by (metis prod_cases3)
  have b2: "books (dl_db n2)" using ok2(1) by (simp add: all_ok_def deals_ok_def)
  note T = top_up_all_done [OF b2 ok2(3) subset_refl r3]
  have n': "n' = n2\<lparr>dl_db := d\<rparr>" "errs = []"
    using r R(1) 2 T by (auto simp: run_agent_schedules_def r1 r2 r3 Let_def split: prod.splits)
  have k3: "loan_op_ok n2 n'" unfolding n'(1) using T by (intro wallet_op_ok [OF ok2(1)]) simp_all
  have p3: "plan_same (dl_db n2) (dl_db n')" "dl_runs n' = dl_runs n2" using T by (simp_all add: n'(1))
  have same: "schedules (dl_db n') = schedules (dl_db n1)" "dl_runs n' = dl_runs n1"
    using 2 p3 by (simp_all add: plan_same_def)
  have none: "due_schedules (dl_db n1) now = []" using R(2) by (simp add: due_none)
  show "errs = []" by (rule n'(2))
  show "due_schedules (dl_db n') now = []" using none by (simp add: due_schedules_def same)
  show "all_ok n'" using k3 by (simp add: loan_op_ok_def deal_kept_def all_ok_def)
  show "schedules_ok n'" by (rule schedules_ok_plan [OF ok2(2) p3])
  show "credits_in_lens n' = credits_in_lens n" using k3 ok2(4) by (simp add: loan_op_ok_def deal_kept_def)
  show "set (dl_runs n) \<subseteq> set (dl_runs n')" using R(5) by (simp add: ticks_kept_def same)
  show "(sc_id c, sc_next c) \<in> run_key ` set (dl_runs n')"
    if c: "c \<in> set (schedules (dl_db n))" "sc_active c" "sc_next c \<le> now"
  proof -
    have "c \<notin> set (schedules (dl_db n1))"
    proof
      assume "c \<in> set (schedules (dl_db n1))"
      then have "c \<in> set (due_schedules (dl_db n1) now)" using c by (simp add: due_schedules_def)
      then show False using none by simp
    qed
    then show ?thesis using R(5) c by (auto simp: ticks_kept_def same)
  qed
  show "t \<in> set (topups (dl_db n')) \<Longrightarrow> topped (dl_db n') t" using T p3 by (simp add: n'(1) plan_same_def)
qed

end
