(* ===== verification/Plan_System.thy ===== *)
theory Plan_System
  imports Top_Ups
begin

section \<open>Schedules and top-ups among all the dealings\<close>

text \<open>
  \<open>plan_step\<close> is a step of the agents' dealings, a payment, a schedule made, skipped or cancelled, a
  top-up set or removed, or a whole run of the schedules. \<open>plan_ok\<close> is kept by each of them, so
  whatever happens in between, no tick of a schedule ever runs twice.
\<close>

subsection \<open>The dealings leave the plan as it is\<close>

definition plan_kept :: "deals \<Rightarrow> deals \<Rightarrow> bool" where
  "plan_kept n n' \<longleftrightarrow> plan_same (dl_db n) (dl_db n') \<and> dl_runs n' = dl_runs n"

lemma plan_kept_refl [simp]: "plan_kept n n"
  by (simp add: plan_kept_def)

lemma plan_kept_same: "dl_db n' = dl_db n \<Longrightarrow> dl_runs n' = dl_runs n \<Longrightarrow> plan_kept n n'"
  by (simp add: plan_kept_def)

lemma plan_kept_cong: "plan_kept n n' \<Longrightarrow> dl_db n'' = dl_db n' \<Longrightarrow> dl_runs n'' = dl_runs n' \<Longrightarrow> plan_kept n n''"
  by (simp add: plan_kept_def)

lemma file_approval_plan: "plan_same d (fst (file_approval cx d need i))"
  by (simp add: file_approval_def Let_def plan_same_def agent_places_def split: option.split)

lemma refused_plan:
  assumes "\<And>n' x. r = Inr (n', x) \<Longrightarrow> plan_kept n n'"
  shows "plan_kept n (fst (refused_deal cx n ap r))"
proof (cases r)
  case (Inr y)
  then show ?thesis using assms by (cases y) (simp add: refused_deal_def)
next
  case (Inl e)
  show ?thesis
  proof (cases "\<exists>need. e = ErrApprovalNeeded need")
    case True
    then obtain need where "e = ErrApprovalNeeded need" by blast
    then show ?thesis
      using Inl file_approval_plan [of "dl_db n" cx need ap]
      by (cases "file_approval cx (dl_db n) need ap") (simp add: refused_deal_def plan_kept_def)
  next
    case False
    then have "refused_deal cx n ap r = (n, Inl e)" by (cases e) (simp_all add: Inl refused_deal_def)
    then show ?thesis by simp
  qed
qed

lemma transfer_plan_kept:
  assumes "transfer_tx dk cx n t judged i = Inr (n', t')" and "all_ok n"
  shows "plan_kept n n'"
proof -
  have b: "books (dl_db n)" using assms(2) by (simp add: all_ok_def deals_ok_def)
  have tn: "\<And>v. 0 \<le> test_of (dl_db n) v" using b by (auto simp: books_slack_0 dest: slackD(7))
  show ?thesis using transfer_plan [OF assms(1) tn] by (simp add: plan_kept_def)
qed

lemma send_plan: "all_ok n \<Longrightarrow> plan_kept n (fst (send_credits dk cx n w a address amount memo i ap))"
  by (auto simp: send_credits_def run_transfer_def intro!: refused_plan intro: transfer_plan_kept split: sum.split)

lemma refund_plan: "all_ok n \<Longrightarrow> plan_kept n (fst (refund_transfer dk cx n w t i ap))"
  by (auto simp: refund_transfer_def run_transfer_def intro!: refused_plan intro: transfer_plan_kept split: option.split)

lemma ask_plan: "request_credits cx n w a address amount memo i = Inr (n', r) \<Longrightarrow> plan_kept n n'"
  by (rule plan_kept_same) (auto simp: request_credits_def Let_def elim!: rbind_InrE split: if_splits)

lemma update_request_plan: "plan_kept n n' \<Longrightarrow> plan_kept n (update_request f i n')"
  by (erule plan_kept_cong) (simp_all add: update_request_def)

lemma answer_plan: "all_ok n \<Longrightarrow> plan_kept n (fst (answer_money_request dk cx n w i accept new_id ap))"
  by (auto simp: answer_money_request_def Let_def intro!: refused_plan update_request_plan
      elim!: rbind_InrE intro: transfer_plan_kept split: option.split)

lemma settle_plan:
  assumes "settle_escrow_tx cx n e release actor operator detail = Inr n'"
  shows "plan_kept n n'"
proof -
  have p: "plan_same d (across_db cx (add_test_funded (move_escrow_lxc cx d w x e de) w y) k r ls)" for d w x de y k r ls
    by (simp add: plan_same_def agent_places_def move_escrow_lxc_def across_db_def)
  show ?thesis
    using assms p
    by (auto simp: settle_escrow_tx_def Let_def plan_kept_def post_across_eq split: prod.splits if_splits)
qed

lemma kept_or_plan: "plan_kept n (fst (kept_or n (settle_escrow_tx cx n e release actor operator detail)))"
  by (cases "settle_escrow_tx cx n e release actor operator detail") (simp_all add: kept_or_def settle_plan)

lemma disputed_plan: "plan_kept n (mark_disputed cx n i actor detail)"
  by (rule plan_kept_same) (simp_all add: mark_disputed_def)

lemma spend_plan_same: "spend_for_capability s cx g d w key x = Inr (d', t) \<Longrightarrow> plan_same d d'"
  by (auto simp: spend_for_capability_def Let_def plan_same_def agent_places_def split: option.splits if_splits)

lemma ensure_plan: "plan_same d (ensure_lxc_row d w)"
  by (simp add: plan_same_def agent_places_def ensure_lxc_row_def split: option.split)

lemma hold_plan:
  assumes "hold_credits s cx g d key e = Inr (d', e')"
  shows "plan_same d d'"
proof -
  have m: "plan_same d (move_escrow_lxc cx d w x e de)" for d w x de
    by (simp add: plan_same_def agent_places_def move_escrow_lxc_def)
  show ?thesis
    using assms
    by (auto simp: hold_credits_def Let_def dest!: spend_plan_same
        intro: plan_same_trans [OF plan_same_trans [OF ensure_plan _] m])
qed

lemma pay_in_plan:
  assumes "pay_into_escrow_tx dk cx n e = Inr (n', e')"
  shows "plan_kept n n'"
  using assms
proof (rule pay_into_escrow_tx_InrD)
  fix d1
  assume e: "enforce_agent_rules (dk_store dk) cx (dl_db n) (es_payer_ws e) (es_payer e) (es_amount e) (es_id e) = Inr d1"
    and h: "hold_escrow dk cx n d1 (escrow_key n e) (e\<lparr>es_class := class_of_key (escrow_key n e)\<rparr>) = Inr (n', e')"
  show ?thesis
    using h
  proof (rule hold_escrow_InrD)
    fix d2
    assume c: "hold_credits (dk_store dk) cx (dl_gates n) d1 (escrow_key n e) (e\<lparr>es_class := class_of_key (escrow_key n e)\<rparr>) = Inr (d2, e')"
      and n': "n' = escrow_event cx (n\<lparr>dl_db := held_db cx d2 (e\<lparr>es_class := class_of_key (escrow_key n e)\<rparr>),
          dl_escrows := dl_escrows n @ [e']\<rparr>)
        (es_id (e\<lparr>es_class := class_of_key (escrow_key n e)\<rparr>)) EsHeld Payer '''' '''' (Some (next_entry d2))"
    have "plan_same (dl_db n) d2" using enforce_plan [OF e] hold_plan [OF c] by (rule plan_same_trans)
    then show ?thesis using plan_same_trans [OF _ across_plan] by (simp add: n' plan_kept_def held_db_def escrow_event_def)
  qed
qed

lemma pay_into_escrow_plan: "plan_kept n (fst (pay_into_escrow dk cx n w a address amount memo release_at i ap))"
  by (auto simp: pay_into_escrow_def Let_def intro!: refused_plan intro: pay_in_plan split: sum.split)

lemma confirm_plan: "plan_kept n (fst (confirm_escrow cx n w i))"
  by (auto simp: confirm_escrow_def intro!: kept_or_plan split: option.split)

lemma dispute_plan: "plan_kept n (fst (dispute_escrow cx n w i reason))"
  by (auto simp: dispute_escrow_def Let_def intro: disputed_plan split: option.split)

lemma decide_plan: "plan_kept n (fst (decide_escrow cx n i release operator note))"
  by (auto simp: decide_escrow_def intro!: kept_or_plan split: option.split)

lemma deadline_plan: "plan_kept n (fst (run_escrow_deadline told cx now n))"
  by (auto simp: run_escrow_deadline_def intro: settle_plan disputed_plan split: list.split sum.split)

lemma loan_aside_plan:
  "plan_kept n n' \<Longrightarrow> plan_kept n (loan_event cx n' i kind k c it fee t)" "plan_kept n n' \<Longrightarrow> plan_kept n (update_loan f i n')"
  by (simp_all add: loan_event_def update_loan_def plan_kept_def)

lemma offer_plan: "offer_loan dk cx n w lender address terms i = Inr (n', l) \<Longrightarrow> plan_kept n n'"
  by (rule plan_kept_same) (auto simp: offer_loan_def Let_def elim!: rbind_InrE split: if_splits)

lemma loan_answer_plan: "all_ok n \<Longrightarrow> plan_kept n (fst (answer_loan dk cx n w i accept new_id ap))"
  by (auto simp: answer_loan_def pay_out_loan_def Let_def intro!: refused_plan loan_aside_plan
      elim!: rbind_InrE intro: transfer_plan_kept split: option.split sum.split)

lemma withdraw_plan: "withdraw_loan cx n w i = Inr n' \<Longrightarrow> plan_kept n n'"
  by (auto simp: withdraw_loan_def intro!: loan_aside_plan split: if_splits)

lemma bring_due_plan: "plan_kept n (fst (bring_test_loan_due n w i now))"
  by (simp add: bring_test_loan_due_def loan_aside_plan)

lemma loan_tick_plan: "all_ok n \<Longrightarrow> plan_kept n (fst (run_loan_tick dk cx fresh now n))"
  by (auto simp: run_loan_tick_def Let_def intro!: loan_aside_plan intro: transfer_plan_kept
      split: list.split sum.split prod.split)

lemma handle_plan: "set_agent_handle n w a h = Inr (n', x) \<Longrightarrow> plan_kept n n'"
  by (rule plan_kept_same) (auto simp: set_agent_handle_def Let_def split: option.splits if_splits)

lemma deal_step_plan: "deal_step dk told n n' \<Longrightarrow> all_ok n \<Longrightarrow> plan_kept n n'"
proof (induction rule: deal_step.induct)
  case (operator n g)
  then show ?case by (simp add: plan_kept_def)
qed (rule send_plan ask_plan answer_plan refund_plan pay_into_escrow_plan confirm_plan dispute_plan decide_plan
    deadline_plan offer_plan loan_answer_plan withdraw_plan bring_due_plan loan_tick_plan handle_plan; assumption)+

lemma charge_company_plan: "charge_company s cx d w u pay i = Inr (d', pay') \<Longrightarrow> plan_same d d'"
  by (auto dest!: charge_company_InrD(2) enforce_plan billed_use_plan intro: plan_same_trans)

lemma on_db_plan:
  assumes "\<And>d x. r = Inr (d, x) \<Longrightarrow> plan_same (dl_db n) d"
  shows "plan_kept n (fst (refused_deal cx n ap (on_db n r)))"
  by (rule refused_plan) (use assms in \<open>auto simp: plan_kept_def dest!: on_db_InrD\<close>)

lemma pay_agent_plan: "plan_kept n (fst (pay_agent pd cx n w a b amount memo i ap))"
  by (auto simp: pay_agent_def pay_company_agent_def Let_def intro!: on_db_plan intro: pay_plan charge_company_plan
      split: option.split sum.split)

subsection \<open>The steps and what they keep\<close>

definition agents_named :: "db \<Rightarrow> bool" where
  "agents_named d \<longleftrightarrow> distinct (map fst (agent_places d)) \<and> '''' \<notin> fst ` set (agent_places d)"

definition plan_ok :: "deals \<Rightarrow> bool" where
  "plan_ok n \<longleftrightarrow> all_ok n \<and> schedules_ok n \<and> topups_ok (dl_db n) \<and> agents_named (dl_db n)"

text \<open>What a step keeps besides: the credits there are, and every run there was.\<close>

definition plan_op :: "deals \<Rightarrow> deals \<Rightarrow> bool" where
  "plan_op n n' \<longleftrightarrow> plan_ok n' \<and> credits_in_lens n' = credits_in_lens n \<and> set (dl_runs n) \<subseteq> set (dl_runs n')"

lemma kept_plan_op: "plan_ok n \<Longrightarrow> loan_op_ok n n' \<Longrightarrow> plan_kept n n' \<Longrightarrow> plan_op n n'"
  using schedules_ok_plan topups_ok_plan
  by (auto simp: plan_op_def plan_ok_def loan_op_ok_def deal_kept_def all_ok_def plan_kept_def agents_named_def plan_same_def)

text \<open>A change of the schedules or the top-ups alone.\<close>

lemma own_plan_op:
  assumes ok: "plan_ok n" and m: "same_money (dl_db n) d" and s: "schedules_ok (n\<lparr>dl_db := d\<rparr>)" and t: "topups_ok d"
    and a: "agent_places d = agent_places (dl_db n)"
  shows "plan_op n (n\<lparr>dl_db := d\<rparr>)"
proof -
  have o: "all_ok n" using ok by (simp add: plan_ok_def)
  then have "books (dl_db n)" by (simp add: all_ok_def deals_ok_def)
  then have "loan_op_ok n (n\<lparr>dl_db := d\<rparr>)" using wallet_op_money [OF _ m] by (intro wallet_op_ok [OF o]) simp_all
  then show ?thesis
    using ok s t a by (simp add: plan_op_def plan_ok_def loan_op_ok_def deal_kept_def all_ok_def agents_named_def)
qed

lemma topups_ok_same:
  "topups d' = topups d \<Longrightarrow> agent_places d' = agent_places d \<Longrightarrow> topups_ok d' = topups_ok d"
  by (simp add: topups_ok_def lock_agent_places)

lemma insert_op:
  assumes ok: "plan_ok n" and r: "insert_schedule (dl_db n) c = Inr (d, c')" and c: "schedule_ok (dl_db n) c"
  shows "plan_op n (n\<lparr>dl_db := d\<rparr>)"
proof -
  have d: "d = (dl_db n)\<lparr>schedules := schedules (dl_db n) @ [c]\<rparr>" "sc_id c \<notin> sc_id ` set (schedules (dl_db n))"
    using r by (auto simp: insert_schedule_def list_ex_iff split: if_splits)
  have p': "agent_places ((dl_db n)\<lparr>schedules := cs\<rparr>) = agent_places (dl_db n)" for cs by (simp add: agent_places_def)
  then have p: "agent_places d = agent_places (dl_db n)" by (simp add: d(1))
  have s: "schedules_ok n" using ok by (simp add: plan_ok_def)
  show ?thesis
  proof (rule own_plan_op [OF ok _ _ _ p])
    show "same_money (dl_db n) d" by (simp add: d(1) same_money_def)
    show "schedules_ok (n\<lparr>dl_db := d\<rparr>)"
      using s d(2) c unfolding schedules_ok_def schedule_ok_def by (auto simp: d(1) p')
    have "topups d = topups (dl_db n)" by (simp add: d(1))
    then show "topups_ok d" using ok topups_ok_same [OF _ p] by (simp add: plan_ok_def)
  qed
qed

lemma agent_placed: "list_ex (is_agent_of w a) (agents d) \<Longrightarrow> a \<in> fst ` set (agent_places d)"
  by (force simp: list_ex_iff is_agent_of_def agent_places_def)

lemma create_op:
  assumes ok: "plan_ok n" and r: "create_agent_schedule cx (dl_db n) w a b amount memo every first i = Inr (d, c)"
  shows "plan_op n (n\<lparr>dl_db := d\<rparr>)"
proof -
  have f: "0 < amount" "a \<noteq> b" "list_ex (is_agent_of w a) (agents (dl_db n))" "find_agent (dl_db n) b \<noteq> None"
    and ins: "insert_schedule (dl_db n) (new_schedule cx i w a b '''' amount memo every first) = Inr (d, c)"
    using r by (auto simp: create_agent_schedule_def split: if_splits)
  have b: "b \<in> fst ` set (agent_places (dl_db n))"
    using f(4) map_of_places [of "dl_db n" b] map_of_eq_None_iff [of "agent_places (dl_db n)" b] by auto
  then have "b \<noteq> ''''" using ok unfolding plan_ok_def agents_named_def by blast
  then have "schedule_ok (dl_db n) (new_schedule cx i w a b '''' amount memo every first)"
    using f b by (simp add: schedule_ok_def new_schedule_def)
  then show ?thesis by (rule insert_op [OF ok ins])
qed

lemma create_listing_op:
  assumes ok: "plan_ok n" and l: "listing \<noteq> ''''"
    and r: "create_agent_listing_schedule pd cx (dl_db n) w a listing amount memo every first i = Inr (d, c)"
  shows "plan_op n (n\<lparr>dl_db := d\<rparr>)"
proof -
  obtain x where f: "list_ex (is_agent_of w a) (agents (dl_db n))"
    and ins: "insert_schedule (dl_db n) (new_schedule cx i w a '''' listing x memo every first) = Inr (d, c)"
    using r by (auto simp: create_agent_listing_schedule_def Let_def split: if_splits option.splits sum.splits)
  have "a \<noteq> ''''" using agent_placed [OF f] ok unfolding plan_ok_def agents_named_def by blast
  moreover have "0 < x" using ins by (simp add: insert_schedule_def new_schedule_def split: if_splits)
  ultimately have "schedule_ok (dl_db n) (new_schedule cx i w a '''' listing x memo every first)"
    using l by (simp add: schedule_ok_def new_schedule_def)
  then show ?thesis by (rule insert_op [OF ok ins])
qed

lemma cancel_op:
  assumes ok: "plan_ok n" and r: "cancel_agent_schedule (dl_db n) w i = Inr d"
  shows "plan_op n (n\<lparr>dl_db := d\<rparr>)"
proof -
  let ?f = "\<lambda>c. if sc_id c = i then if sc_ws c = w then c\<lparr>sc_active := False\<rparr> else c else c"
  have d: "d = (dl_db n)\<lparr>schedules := map ?f (schedules (dl_db n))\<rparr>"
    using r by (simp add: cancel_agent_schedule_def update_schedule_def split: if_splits)
  have sd: "schedules d = map ?f (schedules (dl_db n))" by (simp add: d)
  have p: "agent_places d = agent_places (dl_db n)" by (simp add: d agent_places_def)
  have f: "sc_id (?f c) = sc_id c" "sc_next (?f c) = sc_next c" "schedule_ok e (?f c) = schedule_ok e c" for c e
    by (simp_all add: schedule_ok_def)
  have ids: "map sc_id (schedules d) = map sc_id (schedules (dl_db n))" by (simp add: d f(1) del: if_image_distrib)
  have s: "schedules_ok n" using ok by (simp add: plan_ok_def)
  show ?thesis
  proof (rule own_plan_op [OF ok _ _ _ p])
    show "same_money (dl_db n) d" by (simp add: d same_money_def)
    have "schedule_ok d c = schedule_ok (dl_db n) c" for c by (simp add: schedule_ok_def p)
    then have "schedule_ok d (?f c)" if "c \<in> set (schedules (dl_db n))" for c
      using that s f(3) [of d c] by (simp only: schedules_ok_def)
    then have "\<forall>c \<in> set (schedules d). schedule_ok d c" unfolding sd set_map by blast
    moreover have "\<exists>c \<in> set (schedules d). sc_id c = sr_schedule r \<and> sr_tick r < sc_next c" if r: "r \<in> set (dl_runs n)" for r
    proof -
      obtain c where "c \<in> set (schedules (dl_db n))" "sc_id c = sr_schedule r" "sr_tick r < sc_next c"
        using s r by (auto simp: schedules_ok_def)
      then show ?thesis using f(1,2) [of c] by (intro bexI [of _ "?f c"]) (simp_all add: d)
    qed
    ultimately show "schedules_ok (n\<lparr>dl_db := d\<rparr>)" using s ids by (simp add: schedules_ok_def)
    have "topups d = topups (dl_db n)" by (simp add: d)
    then show "topups_ok d" using ok topups_ok_same [OF _ p] by (simp add: plan_ok_def)
  qed
qed

lemma skip_op:
  assumes ok: "plan_ok n" and r: "skip_agent_schedule_tick cx n w i = Inr (n', c')"
  shows "plan_op n n'"
proof -
  obtain c where f: "find (\<lambda>c. sc_id c = i \<and> sc_ws c = w \<and> sc_active c) (schedules (dl_db n)) = Some c"
    and t: "count_tick cx n c TickSkipped None None ''skipped by the owner'' = Inr n'"
    using r by (auto simp: skip_agent_schedule_tick_def split: option.splits)
  have c: "c \<in> set (schedules (dl_db n))" using find_SomeD [OF f] by simp
  have o: "all_ok n" "schedules_ok n" using ok by (simp_all add: plan_ok_def)
  obtain q where q: "count_tick cx n c TickSkipped None None ''skipped by the owner'' = Inr q" "schedules_ok q"
    and e: "q = n\<lparr>dl_db := advance_schedule (dl_db n) c, dl_runs := dl_runs n @ [\<lparr>sr_schedule = sc_id c,
      sr_tick = sc_next c, sr_outcome = TickSkipped, sr_entry = None, sr_use = None, sr_detail = ''skipped by the owner'',
      sr_at = cx_now cx\<rparr>]\<rparr>"
    by (rule count_tick_ok [OF o(2) c])
  have "n' = q" using q(1) t by simp
  moreover have "loan_op_ok n q" unfolding e by (rule advance_wallet [OF o(1)])
  ultimately show ?thesis
    using q(2) ok topups_ok_same [of "dl_db q" "dl_db n"]
    by (auto simp: plan_op_def plan_ok_def loan_op_ok_def deal_kept_def all_ok_def agents_named_def e)
qed

lemma set_top_up_op:
  assumes ok: "plan_ok n" and r: "set_agent_top_up (dl_db n) w a below to = Inr d"
  shows "plan_op n (n\<lparr>dl_db := d\<rparr>)"
proof -
  have f: "below < to" "list_ex (is_agent_of w a) (agents (dl_db n))" using r by (auto simp: set_agent_top_up_def split: if_splits)
  obtain ts where d: "d = (dl_db n)\<lparr>topups := ts\<rparr>"
    and ts: "ts = map (\<lambda>t. if tu_agent t = a then t\<lparr>tu_below := below, tu_to := to\<rparr> else t) (topups (dl_db n)) \<or>
      (a \<notin> tu_agent ` set (topups (dl_db n)) \<and>
       ts = topups (dl_db n) @ [\<lparr>tu_agent = a, tu_ws = w, tu_below = below, tu_to = to\<rparr>])"
    using r by (auto simp: set_agent_top_up_def list_ex_iff split: if_splits)
  have p: "agent_places d = agent_places (dl_db n)" by (simp add: d agent_places_def)
  have t: "topups_ok (dl_db n)" "distinct (map fst (agent_places (dl_db n)))" using ok by (simp_all add: plan_ok_def agents_named_def)
  have "(a, w) \<in> set (agent_places (dl_db n))" using f(2) by (auto simp: list_ex_iff is_agent_of_def agent_places_def)
  then have "map_of (agent_places (dl_db n)) a = Some w" using t(2) by simp
  then have l: "lock_agent (dl_db n) w a = Inr ()" by (simp add: lock_agent_places)
  have ids: "map tu_agent (map (\<lambda>t. if tu_agent t = a then t\<lparr>tu_below := below, tu_to := to\<rparr> else t) us) = map tu_agent us" for us
    by simp
  have di: "distinct (map tu_agent ts)"
    using ts
  proof (elim disjE conjE)
    assume "ts = map (\<lambda>t. if tu_agent t = a then t\<lparr>tu_below := below, tu_to := to\<rparr> else t) (topups (dl_db n))"
    then show ?thesis using ids [of "topups (dl_db n)"] t(1) by (simp only: topups_ok_def)
  qed (use t(1) in \<open>auto simp: topups_ok_def\<close>)
  have "\<forall>t \<in> set ts. tu_below t < tu_to t \<and> lock_agent (dl_db n) (tu_ws t) (tu_agent t) = Inr ()"
    using ts t(1) l f(1) unfolding topups_ok_def by auto
  then have tok: "\<forall>t \<in> set ts. tu_below t < tu_to t \<and> lock_agent d (tu_ws t) (tu_agent t) = Inr ()"
    by (simp only: lock_agent_places p)
  show ?thesis
  proof (rule own_plan_op [OF ok _ _ _ p])
    show "same_money (dl_db n) d" by (simp add: d same_money_def)
    show "schedules_ok (n\<lparr>dl_db := d\<rparr>)"
      using ok by (simp add: d plan_ok_def schedules_ok_def schedule_ok_def agent_places_def)
    show "topups_ok d" using di tok unfolding topups_ok_def by (simp add: d)
  qed
qed

lemma remove_top_up_op:
  assumes ok: "plan_ok n"
  shows "plan_op n (n\<lparr>dl_db := remove_agent_top_up (dl_db n) w a\<rparr>)"
proof -
  let ?d = "remove_agent_top_up (dl_db n) w a"
  have p: "agent_places ?d = agent_places (dl_db n)" by (simp add: remove_agent_top_up_def agent_places_def)
  show ?thesis
  proof (rule own_plan_op [OF ok _ _ _ p])
    show "same_money (dl_db n) ?d" by (simp add: remove_agent_top_up_def same_money_def)
    show "schedules_ok (n\<lparr>dl_db := ?d\<rparr>)"
      using ok by (simp add: remove_agent_top_up_def plan_ok_def schedules_ok_def schedule_ok_def agent_places_def)
    show "topups_ok ?d"
      using ok by (auto simp: plan_ok_def topups_ok_def remove_agent_top_up_def lock_agent_places agent_places_def
          intro: distinct_map_filter)
  qed
qed

lemma plan_op_trans: "plan_op n m \<Longrightarrow> plan_op m n' \<Longrightarrow> plan_op n n'"
  by (auto simp: plan_op_def)

text \<open>A whole run, whatever the services answer.\<close>

lemma ticks_op:
  assumes ok: "plan_ok n" and r: "run_ticks (run_schedule_tick pd told cx fresh now) k n = (n', outs, e)"
  shows "plan_op n n'"
  using ok r
proof (induction k arbitrary: n outs)
  case 0
  then show ?case by (simp add: plan_op_def)
next
  case (Suc k)
  obtain m out where t: "run_schedule_tick pd told cx fresh now n = (m, out)" by (cases "run_schedule_tick pd told cx fresh now n")
  have o: "all_ok n" "schedules_ok n" using Suc.prems(1) by (simp_all add: plan_ok_def)
  have same: "plan_op n n" using Suc.prems(1) by (simp add: plan_op_def)
  show ?case
  proof (cases out)
    case (Inl f)
    have "m = n" using o t unfolding Inl by (cases rule: tick_cases) simp_all
    then show ?thesis using same Suc.prems(2) t Inl by simp
  next
    case (Inr x)
    show ?thesis
    proof (cases x)
      case None
      have "m = n" using o t unfolding Inr None by (cases rule: tick_cases) simp_all
      then show ?thesis using same Suc.prems(2) t Inr None by simp
    next
      case (Some y)
      note T = t [unfolded Inr Some]
      note S = tick_settles [OF o T] note F = tick_frame [OF o T]
      have m: "plan_op n m"
        using S(1-3) F Suc.prems(1) topups_ok_same [OF F(1,2)] by (simp add: plan_op_def plan_ok_def agents_named_def)
      obtain ys where "run_ticks (run_schedule_tick pd told cx fresh now) k m = (n', ys, e)"
        using Suc.prems(2) t Inr Some by (auto split: prod.splits)
      moreover have "plan_ok m" using m by (simp add: plan_op_def)
      ultimately have "plan_op m n'" using Suc.IH by blast
      then show ?thesis by (rule plan_op_trans [OF m])
    qed
  qed
qed

lemma top_up_all_kept:
  "books d \<Longrightarrow> top_up_all cx d due = (d', k, e) \<Longrightarrow> wallet_op d d' \<and> plan_same d d'"
proof (induction due arbitrary: d d' k)
  case Nil
  then show ?case by (simp add: wallet_op_def)
next
  case (Cons x due)
  obtain w a where x: "x = (w, a)" by (cases x)
  show ?case
  proof (cases "top_up_agent cx d w a")
    case (Inl f)
    then show ?thesis using Cons.prems by (simp add: x wallet_op_def)
  next
    case (Inr y)
    obtain m j where y: "y = (m, j)" by (cases y)
    note M = top_up_moves [OF Cons.prems(1) Inr [unfolded y]]
    obtain q i where q: "top_up_all cx m due = (q, i, e)" "d' = q" using Cons.prems(2) Inr y x by (auto split: prod.splits)
    have "books m" using M(1) by (simp add: wallet_op_def)
    then have "wallet_op m q \<and> plan_same m q" using Cons.IH q(1) by blast
    then show ?thesis using M(1,2) wallet_op_trans plan_same_trans unfolding q(2) by blast
  qed
qed

lemma run_op:
  assumes ok: "plan_ok n" and rn: "renewer_ok renew"
  shows "plan_op n (fst (run_agent_schedules pd told cx fresh renew now n))"
proof -
  obtain n1 outs e1 where r1: "run_ticks (run_schedule_tick pd told cx fresh now) max_ticks_per_run n = (n1, outs, e1)"
    by (metis prod_cases3)
  note P1 = ticks_op [OF ok r1]
  obtain n2 x e2 where r2: "(case renew of None \<Rightarrow> (n1, (0, 0), None) | Some f \<Rightarrow> f n1) = (n2, x, e2)"
    by (metis prod_cases3)
  have ok1: "plan_ok n1" "all_ok n1" using P1 by (simp_all add: plan_op_def plan_ok_def)
  have "plan_kept n1 n2 \<and> loan_op_ok n1 n2"
    using r2 rn loan_op_refl [OF ok1(2)] ok1(2) unfolding renewer_ok_def plan_kept_def
    by (cases renew) (simp, metis option.simps(5))
  then have P2: "plan_op n1 n2" using kept_plan_op [OF ok1(1)] by blast
  obtain d j e3 where r3: "top_up_all cx (dl_db n2) (map (\<lambda>t. (tu_ws t, tu_agent t)) (topups (dl_db n2))) = (d, j, e3)"
    by (metis prod_cases3)
  have ok2: "plan_ok n2" "all_ok n2" "books (dl_db n2)" using P2 by (simp_all add: plan_op_def plan_ok_def all_ok_def deals_ok_def)
  note T = top_up_all_kept [OF ok2(3) r3]
  have "loan_op_ok n2 (n2\<lparr>dl_db := d\<rparr>)" using T by (intro wallet_op_ok [OF ok2(2)]) simp_all
  then have P3: "plan_op n2 (n2\<lparr>dl_db := d\<rparr>)" using kept_plan_op [OF ok2(1)] T by (simp add: plan_kept_def)
  have "fst (run_agent_schedules pd told cx fresh renew now n) \<in> {n2, n2\<lparr>dl_db := d\<rparr>}"
    by (auto simp: run_agent_schedules_def r1 r2 r3 Let_def split: prod.split)
  then show ?thesis using plan_op_trans [OF P1 P2] plan_op_trans [OF plan_op_trans [OF P1 P2] P3] by auto
qed

inductive plan_step :: "pay_desk \<Rightarrow> (err \<Rightarrow> string) \<Rightarrow> deals \<Rightarrow> deals \<Rightarrow> bool" for pd told where
  deal: "deal_step (pd_desk pd) told n n' \<Longrightarrow> plan_step pd told n n'"
| pay: "plan_step pd told n (fst (pay_agent pd cx n w a b amount memo i ap))"
| schedule: "create_agent_schedule cx (dl_db n) w a b amount memo every first i = Inr (d, c) \<Longrightarrow>
    plan_step pd told n (n\<lparr>dl_db := d\<rparr>)"
| schedule_listing: "listing \<noteq> '''' \<Longrightarrow>
    create_agent_listing_schedule pd cx (dl_db n) w a listing amount memo every first i = Inr (d, c) \<Longrightarrow>
    plan_step pd told n (n\<lparr>dl_db := d\<rparr>)"
| cancel: "cancel_agent_schedule (dl_db n) w i = Inr d \<Longrightarrow> plan_step pd told n (n\<lparr>dl_db := d\<rparr>)"
| skip: "skip_agent_schedule_tick cx n w i = Inr (n', c) \<Longrightarrow> plan_step pd told n n'"
| top_up: "set_agent_top_up (dl_db n) w a below to = Inr d \<Longrightarrow> plan_step pd told n (n\<lparr>dl_db := d\<rparr>)"
| no_top_up: "plan_step pd told n (n\<lparr>dl_db := remove_agent_top_up (dl_db n) w a\<rparr>)"
| run: "renewer_ok renew \<Longrightarrow> plan_step pd told n (fst (run_agent_schedules pd told cx fresh renew now n))"

lemma plan_step_op: "plan_step pd told n n' \<Longrightarrow> plan_ok n \<Longrightarrow> plan_op n n'"
proof (induction rule: plan_step.induct)
  case (deal n n')
  have "all_ok n" using deal(2) by (simp add: plan_ok_def)
  then show ?case using kept_plan_op [OF deal(2) step_ok [OF deal(1)] deal_step_plan [OF deal(1)]] by blast
next
  case (pay n cx w a b amount memo i ap)
  have "all_ok n" using pay by (simp add: plan_ok_def)
  then show ?case by (intro kept_plan_op [OF pay] pay_agent_ok pay_agent_plan)
qed (rule create_op create_listing_op cancel_op skip_op set_top_up_op remove_top_up_op run_op; assumption)+

definition plan_reach :: "pay_desk \<Rightarrow> (err \<Rightarrow> string) \<Rightarrow> deals \<Rightarrow> deals \<Rightarrow> bool" where
  "plan_reach pd told = (plan_step pd told)\<^sup>*\<^sup>*"

lemma plan_reach_op: "plan_reach pd told n n' \<Longrightarrow> plan_ok n \<Longrightarrow> plan_op n n'"
  unfolding plan_reach_def
proof (induction rule: rtranclp_induct)
  case base
  then show ?case by (simp add: plan_op_def)
next
  case (step m n')
  then show ?case using plan_step_op [of pd told m n'] plan_op_trans by (auto simp: plan_op_def)
qed

text \<open>A state that starts with nothing planned.\<close>

lemma plan_ok_start:
  "all_ok n \<Longrightarrow> schedules (dl_db n) = [] \<Longrightarrow> topups (dl_db n) = [] \<Longrightarrow> dl_runs n = [] \<Longrightarrow> agents_named (dl_db n) \<Longrightarrow> plan_ok n"
  by (simp add: plan_ok_def schedules_ok_def topups_ok_def)

end
