(* ===== verification/Sample_Plans.thy ===== *)
theory Sample_Plans
  imports Sample_Deals Agent_Statements Company_Payments Plan_System
begin

section \<open>Payments, a schedule and a top-up of the sample companies\<close>

text \<open>
  The two companies of \<open>Sample_Deals\<close>: one of the agents pays another of its workspace, pays the
  other company through a marketplace that answers, and has a schedule and a top-up that a run
  finds due. The last part is the corner case the findings name.
\<close>

subsection \<open>What the payments ask\<close>

definition demo_market :: marketplace where
  "demo_market = \<lparr>mk_payable = (\<lambda>d b l. Inr (Inr 10)), mk_sellable = (\<lambda>d b. Inr None), mk_linked = (\<lambda>d a b. Inr False)\<rparr>"

definition demo_pays :: pay_desk where
  "demo_pays = \<lparr>pd_desk = demo_desk, pd_listings = Some demo_market, pd_companies = Some demo_market, pd_live_stripe = False\<rparr>"

text \<open>An id longer than all there are.\<close>

definition unused_id :: "deals \<Rightarrow> string" where
  "unused_id n = replicate (Suc (sum_list (map (length \<circ> tr_id) (dl_transfers n)))) (CHR ''x'')"

lemma unused_id: "unused_id n \<notin> tr_id ` set (dl_transfers n)"
proof
  assume "unused_id n \<in> tr_id ` set (dl_transfers n)"
  then obtain t where t: "t \<in> set (dl_transfers n)" "tr_id t = unused_id n" by auto
  have "length (tr_id t) \<le> sum_list (map (length \<circ> tr_id) (dl_transfers n))"
    using t(1) by (intro member_le_sum_list) auto
  then show False by (simp add: t(2) unused_id_def)
qed

lemma demo_answers: "services_answer demo_pays unused_id" "renewer_ok None"
  by (simp_all add: services_answer_def market_answers_def demo_pays_def demo_desk_def demo_market_def unused_id renewer_ok_def)

subsection \<open>Payments\<close>

definition demo_trio :: db where
  "demo_trio = fst (right_or (demo_peer, new_agent demo_ctx ''c'' ''w'' ''C'' ''p'' KindAgent)
     (create_agent demo_store demo_ctx demo_peer ''w'' ''C'' ''p'' ''c''))"

definition trio_payment :: agent_payment where
  "trio_payment = new_payment ''a'' ''c'' 300 ''lunch''"

definition trio_paid :: "db \<times> agent_payment" where
  "trio_paid = projr (pay_agent_tx demo_store demo_ctx demo_trio ''w'' trio_payment)"

lemma trio_books: "books demo_trio"
proof -
  have "\<not> isl (create_agent demo_store demo_ctx demo_peer ''w'' ''C'' ''p'' ''c'')" by code_simp
  from right_or_fst [OF this] obtain x where "create_agent demo_store demo_ctx demo_peer ''w'' ''C'' ''p'' ''c'' = Inr (demo_trio, x)"
    unfolding demo_trio_def by blast
  then show ?thesis using accounts_same_money(2) demo_peer_books same_money_books by blast
qed

lemma trio_ran: "pay_agent_tx demo_store demo_ctx demo_trio ''w'' trio_payment = Inr (fst trio_paid, snd trio_paid)"
proof -
  have "\<not> isl (pay_agent_tx demo_store demo_ctx demo_trio ''w'' trio_payment)" by code_simp
  then show ?thesis by (simp add: trio_paid_def)
qed

definition duo_fee :: agent_payment where
  "duo_fee = new_payment ''a'' ''b'' 250 ''fee''"

lemma duo_company: "company_permitted demo_pays demo_market demo_ctx duo ''w'' ''v'' ''a''"
proof -
  have "require_billed_capability demo_store False demo_ctx empty_gates (dl_db duo) ''w'' ''pay_another_owner'' = Inr ()"
    "lock_agent (dl_db duo) ''w'' ''a'' = Inr ()" "refuse_frozen_pair empty_gates ''pay_another_owner'' ''w'' ''v'' = Inr ()"
    by code_simp+
  then show ?thesis
    using duo_test by (simp add: company_permitted_def Let_def demo_pays_def demo_desk_def demo_market_def duo_facts)
qed

lemma duo_fee_permit: "rules_permit demo_store demo_ctx (dl_db duo) ''w'' ''a'' 250"
proof -
  have "\<not> isl (enforce_agent_rules demo_store demo_ctx (dl_db duo) ''w'' ''a'' 250 ''x'')" by code_simp
  then show ?thesis by (simp add: went_iff flip: enforce_permits [where ref = "''x''"])
qed

subsection \<open>A schedule and a top-up\<close>

definition duo_rent :: "db \<times> agent_schedule" where
  "duo_rent = projr (create_agent_schedule demo_ctx (dl_db duo) ''w'' ''a'' ''b'' 100 ''rent'' ''hour'' 900 ''s1'')"

definition duo_planned :: deals where
  "duo_planned = duo\<lparr>dl_db := projr (set_agent_top_up (fst duo_rent) ''w'' ''a'' 5000 6000)\<rparr>"

definition duo_run :: "deals \<times> schedule_result \<times> err list" where
  "duo_run = run_agent_schedules demo_pays told_nothing demo_ctx unused_id None 1000 duo_planned"

lemma duo_start: "plan_ok duo"
proof (rule plan_ok_start [OF duo_ok])
  have "length (schedules (dl_db duo)) = 0" "length (topups (dl_db duo)) = 0" by code_simp+
  then show "schedules (dl_db duo) = []" "topups (dl_db duo) = []" by simp_all
  show "dl_runs duo = []" by (simp add: duo_def empty_deals_def)
  have "map fst (agent_places (dl_db duo)) = [''a'', ''b'']" by code_simp
  then have "distinct (map fst (agent_places (dl_db duo)))" "set (map fst (agent_places (dl_db duo))) = {''a'', ''b''}" by simp_all
  then show "agents_named (dl_db duo)" by (simp add: agents_named_def)
qed

lemma duo_plan_steps:
  "plan_step demo_pays told_nothing duo (duo\<lparr>dl_db := fst duo_rent\<rparr>)"
  "plan_step demo_pays told_nothing (duo\<lparr>dl_db := fst duo_rent\<rparr>) duo_planned"
  "plan_step demo_pays told_nothing duo_planned (fst duo_run)"
proof -
  have "\<not> isl (create_agent_schedule demo_ctx (dl_db duo) ''w'' ''a'' ''b'' 100 ''rent'' ''hour'' 900 ''s1'')" by code_simp
  then have "create_agent_schedule demo_ctx (dl_db duo) ''w'' ''a'' ''b'' 100 ''rent'' ''hour'' 900 ''s1'' =
      Inr (fst duo_rent, snd duo_rent)" by (simp add: duo_rent_def)
  then show "plan_step demo_pays told_nothing duo (duo\<lparr>dl_db := fst duo_rent\<rparr>)" by (rule plan_step.schedule)
  have "\<not> isl (set_agent_top_up (fst duo_rent) ''w'' ''a'' 5000 6000)" by code_simp
  then have "set_agent_top_up (dl_db (duo\<lparr>dl_db := fst duo_rent\<rparr>)) ''w'' ''a'' 5000 6000 = Inr (dl_db duo_planned)"
    by (simp add: duo_planned_def)
  from plan_step.top_up [OF this] show "plan_step demo_pays told_nothing (duo\<lparr>dl_db := fst duo_rent\<rparr>) duo_planned"
    by (simp add: duo_planned_def)
  show "plan_step demo_pays told_nothing duo_planned (fst duo_run)"
    unfolding duo_run_def by (rule plan_step.run [OF demo_answers(2)])
qed

lemma duo_planned_ok: "plan_ok duo_planned"
  using plan_step_op [OF duo_plan_steps(2)] plan_step_op [OF duo_plan_steps(1) duo_start] by (simp add: plan_op_def)

lemma duo_run_reached: "plan_reach demo_pays told_nothing duo (fst duo_run)"
  unfolding plan_reach_def using duo_plan_steps by (meson rtranclp.rtrancl_into_rtrancl rtranclp.rtrancl_refl)

lemma duo_due_ticks: "ticks_due 1000 duo_planned = 1" "map (\<lambda>c. (sc_id c, sc_next c, sc_active c)) (schedules (dl_db duo_planned)) = [(''s1'', 900, True)]"
  by code_simp+

subsection \<open>Corner cases\<close>

text \<open>
  An archived agent, which cannot be funded, is given a top-up and then credits by the next run.
\<close>

definition archived_db :: db where
  "archived_db = fst (projr (archive_agent demo_ctx demo_trio ''w'' ''a''))"

definition archived_topped :: db where
  "archived_topped = projr (set_agent_top_up archived_db ''w'' ''a'' 100 300)"

lemma archived_agent_topped_up:
  "require_not_archived archived_topped ''a'' = Inl ErrAgentArchived"
  "fund_agent demo_ctx archived_topped ''w'' ''a'' 300 = Inl ErrAgentArchived"
  "map_sum id snd (top_up_agent demo_ctx archived_topped ''w'' ''a'') = Inr 300"
proof -
  have i: "\<not> isl (archive_agent demo_ctx demo_trio ''w'' ''a'')" "\<not> isl (set_agent_top_up archived_db ''w'' ''a'' 100 300)"
    "(case require_not_archived archived_topped ''a'' of Inl ErrAgentArchived \<Rightarrow> True | _ \<Rightarrow> False)"
    "(case fund_agent demo_ctx archived_topped ''w'' ''a'' 300 of Inl ErrAgentArchived \<Rightarrow> True | _ \<Rightarrow> False)"
    "(case top_up_agent demo_ctx archived_topped ''w'' ''a'' of Inr (_, x) \<Rightarrow> x = 300 | _ \<Rightarrow> False)"
    by code_simp+
  show "require_not_archived archived_topped ''a'' = Inl ErrAgentArchived"
    "fund_agent demo_ctx archived_topped ''w'' ''a'' 300 = Inl ErrAgentArchived"
    "map_sum id snd (top_up_agent demo_ctx archived_topped ''w'' ''a'') = Inr 300"
    using i(3-5) by (auto split: sum.splits err.splits)
qed

end
