(* ===== verification/Spec2Isabelle.thy ===== *)
theory Spec2Isabelle
  imports Sample_Wallet Sample_Deals Sample_Serving Sample_Plans
begin

text \<open>
  Talyvor Lens is a gateway in front of AI providers: it forwards a workspace's requests, bills
  them in LXC credits (integers of micro-LXC) and lets a workspace give credits to agents that
  spend on its behalf under rules. This library models, from the Go sources under src/, the
  credit wallet with everything that moves its money (src/internal/economy, plans) and the
  layer that serves a request (keys, fallbacks, breakers, retries, limits, leadership).

  \<^bold>\<open>How the code is read.\<close> A Go function is a HOL function of the same name in lower case with
  underscores (\<open>ReserveLXCForAgent\<close> is \<open>reserve_lxc_for_agent\<close>). An error return is \<open>Inl\<close>;
  the wallet's functions run in one database transaction each, so they map a \<open>db\<close> to a \<open>db\<close>
  and an \<open>Inl\<close> is the rollback. \<open>db\<close> is the record of the tables (src/migrations), keyed tables
  as maps, scanned tables as lists, oldest row first. \<open>store\<close> holds what the server is
  configured with, \<open>ctx\<close> the clock, the request's agent context and the ids it brings. Amounts
  are unbounded integers where the code adds columns of the database (which PostgreSQL checks),
  and 64-bit where Go computes them: \<open>platform_fee64\<close>, durations and shifts wrap through \<open>i64\<close>.

  \<^bold>\<open>The wallet.\<close>
  \<open>Platform_Fee\<close> (platform_fee.go): the fee of a charge and the greatest charge that fits with
  its fee, their locale \<open>fee_schedule\<close>. \<open>Plans\<close> (plans/plans.go): gates of the plans and what
  they refuse. \<open>Clock\<close>, \<open>Go_Text\<close>: the calendar and string functions used. \<open>Wallet_State\<close>: the
  tables. \<open>Wallet_Ops\<close>: reads and writes of balance rows, ledger and cash backing (dualtoken.go,
  cash_backed.go, wallet_capabilities.go). \<open>Agent_Ledger\<close>: double-entry postings of agents, pots
  and escrows with the balance trigger (agent_accounts.go, migration 0185). \<open>Credits\<close>: a
  workspace's own spends, credits, grants, refunds. \<open>Agent_Accounts\<close>: creating, keying, funding,
  pots, pauses, archive (agent_accounts.go, agent_pots.go, agent_lifecycle.go, agent_alerts.go).
  \<open>Agent_Rules\<close>, \<open>Agent_Limits\<close>, \<open>Rule_Periods\<close>: the spending rules, their history, boosts,
  approvals, and the judgement of a movement (agent_rules.go, agent_rule_boosts.go,
  agent_rules_history.go). \<open>Credit_Line\<close>: a company's line and a draw. \<open>Agent_Movement\<close>: what a
  key's hold, debit or release does to its agent. \<open>Reservations\<close>: hold, settle, release, sweep
  (agent_subbudget.go). \<open>Debit_Settle\<close>: the debit before a request is served and its settlement
  (agent_debit_settle.go), and the bounded retry of a cancelled transaction.
  \<open>Wallet_Books\<close>, \<open>Hold_Books\<close>, \<open>Hold_Release\<close>, \<open>Debit_Books\<close> show that each operation keeps the
  invariants and what it does in closed form; \<open>Wallet_System\<close> puts all of them into one step
  relation, its reachable states and the invariant \<open>wallet_inv\<close>; \<open>Agent_Stops\<close> what pausing,
  archiving and locking guarantee; \<open>Sample_Wallet\<close> a concrete wallet the properties are applied to.

  \<^bold>\<open>Agents' dealings with each other.\<close>
  \<open>Capability_List\<close>, \<open>Capabilities\<close> (wallet_capabilities.go, capability_terms.go,
  compliance_freeze.go, verification.go): what a wallet can do, in which class, and what refuses a
  use: no clearance, another country, a freeze, terms not accepted, a level or its limit, the plan.
  \<open>Deal_State\<close>: the rows of transfers, requests, escrows and loans, the owner verifier, the wall
  between test and real money, and entries that post in two workspaces. \<open>Agent_Transfers\<close>
  (agent_transfers.go): addresses, transfers, requests, refunds; \<open>Transfer_Rule\<close> says in one formula
  when a transfer goes through. \<open>Tick_Runs\<close>, \<open>Tick_Times\<close>: the loop of a minute's tick and the dates
  it works with (agent_schedules.go, company_loans.go). \<open>Agent_Escrows\<close> (agent_escrows.go) with what
  is in escrow at any time. \<open>Company_Loans\<close> (company_loans.go): terms at 64 bits, offers, payouts,
  repayments; \<open>Loan_Books\<close> what a loan has paid. \<open>Deal_System\<close> puts all of it into one step relation
  with its invariant \<open>all_ok\<close>; \<open>Sample_Deals\<close> is two companies that deal, and the corner cases the
  findings name.

  \<^bold>\<open>Payments, statements and schedules.\<close>
  \<open>Agent_Payments\<close> (agent_payments.go, agent_market.go, agent_self_service.go,
  agent_rule_simulator.go, market/agent_payment.go): paying an agent of the same workspace or, through
  the marketplace, of another company; a purchase judged by the rules; an approval asked for before
  paying; receipts; what the rules would answer. \<open>Company_Payments\<close> says when a payment to a company
  goes through and what it bills. \<open>Agent_Statements\<close> (agent_statements.go): an account's lines and
  the totals of a period, and that they add up and do not change once the period is closed.
  \<open>Agent_Schedules\<close> (agent_schedules.go): schedules, one tick, a run, the top-ups.
  \<open>Schedule_Runs\<close> shows that a tick runs once and a run settles what is due, \<open>Top_Ups\<close> what a top-up
  moves and that a run ends; \<open>Plan_System\<close> adds payments, schedules and runs to the deals' step
  relation, with its invariant \<open>plan_ok\<close>; \<open>Sample_Plans\<close> is a plan that pays and a corner case.

  \<^bold>\<open>Serving.\<close>
  \<open>Key_Pool\<close> (keypool/pool.go): provider keys, their circular windows and turns. \<open>Serving_Guards\<close>
  (backpressure, fallback/router.go, and forwardWithFallback of proxy/proxy.go): the walk over
  providers, which takes keys from the pool and counts outcomes against them. \<open>Circuit_Breaker\<close>
  (retry/policy.go, ha/shared_breaker.go): breakers, their registry and the gossip between
  instances. \<open>Retry_Policy\<close> (retry/policy.go, retry/retry.go): what is retried, the executor on
  top of the breakers, the plain loop. \<open>Rate_Limits\<close> (ratelimit/limiter.go, ha/shared_limiter.go).
  \<open>Leader_Election\<close> (ha/leader.go). \<open>Fee_Settings\<close> (fees/fees.go): the fees the wallet is
  configured with. \<open>Sample_Serving\<close>: sample states, and the corner cases the findings name.

  \<^bold>\<open>Interfaces.\<close> \<open>fee_schedule\<close> (a charge fits in a hold exactly when it is at most \<open>within\<close>) is
  interpreted on the plan fee; \<open>calendar\<close> (periods start no later than now) on UTC; and
  \<open>exactly_once\<close> (an operation under a key of its own: once it has succeeded a repetition changes
  nothing) on the hold, the settle, the release, the debit and the fund. \<open>tick_runner\<close> (a tick
  settles one thing due, or finds none) is interpreted on the escrow deadlines, the repayments and
  the schedules.

  \<^bold>\<open>Bounds and fuel.\<close> Loops over rows are structural recursions. \<open>retry_locks\<close> runs at most
  \<open>lock_retries\<close> + 1 = 6 attempts, \<open>execute\<close> and \<open>retry_do\<close> as many as their policy, the walk over
  providers at most three; the recursion is on the attempts left, which is the code's bound. The
  sweep releases the list of stranded holds it selected. A run of ticks makes at most
  \<open>max_ticks_per_run\<close> = 1000, the code's constant: enough when no more is due, which the claims on
  deadlines and on schedules assume.

  \<^bold>\<open>Parameters.\<close> Redis is the record \<open>redis\<close> with the documented laws \<open>redis_leases\<close>, or the
  answers of its scripts; a time zone other than UTC (loans fall due in UTC), the verifier of owners,
  SHA-256, the resolver of a plan's fee rate, JSON
  decoding, HTTP dates, provider round trips, random jitter and new ids are arguments. So is the
  marketplace (\<open>marketplace\<close>): the listing a buyer may pay with its price, where it sells, which
  workspaces are linked; and its renewal of licences. \<open>services_answer\<close> says that it answers. Text is
  ASCII. Properties hold for every value of these unless their hypotheses say otherwise.

  \<^bold>\<open>Not modelled.\<close> HTTP handlers, JSON, metrics, the request pipeline of the proxy around the walk
  over providers, caching and routing heuristics; code over float64 (token buckets, exponential
  backoff with jitter, the LENS rate engine); the LENS mining ledger; standing orders, cards,
  cash-outs, payments outside and invoices of agents, which move money through partners; the text
  of refusals;
  isolation levels of PostgreSQL beyond one transaction being atomic (the code's locks make the
  modelled operations serial; what a cancelled attempt does is \<open>retry_locks\<close>).
\<close>

section \<open>The wallet as a whole\<close>



text \<open>
  C2. Settling a held hold charges the delivered cost as far as the hold covers it with its fee,
  writes the rest off, returns to the balance (and to the key's agent, if it has one)
  everything else that was held, closes the hold and touches no other workspace's balance.
\<close>

theorem settle_charges_within_hold:
  assumes "wallet_inv kw d" and "st_pool s"
    and "find_reservation d i = Some r" and "rv_status r = Held"
    and "settle_lxc_reservation s cx d i delivered meta = Inr (d', res)"
  shows "\<exists>fee. fee = platform_fee (sr_settled res) (rv_bps r) \<and>
    sr_settled res = min (max 0 delivered) (spend_within (rv_held r) (rv_bps r)) \<and>
    sr_settled res + hc_written_off (sr_cut res) = max 0 delivered \<and>
    sr_settled res + fee \<le> rv_held r \<and>
    bal_of d' (rv_ws r) = bal_of d (rv_ws r) + (rv_held r - sr_settled res - fee) \<and>
    held_sum d' (rv_ws r) = held_sum d (rv_ws r) - rv_held r \<and>
    (\<forall>v. v \<noteq> rv_ws r \<longrightarrow> bal_of d' v = bal_of d v \<and> held_sum d' v = held_sum d v) \<and>
    find_reservation d' i = Some (r\<lparr>rv_status := Settled, rv_settled := Some (sr_settled res)\<rparr>) \<and>
    (\<forall>a. agent_of_key d (rv_key r) = Some (a, rv_ws r) \<longrightarrow>
      account_balance d' (rv_ws r) (AgentAcc a) =
        account_balance d (rv_ws r) (AgentAcc a) + (rv_held r - sr_settled res - fee))"
proof -
  have b: "books d" and h: "homed kw d" using assms(1) by (simp_all add: wallet_inv_def)
  show ?thesis using settle_effect [OF b assms(2,3,4) homed_hold(3) [OF h assms(3)] assms(5)] by blast
qed

theorem settle_charges_within_hold_witness:
  "\<exists>d' res. settle_lxc_reservation demo_store demo_ctx demo_held ''r1'' 800 no_meta = Inr (d', res) \<and>
    sr_settled res + hc_written_off (sr_cut res) = 800 \<and>
    sr_settled res + platform_fee (sr_settled res) (rv_bps demo_hold) \<le> rv_held demo_hold"
proof -
  obtain d' res where s: "settle_lxc_reservation demo_store demo_ctx demo_held ''r1'' 800 no_meta = Inr (d', res)"
    using settle_always [OF demo_inv(2) demo_pool demo_find_hold(1)] by blast
  from settle_charges_within_hold [OF demo_inv(2) demo_pool demo_find_hold s] s show ?thesis by auto
qed

text \<open>
  C3. Settling a debit that was booked before the request was served accounts for the whole
  delivered cost: the estimate already taken, the difference charged or returned, and what is
  written off add up to it; nothing is written off when the estimate covered the cost, the
  fee charged ends at the fee of what was charged in all, and the settlement's row says so.
\<close>

theorem settle_debit_accounts_for_cost:
  assumes "wallet_inv kw d" and "st_pool s" and "settlements d k = None"
    and "settle_agent_debit s cx d w k delivered meta = Inr (d', out)"
  shows "\<exists>c charge. map_of (claims d) k = Some c \<and> charge = cl_amount c + do_settled out \<and>
    charge + do_written_off out = max 0 delivered \<and> 0 \<le> charge \<and> 0 \<le> do_written_off out \<and>
    do_settled_fee out = platform_fee charge (cl_bps c) - platform_fee (cl_amount c) (cl_bps c) \<and>
    settlements d' k = Some (settlement_row w (cl_key c) (agent_in_workspace d (cl_key c) w) meta
      (cl_amount c) (max 0 delivered) (do_settled out) (do_written_off out)) \<and>
    (max 0 delivered \<le> cl_amount c \<longrightarrow> do_written_off out = 0)"
proof -
  have "books d" "claims_ok d" using assms(1) by (simp_all add: wallet_inv_def)
  from settle_debit_effect [OF assms(4,2) this assms(3)] show ?thesis by blast
qed

theorem settle_debit_accounts_for_cost_witness:
  "\<exists>d' out. settle_agent_debit demo_store demo_ctx demo_debited ''w'' ''q1'' 700 no_meta = Inr (d', out) \<and>
    500 + do_settled out + do_written_off out = 700"
proof -
  obtain d' out where s: "settle_agent_debit demo_store demo_ctx demo_debited ''w'' ''q1'' 700 no_meta = Inr (d', out)"
    using settle_debit_always [OF demo_inv(3) demo_pool _ _ demo_claim(1), of "''w''"] by (fastforce simp: demo_kw_def)
  from settle_debit_accounts_for_cost [OF demo_inv(3) demo_pool demo_claim(2) s] s demo_claim(1)
  show ?thesis by (auto simp: demo_claim_row_def)
qed


text \<open>
  C5. After a hold taken on an agent's key under rules in the UTC calendar, what the agent has
  spent since the start of the current hour, day, week and month is at most the limit in
  force for each of them.
\<close>

theorem hold_within_period_limits:
  assumes "reserve_lxc_for_agent s cx d key w i estimate meta = Inr d'" and "st_pool s"
    and "find_reservation d i = None" and "agent_of_key d key = Some (a, w)"
    and "\<not> has_prefix i ''invoice_agent:''"
    and "agent_rules_in_force d a (req_time cx (agent_request_from cx)) = Some r"
    and "rules_location (st_zone s) r = Some utc"
    and "req_time cx (agent_request_from cx) \<le> cx_now cx"
  shows "\<forall>l \<in> set (period_limits r utc (req_time cx (agent_request_from cx))).
    pl_ulxc l \<noteq> 0 \<longrightarrow> agent_spent_since d' w a (pl_since l) \<le> pl_ulxc l"
  using reserve_limits [OF assms(1-7)] utc.period_limits_begun assms(8) order_trans by blast

theorem hold_within_period_limits_witness:
  "agent_spent_since demo_ruled_held ''w'' ''a'' (day_start utc (tz_civil utc 1000)) \<le> 1500"
proof -
  have t: "req_time demo_ctx (agent_request_from demo_ctx) = 1000" "cx_now demo_ctx = 1000" by code_simp+
  have "\<forall>l \<in> set (period_limits demo_in_force utc 1000). pl_ulxc l \<noteq> 0 \<longrightarrow>
      agent_spent_since demo_ruled_held ''w'' ''a'' (pl_since l) \<le> pl_ulxc l"
    using hold_within_period_limits [OF demo_ruled_ran(2) demo_pool demo_ruled_facts(1-3) _ demo_ruled_facts(5)]
      demo_ruled_facts(4) by (simp add: t)
  then show ?thesis using demo_ruled_facts(6) by (simp add: period_limits_def Let_def)
qed

text \<open>
  C6. A hold that is released again leaves every workspace's balance, holds and cash backing, and
  the key's agent's balance, as they were, when the key's agent could pay it from its own
  balance (a larger hold draws the workspace's credit line, which a release does not repay).
\<close>

theorem hold_then_release_restores:
  assumes "wallet_inv kw d" and "st_pool s" and "kw key = w" and "find_reservation d i = None"
    and "covers_itself s d key w estimate"
    and "reserve_lxc_for_agent s cx d key w i estimate meta = Inr d1"
    and "release_lxc_reservation s cx' d1 i reason = Inr d2"
  shows "\<forall>v. bal_of d2 v = bal_of d v \<and> held_sum d2 v = held_sum d v \<and> cash_of d2 v = cash_of d v \<and>
    (\<forall>a. agent_of_key d key = Some (a, w) \<longrightarrow>
      account_balance d2 w (AgentAcc a) = account_balance d w (AgentAcc a))"
proof -
  have b: "books d" and h: "homed kw d" using assms(1) by (simp_all add: wallet_inv_def)
  have home: "key_home d key w" using homed_key_home [OF h, of key] assms(3) by simp
  show ?thesis using hold_then_release [OF b assms(2) home assms(4-7)] by blast
qed

theorem hold_then_release_restores_witness:
  "\<exists>d2. release_lxc_reservation demo_store demo_ctx demo_held ''r1'' ''cancelled'' = Inr d2 \<and>
    bal_of d2 ''w'' = bal_of demo_db ''w'' \<and> held_sum d2 ''w'' = held_sum demo_db ''w''"
proof -
  obtain d2 where r: "release_lxc_reservation demo_store demo_ctx demo_held ''r1'' ''cancelled'' = Inr d2"
    using release_always [OF demo_inv(2) demo_pool] by blast
  have kw: "demo_kw ''ka'' = ''w''" by (simp add: demo_kw_def)
  from hold_then_release_restores [OF demo_inv(1) demo_pool kw demo_no_hold demo_covers demo_ran(5) r]
  show ?thesis using r by blast
qed

text \<open>
  C7. A hold is settled once: once a settle has succeeded, any number of further settles of it, of
  any cost, and of releases of it answer and leave the whole database as the first one left
  it, also after other operations that leave the hold resolved.
\<close>

theorem hold_settled_once:
  assumes "settle_lxc_reservation s cx d i delivered meta = Inr (d1, res)" and "st_pool s"
    and "run_all steps d1 = Inr d2"
    and "\<forall>f \<in> set steps. \<forall>x y. hold_resolved s i x \<longrightarrow> f x = Inr y \<longrightarrow> hold_resolved s i y"
  shows "run_all (replicate n (run_settle s cx' i delivered' meta')) d2 = Inr d2 \<and>
    release_lxc_reservation s cx' d2 i reason = Inr d2"
proof -
  have 1: "run_settle s cx i delivered meta d = Inr d1" using assms(1) by (simp add: run_settle_def)
  then have "hold_resolved s i d1" by (rule settle.claims)
  then have h: "hold_resolved s i d2"
    using assms(3,4) by (auto intro: run_all_keeps [where P = "hold_resolved s i"])
  have "run_all (replicate n (run_settle s cx' i delivered' meta')) d2 = Inr d2"
    using settle.replay [OF h] by (induction n) simp_all
  moreover have "hold_gone s i d2" using h by (auto simp: hold_resolved_def hold_gone_def resolved_def)
  then have "run_release s cx' i reason d2 = Inr d2" by (simp add: release.replay)
  ultimately show ?thesis by (simp add: run_release_def)
qed

theorem hold_settled_once_witness:
  "\<exists>d1 res. settle_lxc_reservation demo_store demo_ctx demo_held ''r1'' 800 no_meta = Inr (d1, res) \<and>
    run_all (replicate 3 (run_settle demo_store demo_ctx ''r1'' 900 no_meta)) d1 = Inr d1 \<and>
    release_lxc_reservation demo_store demo_ctx d1 ''r1'' ''late'' = Inr d1"
proof -
  obtain d1 res where s: "settle_lxc_reservation demo_store demo_ctx demo_held ''r1'' 800 no_meta = Inr (d1, res)"
    using settle_always [OF demo_inv(2) demo_pool demo_find_hold(1)] by blast
  have n: "run_all [] d1 = Inr d1" by simp
  from hold_settled_once [OF s demo_pool n] s show ?thesis by simp
qed

text \<open>
  C8. A key of no agent never holds past its ceiling: after a new hold on it, what the ceiling
  leaves is not negative.
\<close>

theorem hold_within_ceiling:
  assumes "reserve_lxc_for_agent s cx d key w i estimate meta = Inr d'" and "st_pool s"
    and "find_reservation d i = None" and "agent_of_key d key = None"
  shows "0 \<le> budget_left d' key"
  using assms by (rule reserve_ceiling)

theorem hold_within_ceiling_witness:
  "\<exists>d'. reserve_lxc_for_agent demo_store demo_ctx demo_db ''kb'' ''w'' ''r9'' 100 no_meta = Inr d' \<and>
    0 \<le> budget_left d' ''kb''"
proof -
  have "\<not> isl (reserve_lxc_for_agent demo_store demo_ctx demo_db ''kb'' ''w'' ''r9'' 100 no_meta)" by code_simp
  then obtain d' where h: "reserve_lxc_for_agent demo_store demo_ctx demo_db ''kb'' ''w'' ''r9'' 100 no_meta = Inr d'"
    by (rule not_isl_InrE)
  have "find_reservation demo_db ''r9'' = None" by code_simp
  moreover have "agent_of_key demo_db ''kb'' = None" by code_simp
  ultimately show ?thesis using hold_within_ceiling [OF h demo_pool] h by blast
qed







text \<open>
  C12. Archiving an agent needs its pots empty, returns its whole balance to the workspace's
  unallocated credits and leaves it none; funding the archived agent never moves anything.
\<close>

theorem archive_returns_all:
  assumes "wallet_inv kw d" and "archive_agent cx d w a = Inr (d', out)"
  shows "agent_pots_total d w a = 0 \<and> ar_swept out = account_balance d w (AgentAcc a) \<and>
    account_balance d' w (AgentAcc a) = 0 \<and> bal_of d' w = bal_of d w \<and>
    bal_of d' w - allocated d' w = bal_of d w - allocated d w + ar_swept out \<and>
    (\<forall>cx' x d2 n. fund_agent cx' d' w a x = Inr (d2, n) \<longrightarrow> d2 = d')"
proof -
  have b: "books d" using assms(1) by (simp add: wallet_inv_def)
  obtain r where r: "find_agent d a = Some r" using archive_InrD [OF assms(2)] by blast
  show ?thesis
    using archive_sweeps [OF b assms(2)] archived_not_funded [OF archived_find [OF assms(2) r]] by simp
qed

theorem archive_returns_all_witness:
  "\<exists>d' out. archive_agent demo_ctx demo_db ''w'' ''a'' = Inr (d', out) \<and>
    ar_swept out = account_balance demo_db ''w'' (AgentAcc ''a'') \<and> account_balance d' ''w'' (AgentAcc ''a'') = 0"
proof -
  have "\<not> isl (archive_agent demo_ctx demo_db ''w'' ''a'')" by code_simp
  then obtain d' out where s: "archive_agent demo_ctx demo_db ''w'' ''a'' = Inr (d', out)"
    by (cases "archive_agent demo_ctx demo_db ''w'' ''a''") auto
  from archive_returns_all [OF demo_inv(1) s] s show ?thesis by blast
qed



text \<open>
  C14. A boost raises its limit to the value it names until its end, and from then on the limit is
  the one it was raised from again, without anything being written.
\<close>

theorem boost_raises_until:
  assumes "boost_agent_rule s cx d w a rule value until = Inr (d', b)"
    and "agent_rules_in_force d' a at = Some r"
  shows "bo_raised_from b < value \<and> cx_now cx < until \<and>
    get_limit rule r = Some (if at < until then value else bo_raised_from b)"
  using boost_raises(1) [OF assms] boost_InrD(2,3) [OF assms(1)] by blast

theorem boost_raises_until_witness:
  "\<exists>d' b r r'. boost_agent_rule demo_store demo_ctx demo_ruled ''w'' ''a'' DailyRule 4000 7000 = Inr (d', b) \<and>
    agent_rules_in_force d' ''a'' 6999 = Some r \<and> get_limit DailyRule r = Some 4000 \<and>
    agent_rules_in_force d' ''a'' 7000 = Some r' \<and> get_limit DailyRule r' = Some (bo_raised_from b)"
proof -
  have "\<not> isl (boost_agent_rule demo_store demo_ctx demo_ruled ''w'' ''a'' DailyRule 4000 7000)" by code_simp
  then obtain d' b where s: "boost_agent_rule demo_store demo_ctx demo_ruled ''w'' ''a'' DailyRule 4000 7000 = Inr (d', b)"
    by (cases "boost_agent_rule demo_store demo_ctx demo_ruled ''w'' ''a'' DailyRule 4000 7000") auto
  obtain u where u: "rules d' ''a'' = Some u" using boost_InrD(5,7) [OF s] by auto
  have "\<exists>r. agent_rules_in_force d' ''a'' at = Some r" for at by (simp add: agent_rules_in_force_def u)
  then obtain r r' where r: "agent_rules_in_force d' ''a'' 6999 = Some r" "agent_rules_in_force d' ''a'' 7000 = Some r'"
    by blast
  show ?thesis using boost_raises_until [OF s r(1)] boost_raises_until [OF s r(2)] s r by auto
qed



text \<open>
  C16. An agent has at most one open approval for a request: filing and deciding keep it so, and a
  movement that uses one leaves none to use, so an approved request passes once.
\<close>

theorem approval_used_once:
  assumes "one_open d"
  shows "one_open (fst (file_approval cx d need i)) \<and>
    (\<forall>d'. decide_agent_approval cx d w p approve = Inr d' \<longrightarrow> one_open d') \<and>
    (\<forall>d'. use_approval d a fp ref = Some d' \<longrightarrow> one_open d' \<and> use_approval d' a fp ref' = None)"
  using file_one_open [OF assms, of cx need i] decide_one_open [OF assms] use_one_open(1,2) [OF assms]
  by (metis prod.collapse)

theorem approval_used_once_witness:
  "one_open (fst (file_approval demo_ctx demo_db
     \<lparr>an_amount = 5, an_ws = ''w'', an_agent = ''a'', an_request = no_request\<rparr> ''p1''))"
proof -
  have "approvals demo_db = []" by code_simp
  then have "one_open demo_db" by (simp add: one_open_def)
  from approval_used_once [OF this] show ?thesis by blast
qed

section \<open>More of the wallet\<close>

text \<open>
  What a fund moved to an agent can be withdrawn again, and the withdrawal restores the
  agent's balance, the workspace's and what its agents hold.
\<close>

lemma fund_withdraw_restores:
  assumes "wallet_inv kw d" and "cx_move_key cx = ''''" and "cx_move_key cx' = ''''"
    and "fund_agent cx d w a x = Inr (d1, n)"
  shows "\<exists>d2 n2. withdraw_agent cx' d1 w a x = Inr (d2, n2) \<and>
    account_balance d2 w (AgentAcc a) = account_balance d w (AgentAcc a) \<and>
    (\<forall>v. bal_of d2 v = bal_of d v \<and> allocated d2 v = allocated d v)"
proof -
  have b: "books d" using assms(1) by (simp add: wallet_inv_def)
  obtain d2 n2 where w: "withdraw_agent cx' d1 w a x = Inr (d2, n2)"
    using funded_withdrawable [OF assms(4) b assms(2,3)] by blast
  then show ?thesis using fund_then_withdraw [OF assms(4,2,3) w] by blast
qed

text \<open>
  Rules that were saved are read back with every numeric limit as it was set; a limit the
  request left out is the one the agent had before, or none.
\<close>

lemma saved_rules_read_back:
  assumes "set_agent_rules s cx d w a r = Inr d'"
  shows "\<exists>r'. get_agent_rules d' w a = Inr r' \<and>
    (\<forall>rule. get_limit rule r' = Some (case get_limit rule r of
       Some v \<Rightarrow> v
     | None \<Rightarrow> (case rules d a of None \<Rightarrow> 0 | Some u \<Rightarrow> limit_of (get_limit rule (scan_agent_rules u)))))"
  using set_rules_read [OF assms] unfolding kept_limit_def .

text \<open>
  Topping workspaces up to a target leaves each named one with at least the target and exactly
  what it had when it had more, every other one as it was, and counts those that were short.
\<close>

lemma grant_up_to_target:
  assumes "wallet_inv kw d" and "st_pool s" and "grant_lxc_up_to s cx d ws target reason meta = Inr (d', n)"
  shows "(\<forall>v. bal_of d' v = (if v \<in> set ws then max target (bal_of d v) else bal_of d v)) \<and>
    n = card {v \<in> set ws. bal_of d v < target}"
proof -
  have b: "books d" using assms(1) by (simp add: wallet_inv_def)
  show ?thesis using grant_up_to_effect(2,3) [OF b assms(2,3)] by blast
qed

text \<open>
  In the UTC calendar the four period limits of a rule count from the start of the hour, of the
  day, of the Monday of the week and of the first of the month, at any instant, also before
  1970, at the end of a month and in a leap year.
\<close>

lemma utc_period_starts:
  "period_limits r utc t =
    [\<lparr>pl_ulxc = limit_of (rl_hourly r), pl_since = t div ns_hour * ns_hour, pl_name = ''hourly''\<rparr>,
     \<lparr>pl_ulxc = rl_daily r, pl_since = t div ns_day * ns_day, pl_name = ''daily''\<rparr>,
     \<lparr>pl_ulxc = limit_of (rl_weekly r), pl_since = monday_of (t div ns_day) * ns_day, pl_name = ''weekly''\<rparr>,
     \<lparr>pl_ulxc = rl_monthly r, pl_since = month_start (t div ns_day) * ns_day, pl_name = ''monthly''\<rparr>]"
  by (rule utc_periods)

text \<open>
  A fund sent with a move key lands once: after its first success any number of repetitions,
  with whatever other operations in between that leave its posting in place, answer without
  moving anything.
\<close>

lemma fund_lands_once:
  assumes "fund_agent (cx\<lparr>cx_move_key := c # key\<rparr>) d w a x = Inr (d1, n)"
    and "run_all steps d1 = Inr d2"
    and "\<forall>f \<in> set steps. \<forall>y z. fund_claimed (cx\<lparr>cx_move_key := c # key\<rparr>) w a x y \<longrightarrow> f y = Inr z \<longrightarrow>
      fund_claimed (cx\<lparr>cx_move_key := c # key\<rparr>) w a x z"
  shows "run_all (replicate m (run_fund (cx\<lparr>cx_move_key := c # key\<rparr>) w a x)) d2 = Inr d2"
proof -
  have "run_fund (cx\<lparr>cx_move_key := c # key\<rparr>) w a x d = Inr d1" using assms(1) by (simp add: run_fund_def)
  from fund.later [OF this assms(2)] assms(3) have r: "run_fund (cx\<lparr>cx_move_key := c # key\<rparr>) w a x d2 = Inr d2"
    by blast
  show ?thesis by (induction m) (simp_all add: r)
qed

text \<open>
  A hold or a debit that is sent again under its own id takes nothing a second time: after the
  first success, every repetition, with any amount, answers and changes nothing, as long as
  the workspace's fee rate can be read.
\<close>

lemma hold_and_debit_once:
  assumes "st_pool s" and "fee_answers s w d'" and "0 < amount"
  shows "(reserve_lxc_for_agent s cx d key w i estimate meta = Inr d' \<longrightarrow>
      reserve_lxc_for_agent s cx' d' key w i amount meta' = Inr d') \<and>
    (spend_lxc_for_agent s cx d key w i estimate desc meta = Inr d' \<longrightarrow>
      spend_lxc_for_agent s cx' d' key w i amount desc' meta' = Inr d')"
proof (intro conjI impI)
  assume "reserve_lxc_for_agent s cx d key w i estimate meta = Inr d'"
  then have "run_hold s cx key w i estimate meta d = Inr d'" by (simp add: run_hold_def)
  then have "hold_claimed s key w i amount d'" using hold.claims assms(3) by (fastforce simp: hold_claimed_def)
  from hold.replay [OF this assms(2)] show "reserve_lxc_for_agent s cx' d' key w i amount meta' = Inr d'"
    by (simp add: run_hold_def)
next
  assume "spend_lxc_for_agent s cx d key w i estimate desc meta = Inr d'"
  then have "run_spend s cx key w i estimate desc meta d = Inr d'" by (simp add: run_spend_def)
  then have "spend_claimed s key w i amount d'" using spend.claims assms(3) by (fastforce simp: spend_claimed_def)
  from spend.replay [OF this assms(2)] show "spend_lxc_for_agent s cx' d' key w i amount desc' meta' = Inr d'"
    by (simp add: run_spend_def)
qed

text \<open>
  Nothing leaves a pot before its lock ends, and while a lock is in force it can only be made
  longer.
\<close>

lemma locked_pot_keeps:
  assumes "find_pot d w a p = Some r" and "pt_locked_until r = Some t" and "t > cx_now cx"
    and "cx_move_key cx = ''''"
  shows "isl (move_pot cx d w a p x False) \<and>
    (\<forall>d'. lock_pot cx d w a p until = Inr d' \<longrightarrow> (\<exists>u. until = Some u \<and> t \<le> u))"
  using locked_pot_refuses [OF assms] lock_never_shortened [OF _ assms(1-3)] by blast

text \<open>
  A wallet transaction that the database cancels is attempted at most six times: the answer is
  that of the first attempt that was not cancelled, or a lock-contention error after the sixth
  or when the request ended in a wait, and every attempt before it was cancelled.
\<close>

lemma retries_are_bounded:
  "\<exists>n \<le> 5. (\<forall>m < n. \<exists>e. outcome m = Inl e \<and> lf e \<and> \<not> cancelled m) \<and>
    (case outcome n of
       Inr x \<Rightarrow> retry_locks lf cancelled outcome = Inr x
     | Inl e \<Rightarrow> if lf e then (n = 5 \<or> cancelled n) \<and> retry_locks lf cancelled outcome = Inl (LockContention e)
         else retry_locks lf cancelled outcome = Inl (AttemptError e))"
proof -
  obtain n where n: "returned lf cancelled outcome 0 5 n (retry_locks lf cancelled outcome)"
    using retry_from_returned [of lf cancelled outcome 0 lock_retries] by (auto simp: retry_locks_def lock_retries_def)
  then show ?thesis unfolding returned_def by (intro exI [of _ n]) (simp add: if_distrib cong: sum.case_cong)
qed

text \<open>
  A workspace's own spend costs the amount and the plan's fee on it, comes only out of what is
  not allocated to its agents and pots, leaves those and every other workspace as
  they were, and reports as cash-backed at most the amount and at most the backing there was.
\<close>

lemma spend_takes_price:
  assumes "spend_lxc_meta s cx d w amount desc meta = Inr (d', part)" and "st_pool s" and "wallet_inv kw d"
  shows "\<exists>bps. platform_fee_bps s (ensure_lxc_row d w) w = Inr bps \<and> 0 < amount \<and>
    amount + platform_fee amount bps \<le> bal_of d w - allocated d w \<and>
    bal_of d' w = bal_of d w - amount - platform_fee amount bps \<and>
    (\<forall>v. allocated d' v = allocated d v \<and> (v \<noteq> w \<longrightarrow> bal_of d' v = bal_of d v \<and> cash_of d' v = cash_of d v)) \<and>
    0 \<le> part \<and> part \<le> amount \<and> part \<le> cash_of d w \<and> cash_of d' w \<le> cash_of d w - part"
proof -
  have c: "0 \<le> cash_of d w" using assms(3) by (auto simp: wallet_inv_def dest: booksD(6))
  show ?thesis
    using spend_lxc_meta_InrD [OF assms(1,2) c] cash_used_range [OF c] cash_used_range(1)
    by (fastforce simp: Let_def view_simps take_cash_def)
qed

text \<open>
  The fee of an amount and the charge that fits in a hold are computed in signed 64-bit
  arithmetic without overflow for every amount an int64 holds and every rate from 0 to 100%,
  and they fit each other: the charge is the greatest amount that fits in the hold together
  with its own fee, and holding an amount with its fee leaves room for exactly that amount.
\<close>

lemma fee_arithmetic:
  assumes "is_i64 x" and "0 \<le> x" and "0 \<le> bps" and "bps \<le> fee_denominator"
  shows "platform_fee64 x bps = platform_fee x bps \<and> spend_within64 x bps = spend_within x bps \<and>
    spend_within x bps + platform_fee (spend_within x bps) bps \<le> x \<and>
    (\<forall>c > spend_within x bps. x < c + platform_fee c bps) \<and>
    spend_within (x + platform_fee x bps) bps = x"
proof (intro conjI allI impI)
  fix c assume "spend_within x bps < c"
  then show "x < c + platform_fee c bps"
    using spend_within_iff [of c x bps] spend_within_nonneg [of bps x] assms by linarith
qed (use assms in \<open>simp_all add: platform_fee64_eq spend_within64_eq plan_fee.charge_fits plan_fee.within_gross\<close>)

section \<open>Agents' dealings with each other\<close>

text \<open>
  C17. Whatever agents do with each other (transfers, requests, refunds, escrows, loans, and the ticks
  that settle escrows and take instalments), in any order and with any arguments, no credit of
  Lens comes or goes: what all balances hold and what is in escrow stays the same in sum. The
  books of every workspace stay in order, and the account of each escrow holds exactly its amount
  while it is held or disputed and nothing once it is settled.
\<close>

theorem dealings_conserve:
  assumes "deals_reach dk told n n'" and "all_ok n"
  shows "credits_in_lens n' = credits_in_lens n \<and> books (dl_db n') \<and>
    (\<forall>v i. account_balance (dl_db n') v (EscrowAcc i) = escrowed n' v i)"
  using reach_ok(1,2) [OF assms] by (simp add: all_ok_def deals_ok_def escrow_ok_def)

theorem dealings_conserve_witness:
  "credits_in_lens duo_done = credits_in_lens duo \<and> books (dl_db duo_done) \<and>
   account_balance (dl_db duo_done) ''w'' (EscrowAcc ''e1'') = escrowed duo_done ''w'' ''e1''"
  using dealings_conserve [OF duo_reaches(3) duo_ok] by simp

text \<open>
  C18. A transfer takes its amount from the sender's account and balance and gives it to the
  receiver's, and moves nothing else: every other account, every hold and every cash backing is as
  it was, and no credit comes or goes. Credits that move under a capability not cleared for the
  sender leave a real workspace only if they are test-funded to the last one.
\<close>

theorem transfer_moves_exactly:
  assumes "transfer_tx dk cx n t judged new_id = Inr (n', t')" and "books (dl_db n)"
  shows "(\<forall>v a. account_balance (dl_db n') v a = account_balance (dl_db n) v a +
        (if v = receiver_ws n t \<and> a = AgentAcc (tr_to t) then tr_amount t else 0) -
        (if v = tr_from_ws t \<and> a = AgentAcc (tr_from t) then tr_amount t else 0)) \<and>
    (\<forall>v. bal_of (dl_db n') v = bal_of (dl_db n) v + (if v = receiver_ws n t then tr_amount t else 0) -
        (if v = tr_from_ws t then tr_amount t else 0) \<and>
      held_sum (dl_db n') v = held_sum (dl_db n) v \<and> cash_of (dl_db n') v = cash_of (dl_db n) v) \<and>
    all_credits (dl_db n') = all_credits (dl_db n) \<and> 0 \<le> tr_test t' \<and> tr_test t' \<le> tr_amount t \<and>
    (\<exists>c. capability_by_key (transfer_key n t) = Some c \<and>
      (takes_live (dk_store dk) cx (dl_gates n) (dl_db n) (tr_from_ws t) c \<or>
       test_workspace (dl_db n) (tr_from_ws t) \<or> tr_test t' = tr_amount t))"
proof -
  have "0 \<le> test_of (dl_db n) v" for v using assms(2) by (auto simp: books_slack_0 dest: slackD(7))
  note G = transfer_gated(1-3) [OF assms(1) this]
  show ?thesis
    using transfer_moves(2-6) [OF assms] G by (simp add: shift_def) blast
qed

theorem transfer_moves_exactly_witness:
  "account_balance (dl_db (fst duo_judged)) ''w'' (AgentAcc ''a'') = 1000 \<and>
   all_credits (dl_db (fst duo_judged)) = all_credits (dl_db duo)"
proof -
  have b: "books (dl_db duo)" using duo_ok by (simp add: all_ok_def deals_ok_def)
  from transfer_moves_exactly [OF duo_ran(2) b] show ?thesis by (simp add: duo_order_facts duo_funds)
qed

text \<open>
  C19. A transfer goes through exactly when \<open>transfer_permitted\<close> says so: its amount is positive and the
  two agents differ, the receiver is found, both workspaces are on the same side of the wall
  between test and real money, both agents are theirs and have verified owners, the sender holds
  the amount, its rules permit it where they judge, the capability's terms are accepted and its
  money may move (live, in a test workspace, or test-funded), neither workspace is frozen when it
  crosses, and the row is new and no second refund.
\<close>

theorem transfer_decided:
  "(\<exists>r. transfer_tx dk cx n t judged new_id = Inr r) \<longleftrightarrow> transfer_permitted dk cx n t judged new_id"
  by (rule transfer_iff)

text \<open>
  C20. A transfer given back restores every account and every workspace's balance and backing as they
  were before it was made, and it is given back once: any further refund of it, by any workspace,
  is refused and changes nothing.
\<close>

theorem refund_restores:
  assumes "transfer_tx dk cx n t judged new_id = Inr (n1, t1)" and "tr_refund_of t = ''''" and "tr_loan t = ''''"
    and "tr_from_ws t \<noteq> ''''" and "tr_id t1 \<noteq> ''''" and "books (dl_db n)"
    and "refund_transfer dk cx' n1 (tr_to_ws t1) (tr_id t1) id2 ap = (n2, Inr t2)"
  shows "(\<forall>v a. account_balance (dl_db n2) v a = account_balance (dl_db n) v a) \<and>
    (\<forall>v. bal_of (dl_db n2) v = bal_of (dl_db n) v \<and> cash_of (dl_db n2) v = cash_of (dl_db n) v) \<and>
    (\<forall>cx3 w id3 ap3. \<exists>e. refund_transfer dk cx3 n2 w (tr_id t1) id3 ap3 = (n2, Inl e))"
  using refund_undoes(2-4) [OF assms(1-4,7,6)] refunded_refuses [OF refund_recorded(2) [OF assms(7,5)]]
  by blast

theorem refund_restores_witness:
  "bal_of (dl_db (fst duo_back)) ''w'' = bal_of (dl_db duo) ''w'' \<and>
   account_balance (dl_db (fst duo_back)) ''v'' (AgentAcc ''b'') = account_balance (dl_db duo) ''v'' (AgentAcc ''b'')"
proof -
  have b: "books (dl_db duo)" using duo_ok by (simp add: all_ok_def deals_ok_def)
  have i: "tr_from_ws duo_order \<noteq> ''''" "tr_id (snd duo_sent) \<noteq> ''''"
    using transfer_row(3) [OF duo_ran(1)] by (simp_all add: duo_order_facts)
  from refund_restores [OF duo_ran(1) duo_order_facts(1,2) i b duo_refunded] show ?thesis by simp
qed

text \<open>
  C21. A repaid loan was paid out with its principal and has taken back exactly the principal, the
  interest on it and the late fees its instalments were charged, by the transfers that name it,
  however often an instalment was missed, as long as its amounts fit in 64 bits.
\<close>

theorem repaid_exactly:
  assumes "deals_reach dk told n n'" and "all_ok n"
    and "l \<in> set (dl_loans n')" and "ln_status l = LnRepaid" and "loan_fits (ln_terms l)"
  shows "lent n' l = lt_principal (ln_terms l) \<and>
    taken n' l = lt_principal (ln_terms l) + lt_principal (ln_terms l) * lt_bps (ln_terms l) div 10000 + fees_taken n' l"
proof -
  have "loan_ok n' l" using reach_ok(1) [OF assms(1,2)] assms(3) by (simp add: all_ok_def loans_ok_def)
  then have v: "validate_terms (ln_terms l) = Inr ()" and p: "ln_paid l = lt_instalments (ln_terms l)"
    and m: "lent n' l = lt_principal (ln_terms l)"
      "taken n' l = owed (ln_terms l) (nat (lt_instalments (ln_terms l))) + fees_taken n' l"
    using assms(4,5) by (auto simp: loan_ok_def unanswered_def)
  have t: "loan_terms_ok (ln_terms l)" "interest_fits (ln_terms l)" using fits_terms [OF v assms(5)] by simp_all
  then show ?thesis using m by (simp add: owed_def sum.distrib instalments_sum(1,2) [OF t, simplified])
qed

theorem repaid_exactly_witness:
  "\<exists>l. dl_loans duo_repaid = [l] \<and> ln_status l = LnRepaid \<and> taken duo_repaid l = 331 + fees_taken duo_repaid l"
proof -
  obtain l where l: "dl_loans duo_repaid = [l]" "ln_status l = LnRepaid" "ln_terms l = duo_terms"
    using duo_repaid_loan by auto
  have "loan_fits (ln_terms l)" using duo_terms_fit l(3) by simp
  from repaid_exactly [OF duo_repaid_reach duo_owing_ok _ l(2) this]
  have "taken duo_repaid l = 331 + fees_taken duo_repaid l" by (simp add: l) (simp add: duo_terms_def)
  with l show ?thesis by blast
qed

text \<open>
  C22. What is settled stays settled: an escrow that was released or returned, and a loan that was
  declined, withdrawn, defaulted or repaid, keeps its place and its status whatever is done after.
\<close>

theorem settled_for_good:
  assumes "deals_reach dk told n n'" and "all_ok n"
  shows "(\<forall>j < length (dl_escrows n). settled (dl_escrows n ! j) \<longrightarrow>
      j < length (dl_escrows n') \<and> es_status (dl_escrows n' ! j) = es_status (dl_escrows n ! j)) \<and>
    (\<forall>j < length (dl_loans n). ended (dl_loans n ! j) \<longrightarrow>
      j < length (dl_loans n') \<and> ln_status (dl_loans n' ! j) = ln_status (dl_loans n ! j))"
  using reach_ok(3,4) [OF assms] by blast

theorem settled_for_good_witness: "es_status (dl_escrows duo_decided ! 0) = EsReleased"
proof -
  have "0 < length (dl_escrows duo_settled)" using duo_settled_ok(2) by simp
  with settled_for_good [OF duo_decided_reach duo_settled_ok(1)] duo_settled_ok(3)
  have "es_status (dl_escrows duo_decided ! 0) = es_status (dl_escrows duo_settled ! 0)" by blast
  then show ?thesis by (simp add: duo_settled_def)
qed





section \<open>Payments, statements and schedules\<close>

text \<open>
  C25. A payment to another agent of the workspace goes through exactly when both agents are the
  workspace's, the payee has an owner, the payer holds the amount and its rules permit it. It then
  moves the amount from the one account to the other and no other account, balance, hold or cash
  backing, keeps the books, counts as spend of the payer and of nobody else, and answers with the
  balances both are left with.
\<close>

theorem payment_moves_exactly:
  assumes "books d" and "0 < ay_amount pay" and "ay_from pay \<noteq> ay_to pay"
  shows "((\<exists>r. pay_agent_tx s cx d w pay = Inr r) \<longleftrightarrow> payment_permitted s cx d w pay) \<and>
    (\<forall>d' p. pay_agent_tx s cx d w pay = Inr (d', p) \<longrightarrow> books d' \<and>
      (\<forall>v a. account_balance d' v a = account_balance d v a +
         (if v = w \<and> a = AgentAcc (ay_to pay) then ay_amount pay else 0) -
         (if v = w \<and> a = AgentAcc (ay_from pay) then ay_amount pay else 0)) \<and>
      (\<forall>v. bal_of d' v = bal_of d v \<and> held_sum d' v = held_sum d v \<and> cash_of d' v = cash_of d v) \<and>
      (\<forall>v a since. agent_spent_since d' v a since = agent_spent_since d v a since +
         (if v = w \<and> a = ay_from pay \<and> since \<le> cx_now cx then ay_amount pay else 0)) \<and>
      ay_from_balance p = account_balance d' w (AgentAcc (ay_from pay)) \<and>
      ay_to_balance p = account_balance d' w (AgentAcc (ay_to pay)))"
proof (intro conjI allI impI)
  fix d' p
  assume r: "pay_agent_tx s cx d w pay = Inr (d', p)"
  note M = pay_moves [OF r assms(2,1)]
  from r have p: "p = pay\<lparr>ay_entry := show_nat (next_entry d), ay_to_balance := account_balance d' w (AgentAcc (ay_to pay)),
      ay_from_balance := account_balance d w (AgentAcc (ay_from pay)) - ay_amount pay\<rparr>"
    by (rule pay_agent_tx_InrD) blast
  show "ay_from_balance p = account_balance d' w (AgentAcc (ay_from pay))" using assms(3) by (simp add: p M(2))
  show "ay_to_balance p = account_balance d' w (AgentAcc (ay_to pay))" by (simp add: p)
  show "books d'" by (rule M(1))
  fix v a since
  show "account_balance d' v a = account_balance d v a +
      (if v = w \<and> a = AgentAcc (ay_to pay) then ay_amount pay else 0) -
      (if v = w \<and> a = AgentAcc (ay_from pay) then ay_amount pay else 0)"
    "bal_of d' v = bal_of d v" "held_sum d' v = held_sum d v" "cash_of d' v = cash_of d v" by (rule M)+
  show "agent_spent_since d' v a' since = agent_spent_since d v a' since +
      (if v = w \<and> a' = ay_from pay \<and> since \<le> cx_now cx then ay_amount pay else 0)" for a'
    by (rule pay_counted [OF r assms(3,2)])
qed (rule pay_iff)

theorem payment_moves_exactly_witness:
  "account_balance (fst trio_paid) ''w'' (AgentAcc ''a'') = 1700 \<and>
   account_balance (fst trio_paid) ''w'' (AgentAcc ''c'') = 300 \<and> ay_from_balance (snd trio_paid) = 1700"
proof -
  have t: "ay_from trio_payment = ''a''" "ay_to trio_payment = ''c''" "ay_amount trio_payment = 300"
    by (simp_all add: trio_payment_def new_payment_def)
  have b: "account_balance demo_trio ''w'' (AgentAcc ''a'') = 2000" "account_balance demo_trio ''w'' (AgentAcc ''c'') = 0"
    by code_simp+
  have pos: "0 < ay_amount trio_payment" "ay_from trio_payment \<noteq> ay_to trio_payment" by (simp_all add: t)
  have all: "(\<forall>v a. account_balance (fst trio_paid) v a = account_balance demo_trio v a +
       (if v = ''w'' \<and> a = AgentAcc (ay_to trio_payment) then ay_amount trio_payment else 0) -
       (if v = ''w'' \<and> a = AgentAcc (ay_from trio_payment) then ay_amount trio_payment else 0)) \<and>
     ay_from_balance (snd trio_paid) = account_balance (fst trio_paid) ''w'' (AgentAcc (ay_from trio_payment))"
    using payment_moves_exactly [OF trio_books pos, of demo_store demo_ctx "''w''"] trio_ran by blast
  show ?thesis using b by (simp add: all) (simp add: t)
qed



text \<open>
  C27. An agent's newest line shows the balance stored for it. In a period's statement every account
  closes at what it opened with, what came in and what went out, every line shows the opening
  balance with the lines of its account up to it, and a period opens where the one before it
  closed; a statement of a period that is over never changes, whatever new entries are posted.
\<close>

theorem statements_add_up:
  assumes "books d" and "read_agent_statement d w a limit = Inr ls" and "0 < limit" and "from \<le> to" and "to \<le> until"
    and "postings d' = postings d @ ps"
    and "\<forall>q \<in> set ps. until \<le> po_at q \<and> po_entry q \<notin> po_entry ` set (postings d)"
  shows "(case ls of [] \<Rightarrow> 0 | l # _ \<Rightarrow> gl_after l) = account_balance d w (AgentAcc a) \<and>
    (\<forall>A \<in> set (st_accounts (period_statement d w acc from to)).
      sa_closing A = sa_opening A + sa_in A - sa_out A \<and>
      (\<forall>B \<in> set (st_accounts (period_statement d w acc to until)). sa_account B = sa_account A \<longrightarrow> sa_opening B = sa_closing A)) \<and>
    (let st = period_statement d w acc from until in \<forall>i < length (st_lines st).
      sl_after (st_lines st ! i) = opening_of (st_accounts st) (sl_account (st_lines st ! i)) +
        sum_where (\<lambda>l. sl_account l = sl_account (st_lines st ! i)) sl_amount (take (Suc i) (st_lines st))) \<and>
    period_statement d' w acc from until = period_statement d w acc from until"
proof -
  have st: "stored_ok d w" using assms(1) by (simp add: books_def)
  have "period_statement d' w acc from until = period_statement d w acc from until"
    by (rule closed_period [OF assms(6)]) (use assms(7) in auto)
  then show ?thesis
    using statement_newest [OF st assms(2,3)] period_account(3) [OF _ assms(4)] periods_chain [OF _ _ assms(4,5)]
      period_line by (simp add: Let_def)
qed

theorem statements_add_up_witness:
  "\<exists>ls. read_agent_statement demo_trio ''w'' ''a'' 5 = Inr ls \<and> (case ls of [] \<Rightarrow> 0 | l # _ \<Rightarrow> gl_after l) = 2000"
proof -
  have "\<not> isl (read_agent_statement demo_trio ''w'' ''a'' 5)" by code_simp
  then obtain ls where ls: "read_agent_statement demo_trio ''w'' ''a'' 5 = Inr ls" using not_isl_InrE by blast
  have p: "postings demo_trio = postings demo_trio @ []" and z: "(0 :: nat) < 5" "(0 :: int) \<le> 1" "(1 :: int) \<le> 2" by simp_all
  have "account_balance demo_trio ''w'' (AgentAcc ''a'') = 2000" by code_simp
  with statements_add_up [OF trio_books ls z p, of None] ls show ?thesis by simp
qed

text \<open>
  C28. Whatever the agents do with each other, whatever payments, schedules and top-ups are made,
  skipped, cancelled or run in between, and however often the run fails, every tick of a schedule
  runs at most once, its run is kept, no schedule's next tick has a run yet, and no credits are
  made or lost.
\<close>

theorem ticks_run_once:
  assumes "plan_ok n" and "plan_reach pd told n n'"
  shows "distinct (map run_key (dl_runs n')) \<and> set (dl_runs n) \<subseteq> set (dl_runs n') \<and>
    (\<forall>c \<in> set (schedules (dl_db n')). \<forall>r \<in> set (dl_runs n'). sr_schedule r = sc_id c \<longrightarrow> sr_tick r < sc_next c) \<and>
    credits_in_lens n' = credits_in_lens n \<and> books (dl_db n')"
proof -
  have op: "plan_op n n'" by (rule plan_reach_op [OF assms(2,1)])
  then have s: "schedules_ok n'" and b: "books (dl_db n')"
    by (simp_all add: plan_op_def plan_ok_def all_ok_def deals_ok_def)
  show ?thesis using op schedules_okD(2,4) [OF s] b by (auto simp: plan_op_def)
qed

theorem ticks_run_once_witness:
  "distinct (map run_key (dl_runs (fst duo_run))) \<and> credits_in_lens (fst duo_run) = credits_in_lens duo"
  using ticks_run_once [OF duo_start duo_run_reached] by blast

text \<open>
  C29. When the services it calls answer and there are no more ticks due than a run may do, a run of the
  schedules never fails, whatever each payment's rules, funds, parties, freezes or capabilities
  refuse: every tick that was due has its run, no schedule is due any more, and every top-up has
  fired that could (the others have no owner, enough on the account, or a workspace with nothing
  left to give).
\<close>

theorem schedules_come_to_end:
  assumes "services_answer pd fresh" and "renewer_ok renew" and "plan_ok n" and "ticks_due now n \<le> max_ticks_per_run"
    and "run_agent_schedules pd told cx fresh renew now n = (n', res, errs)"
  shows "errs = [] \<and> due_schedules (dl_db n') now = [] \<and>
    (\<forall>c \<in> set (schedules (dl_db n)). sc_active c \<and> sc_next c \<le> now \<longrightarrow> (sc_id c, sc_next c) \<in> run_key ` set (dl_runs n')) \<and>
    (\<forall>t \<in> set (topups (dl_db n')). topped (dl_db n') t)"
proof -
  have "all_ok n" "schedules_ok n" "topups_ok (dl_db n)" using assms(3) by (simp_all add: plan_ok_def)
  from run_schedules_done [OF assms(1,2) this assms(4,5)] show ?thesis by blast
qed

theorem schedules_come_to_end_witness:
  "snd (snd duo_run) = [] \<and> due_schedules (dl_db (fst duo_run)) 1000 = [] \<and>
   (''s1'', 900) \<in> run_key ` set (dl_runs (fst duo_run))"
proof -
  have r: "run_agent_schedules demo_pays told_nothing demo_ctx unused_id None 1000 duo_planned =
      (fst duo_run, fst (snd duo_run), snd (snd duo_run))" by (simp add: duo_run_def)
  have k: "ticks_due 1000 duo_planned \<le> max_ticks_per_run" by (simp add: duo_due_ticks(1) max_ticks_per_run_def)
  obtain c where "c \<in> set (schedules (dl_db duo_planned))" "sc_id c = ''s1''" "sc_next c = 900" "sc_active c"
    using duo_due_ticks(2) by (cases "schedules (dl_db duo_planned)") auto
  with schedules_come_to_end [OF demo_answers duo_planned_ok k r] show ?thesis by fastforce
qed

section \<open>Serving a request: keys, fallbacks, breakers and limits\<close>

text \<open>
  C30. Every pool the program can reach is well formed: each provider is listed once and is an
  allowed one, every key is listed under its own provider and is not empty, no two keys share
  an id, and every key's circular window has a hundred slots, its position and length in
  range. So looking a key up by its id gives the same answer in whatever order Go ranges over
  the providers.
\<close>

theorem pools_well_formed:
  assumes "reachable_pool p" and "mset (pl_keys p') = mset (pl_keys p)"
  shows "distinct (map fst (pl_keys p)) \<and> distinct (map pk_id (all_keys p)) \<and>
    (\<forall>(q, ks) \<in> set (pl_keys p). q \<in> set allowed_providers \<and>
       (\<forall>k \<in> set ks. pk_provider k = q \<and> pk_key k \<noteq> '''' \<and> length (pk_window k) = window_size \<and>
          pk_window_len k \<le> window_size \<and> pk_window_idx k < window_size)) \<and>
    find_key p' i = find_key p i"
proof -
  have ok: "pool_ok p" by (rule reachable_pool_ok [OF assms(1)])
  then show ?thesis
    using find_any_order [OF pool_okD(2) [OF ok] assms(2)] by (auto simp: pool_ok_def key_ok_def)
qed

theorem pools_well_formed_witness:
  "\<exists>p k. add_key new_pool ''k1'' ''openai'' ''sk-1'' ''one'' 60 = Inr (p, k) \<and> distinct (map pk_id (all_keys p)) \<and>
    find_key p ''k1'' = find_key p ''k1''"
proof -
  obtain p k where a: "add_key new_pool ''k1'' ''openai'' ''sk-1'' ''one'' 60 = Inr (p, k)"
    by (auto simp: add_key_def allowed_providers_def Let_def)
  have "reachable_pool p"
    using reachable_pool.step [OF reachable_pool.start pool_step.add [OF _ a]]
    by (simp add: find_key_def new_pool_def)
  from pools_well_formed [OF this refl] a show ?thesis by blast
qed

text \<open>
  C31. Get serves the healthy keys of a provider in turn: any number of calls, with nothing
  recorded in between, gives them round-robin from the next turn on, so as many calls as there
  are healthy keys give each of them once, wherever the counter stood and whatever keys were
  removed before.
\<close>

theorem keys_take_turns:
  assumes "\<exists>k \<in> set (keys_of p provider). pk_healthy k"
  shows "\<exists>q. mset q = filter_mset pk_healthy (mset (keys_of p provider)) \<and>
    (\<forall>n. \<exists>p'. turns n p provider = Inr (p', map (\<lambda>i. q ! (i mod length q)) [0..<n]) \<and> pl_keys p' = pl_keys p)"
proof (intro exI [of _ "queue_of p provider"] conjI allI)
  let ?q = "queue_of p provider"
  have "mset (rotate1 ks) = mset ks" for ks :: "pool_key list" by (cases ks) simp_all
  then have "mset (rotate m ks) = mset ks" for m and ks :: "pool_key list"
    by (induction m) simp_all
  then show "mset ?q = filter_mset pk_healthy (mset (keys_of p provider))"
    by (simp add: queue_of_def mset_filter)
  have "?q \<noteq> []" using assms by (auto simp: queue_of_def filter_empty_conv)
  then show "\<exists>p'. turns n p provider = Inr (p', map (\<lambda>i. ?q ! (i mod length ?q)) [0..<n]) \<and> pl_keys p' = pl_keys p" for n
    using turns_rotate [OF refl] by blast
qed

theorem keys_take_turns_witness:
  "\<exists>p' ks. turns 2 sample_pool ''openai'' = Inr (p', ks) \<and> pl_keys p' = pl_keys sample_pool"
proof -
  have "\<exists>k \<in> set (keys_of sample_pool ''openai''). pk_healthy k" by (simp add: sample_pool_facts)
  then show ?thesis using keys_take_turns by metis
qed


text \<open>
  C33. A request is sent to at most three providers, in the order of its own and then the chain's,
  each under the model the chain names for it, the next one only after a transport error, a
  429 or a 5xx; the first other answer is returned as that provider's. A request on a
  workspace's own keys is sent only to providers it holds a key for and only with that key, and
  neither takes nor marks a pooled key.
\<close>

theorem fallback_respects_keys:
  assumes "forward_with_fallback u router pool own provider model body = (pool', trace, rb, status, result, err)"
  shows "length trace \<le> 3 \<and> sorted_wrt (<) (map sn_index trace) \<and>
    (\<forall>s \<in> set trace. sn_index s < length (attempts_for router provider model) \<and>
       (pc_name (sn_config s), sn_model s) = attempts_for router provider model ! sn_index s) \<and>
    (\<forall>s \<in> set (butlast trace). should_fallback (sn_status s) (sn_err s)) \<and>
    (trace \<noteq> [] \<and> \<not> should_fallback (sn_status (last trace)) (sn_err (last trace)) \<longrightarrow>
       status = sn_status (last trace) \<and> err = None \<and> fr_provider result = pc_name (sn_config (last trace)) \<and>
       fr_model result = sn_model (last trace)) \<and>
    (\<forall>keys. own = Some keys \<longrightarrow> pool' = pool \<and>
       (\<forall>s \<in> set trace. keys (pc_name (sn_config s)) \<noteq> '''' \<and>
          pc_credential (sn_config s) = OwnCredential (keys (pc_name (sn_config s)))))"
  using forward_ok [OF assms] attempts_for_length [of router provider model]
  by (auto simp: walk_ok_def send_failed_def should_fallback_def)

theorem fallback_respects_keys_witness:
  "\<exists>pool' trace out. forward_with_fallback sample_upstream (Some new_router) (Some sample_pool) (Some sample_own)
      ''openai'' ''gpt-4o'' ''hi'' = (pool', trace, out) \<and> pool' = Some sample_pool \<and> length trace \<le> 3 \<and>
    map sn_index trace = [0, 1] \<and> map (pc_credential \<circ> sn_config) trace = [OwnCredential ''own-o'', OwnCredential ''own-a'']"
proof -
  obtain pool' trace rb status result err where
    f: "forward_with_fallback sample_upstream (Some new_router) (Some sample_pool) (Some sample_own)
      ''openai'' ''gpt-4o'' ''hi'' = (pool', trace, rb, status, result, err)" by (metis prod.collapse)
  have "map sn_index (fst (snd (forward_with_fallback sample_upstream (Some new_router) (Some sample_pool) (Some sample_own)
      ''openai'' ''gpt-4o'' ''hi''))) = [0, 1]" by code_simp
  moreover have "map (pc_credential \<circ> sn_config) (fst (snd (forward_with_fallback sample_upstream (Some new_router)
      (Some sample_pool) (Some sample_own) ''openai'' ''gpt-4o'' ''hi''))) =
      [OwnCredential ''own-o'', OwnCredential ''own-a'']" by code_simp
  ultimately show ?thesis using fallback_respects_keys [OF f] f by auto
qed






text \<open>
  C37. An executor calls the upstream at most as often as its policy allows, and not at all when the
  provider's breaker refuses; every call that was followed by another had failed in a way that
  can be retried (never on a 4xx other than 429, never after the request was cancelled), it
  succeeds exactly when its last call did, with that call's value, and it leaves the breakers
  of the other providers alone.
\<close>

theorem executor_attempts:
  assumes "execute p backoff s r provider = (r', (res, err), n)"
  shows "n \<le> attempts_of p \<and>
    (n = 0 \<longleftrightarrow> \<not> admits (sr_allow_at s 0) (snd (get_or_create r provider))) \<and>
    (\<forall>m. Suc m < n \<longrightarrow> \<not> answered_ok s m \<and> answered_retryable s m \<and> \<not> sr_cancelled s m \<and>
       (let status = fst (snd (sr_answer s m)) in status < 400 \<or> status = 429 \<or> 500 \<le> status)) \<and>
    (err = None \<longleftrightarrow> 0 < n \<and> answered_ok s (n - 1)) \<and>
    (err = None \<longrightarrow> er_value res = Some (fst (sr_answer s (n - 1)))) \<and>
    (\<forall>q. q \<noteq> provider \<longrightarrow> rg_breakers r' q = rg_breakers r q)"
proof -
  have "status < 400 \<or> status = 429 \<or> 500 \<le> status" if "is_retryable e status" for e status
    using that by (auto simp: is_retryable_def retryable_statuses_def split: if_splits)
  then show ?thesis
    using execute_calls [OF assms] by (auto simp: answered_retryable_def Let_def split_beta)
qed

theorem executor_attempts_witness:
  "\<exists>r' res err n. execute three_tries (\<lambda>_. 0) flaky (new_registry 0 0 0) ''openai'' = (r', (res, err), n) \<and>
    n \<le> 3 \<and> n \<noteq> 0"
proof -
  obtain r' res err n where e: "execute three_tries (\<lambda>_. 0) flaky (new_registry 0 0 0) ''openai'' = (r', (res, err), n)"
    by (metis prod.collapse)
  have "admits 0 (snd (get_or_create (new_registry 0 0 0) ''openai''))" by code_simp
  with executor_attempts [OF e] e show ?thesis by (auto simp: attempts_of_def three_tries_def flaky_def)
qed

text \<open>
  C38. At any time at most one instance leads a job with a lease that has not run out, whatever the
  instances do and whichever replies are lost, if Redis keeps what its documentation promises
  of GET, SET NX PX, PEXPIRE and DEL.
\<close>

theorem at_most_one_leader:
  assumes "redis_leases R" and "leader_reach R job ttl c"
    and "leads_now ttl c i" and "leads_now ttl c j"
  shows "i = j \<and> rd_get R (cu_redis c) (cu_now c) (leader_key job) = Some i"
proof
  have ok: "leases_ok R job ttl c" by (rule reach_leases [OF assms(2,1)])
  show "i = j" by (rule one_leader [OF ok assms(3,4)])
  show "rd_get R (cu_redis c) (cu_now c) (leader_key job) = Some i"
    using assms(3) leases_okD [OF ok] by (auto simp: leads_now_def)
qed

theorem at_most_one_leader_witness:
  "leads_now 30 one_leader_up ''a'' \<and>
   rd_get map_redis (cu_redis one_leader_up) (cu_now one_leader_up) (leader_key ''job'') = Some ''a''"
proof -
  have "cu_role one_leader_up ''a'' = Leading 0" and "cu_now one_leader_up = 0" by code_simp+
  then have l: "leads_now 30 one_leader_up ''a''" by (simp add: leads_now_def)
  from at_most_one_leader [OF map_redis_leases one_leader_reached l l] l show ?thesis by blast
qed



text \<open>
  C40. The rule a request is limited by is the most specific one that applies to its workspace and
  key, the first of them in a tie, and no rule when none applies; the request is denied exactly
  when one of the rule's windows was counted over its limit or, those passed, the shared
  limiter refuses; a counter Redis did not answer for never denies.
\<close>

theorem rate_limit_decision:
  shows "\<exists>r. match_rule rls ws key = r \<and>
    ((r = no_rule \<and> (\<forall>q \<in> set rls. rule_score ws key q = None)) \<or> (\<exists>n. wins ws key rls r n)) \<and>
    (ra_allowed (check_rate rls True counted shared ws key) \<longleftrightarrow>
       \<not> (\<exists>w \<in> set (windows_for r). 0 < rw_limit w \<and> (\<exists>n ttl. counted w = Some (n, ttl) \<and> rw_limit w < n)) \<and>
       (case shared of None \<Rightarrow> True | Some answer \<Rightarrow> answer r))"
proof -
  let ?r = "match_rule rls ws key"
  have "ra_allowed (check_rate rls True counted shared ws key) \<longleftrightarrow>
      \<not> isl (check_windows counted (windows_for ?r) (- 1)) \<and>
      (case shared of None \<Rightarrow> True | Some answer \<Rightarrow> answer ?r)"
    using check_windows_denied [of counted "windows_for ?r" "- 1"]
    by (auto simp: check_rate_def Let_def split: sum.split option.split)
  then show ?thesis using match_rule_wins [of rls ws key] by (auto simp: check_windows_iff)
qed

theorem rate_limit_decision_witness:
  "\<not> ra_allowed (check_rate sample_rate_rules True (\<lambda>w. Some (6, 10)) None ''w'' ''k'')"
proof -
  have m: "match_rule sample_rate_rules ''w'' ''k'' = no_rule\<lparr>ru_workspace := ''w'', ru_per_minute := 5\<rparr>"
    by code_simp
  have "list_ex (\<lambda>w. 0 < rw_limit w \<and> rw_limit w < 6) (windows_for (no_rule\<lparr>ru_workspace := ''w'', ru_per_minute := 5\<rparr>))"
    by code_simp
  then show ?thesis
    using rate_limit_decision [of sample_rate_rules "''w''" "''k''" "\<lambda>w. Some (6, 10)" None]
    by (auto simp: m list_ex_iff)
qed

end
